(* ===== verification/InferLab_Prelude.thy ===== *)
theory InferLab_Prelude
  imports Main "HOL-Library.Sublist"
begin

text \<open>
  Shared vocabulary of the development: the unsigned integer widths of the source with the
  saturating operations it uses on them, results (\<open>Inl\<close> is Rust's \<open>Err\<close>), the byte-string
  helpers of Rust's \<open>str\<close> (\<open>trim\<close>, \<open>starts_with\<close>, ASCII classes), and generic facts on lists
  (agreement of prefixes, take/drop) that several components need.

  A \<open>u64\<close>, \<open>u32\<close> or \<open>usize\<close> is a \<^typ>\<open>nat\<close>; the places where the source saturates, checks or
  wraps are written out.  A \<open>String\<close> is its UTF-8 byte sequence, so \<^const>\<open>length\<close> is Rust's
  \<open>len()\<close>.
\<close>

named_theorems u64_simps \<open>bounds and normal forms of the saturating operations\<close>

section \<open>Unsigned integers\<close>

definition u64_max :: nat where "u64_max = 2 ^ 64 - 1"

definition u32_max :: nat where "u32_max = 2 ^ 32 - 1"

definition sat_add64 :: "nat \<Rightarrow> nat \<Rightarrow> nat" where
  "sat_add64 a b = min (a + b) u64_max"

definition sat_add32 :: "nat \<Rightarrow> nat \<Rightarrow> nat" where
  "sat_add32 a b = min (a + b) u32_max"

definition sat_mul64 :: "nat \<Rightarrow> nat \<Rightarrow> nat" where
  "sat_mul64 a b = min (a * b) u64_max"

text \<open>\<open>saturating_sub\<close> is the truncated subtraction of \<^typ>\<open>nat\<close>; \<open>u64::try_from(len)\<close> with
  \<open>unwrap_or(u64::MAX)\<close> is the following clamp.\<close>

definition u64_of_len :: "nat \<Rightarrow> nat" where
  "u64_of_len n = min n u64_max"

text \<open>\<open>fetch_add(1)\<close> on an atomic, and \<open>+= 1\<close> on a \<open>u64\<close> in a release build, wrap around.\<close>

definition wrap64 :: "nat \<Rightarrow> nat" where
  "wrap64 n = n mod 2 ^ 64"

definition inc64 :: "nat \<Rightarrow> nat" where
  "inc64 n = wrap64 (n + 1)"

text \<open>A \<open>Duration\<close>, and an \<open>Instant\<close> since some origin, is its number of nanoseconds.
  \<open>duration_millis\<close> is \<open>u64::try_from(d.as_millis()).unwrap_or(u64::MAX)\<close>, a helper the gateway
  repeats in several files.\<close>

definition from_millis :: "nat \<Rightarrow> nat" where
  "from_millis n = n * 1000000"

definition from_secs :: "nat \<Rightarrow> nat" where
  "from_secs n = n * 1000000000"

definition duration_millis :: "nat \<Rightarrow> nat" where
  "duration_millis d = min (d div 1000000) u64_max"

lemma u64_max_pos [simp]: "0 < u64_max"
  by (simp add: u64_max_def)

lemma sat_add64_exact [u64_simps]: "a + b \<le> u64_max \<Longrightarrow> sat_add64 a b = a + b"
  by (simp add: sat_add64_def)

lemma sat_add64_le_max [u64_simps]: "sat_add64 a b \<le> u64_max"
  by (simp add: sat_add64_def)

lemma sat_add64_ge_left [u64_simps]: "a \<le> u64_max \<Longrightarrow> a \<le> sat_add64 a b"
  by (simp add: sat_add64_def)

lemma sat_add64_max [u64_simps]: "sat_add64 u64_max b = u64_max"
  by (simp add: sat_add64_def)

lemma sat_add64_Suc: "a < u64_max \<Longrightarrow> sat_add64 a 1 = Suc a"
  by (simp add: sat_add64_def)

lemma inc64_Suc [u64_simps]: "n < u64_max \<Longrightarrow> inc64 n = Suc n"
  by (simp add: inc64_def wrap64_def u64_max_def)

lemma inc64_less: "inc64 n < 2 ^ 64"
  by (simp add: inc64_def wrap64_def)

lemma u64_of_len_id [u64_simps]: "n \<le> u64_max \<Longrightarrow> u64_of_len n = n"
  by (simp add: u64_of_len_def)

section \<open>Results\<close>

type_synonym ('e, 'a) result = "'e + 'a"

definition is_ok :: "('e, 'a) result \<Rightarrow> bool" where
  "is_ok r = (case r of Inl _ \<Rightarrow> False | Inr _ \<Rightarrow> True)"

lemma is_ok_simps [simp]: "is_ok (Inr x)" "\<not> is_ok (Inl e)"
  by (simp_all add: is_ok_def)

text \<open>The \<open>?\<close> operator on pure results.\<close>

definition and_then :: "('e, 'a) result \<Rightarrow> ('a \<Rightarrow> ('e, 'b) result) \<Rightarrow> ('e, 'b) result" where
  "and_then r f = (case r of Inl e \<Rightarrow> Inl e | Inr x \<Rightarrow> f x)"

lemma and_then_simps [simp]: "and_then (Inl e) f = Inl e" "and_then (Inr x) f = f x"
  by (simp_all add: and_then_def)

lemma and_then_Inr_iff: "and_then r f = Inr y \<longleftrightarrow> (\<exists>x. r = Inr x \<and> f x = Inr y)"
  by (cases r) auto

lemma case_option_Inr_iff: "(case x of None \<Rightarrow> Inl e | Some k \<Rightarrow> f k) = Inr y \<longleftrightarrow> (\<exists>k. x = Some k \<and> f k = Inr y)"
  by (cases x) auto

lemma if_Inl_Inr_iff: "(if b then Inl e else z) = Inr y \<longleftrightarrow> \<not> b \<and> z = Inr y"
  by auto

section \<open>Byte strings\<close>

text \<open>The UTF-8 encodings of the characters with the Unicode property \<open>White_Space\<close>, which
  Rust's \<open>str::trim\<close> removes.\<close>

definition ws_encodings :: "string list" where
  "ws_encodings =
     map (\<lambda>n. [char_of n]) [9, 10, 11, 12, 13, 32 :: nat]
     @ map (map char_of)
         ([[194, 133], [194, 160], [225, 154, 128]]
          @ map (\<lambda>k. [226, 128, k]) [128 ..< 139]
          @ [[226, 128, 168], [226, 128, 169], [226, 128, 175], [226, 129, 159],
             [227, 128, 128 :: nat]])"

fun strip_any :: "string list \<Rightarrow> string \<Rightarrow> string option" where
  "strip_any [] s = None"
| "strip_any (w # ws) s =
     (if w \<noteq> [] \<and> take (length w) s = w then Some (drop (length w) s) else strip_any ws s)"

lemma strip_any_shorter: "strip_any ws s = Some r \<Longrightarrow> length r < length s"
proof (induction ws)
  case (Cons w ws)
  then show ?case
    by (cases s) (auto split: if_splits)
qed simp

function strip_all :: "string list \<Rightarrow> string \<Rightarrow> string" where
  "strip_all ws s = (case strip_any ws s of None \<Rightarrow> s | Some r \<Rightarrow> strip_all ws r)"
  by pat_completeness auto
termination
  by (relation "measure (\<lambda>(ws, s). length s)") (auto dest: strip_any_shorter)

declare strip_all.simps [simp del]

definition trim_start :: "string \<Rightarrow> string" where
  "trim_start s = strip_all ws_encodings s"

definition trim_end :: "string \<Rightarrow> string" where
  "trim_end s = rev (strip_all (map rev ws_encodings) (rev s))"

definition trim :: "string \<Rightarrow> string" where
  "trim s = trim_end (trim_start s)"

definition starts_with :: "string \<Rightarrow> string \<Rightarrow> bool" where
  "starts_with p s = (take (length p) s = p)"

definition is_ascii_digit :: "char \<Rightarrow> bool" where
  "is_ascii_digit c = (let n = (of_char c :: nat) in 48 \<le> n \<and> n \<le> 57)"

definition is_ascii_alphanumeric :: "char \<Rightarrow> bool" where
  "is_ascii_alphanumeric c =
     (let n = (of_char c :: nat) in
      48 \<le> n \<and> n \<le> 57 \<or> 65 \<le> n \<and> n \<le> 90 \<or> 97 \<le> n \<and> n \<le> 122)"

definition to_ascii_lower :: "char \<Rightarrow> char" where
  "to_ascii_lower c = (let n = (of_char c :: nat) in if 65 \<le> n \<and> n \<le> 90 then char_of (n + 32) else c)"

text \<open>Nothing is trimmed from a string that starts and ends with a letter or digit.\<close>

lemma strip_any_None:
  "list_all (\<lambda>w. w \<noteq> [] \<and> \<not> is_ascii_alphanumeric (hd w)) ws \<Longrightarrow> s = [] \<or> is_ascii_alphanumeric (hd s) \<Longrightarrow>
   strip_any ws s = None"
proof (induction ws)
  case (Cons w ws)
  then show ?case by (cases w; cases s) auto
qed simp

lemma ws_encodings_ends:
  "list_all (\<lambda>w. w \<noteq> [] \<and> \<not> is_ascii_alphanumeric (hd w)) ws_encodings"
  "list_all (\<lambda>w. w \<noteq> [] \<and> \<not> is_ascii_alphanumeric (hd w)) (map rev ws_encodings)"
  by (simp_all add: ws_encodings_def is_ascii_alphanumeric_def upt_rec)

lemma trim_alnum:
  assumes "is_ascii_alphanumeric (hd s)" "is_ascii_alphanumeric (last s)"
  shows "trim s = s"
proof -
  have "strip_all ws_encodings s = s"
    using strip_any_None[OF ws_encodings_ends(1)] assms(1) by (simp add: strip_all.simps)
  moreover have "strip_all (map rev ws_encodings) (rev s) = rev s"
    using strip_any_None[OF ws_encodings_ends(2)] assms(2)
    by (cases s rule: rev_cases) (simp_all add: strip_all.simps)
  ultimately show ?thesis by (simp add: trim_def trim_start_def trim_end_def)
qed

section \<open>Lists\<close>

text \<open>Two lists agree on their first \<open>k\<close> positions, and both have them.\<close>

definition agree :: "nat \<Rightarrow> 'a list \<Rightarrow> 'a list \<Rightarrow> bool" where
  "agree k xs ys \<longleftrightarrow> k \<le> length xs \<and> k \<le> length ys \<and> take k xs = take k ys"

lemma agree_refl: "k \<le> length xs \<Longrightarrow> agree k xs xs"
  by (simp add: agree_def)

lemma agree_sym: "agree k xs ys \<Longrightarrow> agree k ys xs"
  by (simp add: agree_def)

lemma agree_trans [trans]: "agree k xs ys \<Longrightarrow> agree k ys zs \<Longrightarrow> agree k xs zs"
  by (simp add: agree_def)

lemma take_mono_eq: "take n xs = take n ys \<Longrightarrow> m \<le> n \<Longrightarrow> take m xs = take m ys"
  by (metis min.absorb1 take_take)

lemma agree_mono: "agree n xs ys \<Longrightarrow> m \<le> n \<Longrightarrow> agree m xs ys"
  by (auto simp: agree_def dest: take_mono_eq)

lemma agree_append: "agree k xs ys \<Longrightarrow> agree k xs (ys @ zs)"
  by (simp add: agree_def)

lemma agree_nth: "agree k xs ys \<Longrightarrow> i < k \<Longrightarrow> xs ! i = ys ! i"
  by (metis agree_def nth_take)

lemma agree_iff_nth:
  "agree k xs ys \<longleftrightarrow> k \<le> length xs \<and> k \<le> length ys \<and> (\<forall>i<k. xs ! i = ys ! i)"
  by (auto simp: list_eq_iff_nth_eq agree_def)

end
