(* ===== verification/Raft_Types.thy ===== *)
theory Raft_Types
  imports InferLab_Prelude
begin

text \<open>
  The data of the replicated control plane (\<open>control-plane/src/model.rs\<close>), its error type
  (\<open>control-plane/src/lib.rs\<close>) and its stable storage (\<open>control-plane/src/storage.rs\<close>).

  Error constructors keep the source's kinds and drop the formatted message text.  The state
  file is modelled by what reading it gives: \<open>StableStorage::save\<close> replaces the file by a
  temporary one with \<open>rename\<close>, so a later read finds either the old or the new state, never a
  mixture; which of the two a failed save leaves behind is an outcome of the host.
\<close>

section \<open>Errors\<close>

datatype raft_error =
    Invalid
  | Unauthorized
  | Forbidden
  | Conflict
  | NotLeader "string option"
  | Unavailable
  | Storage

definition error_code :: "raft_error \<Rightarrow> string" where
  "error_code e = (case e of
       Invalid \<Rightarrow> ''invalid_request''
     | Unauthorized \<Rightarrow> ''unauthorized''
     | Forbidden \<Rightarrow> ''forbidden''
     | Conflict \<Rightarrow> ''revision_conflict''
     | NotLeader _ \<Rightarrow> ''not_leader''
     | Unavailable \<Rightarrow> ''unavailable''
     | Storage \<Rightarrow> ''storage_error'')"

definition error_status :: "raft_error \<Rightarrow> nat" where
  "error_status e = (case e of
       Invalid \<Rightarrow> 400
     | Unauthorized \<Rightarrow> 401
     | Forbidden \<Rightarrow> 403
     | Conflict \<Rightarrow> 409
     | NotLeader _ \<Rightarrow> 409
     | Unavailable \<Rightarrow> 503
     | Storage \<Rightarrow> 500)"

section \<open>Model\<close>

definition DEFAULT_CLUSTER_ID :: string where
  "DEFAULT_CLUSTER_ID = ''inferlab-default''"

definition cluster_id_byte :: "char \<Rightarrow> bool" where
  "cluster_id_byte c = (is_ascii_alphanumeric c \<or> c \<in> set ''._-'')"

definition validate_cluster_id :: "string \<Rightarrow> (raft_error, unit) result" where
  "validate_cluster_id cid =
     (if cid \<noteq> [] \<and> length cid \<le> 128 \<and> list_all cluster_id_byte cid
      then Inr () else Inl Invalid)"

datatype role = Follower | Candidate | Leader

record worker_configuration =
  wc_id :: string
  wc_base_url :: string
  wc_weight :: nat

record routing_configuration =
  routing_policy :: string
  workers :: "worker_configuration list"

record committed_write_provenance =
  writer_id :: string
  issued_at_ms :: nat
  nonce :: string

definition POLICIES :: "string list" where
  "POLICIES = [''round-robin'', ''least-in-flight'', ''weighted-round-robin'',
               ''ewma-latency'', ''consistent-hash'']"

text \<open>The loop over the workers; the accumulator is the \<open>HashSet\<close> of trimmed identities.\<close>

fun validate_workers :: "string set \<Rightarrow> worker_configuration list \<Rightarrow> (raft_error, unit) result" where
  "validate_workers seen [] = Inr ()"
| "validate_workers seen (w # ws) =
     (if trim (wc_id w) = [] \<or> 100 < length (wc_id w) then Inl Invalid
      else if trim (wc_id w) \<in> seen then Inl Invalid
      else if wc_weight w = 0 then Inl Invalid
      else if \<not> (starts_with ''http://'' (wc_base_url w) \<or> starts_with ''https://'' (wc_base_url w))
      then Inl Invalid
      else validate_workers (insert (trim (wc_id w)) seen) ws)"

definition validate_configuration :: "routing_configuration \<Rightarrow> (raft_error, unit) result" where
  "validate_configuration c =
     (if routing_policy c \<notin> set POLICIES then Inl Invalid
      else if workers c = [] \<or> 100 < length (workers c) then Inl Invalid
      else validate_workers {} (workers c))"

record committed_configuration =
  cc_cluster_id :: string
  cc_revision :: nat
  cc_term :: nat
  cc_configuration :: routing_configuration
  cc_writer :: "committed_write_provenance option"

datatype command =
    Noop
  | SetRoutingConfiguration routing_configuration "committed_write_provenance option"

record log_entry =
  entry_index :: nat
  entry_term :: nat
  entry_command :: command

record persistent_state =
  ps_cluster_id :: string
  current_term :: nat
  voted_for :: "string option"
  raft_log :: "log_entry list"
  commit_index :: nat

definition default_persistent_state :: persistent_state where
  "default_persistent_state =
     \<lparr>ps_cluster_id = [], current_term = 0, voted_for = None, raft_log = [], commit_index = 0\<rparr>"

record request_vote_request =
  rv_cluster_id :: string
  rv_term :: nat
  rv_candidate_id :: string
  rv_last_log_index :: nat
  rv_last_log_term :: nat

record request_vote_response =
  rvr_term :: nat
  rvr_vote_granted :: bool

record append_entries_request =
  ae_cluster_id :: string
  ae_term :: nat
  ae_leader_id :: string
  ae_prev_log_index :: nat
  ae_prev_log_term :: nat
  ae_entries :: "log_entry list"
  ae_leader_commit :: nat

record append_entries_response =
  aer_term :: nat
  aer_success :: bool
  aer_match_index :: nat

record trace_event =
  te_at_ms :: nat
  te_node_id :: string
  te_event :: string
  te_term :: nat
  te_role :: role
  te_leader_id :: "string option"
  te_log_index :: "nat option"

section \<open>Stable storage\<close>

text \<open>What \<open>fs::read\<close> and \<open>serde_json::from_slice\<close> make of the state file.\<close>

datatype state_file = NotFound | Unreadable | Undecodable | Decoded persistent_state

fun validate_entries_from :: "nat \<Rightarrow> log_entry list \<Rightarrow> (raft_error, unit) result" where
  "validate_entries_from offset [] = Inr ()"
| "validate_entries_from offset (e # es) =
     (if entry_index e \<noteq> sat_add64 (u64_of_len offset) 1 \<or> entry_term e = 0 then Inl Storage
      else validate_entries_from (Suc offset) es)"

definition validate_persistent_state :: "persistent_state \<Rightarrow> (raft_error, unit) result" where
  "validate_persistent_state p =
     (if ps_cluster_id p \<noteq> [] \<and> \<not> is_ok (validate_cluster_id (ps_cluster_id p)) then Inl Storage
      else if u64_of_len (length (raft_log p)) < commit_index p then Inl Storage
      else validate_entries_from 0 (raft_log p))"

definition storage_load :: "state_file \<Rightarrow> (raft_error, persistent_state) result" where
  "storage_load f = (case f of
       NotFound \<Rightarrow> Inr default_persistent_state
     | Unreadable \<Rightarrow> Inl Storage
     | Undecodable \<Rightarrow> Inl Storage
     | Decoded p \<Rightarrow> (case validate_persistent_state p of Inl e \<Rightarrow> Inl e | Inr _ \<Rightarrow> Inr p))"

text \<open>
  The host's part of one \<open>save\<close>: everything succeeds; a step up to and including \<open>rename\<close>
  fails, so the old file stays; \<open>rename\<close> succeeded and the directory \<open>sync_all\<close> failed, so
  the caller sees an error although the new file is in place.
\<close>

datatype save_outcome = SaveOk | SaveLost | SaveUnsynced

definition storage_save ::
  "save_outcome \<Rightarrow> persistent_state \<Rightarrow> state_file \<Rightarrow> state_file \<times> (raft_error, unit) result" where
  "storage_save out p f =
     (case validate_persistent_state p of
        Inl e \<Rightarrow> (f, Inl e)
      | Inr _ \<Rightarrow> (case out of
            SaveOk \<Rightarrow> (Decoded p, Inr ())
          | SaveLost \<Rightarrow> (f, Inl Storage)
          | SaveUnsynced \<Rightarrow> (Decoded p, Inl Storage)))"

section \<open>Properties of validation and storage\<close>

lemma validate_workers_sound:
  "validate_workers seen ws = Inr () \<Longrightarrow>
     distinct (map (trim \<circ> wc_id) ws) \<and> (trim \<circ> wc_id) ` set ws \<inter> seen = {}
     \<and> (\<forall>w\<in>set ws. trim (wc_id w) \<noteq> [] \<and> length (wc_id w) \<le> 100 \<and> 0 < wc_weight w)"
  by (induction seen ws rule: validate_workers.induct) (auto split: if_splits)

text \<open>The log on disk or in memory: positions carry their own index and terms are positive.\<close>

definition indexed_log :: "log_entry list \<Rightarrow> bool" where
  "indexed_log es \<longleftrightarrow> (\<forall>i<length es. entry_index (es ! i) = Suc i \<and> 0 < entry_term (es ! i))"

lemma validate_entries_from_iff:
  assumes "offset + length es \<le> u64_max"
  shows "validate_entries_from offset es = Inr () \<longleftrightarrow>
    (\<forall>i<length es. entry_index (es ! i) = Suc (offset + i) \<and> 0 < entry_term (es ! i))"
  using assms
proof (induction offset es rule: validate_entries_from.induct)
  case (2 offset e es)
  then have [simp]: "sat_add64 (u64_of_len offset) (Suc 0) = Suc offset"
    by (simp add: sat_add64_def u64_of_len_def)
  show ?case
    using 2 by (auto simp: less_Suc_eq_0_disj)
qed simp

lemma validate_entries_indexed:
  "length es \<le> u64_max \<Longrightarrow> validate_entries_from 0 es = Inr () \<longleftrightarrow> indexed_log es"
  by (simp add: validate_entries_from_iff indexed_log_def)

definition wf_persistent :: "persistent_state \<Rightarrow> bool" where
  "wf_persistent p \<longleftrightarrow>
     (ps_cluster_id p \<noteq> [] \<longrightarrow> is_ok (validate_cluster_id (ps_cluster_id p)))
     \<and> commit_index p \<le> length (raft_log p) \<and> indexed_log (raft_log p)"

lemma validate_persistent_iff:
  "length (raft_log p) \<le> u64_max \<Longrightarrow> validate_persistent_state p = Inr () \<longleftrightarrow> wf_persistent p"
  by (auto simp: validate_persistent_state_def wf_persistent_def validate_entries_indexed u64_simps)

lemma storage_load_wf:
  "storage_load f = Inr p \<Longrightarrow> length (raft_log p) \<le> u64_max \<Longrightarrow> wf_persistent p"
  by (auto simp: storage_load_def default_persistent_state_def wf_persistent_def indexed_log_def
      validate_persistent_iff split: state_file.splits sum.splits)

lemma storage_save_load:
  "storage_save out p f = (f', Inr ()) \<Longrightarrow> storage_load f' = Inr p"
  by (auto simp: storage_save_def storage_load_def split: sum.splits save_outcome.splits)

lemma storage_save_atomic:
  "storage_save out p f = (f', r) \<Longrightarrow> f' = f \<or> f' = Decoded p"
  by (auto simp: storage_save_def split: sum.splits save_outcome.splits)

end
