(* ===== verification/Raft_Node.thy ===== *)
theory Raft_Node
  imports Raft_Types
begin

text \<open>
  One Raft node (\<open>control-plane/src/raft.rs\<close>).  \<open>RaftNode\<close> keeps its \<open>VolatileState\<close> behind a
  mutex, and every handler holds the guard from the check to the reply, so a handler is one
  function on the node.  \<open>campaign\<close> and \<open>replicate_round\<close> release the guard while they wait for
  peers; each is therefore a \<open>begin\<close> function (up to the requests) and a \<open>finish\<close> function (from
  the collected responses), with the responses as an argument.

  The host is the record \<open>host_env\<close>: the clocks, the hash used for the election jitter, the
  outcome of the \<open>k\<close>-th \<open>persist_locked\<close> and \<open>trace_locked\<close> of the call, and whether request
  signing succeeds.  A \<open>Duration\<close> or an \<open>Instant\<close> is a number of nanoseconds.  An error leaves
  the mutated state in place, as returning \<open>Err\<close> with the guard held does, so every operation
  returns the node together with its result.  A poisoned mutex (a panic inside a handler) and
  the HTTP client are not modelled.
\<close>

section \<open>Configuration and state\<close>

record peer =
  peer_id :: string
  base_url :: string

record node_config =
  node_id :: string
  cluster_id :: string
  peers :: "peer list"
  election_timeout_min :: nat
  election_timeout_max :: nat
  heartbeat_interval :: nat
  rpc_timeout :: nat
  commit_timeout :: nat

fun validate_peers :: "string set \<Rightarrow> peer list \<Rightarrow> (raft_error, unit) result" where
  "validate_peers identities [] = Inr ()"
| "validate_peers identities (p # ps) =
     (if trim (peer_id p) = [] \<or> trim (base_url p) = [] then Inl Invalid
      else if peer_id p \<in> identities then Inl Invalid
      else validate_peers (insert (peer_id p) identities) ps)"

definition validate_config :: "node_config \<Rightarrow> (raft_error, unit) result" where
  "validate_config c =
     (if trim (node_id c) = [] then Inl Invalid
      else and_then (validate_cluster_id (cluster_id c)) (\<lambda>_.
        if length (peers c) \<noteq> 2 then Inl Invalid
        else and_then (validate_peers {node_id c} (peers c)) (\<lambda>_.
          if election_timeout_max c \<le> election_timeout_min c then Inl Invalid
          else if election_timeout_min c \<le> heartbeat_interval c then Inl Invalid
          else if rpc_timeout c = 0 \<or> commit_timeout c = 0 then Inl Invalid
          else Inr ())))"

record volatile_state =
  persistent :: persistent_state
  node_role :: role
  leader_id :: "string option"
  last_applied :: nat
  committed :: "committed_configuration option"
  election_deadline :: nat
  heartbeat_deadline :: nat
  timeout_resets :: nat
  next_index :: "string \<rightharpoonup> nat"
  match_index :: "string \<rightharpoonup> nat"
  elections_started :: nat
  leadership_terms :: nat
  votes_granted :: nat
  append_entries_accepted :: nat
  append_entries_rejected :: nat
  replication_successes :: nat
  replication_failures :: nat
  recovering_from_disk :: bool
  storage_error :: "raft_error option"

record raft_node =
  config :: node_config
  vstate :: volatile_state
  disk :: state_file
  journal :: "trace_event list"

record host_env =
  mono_now :: nat
  unix_ms :: nat
  hash_value :: "string \<Rightarrow> nat \<Rightarrow> nat \<Rightarrow> nat \<Rightarrow> nat"
  save_result :: "nat \<Rightarrow> save_outcome"
  trace_ok :: "nat \<Rightarrow> bool"
  sign_ok :: bool

text \<open>Results that carry the node, and the \<open>?\<close> operator on them.\<close>

type_synonym 'a raft_step = "raft_node \<times> (raft_error, 'a) result"

definition bind_step :: "'a raft_step \<Rightarrow> (raft_node \<Rightarrow> 'a \<Rightarrow> 'b raft_step) \<Rightarrow> 'b raft_step" where
  "bind_step m f = (case m of (n, Inl e) \<Rightarrow> (n, Inl e) | (n, Inr x) \<Rightarrow> f n x)"

lemma bind_step_simps [simp]:
  "bind_step (n, Inl e) f = (n, Inl e)" "bind_step (n, Inr x) f = f n x"
  by (simp_all add: bind_step_def)

abbreviation pstate :: "raft_node \<Rightarrow> persistent_state" where
  "pstate n \<equiv> persistent (vstate n)"

definition upd_v :: "(volatile_state \<Rightarrow> volatile_state) \<Rightarrow> raft_node \<Rightarrow> raft_node" where
  "upd_v f n = n\<lparr>vstate := f (vstate n)\<rparr>"

definition upd_p :: "(persistent_state \<Rightarrow> persistent_state) \<Rightarrow> volatile_state \<Rightarrow> volatile_state" where
  "upd_p f v = v\<lparr>persistent := f (persistent v)\<rparr>"

definition cluster_size :: "node_config \<Rightarrow> nat" where
  "cluster_size c = length (peers c) + 1"

definition majority :: "node_config \<Rightarrow> nat" where
  "majority c = cluster_size c div 2 + 1"

section \<open>Helpers on the log\<close>

definition last_log_position :: "persistent_state \<Rightarrow> nat \<times> nat" where
  "last_log_position p =
     (if raft_log p = [] then (0, 0)
      else (entry_index (last (raft_log p)), entry_term (last (raft_log p))))"

definition log_term :: "persistent_state \<Rightarrow> nat \<Rightarrow> nat option" where
  "log_term p i =
     (if i = 0 then Some 0
      else if i - 1 < length (raft_log p) then Some (entry_term (raft_log p ! (i - 1)))
      else None)"

definition previous_matches :: "persistent_state \<Rightarrow> nat \<Rightarrow> nat \<Rightarrow> bool" where
  "previous_matches p i t \<longleftrightarrow> i = 0 \<and> t = 0 \<or> log_term p i = Some t"

fun validate_incoming_from :: "nat \<Rightarrow> nat \<Rightarrow> log_entry list \<Rightarrow> (raft_error, unit) result" where
  "validate_incoming_from prev offset [] = Inr ()"
| "validate_incoming_from prev offset (e # es) =
     (if entry_index e \<noteq> sat_add64 (sat_add64 prev (u64_of_len offset)) 1 \<or> entry_term e = 0
      then Inl Invalid
      else validate_incoming_from prev (Suc offset) es)"

definition validate_incoming_entries :: "nat \<Rightarrow> log_entry list \<Rightarrow> (raft_error, unit) result" where
  "validate_incoming_entries prev es = validate_incoming_from prev 0 es"

definition candidate_log_is_at_least_as_up_to_date :: "nat \<Rightarrow> nat \<Rightarrow> nat \<Rightarrow> nat \<Rightarrow> bool" where
  "candidate_log_is_at_least_as_up_to_date c_index c_term v_index v_term \<longleftrightarrow>
     v_term < c_term \<or> c_term = v_term \<and> v_index \<le> c_index"

definition highest_committable_index ::
  "persistent_state \<Rightarrow> nat \<Rightarrow> nat list \<Rightarrow> nat \<Rightarrow> nat option" where
  "highest_committable_index p t matches maj =
     find (\<lambda>k. log_term p k = Some t \<and> maj \<le> length (filter (\<lambda>m. k \<le> m) matches))
       (rev [sat_add64 (commit_index p) 1 ..< Suc (u64_of_len (length (raft_log p)))])"

fun apply_entries ::
  "string \<Rightarrow> committed_configuration option \<Rightarrow> log_entry list
     \<Rightarrow> (raft_error, committed_configuration option) result" where
  "apply_entries cid acc [] = Inr acc"
| "apply_entries cid acc (e # es) =
     (case entry_command e of
        Noop \<Rightarrow> apply_entries cid acc es
      | SetRoutingConfiguration c w \<Rightarrow>
          (case validate_configuration c of
             Inl _ \<Rightarrow> Inl Storage
           | Inr _ \<Rightarrow> apply_entries cid
               (Some \<lparr>cc_cluster_id = cid, cc_revision = entry_index e, cc_term = entry_term e,
                      cc_configuration = c, cc_writer = w\<rparr>) es))"

definition apply_committed ::
  "persistent_state \<Rightarrow> (raft_error, nat \<times> committed_configuration option) result" where
  "apply_committed p =
     and_then (apply_entries (ps_cluster_id p) None (take (commit_index p) (raft_log p)))
       (\<lambda>c. Inr (commit_index p, c))"

definition apply_committed_locked :: "raft_node \<Rightarrow> unit raft_step" where
  "apply_committed_locked n =
     (case apply_committed (pstate n) of
        Inl e \<Rightarrow> (n, Inl e)
      | Inr (la, c) \<Rightarrow> (upd_v (\<lambda>v. v\<lparr>last_applied := la, committed := c\<rparr>) n, Inr ()))"

section \<open>Deadlines, roles, persistence, tracing\<close>

definition as_millis_u64 :: "nat \<Rightarrow> nat" where
  "as_millis_u64 d = u64_of_len (d div 1000000)"

definition reset_election_deadline :: "host_env \<Rightarrow> node_config \<Rightarrow> volatile_state \<Rightarrow> volatile_state" where
  "reset_election_deadline env c v =
     (let resets = sat_add64 (timeout_resets v) 1;
          minimum = as_millis_u64 (election_timeout_min c);
          maximum = as_millis_u64 (election_timeout_max c);
          width = maximum - minimum;
          jitter = (if width = 0 then 0
                    else hash_value env (node_id c) (current_term (persistent v)) resets (unix_ms env)
                           mod width)
      in v\<lparr>timeout_resets := resets,
           election_deadline := mono_now env + (minimum + jitter) * 1000000\<rparr>)"

definition become_follower ::
  "host_env \<Rightarrow> node_config \<Rightarrow> nat \<Rightarrow> string option \<Rightarrow> volatile_state \<Rightarrow> volatile_state" where
  "become_follower env c t ldr v =
     (let v1 = (if current_term (persistent v) < t
                then upd_p (\<lambda>p. p\<lparr>current_term := t, voted_for := None\<rparr>) v else v)
      in reset_election_deadline env c
           (v1\<lparr>node_role := Follower, leader_id := ldr,
               next_index := Map.empty, match_index := Map.empty\<rparr>))"

definition persist_locked :: "host_env \<Rightarrow> nat \<Rightarrow> raft_node \<Rightarrow> unit raft_step" where
  "persist_locked env k n =
     (case storage_save (save_result env k) (pstate n) (disk n) of
        (f, Inl e) \<Rightarrow> (upd_v (\<lambda>v. v\<lparr>storage_error := Some e\<rparr>) (n\<lparr>disk := f\<rparr>), Inl e)
      | (f, Inr _) \<Rightarrow> (n\<lparr>disk := f\<rparr>, Inr ()))"

definition trace_locked ::
  "host_env \<Rightarrow> nat \<Rightarrow> string \<Rightarrow> nat option \<Rightarrow> raft_node \<Rightarrow> unit raft_step" where
  "trace_locked env k event idx n =
     (if trace_ok env k
      then (n\<lparr>journal := journal n @
              [\<lparr>te_at_ms = unix_ms env, te_node_id = node_id (config n), te_event = event,
                te_term = current_term (pstate n), te_role = node_role (vstate n),
                te_leader_id = leader_id (vstate n), te_log_index = idx\<rparr>]\<rparr>, Inr ())
      else (n, Inl Storage))"

definition require_storage :: "raft_node \<Rightarrow> unit raft_step" where
  "require_storage n = (case storage_error (vstate n) of Some _ \<Rightarrow> (n, Inl Storage) | None \<Rightarrow> (n, Inr ()))"

definition require_cluster_identity :: "string \<Rightarrow> raft_node \<Rightarrow> unit raft_step" where
  "require_cluster_identity observed n =
     (if observed = cluster_id (config n) then (n, Inr ()) else (n, Inl Invalid))"

text \<open>\<open>persist_if\<close> is the source's \<open>if persistent_changed { self.persist_locked(..)?; }\<close>, and
  \<open>trace_if\<close> the same for a guarded trace.\<close>

definition persist_if :: "bool \<Rightarrow> host_env \<Rightarrow> nat \<Rightarrow> raft_node \<Rightarrow> unit raft_step" where
  "persist_if b env k n = (if b then persist_locked env k n else (n, Inr ()))"

definition trace_if ::
  "bool \<Rightarrow> host_env \<Rightarrow> nat \<Rightarrow> string \<Rightarrow> nat option \<Rightarrow> raft_node \<Rightarrow> unit raft_step" where
  "trace_if b env k event idx n = (if b then trace_locked env k event idx n else (n, Inr ()))"

section \<open>Opening a node\<close>

definition initial_volatile ::
  "persistent_state \<Rightarrow> nat \<Rightarrow> committed_configuration option \<Rightarrow> nat \<Rightarrow> volatile_state" where
  "initial_volatile p la c now =
     \<lparr>persistent = p, node_role = Follower, leader_id = None, last_applied = la, committed = c,
      election_deadline = now, heartbeat_deadline = now, timeout_resets = 0,
      next_index = Map.empty, match_index = Map.empty, elections_started = 0,
      leadership_terms = 0, votes_granted = 0, append_entries_accepted = 0,
      append_entries_rejected = 0, replication_successes = 0, replication_failures = 0,
      recovering_from_disk = (raft_log p \<noteq> []), storage_error = None\<rparr>"

text \<open>The persisted cluster identity is adopted on first use and fenced afterwards.\<close>

definition adopt_cluster_id ::
  "host_env \<Rightarrow> node_config \<Rightarrow> state_file \<Rightarrow> state_file \<times> (raft_error, persistent_state) result" where
  "adopt_cluster_id env c f =
     (case storage_load f of
        Inl e \<Rightarrow> (f, Inl e)
      | Inr p \<Rightarrow>
          if ps_cluster_id p = [] then
            (let p' = p\<lparr>ps_cluster_id := cluster_id c\<rparr>
             in case storage_save (save_result env 0) p' f of
                  (f', Inl e) \<Rightarrow> (f', Inl e)
                | (f', Inr _) \<Rightarrow> (f', Inr p'))
          else if ps_cluster_id p \<noteq> cluster_id c then (f, Inl Storage)
          else (f, Inr p))"

definition open_node ::
  "host_env \<Rightarrow> node_config \<Rightarrow> trace_event list \<Rightarrow> state_file
     \<Rightarrow> state_file \<times> (raft_error, raft_node) result" where
  "open_node env c j f =
     (case validate_config c of
        Inl e \<Rightarrow> (f, Inl e)
      | Inr _ \<Rightarrow>
         (case adopt_cluster_id env c f of
            (f', Inl e) \<Rightarrow> (f', Inl e)
          | (f', Inr p) \<Rightarrow>
             (case apply_committed p of
                Inl e \<Rightarrow> (f', Inl e)
              | Inr (la, cc) \<Rightarrow>
                 (let n = \<lparr>config = c,
                           vstate = reset_election_deadline env c (initial_volatile p la cc (mono_now env)),
                           disk = f', journal = j\<rparr>
                  in case trace_locked env 0 ''node_started'' None n of
                       (n', Inl e) \<Rightarrow> (disk n', Inl e)
                     | (n', Inr _) \<Rightarrow> (disk n', Inr n')))))"


section \<open>RPC handlers\<close>

definition handle_request_vote ::
  "host_env \<Rightarrow> request_vote_request \<Rightarrow> raft_node \<Rightarrow> request_vote_response raft_step" where
  "handle_request_vote env req n =
     bind_step (require_cluster_identity (rv_cluster_id req) n) (\<lambda>n _.
     bind_step (require_storage n) (\<lambda>n _.
       let newer = current_term (pstate n) < rv_term req;
           n1 = (if newer then upd_v (become_follower env (config n) (rv_term req) None) n else n)
       in
       if rv_term req < current_term (pstate n1)
       then (n1, Inr \<lparr>rvr_term = current_term (pstate n1), rvr_vote_granted = False\<rparr>)
       else
         let (last_index, last_term) = last_log_position (pstate n1);
             candidate_is_current =
               candidate_log_is_at_least_as_up_to_date
                 (rv_last_log_index req) (rv_last_log_term req) last_index last_term;
             can_vote = (voted_for (pstate n1) = None
                         \<or> voted_for (pstate n1) = Some (rv_candidate_id req));
             vote_granted = (can_vote \<and> candidate_is_current);
             n2 = (if vote_granted
                   then upd_v (\<lambda>v. reset_election_deadline env (config n1)
                          ((upd_p (\<lambda>p. p\<lparr>voted_for := Some (rv_candidate_id req)\<rparr>) v)
                             \<lparr>votes_granted := sat_add64 (votes_granted v) 1\<rparr>)) n1
                   else n1)
         in
         bind_step (persist_if (newer \<or> vote_granted) env 0 n2) (\<lambda>n3 _.
         bind_step (trace_if vote_granted env 0 ''vote_granted'' (Some (rv_last_log_index req)) n3) (\<lambda>n4 _.
           (n4, Inr \<lparr>rvr_term = current_term (pstate n4), rvr_vote_granted = vote_granted\<rparr>)))))"

text \<open>The loop that merges the incoming entries into the log: the first position that differs
  is truncated away (never at or below the commit index) and replaced by the rest of the
  request; a position past the end appends the rest.  The flag says whether the log changed.\<close>

fun merge_entries ::
  "nat \<Rightarrow> nat \<Rightarrow> nat \<Rightarrow> log_entry list \<Rightarrow> log_entry list
     \<Rightarrow> (raft_error, log_entry list \<times> bool) result" where
  "merge_entries commit prev offset lg [] = Inr (lg, False)"
| "merge_entries commit prev offset lg (incoming # rest) =
     (let index = sat_add64 (sat_add64 prev (u64_of_len offset)) 1;
          position = index - 1
      in if position < length lg then
           (if lg ! position \<noteq> incoming then
              (if index \<le> commit then Inl Storage
               else Inr (take position lg @ (incoming # rest), True))
            else merge_entries commit prev (Suc offset) lg rest)
         else Inr (lg @ (incoming # rest), True))"

definition append_rejection :: "raft_node \<Rightarrow> append_entries_response raft_step" where
  "append_rejection n =
     (let n' = upd_v (\<lambda>v. v\<lparr>append_entries_rejected := sat_add64 (append_entries_rejected v) 1\<rparr>) n
      in (n', Inr \<lparr>aer_term = current_term (pstate n'), aer_success = False,
                   aer_match_index = fst (last_log_position (pstate n'))\<rparr>))"

text \<open>The part of \<open>handle_append_entries\<close> that follows the term of the request.\<close>

definition observe_leader :: "host_env \<Rightarrow> append_entries_request \<Rightarrow> raft_node \<Rightarrow> unit raft_step" where
  "observe_leader env req n =
     (if current_term (pstate n) < ae_term req
      then persist_locked env 0
             (upd_v (become_follower env (config n) (ae_term req) (Some (ae_leader_id req))) n)
      else (upd_v (\<lambda>v. reset_election_deadline env (config n)
                    (v\<lparr>node_role := Follower, leader_id := Some (ae_leader_id req)\<rparr>)) n, Inr ()))"

text \<open>\<open>new_commit\<close> and the application of newly committed entries.\<close>

definition advance_commit :: "nat \<Rightarrow> raft_node \<Rightarrow> bool raft_step" where
  "advance_commit leader_commit n =
     (let new_commit = min leader_commit (u64_of_len (length (raft_log (pstate n))))
      in if commit_index (pstate n) < new_commit
         then bind_step
                (apply_committed_locked (upd_v (upd_p (\<lambda>p. p\<lparr>commit_index := new_commit\<rparr>)) n))
                (\<lambda>n _. (n, Inr True))
         else (n, Inr False))"

definition handle_append_entries ::
  "host_env \<Rightarrow> append_entries_request \<Rightarrow> raft_node \<Rightarrow> append_entries_response raft_step" where
  "handle_append_entries env req n =
     bind_step (require_cluster_identity (ae_cluster_id req) n) (\<lambda>n _.
     bind_step (require_storage n) (\<lambda>n _.
       if ae_term req < current_term (pstate n) then append_rejection n
       else
         let previous_role = node_role (vstate n);
             previous_term = current_term (pstate n)
         in
         bind_step (observe_leader env req n) (\<lambda>n1 _.
           if \<not> previous_matches (pstate n1) (ae_prev_log_index req) (ae_prev_log_term req)
           then append_rejection n1
           else
             case validate_incoming_entries (ae_prev_log_index req) (ae_entries req) of
               Inl e \<Rightarrow> (n1, Inl e)
             | Inr _ \<Rightarrow>
                (case merge_entries (commit_index (pstate n1)) (ae_prev_log_index req) 0
                        (raft_log (pstate n1)) (ae_entries req) of
                   Inl e \<Rightarrow> (n1, Inl e)
                 | Inr (lg, log_changed) \<Rightarrow>
                    let n2 = upd_v (upd_p (\<lambda>p. p\<lparr>raft_log := lg\<rparr>)) n1;
                        matched_index = sat_add64 (ae_prev_log_index req)
                                          (u64_of_len (length (ae_entries req)))
                    in
                    bind_step (advance_commit (ae_leader_commit req) n2) (\<lambda>n3 commit_changed.
                    bind_step (persist_if (log_changed \<or> commit_changed) env 1 n3) (\<lambda>n4 _.
                      let repaired = (recovering_from_disk (vstate n4) \<and> log_changed);
                          n5 = upd_v (\<lambda>v. v\<lparr>recovering_from_disk := (recovering_from_disk v \<and> \<not> repaired),
                                 append_entries_accepted := sat_add64 (append_entries_accepted v) 1\<rparr>) n4
                      in
                      bind_step (trace_if (previous_term < current_term (pstate n5)
                                           \<or> previous_role \<noteq> Follower) env 0 ''leader_observed''
                                   (Some matched_index) n5) (\<lambda>n6 _.
                      bind_step (trace_if repaired env 1 ''log_repaired'' (Some matched_index) n6) (\<lambda>n7 _.
                        (n7, Inr \<lparr>aer_term = current_term (pstate n7), aer_success = True,
                                  aer_match_index = matched_index\<rparr>)))))))))"

section \<open>Elections\<close>

text \<open>The check before the campaign and the start of the election; the second function runs
  with the guard re-acquired.\<close>

definition campaign_due :: "host_env \<Rightarrow> raft_node \<Rightarrow> bool" where
  "campaign_due env n \<longleftrightarrow>
     \<not> (node_role (vstate n) = Leader \<or> mono_now env < election_deadline (vstate n))"

definition campaign_begin :: "host_env \<Rightarrow> raft_node \<Rightarrow> request_vote_request raft_step" where
  "campaign_begin env n =
     bind_step (require_storage n) (\<lambda>n _.
       let n1 = upd_v (\<lambda>v. reset_election_deadline env (config n)
                  ((upd_p (\<lambda>p. p\<lparr>current_term := sat_add64 (current_term p) 1,
                                 voted_for := Some (node_id (config n))\<rparr>) v)
                     \<lparr>node_role := Candidate, leader_id := None,
                      elections_started := sat_add64 (elections_started v) 1\<rparr>)) n
       in
       bind_step (persist_locked env 0 n1) (\<lambda>n2 _.
         let (last_log_index, last_log_term) = last_log_position (pstate n2)
         in
         bind_step (trace_locked env 0 ''election_started'' (Some last_log_index) n2) (\<lambda>n3 _.
           if \<not> sign_ok env then (n3, Inl Unavailable)
           else (n3, Inr \<lparr>rv_cluster_id = cluster_id (config n3), rv_term = current_term (pstate n3),
                          rv_candidate_id = node_id (config n3),
                          rv_last_log_index = last_log_index, rv_last_log_term = last_log_term\<rparr>))))"

text \<open>The loop over the collected responses: the number of votes and the highest term seen.\<close>

fun tally :: "nat \<Rightarrow> nat \<Rightarrow> nat \<Rightarrow> request_vote_response option list \<Rightarrow> nat \<times> nat" where
  "tally t votes highest [] = (votes, highest)"
| "tally t votes highest (None # rs) = tally t votes highest rs"
| "tally t votes highest (Some r # rs) =
     tally t (if rvr_term r = t \<and> rvr_vote_granted r then votes + 1 else votes)
       (max highest (rvr_term r)) rs"

definition peer_map :: "peer list \<Rightarrow> nat \<Rightarrow> (string \<rightharpoonup> nat)" where
  "peer_map ps k = map_of (map (\<lambda>p. (peer_id p, k)) ps)"

definition become_leader :: "host_env \<Rightarrow> raft_node \<Rightarrow> raft_node" where
  "become_leader env n =
     (let noop_index = sat_add64 (u64_of_len (length (raft_log (pstate n)))) 1;
          t = current_term (pstate n)
      in upd_v (\<lambda>v. (upd_p (\<lambda>p. p\<lparr>raft_log := raft_log p @
                        [\<lparr>entry_index = noop_index, entry_term = t, entry_command = Noop\<rparr>]\<rparr>) v)
                     \<lparr>node_role := Leader, leader_id := Some (node_id (config n)),
                      leadership_terms := sat_add64 (leadership_terms v) 1,
                      next_index := peer_map (peers (config n)) (sat_add64 noop_index 1),
                      match_index := (peer_map (peers (config n)) 0)
                                       (node_id (config n) \<mapsto> noop_index),
                      heartbeat_deadline := mono_now env\<rparr>) n)"

definition campaign_finish ::
  "host_env \<Rightarrow> request_vote_request \<Rightarrow> request_vote_response option list \<Rightarrow> raft_node
     \<Rightarrow> bool raft_step" where
  "campaign_finish env req responses n =
     (let (votes, highest_term) = tally (rv_term req) 1 (rv_term req) responses
      in if current_term (pstate n) < highest_term then
           bind_step (persist_locked env 0
                        (upd_v (become_follower env (config n) highest_term None) n)) (\<lambda>n1 _.
           bind_step (trace_locked env 0 ''stepped_down'' None n1) (\<lambda>n2 _. (n2, Inr False)))
         else if node_role (vstate n) = Candidate \<and> current_term (pstate n) = rv_term req
                 \<and> majority (config n) \<le> votes then
           bind_step (persist_locked env 0 (become_leader env n)) (\<lambda>n1 _.
           bind_step (trace_locked env 0 ''leader_elected''
                        (Some (sat_add64 (u64_of_len (length (raft_log (pstate n)))) 1)) n1) (\<lambda>n2 _.
             (n2, Inr True)))
         else (n, Inr False))"

section \<open>Replication\<close>

definition append_request_for :: "raft_node \<Rightarrow> peer \<Rightarrow> append_entries_request" where
  "append_request_for n p =
     (let lg = raft_log (pstate n);
          next = (case next_index (vstate n) (peer_id p) of
                    Some i \<Rightarrow> i | None \<Rightarrow> sat_add64 (u64_of_len (length lg)) 1);
          prev_index = next - 1;
          prev_term = (case log_term (pstate n) prev_index of Some t \<Rightarrow> t | None \<Rightarrow> 0);
          start = min (next - 1) (length lg)
      in \<lparr>ae_cluster_id = cluster_id (config n), ae_term = current_term (pstate n),
          ae_leader_id = node_id (config n), ae_prev_log_index = prev_index,
          ae_prev_log_term = prev_term, ae_entries = drop start lg,
          ae_leader_commit = commit_index (pstate n)\<rparr>)"

text \<open>\<open>None\<close>: the node is not leader, the round returns \<open>Ok(())\<close> at once.\<close>

definition replicate_begin ::
  "host_env \<Rightarrow> raft_node \<Rightarrow> (nat \<times> (string \<times> append_entries_request) list) option raft_step" where
  "replicate_begin env n =
     bind_step (require_storage n) (\<lambda>n _.
       if node_role (vstate n) \<noteq> Leader then (n, Inr None)
       else
         let n1 = upd_v (\<lambda>v. v\<lparr>heartbeat_deadline := mono_now env + heartbeat_interval (config n)\<rparr>) n
         in (n1, Inr (Some (current_term (pstate n1),
                            map (\<lambda>p. (peer_id p, append_request_for n1 p)) (peers (config n1))))))"

text \<open>The loop over the responses.  The flag is \<open>False\<close> when the node stepped down, which ends
  the round.\<close>

fun replicate_responses ::
  "host_env \<Rightarrow> (string \<times> append_entries_response option) list \<Rightarrow> raft_node \<Rightarrow> bool raft_step" where
  "replicate_responses env [] n = (n, Inr True)"
| "replicate_responses env ((pid, None) # rs) n =
     replicate_responses env rs
       (upd_v (\<lambda>v. v\<lparr>replication_failures := sat_add64 (replication_failures v) 1\<rparr>) n)"
| "replicate_responses env ((pid, Some r) # rs) n =
     (if current_term (pstate n) < aer_term r then
        bind_step (persist_locked env 0
                     (upd_v (become_follower env (config n) (aer_term r) None) n)) (\<lambda>n1 _.
        bind_step (trace_locked env 0 ''stepped_down'' None n1) (\<lambda>n2 _. (n2, Inr False)))
      else if aer_success r then
        replicate_responses env rs
          (upd_v (\<lambda>v. v\<lparr>match_index := (match_index v)(pid \<mapsto> aer_match_index r),
                        next_index := (next_index v)(pid \<mapsto> sat_add64 (aer_match_index r) 1),
                        replication_successes := sat_add64 (replication_successes v) 1\<rparr>) n)
      else
        replicate_responses env rs
          (upd_v (\<lambda>v. let next = (case next_index v pid of Some i \<Rightarrow> i | None \<Rightarrow> 1)
                      in v\<lparr>next_index := (next_index v)(pid \<mapsto> max (next - 1) 1),
                           replication_failures := sat_add64 (replication_failures v) 1\<rparr>) n))"

definition match_indexes :: "raft_node \<Rightarrow> nat list" where
  "match_indexes n =
     u64_of_len (length (raft_log (pstate n)))
     # map (\<lambda>p. case match_index (vstate n) (peer_id p) of Some i \<Rightarrow> i | None \<Rightarrow> 0) (peers (config n))"

definition commit_round :: "host_env \<Rightarrow> raft_node \<Rightarrow> unit raft_step" where
  "commit_round env n =
     (case highest_committable_index (pstate n) (current_term (pstate n)) (match_indexes n)
             (majority (config n)) of
        None \<Rightarrow> (n, Inr ())
      | Some candidate \<Rightarrow>
          if commit_index (pstate n) < candidate then
            bind_step
              (apply_committed_locked (upd_v (upd_p (\<lambda>p. p\<lparr>commit_index := candidate\<rparr>)) n)) (\<lambda>n1 _.
            bind_step (persist_locked env 1 n1) (\<lambda>n2 _.
              trace_locked env 1 ''entry_committed'' (Some candidate) n2))
          else (n, Inr ()))"

definition replicate_finish ::
  "host_env \<Rightarrow> nat \<Rightarrow> (string \<times> append_entries_response option) list \<Rightarrow> raft_node
     \<Rightarrow> unit raft_step" where
  "replicate_finish env t responses n =
     (if node_role (vstate n) \<noteq> Leader \<or> current_term (pstate n) \<noteq> t then (n, Inr ())
      else bind_step (replicate_responses env responses n) (\<lambda>n1 continue.
             if continue then commit_round env n1 else (n1, Inr ())))"

section \<open>Client writes\<close>

definition current_revision :: "raft_node \<Rightarrow> nat" where
  "current_revision n = (case committed (vstate n) of None \<Rightarrow> 0 | Some c \<Rightarrow> cc_revision c)"

definition write_begin ::
  "host_env \<Rightarrow> routing_configuration \<Rightarrow> nat option \<Rightarrow> committed_write_provenance option \<Rightarrow> raft_node
     \<Rightarrow> (nat \<times> nat) raft_step" where
  "write_begin env c expected writer n =
     (case validate_configuration c of
        Inl e \<Rightarrow> (n, Inl e)
      | Inr _ \<Rightarrow>
        bind_step (require_storage n) (\<lambda>n _.
          if node_role (vstate n) \<noteq> Leader then (n, Inl (NotLeader (leader_id (vstate n))))
          else if expected \<noteq> None \<and> expected \<noteq> Some (current_revision n) then (n, Inl Conflict)
          else
            let index = sat_add64 (u64_of_len (length (raft_log (pstate n)))) 1;
                t = current_term (pstate n);
                n1 = upd_v (\<lambda>v. (upd_p (\<lambda>p. p\<lparr>raft_log := raft_log p @
                        [\<lparr>entry_index = index, entry_term = t,
                          entry_command = SetRoutingConfiguration c writer\<rparr>]\<rparr>) v)
                      \<lparr>match_index := (match_index v)(node_id (config n) \<mapsto> index)\<rparr>) n
            in
            bind_step (persist_locked env 0 n1) (\<lambda>n2 _.
            bind_step (trace_locked env 0 ''entry_appended'' (Some index) n2) (\<lambda>n3 _.
              (n3, Inr (index, t))))))"

text \<open>The check after each replication round: \<open>None\<close> keeps waiting.\<close>

definition write_poll ::
  "host_env \<Rightarrow> nat \<Rightarrow> nat \<Rightarrow> nat \<Rightarrow> raft_node
     \<Rightarrow> (raft_error, committed_configuration) result option" where
  "write_poll env deadline idx t n =
     (if storage_error (vstate n) \<noteq> None then Some (Inl Storage)
      else if idx \<le> commit_index (pstate n)
      then Some (case committed (vstate n) of None \<Rightarrow> Inl Storage | Some c \<Rightarrow> Inr c)
      else if node_role (vstate n) \<noteq> Leader \<or> current_term (pstate n) \<noteq> t
      then Some (Inl (NotLeader (leader_id (vstate n))))
      else if deadline \<le> mono_now env then Some (Inl Unavailable)
      else None)"

section \<open>The background loop\<close>

datatype background_action = NoAction | Campaign | Replicate

definition background_action_of :: "host_env \<Rightarrow> raft_node \<Rightarrow> background_action" where
  "background_action_of env n =
     (if storage_error (vstate n) \<noteq> None then NoAction
      else if node_role (vstate n) = Leader \<and> heartbeat_deadline (vstate n) \<le> mono_now env then Replicate
      else if node_role (vstate n) \<noteq> Leader \<and> election_deadline (vstate n) \<le> mono_now env then Campaign
      else NoAction)"

end
