(* ===== verification/Raft_Cluster.thy ===== *)
theory Raft_Cluster
  imports Raft_Node
begin

text \<open>
  A cluster of nodes of \<open>control-plane/src/raft.rs\<close> and the network between them.  One event is
  one critical section of one process: a start from the state file (\<open>RaftNode::open\<close>), the two
  halves of \<open>campaign\<close> and of \<open>replicate_round\<close>, an RPC handler, the first half of
  \<open>write_configuration_with_fence\<close>, or a crash.  Events interleave in any order; what the source
  serialises is a guard: \<open>campaign_lock\<close> and \<open>replication_lock\<close> allow one open campaign and one
  open round per node.  Every request ever sent and every reply ever produced stays in the
  network, so delivery may be late, repeated, reordered or never happen; a half that waits for
  replies gets, per peer, a reply to the request it sent (HTTP pairs them) or nothing.

  Two limits of the machine are guards as well: a log holds fewer than \<open>u64::MAX\<close> entries (a
  \<open>Vec\<close> cannot be that long), and a campaign starts below term \<open>u64::MAX\<close>, where
  \<open>saturating_add\<close> would give the same term again.
\<close>

record cluster =
  nodes :: "string \<Rightarrow> raft_node"
  up :: "string \<Rightarrow> bool"
  vote_requests :: "request_vote_request list"
  vote_replies :: "(string \<times> request_vote_request \<times> request_vote_response) list"
  append_requests :: "(string \<times> append_entries_request) list"
  append_replies :: "(string \<times> append_entries_request \<times> append_entries_response) list"
  campaigns :: "string \<Rightarrow> request_vote_request option"
  rounds :: "string \<Rightarrow> (nat \<times> (string \<times> append_entries_request) list) option"

datatype cluster_event =
    Start string host_env
  | Crash string
  | BeginCampaign string host_env
  | DeliverVote string request_vote_request host_env
  | FinishCampaign string "request_vote_response option list" host_env
  | BeginRound string host_env
  | DeliverAppend string append_entries_request host_env
  | FinishRound string "append_entries_response option list" host_env
  | Write string routing_configuration "nat option" "committed_write_provenance option" host_env

text \<open>A process that has never run: its volatile state is never read before \<open>Start\<close>.\<close>

definition down_node :: "node_config \<Rightarrow> raft_node" where
  "down_node c = \<lparr>config = c, vstate = initial_volatile default_persistent_state 0 None 0,
                  disk = NotFound, journal = []\<rparr>"

definition init_cluster :: "(string \<Rightarrow> node_config) \<Rightarrow> cluster" where
  "init_cluster cfg = \<lparr>nodes = (\<lambda>i. down_node (cfg i)), up = (\<lambda>_. False), vote_requests = [],
     vote_replies = [], append_requests = [], append_replies = [], campaigns = (\<lambda>_. None),
     rounds = (\<lambda>_. None)\<rparr>"

definition set_node :: "string \<Rightarrow> raft_node \<Rightarrow> cluster \<Rightarrow> cluster" where
  "set_node i n c = c\<lparr>nodes := (nodes c)(i := n)\<rparr>"

definition fits :: "raft_node \<Rightarrow> bool" where
  "fits n \<longleftrightarrow> length (raft_log (pstate n)) < u64_max"

text \<open>A reply a waiting half may see: none, or one the peer produced for that request.\<close>

definition vote_reply_for :: "cluster \<Rightarrow> request_vote_request \<Rightarrow> peer \<Rightarrow> request_vote_response option \<Rightarrow> bool" where
  "vote_reply_for c req p r = (case r of None \<Rightarrow> True | Some x \<Rightarrow> (peer_id p, req, x) \<in> set (vote_replies c))"

definition append_reply_for ::
  "cluster \<Rightarrow> string \<times> append_entries_request \<Rightarrow> append_entries_response option \<Rightarrow> bool" where
  "append_reply_for c q r = (case r of None \<Rightarrow> True | Some x \<Rightarrow> (fst q, snd q, x) \<in> set (append_replies c))"

definition guarded :: "bool \<Rightarrow> 'a \<Rightarrow> 'a option" where
  "guarded b x = (if b then Some x else None)"

fun cluster_exec :: "cluster_event \<Rightarrow> cluster \<Rightarrow> cluster option" where
  "cluster_exec (Start i env) c =
     (case open_node env (config (nodes c i)) (journal (nodes c i)) (disk (nodes c i)) of
        (f, Inl e) \<Rightarrow> guarded (\<not> up c i) (set_node i ((nodes c i)\<lparr>disk := f\<rparr>) c)
      | (f, Inr n) \<Rightarrow> guarded (\<not> up c i \<and> fits n) ((set_node i n c)\<lparr>up := (up c)(i := True)\<rparr>))"
| "cluster_exec (Crash i) c =
     guarded (up c i)
       (c\<lparr>up := (up c)(i := False), campaigns := (campaigns c)(i := None), rounds := (rounds c)(i := None)\<rparr>)"
| "cluster_exec (BeginCampaign i env) c =
     (case campaign_begin env (nodes c i) of (n, r) \<Rightarrow>
        guarded (up c i \<and> fits n \<and> campaigns c i = None \<and> node_role (vstate (nodes c i)) \<noteq> Leader
                 \<and> current_term (pstate (nodes c i)) < u64_max)
          (case r of
             Inl e \<Rightarrow> set_node i n c
           | Inr req \<Rightarrow> (set_node i n c)\<lparr>campaigns := (campaigns c)(i \<mapsto> req),
                                         vote_requests := req # vote_requests c\<rparr>))"
| "cluster_exec (DeliverVote j req env) c =
     (case handle_request_vote env req (nodes c j) of (n, r) \<Rightarrow>
        guarded (up c j \<and> fits n \<and> req \<in> set (vote_requests c))
          (case r of
             Inl e \<Rightarrow> set_node j n c
           | Inr x \<Rightarrow> (set_node j n c)\<lparr>vote_replies := (j, req, x) # vote_replies c\<rparr>))"
| "cluster_exec (FinishCampaign i rs env) c =
     (case campaigns c i of
        None \<Rightarrow> None
      | Some req \<Rightarrow>
          (case campaign_finish env req rs (nodes c i) of (n, r) \<Rightarrow>
             guarded (up c i \<and> fits n
                      \<and> list_all2 (vote_reply_for c req) (peers (config (nodes c i))) rs)
               ((set_node i n c)\<lparr>campaigns := (campaigns c)(i := None)\<rparr>)))"
| "cluster_exec (BeginRound i env) c =
     (case replicate_begin env (nodes c i) of (n, r) \<Rightarrow>
        guarded (up c i \<and> fits n \<and> rounds c i = None)
          (case r of
             Inl e \<Rightarrow> set_node i n c
           | Inr None \<Rightarrow> set_node i n c
           | Inr (Some (t, reqs)) \<Rightarrow> (set_node i n c)\<lparr>rounds := (rounds c)(i \<mapsto> (t, reqs)),
                                       append_requests := reqs @ append_requests c\<rparr>))"
| "cluster_exec (DeliverAppend j req env) c =
     (case handle_append_entries env req (nodes c j) of (n, r) \<Rightarrow>
        guarded (up c j \<and> fits n \<and> (j, req) \<in> set (append_requests c))
          (case r of
             Inl e \<Rightarrow> set_node j n c
           | Inr x \<Rightarrow> (set_node j n c)\<lparr>append_replies := (j, req, x) # append_replies c\<rparr>))"
| "cluster_exec (FinishRound i rs env) c =
     (case rounds c i of
        None \<Rightarrow> None
      | Some (t, reqs) \<Rightarrow>
          (case replicate_finish env t (zip (map fst reqs) rs) (nodes c i) of (n, r) \<Rightarrow>
             guarded (up c i \<and> fits n \<and> list_all2 (append_reply_for c) reqs rs)
               ((set_node i n c)\<lparr>rounds := (rounds c)(i := None)\<rparr>)))"
| "cluster_exec (Write i cf expected writer env) c =
     (case write_begin env cf expected writer (nodes c i) of (n, r) \<Rightarrow>
        guarded (up c i \<and> fits n) (set_node i n c))"

text \<open>A cluster configuration: every member knows itself and all the others by identity.\<close>

definition cluster_config :: "string set \<Rightarrow> string \<Rightarrow> (string \<Rightarrow> node_config) \<Rightarrow> bool" where
  "cluster_config ids cid cfg \<longleftrightarrow> (\<forall>i\<in>ids. validate_config (cfg i) = Inr () \<and> node_id (cfg i) = i
     \<and> cluster_id (cfg i) = cid \<and> peer_id ` set (peers (cfg i)) = ids - {i})"

definition event_node :: "cluster_event \<Rightarrow> string" where
  "event_node e = (case e of Start i _ \<Rightarrow> i | Crash i \<Rightarrow> i | BeginCampaign i _ \<Rightarrow> i
     | DeliverVote i _ _ \<Rightarrow> i | FinishCampaign i _ _ \<Rightarrow> i | BeginRound i _ \<Rightarrow> i
     | DeliverAppend i _ _ \<Rightarrow> i | FinishRound i _ _ \<Rightarrow> i | Write i _ _ _ _ \<Rightarrow> i)"

inductive cluster_step :: "string set \<Rightarrow> cluster \<Rightarrow> cluster \<Rightarrow> bool" for ids where
  exec: "event_node e \<in> ids \<Longrightarrow> cluster_exec e c = Some c' \<Longrightarrow> cluster_step ids c c'"

inductive cluster_reachable :: "string set \<Rightarrow> (string \<Rightarrow> node_config) \<Rightarrow> cluster \<Rightarrow> bool" for ids cfg where
  init: "cluster_reachable ids cfg (init_cluster cfg)"
| step: "cluster_reachable ids cfg c \<Longrightarrow> cluster_step ids c c' \<Longrightarrow> cluster_reachable ids cfg c'"

fun cluster_run :: "string set \<Rightarrow> cluster_event list \<Rightarrow> cluster \<Rightarrow> cluster option" where
  "cluster_run ids [] c = Some c"
| "cluster_run ids (e # es) c =
     (if event_node e \<in> ids then
        (case cluster_exec e c of None \<Rightarrow> None | Some c' \<Rightarrow> cluster_run ids es c')
      else None)"

lemma cluster_run_steps: "cluster_run ids es c = Some c' \<Longrightarrow> (cluster_step ids)\<^sup>*\<^sup>* c c'"
  by (induction ids es c rule: cluster_run.induct)
    (auto split: if_splits option.splits intro: converse_rtranclp_into_rtranclp cluster_step.intros)

lemma cluster_steps_reachable:
  "(cluster_step ids)\<^sup>*\<^sup>* c c' \<Longrightarrow> cluster_reachable ids cfg c \<Longrightarrow> cluster_reachable ids cfg c'"
  by (induction rule: rtranclp_induct) (auto intro: cluster_reachable.step)

lemma guarded_Some [simp]: "guarded b x = Some y \<longleftrightarrow> b \<and> x = y"
  by (simp add: guarded_def)

text \<open>Membership facts of a valid configuration.\<close>

lemma validate_peers_distinct:
  "validate_peers S ps = Inr () \<Longrightarrow> distinct (map peer_id ps) \<and> peer_id ` set ps \<inter> S = {}"
  by (induction S ps rule: validate_peers.induct) (auto split: if_splits)

lemma cluster_configD:
  assumes "cluster_config ids cid cfg" "i \<in> ids"
  shows "node_id (cfg i) = i" "cluster_id (cfg i) = cid" "length (peers (cfg i)) = 2"
    and "distinct (map peer_id (peers (cfg i)))" "peer_id ` set (peers (cfg i)) = ids - {i}"
    and "finite ids" "card ids = 3" "majority (cfg i) = 2"
proof -
  have v: "validate_config (cfg i) = Inr ()" and e: "node_id (cfg i) = i" "cluster_id (cfg i) = cid"
      and p: "peer_id ` set (peers (cfg i)) = ids - {i}"
    using assms by (auto simp: cluster_config_def)
  show "node_id (cfg i) = i" "cluster_id (cfg i) = cid" "peer_id ` set (peers (cfg i)) = ids - {i}"
    by fact+
  show l: "length (peers (cfg i)) = 2"
    using v by (auto simp: validate_config_def and_then_def split: if_splits sum.splits)
  have "validate_peers {node_id (cfg i)} (peers (cfg i)) = Inr ()"
    using v by (auto simp: validate_config_def and_then_def split: if_splits sum.splits)
  then show d: "distinct (map peer_id (peers (cfg i)))" using validate_peers_distinct by blast
  have c: "card (ids - {i}) = 2" using distinct_card[OF d] p l by simp
  show f: "finite ids" using c by (metis Diff_infinite_finite card.infinite finite.emptyI finite_insert zero_neq_numeral)
  show "card ids = 3" using c f assms(2) by (simp add: card_Diff_singleton)
  show "majority (cfg i) = 2" by (simp add: majority_def cluster_size_def l)
qed

end
