(* ===== verification/Raft_Spec.thy ===== *)
theory Raft_Spec
  imports Raft_Types
begin

text \<open>
  The abstract replication protocol that the nodes of \<open>control-plane/src/raft.rs\<close> implement,
  and its safety proof.  A node appears as two views of its persistent state, the one in memory
  and the one on disk; a \<open>crash\<close> replaces the first by the second.  What a node has told others
  is a promise recorded in the \<open>history\<close>: its campaigns, the votes it granted (with its log at
  that moment), the log positions it acknowledged, and the append messages of the leaders, with
  the log of the leader of each term.  Promises are only made about what both views hold, and
  the invariant says that both views keep them.

  \<open>quorum\<close> is a parameter; all that is used is that two quorums share a node.
\<close>

section \<open>Logs\<close>

type_synonym elog = "log_entry list"

definition valid_command :: "command \<Rightarrow> bool" where
  "valid_command c = (case c of Noop \<Rightarrow> True
     | SetRoutingConfiguration cfg w \<Rightarrow> is_ok (validate_configuration cfg))"

definition good_log :: "elog \<Rightarrow> bool" where
  "good_log l \<longleftrightarrow> indexed_log l \<and> (\<forall>e\<in>set l. valid_command (entry_command e))"

definition last_term :: "elog \<Rightarrow> nat" where
  "last_term l = (if l = [] then 0 else entry_term (last l))"

definition up_to_date :: "elog \<Rightarrow> elog \<Rightarrow> bool" where
  "up_to_date cl vl \<longleftrightarrow>
     last_term vl < last_term cl \<or> last_term cl = last_term vl \<and> length vl \<le> length cl"

text \<open>Accepting \<open>es\<close> after position \<open>prev\<close>: nothing changes if they are already there,
  otherwise they replace everything after \<open>prev\<close>.\<close>

definition accept_entries :: "nat \<Rightarrow> elog \<Rightarrow> elog \<Rightarrow> elog" where
  "accept_entries prev es l = (if take (length es) (drop prev l) = es then l else take prev l @ es)"

section \<open>State\<close>

record view =
  vterm :: nat
  vvote :: "string option"
  vlog :: elog
  vcommit :: nat

record history =
  cands :: "(string \<times> nat \<times> elog) set"
  votes :: "(string \<times> nat \<times> string \<times> elog) set"
  elected :: "nat \<Rightarrow> string option"
  base :: "nat \<Rightarrow> elog"
  llog :: "nat \<Rightarrow> elog"
  acks :: "(string \<times> nat \<times> nat) set"
  apps :: "(nat \<times> nat \<times> elog \<times> nat) set"

record raft_spec =
  mem :: "string \<Rightarrow> view"
  dsk :: "string \<Rightarrow> view"
  leading :: "string \<Rightarrow> bool"
  hist :: history

definition init_view :: view where
  "init_view = \<lparr>vterm = 0, vvote = None, vlog = [], vcommit = 0\<rparr>"

definition init_history :: history where
  "init_history = \<lparr>cands = {}, votes = {}, elected = (\<lambda>_. None), base = (\<lambda>_. []),
     llog = (\<lambda>_. []), acks = {}, apps = {}\<rparr>"

definition init_spec :: raft_spec where
  "init_spec = \<lparr>mem = (\<lambda>_. init_view), dsk = (\<lambda>_. init_view), leading = (\<lambda>_. False),
     hist = init_history\<rparr>"

definition quorum_acked :: "(string set \<Rightarrow> bool) \<Rightarrow> history \<Rightarrow> nat \<Rightarrow> nat \<Rightarrow> bool" where
  "quorum_acked quorum h t k \<longleftrightarrow>
     (\<exists>Q. quorum Q \<and> (\<forall>p\<in>Q. \<exists>m\<ge>k. (p, t, m) \<in> acks h))"

section \<open>Steps\<close>

inductive spec_step :: "(string set \<Rightarrow> bool) \<Rightarrow> raft_spec \<Rightarrow> raft_spec \<Rightarrow> bool" for quorum where
  observe: "vterm (mem s n) < t \<Longrightarrow>
    spec_step quorum s (s\<lparr>mem := (mem s)(n := (mem s n)\<lparr>vterm := t, vvote := None\<rparr>),
                          leading := (leading s)(n := False)\<rparr>)"
| resign: "spec_step quorum s (s\<lparr>leading := (leading s)(n := False)\<rparr>)"
| choose: "vvote (mem s n) = None \<or> vvote (mem s n) = Some c \<Longrightarrow>
    spec_step quorum s (s\<lparr>mem := (mem s)(n := (mem s n)\<lparr>vvote := Some c\<rparr>)\<rparr>)"
| candidacy: "spec_step quorum s
    (s\<lparr>mem := (mem s)(n := (mem s n)\<lparr>vterm := Suc (vterm (mem s n)), vvote := Some n\<rparr>),
       leading := (leading s)(n := False)\<rparr>)"
| sync: "spec_step quorum s (s\<lparr>dsk := (dsk s)(n := mem s n)\<rparr>)"
| announce: "dsk s n = mem s n \<Longrightarrow> vvote (mem s n) = Some n \<Longrightarrow> 0 < vterm (mem s n) \<Longrightarrow>
    \<forall>l. (n, vterm (mem s n), l) \<notin> cands (hist s) \<Longrightarrow>
    \<forall>e\<in>set (vlog (mem s n)). entry_term e < vterm (mem s n) \<Longrightarrow>
    spec_step quorum s (s\<lparr>hist := (hist s)
      \<lparr>cands := insert (n, vterm (mem s n), vlog (mem s n)) (cands (hist s)),
       votes := insert (n, vterm (mem s n), n, vlog (mem s n)) (votes (hist s))\<rparr>\<rparr>)"
| grant: "dsk s n = mem s n \<Longrightarrow> vvote (mem s n) = Some c \<Longrightarrow>
    (c, vterm (mem s n), cl) \<in> cands (hist s) \<Longrightarrow> up_to_date cl (vlog (mem s n)) \<Longrightarrow>
    spec_step quorum s (s\<lparr>hist := (hist s)
      \<lparr>votes := insert (n, vterm (mem s n), c, vlog (mem s n)) (votes (hist s))\<rparr>\<rparr>)"
| elect: "t = vterm (mem s n) \<Longrightarrow> (n, t, vlog (mem s n)) \<in> cands (hist s) \<Longrightarrow>
    elected (hist s) t = None \<Longrightarrow> quorum Q \<Longrightarrow> \<forall>v\<in>Q. \<exists>l. (v, t, n, l) \<in> votes (hist s) \<Longrightarrow>
    l' = vlog (mem s n) @ [e] \<Longrightarrow> entry_term e = t \<Longrightarrow> good_log l' \<Longrightarrow>
    spec_step quorum s (s\<lparr>mem := (mem s)(n := (mem s n)\<lparr>vlog := l'\<rparr>),
      leading := (leading s)(n := True),
      hist := (hist s)\<lparr>elected := (elected (hist s))(t := Some n),
                       base := (base (hist s))(t := vlog (mem s n)),
                       llog := (llog (hist s))(t := l')\<rparr>\<rparr>)"
| propose: "leading s n \<Longrightarrow> t = vterm (mem s n) \<Longrightarrow> l' = vlog (mem s n) @ [e] \<Longrightarrow>
    entry_term e = t \<Longrightarrow> good_log l' \<Longrightarrow>
    spec_step quorum s (s\<lparr>mem := (mem s)(n := (mem s n)\<lparr>vlog := l'\<rparr>),
      hist := (hist s)\<lparr>llog := (llog (hist s))(t := l')\<rparr>\<rparr>)"
| self_ack: "leading s n \<Longrightarrow> dsk s n = mem s n \<Longrightarrow>
    spec_step quorum s (s\<lparr>hist := (hist s)
      \<lparr>acks := insert (n, vterm (mem s n), length (vlog (mem s n))) (acks (hist s))\<rparr>\<rparr>)"
| send: "leading s n \<Longrightarrow> (n, vterm (mem s n), length (vlog (mem s n))) \<in> acks (hist s) \<Longrightarrow>
    prev \<le> length (vlog (mem s n)) \<Longrightarrow>
    spec_step quorum s (s\<lparr>hist := (hist s)
      \<lparr>apps := insert (vterm (mem s n), prev, drop prev (vlog (mem s n)), vcommit (mem s n))
                 (apps (hist s))\<rparr>\<rparr>)"
| accept: "(vterm (mem s n), prev, es, c) \<in> apps (hist s) \<Longrightarrow> prev \<le> length (vlog (mem s n)) \<Longrightarrow>
    prev = 0 \<or> entry_term (vlog (mem s n) ! (prev - 1))
                = entry_term (llog (hist s) (vterm (mem s n)) ! (prev - 1)) \<Longrightarrow>
    l' = accept_entries prev es (vlog (mem s n)) \<Longrightarrow>
    spec_step quorum s (s\<lparr>mem := (mem s)(n := (mem s n)
        \<lparr>vlog := l', vcommit := max (vcommit (mem s n)) (min c (length l'))\<rparr>),
      leading := (leading s)(n := False)\<rparr>)"
| ack: "(vterm (mem s n), prev, es, c) \<in> apps (hist s) \<Longrightarrow> dsk s n = mem s n \<Longrightarrow>
    agree (prev + length es) (vlog (mem s n)) (llog (hist s) (vterm (mem s n))) \<Longrightarrow>
    spec_step quorum s (s\<lparr>hist := (hist s)
      \<lparr>acks := insert (n, vterm (mem s n), prev + length es) (acks (hist s))\<rparr>\<rparr>)"
| commit: "leading s n \<Longrightarrow> vcommit (mem s n) \<le> k \<Longrightarrow> 0 < k \<Longrightarrow> k \<le> length (vlog (mem s n)) \<Longrightarrow>
    entry_term (vlog (mem s n) ! (k - 1)) = vterm (mem s n) \<Longrightarrow>
    quorum_acked quorum (hist s) (vterm (mem s n)) k \<Longrightarrow>
    spec_step quorum s (s\<lparr>mem := (mem s)(n := (mem s n)\<lparr>vcommit := k\<rparr>)\<rparr>)"
| crash: "spec_step quorum s (s\<lparr>mem := (mem s)(n := dsk s n), leading := (leading s)(n := False)\<rparr>)"

section \<open>Invariants\<close>

text \<open>Every entry of a log comes, with everything before it, from the leader of its term.\<close>

definition from_leaders :: "history \<Rightarrow> elog \<Rightarrow> bool" where
  "from_leaders h l \<longleftrightarrow> good_log l \<and>
     (\<forall>i<length l. elected h (entry_term (l ! i)) \<noteq> None \<and>
                   agree (Suc i) l (llog h (entry_term (l ! i))))"

definition conflict :: "history \<Rightarrow> nat \<Rightarrow> nat \<Rightarrow> nat \<Rightarrow> bool" where
  "conflict h t t' k \<longleftrightarrow> elected h t' \<noteq> None \<and>
     (\<exists>j<k. j < length (llog h t') \<and> llog h t' ! j \<noteq> llog h t ! j)"

text \<open>A view still holds the first \<open>k\<close> entries of the leader of \<open>t\<close>, or a later leader it
  followed has other ones.\<close>

definition kept :: "history \<Rightarrow> view \<Rightarrow> nat \<Rightarrow> nat \<Rightarrow> bool" where
  "kept h w t k \<longleftrightarrow> agree k (vlog w) (llog h t) \<or>
     (\<exists>t'>t. conflict h t t' k \<and>
        (t' < vterm w \<or> t' = vterm w \<and> (\<exists>e\<in>set (vlog w). entry_term e = t')))"

definition committed_at :: "(string set \<Rightarrow> bool) \<Rightarrow> history \<Rightarrow> nat \<Rightarrow> nat \<Rightarrow> bool" where
  "committed_at quorum h t k \<longleftrightarrow> elected h t \<noteq> None \<and> 0 < k \<and> k \<le> length (llog h t) \<and>
     entry_term (llog h t ! (k - 1)) = t \<and> quorum_acked quorum h t k"

definition commit_ok :: "(string set \<Rightarrow> bool) \<Rightarrow> history \<Rightarrow> view \<Rightarrow> bool" where
  "commit_ok quorum h w \<longleftrightarrow> vcommit w = 0 \<or>
     (\<exists>t k. committed_at quorum h t k \<and> vcommit w \<le> k \<and> t \<le> vterm w
            \<and> agree (vcommit w) (vlog w) (llog h t))"

definition view_ok :: "(string set \<Rightarrow> bool) \<Rightarrow> history \<Rightarrow> string \<Rightarrow> view \<Rightarrow> bool" where
  "view_ok quorum h n w \<longleftrightarrow>
     from_leaders h (vlog w) \<and> (\<forall>e\<in>set (vlog w). entry_term e \<le> vterm w) \<and>
     (\<forall>t c l. (n, t, c, l) \<in> votes h \<longrightarrow> t < vterm w \<or> t = vterm w \<and> vvote w = Some c) \<and>
     (\<forall>t l. (n, t, l) \<in> cands h \<longrightarrow> t \<le> vterm w) \<and>
     (\<forall>t m. (n, t, m) \<in> acks h \<longrightarrow> t \<le> vterm w \<and> (\<forall>k\<le>m. kept h w t k)) \<and>
     commit_ok quorum h w"

lemma view_okI:
  assumes "from_leaders h (vlog w)" "\<And>e. e \<in> set (vlog w) \<Longrightarrow> entry_term e \<le> vterm w"
    and "\<And>t c l. (n, t, c, l) \<in> votes h \<Longrightarrow> t < vterm w \<or> t = vterm w \<and> vvote w = Some c"
    and "\<And>t l. (n, t, l) \<in> cands h \<Longrightarrow> t \<le> vterm w"
    and "\<And>t m. (n, t, m) \<in> acks h \<Longrightarrow> t \<le> vterm w"
    and "\<And>t m k. (n, t, m) \<in> acks h \<Longrightarrow> k \<le> m \<Longrightarrow> kept h w t k"
    and "commit_ok quorum h w"
  shows "view_ok quorum h n w"
  using assms by (simp add: view_ok_def)

lemma view_okD:
  assumes "view_ok quorum h n w"
  shows "from_leaders h (vlog w)" "e \<in> set (vlog w) \<Longrightarrow> entry_term e \<le> vterm w"
    and "(n, t, c, l) \<in> votes h \<Longrightarrow> t < vterm w \<or> t = vterm w \<and> vvote w = Some c"
    and "(n, t, l) \<in> cands h \<Longrightarrow> t \<le> vterm w"
    and "(n, t, m) \<in> acks h \<Longrightarrow> t \<le> vterm w"
    and "(n, t, m) \<in> acks h \<Longrightarrow> k \<le> m \<Longrightarrow> kept h w t k"
    and "commit_ok quorum h w"
  using assms unfolding view_ok_def by blast+

definition cands_ok :: "history \<Rightarrow> bool" where
  "cands_ok h \<longleftrightarrow> (\<forall>n t l. (n, t, l) \<in> cands h \<longrightarrow>
     0 < t \<and> from_leaders h l \<and> (\<forall>e\<in>set l. entry_term e < t) \<and>
     (\<forall>l'. (n, t, l') \<in> cands h \<longrightarrow> l' = l))"

definition votes_ok :: "history \<Rightarrow> bool" where
  "votes_ok h \<longleftrightarrow> (\<forall>v t c l. (v, t, c, l) \<in> votes h \<longrightarrow>
     from_leaders h l \<and> (\<exists>cl. (c, t, cl) \<in> cands h \<and> up_to_date cl l) \<and>
     (\<forall>c' l'. (v, t, c', l') \<in> votes h \<longrightarrow> c' = c) \<and>
     (\<forall>t0 m k. (v, t0, m) \<in> acks h \<longrightarrow> t0 < t \<longrightarrow> k \<le> m \<longrightarrow>
        agree k l (llog h t0) \<or> (\<exists>t'>t0. t' < t \<and> conflict h t0 t' k)))"

definition leaders_ok :: "(string set \<Rightarrow> bool) \<Rightarrow> history \<Rightarrow> bool" where
  "leaders_ok quorum h \<longleftrightarrow> (\<forall>t n. elected h t = Some n \<longrightarrow>
     (n, t, base h t) \<in> cands h \<and>
     (\<exists>Q. quorum Q \<and> (\<forall>v\<in>Q. \<exists>l. (v, t, n, l) \<in> votes h)) \<and>
     good_log (llog h t) \<and>
     (\<exists>xs. xs \<noteq> [] \<and> llog h t = base h t @ xs \<and> (\<forall>e\<in>set xs. entry_term e = t)))"

definition apps_ok :: "(string set \<Rightarrow> bool) \<Rightarrow> history \<Rightarrow> bool" where
  "apps_ok quorum h \<longleftrightarrow> (\<forall>t prev es c. (t, prev, es, c) \<in> apps h \<longrightarrow>
     elected h t \<noteq> None \<and> prev + length es \<le> length (llog h t) \<and>
     es = take (length es) (drop prev (llog h t)) \<and>
     (es \<noteq> [] \<longrightarrow> entry_term (last es) = t) \<and>
     c \<le> prev + length es \<and>
     (c = 0 \<or> (\<exists>t0 k. committed_at quorum h t0 k \<and> c \<le> k \<and> t0 \<le> t)) \<and>
     (\<exists>l m. elected h t = Some l \<and> (l, t, m) \<in> acks h \<and> prev + length es \<le> m))"

definition acks_ok :: "history \<Rightarrow> bool" where
  "acks_ok h \<longleftrightarrow> (\<forall>p t m. (p, t, m) \<in> acks h \<longrightarrow> elected h t \<noteq> None \<and> m \<le> length (llog h t))"

definition history_ok :: "(string set \<Rightarrow> bool) \<Rightarrow> history \<Rightarrow> bool" where
  "history_ok quorum h \<longleftrightarrow>
     cands_ok h \<and> votes_ok h \<and> leaders_ok quorum h \<and> apps_ok quorum h \<and> acks_ok h"

definition spec_inv :: "(string set \<Rightarrow> bool) \<Rightarrow> raft_spec \<Rightarrow> bool" where
  "spec_inv quorum s \<longleftrightarrow> history_ok quorum (hist s) \<and>
     (\<forall>n. view_ok quorum (hist s) n (mem s n) \<and> view_ok quorum (hist s) n (dsk s n)) \<and>
     (\<forall>n. leading s n \<longrightarrow> elected (hist s) (vterm (mem s n)) = Some n \<and>
                          vlog (mem s n) = llog (hist s) (vterm (mem s n)))"


section \<open>Growing histories\<close>

definition hist_le :: "history \<Rightarrow> history \<Rightarrow> bool" where
  "hist_le h h' \<longleftrightarrow> cands h \<subseteq> cands h' \<and> votes h \<subseteq> votes h' \<and> acks h \<subseteq> acks h' \<and>
     (\<forall>t. elected h t \<noteq> None \<longrightarrow> elected h' t = elected h t \<and> base h' t = base h t \<and>
          prefix (llog h t) (llog h' t))"

lemma hist_leD:
  assumes "hist_le h h'"
  shows "cands h \<subseteq> cands h'" "votes h \<subseteq> votes h'" "acks h \<subseteq> acks h'"
    and "elected h t \<noteq> None \<Longrightarrow> elected h' t = elected h t"
    and "elected h t \<noteq> None \<Longrightarrow> base h' t = base h t"
    and "elected h t \<noteq> None \<Longrightarrow> prefix (llog h t) (llog h' t)"
  using assms by (auto simp: hist_le_def)

lemma agree_prefix: "agree k xs ys \<Longrightarrow> prefix ys zs \<Longrightarrow> agree k xs zs"
  by (auto simp: prefix_def intro: agree_append)

lemma prefix_nth: "prefix xs ys \<Longrightarrow> i < length xs \<Longrightarrow> ys ! i = xs ! i"
  by (auto simp: prefix_def nth_append)

lemma prefix_len: "prefix xs ys \<Longrightarrow> length xs \<le> length ys"
  by (auto simp: prefix_def)

lemma from_leaders_mono:
  assumes "hist_le h h'" "from_leaders h l" shows "from_leaders h' l"
  using assms unfolding from_leaders_def
  by (metis agree_prefix hist_leD(4,6))

lemma conflict_mono:
  assumes le: "hist_le h h'" and t: "elected h t \<noteq> None" "k \<le> length (llog h t)"
    and c: "conflict h t t' k"
  shows "conflict h' t t' k"
proof -
  from c obtain j where j: "elected h t' \<noteq> None" "j < k" "j < length (llog h t')"
      "llog h t' ! j \<noteq> llog h t ! j"
    by (auto simp: conflict_def)
  note p = hist_leD(6)[OF le t(1)] and p' = hist_leD(6)[OF le j(1)]
  have "elected h' t' \<noteq> None"
    using hist_leD(4)[OF le j(1)] j(1) by simp
  moreover have "llog h' t' ! j \<noteq> llog h' t ! j"
    using j t(2) prefix_nth[OF p, of j] prefix_nth[OF p', of j] by simp
  moreover have "j < length (llog h' t')"
    using j(3) prefix_len[OF p'] by simp
  ultimately show ?thesis
    using j(2) by (auto simp: conflict_def)
qed

lemma kept_mono:
  assumes "hist_le h h'" "elected h t \<noteq> None" "k \<le> length (llog h t)" "kept h w t k"
  shows "kept h' w t k"
  using assms(4) agree_prefix[OF _ hist_leD(6)[OF assms(1,2)]] conflict_mono[OF assms(1-3)]
  unfolding kept_def by blast

lemma quorum_acked_mono: "hist_le h h' \<Longrightarrow> quorum_acked q h t k \<Longrightarrow> quorum_acked q h' t k"
  unfolding quorum_acked_def by (meson hist_leD(3) subsetD)

lemma committed_at_mono:
  assumes le: "hist_le h h'" and c: "committed_at q h t k" shows "committed_at q h' t k"
proof -
  note p = hist_leD(6)[OF le, of t]
  from c have "llog h' t ! (k - 1) = llog h t ! (k - 1)" "length (llog h t) \<le> length (llog h' t)"
    using prefix_nth[OF p, of "k - 1"] prefix_len[OF p] by (auto simp: committed_at_def)
  then show ?thesis
    using c hist_leD(4)[OF le, of t] quorum_acked_mono[OF le] by (auto simp: committed_at_def)
qed

lemma commit_ok_mono:
  assumes le: "hist_le h h'" and c: "commit_ok q h w" shows "commit_ok q h' w"
proof (cases "vcommit w = 0")
  case False
  then obtain t k where tk: "committed_at q h t k" "vcommit w \<le> k" "t \<le> vterm w"
      "agree (vcommit w) (vlog w) (llog h t)"
    using c by (auto simp: commit_ok_def)
  moreover have "agree (vcommit w) (vlog w) (llog h' t)"
    using tk hist_leD(6)[OF le, of t] by (auto simp: committed_at_def intro: agree_prefix)
  ultimately show ?thesis
    using committed_at_mono[OF le] by (auto simp: commit_ok_def)
qed (simp add: commit_ok_def)

text \<open>A view stays good when the history grows without new promises of its node.\<close>

definition same_promises :: "history \<Rightarrow> history \<Rightarrow> string \<Rightarrow> bool" where
  "same_promises h h' n \<longleftrightarrow>
     (\<forall>t c l. (n, t, c, l) \<in> votes h' \<longrightarrow> (n, t, c, l) \<in> votes h) \<and>
     (\<forall>t l. (n, t, l) \<in> cands h' \<longrightarrow> (n, t, l) \<in> cands h) \<and>
     (\<forall>t m. (n, t, m) \<in> acks h' \<longrightarrow> (n, t, m) \<in> acks h)"

lemma same_promises_refl [simp]: "same_promises h h n"
  by (simp add: same_promises_def)

lemma view_ok_mono:
  assumes le: "hist_le h h'" and a: "acks_ok h" and v: "view_ok q h n w"
    and p: "same_promises h h' n"
  shows "view_ok q h' n w"
proof (rule view_okI)
  fix t m k assume "(n, t, m) \<in> acks h'" "k \<le> m"
  then have m: "(n, t, m) \<in> acks h" "k \<le> m" using p by (auto simp: same_promises_def)
  then have "elected h t \<noteq> None" "k \<le> length (llog h t)"
    using a by (fastforce simp: acks_ok_def)+
  then show "kept h' w t k" using kept_mono[OF le] view_okD(6)[OF v m] by blast
next
  fix t c l assume "(n, t, c, l) \<in> votes h'"
  then have "(n, t, c, l) \<in> votes h" using p by (simp add: same_promises_def)
  from view_okD(3)[OF v this] show "t < vterm w \<or> t = vterm w \<and> vvote w = Some c" .
next
  fix t l assume "(n, t, l) \<in> cands h'"
  then have "(n, t, l) \<in> cands h" using p by (simp add: same_promises_def)
  from view_okD(4)[OF v this] show "t \<le> vterm w" .
next
  fix t m assume "(n, t, m) \<in> acks h'"
  then have "(n, t, m) \<in> acks h" using p by (simp add: same_promises_def)
  from view_okD(5)[OF v this] show "t \<le> vterm w" .
next
  show "from_leaders h' (vlog w)" by (rule from_leaders_mono[OF le view_okD(1)[OF v]])
  show "commit_ok q h' w" by (rule commit_ok_mono[OF le view_okD(7)[OF v]])
  show "entry_term e \<le> vterm w" if "e \<in> set (vlog w)" for e by (rule view_okD(2)[OF v that])
qed

section \<open>What the invariant says about logs\<close>

lemma leaders_okD:
  assumes "leaders_ok q h" "elected h t = Some n"
  shows "(n, t, base h t) \<in> cands h" "\<exists>Q. q Q \<and> (\<forall>v\<in>Q. \<exists>l. (v, t, n, l) \<in> votes h)"
    and "good_log (llog h t)" "prefix (base h t) (llog h t)"
    and "length (base h t) < length (llog h t)"
    and "length (base h t) \<le> i \<Longrightarrow> i < length (llog h t) \<Longrightarrow> entry_term (llog h t ! i) = t"
proof -
  from assms obtain xs where x: "xs \<noteq> []" "llog h t = base h t @ xs" "\<forall>e\<in>set xs. entry_term e = t"
    unfolding leaders_ok_def by blast
  then show "prefix (base h t) (llog h t)" "length (base h t) < length (llog h t)"
    by auto
  show "entry_term (llog h t ! i) = t" if "length (base h t) \<le> i" "i < length (llog h t)"
    using x that by (auto simp: nth_append)
qed (use assms in \<open>auto simp: leaders_ok_def\<close>)

lemma base_terms_less:
  assumes "leaders_ok q h" "cands_ok h" "elected h t \<noteq> None" "i < length (base h t)"
  shows "entry_term (llog h t ! i) < t"
proof -
  from assms(3) obtain n where n: "elected h t = Some n" by auto
  from leaders_okD(1)[OF assms(1) n] assms(2,4) have "entry_term (base h t ! i) < t"
    by (auto simp: cands_ok_def)
  then show ?thesis
    using prefix_nth[OF leaders_okD(4)[OF assms(1) n] assms(4)] by simp
qed

lemma llog_terms_le:
  assumes "leaders_ok q h" "cands_ok h" "elected h t \<noteq> None" "i < length (llog h t)"
  shows "entry_term (llog h t ! i) \<le> t"
proof (cases "i < length (base h t)")
  case True
  then show ?thesis using base_terms_less[OF assms(1-3)] by fastforce
next
  case False
  then show ?thesis using leaders_okD(6)[OF assms(1)] assms(3,4) by (auto simp: not_less)
qed

text \<open>Terms never decrease along a log.\<close>

lemma from_leaders_sorted:
  assumes "leaders_ok q h" "cands_ok h" "from_leaders h l" "i \<le> j" "j < length l"
  shows "entry_term (l ! i) \<le> entry_term (l ! j)"
proof -
  let ?t = "entry_term (l ! j)"
  from assms(3,5) have e: "elected h ?t \<noteq> None" and a: "agree (Suc j) l (llog h ?t)"
    by (auto simp: from_leaders_def)
  have "i < length (llog h ?t)" using a assms(4) by (auto simp: agree_def)
  from llog_terms_le[OF assms(1,2) e this] show ?thesis
    using agree_nth[OF a, of i] assms(4) by simp
qed

lemma from_leaders_whole:
  assumes "from_leaders h l" "l \<noteq> []"
  shows "elected h (last_term l) \<noteq> None" "agree (length l) l (llog h (last_term l))"
proof -
  have "length l - 1 < length l" "Suc (length l - 1) = length l" "last l = l ! (length l - 1)"
    using assms(2) by (simp_all add: last_conv_nth)
  then show "elected h (last_term l) \<noteq> None" "agree (length l) l (llog h (last_term l))"
    using assms unfolding from_leaders_def last_term_def by metis+
qed

lemma from_leaders_take: "from_leaders h l \<Longrightarrow> from_leaders h (take k l)"
  by (auto simp: from_leaders_def good_log_def indexed_log_def agree_def min_def take_Suc_conv_app_nth
      dest: in_set_takeD split: if_splits)



text \<open>Log matching: two logs with entries of the same term at a position agree up to it.\<close>

lemma log_matching_from_leaders:
  assumes "from_leaders h l" "from_leaders h l'" "i < length l" "i < length l'"
    and "entry_term (l ! i) = entry_term (l' ! i)"
  shows "agree (Suc i) l l'"
proof -
  have "agree (Suc i) l (llog h (entry_term (l ! i)))" "agree (Suc i) l' (llog h (entry_term (l ! i)))"
    using assms by (auto simp: from_leaders_def)
  then show ?thesis using agree_sym agree_trans by blast
qed

lemma llog_from_leaders:
  assumes "leaders_ok q h" "cands_ok h" "elected h t = Some n"
  shows "from_leaders h (llog h t)"
proof -
  note L = leaders_okD[OF assms(1,3)]
  have fb: "from_leaders h (base h t)" using assms(2) L(1) by (auto simp: cands_ok_def)
  have "elected h (entry_term (llog h t ! i)) \<noteq> None \<and>
        agree (Suc i) (llog h t) (llog h (entry_term (llog h t ! i)))"
    if i: "i < length (llog h t)" for i
  proof (cases "i < length (base h t)")
    case True
    have eq: "llog h t ! i = base h t ! i" by (rule prefix_nth[OF L(4) True])
    have a: "agree (Suc i) (base h t) (llog h (entry_term (base h t ! i)))"
      and e: "elected h (entry_term (base h t ! i)) \<noteq> None"
      using fb True by (auto simp: from_leaders_def)
    have "agree (Suc i) (base h t) (llog h t)"
      using agree_prefix[OF agree_refl L(4), of "Suc i"] True by simp
    then show ?thesis using a e eq agree_sym agree_trans by metis
  next
    case False
    then show ?thesis using L(6)[of i] i assms(3) by (simp add: agree_refl)
  qed
  then show ?thesis using L(3) by (simp add: from_leaders_def)
qed

lemma accept_agree:
  assumes "agree prev l L" "prev + length es \<le> length L" "es = take (length es) (drop prev L)"
  shows "agree (prev + length es) (accept_entries prev es l) L"
proof -
  have tL: "take (prev + length es) L = take prev l @ es"
    using assms by (simp add: take_add agree_def)
  show ?thesis
  proof (cases "take (length es) (drop prev l) = es")
    case True
    then have "take (prev + length es) l = take prev l @ es" "prev + length es \<le> length l"
      using assms(1) length_take[of "length es" "drop prev l"]
      by (auto simp: take_add agree_def min_def split: if_splits)
    then show ?thesis using True tL assms(2) by (simp add: agree_def accept_entries_def)
  next
    case False
    then show ?thesis using tL assms(1,2) by (auto simp: agree_def accept_entries_def)
  qed
qed

text \<open>What the log already shared with the leader stays.\<close>

lemma accept_keeps:
  assumes "agree prev l L" "prev + length es \<le> length L" "es = take (length es) (drop prev L)"
    and "agree k l L"
  shows "agree k (accept_entries prev es l) L"
proof (cases "k \<le> prev + length es")
  case True
  then show ?thesis using accept_agree[OF assms(1-3)] agree_mono by blast
next
  case False
  then have "take (prev + length es) l = take (prev + length es) L"
    using assms(4) take_mono_eq[of k l L "prev + length es"] by (auto simp: agree_def)
  then have "drop prev (take (prev + length es) l) = drop prev (take (prev + length es) L)" by simp
  then have "take (length es) (drop prev l) = es" using assms(3) by (simp add: drop_take)
  then show ?thesis using assms(4) by (simp add: accept_entries_def)
qed

lemma accept_length:
  "prev \<le> length l \<Longrightarrow> accept_entries prev es l \<noteq> l \<Longrightarrow>
     length (accept_entries prev es l) = prev + length es \<and> es \<noteq> []"
  by (auto simp: accept_entries_def split: if_splits)

lemma apps_okD:
  assumes "apps_ok q h" "(t, prev, es, c) \<in> apps h"
  shows "elected h t \<noteq> None" "prev + length es \<le> length (llog h t)"
    and "es = take (length es) (drop prev (llog h t))"
    and "es \<noteq> [] \<Longrightarrow> entry_term (last es) = t" "c \<le> prev + length es"
    and "c = 0 \<or> (\<exists>t0 k. committed_at q h t0 k \<and> c \<le> k \<and> t0 \<le> t)"
    and "\<exists>l m. elected h t = Some l \<and> (l, t, m) \<in> acks h \<and> prev + length es \<le> m"
  using assms unfolding apps_ok_def by blast+

section \<open>Quorums and leader completeness\<close>

locale quorum_system =
  fixes quorum :: "string set \<Rightarrow> bool"
  assumes quorums_intersect: "quorum A \<Longrightarrow> quorum B \<Longrightarrow> \<exists>v. v \<in> A \<and> v \<in> B"
begin

text \<open>Every leader after the term of a committed position starts with that position.\<close>

lemma leader_completeness:
  assumes h: "history_ok quorum h" and c: "committed_at quorum h t k"
  shows "elected h t' \<noteq> None \<Longrightarrow> t < t' \<Longrightarrow> agree k (base h t') (llog h t)"
proof (induction t' rule: less_induct)
  case (less t')
  have ok: "leaders_ok quorum h" "cands_ok h" "votes_ok h"
    using h by (auto simp: history_ok_def)
  from less.prems obtain n where n: "elected h t' = Some n" by auto
  note L = leaders_okD[OF ok(1) n]
  from L(2) obtain Q' where Q': "quorum Q'" "\<forall>v\<in>Q'. \<exists>l. (v, t', n, l) \<in> votes h" by blast
  from c obtain Q where Q: "quorum Q" "\<forall>p\<in>Q. \<exists>m\<ge>k. (p, t, m) \<in> acks h"
    by (auto simp: committed_at_def quorum_acked_def)
  from quorums_intersect[OF Q(1) Q'(1)] Q(2) Q'(2) obtain p l m where
    p: "(p, t', n, l) \<in> votes h" "(p, t, m) \<in> acks h" "k \<le> m" by blast
  have no_conflict: "\<not> conflict h t t'' k" if "t < t''" "t'' < t'" for t''
  proof
    assume cf: "conflict h t t'' k"
    then have e: "elected h t'' \<noteq> None" by (simp add: conflict_def)
    from less.IH[OF that(2) e that(1)] have a: "agree k (base h t'') (llog h t)" .
    have "agree k (llog h t) (llog h t'')"
      using agree_prefix[OF agree_sym[OF a]] leaders_okD(4)[OF ok(1)] e by auto
    then show False using cf by (auto simp: conflict_def dest: agree_nth)
  qed
  from ok(3) p have fl: "from_leaders h l"
    and "\<exists>cl. (n, t', cl) \<in> cands h \<and> up_to_date cl l"
    and al: "agree k l (llog h t)"
    using no_conflict unfolding votes_ok_def using less.prems(2) by blast+
  then have B: "up_to_date (base h t') l"
    using ok(2) L(1) unfolding cands_ok_def by blast
  let ?B = "base h t'" and ?\<tau> = "last_term (base h t')"
  have fB: "from_leaders h ?B" "\<forall>e\<in>set ?B. entry_term e < t'"
    using ok(2) L(1) unfolding cands_ok_def by blast+
  have k: "0 < k" "k \<le> length (llog h t)" "entry_term (llog h t ! (k - 1)) = t"
    using c by (auto simp: committed_at_def)
  have lne: "l \<noteq> []" "k \<le> length l" using al k(1) by (auto simp: agree_def)
  have "entry_term (l ! (k - 1)) = t" using agree_nth[OF al, of "k - 1"] k by simp
  then have lt: "t \<le> last_term l"
    using from_leaders_sorted[OF ok(1,2) fl, of "k - 1" "length l - 1"] lne
    by (simp add: last_term_def last_conv_nth)
  have tpos: "0 < t"
  proof -
    obtain x where "elected h t = Some x" using c by (auto simp: committed_at_def)
    from leaders_okD(1)[OF ok(1) this] show ?thesis using ok(2) unfolding cands_ok_def by blast
  qed
  have \<tau>: "t \<le> ?\<tau>" "last_term l \<le> ?\<tau>" using B lt by (auto simp: up_to_date_def)
  then have Bne: "?B \<noteq> []" using tpos by (auto simp: last_term_def split: if_splits)
  note W = from_leaders_whole[OF fB(1) Bne]
  show ?case
  proof (cases "?\<tau> = t")
    case True
    then have "k \<le> length ?B" using B lt lne(2) by (auto simp: up_to_date_def)
    then show ?thesis using W(2) True agree_mono by auto
  next
    case False
    then have lt\<tau>: "t < ?\<tau>" using \<tau> by simp
    have \<tau>t': "?\<tau> < t'" using fB(2) Bne by (simp add: last_term_def)
    have IH: "agree k (base h ?\<tau>) (llog h t)" by (rule less.IH[OF \<tau>t' W(1) lt\<tau>])
    have long: "length (base h ?\<tau>) < length ?B"
    proof (rule ccontr)
      assume "\<not> ?thesis"
      then have "length ?B - 1 < length (base h ?\<tau>)" using Bne by (cases ?B) auto
      from base_terms_less[OF ok(1,2) W(1) this]
      have "entry_term (llog h ?\<tau> ! (length ?B - 1)) < ?\<tau>" .
      moreover have "?B ! (length ?B - 1) = llog h ?\<tau> ! (length ?B - 1)"
        using agree_nth[OF W(2)] Bne by simp
      ultimately show False using Bne by (simp add: last_term_def last_conv_nth)
    qed
    have kb: "k \<le> length (base h ?\<tau>)" using IH by (simp add: agree_def)
    have "agree k ?B (llog h ?\<tau>)" using agree_mono[OF W(2)] long kb by simp
    moreover have "agree k (llog h ?\<tau>) (llog h t)"
      using agree_sym[OF agree_prefix[OF agree_sym[OF IH] leaders_okD(4)[OF ok(1)]]] W(1) by auto
    ultimately show ?thesis by (rule agree_trans)
  qed
qed

lemma leader_completeness_llog:
  assumes "history_ok quorum h" "committed_at quorum h t k" "elected h t' \<noteq> None" "t \<le> t'"
  shows "agree k (llog h t') (llog h t)"
proof (cases "t = t'")
  case True
  then show ?thesis using assms(2) by (auto simp: committed_at_def intro: agree_refl)
next
  case False
  with assms have a: "agree k (base h t') (llog h t)" using leader_completeness by force
  have "leaders_ok quorum h" using assms(1) by (simp add: history_ok_def)
  then show ?thesis
    using agree_sym[OF agree_prefix[OF agree_sym[OF a]]] leaders_okD(4) assms(3) by blast
qed


section \<open>Every step keeps the invariant\<close>

lemma spec_invD:
  assumes "spec_inv quorum s"
  shows "history_ok quorum (hist s)" "view_ok quorum (hist s) n (mem s n)"
    and "view_ok quorum (hist s) n (dsk s n)"
    and "leading s n \<Longrightarrow> elected (hist s) (vterm (mem s n)) = Some n"
    and "leading s n \<Longrightarrow> vlog (mem s n) = llog (hist s) (vterm (mem s n))"
  using assms by (auto simp: spec_inv_def)

lemma inv_mem:
  assumes "spec_inv quorum s" "view_ok quorum (hist s) n w"
    and "ld \<Longrightarrow> elected (hist s) (vterm w) = Some n \<and> vlog w = llog (hist s) (vterm w)"
  shows "spec_inv quorum (s\<lparr>mem := (mem s)(n := w), leading := (leading s)(n := ld)\<rparr>)"
  using assms by (simp add: spec_inv_def)

lemma view_ok_raise:
  assumes v: "view_ok quorum h n w" and t: "vterm w < t"
  shows "view_ok quorum h n (w\<lparr>vterm := t, vvote := x\<rparr>)"
proof (rule view_okI)
  fix t0 m k assume "(n, t0, m) \<in> acks h" "k \<le> m"
  from view_okD(6)[OF v this] show "kept h (w\<lparr>vterm := t, vvote := x\<rparr>) t0 k"
    using t by (auto simp: kept_def)
next
  show "commit_ok quorum h (w\<lparr>vterm := t, vvote := x\<rparr>)"
    using view_okD(7)[OF v] t unfolding commit_ok_def by fastforce
next
  fix t0 c l assume "(n, t0, c, l) \<in> votes h"
  from view_okD(3)[OF v this] show "t0 < vterm (w\<lparr>vterm := t, vvote := x\<rparr>) \<or>
      t0 = vterm (w\<lparr>vterm := t, vvote := x\<rparr>) \<and> vvote (w\<lparr>vterm := t, vvote := x\<rparr>) = Some c"
    using t by auto
next
  fix e assume "e \<in> set (vlog (w\<lparr>vterm := t, vvote := x\<rparr>))"
  then show "entry_term e \<le> vterm (w\<lparr>vterm := t, vvote := x\<rparr>)"
    using view_okD(2)[OF v, of e] t by simp
next
  fix t0 l assume "(n, t0, l) \<in> cands h"
  from view_okD(4)[OF v this] t show "t0 \<le> vterm (w\<lparr>vterm := t, vvote := x\<rparr>)" by simp
next
  fix t0 m assume "(n, t0, m) \<in> acks h"
  from view_okD(5)[OF v this] t show "t0 \<le> vterm (w\<lparr>vterm := t, vvote := x\<rparr>)" by simp
qed (use view_okD(1)[OF v] in simp)

lemma kept_vvote: "kept h (w\<lparr>vvote := x\<rparr>) t k = kept h w t k"
  by (simp add: kept_def)

lemma commit_ok_vvote: "commit_ok q h (w\<lparr>vvote := x\<rparr>) = commit_ok q h w"
  by (simp add: commit_ok_def)

lemma view_ok_choose:
  assumes v: "view_ok quorum h n w" and c: "vvote w = None \<or> vvote w = Some c"
  shows "view_ok quorum h n (w\<lparr>vvote := Some c\<rparr>)"
proof (rule view_okI)
  fix t0 c0 l assume "(n, t0, c0, l) \<in> votes h"
  from view_okD(3)[OF v this] c show "t0 < vterm (w\<lparr>vvote := Some c\<rparr>) \<or>
      t0 = vterm (w\<lparr>vvote := Some c\<rparr>) \<and> vvote (w\<lparr>vvote := Some c\<rparr>) = Some c0"
    by auto
qed (simp_all add: kept_vvote commit_ok_vvote, (blast intro: view_okD[OF v])+)

lemma committed_prefix_of_leader:
  assumes h: "history_ok quorum h" and v: "view_ok quorum h n w"
    and e: "elected h (vterm w) \<noteq> None"
  shows "agree (vcommit w) (vlog w) (llog h (vterm w))"
proof (cases "vcommit w = 0")
  case False
  then obtain t k where tk: "committed_at quorum h t k" "vcommit w \<le> k" "t \<le> vterm w"
      "agree (vcommit w) (vlog w) (llog h t)"
    using view_okD(7)[OF v] by (auto simp: commit_ok_def)
  from leader_completeness_llog[OF h tk(1) e tk(3)] tk(2)
  have "agree (vcommit w) (llog h (vterm w)) (llog h t)" by (rule agree_mono)
  with tk(4) show ?thesis using agree_sym agree_trans by blast
qed (simp add: agree_def)


lemma accept_prev_agree:
  assumes h: "history_ok quorum h" and v: "view_ok quorum h n w"
    and m: "(vterm w, prev, es, c) \<in> apps h" and p: "prev \<le> length (vlog w)"
    and pt: "prev = 0 \<or> entry_term (vlog w ! (prev - 1)) = entry_term (llog h (vterm w) ! (prev - 1))"
  shows "agree prev (vlog w) (llog h (vterm w))"
proof (cases "prev = 0")
  case False
  have ok: "leaders_ok quorum h" "cands_ok h" "apps_ok quorum h"
    using h by (auto simp: history_ok_def)
  note A = apps_okD[OF ok(3) m]
  from A(1) obtain l where "elected h (vterm w) = Some l" by auto
  from log_matching_from_leaders[OF view_okD(1)[OF v] llog_from_leaders[OF ok(1,2) this], of "prev - 1"]
  show ?thesis using False p pt A(2) by simp
qed (simp add: agree_def)

lemma kept_accept:
  assumes h: "history_ok quorum h" and v: "view_ok quorum h n w"
    and m: "(vterm w, prev, es, c) \<in> apps h"
    and a: "agree prev (vlog w) (llog h (vterm w))"
    and t: "t \<le> vterm w" "k \<le> length (llog h t)"
    and l': "l' = accept_entries prev es (vlog w)" and kept: "kept h w t k"
  shows "kept h (w\<lparr>vlog := l', vcommit := x\<rparr>) t k"
proof (cases "l' = vlog w")
  case True
  then show ?thesis using kept by (simp add: kept_def)
next
  case False
  note A = apps_okD[OF _ m]
  have ok: "apps_ok quorum h" using h by (simp add: history_ok_def)
  let ?L = "llog h (vterm w)"
  have pl: "prev \<le> length (vlog w)" using a by (simp add: agree_def)
  from accept_length[OF pl] False l' have len: "length l' = prev + length es" "es \<noteq> []" by auto
  have al': "agree (prev + length es) l' ?L"
    using accept_agree[OF a A(2,3)[OF ok]] l' by simp
  have last: "\<exists>e\<in>set l'. entry_term e = vterm w"
  proof -
    have "last es \<in> set l'" using False l' len(2) by (auto simp: accept_entries_def split: if_splits)
    then show ?thesis using A(4)[OF ok len(2)] by blast
  qed
  show ?thesis
  proof (cases "agree k (vlog w) (llog h t)")
    case True
    show ?thesis
    proof (cases "conflict h t (vterm w) k")
      case cf: True
      then have "t \<noteq> vterm w" by (auto simp: conflict_def)
      then show ?thesis using cf last t(1) by (auto simp: kept_def)
    next
      case no: False
      then have eq: "?L ! j = llog h t ! j" if "j < k" "j < length ?L" for j
        using that A(1)[OF ok] by (auto simp: conflict_def)
      have "agree k l' (llog h t)"
      proof (cases "k \<le> prev + length es")
        case True
        then have "k \<le> length ?L" using A(2)[OF ok] by simp
        then have "agree k ?L (llog h t)" using eq t(2) by (auto simp: agree_iff_nth)
        then show ?thesis using agree_mono[OF al' True] agree_trans by blast
      next
        case False
        have "agree (prev + length es) (vlog w) ?L"
          using agree_mono[OF \<open>agree k (vlog w) (llog h t)\<close>, of "prev + length es"] False A(2)[OF ok] eq
          by (auto simp: agree_iff_nth)
        then have "take (length es) (drop prev (vlog w)) = take (length es) (drop prev ?L)"
          by (metis agree_def add.commute take_drop)
        then have "l' = vlog w" using l' A(3)[OF ok] by (simp add: accept_entries_def)
        then show ?thesis using \<open>l' \<noteq> vlog w\<close> by simp
      qed
      then show ?thesis by (simp add: kept_def)
    qed
  next
    case False
    then obtain t' where "t < t'" "conflict h t t' k"
        "t' < vterm w \<or> t' = vterm w \<and> (\<exists>e\<in>set (vlog w). entry_term e = t')"
      using kept by (auto simp: kept_def)
    then show ?thesis using last unfolding kept_def by auto
  qed
qed


lemma view_ok_accept:
  assumes h: "history_ok quorum h" and v: "view_ok quorum h n w"
    and m: "(vterm w, prev, es, c) \<in> apps h"
    and a: "agree prev (vlog w) (llog h (vterm w))"
    and l': "l' = accept_entries prev es (vlog w)"
  shows "view_ok quorum h n (w\<lparr>vlog := l', vcommit := max (vcommit w) (min c (length l'))\<rparr>)"
    (is "view_ok quorum h n ?w")
proof -
  have ok: "leaders_ok quorum h" "cands_ok h" "apps_ok quorum h" "acks_ok h"
    using h by (auto simp: history_ok_def)
  note A = apps_okD[OF ok(3) m]
  let ?L = "llog h (vterm w)"
  from A(1) obtain ldr where ldr: "elected h (vterm w) = Some ldr" by auto
  note LL = llog_from_leaders[OF ok(1,2) ldr]
  have pl: "prev \<le> length (vlog w)" using a by (simp add: agree_def)
  have al': "agree (prev + length es) l' ?L" using accept_agree[OF a A(2,3)] l' by simp
  have whole: "l' = vlog w \<or> l' = take (length l') ?L"
  proof (cases "l' = vlog w")
    case False
    then have "length l' = prev + length es" using accept_length[OF pl] l' by auto
    then show ?thesis using al' by (auto simp: agree_def)
  qed simp
  have fl: "from_leaders h l'"
    using whole view_okD(1)[OF v] from_leaders_take[OF LL] by metis
  have terms: "entry_term e \<le> vterm w" if "e \<in> set l'" for e
    using whole
  proof
    assume "l' = vlog w" then show ?thesis using view_okD(2)[OF v] that by simp
  next
    assume "l' = take (length l') ?L"
    then have "e \<in> set ?L" using that by (metis in_set_takeD)
    then show ?thesis using llog_terms_le[OF ok(1,2) A(1)] by (auto simp: in_set_conv_nth)
  qed
  have cold: "agree (vcommit w) l' ?L"
    using accept_keeps[OF a A(2,3) committed_prefix_of_leader[OF h v A(1)]] l' by simp
  have "commit_ok quorum h ?w"
  proof (cases "vcommit ?w = vcommit w")
    case True
    show ?thesis
    proof (cases "vcommit w = 0")
      case False
      then obtain t k where tk: "committed_at quorum h t k" "vcommit w \<le> k" "t \<le> vterm w"
        using view_okD(7)[OF v] by (auto simp: commit_ok_def)
      have "agree (vcommit w) ?L (llog h t)"
        using agree_mono[OF leader_completeness_llog[OF h tk(1) A(1) tk(3)] tk(2)] .
      with cold have "agree (vcommit w) l' (llog h t)" by (rule agree_trans)
      then show ?thesis using True tk unfolding commit_ok_def by auto
    qed (use True in \<open>simp add: commit_ok_def\<close>)
  next
    case False
    then have c: "vcommit ?w = min c (length l')" "0 < c" by (auto simp: max_def min_def split: if_splits)
    then obtain t k where tk: "committed_at quorum h t k" "c \<le> k" "t \<le> vterm w" using A(6) by auto
    have "agree (min c (length l')) l' ?L" using agree_mono[OF al'] A(5) by simp
    moreover have "agree (min c (length l')) ?L (llog h t)"
      using agree_mono[OF leader_completeness_llog[OF h tk(1) A(1) tk(3)]] tk(2) by simp
    ultimately have "agree (min c (length l')) l' (llog h t)" by (rule agree_trans)
    moreover have "min c (length l') \<le> k" using tk(2) by simp
    ultimately show ?thesis using c tk unfolding commit_ok_def by auto
  qed
  moreover have "kept h ?w t k" if "(n, t, m') \<in> acks h" "k \<le> m'" for t m' k
  proof -
    have "k \<le> length (llog h t)" using ok(4) that by (fastforce simp: acks_ok_def)
    then show ?thesis
      using kept_accept[OF h v m a view_okD(5)[OF v that(1)] _ l' view_okD(6)[OF v that]] by blast
  qed
  ultimately show ?thesis
    using fl terms view_okD(3-5)[OF v] by (intro view_okI) auto
qed

lemma inv_observe:
  assumes "spec_inv quorum s" "vterm (mem s n) < t"
  shows "spec_inv quorum (s\<lparr>mem := (mem s)(n := (mem s n)\<lparr>vterm := t, vvote := x\<rparr>),
                           leading := (leading s)(n := False)\<rparr>)"
  using assms by (intro inv_mem view_ok_raise) (auto intro: spec_invD)

lemma inv_resign: "spec_inv quorum s \<Longrightarrow> spec_inv quorum (s\<lparr>leading := (leading s)(n := False)\<rparr>)"
  by (simp add: spec_inv_def)

lemma inv_choose:
  assumes "spec_inv quorum s" "vvote (mem s n) = None \<or> vvote (mem s n) = Some c"
  shows "spec_inv quorum (s\<lparr>mem := (mem s)(n := (mem s n)\<lparr>vvote := Some c\<rparr>)\<rparr>)"
  using assms view_ok_choose[OF spec_invD(2)[OF assms(1)] assms(2)] by (auto simp: spec_inv_def)

lemma inv_sync: "spec_inv quorum s \<Longrightarrow> spec_inv quorum (s\<lparr>dsk := (dsk s)(n := mem s n)\<rparr>)"
  by (simp add: spec_inv_def)

lemma inv_crash:
  "spec_inv quorum s \<Longrightarrow>
     spec_inv quorum (s\<lparr>mem := (mem s)(n := dsk s n), leading := (leading s)(n := False)\<rparr>)"
  by (rule inv_mem) (auto intro: spec_invD)

lemma inv_accept:
  assumes s: "spec_inv quorum s" and m: "(vterm (mem s n), prev, es, c) \<in> apps (hist s)"
    and p: "prev \<le> length (vlog (mem s n))"
    and pt: "prev = 0 \<or> entry_term (vlog (mem s n) ! (prev - 1))
                        = entry_term (llog (hist s) (vterm (mem s n)) ! (prev - 1))"
    and l': "l' = accept_entries prev es (vlog (mem s n))"
  shows "spec_inv quorum (s\<lparr>mem := (mem s)(n := (mem s n)
           \<lparr>vlog := l', vcommit := max (vcommit (mem s n)) (min c (length l'))\<rparr>),
           leading := (leading s)(n := False)\<rparr>)"
  by (rule inv_mem[OF s view_ok_accept[OF spec_invD(1,2)[OF s] m
        accept_prev_agree[OF spec_invD(1,2)[OF s] m p pt] l']]) simp

lemma inv_commit:
  assumes s: "spec_inv quorum s" and l: "leading s n" and k: "0 < k" "k \<le> length (vlog (mem s n))"
    and t: "entry_term (vlog (mem s n) ! (k - 1)) = vterm (mem s n)"
    and q: "quorum_acked quorum (hist s) (vterm (mem s n)) k"
  shows "spec_inv quorum (s\<lparr>mem := (mem s)(n := (mem s n)\<lparr>vcommit := k\<rparr>)\<rparr>)"
proof -
  let ?w = "(mem s n)\<lparr>vcommit := k\<rparr>" and ?t = "vterm (mem s n)"
  note L = spec_invD(4,5)[OF s l] and v = spec_invD(2)[OF s, of n]
  have "committed_at quorum (hist s) ?t k" using L k t q by (simp add: committed_at_def)
  moreover have "agree k (vlog (mem s n)) (llog (hist s) ?t)" using L k by (simp add: agree_refl)
  ultimately have "commit_ok quorum (hist s) ?w" unfolding commit_ok_def by auto
  moreover have "kept (hist s) ?w t0 j \<longleftrightarrow> kept (hist s) (mem s n) t0 j" for t0 j
    by (simp add: kept_def)
  ultimately have "view_ok quorum (hist s) n ?w"
    using v unfolding view_ok_def by simp
  then show ?thesis using s by (simp add: spec_inv_def)
qed


end

end
