(* ===== verification/Raft_Spec_Safety.thy ===== *)
theory Raft_Spec_Safety
  imports Raft_Spec
begin

text \<open>
  Every step of the protocol keeps the invariant, and what the invariant gives: one leader per
  term, agreement of committed prefixes, leaders that hold everything committed before them.
  The quorums of the code are the majorities of the configured members.
\<close>

context quorum_system
begin

lemma history_okD:
  assumes "history_ok quorum h"
  shows "cands_ok h" "votes_ok h" "leaders_ok quorum h" "apps_ok quorum h" "acks_ok h"
  using assms by (auto simp: history_ok_def)

lemma inv_hist:
  assumes s: "spec_inv quorum s" and h': "history_ok quorum h'" and le: "hist_le (hist s) h'"
    and others: "\<And>n'. n' \<noteq> n \<Longrightarrow> same_promises (hist s) h' n'"
    and own: "view_ok quorum h' n (mem s n)" "view_ok quorum h' n (dsk s n)"
    and same: "elected h' = elected (hist s)" "llog h' = llog (hist s)"
  shows "spec_inv quorum (s\<lparr>hist := h'\<rparr>)"
proof -
  have "view_ok quorum h' n' (mem s n') \<and> view_ok quorum h' n' (dsk s n')" for n'
    using own view_ok_mono[OF le history_okD(5)[OF spec_invD(1)[OF s]]] others spec_invD(2,3)[OF s]
    by (cases "n' = n") blast+
  then show ?thesis using h' spec_invD(4,5)[OF s] same by (simp add: spec_inv_def)
qed

lemma kept_vote:
  assumes k: "kept h w t0 k" and no: "\<forall>e\<in>set (vlog w). entry_term e < vterm w"
  shows "agree k (vlog w) (llog h t0) \<or> (\<exists>t'>t0. t' < vterm w \<and> conflict h t0 t' k)"
  using k no unfolding kept_def by (auto dest: bspec)

text \<open>A vote goes to a log that is at least as up to date, so the voter's log has no entry of
  the term of the election.\<close>

lemma voter_terms_less:
  assumes h: "leaders_ok quorum h" "cands_ok h" and v: "from_leaders h l"
    and c: "(c, t, cl) \<in> cands h" "up_to_date cl l" and e: "e \<in> set l"
  shows "entry_term e < t"
proof -
  from h(2) c(1) have cl: "0 < t" "\<forall>e\<in>set cl. entry_term e < t" unfolding cands_ok_def by blast+
  then have "last_term cl < t" by (simp add: last_term_def)
  then have "last_term l < t" using c(2) by (auto simp: up_to_date_def)
  moreover obtain i where i: "i < length l" "l ! i = e" using e by (auto simp: in_set_conv_nth)
  have "entry_term (l ! i) \<le> entry_term (l ! (length l - 1))"
    using i by (intro from_leaders_sorted[OF h v]) auto
  ultimately show ?thesis using i by (auto simp: last_term_def last_conv_nth split: if_splits)
qed

lemma from_leaders_upd [simp]:
  "from_leaders (h\<lparr>votes := x\<rparr>) = from_leaders h" "from_leaders (h\<lparr>cands := y\<rparr>) = from_leaders h"
  "from_leaders (h\<lparr>acks := z\<rparr>) = from_leaders h" "from_leaders (h\<lparr>apps := a\<rparr>) = from_leaders h"
  by (simp_all add: fun_eq_iff from_leaders_def)

lemma conflict_upd [simp]:
  "conflict (h\<lparr>votes := x\<rparr>) = conflict h" "conflict (h\<lparr>cands := y\<rparr>) = conflict h"
  "conflict (h\<lparr>acks := z\<rparr>) = conflict h" "conflict (h\<lparr>apps := a\<rparr>) = conflict h"
  by (simp_all add: fun_eq_iff conflict_def)

lemma kept_upd [simp]:
  "kept (h\<lparr>votes := x\<rparr>) = kept h" "kept (h\<lparr>cands := y\<rparr>) = kept h"
  "kept (h\<lparr>acks := z\<rparr>) = kept h" "kept (h\<lparr>apps := a\<rparr>) = kept h"
  by (simp_all add: fun_eq_iff kept_def)

lemma committed_at_upd [simp]:
  "committed_at q (h\<lparr>votes := x\<rparr>) = committed_at q h" "committed_at q (h\<lparr>cands := y\<rparr>) = committed_at q h"
  "committed_at q (h\<lparr>apps := a\<rparr>) = committed_at q h"
  by (simp_all add: fun_eq_iff committed_at_def quorum_acked_def)

lemma commit_ok_upd [simp]:
  "commit_ok q (h\<lparr>votes := x\<rparr>) = commit_ok q h" "commit_ok q (h\<lparr>cands := y\<rparr>) = commit_ok q h"
  "commit_ok q (h\<lparr>apps := a\<rparr>) = commit_ok q h"
  by (simp_all add: fun_eq_iff commit_ok_def)

lemma votes_okD:
  assumes "votes_ok h" "(v, t, c, l) \<in> votes h"
  shows "from_leaders h l" "\<exists>cl. (c, t, cl) \<in> cands h \<and> up_to_date cl l"
    and "(v, t, c', l') \<in> votes h \<Longrightarrow> c' = c"
    and "(v, t0, m) \<in> acks h \<Longrightarrow> t0 < t \<Longrightarrow> k \<le> m \<Longrightarrow>
           agree k l (llog h t0) \<or> (\<exists>t'>t0. t' < t \<and> conflict h t0 t' k)"
  using assms unfolding votes_ok_def by blast+

lemma votes_okI:
  assumes "\<And>v t c l. (v, t, c, l) \<in> votes h \<Longrightarrow> from_leaders h l"
    and "\<And>v t c l. (v, t, c, l) \<in> votes h \<Longrightarrow> \<exists>cl. (c, t, cl) \<in> cands h \<and> up_to_date cl l"
    and "\<And>v t c l c' l'. (v, t, c, l) \<in> votes h \<Longrightarrow> (v, t, c', l') \<in> votes h \<Longrightarrow> c' = c"
    and "\<And>v t c l t0 m k. (v, t, c, l) \<in> votes h \<Longrightarrow> (v, t0, m) \<in> acks h \<Longrightarrow> t0 < t \<Longrightarrow> k \<le> m \<Longrightarrow>
           agree k l (llog h t0) \<or> (\<exists>t'>t0. t' < t \<and> conflict h t0 t' k)"
  shows "votes_ok h"
  unfolding votes_ok_def by (intro allI impI conjI) (rule assms; assumption)+

text \<open>A new vote keeps the history good.\<close>

lemma votes_ok_insert:
  assumes ok: "leaders_ok quorum h" "votes_ok h" "cands_ok h" and v: "view_ok quorum h n w"
    and c: "vvote w = Some c" "(c, vterm w, cl) \<in> cands h" "up_to_date cl (vlog w)"
  shows "votes_ok (h\<lparr>votes := insert (n, vterm w, c, vlog w) (votes h)\<rparr>)"
proof -
  let ?h = "h\<lparr>votes := insert (n, vterm w, c, vlog w) (votes h)\<rparr>"
  have terms: "\<forall>e\<in>set (vlog w). entry_term e < vterm w"
    using voter_terms_less[OF ok(1,3) view_okD(1)[OF v] c(2,3)] by blast
  have new_kept: "agree k (vlog w) (llog h t0) \<or> (\<exists>t'>t0. t' < vterm w \<and> conflict h t0 t' k)"
    if "(n, t0, m) \<in> acks h" "k \<le> m" for t0 m k
    by (rule kept_vote[OF view_okD(6)[OF v that] terms])
  have uniq: "c' = c" if "(n, vterm w, c', l') \<in> votes h" for c' l'
    using view_okD(3)[OF v that] c(1) by auto
  show ?thesis
  proof (rule votes_okI)
    fix v' t' c' l' assume "(v', t', c', l') \<in> votes ?h"
    then consider (new) "v' = n" "t' = vterm w" "c' = c" "l' = vlog w" | (old) "(v', t', c', l') \<in> votes h"
      by auto
    then show "from_leaders ?h l'" "\<exists>cl. (c', t', cl) \<in> cands ?h \<and> up_to_date cl l'"
      using view_okD(1)[OF v] c(2,3) votes_okD(1,2)[OF ok(2)] by (cases; auto)+
  next
    fix v' t' c' l' c'' l'' assume "(v', t', c', l') \<in> votes ?h" "(v', t', c'', l'') \<in> votes ?h"
    then show "c'' = c'"
      using uniq votes_okD(3)[OF ok(2)] by auto
  next
    fix v' t' c' l' t0 m k
    assume a: "(v', t', c', l') \<in> votes ?h" "(v', t0, m) \<in> acks ?h" "t0 < t'" "k \<le> m"
    then consider (new) "v' = n" "t' = vterm w" "c' = c" "l' = vlog w" | (old) "(v', t', c', l') \<in> votes h"
      by auto
    then show "agree k l' (llog ?h t0) \<or> (\<exists>t''>t0. t'' < t' \<and> conflict ?h t0 t'' k)"
    proof cases
      case new
      then show ?thesis using new_kept[of t0 m k] a by simp
    next
      case old
      then show ?thesis using votes_okD(4)[OF ok(2) old, of t0 m k] a by simp
    qed
  qed
qed


lemma votes_ok_more_cands:
  assumes v: "votes_ok h" and c: "cands h \<subseteq> C" shows "votes_ok (h\<lparr>cands := C\<rparr>)"
proof (rule votes_okI)
  fix v t cc l assume "(v, t, cc, l) \<in> votes (h\<lparr>cands := C\<rparr>)"
  then have m: "(v, t, cc, l) \<in> votes h" by simp
  show "from_leaders (h\<lparr>cands := C\<rparr>) l" using votes_okD(1)[OF v m] by simp
  show "\<exists>cl. (cc, t, cl) \<in> cands (h\<lparr>cands := C\<rparr>) \<and> up_to_date cl l"
    using votes_okD(2)[OF v m] c by auto
  show "c' = cc" if "(v, t, c', l') \<in> votes (h\<lparr>cands := C\<rparr>)" for c' l'
    using votes_okD(3)[OF v m] that by simp
  show "agree k l (llog (h\<lparr>cands := C\<rparr>) t0) \<or> (\<exists>t'>t0. t' < t \<and> conflict (h\<lparr>cands := C\<rparr>) t0 t' k)"
    if "(v, t0, mm) \<in> acks (h\<lparr>cands := C\<rparr>)" "t0 < t" "k \<le> mm" for t0 mm k
    using votes_okD(4)[OF v m, of t0 mm k] that by simp
qed

lemma inv_grant:
  assumes s: "spec_inv quorum s" and d: "dsk s n = mem s n" and v: "vvote (mem s n) = Some c"
    and c: "(c, vterm (mem s n), cl) \<in> cands (hist s)" "up_to_date cl (vlog (mem s n))"
  shows "spec_inv quorum (s\<lparr>hist := (hist s)
           \<lparr>votes := insert (n, vterm (mem s n), c, vlog (mem s n)) (votes (hist s))\<rparr>\<rparr>)"
proof -
  let ?h = "hist s" and ?w = "mem s n"
  let ?h' = "?h\<lparr>votes := insert (n, vterm ?w, c, vlog ?w) (votes ?h)\<rparr>"
  note H = history_okD[OF spec_invD(1)[OF s]] and V = spec_invD(2)[OF s, of n]
  have "votes_ok ?h'" by (rule votes_ok_insert[OF H(3,2,1) V v c])
  moreover have "cands_ok ?h'" "apps_ok quorum ?h'" "acks_ok ?h'"
    using H by (simp_all add: cands_ok_def apps_ok_def acks_ok_def)
  moreover have "leaders_ok quorum ?h'"
    using H(3) unfolding leaders_ok_def by auto metis
  ultimately have h': "history_ok quorum ?h'" by (simp add: history_ok_def)
  have own: "view_ok quorum ?h' n ?w"
    using V v by (auto simp: view_ok_def)
  show ?thesis
    by (rule inv_hist[OF s h', where n = n])
       (use own d in \<open>auto simp: hist_le_def same_promises_def\<close>)
qed

lemma inv_announce:
  assumes s: "spec_inv quorum s" and d: "dsk s n = mem s n" and v: "vvote (mem s n) = Some n"
    and t: "0 < vterm (mem s n)" and fresh: "\<forall>l. (n, vterm (mem s n), l) \<notin> cands (hist s)"
    and terms: "\<forall>e\<in>set (vlog (mem s n)). entry_term e < vterm (mem s n)"
  shows "spec_inv quorum (s\<lparr>hist := (hist s)
      \<lparr>cands := insert (n, vterm (mem s n), vlog (mem s n)) (cands (hist s)),
       votes := insert (n, vterm (mem s n), n, vlog (mem s n)) (votes (hist s))\<rparr>\<rparr>)"
proof -
  let ?h = "hist s" and ?w = "mem s n"
  let ?h1 = "?h\<lparr>cands := insert (n, vterm ?w, vlog ?w) (cands ?h)\<rparr>"
  let ?s1 = "s\<lparr>hist := ?h1\<rparr>"
  note H = history_okD[OF spec_invD(1)[OF s]] and V = spec_invD(2)[OF s, of n]
  have "cands_ok ?h1"
    using H(1) fresh terms t view_okD(1)[OF V] unfolding cands_ok_def by auto
  moreover have "votes_ok ?h1"
    by (rule votes_ok_more_cands[OF H(2)]) auto
  moreover have "leaders_ok quorum ?h1" "apps_ok quorum ?h1" "acks_ok ?h1"
    using H by (simp_all add: leaders_ok_def apps_ok_def acks_ok_def)
  ultimately have h1: "history_ok quorum ?h1" by (simp add: history_ok_def)
  have own: "view_ok quorum ?h1 n ?w" using V by (auto simp: view_ok_def)
  have "spec_inv quorum ?s1"
    by (rule inv_hist[OF s h1, where n = n])
       (use own d in \<open>auto simp: hist_le_def same_promises_def\<close>)
  from inv_grant[OF this, of n n "vlog ?w"] d v show ?thesis
    by (simp add: up_to_date_def)
qed


text \<open>A new acknowledgement of what both views share with the leader.\<close>

lemma inv_new_ack:
  assumes s: "spec_inv quorum s" and d: "dsk s n = mem s n"
    and e: "elected (hist s) (vterm (mem s n)) \<noteq> None"
    and a: "agree m (vlog (mem s n)) (llog (hist s) (vterm (mem s n)))"
  shows "spec_inv quorum (s\<lparr>hist := (hist s)\<lparr>acks := insert (n, vterm (mem s n), m) (acks (hist s))\<rparr>\<rparr>)"
proof -
  let ?h = "hist s" and ?w = "mem s n"
  let ?h' = "?h\<lparr>acks := insert (n, vterm ?w, m) (acks ?h)\<rparr>"
  note H = history_okD[OF spec_invD(1)[OF s]] and V = spec_invD(2)[OF s, of n]
  have le: "hist_le ?h ?h'" by (auto simp: hist_le_def)
  have "votes_ok ?h'"
  proof (rule votes_okI)
    fix v t c l assume "(v, t, c, l) \<in> votes ?h'"
    then have old: "(v, t, c, l) \<in> votes ?h" by simp
    show "from_leaders ?h' l" using votes_okD(1)[OF H(2) old] by simp
    show "\<exists>cl. (c, t, cl) \<in> cands ?h' \<and> up_to_date cl l" using votes_okD(2)[OF H(2) old] by simp
    show "c' = c" if "(v, t, c', l') \<in> votes ?h'" for c' l'
      using votes_okD(3)[OF H(2) old] that by simp
    show "agree k l (llog ?h' t0) \<or> (\<exists>t'>t0. t' < t \<and> conflict ?h' t0 t' k)"
      if x: "(v, t0, m') \<in> acks ?h'" "t0 < t" "k \<le> m'" for t0 m' k
    proof (cases "(v, t0, m') \<in> acks ?h")
      case True
      then show ?thesis using votes_okD(4)[OF H(2) old True x(2,3)] by simp
    next
      case False
      then have "v = n" "t0 = vterm ?w" using x(1) by auto
      then show ?thesis using view_okD(3)[OF V, of t c l] old x(2) by auto
    qed
  qed
  moreover have "acks_ok ?h'" using H(5) e a by (auto simp: acks_ok_def agree_def)
  moreover have "cands_ok ?h'" "leaders_ok quorum ?h'"
    using H by (simp_all add: cands_ok_def leaders_ok_def)
  moreover have "apps_ok quorum ?h'"
    using H(4) committed_at_mono[OF le] unfolding apps_ok_def by auto metis+
  ultimately have h': "history_ok quorum ?h'" by (simp add: history_ok_def)
  have own: "view_ok quorum ?h' n ?w"
  proof (rule view_okI)
    show "kept ?h' ?w t k" if "(n, t, m') \<in> acks ?h'" "k \<le> m'" for t m' k
    proof (cases "(n, t, m') \<in> acks ?h")
      case True
      then show ?thesis using view_okD(6)[OF V True that(2)] by simp
    next
      case False
      then show ?thesis using that a agree_mono by (auto simp: kept_def)
    qed
    show "t \<le> vterm ?w" if "(n, t, m') \<in> acks ?h'" for t m'
      using that view_okD(5)[OF V] by auto
    show "commit_ok quorum ?h' ?w" by (rule commit_ok_mono[OF le view_okD(7)[OF V]])
  qed (use view_okD(1-4)[OF V] in auto)
  show ?thesis
    by (rule inv_hist[OF s h', where n = n]) (use own d le in \<open>auto simp: same_promises_def\<close>)
qed

lemma inv_send:
  assumes s: "spec_inv quorum s" and l: "leading s n"
    and a: "(n, vterm (mem s n), length (vlog (mem s n))) \<in> acks (hist s)"
    and p: "prev \<le> length (vlog (mem s n))"
  shows "spec_inv quorum (s\<lparr>hist := (hist s)
      \<lparr>apps := insert (vterm (mem s n), prev, drop prev (vlog (mem s n)), vcommit (mem s n))
                 (apps (hist s))\<rparr>\<rparr>)"
proof -
  let ?h = "hist s" and ?w = "mem s n"
  let ?h' = "?h\<lparr>apps := insert (vterm ?w, prev, drop prev (vlog ?w), vcommit ?w) (apps ?h)\<rparr>"
  note H = history_okD[OF spec_invD(1)[OF s]] and V = spec_invD(2)[OF s, of n]
  note L = spec_invD(4,5)[OF s l] and LD = leaders_okD[OF H(3) spec_invD(4)[OF s l]]
  have lst: "entry_term (last (drop prev (vlog ?w))) = vterm ?w" if "drop prev (vlog ?w) \<noteq> []"
    using that L LD(5) LD(6)[of "length (vlog ?w) - 1"] by (simp add: last_drop last_conv_nth)
  have c: "vcommit ?w \<le> length (vlog ?w)"
    using committed_prefix_of_leader[OF spec_invD(1)[OF s] V] L by (simp add: agree_def)
  have cc: "vcommit ?w = 0 \<or> (\<exists>t0 k. committed_at quorum ?h t0 k \<and> vcommit ?w \<le> k \<and> t0 \<le> vterm ?w)"
    using view_okD(7)[OF V] by (auto simp: commit_ok_def)
  have "apps_ok quorum ?h'"
    using H(4) L a p lst c cc unfolding apps_ok_def by auto
  moreover have "cands_ok ?h'" "leaders_ok quorum ?h'" "acks_ok ?h'" "votes_ok ?h'"
    using H by (simp_all add: cands_ok_def leaders_ok_def acks_ok_def votes_ok_def)
  ultimately have h': "history_ok quorum ?h'" by (simp add: history_ok_def)
  have own: "view_ok quorum ?h' n v" if "view_ok quorum ?h n v" for v
    using that by (simp add: view_ok_def)
  show ?thesis
    by (rule inv_hist[OF s h', where n = n])
       (use own V spec_invD(3)[OF s] in \<open>auto simp: hist_le_def same_promises_def\<close>)
qed


text \<open>A leader's log grows, or a leader is new: everything recorded earlier stays true.\<close>

lemma history_grow:
  assumes h: "history_ok quorum h" and le: "hist_le h h'" and l: "leaders_ok quorum h'"
    and same: "cands h' = cands h" "votes h' = votes h" "acks h' = acks h" "apps h' = apps h"
  shows "history_ok quorum h'"
proof -
  note H = history_okD[OF h]
  have "cands_ok h'"
    using H(1) from_leaders_mono[OF le] same unfolding cands_ok_def by (simp; blast)
  moreover have "votes_ok h'"
  proof (rule votes_okI)
    fix v t c l assume "(v, t, c, l) \<in> votes h'"
    then have old: "(v, t, c, l) \<in> votes h" using same by simp
    show "from_leaders h' l" by (rule from_leaders_mono[OF le votes_okD(1)[OF H(2) old]])
    show "\<exists>cl. (c, t, cl) \<in> cands h' \<and> up_to_date cl l" using votes_okD(2)[OF H(2) old] same by simp
    show "c' = c" if "(v, t, c', l') \<in> votes h'" for c' l'
      using votes_okD(3)[OF H(2) old] that same by simp
    show "agree k l (llog h' t0) \<or> (\<exists>t'>t0. t' < t \<and> conflict h' t0 t' k)"
      if x: "(v, t0, m') \<in> acks h'" "t0 < t" "k \<le> m'" for t0 m' k
    proof -
      have a: "(v, t0, m') \<in> acks h" using x same by simp
      have e: "elected h t0 \<noteq> None" "k \<le> length (llog h t0)"
        using H(5) a x(3) by (fastforce simp: acks_ok_def)+
      from votes_okD(4)[OF H(2) old a x(2,3)] show ?thesis
        using agree_prefix[OF _ hist_leD(6)[OF le e(1)]] conflict_mono[OF le e] by blast
    qed
  qed
  moreover have "acks_ok h'"
    using H(5) same hist_leD(4,6)[OF le] prefix_len unfolding acks_ok_def by (metis le_trans)
  moreover have "apps_ok quorum h'"
    unfolding apps_ok_def
  proof (intro allI impI, goal_cases)
    case (1 t prev es c)
    then have m: "(t, prev, es, c) \<in> apps h" using same by simp
    note A = apps_okD[OF H(4) m]
    note P = hist_leD(4,6)[OF le A(1)]
    obtain zs where zs: "llog h' t = llog h t @ zs" using P(2) by (auto simp: prefix_def)
    have "es = take (length es) (drop prev (llog h' t))" using A(2,3) zs by simp
    moreover have "prev + length es \<le> length (llog h' t)" using A(2) zs by simp
    ultimately show ?case using A(1,4-7) P(1) same committed_at_mono[OF le] by metis
  qed
  ultimately show ?thesis using l by (simp add: history_ok_def)
qed

lemma view_ok_append:
  assumes v: "view_ok quorum h n w" and f: "from_leaders h (vlog w @ [e])" and t: "entry_term e \<le> vterm w"
  shows "view_ok quorum h n (w\<lparr>vlog := vlog w @ [e]\<rparr>)"
proof -
  have app: "agree k (vlog w) l \<Longrightarrow> agree k (vlog w @ [e]) l" for k l
    by (simp add: agree_def)
  show ?thesis
  proof (rule view_okI)
  fix t0 m k assume "(n, t0, m) \<in> acks h" "k \<le> m"
  from view_okD(6)[OF v this] show "kept h (w\<lparr>vlog := vlog w @ [e]\<rparr>) t0 k"
    unfolding kept_def using app by auto
next
  show "commit_ok quorum h (w\<lparr>vlog := vlog w @ [e]\<rparr>)"
    using view_okD(7)[OF v] app unfolding commit_ok_def by auto
qed (use f t view_okD(2-5)[OF v] in auto)
qed

lemma inv_grow:
  assumes s: "spec_inv quorum s" and le: "hist_le (hist s) h'" and l: "leaders_ok quorum h'"
    and same: "cands h' = cands (hist s)" "votes h' = votes (hist s)" "acks h' = acks (hist s)"
              "apps h' = apps (hist s)"
    and n: "elected h' (vterm (mem s n)) = Some n" "llog h' (vterm (mem s n)) = vlog (mem s n) @ [e]"
    and e: "entry_term e = vterm (mem s n)"
    and others: "\<And>t. t \<noteq> vterm (mem s n) \<Longrightarrow> elected h' t = elected (hist s) t \<and> llog h' t = llog (hist s) t"
    and mine: "elected (hist s) (vterm (mem s n)) = None \<or> elected (hist s) (vterm (mem s n)) = Some n"
  shows "spec_inv quorum (s\<lparr>mem := (mem s)(n := (mem s n)\<lparr>vlog := vlog (mem s n) @ [e]\<rparr>),
           leading := (leading s)(n := True), hist := h'\<rparr>)"
proof -
  note H = spec_invD(1)[OF s]
  have h': "history_ok quorum h'" by (rule history_grow[OF H le l same])
  have V: "view_ok quorum h' n' w" if "view_ok quorum (hist s) n' w" for n' w
    using view_ok_mono[OF le history_okD(5)[OF H] that] same by (simp add: same_promises_def)
  have f: "from_leaders h' (vlog (mem s n) @ [e])"
    using llog_from_leaders[OF l history_okD(1)[OF h'] n(1)] n(2) by simp
  have own: "view_ok quorum h' n ((mem s n)\<lparr>vlog := vlog (mem s n) @ [e]\<rparr>)"
    by (rule view_ok_append[OF V[OF spec_invD(2)[OF s]] f]) (simp add: e)
  have lead: "elected h' (vterm (mem s n')) = Some n' \<and> vlog (mem s n') = llog h' (vterm (mem s n'))"
    if "leading s n'" "n' \<noteq> n" for n'
  proof -
    note L = spec_invD(4,5)[OF s that(1)]
    have "vterm (mem s n') \<noteq> vterm (mem s n)" using L(1) mine that(2) by auto
    then show ?thesis using L others by simp
  qed
  show ?thesis
    using h' own V spec_invD(2,3)[OF s] n lead by (simp add: spec_inv_def)
qed

lemma inv_elect:
  assumes s: "spec_inv quorum s" and c: "(n, vterm (mem s n), vlog (mem s n)) \<in> cands (hist s)"
    and no: "elected (hist s) (vterm (mem s n)) = None"
    and q: "quorum Q" "\<forall>v\<in>Q. \<exists>l. (v, vterm (mem s n), n, l) \<in> votes (hist s)"
    and e: "entry_term e = vterm (mem s n)" and g: "good_log (vlog (mem s n) @ [e])"
  shows "spec_inv quorum (s\<lparr>mem := (mem s)(n := (mem s n)\<lparr>vlog := vlog (mem s n) @ [e]\<rparr>),
      leading := (leading s)(n := True),
      hist := (hist s)\<lparr>elected := (elected (hist s))(vterm (mem s n) := Some n),
                       base := (base (hist s))(vterm (mem s n) := vlog (mem s n)),
                       llog := (llog (hist s))(vterm (mem s n) := vlog (mem s n) @ [e])\<rparr>\<rparr>)"
proof (rule inv_grow[OF s])
  let ?t = "vterm (mem s n)"
  let ?h' = "(hist s)\<lparr>elected := (elected (hist s))(?t := Some n),
     base := (base (hist s))(?t := vlog (mem s n)), llog := (llog (hist s))(?t := vlog (mem s n) @ [e])\<rparr>"
  show "hist_le (hist s) ?h'" using no by (auto simp: hist_le_def)
  show "leaders_ok quorum ?h'"
    using history_okD(3)[OF spec_invD(1)[OF s]] c q e g unfolding leaders_ok_def by auto
qed (use no e in auto)

lemma inv_propose:
  assumes s: "spec_inv quorum s" and ld: "leading s n"
    and e: "entry_term e = vterm (mem s n)" and g: "good_log (vlog (mem s n) @ [e])"
  shows "spec_inv quorum (s\<lparr>mem := (mem s)(n := (mem s n)\<lparr>vlog := vlog (mem s n) @ [e]\<rparr>),
      hist := (hist s)\<lparr>llog := (llog (hist s))(vterm (mem s n) := vlog (mem s n) @ [e])\<rparr>\<rparr>)"
proof -
  let ?t = "vterm (mem s n)"
  let ?h' = "(hist s)\<lparr>llog := (llog (hist s))(?t := vlog (mem s n) @ [e])\<rparr>"
  note L = spec_invD(4,5)[OF s ld]
  have le: "hist_le (hist s) ?h'" using L(2) by (auto simp: hist_le_def)
  have "\<exists>xs. xs \<noteq> [] \<and> vlog (mem s n) @ [e] = base (hist s) ?t @ xs \<and> (\<forall>x\<in>set xs. entry_term x = ?t)"
  proof -
    from history_okD(3)[OF spec_invD(1)[OF s]] L obtain xs where
      "llog (hist s) ?t = base (hist s) ?t @ xs" "\<forall>x\<in>set xs. entry_term x = ?t"
      unfolding leaders_ok_def by blast
    then show ?thesis using L(2) e by (intro exI[of _ "xs @ [e]"]) auto
  qed
  then have lo: "leaders_ok quorum ?h'"
    using history_okD(3)[OF spec_invD(1)[OF s]] g unfolding leaders_ok_def by auto
  have "(leading s)(n := True) = leading s" using ld by (simp add: fun_upd_idem)
  with inv_grow[OF s le lo, of n e] L e show ?thesis by simp
qed

theorem spec_step_inv: "spec_step quorum s s' \<Longrightarrow> spec_inv quorum s \<Longrightarrow> spec_inv quorum s'"
proof (induction rule: spec_step.induct)
  case (observe s n t) then show ?case by (intro inv_observe)
next
  case (resign s n) then show ?case by (intro inv_resign)
next
  case (choose s n c) then show ?case by (intro inv_choose)
next
  case (candidacy s n) then show ?case using inv_observe[of s n "Suc (vterm (mem s n))"] by simp
next
  case (sync s n) then show ?case by (intro inv_sync)
next
  case (announce s n) then show ?case by (intro inv_announce)
next
  case (grant s n c cl) then show ?case by (intro inv_grant)
next
  case (elect t s n Q l' e) then show ?case using inv_elect[of s n Q e] by simp
next
  case (propose s n t l' e) then show ?case using inv_propose[of s n e] by simp
next
  case (self_ack s n) then show ?case
    using inv_new_ack[of s n] spec_invD(4,5)[of s n] by (simp add: agree_refl)
next
  case (send s n prev) then show ?case by (intro inv_send)
next
  case (accept s n prev es c l') then show ?case by (intro inv_accept)
next
  case (ack s n prev es c) then show ?case
    using inv_new_ack[of s n] apps_okD(1)[OF history_okD(4)[OF spec_invD(1)[of s]]] by blast
next
  case (commit s n k) then show ?case by (intro inv_commit)
next
  case (crash s n) then show ?case by (intro inv_crash)
qed


section \<open>Consequences\<close>

text \<open>Two views of any nodes agree on everything both have committed.\<close>

lemma commits_agree:
  assumes h: "history_ok quorum h" and v: "commit_ok quorum h w" "commit_ok quorum h w'"
  shows "agree (min (vcommit w) (vcommit w')) (vlog w) (vlog w')"
proof (cases "vcommit w = 0 \<or> vcommit w' = 0")
  case False
  obtain t k where tk: "committed_at quorum h t k" "vcommit w \<le> k" "agree (vcommit w) (vlog w) (llog h t)"
    using v(1) False by (auto simp: commit_ok_def)
  obtain t' k' where tk': "committed_at quorum h t' k'" "vcommit w' \<le> k'"
      "agree (vcommit w') (vlog w') (llog h t')"
    using v(2) False by (auto simp: commit_ok_def)
  have e: "elected h t \<noteq> None" "elected h t' \<noteq> None" using tk(1) tk'(1) by (auto simp: committed_at_def)
  let ?m = "min (vcommit w) (vcommit w')"
  have "agree ?m (llog h t) (llog h t')"
  proof (cases "t \<le> t'")
    case True
    from leader_completeness_llog[OF h tk(1) e(2) True] show ?thesis
      using agree_mono agree_sym tk(2) by (meson min.coboundedI1)
  next
    case False
    from leader_completeness_llog[OF h tk'(1) e(1)] False show ?thesis
      using agree_mono tk'(2) by (meson min.coboundedI2 nat_le_linear)
  qed
  moreover have "agree ?m (vlog w) (llog h t)" "agree ?m (vlog w') (llog h t')"
    using agree_mono[OF tk(3)] agree_mono[OF tk'(3)] by simp_all
  ultimately show ?thesis using agree_sym agree_trans by blast
qed (auto simp: agree_def)

lemma elected_unique:
  assumes h: "history_ok quorum h" and e: "elected h t = Some n'"
    and q: "quorum Q" "\<forall>v\<in>Q. \<exists>l. (v, t, n, l) \<in> votes h"
  shows "n' = n"
proof -
  obtain Q' where Q': "quorum Q'" "\<forall>v\<in>Q'. \<exists>l. (v, t, n', l) \<in> votes h"
    using leaders_okD(2)[OF history_okD(3)[OF h] e] by blast
  then obtain v where "v \<in> Q" "v \<in> Q'" using quorums_intersect q(1) by blast
  then obtain l l' where "(v, t, n, l) \<in> votes h" "(v, t, n', l') \<in> votes h" using q(2) Q'(2) by blast
  then show ?thesis using votes_okD(3)[OF history_okD(2)[OF h]] by blast
qed

lemma leader_holds_commits:
  assumes s: "spec_inv quorum s" and l: "leading s n" and v: "commit_ok quorum (hist s) w"
    and t: "vterm w \<le> vterm (mem s n)"
  shows "agree (vcommit w) (vlog w) (vlog (mem s n))"
proof (cases "vcommit w = 0")
  case False
  then obtain t k where tk: "committed_at quorum (hist s) t k" "vcommit w \<le> k" "t \<le> vterm w"
      "agree (vcommit w) (vlog w) (llog (hist s) t)"
    using v by (auto simp: commit_ok_def)
  note L = spec_invD(4,5)[OF s l]
  have "agree k (llog (hist s) (vterm (mem s n))) (llog (hist s) t)"
    using leader_completeness_llog[OF spec_invD(1)[OF s] tk(1)] L(1) tk(3) t by simp
  then show ?thesis using agree_mono[OF _ tk(2)] agree_trans[OF tk(4)] agree_sym L(2) by metis
qed (simp add: agree_def)

lemma spec_steps_inv: "(spec_step quorum)\<^sup>*\<^sup>* s s' \<Longrightarrow> spec_inv quorum s \<Longrightarrow> spec_inv quorum s'"
  by (induction rule: rtranclp_induct) (auto intro: spec_step_inv)

end

lemma init_spec_inv: "spec_inv quorum init_spec"
  by (simp add: spec_inv_def init_spec_def init_history_def init_view_def history_ok_def cands_ok_def
      votes_ok_def leaders_ok_def apps_ok_def acks_ok_def view_ok_def from_leaders_def good_log_def
      indexed_log_def commit_ok_def)

section \<open>Majorities\<close>

text \<open>The quorums of the code: more than half of the configured members.\<close>

definition majority_set :: "string set \<Rightarrow> string set \<Rightarrow> bool" where
  "majority_set ids A \<longleftrightarrow> finite ids \<and> A \<subseteq> ids \<and> card ids < 2 * card A"

interpretation majorities: quorum_system "majority_set ids" for ids
proof unfold_locales
  fix A B assume A: "majority_set ids A" and B: "majority_set ids B"
  show "\<exists>v. v \<in> A \<and> v \<in> B"
  proof (rule ccontr)
    assume "\<not> ?thesis"
    then have "A \<inter> B = {}" by blast
    then have "card (A \<union> B) = card A + card B"
      using A B by (meson card_Un_disjoint finite_subset majority_set_def)
    moreover have "card (A \<union> B) \<le> card ids" using A B by (intro card_mono) (auto simp: majority_set_def)
    ultimately show False using A B by (simp add: majority_set_def)
  qed
qed

end
