(* ===== verification/Raft_Sim.thy ===== *)
theory Raft_Sim
  imports Raft_Cluster Raft_Spec_Safety
begin

text \<open>
  The cluster of \<open>Raft_Cluster\<close> implements the protocol of \<open>Raft_Spec\<close>: every handler of a node is
  a sequence of protocol steps of that node.  \<open>node_rel\<close> relates a running node to its two views;
  \<open>sim\<close> says that a node computation is matched by protocol steps, also when it fails half way,
  and is composed along \<open>bind_step\<close>.  The messages in the network correspond to facts of the
  history, which only grows.
\<close>

section \<open>Views of a node\<close>

definition view_of :: "persistent_state \<Rightarrow> view" where
  "view_of p = \<lparr>vterm = current_term p, vvote = voted_for p, vlog = raft_log p, vcommit = commit_index p\<rparr>"

definition file_view :: "state_file \<Rightarrow> view" where
  "file_view f = (case f of Decoded p \<Rightarrow> view_of p | _ \<Rightarrow> init_view)"

lemma view_of_sel [simp]:
  "vterm (view_of p) = current_term p" "vvote (view_of p) = voted_for p"
  "vlog (view_of p) = raft_log p" "vcommit (view_of p) = commit_index p"
  by (simp_all add: view_of_def)

lemma file_view_Decoded [simp]: "file_view (Decoded p) = view_of p"
  by (simp add: file_view_def)

lemma upd_v_sel [simp]:
  "config (upd_v f n) = config n" "vstate (upd_v f n) = f (vstate n)" "disk (upd_v f n) = disk n"
  by (simp_all add: upd_v_def)

lemma upd_p_sel [simp]:
  "persistent (upd_p f v) = f (persistent v)" "node_role (upd_p f v) = node_role v"
  "storage_error (upd_p f v) = storage_error v" "next_index (upd_p f v) = next_index v"
  "match_index (upd_p f v) = match_index v"
  by (simp_all add: upd_p_def)

lemma reset_election_deadline_sel [simp]:
  "persistent (reset_election_deadline env c v) = persistent v"
  "node_role (reset_election_deadline env c v) = node_role v"
  "storage_error (reset_election_deadline env c v) = storage_error v"
  "next_index (reset_election_deadline env c v) = next_index v"
  "match_index (reset_election_deadline env c v) = match_index v"
  by (simp_all add: reset_election_deadline_def Let_def)

lemma become_follower_sel [simp]:
  "persistent (become_follower env c t ldr v) =
     (if current_term (persistent v) < t then (persistent v)\<lparr>current_term := t, voted_for := None\<rparr>
      else persistent v)"
  "node_role (become_follower env c t ldr v) = Follower"
  "storage_error (become_follower env c t ldr v) = storage_error v"
  by (simp_all add: become_follower_def Let_def)

section \<open>Steps of one node\<close>

definition evolve :: "string set \<Rightarrow> string \<Rightarrow> raft_spec \<Rightarrow> raft_spec \<Rightarrow> bool" where
  "evolve ids i s s' \<longleftrightarrow> (spec_step (majority_set ids))\<^sup>*\<^sup>* s s' \<and> hist_le (hist s) (hist s') \<and>
     apps (hist s) \<subseteq> apps (hist s') \<and>
     (\<forall>j. j \<noteq> i \<longrightarrow> mem s' j = mem s j \<and> dsk s' j = dsk s j \<and> leading s' j = leading s j) \<and>
     (\<forall>t. elected (hist s') t = elected (hist s) t \<or> elected (hist s') t = Some i)"

lemma hist_le_refl [simp]: "hist_le h h"
  by (simp add: hist_le_def)

lemma hist_le_trans: "hist_le h h' \<Longrightarrow> hist_le h' h'' \<Longrightarrow> hist_le h h''"
  unfolding hist_le_def by (metis (no_types, lifting) prefix_order.trans subset_trans)

lemma evolve_refl [simp]: "evolve ids i s s"
  by (simp add: evolve_def)

lemma evolve_trans: "evolve ids i s s' \<Longrightarrow> evolve ids i s' s'' \<Longrightarrow> evolve ids i s s''"
  unfolding evolve_def by (metis hist_le_trans rtranclp_trans subset_trans)

lemma evolveD:
  assumes "evolve ids i s s'"
  shows "(spec_step (majority_set ids))\<^sup>*\<^sup>* s s'" "hist_le (hist s) (hist s')" "apps (hist s) \<subseteq> apps (hist s')"
    and "j \<noteq> i \<Longrightarrow> mem s' j = mem s j" "j \<noteq> i \<Longrightarrow> dsk s' j = dsk s j" "j \<noteq> i \<Longrightarrow> leading s' j = leading s j"
    and "elected (hist s') t = elected (hist s) t \<or> elected (hist s') t = Some i"
  using assms unfolding evolve_def by blast+

lemma evolve_inv: "evolve ids i s s' \<Longrightarrow> spec_inv (majority_set ids) s \<Longrightarrow> spec_inv (majority_set ids) s'"
  using evolveD(1) majorities.spec_steps_inv by blast

lemma evolve_step:
  assumes "spec_step (majority_set ids) s s'" "hist_le (hist s) (hist s')" "apps (hist s) \<subseteq> apps (hist s')"
    and "\<And>j. j \<noteq> i \<Longrightarrow> mem s' j = mem s j \<and> dsk s' j = dsk s j \<and> leading s' j = leading s j"
    and "\<And>t. elected (hist s') t = elected (hist s) t \<or> elected (hist s') t = Some i"
  shows "evolve ids i s s'"
  using assms unfolding evolve_def by blast

text \<open>The single protocol steps, as evolutions of their node.\<close>

lemma evolve_observe:
  "vterm (mem s i) < t \<Longrightarrow> evolve ids i s (s\<lparr>mem := (mem s)(i := (mem s i)\<lparr>vterm := t, vvote := None\<rparr>),
     leading := (leading s)(i := False)\<rparr>)"
  by (rule evolve_step, rule spec_step.observe) auto

lemma evolve_choose:
  "vvote (mem s i) = None \<or> vvote (mem s i) = Some c \<Longrightarrow>
   evolve ids i s (s\<lparr>mem := (mem s)(i := (mem s i)\<lparr>vvote := Some c\<rparr>)\<rparr>)"
  by (rule evolve_step, rule spec_step.choose) auto

lemma evolve_candidacy:
  "evolve ids i s (s\<lparr>mem := (mem s)(i := (mem s i)\<lparr>vterm := Suc (vterm (mem s i)), vvote := Some i\<rparr>),
     leading := (leading s)(i := False)\<rparr>)"
  by (rule evolve_step, rule spec_step.candidacy) auto

lemma evolve_sync: "evolve ids i s (s\<lparr>dsk := (dsk s)(i := mem s i)\<rparr>)"
  by (rule evolve_step, rule spec_step.sync) auto

lemma evolve_crash: "evolve ids i s (s\<lparr>mem := (mem s)(i := dsk s i), leading := (leading s)(i := False)\<rparr>)"
  by (rule evolve_step, rule spec_step.crash) auto

lemma evolve_announce:
  "dsk s i = mem s i \<Longrightarrow> vvote (mem s i) = Some i \<Longrightarrow> 0 < vterm (mem s i) \<Longrightarrow>
    \<forall>l. (i, vterm (mem s i), l) \<notin> cands (hist s) \<Longrightarrow>
    \<forall>e\<in>set (vlog (mem s i)). entry_term e < vterm (mem s i) \<Longrightarrow>
    evolve ids i s (s\<lparr>hist := (hist s)
      \<lparr>cands := insert (i, vterm (mem s i), vlog (mem s i)) (cands (hist s)),
       votes := insert (i, vterm (mem s i), i, vlog (mem s i)) (votes (hist s))\<rparr>\<rparr>)"
  by (rule evolve_step, rule spec_step.announce) (auto simp: hist_le_def)

lemma evolve_grant:
  "dsk s i = mem s i \<Longrightarrow> vvote (mem s i) = Some c \<Longrightarrow>
    (c, vterm (mem s i), cl) \<in> cands (hist s) \<Longrightarrow> up_to_date cl (vlog (mem s i)) \<Longrightarrow>
    evolve ids i s (s\<lparr>hist := (hist s)
      \<lparr>votes := insert (i, vterm (mem s i), c, vlog (mem s i)) (votes (hist s))\<rparr>\<rparr>)"
  by (rule evolve_step, rule spec_step.grant) (auto simp: hist_le_def)

lemma evolve_elect:
  "(i, vterm (mem s i), vlog (mem s i)) \<in> cands (hist s) \<Longrightarrow>
    elected (hist s) (vterm (mem s i)) = None \<Longrightarrow> majority_set ids Q \<Longrightarrow>
    \<forall>v\<in>Q. \<exists>l. (v, vterm (mem s i), i, l) \<in> votes (hist s) \<Longrightarrow>
    entry_term e = vterm (mem s i) \<Longrightarrow> good_log (vlog (mem s i) @ [e]) \<Longrightarrow>
    evolve ids i s (s\<lparr>mem := (mem s)(i := (mem s i)\<lparr>vlog := vlog (mem s i) @ [e]\<rparr>),
      leading := (leading s)(i := True),
      hist := (hist s)\<lparr>elected := (elected (hist s))(vterm (mem s i) := Some i),
                       base := (base (hist s))(vterm (mem s i) := vlog (mem s i)),
                       llog := (llog (hist s))(vterm (mem s i) := vlog (mem s i) @ [e])\<rparr>\<rparr>)"
  by (rule evolve_step, rule spec_step.elect[where Q = Q]) (auto simp: hist_le_def)

lemma evolve_propose:
  "spec_inv (majority_set ids) s \<Longrightarrow> leading s i \<Longrightarrow>
    entry_term e = vterm (mem s i) \<Longrightarrow> good_log (vlog (mem s i) @ [e]) \<Longrightarrow>
    evolve ids i s (s\<lparr>mem := (mem s)(i := (mem s i)\<lparr>vlog := vlog (mem s i) @ [e]\<rparr>),
      hist := (hist s)\<lparr>llog := (llog (hist s))(vterm (mem s i) := vlog (mem s i) @ [e])\<rparr>\<rparr>)"
  using majorities.spec_invD(5)[of ids s i]
  by (intro evolve_step, intro spec_step.propose) (auto simp: hist_le_def)

lemma evolve_self_ack:
  "leading s i \<Longrightarrow> dsk s i = mem s i \<Longrightarrow>
    evolve ids i s (s\<lparr>hist := (hist s)
      \<lparr>acks := insert (i, vterm (mem s i), length (vlog (mem s i))) (acks (hist s))\<rparr>\<rparr>)"
  by (rule evolve_step, rule spec_step.self_ack) (auto simp: hist_le_def)

lemma evolve_send:
  "leading s i \<Longrightarrow> (i, vterm (mem s i), length (vlog (mem s i))) \<in> acks (hist s) \<Longrightarrow>
    prev \<le> length (vlog (mem s i)) \<Longrightarrow>
    evolve ids i s (s\<lparr>hist := (hist s)
      \<lparr>apps := insert (vterm (mem s i), prev, drop prev (vlog (mem s i)), vcommit (mem s i))
                 (apps (hist s))\<rparr>\<rparr>)"
  by (rule evolve_step, rule spec_step.send) (auto simp: hist_le_def)

lemma evolve_accept:
  "(vterm (mem s i), prev, es, c) \<in> apps (hist s) \<Longrightarrow> prev \<le> length (vlog (mem s i)) \<Longrightarrow>
    prev = 0 \<or> entry_term (vlog (mem s i) ! (prev - 1))
                = entry_term (llog (hist s) (vterm (mem s i)) ! (prev - 1)) \<Longrightarrow>
    l' = accept_entries prev es (vlog (mem s i)) \<Longrightarrow>
    evolve ids i s (s\<lparr>mem := (mem s)(i := (mem s i)
        \<lparr>vlog := l', vcommit := max (vcommit (mem s i)) (min c (length l'))\<rparr>),
      leading := (leading s)(i := False)\<rparr>)"
  by (rule evolve_step, rule spec_step.accept) auto

lemma evolve_ack:
  "(vterm (mem s i), prev, es, c) \<in> apps (hist s) \<Longrightarrow> dsk s i = mem s i \<Longrightarrow>
    agree (prev + length es) (vlog (mem s i)) (llog (hist s) (vterm (mem s i))) \<Longrightarrow>
    evolve ids i s (s\<lparr>hist := (hist s)
      \<lparr>acks := insert (i, vterm (mem s i), prev + length es) (acks (hist s))\<rparr>\<rparr>)"
  by (rule evolve_step, rule spec_step.ack) (auto simp: hist_le_def)

lemma evolve_commit:
  "leading s i \<Longrightarrow> vcommit (mem s i) \<le> k \<Longrightarrow> 0 < k \<Longrightarrow> k \<le> length (vlog (mem s i)) \<Longrightarrow>
    entry_term (vlog (mem s i) ! (k - 1)) = vterm (mem s i) \<Longrightarrow>
    quorum_acked (majority_set ids) (hist s) (vterm (mem s i)) k \<Longrightarrow>
    evolve ids i s (s\<lparr>mem := (mem s)(i := (mem s i)\<lparr>vcommit := k\<rparr>)\<rparr>)"
  by (rule evolve_step, rule spec_step.commit) auto

section \<open>Relating a running node to its views\<close>

text \<open>What a leader believes of its peers was acknowledged by them.\<close>

definition leader_rel :: "history \<Rightarrow> string \<Rightarrow> raft_node \<Rightarrow> bool" where
  "leader_rel h i n \<longleftrightarrow>
     (\<forall>p k. next_index (vstate n) p = Some k \<longrightarrow> 0 < k \<and> k \<le> Suc (length (raft_log (pstate n)))) \<and>
     (\<forall>p m. p \<noteq> i \<longrightarrow> match_index (vstate n) p = Some m \<longrightarrow> 0 < m \<longrightarrow>
        (p, current_term (pstate n), m) \<in> acks h \<and> (\<exists>m'\<ge>m. (i, current_term (pstate n), m') \<in> acks h))"

definition dirty_rel :: "raft_spec \<Rightarrow> string \<Rightarrow> raft_node \<Rightarrow> bool" where
  "dirty_rel s i n \<longleftrightarrow> mem s i = view_of (pstate n) \<and> dsk s i = file_view (disk n) \<and>
     (node_role (vstate n) = Leader \<longrightarrow> leading s i \<and> leader_rel (hist s) i n)"

definition node_rel :: "raft_spec \<Rightarrow> string \<Rightarrow> raft_node \<Rightarrow> bool" where
  "node_rel s i n \<longleftrightarrow> dirty_rel s i n \<and> (storage_error (vstate n) = None \<longrightarrow> disk n = Decoded (pstate n))"

lemma node_relD:
  assumes "node_rel s i n"
  shows "mem s i = view_of (pstate n)" "dsk s i = file_view (disk n)"
    and "node_role (vstate n) = Leader \<Longrightarrow> leading s i"
    and "node_role (vstate n) = Leader \<Longrightarrow> leader_rel (hist s) i n"
    and "storage_error (vstate n) = None \<Longrightarrow> disk n = Decoded (pstate n)"
    and "storage_error (vstate n) = None \<Longrightarrow> dsk s i = mem s i"
  using assms by (auto simp: node_rel_def dirty_rel_def)

lemma leader_rel_mono: "hist_le h h' \<Longrightarrow> leader_rel h i n \<Longrightarrow> leader_rel h' i n"
  using hist_leD(3) unfolding leader_rel_def by blast

lemma node_rel_cong:
  assumes "node_rel s i n" "pstate n' = pstate n" "disk n' = disk n"
    and "node_role (vstate n') = Leader \<Longrightarrow> node_role (vstate n) = Leader
          \<and> next_index (vstate n') = next_index (vstate n) \<and> match_index (vstate n') = match_index (vstate n)"
    and "storage_error (vstate n') = storage_error (vstate n)"
  shows "node_rel s i n'"
  using assms by (auto simp: node_rel_def dirty_rel_def leader_rel_def)

lemma node_rel_frame:
  assumes "evolve ids i s s'" "j \<noteq> i" "node_rel s j n"
  shows "node_rel s' j n"
  using assms(3) evolveD[OF assms(1)] assms(2) leader_rel_mono
  unfolding node_rel_def dirty_rel_def by metis

text \<open>A node stays a candidate only by doing nothing to its term and log.\<close>

definition stays :: "raft_node \<Rightarrow> raft_node \<Rightarrow> bool" where
  "stays n n' \<longleftrightarrow> config n' = config n \<and> (node_role (vstate n') = Candidate \<longrightarrow>
     node_role (vstate n) = Candidate \<and> current_term (pstate n') = current_term (pstate n)
     \<and> raft_log (pstate n') = raft_log (pstate n))"

lemma stays_refl [simp]: "stays n n"
  by (simp add: stays_def)

lemma stays_trans: "stays n n' \<Longrightarrow> stays n' n'' \<Longrightarrow> stays n n''"
  by (auto simp: stays_def)

section \<open>Simulation of a computation\<close>

definition sim :: "string set \<Rightarrow> string \<Rightarrow> raft_spec \<Rightarrow> raft_node \<Rightarrow> 'a raft_step
    \<Rightarrow> (raft_spec \<Rightarrow> raft_node \<Rightarrow> 'a \<Rightarrow> bool) \<Rightarrow> bool" where
  "sim ids i s n m Q \<longleftrightarrow> (\<exists>s'. evolve ids i s s' \<and> elected (hist s') = elected (hist s) \<and>
     node_rel s' i (fst m) \<and> stays n (fst m) \<and> (\<forall>x. snd m = Inr x \<longrightarrow> Q s' (fst m) x))"

lemma sim_ret: "node_rel s i n \<Longrightarrow> Q s n x \<Longrightarrow> sim ids i s n (n, Inr x) Q"
  unfolding sim_def by (intro exI[of _ s]) simp

lemma sim_err: "node_rel s i n \<Longrightarrow> sim ids i s n (n, Inl e) Q"
  unfolding sim_def by (intro exI[of _ s]) simp

lemma sim_after:
  assumes "evolve ids i s s1" "elected (hist s1) = elected (hist s)" "stays n n1" "sim ids i s1 n1 m Q"
  shows "sim ids i s n m Q"
  using assms unfolding sim_def by (metis evolve_trans stays_trans)

lemma sim_weaken: "sim ids i s n m P \<Longrightarrow> (\<And>s' n' x. P s' n' x \<Longrightarrow> Q s' n' x) \<Longrightarrow> sim ids i s n m Q"
  unfolding sim_def by blast

lemma sim_bind:
  assumes m: "sim ids i s n m P"
    and f: "\<And>s' n' x. evolve ids i s s' \<Longrightarrow> node_rel s' i n' \<Longrightarrow> stays n n' \<Longrightarrow> P s' n' x \<Longrightarrow>
              sim ids i s' n' (f n' x) Q"
  shows "sim ids i s n (bind_step m f) Q"
proof -
  obtain n' r where mr: "m = (n', r)" by (cases m)
  from m obtain s' where s': "evolve ids i s s'" "elected (hist s') = elected (hist s)" "node_rel s' i n'"
      "stays n n'" "\<And>x. r = Inr x \<Longrightarrow> P s' n' x"
    by (auto simp: sim_def mr)
  show ?thesis
  proof (cases r)
    case (Inl e)
    then show ?thesis using s' by (auto simp: sim_def mr)
  next
    case (Inr x)
    then show ?thesis using sim_after[OF s'(1,2,4) f[OF s'(1,3,4) s'(5)]] by (simp add: mr)
  qed
qed

lemma persist_locked_outcomes:
  "persist_locked env k n = (n\<lparr>disk := Decoded (pstate n)\<rparr>, Inr ()) \<or>
   persist_locked env k n =
     (upd_v (\<lambda>v. v\<lparr>storage_error := Some Storage\<rparr>) (n\<lparr>disk := Decoded (pstate n)\<rparr>), Inl Storage) \<or>
   (\<exists>e. persist_locked env k n = (upd_v (\<lambda>v. v\<lparr>storage_error := Some e\<rparr>) (n\<lparr>disk := disk n\<rparr>), Inl e))"
proof (cases "validate_persistent_state (pstate n)")
  case (Inl e)
  then show ?thesis by (intro disjI2) (simp add: persist_locked_def storage_save_def)
next
  case (Inr u)
  then show ?thesis
    by (cases "save_result env k") (simp_all only: persist_locked_def storage_save_def sum.case prod.case
        save_outcome.case, blast+)
qed

lemma sim_persist:
  assumes d: "dirty_rel s i n"
  shows "sim ids i s n (persist_locked env k n) (\<lambda>s' n' _. vstate n' = vstate n \<and> disk n' = Decoded (pstate n)
           \<and> mem s' = mem s \<and> hist s' = hist s \<and> leading s' = leading s)"
proof -
  let ?s1 = "s\<lparr>dsk := (dsk s)(i := mem s i)\<rparr>"
  consider (ok) "persist_locked env k n = (n\<lparr>disk := Decoded (pstate n)\<rparr>, Inr ())"
    | (unsynced) "persist_locked env k n =
         (upd_v (\<lambda>v. v\<lparr>storage_error := Some Storage\<rparr>) (n\<lparr>disk := Decoded (pstate n)\<rparr>), Inl Storage)"
    | (lost) e where "persist_locked env k n = (upd_v (\<lambda>v. v\<lparr>storage_error := Some e\<rparr>) (n\<lparr>disk := disk n\<rparr>), Inl e)"
    using persist_locked_outcomes[of env k n] by blast
  then show ?thesis
  proof cases
    case ok
    then show ?thesis using d evolve_sync[of ids i s] unfolding sim_def
      by (intro exI[of _ ?s1]) (auto simp: node_rel_def dirty_rel_def stays_def leader_rel_def)
  next
    case unsynced
    then show ?thesis using d evolve_sync[of ids i s] unfolding sim_def
      by (intro exI[of _ ?s1]) (auto simp: node_rel_def dirty_rel_def stays_def leader_rel_def)
  next
    case (lost e)
    then show ?thesis using d unfolding sim_def
      by (intro exI[of _ s]) (auto simp: node_rel_def dirty_rel_def stays_def leader_rel_def)
  qed
qed

lemma sim_trace:
  assumes "node_rel s i n"
  shows "sim ids i s n (trace_locked env k ev idx n) (\<lambda>s' n' _. s' = s \<and> vstate n' = vstate n \<and> disk n' = disk n)"
  using assms unfolding sim_def trace_locked_def
  by (intro exI[of _ s]) (auto simp: node_rel_def dirty_rel_def leader_rel_def stays_def)

lemma sim_trace_if:
  assumes "node_rel s i n"
  shows "sim ids i s n (trace_if b env k ev idx n) (\<lambda>s' n' _. s' = s \<and> vstate n' = vstate n \<and> disk n' = disk n)"
  using assms by (auto simp: trace_if_def intro: sim_trace sim_ret)

lemma sim_persist_if:
  assumes "dirty_rel s i n" "\<not> b \<Longrightarrow> disk n = Decoded (pstate n)"
  shows "sim ids i s n (persist_if b env k n) (\<lambda>s' n' _. vstate n' = vstate n \<and> disk n' = Decoded (pstate n)
           \<and> mem s' = mem s \<and> hist s' = hist s \<and> leading s' = leading s)"
  using sim_persist[OF assms(1)] assms by (auto simp: persist_if_def node_rel_def intro: sim_ret)

lemma sim_require_storage:
  "node_rel s i n \<Longrightarrow> sim ids i s n (require_storage n) (\<lambda>s' n' _. s' = s \<and> n' = n \<and> storage_error (vstate n) = None)"
  by (auto simp: require_storage_def split: option.splits intro: sim_ret sim_err)

lemma sim_require_cluster_identity:
  "node_rel s i n \<Longrightarrow> sim ids i s n (require_cluster_identity cid n) (\<lambda>s' n' _. s' = s \<and> n' = n)"
  by (auto simp: require_cluster_identity_def intro: sim_ret sim_err)

end
