(* ===== verification/Raft_Handlers.thy ===== *)
theory Raft_Handlers
  imports Raft_Sim
begin

text \<open>Every operation of a node, simulated.\<close>

abbreviation inv :: "string set \<Rightarrow> raft_spec \<Rightarrow> bool" where
  "inv ids s \<equiv> spec_inv (majority_set ids) s"

section \<open>Votes\<close>

text \<open>What a vote request in the network says: its sender stood with a log of that last position.\<close>

definition vote_request_ok :: "history \<Rightarrow> request_vote_request \<Rightarrow> bool" where
  "vote_request_ok h req \<longleftrightarrow> (\<exists>l. (rv_candidate_id req, rv_term req, l) \<in> cands h \<and>
     rv_last_log_index req = length l \<and> rv_last_log_term req = last_term l)"

definition vote_reply_ok :: "history \<Rightarrow> string \<Rightarrow> request_vote_request \<Rightarrow> request_vote_response \<Rightarrow> bool" where
  "vote_reply_ok h v req r \<longleftrightarrow> (rvr_vote_granted r \<longrightarrow> rvr_term r = rv_term req \<longrightarrow>
     (\<exists>l. (v, rv_term req, rv_candidate_id req, l) \<in> votes h))"

lemma last_log_position_good:
  "good_log (raft_log p) \<Longrightarrow> last_log_position p = (length (raft_log p), last_term (raft_log p))"
  by (auto simp: last_log_position_def last_term_def good_log_def indexed_log_def last_conv_nth)

lemma inv_good_log: "inv ids s \<Longrightarrow> good_log (vlog (mem s i))"
  using view_okD(1)[OF majorities.spec_invD(2)] by (auto simp: from_leaders_def)

lemma node_good_log: "inv ids s \<Longrightarrow> node_rel s i n \<Longrightarrow> good_log (raft_log (pstate n))"
  using inv_good_log node_relD(1) by (metis view_of_sel(3))

text \<open>The change of state in \<open>handle_request_vote\<close> before it is persisted.\<close>

lemma dirty_follow:
  assumes n: "node_rel s i n" and t: "current_term (pstate n) < t"
  shows "\<exists>s1. evolve ids i s s1 \<and> hist s1 = hist s \<and>
           dirty_rel s1 i (upd_v (become_follower env c t ldr) n)"
proof -
  have v: "vterm (mem s i) < t" using node_relD(1)[OF n] t by simp
  show ?thesis
    by (rule exI, rule conjI, rule evolve_observe[OF v])
      (use node_relD(1,2)[OF n] t in \<open>simp add: dirty_rel_def view_of_def\<close>)
qed

lemma dirty_vote:
  assumes n: "dirty_rel s i n" and v: "voted_for (pstate n) = None \<or> voted_for (pstate n) = Some c"
    and n': "pstate n' = (pstate n)\<lparr>voted_for := Some c\<rparr>" "disk n' = disk n"
      "node_role (vstate n') = node_role (vstate n)" "next_index (vstate n') = next_index (vstate n)"
      "match_index (vstate n') = match_index (vstate n)"
  shows "\<exists>s1. evolve ids i s s1 \<and> hist s1 = hist s \<and> dirty_rel s1 i n'"
proof -
  have v: "vvote (mem s i) = None \<or> vvote (mem s i) = Some c" using n v by (simp add: dirty_rel_def)
  show ?thesis
    by (rule exI, rule conjI, rule evolve_choose[OF v])
      (use n n' in \<open>simp add: dirty_rel_def view_of_def leader_rel_def\<close>)
qed


lemma node_rel_hist:
  assumes "node_rel s i n" "mem s' i = mem s i" "dsk s' i = dsk s i" "leading s' i = leading s i"
    and "acks (hist s) \<subseteq> acks (hist s')"
  shows "node_rel s' i n"
proof -
  have "leader_rel (hist s) i n \<Longrightarrow> leader_rel (hist s') i n"
    using assms(5) unfolding leader_rel_def by blast
  then show ?thesis using assms(1-4) by (auto simp: node_rel_def dirty_rel_def)
qed

lemma sim_grant:
  assumes i: "inv ids s" and n: "node_rel s i n" and d: "disk n = Decoded (pstate n)"
    and req: "vote_request_ok (hist s) req" and t: "current_term (pstate n) = rv_term req"
    and v: "voted_for (pstate n) = Some (rv_candidate_id req)"
    and u: "candidate_log_is_at_least_as_up_to_date (rv_last_log_index req) (rv_last_log_term req)
              (fst (last_log_position (pstate n))) (snd (last_log_position (pstate n)))"
    and m: "\<And>s'. evolve ids i s s' \<Longrightarrow> node_rel s' i n \<Longrightarrow>
              (\<exists>l. (i, rv_term req, rv_candidate_id req, l) \<in> votes (hist s')) \<Longrightarrow> sim ids i s' n m Q"
  shows "sim ids i s n m Q"
proof -
  note M = node_relD(1,2)[OF n]
  from req obtain l where l: "(rv_candidate_id req, rv_term req, l) \<in> cands (hist s)"
      "rv_last_log_index req = length l" "rv_last_log_term req = last_term l"
    by (auto simp: vote_request_ok_def)
  have up: "up_to_date l (raft_log (pstate n))"
    using u l(2,3) last_log_position_good[OF node_good_log[OF i n]]
    by (auto simp: candidate_log_is_at_least_as_up_to_date_def up_to_date_def)
  let ?s1 = "s\<lparr>hist := (hist s)\<lparr>votes := insert (i, vterm (mem s i), rv_candidate_id req, vlog (mem s i))
                (votes (hist s))\<rparr>\<rparr>"
  have e: "evolve ids i s ?s1"
    by (rule evolve_grant) (use M d t v l up in simp_all)
  have r: "node_rel ?s1 i n" by (rule node_rel_hist[OF n]) simp_all
  have "sim ids i ?s1 n m Q" by (rule m[OF e r]) (use M t in auto)
  then show ?thesis using sim_after[OF e _ stays_refl] by simp
qed

lemma sim_handle_request_vote:
  assumes inv: "inv ids s" and n: "node_rel s i n" and req: "vote_request_ok (hist s) req"
  shows "sim ids i s n (handle_request_vote env req n) (\<lambda>s' n' r. vote_reply_ok (hist s') i req r)"
  unfolding handle_request_vote_def
proof (rule sim_bind[OF sim_require_cluster_identity[OF n]], rule sim_bind[OF sim_require_storage],
    goal_cases)
  case 1 then show ?case by simp
next
  case (2 s0 n0 _ s' n' _)
  then have [simp]: "s' = s" "n' = n" and se: "storage_error (vstate n) = None" by auto
  have dk: "disk n = Decoded (pstate n)" using node_relD(5)[OF n se] .
  define newer where "newer \<longleftrightarrow> current_term (pstate n) < rv_term req"
  define n1 where "n1 = (if newer then upd_v (become_follower env (config n) (rv_term req) None) n else n)"
  define g where "g \<longleftrightarrow> (voted_for (pstate n1) = None \<or> voted_for (pstate n1) = Some (rv_candidate_id req)) \<and>
    candidate_log_is_at_least_as_up_to_date (rv_last_log_index req) (rv_last_log_term req)
     (fst (last_log_position (pstate n1))) (snd (last_log_position (pstate n1)))"
  define n2 where "n2 = (if g then upd_v (\<lambda>v. reset_election_deadline env (config n1)
       ((upd_p (\<lambda>p. p\<lparr>voted_for := Some (rv_candidate_id req)\<rparr>) v)\<lparr>votes_granted := sat_add64 (votes_granted v) 1\<rparr>)) n1
     else n1)"
  obtain s1 where s1: "evolve ids i s s1" "hist s1 = hist s" "dirty_rel s1 i n1"
    using dirty_follow[OF n, of "rv_term req" ids env "config n" None] n
    by (cases newer) (auto simp: node_rel_def n1_def newer_def intro: evolve_refl)
  have st1: "stays n n1" by (simp add: stays_def n1_def)
  obtain s2 where s2: "evolve ids i s1 s2" "hist s2 = hist s" "dirty_rel s2 i n2"
  proof (cases g)
    case True
    then show ?thesis using dirty_vote[OF s1(3), of "rv_candidate_id req" n2 ids] s1(2) that
      by (auto simp: g_def n2_def)
  next
    case False
    then show ?thesis using s1 that[of s1] by (simp add: n2_def)
  qed
  have st2: "stays n1 n2" by (simp add: stays_def n2_def)
  have "sim ids i s n (if rv_term req < current_term (pstate n1)
       then (n1, Inr \<lparr>rvr_term = current_term (pstate n1), rvr_vote_granted = False\<rparr>)
       else bind_step (persist_if (newer \<or> g) env 0 n2) (\<lambda>n3 _.
         bind_step (trace_if g env 0 ''vote_granted'' (Some (rv_last_log_index req)) n3) (\<lambda>n4 _.
           (n4, Inr \<lparr>rvr_term = current_term (pstate n4), rvr_vote_granted = g\<rparr>))))
       (\<lambda>s' n' r. vote_reply_ok (hist s') i req r)"
  proof (cases "rv_term req < current_term (pstate n1)")
    case True
    then have "n1 = n" by (auto simp: n1_def newer_def)
    then show ?thesis using n True by (auto simp: vote_reply_ok_def intro: sim_ret)
  next
    case False
    then have t1: "current_term (pstate n1) = rv_term req" by (auto simp: n1_def newer_def split: if_splits)
    have "sim ids i s2 n2 (bind_step (persist_if (newer \<or> g) env 0 n2) (\<lambda>n3 _.
         bind_step (trace_if g env 0 ''vote_granted'' (Some (rv_last_log_index req)) n3) (\<lambda>n4 _.
           (n4, Inr \<lparr>rvr_term = current_term (pstate n4), rvr_vote_granted = g\<rparr>))))
       (\<lambda>s' n' r. vote_reply_ok (hist s') i req r)"
    proof (rule sim_bind[OF sim_persist_if[OF s2(3)]], goal_cases)
      case 1 then show ?case using dk by (auto simp: n1_def n2_def)
    next
      case (2 s3 n3 _)
      have i3: "inv ids s3" using evolve_inv 2(1) s2(1) s1(1) inv by blast
      have p3: "pstate n3 = pstate n2" "disk n3 = Decoded (pstate n3)" using 2(4) by simp_all
      have r3: "vote_request_ok (hist s3) req" using 2(4) s2(2) req by simp
      show ?case
      proof (cases g)
        case g: True
        have p2: "pstate n2 = (pstate n1)\<lparr>voted_for := Some (rv_candidate_id req)\<rparr>"
          using g by (simp add: n2_def)
        show ?thesis
        proof (rule sim_grant[OF i3 2(2) p3(2) r3], goal_cases)
          case 3 then show ?case using g p2 p3 by (auto simp: g_def last_log_position_def)
        next
          case (4 s4)
          show ?case
          proof (rule sim_bind[OF sim_trace_if[OF 4(2)]], goal_cases)
            case 1 then show ?case using 4(3) by (auto intro!: sim_ret simp: vote_reply_ok_def)
          qed
        qed (use p2 p3 t1 in simp_all)
      next
        case g: False
        show ?thesis using 2(2) g by (auto simp: trace_if_def vote_reply_ok_def intro: sim_ret)
      qed
    qed
    then show ?thesis
      using sim_after[OF s1(1) _ st1 sim_after[OF s2(1) _ st2]] s1(2) s2(2) False by simp
  qed
  then show ?case
    by (simp only: Let_def case_prod_beta newer_def n1_def g_def n2_def \<open>s' = s\<close> \<open>n' = n\<close>)
qed

section \<open>Append entries\<close>

lemma merge_entries_from:
  assumes "prev + offset \<le> length lg" "prev + offset + length es < u64_max"
    and "merge_entries commit prev offset lg es = Inr (lg', changed)"
  shows "lg' = (if take (length es) (drop (prev + offset) lg) = es then lg else take (prev + offset) lg @ es)
         \<and> (\<not> changed \<longrightarrow> lg' = lg)"
  using assms
proof (induction commit prev offset lg es rule: merge_entries.induct)
  case (2 commit prev offset lg x es)
  let ?k = "prev + offset"
  have idx: "sat_add64 (sat_add64 prev (u64_of_len offset)) 1 - 1 = ?k"
    using 2(3) by (simp add: sat_add64_def u64_of_len_def)
  show ?case
  proof (cases "?k < length lg")
    case False
    then show ?thesis using 2(2,4) by (auto simp: Let_def idx[simplified])
  next
    case True
    then have dr: "drop ?k lg = lg ! ?k # drop (Suc ?k) lg" by (simp add: Cons_nth_drop_Suc)
    show ?thesis
    proof (cases "lg ! ?k = x")
      case eq: True
      have "lg' = (if take (length es) (drop (prev + Suc offset) lg) = es then lg
              else take (prev + Suc offset) lg @ es) \<and> (\<not> changed \<longrightarrow> lg' = lg)"
        using 2(1)[OF refl refl] True eq 2(3,4) by (auto simp: Let_def idx[simplified])
      moreover have "take (prev + Suc offset) lg = take ?k lg @ [x]"
        using True eq by (simp add: take_Suc_conv_app_nth)
      ultimately show ?thesis using dr eq by auto
    next
      case False
      then show ?thesis using True dr 2(4) by (auto simp: Let_def idx[simplified] split: if_splits)
    qed
  qed
qed simp

lemma merge_entries_accept:
  assumes "prev \<le> length lg" "prev + length es < u64_max"
    and "merge_entries commit prev 0 lg es = Inr (lg', changed)"
  shows "lg' = accept_entries prev es lg" "\<not> changed \<Longrightarrow> lg' = lg"
  using merge_entries_from[of prev 0 lg es commit lg' changed] assms by (auto simp: accept_entries_def)

text \<open>Entries of a leader are valid configurations, so applying them succeeds.\<close>

lemma apply_entries_ok:
  "\<forall>e\<in>set es. valid_command (entry_command e) \<Longrightarrow> \<exists>c. apply_entries cid acc es = Inr c"
proof (induction es arbitrary: acc)
  case (Cons e es)
  then have v: "valid_command (entry_command e)" by simp
  show ?case
  proof (cases "entry_command e")
    case Noop
    then show ?thesis using Cons by simp
  next
    case (SetRoutingConfiguration c w)
    then obtain u where "validate_configuration c = Inr u"
      using v by (auto simp: valid_command_def is_ok_def split: sum.splits)
    then show ?thesis using Cons SetRoutingConfiguration by simp
  qed
qed simp

lemma apply_committed_ok: "good_log (raft_log p) \<Longrightarrow> \<exists>c. apply_committed p = Inr (commit_index p, c)"
proof -
  assume "good_log (raft_log p)"
  then have "\<forall>e\<in>set (take (commit_index p) (raft_log p)). valid_command (entry_command e)"
    by (auto simp: good_log_def dest: in_set_takeD)
  then show ?thesis
    using apply_entries_ok[of _ "ps_cluster_id p" None] by (fastforce simp: apply_committed_def and_then_def)
qed

lemma apply_committed_locked_ok:
  assumes "good_log (raft_log (pstate n))"
  obtains c where "apply_committed_locked n =
    (upd_v (\<lambda>v. v\<lparr>last_applied := commit_index (pstate n), committed := c\<rparr>) n, Inr ())"
  using apply_committed_ok[OF assms] by (auto simp: apply_committed_locked_def)

text \<open>An append message in the network was sent by the leader of its term.\<close>

definition append_request_ok :: "history \<Rightarrow> append_entries_request \<Rightarrow> bool" where
  "append_request_ok h req \<longleftrightarrow>
     (ae_term req, ae_prev_log_index req, ae_entries req, ae_leader_commit req) \<in> apps h \<and>
     ae_prev_log_index req + length (ae_entries req) < u64_max \<and>
     (ae_prev_log_index req = 0 \<or>
      ae_prev_log_term req = entry_term (llog h (ae_term req) ! (ae_prev_log_index req - 1)))"

definition append_reply_ok :: "history \<Rightarrow> string \<Rightarrow> append_entries_request \<Rightarrow> append_entries_response \<Rightarrow> bool" where
  "append_reply_ok h v req r \<longleftrightarrow> (aer_success r \<longrightarrow>
     (v, ae_term req, aer_match_index r) \<in> acks h \<and>
     (\<exists>l m. elected h (ae_term req) = Some l \<and> (l, ae_term req, m) \<in> acks h \<and> aer_match_index r \<le> m))"

lemma sim_append_rejection:
  "node_rel s i n \<Longrightarrow> sim ids i s n (append_rejection n) (\<lambda>s' n' r. append_reply_ok (hist s') i req r)"
  unfolding append_rejection_def sim_def Let_def
  by (intro exI[of _ s]) (auto simp: append_reply_ok_def stays_def intro: node_rel_cong)

lemma sim_observe_leader:
  assumes n: "node_rel s i n" and se: "storage_error (vstate n) = None"
    and t: "current_term (pstate n) \<le> ae_term req"
  shows "sim ids i s n (observe_leader env req n) (\<lambda>s' n' _. hist s' = hist s \<and>
     current_term (pstate n') = ae_term req \<and> node_role (vstate n') = Follower \<and>
     storage_error (vstate n') = None \<and> raft_log (pstate n') = raft_log (pstate n))"
proof (cases "current_term (pstate n) < ae_term req")
  case True
  let ?n = "upd_v (become_follower env (config n) (ae_term req) (Some (ae_leader_id req))) n"
  obtain s1 where s1: "evolve ids i s s1" "hist s1 = hist s" "dirty_rel s1 i ?n"
    using dirty_follow[OF n True] by blast
  have st: "stays n ?n" by (simp add: stays_def)
  have "sim ids i s1 ?n (persist_locked env 0 ?n) (\<lambda>s' n' _. hist s' = hist s \<and>
     current_term (pstate n') = ae_term req \<and> node_role (vstate n') = Follower \<and> storage_error (vstate n') = None \<and> raft_log (pstate n') = raft_log (pstate n))"
    by (rule sim_weaken[OF sim_persist[OF s1(3)]]) (use s1(2) True se in simp)
  then show ?thesis using sim_after[OF s1(1) _ st] s1(2) True by (simp add: observe_leader_def)
next
  case False
  let ?n = "upd_v (\<lambda>v. reset_election_deadline env (config n)
                    (v\<lparr>node_role := Follower, leader_id := Some (ae_leader_id req)\<rparr>)) n"
  have r: "node_rel s i ?n" by (rule node_rel_cong[OF n]) simp_all
  have st: "stays n ?n" by (simp add: stays_def)
  have "sim ids i s ?n (?n, Inr ()) (\<lambda>s' n' _. hist s' = hist s \<and>
     current_term (pstate n') = ae_term req \<and> node_role (vstate n') = Follower \<and> storage_error (vstate n') = None \<and> raft_log (pstate n') = raft_log (pstate n))"
    by (rule sim_ret[OF r]) (use False t se in simp)
  then show ?thesis using sim_after[OF evolve_refl refl st] False by (simp add: observe_leader_def)
qed

lemma advance_commit_ok:
  assumes g: "good_log (raft_log (pstate n))" and f: "length (raft_log (pstate n)) \<le> u64_max"
  obtains n' b where "advance_commit lc n = (n', Inr b)" "config n' = config n" "disk n' = disk n"
    "pstate n' = (pstate n)\<lparr>commit_index := max (commit_index (pstate n)) (min lc (length (raft_log (pstate n))))\<rparr>"
    "\<not> b \<Longrightarrow> pstate n' = pstate n" "node_role (vstate n') = node_role (vstate n)"
    "storage_error (vstate n') = storage_error (vstate n)"
proof (cases "commit_index (pstate n) < min lc (length (raft_log (pstate n)))")
  case True
  let ?n1 = "upd_v (upd_p (\<lambda>p. p\<lparr>commit_index := min lc (length (raft_log (pstate n)))\<rparr>)) n"
  have "good_log (raft_log (pstate ?n1))" using g by simp
  then obtain c where "apply_committed_locked ?n1 =
      (upd_v (\<lambda>v. v\<lparr>last_applied := commit_index (pstate ?n1), committed := c\<rparr>) ?n1, Inr ())"
    using apply_committed_locked_ok by blast
  then show ?thesis using True f
    by (intro that[of "upd_v (\<lambda>v. v\<lparr>last_applied := commit_index (pstate ?n1), committed := c\<rparr>) ?n1" True])
      (simp_all add: advance_commit_def u64_simps Let_def)
next
  case False
  moreover from this have "max (commit_index (pstate n)) (min lc (length (raft_log (pstate n)))) = commit_index (pstate n)"
    by (metis max.absorb1 not_less)
  ultimately show ?thesis using f by (intro that[of n False]) (auto simp: advance_commit_def u64_simps)
qed

text \<open>Taking over the entries of a request whose previous position matches.\<close>

lemma dirty_accept:
  assumes inv: "inv ids s" and n: "node_rel s i n" and req: "append_request_ok (hist s) req"
    and t: "current_term (pstate n) = ae_term req" and ro: "node_role (vstate n) = Follower"
    and pm: "previous_matches (pstate n) (ae_prev_log_index req) (ae_prev_log_term req)"
    and mg: "merge_entries (commit_index (pstate n)) (ae_prev_log_index req) 0 (raft_log (pstate n)) (ae_entries req)
               = Inr (lg, changed)"
    and f: "fits n"
  obtains s1 n' b where "evolve ids i s s1" "hist s1 = hist s" "dirty_rel s1 i n'"
    "advance_commit (ae_leader_commit req) (upd_v (upd_p (\<lambda>p. p\<lparr>raft_log := lg\<rparr>)) n) = (n', Inr b)"
    "config n' = config n" "disk n' = disk n" "node_role (vstate n') = Follower"
    "storage_error (vstate n') = storage_error (vstate n)" "current_term (pstate n') = ae_term req"
    "\<not> (changed \<or> b) \<Longrightarrow> pstate n' = pstate n"
    "agree (ae_prev_log_index req + length (ae_entries req)) (raft_log (pstate n')) (llog (hist s) (ae_term req))"
proof -
  let ?prev = "ae_prev_log_index req" and ?es = "ae_entries req" and ?lg = "raft_log (pstate n)"
  note R = req[unfolded append_request_ok_def]
  note M = node_relD(1,2)[OF n]
  have prev: "?prev \<le> length ?lg" "?prev = 0 \<or> entry_term (?lg ! (?prev - 1)) = entry_term (llog (hist s) (ae_term req) ! (?prev - 1))"
    using pm R by (auto simp: previous_matches_def log_term_def split: if_splits)
  note G = merge_entries_accept[OF prev(1) _ mg]
  have lg: "lg = accept_entries ?prev ?es ?lg" "\<not> changed \<Longrightarrow> lg = ?lg" using G R by auto
  let ?s1 = "s\<lparr>mem := (mem s)(i := (mem s i)
        \<lparr>vlog := lg, vcommit := max (vcommit (mem s i)) (min (ae_leader_commit req) (length lg))\<rparr>),
      leading := (leading s)(i := False)\<rparr>"
  have e: "evolve ids i s ?s1"
    by (rule evolve_accept[of s i ?prev ?es]) (use R M t prev lg in auto)
  have "good_log lg" using inv_good_log[OF evolve_inv[OF e inv], of i] by simp
  moreover have "length lg \<le> u64_max" using lg(1) R f by (auto simp: accept_entries_def fits_def)
  ultimately obtain n' b where ac: "advance_commit (ae_leader_commit req) (upd_v (upd_p (\<lambda>p. p\<lparr>raft_log := lg\<rparr>)) n) = (n', Inr b)"
    "config n' = config n" "disk n' = disk n"
    "pstate n' = (pstate n)\<lparr>raft_log := lg, commit_index := max (commit_index (pstate n)) (min (ae_leader_commit req) (length lg))\<rparr>"
    "\<not> b \<Longrightarrow> pstate n' = (pstate n)\<lparr>raft_log := lg\<rparr>" "node_role (vstate n') = node_role (vstate n)"
    "storage_error (vstate n') = storage_error (vstate n)"
    using advance_commit_ok[of "upd_v (upd_p (\<lambda>p. p\<lparr>raft_log := lg\<rparr>)) n" "ae_leader_commit req"] by auto
  have d: "dirty_rel ?s1 i n'" using ac M ro by (simp add: dirty_rel_def view_of_def)
  have same: "pstate n' = pstate n" if "\<not> (changed \<or> b)"
    using that ac(5) lg(2) by simp
  have ah: "history_ok (majority_set ids) (hist s)" using majorities.spec_invD(1)[OF inv] .
  have "agree ?prev ?lg (llog (hist s) (ae_term req))"
    using majorities.accept_prev_agree[OF ah majorities.spec_invD(2)[OF inv], of i ?prev ?es] R M t prev by auto
  note A = accept_agree[OF this apps_okD(2,3)[OF majorities.history_okD(4)[OF ah]]]
  have "agree (?prev + length ?es) (raft_log (pstate n')) (llog (hist s) (ae_term req))"
    using A R lg(1) ac(4) by auto
  then show ?thesis by (intro that[OF e _ d ac(1,2,3)]) (use ac(4,6,7) ro t same in simp_all)
qed

lemma sim_ack:
  assumes inv: "inv ids s" and n: "node_rel s i n" and se: "storage_error (vstate n) = None"
    and req: "append_request_ok (hist s) req" and t: "current_term (pstate n) = ae_term req"
    and a: "agree (ae_prev_log_index req + length (ae_entries req)) (raft_log (pstate n)) (llog (hist s) (ae_term req))"
    and m: "\<And>s'. evolve ids i s s' \<Longrightarrow> node_rel s' i n \<Longrightarrow>
              append_reply_ok (hist s') i req \<lparr>aer_term = t', aer_success = True,
                aer_match_index = sat_add64 (ae_prev_log_index req) (u64_of_len (length (ae_entries req)))\<rparr> \<Longrightarrow>
              sim ids i s' n m Q"
  shows "sim ids i s n m Q"
proof -
  note M = node_relD(1,6)[OF n] and R = req[unfolded append_request_ok_def]
  let ?k = "ae_prev_log_index req + length (ae_entries req)"
  have k: "sat_add64 (ae_prev_log_index req) (u64_of_len (length (ae_entries req))) = ?k"
    using R by (simp add: sat_add64_def u64_of_len_def)
  let ?s1 = "s\<lparr>hist := (hist s)\<lparr>acks := insert (i, vterm (mem s i), ?k) (acks (hist s))\<rparr>\<rparr>"
  have e: "evolve ids i s ?s1"
    by (rule evolve_ack[of s i _ _ "ae_leader_commit req"]) (use R M se t a in auto)
  have r: "node_rel ?s1 i n" by (rule node_rel_hist[OF n]) auto
  have "\<exists>l m. elected (hist s) (ae_term req) = Some l \<and> (l, ae_term req, m) \<in> acks (hist s) \<and> ?k \<le> m"
    using apps_okD(7)[OF majorities.history_okD(4)[OF majorities.spec_invD(1)[OF inv]]] R by blast
  then have "sim ids i ?s1 n m Q" using m[OF e r] M t k by (auto simp: append_reply_ok_def)
  then show ?thesis using sim_after[OF e _ stays_refl] by simp
qed

lemma sim_handle_append_entries:
  assumes inv: "inv ids s" and n: "node_rel s i n" and req: "append_request_ok (hist s) req" and f: "fits n"
  shows "sim ids i s n (handle_append_entries env req n) (\<lambda>s' n' r. append_reply_ok (hist s') i req r)"
  unfolding handle_append_entries_def
proof (rule sim_bind[OF sim_require_cluster_identity[OF n]], rule sim_bind[OF sim_require_storage],
    goal_cases)
  case 1 then show ?case by simp
next
  case (2 s0 n0 _ s' n' _)
  then have [simp]: "s' = s" "n' = n" and se: "storage_error (vstate n) = None" by auto
  show ?case
  proof (cases "ae_term req < current_term (pstate n)")
    case True
    then show ?thesis using sim_append_rejection[OF n] by simp
  next
    case False
    then have t: "current_term (pstate n) \<le> ae_term req" by simp
    show ?thesis
      unfolding Let_def if_not_P[OF False] \<open>s' = s\<close> \<open>n' = n\<close>
    proof (rule sim_bind[OF sim_observe_leader[OF n se t]], goal_cases)
      case (1 s1 n1 _)
      have i1: "inv ids s1" using evolve_inv 1(1) inv by blast
      have f1: "fits n1" using 1(4) f by (simp add: fits_def)
      have q1: "append_request_ok (hist s1) req" using 1(4) req by simp
      have d1: "disk n1 = Decoded (pstate n1)" using node_relD(5)[OF 1(2)] 1(4) by simp
      let ?pm = "previous_matches (pstate n1) (ae_prev_log_index req) (ae_prev_log_term req)"
      consider (rejected) "\<not> ?pm"
        | (invalid) e where ?pm "validate_incoming_entries (ae_prev_log_index req) (ae_entries req) = Inl e"
        | (overwrite) u e where ?pm "validate_incoming_entries (ae_prev_log_index req) (ae_entries req) = Inr u"
            "merge_entries (commit_index (pstate n1)) (ae_prev_log_index req) 0 (raft_log (pstate n1)) (ae_entries req) = Inl e"
        | (taken) u lg ch where ?pm "validate_incoming_entries (ae_prev_log_index req) (ae_entries req) = Inr u"
            "merge_entries (commit_index (pstate n1)) (ae_prev_log_index req) 0 (raft_log (pstate n1)) (ae_entries req) = Inr (lg, ch)"
        by (metis old.prod.exhaust sum.exhaust)
      then show ?case
      proof cases
        case rejected
        then show ?thesis using sim_append_rejection[OF 1(2)] by simp
      next
        case invalid
        then show ?thesis using sim_err[OF 1(2)] by simp
      next
        case overwrite
        then show ?thesis using sim_err[OF 1(2)] by simp
      next
        case taken
        obtain s2 n3 b where A: "evolve ids i s1 s2" "hist s2 = hist s1" "dirty_rel s2 i n3"
          "advance_commit (ae_leader_commit req) (upd_v (upd_p (\<lambda>p. p\<lparr>raft_log := lg\<rparr>)) n1) = (n3, Inr b)"
          "config n3 = config n1" "disk n3 = disk n1" "node_role (vstate n3) = Follower"
          "storage_error (vstate n3) = storage_error (vstate n1)" "current_term (pstate n3) = ae_term req"
          "\<not> (ch \<or> b) \<Longrightarrow> pstate n3 = pstate n1"
          "agree (ae_prev_log_index req + length (ae_entries req)) (raft_log (pstate n3)) (llog (hist s1) (ae_term req))"
          using dirty_accept[OF i1 1(2) q1 _ _ taken(1,3) f1] 1(4) by metis
        have st3: "stays n1 n3" using A(5,7) by (simp add: stays_def)
        have D: "\<not> (ch \<or> b) \<Longrightarrow> disk n3 = Decoded (pstate n3)" using A(6,10) d1 by simp
        let ?tail = "\<lambda>n4. let repaired = (recovering_from_disk (vstate n4) \<and> ch);
                          n5 = upd_v (\<lambda>v. v\<lparr>recovering_from_disk := (recovering_from_disk v \<and> \<not> repaired),
                                 append_entries_accepted := sat_add64 (append_entries_accepted v) 1\<rparr>) n4;
                          mi = sat_add64 (ae_prev_log_index req) (u64_of_len (length (ae_entries req)))
                      in
                      bind_step (trace_if (current_term (pstate n) < current_term (pstate n5)
                                           \<or> node_role (vstate n) \<noteq> Follower) env 0 ''leader_observed''
                                   (Some mi) n5) (\<lambda>n6 _.
                      bind_step (trace_if repaired env 1 ''log_repaired'' (Some mi) n6) (\<lambda>n7 _.
                        (n7, Inr \<lparr>aer_term = current_term (pstate n7), aer_success = True,
                                  aer_match_index = mi\<rparr>)))"
        have "sim ids i s2 n3 (bind_step (persist_if (ch \<or> b) env 1 n3) (\<lambda>n4 _. ?tail n4))
                (\<lambda>s' n' r. append_reply_ok (hist s') i req r)"
        proof (rule sim_bind[OF sim_persist_if[OF A(3) D]], goal_cases)
          case (2 s4 n4 _)
          have i4: "inv ids s4" using evolve_inv 2(1) A(1) i1 by blast
          define rep where "rep \<longleftrightarrow> recovering_from_disk (vstate n4) \<and> ch"
          define n5 where "n5 = upd_v (\<lambda>v. v\<lparr>recovering_from_disk := (recovering_from_disk v \<and> \<not> rep),
                                 append_entries_accepted := sat_add64 (append_entries_accepted v) 1\<rparr>) n4"
          have r5: "node_rel s4 i n5" by (rule node_rel_cong[OF 2(2)]) (simp_all add: n5_def)
          have st5: "stays n4 n5" by (simp add: n5_def stays_def)
          have se5: "storage_error (vstate n5) = None" using 2(4) A(8) 1(4) by (simp add: n5_def)
          have p5: "pstate n5 = pstate n3" using 2(4) by (simp add: n5_def)
          show ?case
            unfolding Let_def rep_def[symmetric] n5_def[symmetric]
          proof (rule sim_after[OF evolve_refl refl st5],
              rule sim_ack[OF i4 r5 se5, of req "ae_term req"], goal_cases)
            case (4 s5)
            show ?case
            proof (rule sim_bind[OF sim_trace_if[OF 4(2)]], rule sim_bind[OF sim_trace_if], goal_cases)
              case 1 then show ?case by simp
            next
              case (2 s6 n6 _ s7 n7 _)
              then show ?case using 4(3) p5 A(9) by (intro sim_ret) (simp_all add: append_reply_ok_def)
            qed
          qed (use 2(4) A(2,9,11) q1 p5 in simp_all)
        qed
        then have "sim ids i s1 n1 (bind_step (persist_if (ch \<or> b) env 1 n3) (\<lambda>n4 _. ?tail n4))
                (\<lambda>s' n' r. append_reply_ok (hist s') i req r)"
          using sim_after[OF A(1) _ st3] A(2) by simp
        then show ?thesis using taken A(4) by (simp add: Let_def)
      qed
    qed
  qed
qed

end
