(* ===== verification/Raft_Leaders.thy ===== *)
theory Raft_Leaders
  imports Raft_Handlers
begin

text \<open>Simulation of elections, replication rounds, client writes and restarts.\<close>

section \<open>Elections\<close>

text \<open>As \<open>sim\<close>, for operations that start or end a candidacy.\<close>

definition reaches :: "string set \<Rightarrow> string \<Rightarrow> raft_spec \<Rightarrow> raft_node \<Rightarrow> 'a raft_step
    \<Rightarrow> (raft_spec \<Rightarrow> raft_node \<Rightarrow> 'a \<Rightarrow> bool) \<Rightarrow> bool" where
  "reaches ids i s n m Q \<longleftrightarrow> (\<exists>s'. evolve ids i s s' \<and> node_rel s' i (fst m) \<and>
     config (fst m) = config n \<and> (\<forall>x. snd m = Inr x \<longrightarrow> Q s' (fst m) x))"

lemma reaches_after:
  "evolve ids i s s1 \<Longrightarrow> config n1 = config n \<Longrightarrow> sim ids i s1 n1 m Q \<Longrightarrow> reaches ids i s n m Q"
  unfolding sim_def reaches_def stays_def by (metis evolve_trans)

definition campaign_ok :: "history \<Rightarrow> string \<Rightarrow> raft_node \<Rightarrow> request_vote_request \<Rightarrow> bool" where
  "campaign_ok h i n req \<longleftrightarrow> rv_candidate_id req = i \<and> elected h (rv_term req) \<noteq> Some i \<and>
     (\<exists>l. (i, rv_term req, l) \<in> cands h \<and> (i, rv_term req, i, l) \<in> votes h \<and>
        (node_role (vstate n) = Candidate \<longrightarrow> current_term (pstate n) = rv_term req \<longrightarrow> raft_log (pstate n) = l))"

lemma campaign_ok_mono:
  assumes "campaign_ok h i n req" "hist_le h h'" "stays n n'" "elected h' (rv_term req) \<noteq> Some i"
  shows "campaign_ok h' i n' req"
  using assms hist_leD(1,2)[OF assms(2)] unfolding campaign_ok_def stays_def by auto

lemma reaches_campaign_begin:
  assumes inv: "inv ids s" and n: "node_rel s i n" and id: "node_id (config n) = i"
    and b: "current_term (pstate n) < u64_max"
  shows "reaches ids i s n (campaign_begin env n)
           (\<lambda>s' n' req. vote_request_ok (hist s') req \<and> campaign_ok (hist s') i n' req)"
proof (cases "storage_error (vstate n)")
  case (Some e)
  then show ?thesis
    using reaches_after[OF evolve_refl refl sim_err[OF n]] by (simp add: campaign_begin_def require_storage_def)
next
  case None
  define n1 where "n1 = upd_v (\<lambda>v. reset_election_deadline env (config n)
                  ((upd_p (\<lambda>p. p\<lparr>current_term := sat_add64 (current_term p) 1,
                                 voted_for := Some (node_id (config n))\<rparr>) v)
                     \<lparr>node_role := Candidate, leader_id := None,
                      elections_started := sat_add64 (elections_started v) 1\<rparr>)) n"
  have t1: "sat_add64 (current_term (pstate n)) 1 = Suc (current_term (pstate n))"
    using b by (simp add: sat_add64_def)
  let ?s1 = "s\<lparr>mem := (mem s)(i := (mem s i)\<lparr>vterm := Suc (vterm (mem s i)), vvote := Some i\<rparr>),
     leading := (leading s)(i := False)\<rparr>"
  have e1: "evolve ids i s ?s1" by (rule evolve_candidacy)
  have d1: "dirty_rel ?s1 i n1"
    using node_relD(1,2)[OF n] id t1 by (simp add: n1_def dirty_rel_def view_of_def)
  have p1: "current_term (pstate n1) = Suc (current_term (pstate n))" "voted_for (pstate n1) = Some i"
      "raft_log (pstate n1) = raft_log (pstate n)" "config n1 = config n" "node_role (vstate n1) = Candidate"
    using id t1 by (simp_all add: n1_def)
  have fresh: "(i, current_term (pstate n1), l) \<notin> cands (hist s)" for l
    using view_okD(4)[OF majorities.spec_invD(2)[OF inv], of i _ l] node_relD(1)[OF n] p1(1) by fastforce
  have old: "entry_term x < current_term (pstate n1)" if "x \<in> set (raft_log (pstate n1))" for x
    using view_okD(2)[OF majorities.spec_invD(2)[OF inv], of x i] node_relD(1)[OF n] p1 that by fastforce
  have notme: "elected (hist s) (current_term (pstate n1)) \<noteq> Some i"
    using leaders_okD(1)[OF majorities.history_okD(3)[OF majorities.spec_invD(1)[OF inv]]] fresh by blast
  have "sim ids i ?s1 n1 (bind_step (persist_locked env 0 n1) (\<lambda>n2 _.
         let (last_log_index, last_log_term) = last_log_position (pstate n2)
         in
         bind_step (trace_locked env 0 ''election_started'' (Some last_log_index) n2) (\<lambda>n3 _.
           if \<not> sign_ok env then (n3, Inl Unavailable)
           else (n3, Inr \<lparr>rv_cluster_id = cluster_id (config n3), rv_term = current_term (pstate n3),
                          rv_candidate_id = node_id (config n3),
                          rv_last_log_index = last_log_index, rv_last_log_term = last_log_term\<rparr>))))
       (\<lambda>s' n' req. vote_request_ok (hist s') req \<and> campaign_ok (hist s') i n' req)"
    unfolding Let_def case_prod_beta
  proof (rule sim_bind[OF sim_persist[OF d1]], rule sim_bind[OF sim_trace], goal_cases)
    case 1 then show ?case by simp
  next
    case (2 s2 n2 _ s3 n3 _)
    have i2: "inv ids s3" using evolve_inv inv e1 2(1,5) by blast
    have q: "vstate n3 = vstate n1" "disk n3 = Decoded (pstate n1)" "config n3 = config n"
        "hist s3 = hist s" "pstate n2 = pstate n1"
      using 2 p1(4) by (simp_all add: stays_def)
    have m3: "mem s3 i = view_of (pstate n1)" "dsk s3 i = mem s3 i"
      using node_relD(1,2)[OF 2(6)] q by simp_all
    let ?s4 = "s3\<lparr>hist := (hist s3)
      \<lparr>cands := insert (i, vterm (mem s3 i), vlog (mem s3 i)) (cands (hist s3)),
       votes := insert (i, vterm (mem s3 i), i, vlog (mem s3 i)) (votes (hist s3))\<rparr>\<rparr>"
    have e4: "evolve ids i s3 ?s4"
      by (rule evolve_announce) (use m3 p1 q fresh old in auto)
    have r4: "node_rel ?s4 i n3" by (rule node_rel_hist[OF 2(6)]) simp_all
    have pos: "last_log_position (pstate n1) = (length (raft_log (pstate n1)), last_term (raft_log (pstate n1)))"
      using last_log_position_good[OF node_good_log[OF i2 2(6)]] q by simp
    have "sim ids i ?s4 n3 (n3, Inr \<lparr>rv_cluster_id = cluster_id (config n3), rv_term = current_term (pstate n3),
                          rv_candidate_id = node_id (config n3),
                          rv_last_log_index = fst (last_log_position (pstate n2)),
                          rv_last_log_term = snd (last_log_position (pstate n2))\<rparr>)
       (\<lambda>s' n' req. vote_request_ok (hist s') req \<and> campaign_ok (hist s') i n' req)"
      by (rule sim_ret[OF r4])
        (use m3 q p1 pos notme id in \<open>auto simp: vote_request_ok_def campaign_ok_def\<close>)
    then have "sim ids i s3 n3 (n3, Inr \<lparr>rv_cluster_id = cluster_id (config n3), rv_term = current_term (pstate n3),
                          rv_candidate_id = node_id (config n3),
                          rv_last_log_index = fst (last_log_position (pstate n2)),
                          rv_last_log_term = snd (last_log_position (pstate n2))\<rparr>)
       (\<lambda>s' n' req. vote_request_ok (hist s') req \<and> campaign_ok (hist s') i n' req)"
      by (rule sim_after[OF e4 _ stays_refl, rotated]) simp
    then show ?case using sim_err[OF 2(6)] by (cases "sign_ok env") auto
  qed
  then show ?thesis
    using reaches_after[OF e1 p1(4)] None
    by (simp add: campaign_begin_def require_storage_def n1_def Let_def)
qed


lemma tally_votes:
  "fst (tally t v h rs) = v + length (filter (\<lambda>r. \<exists>x. r = Some x \<and> rvr_term x = t \<and> rvr_vote_granted x) rs)"
  by (induction t v h rs rule: tally.induct) auto

text \<open>The peers whose vote was counted, together with the candidate itself.\<close>

lemma counted_quorum:
  assumes d: "distinct (map peer_id ps)" and p: "peer_id ` set ps = ids - {i}" and i: "i \<in> ids" "finite ids"
    and l: "length rs = length ps" and c: "card ids div 2 + 1 \<le> 1 + length (filter P rs)"
  obtains Q where "majority_set ids Q"
    "\<And>v. v \<in> Q \<Longrightarrow> v = i \<or> (\<exists>k<length ps. v = peer_id (ps ! k) \<and> P (rs ! k))"
proof
  let ?K = "{k. k < length rs \<and> P (rs ! k)}"
  let ?Q = "insert i ((\<lambda>k. peer_id (ps ! k)) ` ?K)"
  have inj: "inj_on (\<lambda>k. peer_id (ps ! k)) ?K"
    using d l by (auto simp: inj_on_def distinct_conv_nth)
  have sub: "(\<lambda>k. peer_id (ps ! k)) ` ?K \<subseteq> ids - {i}" using p l by (auto simp: set_conv_nth)
  then have ni: "i \<notin> (\<lambda>k. peer_id (ps ! k)) ` ?K" by blast
  have "card ?Q = Suc (length (filter P rs))"
    using card_image[OF inj] ni by (simp add: length_filter_conv_card)
  moreover have "card ids < 2 * Suc (length (filter P rs))" using c by presburger
  ultimately show "majority_set ids ?Q" using sub i by (auto simp: majority_set_def)
  show "v = i \<or> (\<exists>k<length ps. v = peer_id (ps ! k) \<and> P (rs ! k))" if "v \<in> ?Q" for v using that l by auto
qed

lemma majority_card:
  assumes "distinct (map peer_id (peers c))" "peer_id ` set (peers c) = ids - {i}" "i \<in> ids" "finite ids"
  shows "majority c = card ids div 2 + 1"
proof -
  have "length (peers c) = card (ids - {i})" using assms(1,2) distinct_card by fastforce
  then have "length (peers c) + 1 = card ids" using assms(3,4) by (metis Suc_eq_plus1 card_Suc_Diff1)
  then show ?thesis by (simp add: majority_def cluster_size_def)
qed

lemma peer_map_Some [dest]: "peer_map ps k p = Some m \<Longrightarrow> m = k"
  by (auto simp: peer_map_def dest!: map_of_SomeD)

lemma good_log_snoc:
  assumes "good_log l" "entry_index e = Suc (length l)" "0 < entry_term e" "valid_command (entry_command e)"
  shows "good_log (l @ [e])"
  using assms by (auto simp: good_log_def indexed_log_def nth_append less_Suc_eq)

lemma dirty_elect:
  assumes inv: "inv ids s" and n: "node_rel s i n" and id: "node_id (config n) = i" and f: "fits n"
    and c: "campaign_ok (hist s) i n req"
    and ro: "node_role (vstate n) = Candidate" and t: "current_term (pstate n) = rv_term req"
    and Q: "majority_set ids Q" "\<And>v. v \<in> Q \<Longrightarrow> \<exists>l. (v, rv_term req, i, l) \<in> votes (hist s)"
  shows "\<exists>s1. evolve ids i s s1 \<and> dirty_rel s1 i (become_leader env n)"
proof -
  note M = node_relD(1,2)[OF n] and H = majorities.spec_invD(1)[OF inv]
  have cl: "(i, rv_term req, raft_log (pstate n)) \<in> cands (hist s)" using c ro t by (auto simp: campaign_ok_def)
  have no: "elected (hist s) (rv_term req) = None"
    using majorities.elected_unique[OF H _ Q(1)] Q(2) c by (cases "elected (hist s) (rv_term req)") (auto simp: campaign_ok_def)
  have pos: "0 < rv_term req" using majorities.history_okD(1)[OF H] cl by (auto simp: cands_ok_def)
  let ?e = "\<lparr>entry_index = Suc (length (raft_log (pstate n))), entry_term = rv_term req, entry_command = Noop\<rparr>"
  have idx: "sat_add64 (u64_of_len (length (raft_log (pstate n)))) (Suc 0) = Suc (length (raft_log (pstate n)))"
    using f by (simp add: fits_def sat_add64_def u64_of_len_def)
  have g: "good_log (raft_log (pstate n) @ [?e])"
    using good_log_snoc[OF node_good_log[OF inv n]] pos by (simp add: valid_command_def)
  have le: "sat_add64 (Suc (length (raft_log (pstate n)))) (Suc 0) \<le> Suc (Suc (length (raft_log (pstate n))))"
      "0 < sat_add64 (Suc (length (raft_log (pstate n)))) (Suc 0)"
    using f by (simp_all add: sat_add64_def fits_def)
  show ?thesis
    by (rule exI, rule conjI, rule evolve_elect[OF _ _ Q(1), where e = ?e])
      (use cl no Q(2) M t g idx id le in \<open>auto simp: dirty_rel_def become_leader_def Let_def view_of_def leader_rel_def
        split: if_splits\<close>)
qed

lemma reaches_campaign_finish:
  assumes inv: "inv ids s" and n: "node_rel s i n" and id: "node_id (config n) = i" and f: "fits n"
    and c: "campaign_ok (hist s) i n req"
    and cfg: "distinct (map peer_id (peers (config n)))" "peer_id ` set (peers (config n)) = ids - {i}"
      "i \<in> ids" "finite ids"
    and rs: "length rs = length (peers (config n))"
      "\<And>k x. k < length rs \<Longrightarrow> rs ! k = Some x \<Longrightarrow> vote_reply_ok (hist s) (peer_id (peers (config n) ! k)) req x"
  shows "reaches ids i s n (campaign_finish env req rs n) (\<lambda>_ _ _. True)"
proof -
  obtain vs hi where th: "tally (rv_term req) 1 (rv_term req) rs = (vs, hi)" by (cases "tally (rv_term req) 1 (rv_term req) rs")
  consider (down) "current_term (pstate n) < hi"
    | (won) "\<not> current_term (pstate n) < hi" "node_role (vstate n) = Candidate" "current_term (pstate n) = rv_term req"
        "majority (config n) \<le> vs"
    | (other) "\<not> current_term (pstate n) < hi" "\<not> (node_role (vstate n) = Candidate \<and>
        current_term (pstate n) = rv_term req \<and> majority (config n) \<le> vs)"
    by blast
  then show ?thesis
  proof cases
    case down
    let ?n = "upd_v (become_follower env (config n) hi None) n"
    obtain s1 where s1: "evolve ids i s s1" "dirty_rel s1 i ?n" using dirty_follow[OF n down] by blast
    have "sim ids i s1 ?n (bind_step (persist_locked env 0 ?n) (\<lambda>n1 _.
           bind_step (trace_locked env 0 ''stepped_down'' None n1) (\<lambda>n2 _. (n2, Inr False)))) (\<lambda>_ _ _. True)"
      by (rule sim_bind[OF sim_persist[OF s1(2)]], rule sim_bind[OF sim_trace]) (simp_all add: sim_ret)
    then show ?thesis using reaches_after[OF s1(1), of ?n n] down th by (simp add: campaign_finish_def)
  next
    case won
    let ?P = "\<lambda>r. \<exists>x. r = Some x \<and> rvr_term x = rv_term req \<and> rvr_vote_granted x"
    have "card ids div 2 + 1 \<le> 1 + length (filter ?P rs)"
      using won(4) majority_card[OF cfg] tally_votes[of "rv_term req" 1 "rv_term req" rs] th by simp
    then obtain Q where Q: "majority_set ids Q"
        "\<And>v. v \<in> Q \<Longrightarrow> v = i \<or> (\<exists>k<length (peers (config n)). v = peer_id (peers (config n) ! k) \<and> ?P (rs ! k))"
      using counted_quorum[OF cfg rs(1)] by blast
    have "\<exists>l. (v, rv_term req, i, l) \<in> votes (hist s)" if "v \<in> Q" for v
      using Q(2)[OF that] rs c by (fastforce simp: vote_reply_ok_def campaign_ok_def)
    then obtain s1 where s1: "evolve ids i s s1" "dirty_rel s1 i (become_leader env n)"
      using dirty_elect[OF inv n id f c won(2,3) Q(1)] by blast
    have cf: "config (become_leader env n) = config n" by (simp add: become_leader_def Let_def)
    have "sim ids i s1 (become_leader env n) (bind_step (persist_locked env 0 (become_leader env n)) (\<lambda>n1 _.
           bind_step (trace_locked env 0 ''leader_elected''
                        (Some (sat_add64 (u64_of_len (length (raft_log (pstate n)))) 1)) n1) (\<lambda>n2 _.
             (n2, Inr True)))) (\<lambda>_ _ _. True)"
      by (rule sim_bind[OF sim_persist[OF s1(2)]], rule sim_bind[OF sim_trace]) (simp_all add: sim_ret)
    then show ?thesis using reaches_after[OF s1(1) cf] won th by (simp add: campaign_finish_def)
  next
    case other
    then have "campaign_finish env req rs n = (n, Inr False)" using th by (simp only: campaign_finish_def Let_def prod.case if_False)
    then show ?thesis by (simp add: reaches_after[OF evolve_refl refl sim_ret[OF n]])
  qed
qed

section \<open>Replication\<close>

lemma append_request_for_ok:
  assumes n: "node_rel s i n" and ro: "node_role (vstate n) = Leader" and f: "fits n"
  shows "ae_prev_log_index (append_request_for n p) \<le> length (raft_log (pstate n))"
    and "ae_entries (append_request_for n p) =
           drop (ae_prev_log_index (append_request_for n p)) (raft_log (pstate n))"
    and "ae_prev_log_index (append_request_for n p) = 0 \<or> ae_prev_log_term (append_request_for n p) =
           entry_term (raft_log (pstate n) ! (ae_prev_log_index (append_request_for n p) - 1))"
    and "ae_term (append_request_for n p) = current_term (pstate n)"
    and "ae_leader_commit (append_request_for n p) = commit_index (pstate n)"
proof -
  let ?l = "length (raft_log (pstate n))"
  define nx where "nx = (case next_index (vstate n) (peer_id p) of
                    Some k \<Rightarrow> k | None \<Rightarrow> sat_add64 (u64_of_len ?l) 1)"
  have "nx \<le> Suc ?l"
    using node_relD(4)[OF n ro] f
    by (auto simp: nx_def leader_rel_def fits_def sat_add64_def u64_of_len_def split: option.splits)
  then show "ae_prev_log_index (append_request_for n p) \<le> ?l"
    "ae_entries (append_request_for n p) = drop (ae_prev_log_index (append_request_for n p)) (raft_log (pstate n))"
    "ae_prev_log_index (append_request_for n p) = 0 \<or> ae_prev_log_term (append_request_for n p) =
           entry_term (raft_log (pstate n) ! (ae_prev_log_index (append_request_for n p) - 1))"
    by (auto simp: append_request_for_def Let_def nx_def[symmetric] log_term_def)
  show "ae_term (append_request_for n p) = current_term (pstate n)"
    "ae_leader_commit (append_request_for n p) = commit_index (pstate n)"
    by (simp_all add: append_request_for_def Let_def)
qed

lemma evolve_sends:
  assumes "leading s i" "(i, vterm (mem s i), length (vlog (mem s i))) \<in> acks (hist s)"
    and "\<forall>k\<in>set ks. k \<le> length (vlog (mem s i))"
  shows "\<exists>s'. evolve ids i s s' \<and> mem s' = mem s \<and> dsk s' = dsk s \<and> leading s' = leading s \<and>
     elected (hist s') = elected (hist s) \<and> llog (hist s') = llog (hist s) \<and> acks (hist s') = acks (hist s) \<and>
     (\<forall>k\<in>set ks. (vterm (mem s i), k, drop k (vlog (mem s i)), vcommit (mem s i)) \<in> apps (hist s'))"
  using assms
proof (induction ks)
  case Nil
  then show ?case using evolve_refl by fastforce
next
  case (Cons k ks)
  then obtain s' where s': "evolve ids i s s'" "mem s' = mem s" "dsk s' = dsk s" "leading s' = leading s"
     "elected (hist s') = elected (hist s)" "llog (hist s') = llog (hist s)" "acks (hist s') = acks (hist s)"
     "\<forall>k\<in>set ks. (vterm (mem s i), k, drop k (vlog (mem s i)), vcommit (mem s i)) \<in> apps (hist s')"
    by auto
  let ?s2 = "s'\<lparr>hist := (hist s')\<lparr>apps := insert (vterm (mem s' i), k, drop k (vlog (mem s' i)), vcommit (mem s' i))
                 (apps (hist s'))\<rparr>\<rparr>"
  have "evolve ids i s' ?s2" by (rule evolve_send) (use s' Cons.prems in auto)
  then show ?case using s' evolve_trans[OF s'(1)] by (intro exI[of _ ?s2]) simp
qed

lemma sim_replicate_begin:
  assumes inv: "inv ids s" and n: "node_rel s i n" and f: "fits n"
  shows "sim ids i s n (replicate_begin env n) (\<lambda>s' n' x. \<forall>t reqs. x = Some (t, reqs) \<longrightarrow>
     map fst reqs = map peer_id (peers (config n)) \<and>
     (\<forall>q\<in>snd ` set reqs. append_request_ok (hist s') q \<and> ae_term q = t))"
  unfolding replicate_begin_def
proof (rule sim_bind[OF sim_require_storage[OF n]], goal_cases)
  case (1 s0 n0 _)
  then have [simp]: "s0 = s" "n0 = n" and se: "storage_error (vstate n) = None" by auto
  show ?case
  proof (cases "node_role (vstate n) = Leader")
    case False
    then show ?thesis by (simp add: sim_ret[OF n])
  next
    case True
    define n1 where "n1 = upd_v (\<lambda>v. v\<lparr>heartbeat_deadline := mono_now env + heartbeat_interval (config n)\<rparr>) n"
    have r1: "node_rel s i n1" by (rule node_rel_cong[OF n]) (simp_all add: n1_def)
    have q1: "node_role (vstate n1) = Leader" "fits n1" "storage_error (vstate n1) = None" "stays n n1"
        "config n1 = config n"
      using True f se by (simp_all add: n1_def fits_def stays_def)
    note M = node_relD(1,3)[OF r1] node_relD(6)[OF r1 q1(3)]
    let ?s1 = "s\<lparr>hist := (hist s)\<lparr>acks := insert (i, vterm (mem s i), length (vlog (mem s i))) (acks (hist s))\<rparr>\<rparr>"
    have e1: "evolve ids i s ?s1" by (rule evolve_self_ack) (use M q1 in auto)
    let ?ks = "map (\<lambda>p. ae_prev_log_index (append_request_for n1 p)) (peers (config n1))"
    obtain s2 where s2: "evolve ids i ?s1 s2" "mem s2 = mem s" "dsk s2 = dsk s" "leading s2 = leading s"
      "elected (hist s2) = elected (hist s)" "llog (hist s2) = llog (hist s)" "acks (hist s2) = acks (hist ?s1)"
      "\<forall>k\<in>set ?ks. (vterm (mem s i), k, drop k (vlog (mem s i)), vcommit (mem s i)) \<in> apps (hist s2)"
      using evolve_sends[of ?s1 i ?ks ids] M q1 append_request_for_ok(1)[OF r1 q1(1,2)] by auto
    have r2: "node_rel s2 i n1" by (rule node_rel_hist[OF r1]) (use s2 in auto)
    have ll: "llog (hist s) (current_term (pstate n1)) = raft_log (pstate n1)"
      using majorities.spec_invD(5)[OF inv] M q1 by fastforce
    have ok: "append_request_ok (hist s2) (append_request_for n1 p)" if "p \<in> set (peers (config n1))" for p
      using s2(8) that append_request_for_ok[OF r1 q1(1,2), of p] M(1) s2(6) ll q1(2)
      by (auto simp: append_request_ok_def fits_def)
    have "sim ids i s2 n1 (n1, Inr (Some (current_term (pstate n1),
              map (\<lambda>p. (peer_id p, append_request_for n1 p)) (peers (config n1)))))
       (\<lambda>s' n' x. \<forall>t reqs. x = Some (t, reqs) \<longrightarrow>
     map fst reqs = map peer_id (peers (config n)) \<and>
     (\<forall>q\<in>snd ` set reqs. append_request_ok (hist s') q \<and> ae_term q = t))"
      by (rule sim_ret[OF r2]) (use ok append_request_for_ok(4)[OF r1 q1(1,2)] q1(5) in auto)
    then show ?thesis
      using sim_after[OF evolve_trans[OF e1 s2(1)] _ q1(4)] s2(5) True by (simp add: Let_def n1_def)
  qed
qed

text \<open>The replies of a round, each from a peer, to a request of term \<open>t\<close>.\<close>

definition round_replies_ok :: "history \<Rightarrow> string \<Rightarrow> nat \<Rightarrow> (string \<times> append_entries_response option) list \<Rightarrow> bool" where
  "round_replies_ok h i t rs \<longleftrightarrow> (\<forall>p x. (p, Some x) \<in> set rs \<longrightarrow>
     p \<noteq> i \<and> (\<exists>q. ae_term q = t \<and> append_reply_ok h p q x))"

lemma sim_replicate_responses:
  assumes "inv ids s" "node_rel s i n" "node_role (vstate n) = Leader" "current_term (pstate n) = t"
    and "fits n" "round_replies_ok (hist s) i t rs"
  shows "sim ids i s n (replicate_responses env rs n) (\<lambda>s' n' b. b \<longrightarrow> s' = s \<and>
     node_role (vstate n') = Leader \<and> pstate n' = pstate n)"
  using assms
proof (induction env rs n rule: replicate_responses.induct)
  case (1 env n)
  then show ?case by (simp add: sim_ret)
next
  case (2 env pid rs n)
  let ?n = "upd_v (\<lambda>v. v\<lparr>replication_failures := sat_add64 (replication_failures v) 1\<rparr>) n"
  have "node_rel s i ?n" by (rule node_rel_cong[OF 2(3)]) simp_all
  then have "sim ids i s ?n (replicate_responses env rs ?n) (\<lambda>s' n' b. b \<longrightarrow> s' = s \<and>
     node_role (vstate n') = Leader \<and> pstate n' = pstate ?n)"
    using 2 by (intro 2(1)) (simp_all add: fits_def round_replies_ok_def)
  then show ?case using sim_after[OF evolve_refl refl, of n ?n] by (simp add: stays_def)
next
  case (3 env pid r rs n)
  note L = majorities.spec_invD(4,5)[OF 3(3)] and H = majorities.spec_invD(1)[OF 3(3)]
  note M = node_relD(1,3,4)[OF 3(4)]
  have el: "elected (hist s) t = Some i" "llog (hist s) t = raft_log (pstate n)"
    using L[of i] M 3(5,6) by auto
  have rest: "round_replies_ok (hist s) i t rs" using 3(8) by (auto simp: round_replies_ok_def)
  consider (down) "current_term (pstate n) < aer_term r"
    | (ok) "\<not> current_term (pstate n) < aer_term r" "aer_success r"
    | (fail) "\<not> current_term (pstate n) < aer_term r" "\<not> aer_success r" by blast
  then show ?case
  proof cases
    case down
    let ?n = "upd_v (become_follower env (config n) (aer_term r) None) n"
    obtain s1 where s1: "evolve ids i s s1" "hist s1 = hist s" "dirty_rel s1 i ?n" using dirty_follow[OF 3(4) down] by blast
    have "sim ids i s1 ?n (bind_step (persist_locked env 0 ?n) (\<lambda>n1 _.
           bind_step (trace_locked env 0 ''stepped_down'' None n1) (\<lambda>n2 _. (n2, Inr False))))
        (\<lambda>s' n' b. b \<longrightarrow> s' = s \<and> node_role (vstate n') = Leader \<and> pstate n' = pstate n)"
      by (rule sim_bind[OF sim_persist[OF s1(3)]], rule sim_bind[OF sim_trace]) (simp_all add: sim_ret)
    then show ?thesis using sim_after[OF s1(1), of n ?n] s1(2) down by (simp add: stays_def)
  next
    case ok
    let ?n = "upd_v (\<lambda>v. v\<lparr>match_index := (match_index v)(pid \<mapsto> aer_match_index r),
                        next_index := (next_index v)(pid \<mapsto> sat_add64 (aer_match_index r) 1),
                        replication_successes := sat_add64 (replication_successes v) 1\<rparr>) n"
    obtain q where q: "pid \<noteq> i" "ae_term q = t" "append_reply_ok (hist s) pid q r"
      using 3(8) by (auto simp: round_replies_ok_def)
    have a: "(pid, t, aer_match_index r) \<in> acks (hist s)" "\<exists>m'\<ge>aer_match_index r. (i, t, m') \<in> acks (hist s)"
      using q ok(2) el(1) by (auto simp: append_reply_ok_def)
    have len: "aer_match_index r \<le> length (raft_log (pstate n))"
      using majorities.history_okD(5)[OF H] a(1) el(2) by (fastforce simp: acks_ok_def)
    have "leader_rel (hist s) i ?n"
      using M(3) 3(5,6,7) a len by (auto simp: leader_rel_def sat_add64_def fits_def)
    then have "node_rel s i ?n"
      using 3(4) by (simp add: node_rel_def dirty_rel_def)
    then have "sim ids i s ?n (replicate_responses env rs ?n) (\<lambda>s' n' b. b \<longrightarrow> s' = s \<and>
       node_role (vstate n') = Leader \<and> pstate n' = pstate ?n)"
      using 3 ok rest by (intro 3(1)) (simp_all add: fits_def)
    then show ?thesis using sim_after[OF evolve_refl refl, of n ?n] ok by (simp add: stays_def)
  next
    case fail
    let ?n = "upd_v (\<lambda>v. let next = (case next_index v pid of Some i \<Rightarrow> i | None \<Rightarrow> 1)
                      in v\<lparr>next_index := (next_index v)(pid \<mapsto> max (next - 1) 1),
                           replication_failures := sat_add64 (replication_failures v) 1\<rparr>) n"
    have "leader_rel (hist s) i ?n"
      using M(3) 3(5) by (fastforce simp: leader_rel_def Let_def split: option.splits)
    then have "node_rel s i ?n"
      using 3(4) by (simp add: node_rel_def dirty_rel_def Let_def)
    then have "sim ids i s ?n (replicate_responses env rs ?n) (\<lambda>s' n' b. b \<longrightarrow> s' = s \<and>
       node_role (vstate n') = Leader \<and> pstate n' = pstate ?n)"
      using 3 fail rest by (intro 3(2)) (simp_all add: fits_def Let_def)
    then show ?thesis using sim_after[OF evolve_refl refl, of n ?n] fail by (simp add: stays_def Let_def)
  qed
qed


lemma highest_committable_SomeD:
  assumes "highest_committable_index p t ms maj = Some k" "length (raft_log p) < u64_max" 
  shows "commit_index p < k \<or> commit_index p \<ge> u64_max" "k \<le> length (raft_log p)" "log_term p k = Some t"
    and "maj \<le> length (filter (\<lambda>m. k \<le> m) ms)"
proof -
  let ?xs = "rev [sat_add64 (commit_index p) 1 ..< Suc (u64_of_len (length (raft_log p)))]"
  from assms(1) have "k \<in> set ?xs" "log_term p k = Some t \<and> maj \<le> length (filter (\<lambda>m. k \<le> m) ms)"
    unfolding highest_committable_index_def by (metis (mono_tags, lifting) find_Some_iff nth_mem)+
  then show "commit_index p < k \<or> commit_index p \<ge> u64_max" "k \<le> length (raft_log p)" "log_term p k = Some t"
    "maj \<le> length (filter (\<lambda>m. k \<le> m) ms)"
    using assms(2) by (auto simp: sat_add64_def u64_of_len_def split: if_splits)
qed

lemma commit_quorum:
  assumes n: "node_rel s i n" and ro: "node_role (vstate n) = Leader"
    and cfg: "distinct (map peer_id (peers (config n)))" "peer_id ` set (peers (config n)) = ids - {i}"
      "i \<in> ids" "finite ids" and two: "2 \<le> majority (config n)"
    and k: "0 < k" "majority (config n) \<le> length (filter (\<lambda>m. k \<le> m) (match_indexes n))"
  shows "quorum_acked (majority_set ids) (hist s) (current_term (pstate n)) k"
proof -
  let ?m = "\<lambda>p. case match_index (vstate n) (peer_id p) of Some i \<Rightarrow> i | None \<Rightarrow> 0"
  let ?rs = "map ?m (peers (config n))" and ?t = "current_term (pstate n)"
  have le: "majority (config n) \<le> 1 + length (filter (\<lambda>m. k \<le> m) ?rs)"
    using k(2) by (simp add: match_indexes_def split: if_splits)
  then obtain Q where Q: "majority_set ids Q" "\<And>v. v \<in> Q \<Longrightarrow> v = i \<or>
      (\<exists>j<length (peers (config n)). v = peer_id (peers (config n) ! j) \<and> k \<le> ?rs ! j)"
    using counted_quorum[OF cfg, of ?rs "\<lambda>m. k \<le> m"] majority_card[OF cfg] by auto
  have peer: "(peer_id p, ?t, ?m p) \<in> acks (hist s) \<and> (\<exists>m'\<ge>?m p. (i, ?t, m') \<in> acks (hist s))"
    if "p \<in> set (peers (config n))" "k \<le> ?m p" for p
  proof -
    have "peer_id p \<noteq> i" using that(1) cfg(2) by blast
    then show ?thesis using node_relD(4)[OF n ro] that(2) k(1)
      by (auto simp: leader_rel_def split: option.splits)
  qed
  have "0 < length (filter (\<lambda>m. k \<le> m) ?rs)" using le two by linarith
  then have "filter (\<lambda>m. k \<le> m) ?rs \<noteq> []" by (rule length_greater_0_conv[THEN iffD1])
  then obtain p where p: "p \<in> set (peers (config n))" "k \<le> ?m p" by (auto simp: filter_empty_conv)
  have "\<exists>m\<ge>k. (v, ?t, m) \<in> acks (hist s)" if "v \<in> Q" for v
    using Q(2)[OF that] peer[OF p] p(2) peer by (auto dest: le_trans)
  then show ?thesis using Q(1) by (auto simp: quorum_acked_def)
qed

lemma sim_commit_round:
  assumes inv: "inv ids s" and n: "node_rel s i n" and ro: "node_role (vstate n) = Leader" and f: "fits n"
    and cfg: "distinct (map peer_id (peers (config n)))" "peer_id ` set (peers (config n)) = ids - {i}"
      "i \<in> ids" "finite ids" and two: "2 \<le> majority (config n)"
  shows "sim ids i s n (commit_round env n) (\<lambda>_ _ _. True)"
proof (cases "highest_committable_index (pstate n) (current_term (pstate n)) (match_indexes n) (majority (config n))")
  case None
  then show ?thesis by (simp add: commit_round_def sim_ret[OF n])
next
  case (Some k)
  show ?thesis
  proof (cases "commit_index (pstate n) < k")
    case False
    then show ?thesis using Some by (simp add: commit_round_def sim_ret[OF n])
  next
    case True
    note K = highest_committable_SomeD[OF Some] and M = node_relD(1,2,3,4)[OF n]
    have q: "quorum_acked (majority_set ids) (hist s) (current_term (pstate n)) k"
      by (rule commit_quorum[OF n ro cfg two]) (use K(4) True f in \<open>auto simp: fits_def\<close>)
    have lt: "k \<le> length (raft_log (pstate n))" "entry_term (raft_log (pstate n) ! (k - 1)) = current_term (pstate n)"
      using K(2,3) True f by (auto simp: fits_def log_term_def split: if_splits)
    let ?s1 = "s\<lparr>mem := (mem s)(i := (mem s i)\<lparr>vcommit := k\<rparr>)\<rparr>"
    have e: "evolve ids i s ?s1" by (rule evolve_commit) (use M ro True lt q in auto)
    let ?n = "upd_v (upd_p (\<lambda>p. p\<lparr>commit_index := k\<rparr>)) n"
    have "good_log (raft_log (pstate ?n))" using node_good_log[OF inv n] by simp
    then obtain c where c: "apply_committed_locked ?n =
        (upd_v (\<lambda>v. v\<lparr>last_applied := commit_index (pstate ?n), committed := c\<rparr>) ?n, Inr ())" (is "_ = (?n1, _)")
      using apply_committed_locked_ok by blast
    have d: "dirty_rel ?s1 i ?n1" using M ro by (simp add: dirty_rel_def view_of_def leader_rel_def)
    have st: "stays n ?n1" using ro by (simp add: stays_def)
    have "sim ids i ?s1 ?n1 (bind_step (persist_locked env 1 ?n1)
            (\<lambda>n2 _. trace_locked env 1 ''entry_committed'' (Some k) n2)) (\<lambda>_ _ _. True)"
      by (rule sim_bind[OF sim_persist[OF d]], rule sim_weaken[OF sim_trace]) simp_all
    then have "sim ids i s n (bind_step (persist_locked env 1 ?n1)
            (\<lambda>n2 _. trace_locked env 1 ''entry_committed'' (Some k) n2)) (\<lambda>_ _ _. True)"
      by (rule sim_after[OF e _ st, rotated]) simp
    then show ?thesis using Some True c by (simp add: commit_round_def)
  qed
qed

lemma sim_replicate_finish:
  assumes inv: "inv ids s" and n: "node_rel s i n" and f: "fits n"
    and cfg: "distinct (map peer_id (peers (config n)))" "peer_id ` set (peers (config n)) = ids - {i}"
      "i \<in> ids" "finite ids" and two: "2 \<le> majority (config n)"
    and rs: "round_replies_ok (hist s) i t rs"
  shows "sim ids i s n (replicate_finish env t rs n) (\<lambda>_ _ _. True)"
proof (cases "node_role (vstate n) = Leader \<and> current_term (pstate n) = t")
  case False
  then show ?thesis by (auto simp: replicate_finish_def sim_ret[OF n])
next
  case True
  then have ro: "node_role (vstate n) = Leader" "current_term (pstate n) = t" by auto
  have "sim ids i s n (bind_step (replicate_responses env rs n)
          (\<lambda>n1 continue. if continue then commit_round env n1 else (n1, Inr ()))) (\<lambda>_ _ _. True)"
  proof (rule sim_bind[OF sim_replicate_responses[OF inv n ro f rs]], goal_cases)
    case (1 s1 n1 b)
    show ?case
    proof (cases b)
      case True
      then have "config n1 = config n" "fits n1" "s1 = s" "node_role (vstate n1) = Leader"
        using 1 f by (auto simp: stays_def fits_def)
      then show ?thesis using sim_commit_round[of ids s i n1] inv 1(2) cfg two True by simp
    qed (simp add: sim_ret[OF 1(2)])
  qed
  then show ?thesis using True by (simp add: replicate_finish_def)
qed

section \<open>Writes and restarts\<close>

lemma sim_write_begin:
  assumes inv: "inv ids s" and n: "node_rel s i n" and f: "fits n" and id: "node_id (config n) = i"
  shows "sim ids i s n (write_begin env c expected w n) (\<lambda>_ _ _. True)"
proof (cases "validate_configuration c")
  case (Inl e)
  then show ?thesis by (simp add: write_begin_def sim_err[OF n])
next
  case (Inr u)
  define idx where "idx = sat_add64 (u64_of_len (length (raft_log (pstate n)))) 1"
  define t where "t = current_term (pstate n)"
  let ?e = "\<lparr>entry_index = idx, entry_term = t, entry_command = SetRoutingConfiguration c w\<rparr>"
  define n1 where "n1 = upd_v (\<lambda>v. (upd_p (\<lambda>p. p\<lparr>raft_log := raft_log p @ [?e]\<rparr>) v)
                      \<lparr>match_index := (match_index v)(node_id (config n) \<mapsto> idx)\<rparr>) n"
  have ix: "idx = Suc (length (raft_log (pstate n)))"
    using f by (simp add: idx_def fits_def sat_add64_def u64_of_len_def)
  have go: "sim ids i s n (bind_step (persist_locked env 0 n1) (\<lambda>n2 _.
            bind_step (trace_locked env 0 ''entry_appended'' (Some idx) n2) (\<lambda>n3 _. (n3, Inr (idx, t)))))
          (\<lambda>_ _ _. True)" if ro: "node_role (vstate n) = Leader"
  proof -
    note M = node_relD(1,2,3,4)[OF n]
    have "elected (hist s) t \<noteq> None" using majorities.spec_invD(4)[OF inv, of i] M ro by (simp add: t_def)
    then have pos: "0 < t"
      using leaders_okD(1)[OF majorities.history_okD(3)[OF majorities.spec_invD(1)[OF inv]]]
        majorities.history_okD(1)[OF majorities.spec_invD(1)[OF inv]] by (fastforce simp: cands_ok_def)
    have g: "good_log (raft_log (pstate n) @ [?e])"
      using good_log_snoc[OF node_good_log[OF inv n]] pos ix Inr by (simp add: valid_command_def is_ok_def)
    let ?s1 = "s\<lparr>mem := (mem s)(i := (mem s i)\<lparr>vlog := vlog (mem s i) @ [?e]\<rparr>),
      hist := (hist s)\<lparr>llog := (llog (hist s))(vterm (mem s i) := vlog (mem s i) @ [?e])\<rparr>\<rparr>"
    have e: "evolve ids i s ?s1" by (rule evolve_propose[OF inv]) (use M ro g in \<open>auto simp: t_def\<close>)
    have d: "dirty_rel ?s1 i n1"
      using M ro id by (auto simp: dirty_rel_def view_of_def leader_rel_def n1_def le_SucI)
    have st: "stays n n1" using ro by (simp add: stays_def n1_def)
    have "sim ids i ?s1 n1 (bind_step (persist_locked env 0 n1) (\<lambda>n2 _.
            bind_step (trace_locked env 0 ''entry_appended'' (Some idx) n2) (\<lambda>n3 _. (n3, Inr (idx, t)))))
          (\<lambda>_ _ _. True)"
      by (rule sim_bind[OF sim_persist[OF d]], rule sim_bind[OF sim_trace]) (simp_all add: sim_ret)
    then show ?thesis by (rule sim_after[OF e _ st, rotated]) simp
  qed
  have "sim ids i s n (bind_step (require_storage n) (\<lambda>n _.
          if node_role (vstate n) \<noteq> Leader then (n, Inl (NotLeader (leader_id (vstate n))))
          else if expected \<noteq> None \<and> expected \<noteq> Some (current_revision n) then (n, Inl Conflict)
          else
            let index = sat_add64 (u64_of_len (length (raft_log (pstate n)))) 1;
                t = current_term (pstate n);
                n1 = upd_v (\<lambda>v. (upd_p (\<lambda>p. p\<lparr>raft_log := raft_log p @
                        [\<lparr>entry_index = index, entry_term = t,
                          entry_command = SetRoutingConfiguration c w\<rparr>]\<rparr>) v)
                      \<lparr>match_index := (match_index v)(node_id (config n) \<mapsto> index)\<rparr>) n
            in
            bind_step (persist_locked env 0 n1) (\<lambda>n2 _.
            bind_step (trace_locked env 0 ''entry_appended'' (Some index) n2) (\<lambda>n3 _.
              (n3, Inr (index, t)))))) (\<lambda>_ _ _. True)"
  proof (rule sim_bind[OF sim_require_storage[OF n]], goal_cases)
    case (1 s0 n0 _)
    then have [simp]: "s0 = s" "n0 = n" by auto
    consider "node_role (vstate n) \<noteq> Leader" | "expected \<noteq> None \<and> expected \<noteq> Some (current_revision n)"
      | "node_role (vstate n) = Leader" "\<not> (expected \<noteq> None \<and> expected \<noteq> Some (current_revision n))" by blast
    then show ?case
    proof cases
      case 3
      show ?thesis
        using go[OF 3(1)] 3 by (simp only: \<open>s0 = s\<close> \<open>n0 = n\<close> Let_def n1_def idx_def t_def simp_thms if_False)
    qed (auto simp: sim_err[OF n])
  qed
  then show ?thesis using Inr by (simp only: write_begin_def sum.case)
qed

lemma open_node_disk:
  assumes "open_node env c j f = (f', r)"
  shows "file_view f' = file_view f"
    and "\<And>n. r = Inr n \<Longrightarrow> config n = c \<and> disk n = f' \<and> f' = Decoded (pstate n) \<and>
           node_role (vstate n) = Follower \<and> storage_error (vstate n) = None"
proof -
  have A: "file_view f' = file_view f \<and> (\<forall>p. r = Inr p \<longrightarrow> f' = Decoded p)"
    if "adopt_cluster_id env c f = (f', r)" for f' r
    using that by (auto simp: adopt_cluster_id_def storage_load_def storage_save_def Let_def file_view_def
        view_of_def init_view_def default_persistent_state_def
        split: sum.splits state_file.splits if_splits save_outcome.splits prod.splits)
  obtain g r' where ad: "adopt_cluster_id env c f = (g, r')" by (cases "adopt_cluster_id env c f")
  note A[OF ad]
  then show "file_view f' = file_view f"
    using assms ad by (auto simp: open_node_def trace_locked_def Let_def split: sum.splits prod.splits if_splits)
  show "config n = c \<and> disk n = f' \<and> f' = Decoded (pstate n) \<and>
           node_role (vstate n) = Follower \<and> storage_error (vstate n) = None" if "r = Inr n" for n
    using assms ad A[OF ad] that
    by (auto simp: open_node_def trace_locked_def Let_def initial_volatile_def split: sum.splits prod.splits if_splits)
qed

end
