(* ===== verification/Raft_Refinement.thy ===== *)
theory Raft_Refinement
  imports Raft_Leaders
begin

text \<open>
  Every reachable cluster is related to a reachable state of the protocol; its safety theorems
  then hold of the code's nodes.
\<close>

section \<open>The simulation relation\<close>

definition net_ok :: "history \<Rightarrow> cluster \<Rightarrow> bool" where
  "net_ok h c \<longleftrightarrow> (\<forall>req\<in>set (vote_requests c). vote_request_ok h req) \<and>
     (\<forall>(v, req, r)\<in>set (vote_replies c). vote_reply_ok h v req r) \<and>
     (\<forall>(d, req)\<in>set (append_requests c). append_request_ok h req) \<and>
     (\<forall>(v, req, r)\<in>set (append_replies c). append_reply_ok h v req r)"

definition round_ok :: "node_config \<Rightarrow> nat \<times> (string \<times> append_entries_request) list \<Rightarrow> bool" where
  "round_ok c r \<longleftrightarrow> map fst (snd r) = map peer_id (peers c) \<and> (\<forall>q\<in>snd ` set (snd r). ae_term q = fst r)"

definition slot_ok :: "string set \<Rightarrow> (string \<Rightarrow> node_config) \<Rightarrow> raft_spec \<Rightarrow> cluster \<Rightarrow> string \<Rightarrow> bool" where
  "slot_ok ids cfg s c i \<longleftrightarrow> config (nodes c i) = cfg i \<and>
     (if up c i then i \<in> ids \<and> node_rel s i (nodes c i) \<and> fits (nodes c i)
      else mem s i = dsk s i \<and> dsk s i = file_view (disk (nodes c i)) \<and> campaigns c i = None \<and> rounds c i = None) \<and>
     (\<forall>req. campaigns c i = Some req \<longrightarrow> campaign_ok (hist s) i (nodes c i) req) \<and>
     (\<forall>r. rounds c i = Some r \<longrightarrow> round_ok (cfg i) r)"

definition cluster_rel :: "string set \<Rightarrow> (string \<Rightarrow> node_config) \<Rightarrow> cluster \<Rightarrow> raft_spec \<Rightarrow> bool" where
  "cluster_rel ids cfg c s \<longleftrightarrow> inv ids s \<and> net_ok (hist s) c \<and> (\<forall>i. slot_ok ids cfg s c i)"

lemma append_request_ok_mono:
  assumes "inv ids s" "evolve ids i s s'" "append_request_ok (hist s) req"
  shows "append_request_ok (hist s') req"
proof -
  note R = assms(3)[unfolded append_request_ok_def]
  note A = apps_okD(1,2)[OF majorities.history_okD(4)[OF majorities.spec_invD(1)[OF assms(1)]]]
  have "ae_prev_log_index req \<le> length (llog (hist s) (ae_term req))" using A R by fastforce
  moreover have "prefix (llog (hist s) (ae_term req)) (llog (hist s') (ae_term req))"
    using hist_leD(6)[OF evolveD(2)[OF assms(2)]] A(1) R by blast
  ultimately have "ae_prev_log_index req \<noteq> 0 \<Longrightarrow> llog (hist s') (ae_term req) ! (ae_prev_log_index req - 1)
      = llog (hist s) (ae_term req) ! (ae_prev_log_index req - 1)"
    by (intro prefix_nth) auto
  then show ?thesis using R evolveD(3)[OF assms(2)]
    by (cases "ae_prev_log_index req = 0") (auto simp: append_request_ok_def)
qed

lemma append_reply_ok_mono:
  assumes "hist_le h h'" "append_reply_ok h v req r" shows "append_reply_ok h' v req r"
proof -
  have "elected h' (ae_term req) = Some l" if "elected h (ae_term req) = Some l" for l
    using hist_leD(4)[OF assms(1)] that by fastforce
  then show ?thesis using assms(2) hist_leD(3)[OF assms(1)] unfolding append_reply_ok_def by blast
qed

lemma net_ok_mono:
  assumes "inv ids s" "evolve ids i s s'" "net_ok (hist s) c"
  shows "net_ok (hist s') c"
proof -
  note le = evolveD(2)[OF assms(2)]
  have "vote_request_ok (hist s') req" if "vote_request_ok (hist s) req" for req
    using that hist_leD(1)[OF le] unfolding vote_request_ok_def by blast
  moreover have "vote_reply_ok (hist s') v req r" if "vote_reply_ok (hist s) v req r" for v req r
    using that hist_leD(2)[OF le] unfolding vote_reply_ok_def by blast
  ultimately show ?thesis
    using assms(3) append_request_ok_mono[OF assms(1,2)] append_reply_ok_mono[OF le]
    unfolding net_ok_def by fast
qed

lemma slot_ok_frame:
  assumes e: "evolve ids i s s'" and j: "j \<noteq> i" and s: "slot_ok ids cfg s c j"
    and c: "nodes c' j = nodes c j" "up c' j = up c j" "campaigns c' j = campaigns c j" "rounds c' j = rounds c j"
  shows "slot_ok ids cfg s' c' j"
proof -
  have "campaign_ok (hist s') j (nodes c j) req" if "campaign_ok (hist s) j (nodes c j) req" for req
    using campaign_ok_mono[OF that evolveD(2)[OF e] stays_refl] evolveD(7)[OF e, of "rv_term req"] that j
    by (auto simp: campaign_ok_def)
  then show ?thesis
    using s c node_rel_frame[OF e j] evolveD(4,5)[OF e j] unfolding slot_ok_def by (auto split: if_splits)
qed

text \<open>An event that changes one running node.\<close>

lemma cluster_rel_node:
  assumes r: "cluster_rel ids cfg c s" and e: "evolve ids i s s'" and i: "i \<in> ids"
    and n: "node_rel s' i n" "config n = cfg i" "fits n"
    and c': "nodes c' = (nodes c)(i := n)" "up c' = (up c)(i := True)"
      "\<And>j. j \<noteq> i \<Longrightarrow> campaigns c' j = campaigns c j" "\<And>j. j \<noteq> i \<Longrightarrow> rounds c' j = rounds c j"
    and own: "\<And>req. campaigns c' i = Some req \<Longrightarrow> campaign_ok (hist s') i n req"
      "\<And>x. rounds c' i = Some x \<Longrightarrow> round_ok (cfg i) x"
    and net: "net_ok (hist s') c \<Longrightarrow> net_ok (hist s') c'"
  shows "cluster_rel ids cfg c' s'"
proof -
  have inv: "inv ids s" and nt: "net_ok (hist s) c" and sl: "\<And>j. slot_ok ids cfg s c j"
    using r by (auto simp: cluster_rel_def)
  have "slot_ok ids cfg s' c' j" for j
  proof (cases "j = i")
    case True
    then show ?thesis using n c' own i by (auto simp: slot_ok_def)
  next
    case False
    then show ?thesis by (intro slot_ok_frame[OF e False sl]) (use c' in simp_all)
  qed
  then show ?thesis using evolve_inv[OF e inv] net[OF net_ok_mono[OF inv e nt]] by (simp add: cluster_rel_def)
qed

lemma cluster_rel_sim:
  assumes r: "cluster_rel ids cfg c s" and i: "i \<in> ids" "up c i"
    and m: "sim ids i s (nodes c i) (n, x) Q" and f: "fits n"
    and c': "nodes c' = (nodes c)(i := n)" "up c' = up c" "campaigns c' = campaigns c"
      "\<And>j. j \<noteq> i \<Longrightarrow> rounds c' j = rounds c j"
    and own: "\<And>s' y. x = Inr y \<Longrightarrow> Q s' n y \<Longrightarrow> rounds c' i \<noteq> rounds c i \<Longrightarrow> rounds c' i \<noteq> None \<Longrightarrow>
        round_ok (cfg i) (the (rounds c' i))" "\<And>e. x = Inl e \<Longrightarrow> rounds c' i = rounds c i \<or> rounds c' i = None"
    and net: "\<And>s' y. x = Inr y \<Longrightarrow> Q s' n y \<Longrightarrow> net_ok (hist s') c \<Longrightarrow> net_ok (hist s') c'"
      "\<And>(s' :: raft_spec) e. x = Inl e \<Longrightarrow> net_ok (hist s') c \<Longrightarrow> net_ok (hist s') c'"
  shows "\<exists>s'. evolve ids i s s' \<and> cluster_rel ids cfg c' s'"
proof -
  from m obtain s' where s': "evolve ids i s s'" "elected (hist s') = elected (hist s)" "node_rel s' i n"
      "stays (nodes c i) n" "\<And>y. x = Inr y \<Longrightarrow> Q s' n y"
    by (auto simp: sim_def)
  have sl: "slot_ok ids cfg s c i" using r by (simp add: cluster_rel_def)
  have "cluster_rel ids cfg c' s'"
  proof (rule cluster_rel_node[OF r s'(1) i(1) s'(3) _ f c'(1)])
    show "config n = cfg i" using s'(4) sl by (simp add: stays_def slot_ok_def)
    show "up c' = (up c)(i := True)" using c'(2) i(2) by (simp add: fun_upd_idem)
    show "campaign_ok (hist s') i n req" if "campaigns c' i = Some req" for req
    proof -
      have o: "campaign_ok (hist s) i (nodes c i) req" using that c'(3) sl by (simp add: slot_ok_def)
      then show ?thesis using campaign_ok_mono[OF o evolveD(2)[OF s'(1)] s'(4)] s'(2) by (simp add: campaign_ok_def)
    qed
    show "round_ok (cfg i) z" if z: "rounds c' i = Some z" for z
    proof (cases "rounds c' i = rounds c i")
      case True
      then show ?thesis using z sl by (cases z) (auto simp: slot_ok_def)
    next
      case False
      then obtain y where "x = Inr y" using own(2) z by (cases x) auto
      then show ?thesis using own(1)[OF _ s'(5) False] z by simp
    qed
    show "net_ok (hist s') c'" if "net_ok (hist s') c"
      using that net(1)[OF _ s'(5)] net(2) by (cases x) blast+
  qed (use c' in auto)
  then show ?thesis using s'(1) by blast
qed


section \<open>Every event is simulated\<close>

lemma cluster_relD:
  assumes "cluster_rel ids cfg c s"
  shows "inv ids s" "net_ok (hist s) c" "config (nodes c i) = cfg i"
    and "up c i \<Longrightarrow> i \<in> ids" "up c i \<Longrightarrow> node_rel s i (nodes c i)" "up c i \<Longrightarrow> fits (nodes c i)"
    and "\<not> up c i \<Longrightarrow> mem s i = dsk s i" "\<not> up c i \<Longrightarrow> dsk s i = file_view (disk (nodes c i))"
    and "\<not> up c i \<Longrightarrow> campaigns c i = None" "\<not> up c i \<Longrightarrow> rounds c i = None"
    and "campaigns c i = Some req \<Longrightarrow> campaign_ok (hist s) i (nodes c i) req"
    and "rounds c i = Some r \<Longrightarrow> round_ok (cfg i) r"
proof -
  have "slot_ok ids cfg s c i" using assms by (simp add: cluster_rel_def)
  then show "config (nodes c i) = cfg i" "up c i \<Longrightarrow> i \<in> ids" "up c i \<Longrightarrow> node_rel s i (nodes c i)" "up c i \<Longrightarrow> fits (nodes c i)"
    "\<not> up c i \<Longrightarrow> mem s i = dsk s i" "\<not> up c i \<Longrightarrow> dsk s i = file_view (disk (nodes c i))"
    "\<not> up c i \<Longrightarrow> campaigns c i = None" "\<not> up c i \<Longrightarrow> rounds c i = None"
    "campaigns c i = Some req \<Longrightarrow> campaign_ok (hist s) i (nodes c i) req"
    "rounds c i = Some r \<Longrightarrow> round_ok (cfg i) r"
    by (auto simp: slot_ok_def)
qed (use assms in \<open>auto simp: cluster_rel_def\<close>)

lemma sim_start:
  assumes r: "cluster_rel ids cfg c s" and i: "i \<in> ids" and x: "cluster_exec (Start i env) c = Some c'"
  shows "\<exists>s'. evolve ids i s s' \<and> cluster_rel ids cfg c' s'"
proof -
  note R = cluster_relD[OF r]
  obtain f res where o: "open_node env (config (nodes c i)) (journal (nodes c i)) (disk (nodes c i)) = (f, res)"
    by (cases "open_node env (config (nodes c i)) (journal (nodes c i)) (disk (nodes c i))")
  note O = open_node_disk[OF o]
  have d: "\<not> up c i" using x o by (auto split: sum.splits)
  note M = R(7,8,9,10)[OF d]
  show ?thesis
  proof (cases res)
    case (Inl e)
    then have c': "c' = set_node i ((nodes c i)\<lparr>disk := f\<rparr>) c" using x o by auto
    have "slot_ok ids cfg s c' j" for j
    proof (cases "j = i")
      case True
      then show ?thesis using c' d M O(1) R(3) by (simp add: slot_ok_def set_node_def)
    next
      case False
      have "slot_ok ids cfg s c j" using r by (simp add: cluster_rel_def)
      then show ?thesis by (rule slot_ok_frame[OF evolve_refl False]) (use c' False in \<open>simp_all add: set_node_def\<close>)
    qed
    then have "cluster_rel ids cfg c' s"
      using R(1,2) c' by (simp add: cluster_rel_def net_ok_def set_node_def)
    then show ?thesis using evolve_refl by blast
  next
    case (Inr n)
    then have c': "c' = (set_node i n c)\<lparr>up := (up c)(i := True)\<rparr>" "fits n" using x o by auto
    have nr: "node_rel s i n" using O(2)[OF Inr] O(1) M by (simp add: node_rel_def dirty_rel_def)
    have "cluster_rel ids cfg c' s"
      by (rule cluster_rel_node[OF r evolve_refl i nr _ c'(2)])
        (use c' O(2)[OF Inr] R(3) M in \<open>auto simp: set_node_def net_ok_def\<close>)
    then show ?thesis using evolve_refl by blast
  qed
qed

lemma sim_crash:
  assumes r: "cluster_rel ids cfg c s" and i: "i \<in> ids" and x: "cluster_exec (Crash i) c = Some c'"
  shows "\<exists>s'. evolve ids i s s' \<and> cluster_rel ids cfg c' s'"
proof -
  note R = cluster_relD[OF r]
  have u: "up c i" and c': "c' = c\<lparr>up := (up c)(i := False), campaigns := (campaigns c)(i := None), rounds := (rounds c)(i := None)\<rparr>"
    using x by auto
  let ?s' = "s\<lparr>mem := (mem s)(i := dsk s i), leading := (leading s)(i := False)\<rparr>"
  have e: "evolve ids i s ?s'" by (rule evolve_crash)
  have "slot_ok ids cfg ?s' c' j" for j
  proof (cases "j = i")
    case True
    then show ?thesis using c' R(3) node_relD(2)[OF R(5)[OF u]] by (simp add: slot_ok_def)
  next
    case False
    have "slot_ok ids cfg s c j" using r by (simp add: cluster_rel_def)
    then show ?thesis by (rule slot_ok_frame[OF e False]) (use c' False in simp_all)
  qed
  then have "cluster_rel ids cfg c' ?s'"
    using R(2) c' evolve_inv[OF e R(1)] by (simp add: cluster_rel_def net_ok_def)
  then show ?thesis using e by blast
qed

lemma sim_begin_campaign:
  assumes cc: "cluster_config ids cid cfg" and r: "cluster_rel ids cfg c s" and i: "i \<in> ids"
    and x: "cluster_exec (BeginCampaign i env) c = Some c'"
  shows "\<exists>s'. evolve ids i s s' \<and> cluster_rel ids cfg c' s'"
proof -
  note R = cluster_relD[OF r]
  obtain n res where b: "campaign_begin env (nodes c i) = (n, res)" by (cases "campaign_begin env (nodes c i)")
  have g: "up c i" "fits n" "campaigns c i = None" "current_term (pstate (nodes c i)) < u64_max"
    and c': "c' = (case res of Inl e \<Rightarrow> set_node i n c
        | Inr req \<Rightarrow> (set_node i n c)\<lparr>campaigns := (campaigns c)(i \<mapsto> req), vote_requests := req # vote_requests c\<rparr>)"
    using x b by auto
  have "node_id (config (nodes c i)) = i" using R(3) cluster_configD(1)[OF cc i] by simp
  from reaches_campaign_begin[OF R(1) R(5)[OF g(1)] this g(4), of env] obtain s' where
    s': "evolve ids i s s'" "node_rel s' i n" "config n = config (nodes c i)"
      "\<And>req. res = Inr req \<Longrightarrow> vote_request_ok (hist s') req \<and> campaign_ok (hist s') i n req"
    by (auto simp: reaches_def b)
  have "cluster_rel ids cfg c' s'"
    by (rule cluster_rel_node[OF r s'(1) i s'(2) _ g(2)])
      (use c' s'(3,4) R(3,12) g in \<open>auto simp: set_node_def net_ok_def fun_upd_idem split: sum.splits\<close>)
  then show ?thesis using s'(1) by blast
qed

lemma sim_finish_campaign:
  assumes cc: "cluster_config ids cid cfg" and r: "cluster_rel ids cfg c s" and i: "i \<in> ids"
    and x: "cluster_exec (FinishCampaign i rs env) c = Some c'"
  shows "\<exists>s'. evolve ids i s s' \<and> cluster_rel ids cfg c' s'"
proof -
  note R = cluster_relD[OF r] and C = cluster_configD[OF cc i]
  obtain req where q: "campaigns c i = Some req" using x by (auto split: option.splits)
  obtain n res where b: "campaign_finish env req rs (nodes c i) = (n, res)" by (cases "campaign_finish env req rs (nodes c i)")
  have g: "up c i" "fits n" "list_all2 (vote_reply_for c req) (peers (cfg i)) rs"
    and c': "c' = (set_node i n c)\<lparr>campaigns := (campaigns c)(i := None)\<rparr>"
    using x b q R(3) by auto
  have rp: "vote_reply_ok (hist s) (peer_id (peers (cfg i) ! k)) req y" if "k < length rs" "rs ! k = Some y" for k y
  proof -
    have "vote_reply_for c req (peers (cfg i) ! k) (rs ! k)"
      using g(3) that(1) by (simp add: list_all2_conv_all_nth)
    then show ?thesis using that(2) R(2) by (auto simp: vote_reply_for_def net_ok_def)
  qed
  have "reaches ids i s (nodes c i) (campaign_finish env req rs (nodes c i)) (\<lambda>_ _ _. True)"
    by (rule reaches_campaign_finish[OF R(1) R(5)[OF g(1)] _ R(6)[OF g(1)] R(11)[OF q]])
      (use C i R(3) rp g(3) in \<open>auto dest: list_all2_lengthD\<close>)
  then obtain s' where s': "evolve ids i s s'" "node_rel s' i n" "config n = cfg i"
    using R(3) by (auto simp: reaches_def b)
  have "cluster_rel ids cfg c' s'"
    by (rule cluster_rel_node[OF r s'(1) i s'(2,3) g(2)])
      (use c' R(12) g in \<open>auto simp: set_node_def net_ok_def fun_upd_idem\<close>)
  then show ?thesis using s'(1) by blast
qed

lemma sim_deliver_vote:
  assumes r: "cluster_rel ids cfg c s" and i: "i \<in> ids" and x: "cluster_exec (DeliverVote i req env) c = Some c'"
  shows "\<exists>s'. evolve ids i s s' \<and> cluster_rel ids cfg c' s'"
proof -
  note R = cluster_relD[OF r]
  obtain n res where b: "handle_request_vote env req (nodes c i) = (n, res)"
    by (cases "handle_request_vote env req (nodes c i)")
  have g: "up c i" "fits n" "req \<in> set (vote_requests c)"
    and c': "c' = (case res of Inl e \<Rightarrow> set_node i n c
        | Inr y \<Rightarrow> (set_node i n c)\<lparr>vote_replies := (i, req, y) # vote_replies c\<rparr>)"
    using x b by auto
  have q: "vote_request_ok (hist s) req" using g(3) R(2) by (auto simp: net_ok_def)
  have m: "sim ids i s (nodes c i) (n, res) (\<lambda>s' n' r. vote_reply_ok (hist s') i req r)"
    using sim_handle_request_vote[OF R(1) R(5)[OF g(1)] q, of env] b by simp
  show ?thesis
    by (rule cluster_rel_sim[OF r i g(1) m g(2)])
      (use c' in \<open>auto simp: set_node_def net_ok_def split: sum.splits\<close>)
qed

lemma sim_deliver_append:
  assumes r: "cluster_rel ids cfg c s" and i: "i \<in> ids" and x: "cluster_exec (DeliverAppend i req env) c = Some c'"
  shows "\<exists>s'. evolve ids i s s' \<and> cluster_rel ids cfg c' s'"
proof -
  note R = cluster_relD[OF r]
  obtain n res where b: "handle_append_entries env req (nodes c i) = (n, res)"
    by (cases "handle_append_entries env req (nodes c i)")
  have g: "up c i" "fits n" "(i, req) \<in> set (append_requests c)"
    and c': "c' = (case res of Inl e \<Rightarrow> set_node i n c
        | Inr y \<Rightarrow> (set_node i n c)\<lparr>append_replies := (i, req, y) # append_replies c\<rparr>)"
    using x b by auto
  have q: "append_request_ok (hist s) req" using g(3) R(2) by (auto simp: net_ok_def)
  have m: "sim ids i s (nodes c i) (n, res) (\<lambda>s' n' r. append_reply_ok (hist s') i req r)"
    using sim_handle_append_entries[OF R(1) R(5)[OF g(1)] q R(6)[OF g(1)], of env] b by simp
  show ?thesis
    by (rule cluster_rel_sim[OF r i g(1) m g(2)])
      (use c' in \<open>auto simp: set_node_def net_ok_def split: sum.splits\<close>)
qed

lemma sim_write:
  assumes cc: "cluster_config ids cid cfg" and r: "cluster_rel ids cfg c s" and i: "i \<in> ids"
    and x: "cluster_exec (Write i cf ex w env) c = Some c'"
  shows "\<exists>s'. evolve ids i s s' \<and> cluster_rel ids cfg c' s'"
proof -
  note R = cluster_relD[OF r]
  obtain n res where b: "write_begin env cf ex w (nodes c i) = (n, res)"
    by (cases "write_begin env cf ex w (nodes c i)")
  have g: "up c i" "fits n" and c': "c' = set_node i n c" using x b by auto
  have id: "node_id (config (nodes c i)) = i" using R(3) cluster_configD(1)[OF cc i] by simp
  have m: "sim ids i s (nodes c i) (n, res) (\<lambda>_ _ _. True)"
    using sim_write_begin[OF R(1) R(5)[OF g(1)] R(6)[OF g(1)] id, of env cf ex w] b by simp
  show ?thesis
    by (rule cluster_rel_sim[OF r i g(1) m g(2)]) (use c' in \<open>auto simp: set_node_def net_ok_def\<close>)
qed

lemma sim_begin_round:
  assumes r: "cluster_rel ids cfg c s" and i: "i \<in> ids" and x: "cluster_exec (BeginRound i env) c = Some c'"
  shows "\<exists>s'. evolve ids i s s' \<and> cluster_rel ids cfg c' s'"
proof -
  note R = cluster_relD[OF r]
  obtain n res where b: "replicate_begin env (nodes c i) = (n, res)" by (cases "replicate_begin env (nodes c i)")
  have g: "up c i" "fits n" and c': "c' = (case res of Inl e \<Rightarrow> set_node i n c | Inr None \<Rightarrow> set_node i n c
      | Inr (Some (t, reqs)) \<Rightarrow> (set_node i n c)\<lparr>rounds := (rounds c)(i \<mapsto> (t, reqs)),
                                       append_requests := reqs @ append_requests c\<rparr>)"
    using x b by auto
  have m: "sim ids i s (nodes c i) (n, res) (\<lambda>s' n' x. \<forall>t reqs. x = Some (t, reqs) \<longrightarrow>
     map fst reqs = map peer_id (peers (cfg i)) \<and>
     (\<forall>q\<in>snd ` set reqs. append_request_ok (hist s') q \<and> ae_term q = t))"
    using sim_replicate_begin[OF R(1) R(5)[OF g(1)] R(6)[OF g(1)], of env] b R(3) by simp
  consider (quiet) "c' = set_node i n c"
    | (sent) t reqs where "res = Inr (Some (t, reqs))" "c' = (set_node i n c)\<lparr>rounds := (rounds c)(i \<mapsto> (t, reqs)),
                                       append_requests := reqs @ append_requests c\<rparr>"
    using c' by (auto split: sum.splits option.splits)
  then show ?thesis
  proof cases
    case quiet
    show ?thesis by (rule cluster_rel_sim[OF r i g(1) m g(2)]) (use quiet in \<open>auto simp: set_node_def net_ok_def\<close>)
  next
    case sent
    show ?thesis
      by (rule cluster_rel_sim[OF r i g(1) m g(2)])
        (use sent in \<open>auto simp: set_node_def net_ok_def round_ok_def\<close>)
  qed
qed

lemma sim_finish_round:
  assumes cc: "cluster_config ids cid cfg" and r: "cluster_rel ids cfg c s" and i: "i \<in> ids"
    and x: "cluster_exec (FinishRound i rs env) c = Some c'"
  shows "\<exists>s'. evolve ids i s s' \<and> cluster_rel ids cfg c' s'"
proof -
  note R = cluster_relD[OF r] and C = cluster_configD[OF cc i]
  obtain t reqs where q: "rounds c i = Some (t, reqs)" using x by (auto split: option.splits)
  obtain n res where b: "replicate_finish env t (zip (map fst reqs) rs) (nodes c i) = (n, res)"
    by (cases "replicate_finish env t (zip (map fst reqs) rs) (nodes c i)")
  have g: "up c i" "fits n" "list_all2 (append_reply_for c) reqs rs"
    and c': "c' = (set_node i n c)\<lparr>rounds := (rounds c)(i := None)\<rparr>"
    using x b q by auto
  have ro: "map fst reqs = map peer_id (peers (cfg i))" "\<forall>q\<in>snd ` set reqs. ae_term q = t"
    using R(12)[OF q] by (simp_all add: round_ok_def)
  have "round_replies_ok (hist s) i t (zip (map fst reqs) rs)"
    unfolding round_replies_ok_def
  proof (intro allI impI)
    fix p y assume "(p, Some y) \<in> set (zip (map fst reqs) rs)"
    then obtain k where k: "k < length reqs" "k < length rs" "p = fst (reqs ! k)" "rs ! k = Some y"
      by (auto simp: set_zip)
    have "append_reply_for c (reqs ! k) (rs ! k)" using list_all2_nthD[OF g(3) k(1)] .
    then have "append_reply_ok (hist s) p (snd (reqs ! k)) y"
      using k R(2) by (auto simp: append_reply_for_def net_ok_def)
    moreover have "ae_term (snd (reqs ! k)) = t" using ro(2) k(1) by auto
    moreover have "p \<in> peer_id ` set (peers (cfg i))"
    proof -
      have "p \<in> set (map fst reqs)" using k by auto
      then show ?thesis unfolding ro(1) by simp
    qed
    ultimately show "p \<noteq> i \<and> (\<exists>q. ae_term q = t \<and> append_reply_ok (hist s) p q y)" using C(5) by blast
  qed
  note rr = this
  have m: "sim ids i s (nodes c i) (n, res) (\<lambda>_ _ _. True)"
    unfolding b[symmetric]
    by (rule sim_replicate_finish[OF R(1) R(5)[OF g(1)] R(6)[OF g(1)] _ _ i _ _ rr]) (use C R(3) in auto)
  show ?thesis
    by (rule cluster_rel_sim[OF r i g(1) m g(2)])
      (use c' in \<open>auto simp: set_node_def net_ok_def\<close>)
qed

lemma cluster_step_sim:
  assumes cc: "cluster_config ids cid cfg" and r: "cluster_rel ids cfg c s" and x: "cluster_step ids c c'"
  shows "\<exists>i s'. evolve ids i s s' \<and> cluster_rel ids cfg c' s'"
proof -
  note cluster_exec.simps [simp del]
  from x obtain e where e: "event_node e \<in> ids" "cluster_exec e c = Some c'" by cases
  show ?thesis
  proof (cases e)
    case (Start i env) then show ?thesis using sim_start[OF r] e by (simp add: event_node_def) blast
  next
    case (Crash i) then show ?thesis using sim_crash[OF r] e by (simp add: event_node_def) blast
  next
    case (BeginCampaign i env) then show ?thesis using sim_begin_campaign[OF cc r] e by (simp add: event_node_def) blast
  next
    case (DeliverVote i req env) then show ?thesis using sim_deliver_vote[OF r] e by (simp add: event_node_def) blast
  next
    case (FinishCampaign i rs env) then show ?thesis using sim_finish_campaign[OF cc r] e by (simp add: event_node_def) blast
  next
    case (BeginRound i env) then show ?thesis using sim_begin_round[OF r] e by (simp add: event_node_def) blast
  next
    case (DeliverAppend i req env) then show ?thesis using sim_deliver_append[OF r] e by (simp add: event_node_def) blast
  next
    case (FinishRound i rs env) then show ?thesis using sim_finish_round[OF cc r] e by (simp add: event_node_def) blast
  next
    case (Write i cf ex w env) then show ?thesis using sim_write[OF cc r] e by (simp add: event_node_def) blast
  qed
qed

section \<open>Runs\<close>

lemma init_rel: "cluster_rel ids cfg (init_cluster cfg) init_spec"
proof -
  have "slot_ok ids cfg init_spec (init_cluster cfg) i" for i
    by (simp add: slot_ok_def init_cluster_def init_spec_def down_node_def file_view_def)
  then show ?thesis
    using init_spec_inv by (simp add: cluster_rel_def net_ok_def init_cluster_def)
qed

lemma steps_refine:
  assumes cc: "cluster_config ids cid cfg" and r: "cluster_rel ids cfg c s" and st: "(cluster_step ids)\<^sup>*\<^sup>* c c'"
  shows "\<exists>s'. (spec_step (majority_set ids))\<^sup>*\<^sup>* s s' \<and> hist_le (hist s) (hist s') \<and> cluster_rel ids cfg c' s'"
  using st
proof (induction rule: rtranclp_induct)
  case base
  then show ?case using r by auto
next
  case (step c1 c2)
  then obtain s1 where s1: "(spec_step (majority_set ids))\<^sup>*\<^sup>* s s1" "hist_le (hist s) (hist s1)" "cluster_rel ids cfg c1 s1"
    by blast
  obtain i s2 where "evolve ids i s1 s2" "cluster_rel ids cfg c2 s2"
    using cluster_step_sim[OF cc s1(3) step(2)] by blast
  then show ?case using s1 evolveD(1,2) hist_le_trans by (metis rtranclp_trans)
qed

lemma reachable_steps: "cluster_reachable ids cfg c \<Longrightarrow> (cluster_step ids)\<^sup>*\<^sup>* (init_cluster cfg) c"
  by (induction rule: cluster_reachable.induct) (auto intro: rtranclp.rtrancl_into_rtrancl)

lemma reachable_rel:
  assumes "cluster_config ids cid cfg" "cluster_reachable ids cfg c"
  obtains s where "(spec_step (majority_set ids))\<^sup>*\<^sup>* init_spec s" "cluster_rel ids cfg c s"
  using steps_refine[OF assms(1) init_rel reachable_steps[OF assms(2)]] by blast

text \<open>What a running node knows, in terms of the protocol.\<close>

lemma rel_commit_ok:
  "cluster_rel ids cfg c s \<Longrightarrow> up c i \<Longrightarrow> commit_ok (majority_set ids) (hist s) (view_of (pstate (nodes c i)))"
  by (metis cluster_relD(1,5) majorities.spec_invD(2) node_relD(1) view_okD(7))

lemma rel_from_leaders:
  "cluster_rel ids cfg c s \<Longrightarrow> up c i \<Longrightarrow> from_leaders (hist s) (raft_log (pstate (nodes c i)))"
  by (metis cluster_relD(1,5) majorities.spec_invD(2) node_relD(1) view_okD(1) view_of_sel(3))

lemma rel_leader:
  assumes "cluster_rel ids cfg c s" "up c i" "node_role (vstate (nodes c i)) = Leader"
  shows "leading s i" "elected (hist s) (current_term (pstate (nodes c i))) = Some i"
    and "mem s i = view_of (pstate (nodes c i))"
  using majorities.spec_invD(4)[OF cluster_relD(1)[OF assms(1)], of i]
    node_relD(1,3)[OF cluster_relD(5)[OF assms(1,2)]] assms(3) by auto

end
