(* ===== verification/Raft_Safety.thy ===== *)
theory Raft_Safety
  imports Raft_Refinement
begin

text \<open>
  Safety of the replicated control plane, for every reachable cluster, and a run of three nodes
  on which the theorems are exercised: a start, an election, one replication round, a commit.
\<close>

section \<open>A run\<close>

definition demo_peer :: "string \<Rightarrow> peer" where
  "demo_peer i = \<lparr>peer_id = i, base_url = ''http://'' @ i\<rparr>"

definition demo_ids :: "string set" where
  "demo_ids = {''a'', ''b'', ''c''}"

definition demo_config :: "string \<Rightarrow> node_config" where
  "demo_config i = \<lparr>node_id = i, cluster_id = ''demo'',
     peers = map demo_peer (filter (\<lambda>j. j \<noteq> i) [''a'', ''b'', ''c'']),
     election_timeout_min = 2, election_timeout_max = 3, heartbeat_interval = 1,
     rpc_timeout = 1, commit_timeout = 1\<rparr>"

definition demo_env :: host_env where
  "demo_env = \<lparr>mono_now = 0, unix_ms = 0, hash_value = (\<lambda>_ _ _ _. 0), save_result = (\<lambda>_. SaveOk),
     trace_ok = (\<lambda>_. True), sign_ok = True\<rparr>"

definition demo_vote :: request_vote_request where
  "demo_vote = \<lparr>rv_cluster_id = ''demo'', rv_term = 1, rv_candidate_id = ''a'', rv_last_log_index = 0, rv_last_log_term = 0\<rparr>"

definition demo_append :: "nat \<Rightarrow> log_entry list \<Rightarrow> nat \<Rightarrow> append_entries_request" where
  "demo_append prev es k = \<lparr>ae_cluster_id = ''demo'', ae_term = 1, ae_leader_id = ''a'',
     ae_prev_log_index = prev, ae_prev_log_term = prev, ae_entries = es, ae_leader_commit = k\<rparr>"

definition demo_noop :: log_entry where
  "demo_noop = \<lparr>entry_index = 1, entry_term = 1, entry_command = Noop\<rparr>"

definition demo_round :: "append_entries_request \<Rightarrow> append_entries_response \<Rightarrow> cluster_event list" where
  "demo_round req r = [BeginRound ''a'' demo_env, DeliverAppend ''b'' req demo_env, FinishRound ''a'' [Some r, None] demo_env]"

text \<open>The first round finds that \<open>b\<close> lacks the entry, the second delivers and commits it, the third
  tells \<open>b\<close> that it is committed.\<close>

definition demo_replication :: "cluster_event list" where
  "demo_replication =
     demo_round (demo_append 1 [] 0) \<lparr>aer_term = 1, aer_success = False, aer_match_index = 0\<rparr> @
     demo_round (demo_append 0 [demo_noop] 0) \<lparr>aer_term = 1, aer_success = True, aer_match_index = 1\<rparr> @
     demo_round (demo_append 1 [] 1) \<lparr>aer_term = 1, aer_success = True, aer_match_index = 1\<rparr>"

definition demo_election :: "cluster_event list" where
  "demo_election = [Start ''a'' demo_env, Start ''b'' demo_env, BeginCampaign ''a'' demo_env, DeliverVote ''b'' demo_vote demo_env,
     FinishCampaign ''a'' [Some \<lparr>rvr_term = 1, rvr_vote_granted = True\<rparr>, None] demo_env]"

lemma demo_config_sel [simp]:
  "node_id (demo_config i) = i" "cluster_id (demo_config i) = ''demo''"
  "peers (demo_config i) = map demo_peer (filter (\<lambda>j. j \<noteq> i) [''a'', ''b'', ''c''])"
  "election_timeout_min (demo_config i) = 2" "election_timeout_max (demo_config i) = 3"
  "heartbeat_interval (demo_config i) = 1"
  by (simp_all add: demo_config_def)

lemma demo_peer_id [simp]: "peer_id (demo_peer i) = i"
  by (simp add: demo_peer_def)

lemma demo_valid [simp]:
  "validate_config (demo_config ''a'') = Inr ()" "validate_config (demo_config ''b'') = Inr ()"
  "validate_config (demo_config ''c'') = Inr ()"
  by (simp_all add: validate_config_def trim_alnum is_ascii_alphanumeric_def demo_config_def demo_peer_def
      validate_cluster_id_def cluster_id_byte_def)

lemma demo_cluster_config: "cluster_config demo_ids ''demo'' demo_config"
  by (auto simp: cluster_config_def demo_ids_def)

lemma demo_cid [simp]: "validate_cluster_id ''demo'' = Inr ()"
  by (simp add: validate_cluster_id_def cluster_id_byte_def is_ascii_alphanumeric_def)

lemmas run_defs = init_cluster_def down_node_def set_node_def fits_def guarded_def open_node_def adopt_cluster_id_def
  storage_load_def storage_save_def validate_persistent_state_def default_persistent_state_def apply_committed_def
  initial_volatile_def reset_election_deadline_def as_millis_u64_def trace_locked_def campaign_begin_def
  require_storage_def upd_v_def upd_p_def persist_locked_def last_log_position_def handle_request_vote_def
  require_cluster_identity_def become_follower_def candidate_log_is_at_least_as_up_to_date_def
  persist_if_def trace_if_def campaign_finish_def majority_def cluster_size_def become_leader_def peer_map_def
  vote_reply_for_def u64_max_def sat_add64_def u64_of_len_def Let_def demo_env_def event_node_def demo_ids_def

lemmas round_defs = replicate_begin_def append_request_for_def log_term_def handle_append_entries_def
  append_rejection_def observe_leader_def previous_matches_def validate_incoming_entries_def advance_commit_def
  apply_committed_locked_def replicate_finish_def commit_round_def match_indexes_def highest_committable_index_def
  append_reply_for_def demo_round_def demo_append_def demo_noop_def

definition demo_leader :: "cluster \<Rightarrow> bool" where
  "demo_leader c \<longleftrightarrow> up c ''a'' \<and> up c ''b'' \<and> \<not> up c ''c'' \<and> node_role (vstate (nodes c ''a'')) = Leader
     \<and> node_role (vstate (nodes c ''b'')) = Follower \<and> current_term (pstate (nodes c ''a'')) = 1
     \<and> current_term (pstate (nodes c ''b'')) = 1"

definition demo_committed :: "cluster \<Rightarrow> bool" where
  "demo_committed c \<longleftrightarrow> demo_leader c \<and> raft_log (pstate (nodes c ''a'')) = [demo_noop]
     \<and> raft_log (pstate (nodes c ''b'')) = [demo_noop]
     \<and> commit_index (pstate (nodes c ''a'')) = 1 \<and> commit_index (pstate (nodes c ''b'')) = 1"

lemma demo_run:
  "\<exists>c c'. cluster_run demo_ids demo_election (init_cluster demo_config) = Some c \<and> demo_leader c \<and>
     cluster_run demo_ids demo_replication c = Some c' \<and> demo_committed c'"
  by (simp add: demo_election_def demo_replication_def run_defs round_defs demo_vote_def demo_leader_def demo_committed_def)

lemma demo_reach:
  obtains c c' where "cluster_reachable demo_ids demo_config c" "demo_leader c" "(cluster_step demo_ids)\<^sup>*\<^sup>* c c'"
    "cluster_reachable demo_ids demo_config c'" "demo_committed c'"
  using demo_run cluster_run_steps cluster_steps_reachable cluster_reachable.init by metis

section \<open>Properties\<close>

text \<open>C1. The cluster of nodes refines the replication protocol: whatever event a cluster related
  to a protocol state performs (also one that fails half way through, or a crash), the protocol
  can follow with its own steps to a related state.\<close>

theorem cluster_refines_protocol:
  assumes "cluster_config ids cid cfg" "cluster_rel ids cfg c s" "cluster_step ids c c'"
  shows "\<exists>s'. (spec_step (majority_set ids))\<^sup>*\<^sup>* s s' \<and> cluster_rel ids cfg c' s'"
  using cluster_step_sim[OF assms] evolveD(1) by blast

theorem cluster_refines_protocol_witness:
  "\<exists>c'. cluster_step demo_ids (init_cluster demo_config) c' \<and> up c' ''a'' \<and>
     (\<exists>s'. (spec_step (majority_set demo_ids))\<^sup>*\<^sup>* init_spec s' \<and> cluster_rel demo_ids demo_config c' s')"
proof -
  have "\<exists>c'. cluster_exec (Start ''a'' demo_env) (init_cluster demo_config) = Some c' \<and> up c' ''a''"
    by (simp add: run_defs)
  then obtain c' where "cluster_exec (Start ''a'' demo_env) (init_cluster demo_config) = Some c'" "up c' ''a''"
    by blast
  moreover from this have "cluster_step demo_ids (init_cluster demo_config) c'"
    using cluster_step.exec[of "Start ''a'' demo_env" demo_ids] by (simp only: event_node_def demo_ids_def) simp
  ultimately show ?thesis
    using cluster_refines_protocol[OF demo_cluster_config init_rel] by blast
qed

text \<open>C2. Election safety: in every reachable cluster, two running nodes that are leader in the
  same term are the same node.\<close>

theorem election_safety:
  assumes cc: "cluster_config ids cid cfg" and r: "cluster_reachable ids cfg c"
    and i: "up c i" "node_role (vstate (nodes c i)) = Leader"
    and j: "up c j" "node_role (vstate (nodes c j)) = Leader"
    and t: "current_term (pstate (nodes c i)) = current_term (pstate (nodes c j))"
  shows "i = j"
proof -
  obtain s where s: "cluster_rel ids cfg c s" by (rule reachable_rel[OF cc r])
  have "Some i = Some j" by (metis rel_leader(2)[OF s i] rel_leader(2)[OF s j] t)
  then show ?thesis by blast
qed

theorem election_safety_witness:
  "\<exists>c. cluster_reachable demo_ids demo_config c \<and>
     {j. up c j \<and> node_role (vstate (nodes c j)) = Leader \<and> current_term (pstate (nodes c j)) = 1} = {''a''}"
proof -
  obtain c c' where c: "cluster_reachable demo_ids demo_config c" "demo_leader c" by (rule demo_reach)
  have "j = ''a''" if "up c j" "node_role (vstate (nodes c j)) = Leader" "current_term (pstate (nodes c j)) = 1" for j
    by (rule election_safety[OF demo_cluster_config c(1)]) (use that c(2) in \<open>auto simp: demo_leader_def\<close>)
  then show ?thesis using c by (auto simp: demo_leader_def intro!: exI[of _ c])
qed

text \<open>C3. Log matching: if two running nodes hold an entry of the same term at the same position,
  their logs are equal up to and including that position.\<close>

theorem log_matching:
  assumes cc: "cluster_config ids cid cfg" and r: "cluster_reachable ids cfg c" and u: "up c i" "up c j"
    and k: "k < length (raft_log (pstate (nodes c i)))" "k < length (raft_log (pstate (nodes c j)))"
    and t: "entry_term (raft_log (pstate (nodes c i)) ! k) = entry_term (raft_log (pstate (nodes c j)) ! k)"
  shows "take (Suc k) (raft_log (pstate (nodes c i))) = take (Suc k) (raft_log (pstate (nodes c j)))"
proof -
  obtain s where s: "cluster_rel ids cfg c s" by (rule reachable_rel[OF cc r])
  show ?thesis
    using log_matching_from_leaders[OF rel_from_leaders[OF s u(1)] rel_from_leaders[OF s u(2)] k t]
    by (simp add: agree_def)
qed

theorem log_matching_witness:
  "\<exists>c. cluster_reachable demo_ids demo_config c \<and> raft_log (pstate (nodes c ''a'')) = [demo_noop] \<and>
     take 1 (raft_log (pstate (nodes c ''a''))) = take 1 (raft_log (pstate (nodes c ''b'')))"
proof -
  obtain c0 c where c: "cluster_reachable demo_ids demo_config c" "demo_committed c" by (rule demo_reach)
  have "take (Suc 0) (raft_log (pstate (nodes c ''a''))) = take (Suc 0) (raft_log (pstate (nodes c ''b'')))"
    by (rule log_matching[OF demo_cluster_config c(1)]) (use c(2) in \<open>simp_all add: demo_committed_def demo_leader_def\<close>)
  then show ?thesis using c by (auto simp: demo_committed_def)
qed

text \<open>C4. State machine safety, across time: what a node has committed at one moment and what any
  node has committed at any later moment agree, entry by entry, on the shorter of the two
  committed prefixes; crashes, restarts and lost writes to disk in between do not matter.\<close>

theorem committed_prefixes_agree:
  assumes cc: "cluster_config ids cid cfg" and r: "cluster_reachable ids cfg c" and st: "(cluster_step ids)\<^sup>*\<^sup>* c c'"
    and i: "up c i" and j: "up c' j"
    and k: "k \<le> commit_index (pstate (nodes c i))" "k \<le> commit_index (pstate (nodes c' j))"
  shows "k \<le> length (raft_log (pstate (nodes c' j))) \<and>
    take k (raft_log (pstate (nodes c i))) = take k (raft_log (pstate (nodes c' j)))"
proof -
  obtain s where s: "cluster_rel ids cfg c s" by (rule reachable_rel[OF cc r])
  obtain s' where s': "hist_le (hist s) (hist s')" "cluster_rel ids cfg c' s'" using steps_refine[OF cc s st] by blast
  have h: "history_ok (majority_set ids) (hist s')" using majorities.spec_invD(1)[OF cluster_relD(1)[OF s'(2)]] .
  note A = majorities.commits_agree[OF h commit_ok_mono[OF s'(1) rel_commit_ok[OF s i]] rel_commit_ok[OF s'(2) j]]
  have "agree k (raft_log (pstate (nodes c i))) (raft_log (pstate (nodes c' j)))"
    using agree_mono[OF A, of k] k by simp
  then show ?thesis by (simp add: agree_def)
qed

theorem committed_prefixes_agree_witness:
  "\<exists>c. cluster_reachable demo_ids demo_config c \<and> commit_index (pstate (nodes c ''a'')) = 1 \<and>
     take 1 (raft_log (pstate (nodes c ''a''))) = take 1 (raft_log (pstate (nodes c ''b'')))"
proof -
  obtain c0 c where c: "cluster_reachable demo_ids demo_config c" "demo_committed c" by (rule demo_reach)
  have "take 1 (raft_log (pstate (nodes c ''a''))) = take 1 (raft_log (pstate (nodes c ''b'')))"
    by (rule conjunct2, rule committed_prefixes_agree[OF demo_cluster_config c(1) rtranclp.rtrancl_refl])
      (use c(2) in \<open>simp_all add: demo_committed_def demo_leader_def\<close>)
  then show ?thesis using c by (auto simp: demo_committed_def)
qed



end
