(* ===== verification/Raft_Writes.thy ===== *)
theory Raft_Writes
  imports Raft_Safety
begin

text \<open>
  What a client of \<open>write_configuration_with_fence\<close> can rely on, and two cases in which it is less than it seems.
\<close>

section \<open>A write that is overwritten while it waits\<close>

definition demo_routing_write :: "string \<Rightarrow> routing_configuration" where
  "demo_routing_write i = \<lparr>routing_policy = ''round-robin'', workers = [\<lparr>wc_id = i, wc_base_url = ''http://w'', wc_weight = 1\<rparr>]\<rparr>"

definition demo_rival_log :: "log_entry list" where
  "demo_rival_log = [\<lparr>entry_index = 1, entry_term = 2, entry_command = Noop\<rparr>,
     \<lparr>entry_index = 2, entry_term = 2, entry_command = SetRoutingConfiguration (demo_routing_write ''y'') None\<rparr>]"

definition demo_rival_vote :: request_vote_request where
  "demo_rival_vote = \<lparr>rv_cluster_id = ''demo'', rv_term = 2, rv_candidate_id = ''b'', rv_last_log_index = 0, rv_last_log_term = 0\<rparr>"

definition demo_rival_append :: "nat \<Rightarrow> nat \<Rightarrow> nat \<Rightarrow> append_entries_request" where
  "demo_rival_append prev t k = \<lparr>ae_cluster_id = ''demo'', ae_term = 2, ae_leader_id = ''b'', ae_prev_log_index = prev, ae_prev_log_term = t,
     ae_entries = drop prev demo_rival_log, ae_leader_commit = k\<rparr>"

definition demo_rival_reply :: "bool \<Rightarrow> nat \<Rightarrow> append_entries_response option" where
  "demo_rival_reply ok k = Some \<lparr>aer_term = 2, aer_success = ok, aer_match_index = k\<rparr>"

definition demo_before_write :: "cluster_event list" where
  "demo_before_write = [Start ''a'' demo_env, Start ''b'' demo_env, Start ''c'' demo_env, BeginCampaign ''a'' demo_env, DeliverVote ''b'' demo_vote demo_env,
     FinishCampaign ''a'' [Some \<lparr>rvr_term = 1, rvr_vote_granted = True\<rparr>, None] demo_env]"

definition demo_rival :: "cluster_event list" where
  "demo_rival = [BeginCampaign ''b'' demo_env, DeliverVote ''c'' demo_rival_vote demo_env,
     FinishCampaign ''b'' [None, Some \<lparr>rvr_term = 2, rvr_vote_granted = True\<rparr>] demo_env, Write ''b'' (demo_routing_write ''y'') None None demo_env]"

definition demo_overwrite :: "cluster_event list" where
  "demo_overwrite =
    [BeginRound ''b'' demo_env, DeliverAppend ''a'' (demo_rival_append 1 2 0) demo_env, DeliverAppend ''c'' (demo_rival_append 1 2 0) demo_env,
     FinishRound ''b'' [demo_rival_reply False 2, demo_rival_reply False 0] demo_env,
     BeginRound ''b'' demo_env, DeliverAppend ''a'' (demo_rival_append 0 0 0) demo_env, DeliverAppend ''c'' (demo_rival_append 0 0 0) demo_env,
     FinishRound ''b'' [demo_rival_reply True 2, demo_rival_reply True 2] demo_env,
     BeginRound ''b'' demo_env, DeliverAppend ''a'' (demo_rival_append 2 2 2) demo_env]"

lemma demo_write_valid [simp]: "validate_configuration (demo_routing_write ''x'') = Inr ()" "validate_configuration (demo_routing_write ''y'') = Inr ()"
proof -
  have "trim ''x'' = ''x''" "trim ''y'' = ''y''" by (rule trim_alnum; simp add: is_ascii_alphanumeric_def)+
  then show "validate_configuration (demo_routing_write ''x'') = Inr ()" "validate_configuration (demo_routing_write ''y'') = Inr ()"
    by (simp_all add: validate_configuration_def demo_routing_write_def POLICIES_def starts_with_def)
qed

lemmas rival_defs = demo_vote_def demo_rival_vote_def demo_rival_append_def demo_rival_reply_def demo_rival_log_def write_begin_def

lemma demo_overwritten:
  "\<exists>c n c' x. cluster_run demo_ids demo_before_write (init_cluster demo_config) = Some c \<and>
     write_begin demo_env (demo_routing_write ''x'') None None (nodes c ''a'') = (n, Inr (2, 1)) \<and> up c ''a'' \<and> fits n \<and>
     cluster_run demo_ids (demo_rival @ demo_overwrite) (set_node ''a'' n c) = Some c' \<and>
     write_poll demo_env 100 2 1 (nodes c' ''a'') = Some (Inr x) \<and> cc_configuration x = demo_routing_write ''y'' \<and>
     (\<forall>i\<in>demo_ids. raft_log (pstate (nodes c' i)) = demo_rival_log)"
  by (simp add: demo_before_write_def demo_rival_def demo_overwrite_def rival_defs run_defs round_defs write_poll_def)

text \<open>C39.  A write can be acknowledged that was lost.  The wait of a write ends with success as soon as the commit index reaches the index
  of its entry, before the term is looked at: in a reachable cluster a leader appends a write, another leader replaces the
  entry and commits its own configuration at that index, and the first node answers its client with success and the
  other configuration, while no node holds the client's write any more.\<close>

theorem overwritten_write_reports_success:
  "\<exists>c n c' x. cluster_reachable demo_ids demo_config c \<and>
     write_begin demo_env (demo_routing_write ''x'') None None (nodes c ''a'') = (n, Inr (2, 1)) \<and>
     cluster_step demo_ids c (set_node ''a'' n c) \<and> (cluster_step demo_ids)\<^sup>*\<^sup>* (set_node ''a'' n c) c' \<and>
     write_poll demo_env 100 2 1 (nodes c' ''a'') = Some (Inr x) \<and> cc_configuration x \<noteq> demo_routing_write ''x'' \<and>
     SetRoutingConfiguration (demo_routing_write ''x'') None \<notin> (\<Union>i\<in>demo_ids. entry_command ` set (raft_log (pstate (nodes c' i))))"
proof -
  obtain c n c' x where r: "cluster_run demo_ids demo_before_write (init_cluster demo_config) = Some c"
    "write_begin demo_env (demo_routing_write ''x'') None None (nodes c ''a'') = (n, Inr (2, 1))" "up c ''a''" "fits n"
    "cluster_run demo_ids (demo_rival @ demo_overwrite) (set_node ''a'' n c) = Some c'"
    "write_poll demo_env 100 2 1 (nodes c' ''a'') = Some (Inr x)" "cc_configuration x = demo_routing_write ''y''"
    "\<forall>i\<in>demo_ids. raft_log (pstate (nodes c' i)) = demo_rival_log"
    using demo_overwritten by blast
  have "cluster_exec (Write ''a'' (demo_routing_write ''x'') None None demo_env) c = Some (set_node ''a'' n c)" using r(2-4) by simp
  then have "cluster_step demo_ids c (set_node ''a'' n c)" by (rule cluster_step.exec[rotated]) (simp add: event_node_def demo_ids_def)
  moreover have "cluster_reachable demo_ids demo_config c" using cluster_run_steps[OF r(1)] cluster_steps_reachable cluster_reachable.init by blast
  moreover have "demo_routing_write ''y'' \<noteq> demo_routing_write ''x''" by (simp add: demo_routing_write_def)
  ultimately show ?thesis using r cluster_run_steps[OF r(5)] by (fastforce simp: demo_rival_log_def)
qed

section \<open>The fence\<close>

lemma entries_snoc:
  "validate_entries_from k (xs @ [e]) = Inr () \<longleftrightarrow> validate_entries_from k xs = Inr () \<and> entry_index e = sat_add64 (u64_of_len (k + length xs)) 1 \<and> entry_term e \<noteq> 0"
  by (induction xs arbitrary: k) auto

lemma write_begin_appends:
  assumes "write_begin env cf ex w n = (n1, Inr x)"
  shows "node_role (vstate n1) = Leader \<and> storage_error (vstate n1) = None \<and> current_revision n1 = current_revision n \<and>
    (ex = None \<or> ex = Some (current_revision n)) \<and> validate_persistent_state (pstate n1) = Inr () \<and> snd x = current_term (pstate n1) \<and>
    raft_log (pstate n1) = raft_log (pstate n) @ [\<lparr>entry_index = fst x, entry_term = snd x, entry_command = SetRoutingConfiguration cf w\<rparr>]"
  using assms
  by (auto simp: write_begin_def require_storage_def persist_locked_def storage_save_def trace_locked_def current_revision_def upd_v_def upd_p_def Let_def
      split: sum.splits option.splits prod.splits if_splits save_outcome.splits)

lemma append_valid:
  assumes "validate_persistent_state p = Inr ()" "entry_index e = sat_add64 (u64_of_len (length (raft_log p))) 1" "entry_term e \<noteq> 0"
  shows "validate_persistent_state (p\<lparr>raft_log := raft_log p @ [e]\<rparr>) = Inr ()"
proof -
  have "u64_of_len (length (raft_log p)) \<le> u64_of_len (Suc (length (raft_log p)))" by (simp add: u64_of_len_def)
  then show ?thesis using assms by (auto simp: validate_persistent_state_def entries_snoc split: if_splits)
qed

text \<open>C40.  The fence of a write looks only at what is committed.  A write that names the committed revision is appended behind
  other writes that name the same revision and are not committed yet (a client whose wait timed out leaves one behind), so that
  both can commit although the second was made against a state that the first replaces.\<close>

theorem fence_admits_writes_behind_pending_ones:
  assumes "write_begin env cf (Some r) w n = (n1, Inr x)"
    and "validate_configuration cf' = Inr ()" "save_result env' 0 = SaveOk" "trace_ok env' 0"
  shows "\<exists>n2 y. write_begin env' cf' (Some r) w' n1 = (n2, Inr y) \<and>
    map entry_command (raft_log (pstate n2)) = map entry_command (raft_log (pstate n)) @ [SetRoutingConfiguration cf w, SetRoutingConfiguration cf' w']"
proof -
  note a = write_begin_appends[OF assms(1)]
  have t: "current_term (pstate n1) \<noteq> 0" using a by (auto simp: validate_persistent_state_def entries_snoc split: if_splits)
  obtain n2 y where s: "write_begin env' cf' (Some r) w' n1 = (n2, Inr y)"
    using a assms(2-) append_valid[of "pstate n1" "\<lparr>entry_index = sat_add64 (u64_of_len (length (raft_log (pstate n1)))) 1,
        entry_term = current_term (pstate n1), entry_command = SetRoutingConfiguration cf' w'\<rparr>"] t
    by (simp add: write_begin_def require_storage_def persist_locked_def trace_locked_def storage_save_def upd_v_def upd_p_def Let_def)
  show ?thesis using s a write_begin_appends[OF s] by simp
qed

theorem fence_admits_writes_behind_pending_ones_witness:
  "\<exists>n n1 n2 x y. write_begin demo_env (demo_routing_write ''x'') (Some 0) None n = (n1, Inr x) \<and>
     write_begin demo_env (demo_routing_write ''y'') (Some 0) None n1 = (n2, Inr y)"
proof -
  have "\<exists>n n1 x. write_begin demo_env (demo_routing_write ''x'') (Some 0) None n = (n1, Inr x)"
    by (rule exI[of _ "become_leader demo_env (fst (campaign_begin demo_env (down_node (demo_config ''a''))))"]) (simp add: run_defs write_begin_def current_revision_def)
  then obtain n n1 x where w: "write_begin demo_env (demo_routing_write ''x'') (Some 0) None n = (n1, Inr x)" by blast
  have "save_result demo_env 0 = SaveOk" "trace_ok demo_env 0" by (simp_all add: demo_env_def)
  from fence_admits_writes_behind_pending_ones[OF w demo_write_valid(2) this, of None] show ?thesis using w by blast
qed

end
