(* ===== verification/Text_Format.thy ===== *)
theory Text_Format
  imports InferLab_Prelude "HOL-Library.Char_ord" "HOL-Library.List_Lexorder"
begin

text \<open>
  The decimal formatting and parsing of Rust's standard library that the components use:
  \<open>format!\<close> of an unsigned integer with and without zero padding, \<open>str::parse::<u64>\<close>, and the
  byte-wise order of \<open>String\<close>.
\<close>

section \<open>Decimal numbers\<close>

definition digit_char :: "nat \<Rightarrow> char" where
  "digit_char d = char_of (48 + d)"

fun dec_string :: "nat \<Rightarrow> string" where
  "dec_string n = (if n < 10 then [digit_char n] else dec_string (n div 10) @ [digit_char (n mod 10)])"

declare dec_string.simps [simp del]

definition zero_pad :: "nat \<Rightarrow> string \<Rightarrow> string" where
  "zero_pad w s = replicate (w - length s) (CHR ''0'') @ s"

definition digit_value :: "char \<Rightarrow> nat" where
  "digit_value c = of_char c - 48"

definition dec_value :: "string \<Rightarrow> nat" where
  "dec_value s = foldl (\<lambda>a c. a * 10 + digit_value c) 0 s"

text \<open>\<open>u64::from_str\<close>: an optional \<open>+\<close>, then at least one digit, and no overflow.\<close>

definition parse_u64 :: "string \<Rightarrow> nat option" where
  "parse_u64 s =
     (let d = (case s of CHR ''+'' # r \<Rightarrow> r | _ \<Rightarrow> s)
      in if d \<noteq> [] \<and> list_all is_ascii_digit d \<and> dec_value d \<le> u64_max then Some (dec_value d) else None)"

definition strip_prefix :: "string \<Rightarrow> string \<Rightarrow> string option" where
  "strip_prefix p s = (if starts_with p s then Some (drop (length p) s) else None)"

section \<open>Facts\<close>

lemma is_digit_digit_char [simp]: "d < 10 \<Longrightarrow> is_ascii_digit (digit_char d)"
  by (simp add: is_ascii_digit_def digit_char_def)

lemma digit_value_digit_char [simp]: "d < 10 \<Longrightarrow> digit_value (digit_char d) = d"
  by (simp add: digit_value_def digit_char_def)

lemma foldl_dec_shift:
  "foldl (\<lambda>a c. a * 10 + digit_value c) x s = x * 10 ^ length s + dec_value s"
proof (induction s arbitrary: x)
  case (Cons c s)
  show ?case
    using Cons[of "x * 10 + digit_value c"] Cons[of "digit_value c"] by (simp add: dec_value_def algebra_simps)
qed (simp add: dec_value_def)

lemma dec_value_Nil [simp]: "dec_value [] = 0"
  by (simp add: dec_value_def)

lemma dec_value_Cons: "dec_value (c # s) = digit_value c * 10 ^ length s + dec_value s"
  using foldl_dec_shift[of "digit_value c" s] by (simp add: dec_value_def)

lemma dec_value_snoc [simp]: "dec_value (s @ [c]) = dec_value s * 10 + digit_value c"
  by (simp add: dec_value_def)

lemma dec_string_value [simp]: "dec_value (dec_string n) = n"
proof (induction n rule: dec_string.induct)
  case (1 n)
  then show ?case by (subst dec_string.simps) (auto simp: dec_value_def)
qed

lemma dec_string_digits [simp]: "list_all is_ascii_digit (dec_string n)"
proof (induction n rule: dec_string.induct)
  case (1 n)
  then show ?case by (subst dec_string.simps) auto
qed

lemma dec_string_nonempty [simp]: "dec_string n \<noteq> []"
  by (subst dec_string.simps) simp

lemma dec_value_zeros [simp]: "dec_value (replicate k (CHR ''0'') @ s) = dec_value s"
  by (induction k) (simp_all add: dec_value_Cons digit_value_def)

lemma zero_pad_value [simp]: "dec_value (zero_pad w s) = dec_value s"
  by (simp add: zero_pad_def)

lemma zero_pad_digits [simp]: "list_all is_ascii_digit s \<Longrightarrow> list_all is_ascii_digit (zero_pad w s)"
  by (auto simp: zero_pad_def list_all_iff is_ascii_digit_def)

lemma zero_pad_nonempty [simp]: "s \<noteq> [] \<Longrightarrow> zero_pad w s \<noteq> []"
  by (simp add: zero_pad_def)

lemma length_zero_pad: "length s \<le> w \<Longrightarrow> length (zero_pad w s) = w"
  by (simp add: zero_pad_def)

lemma length_dec_string: "0 < w \<Longrightarrow> n < 10 ^ w \<Longrightarrow> length (dec_string n) \<le> w"
proof (induction n arbitrary: w rule: dec_string.induct)
  case (1 n)
  show ?case
  proof (cases "n < 10")
    case False
    then obtain v where v: "w = Suc v" "0 < v" using "1.prems" by (cases w; cases "w - 1") auto
    then have "n div 10 < 10 ^ v" using "1.prems" by (simp add: less_mult_imp_div_less)
    then show ?thesis using "1.IH"[OF False v(2)] False v by (subst dec_string.simps) simp
  qed (use "1.prems" in \<open>subst dec_string.simps, simp\<close>)
qed

lemma parse_digits:
  assumes "list_all is_ascii_digit s" "s \<noteq> []" "dec_value s \<le> u64_max"
  shows "parse_u64 s = Some (dec_value s)"
proof (cases s)
  case (Cons c r)
  have "c \<noteq> CHR ''+''" using assms(1) Cons by (auto simp: is_ascii_digit_def)
  then have "(case s of CHR ''+'' # r \<Rightarrow> r | _ \<Rightarrow> s) = s"
    using Cons by (auto split: char.splits bool.splits)
  then show ?thesis using assms by (simp add: parse_u64_def)
qed (use assms in simp)

lemma parse_u64_bound: "parse_u64 s = Some n \<Longrightarrow> n \<le> u64_max"
  by (auto simp: parse_u64_def Let_def split: if_splits)

lemma parse_zero_pad_dec: "n \<le> u64_max \<Longrightarrow> parse_u64 (zero_pad w (dec_string n)) = Some n"
  using parse_digits[of "zero_pad w (dec_string n)"] by simp

lemma strip_prefix_append [simp]: "strip_prefix p (p @ s) = Some s"
  by (simp add: strip_prefix_def starts_with_def)

section \<open>Order\<close>

text \<open>Digit strings of equal length are ordered like their values.\<close>

lemma digit_less_iff:
  "is_ascii_digit c \<Longrightarrow> is_ascii_digit d \<Longrightarrow> c < d \<longleftrightarrow> digit_value c < digit_value d"
  by (auto simp: less_char_def is_ascii_digit_def digit_value_def Let_def)

lemma digit_value_inj:
  "is_ascii_digit c \<Longrightarrow> is_ascii_digit d \<Longrightarrow> digit_value c = digit_value d \<Longrightarrow> c = d"
  by (metis digit_less_iff less_irrefl linorder_less_linear)

lemma digit_value_le: "is_ascii_digit c \<Longrightarrow> digit_value c \<le> 9"
  by (auto simp: is_ascii_digit_def digit_value_def Let_def)

lemma dec_value_less: "list_all is_ascii_digit s \<Longrightarrow> dec_value s < 10 ^ length s"
proof (induction s)
  case (Cons c s)
  then have "digit_value c \<le> 9" "dec_value s < 10 ^ length s" by (auto simp: digit_value_le)
  then have "digit_value c * 10 ^ length s + dec_value s < 9 * 10 ^ length s + 10 ^ length s"
    by (meson add_le_less_mono mult_le_mono1)
  then show ?case by (simp add: dec_value_Cons)
qed simp

lemma dec_less_iff:
  assumes "list_all is_ascii_digit s" "list_all is_ascii_digit t" "length s = length t"
  shows "s < t \<longleftrightarrow> dec_value s < dec_value t"
  using assms
proof (induction s arbitrary: t)
  case (Cons c s)
  then obtain d t' where t: "t = d # t'" "length t' = length s" by (cases t) auto
  have dc: "is_ascii_digit c" "is_ascii_digit d" and bs: "dec_value s < 10 ^ length s" "dec_value t' < 10 ^ length s"
    using Cons.prems t dec_value_less[of s] dec_value_less[of t'] by auto
  have IH: "s < t' \<longleftrightarrow> dec_value s < dec_value t'" using Cons t by simp
  have key: "x < y \<Longrightarrow> x * 10 ^ length s + a < y * 10 ^ length s + b"
    if "a < 10 ^ length s" for x y a b :: nat
  proof -
    assume "x < y"
    then have "Suc x * 10 ^ length s \<le> y * 10 ^ length s" by (intro mult_le_mono1) simp
    then show ?thesis using that by simp
  qed
  show ?case
    using key[OF bs(1), of "digit_value c" "digit_value d" "dec_value t'"]
      key[OF bs(2), of "digit_value d" "digit_value c" "dec_value s"]
      digit_less_iff[OF dc] digit_value_inj[OF dc] IH t
    by (cases "digit_value c" "digit_value d" rule: linorder_cases) (auto simp: dec_value_Cons)
qed simp

lemma append_less_iff [simp]: "p @ s < p @ t \<longleftrightarrow> s < (t :: string)"
  by (induction p) auto

end
