(* ===== verification/Ordered_Map.thy ===== *)
theory Ordered_Map
  imports Main
begin

text \<open>
  Rust's \<open>BTreeMap\<close>: a finite map whose iteration visits the keys in increasing order.  The model
  is the list of its items in that order.  The locale \<open>ordered_map\<close> is what the components rely
  on; the interpretation \<open>btree\<close> shows that the model provides it.
\<close>

section \<open>The contract\<close>

locale ordered_map =
  fixes lookup_in :: "'m \<Rightarrow> 'k::linorder \<Rightarrow> 'v option"
    and insert_in :: "'k \<Rightarrow> 'v \<Rightarrow> 'm \<Rightarrow> 'm"
    and items :: "'m \<Rightarrow> ('k \<times> 'v) list"
    and ok :: "'m \<Rightarrow> bool"
  assumes lookup_insert: "lookup_in (insert_in k v m) = (lookup_in m)(k \<mapsto> v)"
    and ok_insert: "ok m \<Longrightarrow> ok (insert_in k v m)"
    and items_sorted: "ok m \<Longrightarrow> sorted_wrt (<) (map fst (items m))"
    and lookup_items: "ok m \<Longrightarrow> lookup_in m k = Some v \<longleftrightarrow> (k, v) \<in> set (items m)"
begin

text \<open>The first item with a property is the one with the least key.\<close>

lemma first_item_least:
  assumes "ok m" "find (\<lambda>(k, v). P v) (items m) = Some (k, v)"
  shows "lookup_in m k = Some v \<and> P v \<and> (\<forall>k' v'. lookup_in m k' = Some v' \<longrightarrow> P v' \<longrightarrow> k \<le> k')"
proof -
  from assms(2) obtain i where i: "i < length (items m)" "items m ! i = (k, v)" "P v"
      "\<And>j. j < i \<Longrightarrow> \<not> (case items m ! j of (k, v) \<Rightarrow> P v)"
    by (auto simp: find_Some_iff)
  have "k \<le> k'" if a: "lookup_in m k' = Some v'" "P v'" for k' v'
  proof -
    obtain j where j: "j < length (items m)" "items m ! j = (k', v')"
      using a(1) lookup_items[OF assms(1)] by (auto simp: in_set_conv_nth)
    have "i \<le> j" using i(4)[of j] j(2) a(2) by (cases "j < i") auto
    then show ?thesis
      using sorted_wrt_nth_less[OF items_sorted[OF assms(1)], of i j] i j by (cases "i = j") auto
  qed
  then show ?thesis using i lookup_items[OF assms(1)] by (metis nth_mem)
qed

lemma no_item:
  "ok m \<Longrightarrow> find (\<lambda>(k, v). P v) (items m) = None \<Longrightarrow> lookup_in m k = Some v \<Longrightarrow> \<not> P v"
  by (auto simp: find_None_iff lookup_items)

lemma items_distinct: "ok m \<Longrightarrow> distinct (map fst (items m))"
  by (metis items_sorted strict_sorted_iff)

lemma finite_dom: "ok m \<Longrightarrow> finite (dom (lookup_in m))"
  by (rule finite_subset[of _ "fst ` set (items m)"]) (force simp: lookup_items)+

text \<open>How many entries satisfy a property, and how an insertion changes it.\<close>

definition count_items :: "('v \<Rightarrow> bool) \<Rightarrow> 'm \<Rightarrow> nat" where
  "count_items P m = length (filter (\<lambda>(k, v). P v) (items m))"

lemma count_items_card:
  assumes "ok m"
  shows "count_items P m = card {k. \<exists>v. lookup_in m k = Some v \<and> P v}"
proof -
  let ?l = "filter (\<lambda>(k, v). P v) (items m)"
  have "distinct (map fst ?l)" using items_distinct[OF assms] by (rule distinct_map_filter)
  then have "length ?l = card (fst ` set ?l)" by (metis distinct_card length_map set_map)
  also have "fst ` set ?l = {k. \<exists>v. lookup_in m k = Some v \<and> P v}"
    using lookup_items[OF assms] by force
  finally show ?thesis by (simp add: count_items_def)
qed

lemma matching_finite: "ok m \<Longrightarrow> finite {k. \<exists>v. lookup_in m k = Some v \<and> P v}"
  by (rule finite_subset[OF _ finite_dom]) auto

lemma count_insert_new:
  assumes "ok m" "lookup_in m k = None"
  shows "count_items P (insert_in k v m) = count_items P m + (if P v then 1 else 0)"
proof -
  let ?A = "{k. \<exists>v. lookup_in m k = Some v \<and> P v}"
  have "{k'. \<exists>v'. lookup_in (insert_in k v m) k' = Some v' \<and> P v'} = (if P v then insert k ?A else ?A)"
    using assms(2) by (auto simp: lookup_insert split: if_splits)
  then show ?thesis
    using assms matching_finite[OF assms(1), of P]
    by (simp add: count_items_card[OF assms(1)] count_items_card[OF ok_insert[OF assms(1)]])
qed

lemma count_insert_old:
  assumes "ok m" "lookup_in m k = Some v0"
  shows "count_items P (insert_in k v m) + (if P v0 then 1 else 0) = count_items P m + (if P v then 1 else 0)"
proof -
  let ?A = "{k. \<exists>v. lookup_in m k = Some v \<and> P v}"
  have A: "finite ?A" "k \<in> ?A \<longleftrightarrow> P v0" using assms matching_finite[OF assms(1), of P] by auto
  have "{k'. \<exists>v'. lookup_in (insert_in k v m) k' = Some v' \<and> P v'} = (if P v then insert k ?A else ?A - {k})"
    by (auto simp: lookup_insert split: if_splits)
  then show ?thesis
    using A card_Diff_singleton[of k ?A] card_gt_0_iff[of ?A]
    by (auto simp: count_items_card[OF assms(1)] count_items_card[OF ok_insert[OF assms(1)]] insert_absorb)
qed

end

section \<open>The model\<close>

fun bt_insert :: "'k::linorder \<Rightarrow> 'v \<Rightarrow> ('k \<times> 'v) list \<Rightarrow> ('k \<times> 'v) list" where
  "bt_insert k v [] = [(k, v)]"
| "bt_insert k v ((k', v') # m) =
     (if k < k' then (k, v) # (k', v') # m
      else if k = k' then (k, v) # m
      else (k', v') # bt_insert k v m)"

definition bt_ok :: "('k::linorder \<times> 'v) list \<Rightarrow> bool" where
  "bt_ok m \<longleftrightarrow> sorted_wrt (<) (map fst m)"

definition bt_items :: "('k \<times> 'v) list \<Rightarrow> ('k \<times> 'v) list" where
  "bt_items m = m"

fun bt_remove :: "'k \<Rightarrow> ('k \<times> 'v) list \<Rightarrow> ('k \<times> 'v) list" where
  "bt_remove k [] = []"
| "bt_remove k ((k', v') # m) = (if k = k' then m else (k', v') # bt_remove k m)"

lemma map_of_bt_insert: "map_of (bt_insert k v m) = (map_of m)(k \<mapsto> v)"
  by (induction k v m rule: bt_insert.induct) (auto simp: fun_eq_iff)

lemma set_bt_insert: "fst ` set (bt_insert k v m) = insert k (fst ` set m)"
  by (induction k v m rule: bt_insert.induct) auto

lemma bt_ok_insert: "bt_ok m \<Longrightarrow> bt_ok (bt_insert k v m)"
  unfolding bt_ok_def
proof (induction k v m rule: bt_insert.induct)
  case (2 k v k' v' m)
  show ?case
  proof (cases "k < k' \<or> k = k'")
    case True
    then show ?thesis using "2.prems" by (auto dest: less_trans)
  next
    case False
    then have "sorted_wrt (<) (map fst (bt_insert k v m))" using 2 by auto
    moreover have "\<forall>x\<in>fst ` set (bt_insert k v m). k' < x"
      using "2.prems" False by (auto simp: set_bt_insert)
    ultimately show ?thesis using False by auto
  qed
qed simp

lemma bt_ok_distinct: "bt_ok m \<Longrightarrow> distinct (map fst m)"
  by (simp add: bt_ok_def strict_sorted_iff)

lemma bt_ok_remove: "bt_ok m \<Longrightarrow> bt_ok (bt_remove k m)"
proof (induction k m rule: bt_remove.induct)
  case (2 k k' v' m)
  have "fst ` set (bt_remove k m) \<subseteq> fst ` set m" by (induction k m rule: bt_remove.induct) auto
  then show ?case using 2 by (fastforce simp: bt_ok_def)
qed simp

lemma map_of_bt_remove: "bt_ok m \<Longrightarrow> map_of (bt_remove k m) = (map_of m)(k := None)"
proof (induction k m rule: bt_remove.induct)
  case (2 k k' v' m)
  then have "bt_ok m" "k' \<notin> fst ` set m" by (auto simp: bt_ok_def)
  then show ?case using 2 by (auto simp: fun_eq_iff map_of_eq_None_iff)
qed simp

interpretation btree: ordered_map map_of bt_insert bt_items bt_ok
proof unfold_locales
  show "map_of m k = Some v \<longleftrightarrow> (k, v) \<in> set (bt_items m)" if "bt_ok m" for m :: "('a \<times> 'b) list" and k v
    using bt_ok_distinct[OF that] by (simp add: bt_items_def)
qed (simp_all add: map_of_bt_insert bt_ok_insert, simp add: bt_ok_def bt_items_def)

lemma btree_count: "btree.count_items P m = length (filter (\<lambda>(k, v). P v) m)"
  by (simp add: btree.count_items_def bt_items_def)

end
