(* ===== verification/Batch_Queue.thy ===== *)
theory Batch_Queue
  imports Text_Format Ordered_Map
begin

text \<open>
  The durable batch queue (\<open>batch-queue/src/model.rs\<close>, \<open>wal.rs\<close>, \<open>store.rs\<close>, and the error type of
  \<open>lib.rs\<close>).  Every operation of \<open>QueueStore\<close> runs under one mutex, so it is one function on the
  store; it returns the store together with its result, because an operation that fails may
  already have logged and applied events.

  JSON is a parameter: \<open>'p\<close> is the type of payloads and the record \<open>codec\<close> holds \<open>serde_json\<close>'s
  encoder and decoder of WAL events and the encoded size of a payload.  The outcome of the
  \<open>k\<close>-th append of a call is given by the host; a failed append leaves any part of the line in
  the file.
\<close>

section \<open>Data\<close>

datatype queue_error =
    QInvalid
  | QIdempotencyConflict
  | QNotFound
  | QStaleClaim
  | QStorage

definition queue_error_code :: "queue_error \<Rightarrow> string" where
  "queue_error_code e = (case e of
       QInvalid \<Rightarrow> ''invalid_request''
     | QIdempotencyConflict \<Rightarrow> ''idempotency_conflict''
     | QNotFound \<Rightarrow> ''not_found''
     | QStaleClaim \<Rightarrow> ''stale_claim''
     | QStorage \<Rightarrow> ''storage_error'')"

definition queue_error_status :: "queue_error \<Rightarrow> nat" where
  "queue_error_status e = (case e of
       QInvalid \<Rightarrow> 400
     | QIdempotencyConflict \<Rightarrow> 409
     | QStaleClaim \<Rightarrow> 409
     | QNotFound \<Rightarrow> 404
     | QStorage \<Rightarrow> 500)"

datatype job_status = Pending | Claimed | Completed | DeadLetter

record claim_lease =
  cl_consumer_id :: string
  cl_claim_token :: string
  cl_deadline_ms :: nat

record 'p job_record =
  job_id :: string
  idempotency_key :: string
  payload :: 'p
  max_attempts :: nat
  attempts :: nat
  status :: job_status
  active_claim :: "claim_lease option"
  created_at_ms :: nat
  updated_at_ms :: nat
  last_error :: "string option"

record 'p enqueue_request =
  er_idempotency_key :: string
  er_payload :: 'p
  er_max_attempts :: nat

record 'p enqueue_response =
  created :: bool
  er_job :: "'p job_record"

record claim_request =
  cr_consumer_id :: string
  cr_visibility_timeout_ms :: nat

record 'p claim_response =
  cs_job_id :: string
  cs_idempotency_key :: string
  cs_payload :: 'p
  cs_attempt :: nat
  cs_max_attempts :: nat
  cs_consumer_id :: string
  cs_claim_token :: string
  cs_deadline_ms :: nat

record ack_request =
  ar_consumer_id :: string
  ar_claim_token :: string

record fail_request =
  fr_consumer_id :: string
  fr_claim_token :: string
  fr_error :: string

datatype 'p wal_event =
    Enqueued (we_job: string) (we_key: string) (we_payload: 'p) (we_max: nat) (we_at: nat)
  | ClaimedEv (we_job: string) (we_consumer: string) (we_token: string) (we_deadline: nat) (we_attempt: nat) (we_at: nat)
  | Released (we_job: string) (we_token: string) (we_reason: string) (we_expired: bool) (we_at: nat)
  | Acknowledged (we_job: string) (we_token: string) (we_at: nat)
  | DeadLettered (we_job: string) (we_token: string) (we_reason: string) (we_expired: bool) (we_at: nat)

section \<open>The write-ahead log\<close>

record 'p codec =
  encode :: "'p wal_event \<Rightarrow> string option"
  decode :: "string \<Rightarrow> 'p wal_event option"
  payload_size :: "'p \<Rightarrow> nat option"

definition newline :: char where
  "newline = CHR 0x0A"

record wal =
  wal_file :: string
  wal_bytes :: nat
  wal_events :: nat
  poisoned :: bool

record 'p replay_result =
  rr_events :: "'p wal_event list"
  valid_bytes :: nat
  discarded_torn_tail :: bool

text \<open>The loop of \<open>replay\<close> over the bytes: a remainder without a newline is a torn tail, an empty or
  undecodable complete line is an error.\<close>

function replay_from ::
  "'p codec \<Rightarrow> string \<Rightarrow> nat \<Rightarrow> 'p wal_event list \<Rightarrow> (queue_error, 'p replay_result) result" where
  "replay_from cd bytes offset acc =
     (if offset < length bytes then
        (let line = takeWhile (\<lambda>b. b \<noteq> newline) (drop offset bytes)
         in if offset + length line = length bytes
            then Inr \<lparr>rr_events = acc, valid_bytes = u64_of_len offset, discarded_torn_tail = True\<rparr>
            else if line = [] then Inl QStorage
            else (case decode cd line of
                    None \<Rightarrow> Inl QStorage
                  | Some e \<Rightarrow> replay_from cd bytes (offset + length line + 1) (acc @ [e])))
      else Inr \<lparr>rr_events = acc, valid_bytes = u64_of_len offset, discarded_torn_tail = False\<rparr>)"
  by pat_completeness auto
termination
  by (relation "measure (\<lambda>(cd, bytes, offset, acc). length bytes - offset)") auto

declare replay_from.simps [simp del]

definition replay :: "'p codec \<Rightarrow> string \<Rightarrow> (queue_error, 'p replay_result) result" where
  "replay cd bytes = replay_from cd bytes 0 []"

text \<open>Opening: a torn tail is cut off.\<close>

definition wal_open :: "'p codec \<Rightarrow> string \<Rightarrow> (queue_error, wal \<times> 'p replay_result) result" where
  "wal_open cd bytes =
     and_then (replay cd bytes) (\<lambda>r.
       Inr (\<lparr>wal_file = (if discarded_torn_tail r then take (valid_bytes r) bytes else bytes),
             wal_bytes = valid_bytes r, wal_events = u64_of_len (length (rr_events r)), poisoned = False\<rparr>, r))"

datatype append_outcome = AppendOk | WriteFailed nat | SyncFailed nat

definition wal_append ::
  "'p codec \<Rightarrow> append_outcome \<Rightarrow> 'p wal_event \<Rightarrow> wal \<Rightarrow> wal \<times> (queue_error, unit) result" where
  "wal_append cd out e w =
     (if poisoned w then (w, Inl QStorage)
      else case encode cd e of
        None \<Rightarrow> (w, Inl QStorage)
      | Some body \<Rightarrow>
         (let serialized = body @ [newline]
          in case out of
               WriteFailed k \<Rightarrow> (w\<lparr>wal_file := wal_file w @ take k serialized, poisoned := True\<rparr>, Inl QStorage)
             | SyncFailed k \<Rightarrow> (w\<lparr>wal_file := wal_file w @ take k serialized, poisoned := True\<rparr>, Inl QStorage)
             | AppendOk \<Rightarrow>
                 (w\<lparr>wal_file := wal_file w @ serialized,
                    wal_bytes := sat_add64 (wal_bytes w) (u64_of_len (length serialized)),
                    wal_events := sat_add64 (wal_events w) 1\<rparr>, Inr ())))"

definition enqueued_job :: "'p wal_event \<Rightarrow> 'p job_record option" where
  "enqueued_job e = (case e of
       Enqueued i k p m t \<Rightarrow>
         Some \<lparr>job_id = i, idempotency_key = k, payload = p, max_attempts = m, attempts = 0, status = Pending,
               active_claim = None, created_at_ms = t, updated_at_ms = t, last_error = None\<rparr>
     | _ \<Rightarrow> None)"

section \<open>The state\<close>

definition MAX_IDEMPOTENCY_KEY_BYTES :: nat where "MAX_IDEMPOTENCY_KEY_BYTES = 200"
definition MAX_PAYLOAD_BYTES :: nat where "MAX_PAYLOAD_BYTES = 1024 * 1024"
definition MAX_ERROR_BYTES :: nat where "MAX_ERROR_BYTES = 1000"
definition MAX_ATTEMPTS :: nat where "MAX_ATTEMPTS = 100"
definition MAX_VISIBILITY_TIMEOUT_MS :: nat where "MAX_VISIBILITY_TIMEOUT_MS = 3600000"

record 'p queue_data =
  jobs :: "(string \<times> 'p job_record) list"
  idempotency_index :: "string \<rightharpoonup> string"
  next_job_number :: nat
  next_claim_number :: nat
  pending_count :: nat
  claimed_count :: nat
  completed_count :: nat
  dead_letter_count :: nat
  claims_total :: nat
  acknowledgments_total :: nat
  redeliveries_total :: nat
  explicit_failures_total :: nat
  dead_lettered_total :: nat
  torn_tail_records_discarded :: nat

definition initial_data :: "bool \<Rightarrow> 'p queue_data" where
  "initial_data torn =
     \<lparr>jobs = [], idempotency_index = Map.empty, next_job_number = 1, next_claim_number = 1,
      pending_count = 0, claimed_count = 0, completed_count = 0, dead_letter_count = 0,
      claims_total = 0, acknowledgments_total = 0, redeliveries_total = 0,
      explicit_failures_total = 0, dead_lettered_total = 0,
      torn_tail_records_discarded = (if torn then 1 else 0)\<rparr>"

record 'p store =
  store_wal :: wal
  store_data :: "'p queue_data"

definition parse_sequence :: "string \<Rightarrow> string \<Rightarrow> nat" where
  "parse_sequence s p =
     (case strip_prefix p s of
        None \<Rightarrow> 0
      | Some rest \<Rightarrow> (case parse_u64 rest of None \<Rightarrow> 0 | Some n \<Rightarrow> n))"

definition transition_claimed_job ::
  "'p queue_data \<Rightarrow> string \<Rightarrow> string \<Rightarrow> (queue_error, 'p job_record) result" where
  "transition_claimed_job d i tok =
     (case map_of (jobs d) i of
        None \<Rightarrow> Inl QStorage
      | Some job \<Rightarrow>
          if status job \<noteq> Claimed
             \<or> \<not> (case active_claim job of None \<Rightarrow> False | Some lease \<Rightarrow> cl_claim_token lease = tok)
          then Inl QStorage else Inr job)"

definition put_job :: "string \<Rightarrow> 'p job_record \<Rightarrow> 'p queue_data \<Rightarrow> 'p queue_data" where
  "put_job i job d = d\<lparr>jobs := bt_insert i job (jobs d)\<rparr>"

fun apply_event :: "'p queue_data \<Rightarrow> 'p wal_event \<Rightarrow> (queue_error, 'p queue_data) result" where
  "apply_event d (Enqueued i k p m t) =
     (if map_of (jobs d) i \<noteq> None then Inl QStorage
      else if idempotency_index d k \<noteq> None then Inl QStorage
      else case enqueued_job (Enqueued i k p m t) of
        None \<Rightarrow> Inl QStorage
      | Some job \<Rightarrow>
         Inr ((put_job i job d)
                \<lparr>pending_count := sat_add64 (pending_count d) 1,
                 idempotency_index := (idempotency_index d)(k \<mapsto> i),
                 next_job_number := max (next_job_number d) (sat_add64 (parse_sequence i ''batch-'') 1)\<rparr>))"
| "apply_event d (ClaimedEv i consumer tok deadline attempt t) =
     (case map_of (jobs d) i of
        None \<Rightarrow> Inl QStorage
      | Some job \<Rightarrow>
          if status job \<noteq> Pending \<or> attempt \<noteq> sat_add32 (attempts job) 1 then Inl QStorage
          else Inr ((put_job i (job\<lparr>status := Claimed, attempts := attempt,
                        active_claim := Some \<lparr>cl_consumer_id = consumer, cl_claim_token = tok,
                                              cl_deadline_ms = deadline\<rparr>,
                        updated_at_ms := t\<rparr>) d)
                 \<lparr>pending_count := pending_count d - 1,
                  claimed_count := sat_add64 (claimed_count d) 1,
                  claims_total := sat_add64 (claims_total d) 1,
                  redeliveries_total := (if 1 < attempt then sat_add64 (redeliveries_total d) 1
                                         else redeliveries_total d),
                  next_claim_number := max (next_claim_number d) (sat_add64 (parse_sequence tok ''claim-'') 1)\<rparr>))"
| "apply_event d (Released i tok reason expired t) =
     and_then (transition_claimed_job d i tok) (\<lambda>job.
       Inr ((put_job i (job\<lparr>status := Pending, active_claim := None, updated_at_ms := t,
                             last_error := Some reason\<rparr>) d)
              \<lparr>explicit_failures_total := (if \<not> expired then sat_add64 (explicit_failures_total d) 1
                                           else explicit_failures_total d),
               claimed_count := claimed_count d - 1,
               pending_count := sat_add64 (pending_count d) 1\<rparr>))"
| "apply_event d (Acknowledged i tok t) =
     and_then (transition_claimed_job d i tok) (\<lambda>job.
       Inr ((put_job i (job\<lparr>status := Completed, active_claim := None, updated_at_ms := t\<rparr>) d)
              \<lparr>acknowledgments_total := sat_add64 (acknowledgments_total d) 1,
               claimed_count := claimed_count d - 1,
               completed_count := sat_add64 (completed_count d) 1\<rparr>))"
| "apply_event d (DeadLettered i tok reason expired t) =
     and_then (transition_claimed_job d i tok) (\<lambda>job.
       Inr ((put_job i (job\<lparr>status := DeadLetter, active_claim := None, updated_at_ms := t,
                             last_error := Some reason\<rparr>) d)
              \<lparr>explicit_failures_total := (if \<not> expired then sat_add64 (explicit_failures_total d) 1
                                           else explicit_failures_total d),
               dead_lettered_total := sat_add64 (dead_lettered_total d) 1,
               claimed_count := claimed_count d - 1,
               dead_letter_count := sat_add64 (dead_letter_count d) 1\<rparr>))"

fun replay_events :: "'p queue_data \<Rightarrow> 'p wal_event list \<Rightarrow> (queue_error, 'p queue_data) result" where
  "replay_events d [] = Inr d"
| "replay_events d (e # es) = and_then (apply_event d e) (\<lambda>d'. replay_events d' es)"

definition store_open :: "'p codec \<Rightarrow> string \<Rightarrow> (queue_error, 'p store) result" where
  "store_open cd bytes =
     and_then (wal_open cd bytes) (\<lambda>(w, r).
     and_then (replay_events (initial_data (discarded_torn_tail r)) (rr_events r)) (\<lambda>d.
       Inr \<lparr>store_wal = w, store_data = d\<rparr>))"

section \<open>Operations\<close>

type_synonym ('p, 'a) store_step = "'p store \<times> (queue_error, 'a) result"

definition bind_store ::
  "('p, 'a) store_step \<Rightarrow> ('p store \<Rightarrow> 'a \<Rightarrow> ('p, 'b) store_step) \<Rightarrow> ('p, 'b) store_step" where
  "bind_store m f = (case m of (s, Inl e) \<Rightarrow> (s, Inl e) | (s, Inr x) \<Rightarrow> f s x)"

lemma bind_store_simps [simp]:
  "bind_store (s, Inl e) f = (s, Inl e)" "bind_store (s, Inr x) f = f s x"
  by (simp_all add: bind_store_def)

text \<open>\<open>inner.wal.append(&event)?; apply_event(&mut inner.data, &event)?;\<close>\<close>

definition log_event ::
  "'p codec \<Rightarrow> append_outcome \<Rightarrow> 'p wal_event \<Rightarrow> 'p store \<Rightarrow> ('p, unit) store_step" where
  "log_event cd out e s =
     (case wal_append cd out e (store_wal s) of
        (w, Inl err) \<Rightarrow> (s\<lparr>store_wal := w\<rparr>, Inl err)
      | (w, Inr _) \<Rightarrow>
         (case apply_event (store_data s) e of
            Inl err \<Rightarrow> (s\<lparr>store_wal := w\<rparr>, Inl err)
          | Inr d \<Rightarrow> (s\<lparr>store_wal := w, store_data := d\<rparr>, Inr ())))"

definition validate_nonempty_limited :: "string \<Rightarrow> nat \<Rightarrow> (queue_error, unit) result" where
  "validate_nonempty_limited v maximum =
     (if trim v = [] then Inl QInvalid else if maximum < length v then Inl QInvalid else Inr ())"

definition check_store :: "(queue_error, unit) result \<Rightarrow> 'p store \<Rightarrow> ('p, unit) store_step" where
  "check_store r s = (s, r)"

text \<open>The claims whose visibility deadline has passed, in key order, with whether the job has
  used up its attempts.\<close>

definition expired_claims :: "'p queue_data \<Rightarrow> nat \<Rightarrow> (string \<times> string \<times> bool) list" where
  "expired_claims d now =
     List.map_filter (\<lambda>(i, job).
       case active_claim job of
         None \<Rightarrow> None
       | Some lease \<Rightarrow>
           if status job = Claimed \<and> cl_deadline_ms lease \<le> now
           then Some (i, cl_claim_token lease, max_attempts job \<le> attempts job) else None) (jobs d)"

definition expiry_event :: "nat \<Rightarrow> string \<times> string \<times> bool \<Rightarrow> 'p wal_event" where
  "expiry_event now x = (case x of (i, tok, exhausted) \<Rightarrow>
     if exhausted then DeadLettered i tok ''visibility_timeout'' True now
     else Released i tok ''visibility_timeout'' True now)"

fun log_events ::
  "'p codec \<Rightarrow> (nat \<Rightarrow> append_outcome) \<Rightarrow> nat \<Rightarrow> 'p wal_event list \<Rightarrow> 'p store \<Rightarrow> ('p, nat) store_step" where
  "log_events cd out k [] s = (s, Inr k)"
| "log_events cd out k (e # es) s =
     bind_store (log_event cd (out k) e s) (\<lambda>s _. log_events cd out (Suc k) es s)"

text \<open>The value is the number of appends made, which numbers the next one.\<close>

definition refresh_expired_claims ::
  "'p codec \<Rightarrow> (nat \<Rightarrow> append_outcome) \<Rightarrow> nat \<Rightarrow> 'p store \<Rightarrow> ('p, nat) store_step" where
  "refresh_expired_claims cd out now s =
     log_events cd out 0 (map (expiry_event now) (expired_claims (store_data s) now)) s"

definition clone_job :: "string \<Rightarrow> 'p store \<Rightarrow> ('p, 'p job_record) store_step" where
  "clone_job i s = (s, case map_of (jobs (store_data s)) i of None \<Rightarrow> Inl QNotFound | Some job \<Rightarrow> Inr job)"

definition require_active_claim ::
  "'p queue_data \<Rightarrow> string \<Rightarrow> string \<Rightarrow> string \<Rightarrow> (queue_error, unit) result" where
  "require_active_claim d i consumer tok =
     (case map_of (jobs d) i of
        None \<Rightarrow> Inl QNotFound
      | Some job \<Rightarrow>
          if status job \<noteq> Claimed
             \<or> \<not> (case active_claim job of None \<Rightarrow> False
                    | Some lease \<Rightarrow> cl_consumer_id lease = consumer \<and> cl_claim_token lease = tok)
          then Inl QStaleClaim else Inr ())"

definition job_name :: "nat \<Rightarrow> string" where
  "job_name n = ''batch-'' @ zero_pad 8 (dec_string n)"

definition claim_name :: "nat \<Rightarrow> string" where
  "claim_name n = ''claim-'' @ zero_pad 12 (dec_string n)"

definition enqueue ::
  "'p codec \<Rightarrow> (nat \<Rightarrow> append_outcome) \<Rightarrow> 'p enqueue_request \<Rightarrow> nat \<Rightarrow> 'p store
     \<Rightarrow> ('p, 'p enqueue_response) store_step" where
  "enqueue cd out req now s =
     bind_store (check_store (validate_nonempty_limited (er_idempotency_key req) MAX_IDEMPOTENCY_KEY_BYTES) s) (\<lambda>s _.
     if \<not> (1 \<le> er_max_attempts req \<and> er_max_attempts req \<le> MAX_ATTEMPTS) then (s, Inl QInvalid)
     else case payload_size cd (er_payload req) of
       None \<Rightarrow> (s, Inl QInvalid)
     | Some n \<Rightarrow>
        if MAX_PAYLOAD_BYTES < n then (s, Inl QInvalid)
        else case idempotency_index (store_data s) (er_idempotency_key req) of
          Some existing_id \<Rightarrow>
            (case map_of (jobs (store_data s)) existing_id of
               None \<Rightarrow> (s, Inl QStorage)
             | Some existing \<Rightarrow>
                 if payload existing \<noteq> er_payload req \<or> max_attempts existing \<noteq> er_max_attempts req
                 then (s, Inl QIdempotencyConflict)
                 else (s, Inr \<lparr>created = False, er_job = existing\<rparr>))
        | None \<Rightarrow>
           (let e = Enqueued (job_name (next_job_number (store_data s))) (er_idempotency_key req)
                      (er_payload req) (er_max_attempts req) now
            in bind_store (log_event cd (out 0) e s) (\<lambda>s _.
                 (s, case enqueued_job e of None \<Rightarrow> Inl QStorage
                     | Some job \<Rightarrow> Inr \<lparr>created = True, er_job = job\<rparr>))))"

definition first_pending :: "'p queue_data \<Rightarrow> string option" where
  "first_pending d = map_option fst (find (\<lambda>(i, job). status job = Pending) (jobs d))"

definition claim ::
  "'p codec \<Rightarrow> (nat \<Rightarrow> append_outcome) \<Rightarrow> claim_request \<Rightarrow> nat \<Rightarrow> 'p store
     \<Rightarrow> ('p, 'p claim_response option) store_step" where
  "claim cd out req now s =
     bind_store (check_store (validate_nonempty_limited (cr_consumer_id req) 200) s) (\<lambda>s _.
     if \<not> (1 \<le> cr_visibility_timeout_ms req \<and> cr_visibility_timeout_ms req \<le> MAX_VISIBILITY_TIMEOUT_MS)
     then (s, Inl QInvalid)
     else bind_store (refresh_expired_claims cd out now s) (\<lambda>s k.
       case first_pending (store_data s) of
         None \<Rightarrow> (s, Inr None)
       | Some i \<Rightarrow>
         (case map_of (jobs (store_data s)) i of
            None \<Rightarrow> (s, Inl QStorage)
          | Some job0 \<Rightarrow>
            let attempt = sat_add32 (attempts job0) 1;
                tok = claim_name (next_claim_number (store_data s));
                deadline = sat_add64 now (cr_visibility_timeout_ms req)
            in bind_store (log_event cd (out k)
                    (ClaimedEv i (cr_consumer_id req) tok deadline attempt now) s) (\<lambda>s _.
               case map_of (jobs (store_data s)) i of
                 None \<Rightarrow> (s, Inl QStorage)
               | Some job \<Rightarrow>
                   (s, Inr (Some \<lparr>cs_job_id = i, cs_idempotency_key = idempotency_key job,
                                   cs_payload = payload job, cs_attempt = attempt,
                                   cs_max_attempts = max_attempts job,
                                   cs_consumer_id = cr_consumer_id req, cs_claim_token = tok,
                                   cs_deadline_ms = deadline\<rparr>))))))"

definition acknowledge ::
  "'p codec \<Rightarrow> (nat \<Rightarrow> append_outcome) \<Rightarrow> string \<Rightarrow> ack_request \<Rightarrow> nat \<Rightarrow> 'p store
     \<Rightarrow> ('p, 'p job_record) store_step" where
  "acknowledge cd out i req now s =
     bind_store (check_store (validate_nonempty_limited (ar_consumer_id req) 200) s) (\<lambda>s _.
     bind_store (check_store (validate_nonempty_limited (ar_claim_token req) 200) s) (\<lambda>s _.
     bind_store (refresh_expired_claims cd out now s) (\<lambda>s k.
     bind_store (check_store (require_active_claim (store_data s) i (ar_consumer_id req) (ar_claim_token req)) s) (\<lambda>s _.
     bind_store (log_event cd (out k) (Acknowledged i (ar_claim_token req) now) s) (\<lambda>s _.
       clone_job i s)))))"

definition fail ::
  "'p codec \<Rightarrow> (nat \<Rightarrow> append_outcome) \<Rightarrow> string \<Rightarrow> fail_request \<Rightarrow> nat \<Rightarrow> 'p store
     \<Rightarrow> ('p, 'p job_record) store_step" where
  "fail cd out i req now s =
     bind_store (check_store (validate_nonempty_limited (fr_consumer_id req) 200) s) (\<lambda>s _.
     bind_store (check_store (validate_nonempty_limited (fr_claim_token req) 200) s) (\<lambda>s _.
     bind_store (check_store (validate_nonempty_limited (fr_error req) MAX_ERROR_BYTES) s) (\<lambda>s _.
     bind_store (refresh_expired_claims cd out now s) (\<lambda>s k.
     bind_store (check_store (require_active_claim (store_data s) i (fr_consumer_id req) (fr_claim_token req)) s) (\<lambda>s _.
       case map_of (jobs (store_data s)) i of
         None \<Rightarrow> (s, Inl QNotFound)
       | Some job \<Rightarrow>
          bind_store (log_event cd (out k)
              (if max_attempts job \<le> attempts job
               then DeadLettered i (fr_claim_token req) (fr_error req) False now
               else Released i (fr_claim_token req) (fr_error req) False now) s) (\<lambda>s _.
            clone_job i s))))))"

definition get_job ::
  "'p codec \<Rightarrow> (nat \<Rightarrow> append_outcome) \<Rightarrow> string \<Rightarrow> nat \<Rightarrow> 'p store \<Rightarrow> ('p, 'p job_record) store_step" where
  "get_job cd out i now s = bind_store (refresh_expired_claims cd out now s) (\<lambda>s _. clone_job i s)"

definition dead_letters ::
  "'p codec \<Rightarrow> (nat \<Rightarrow> append_outcome) \<Rightarrow> nat \<Rightarrow> 'p store \<Rightarrow> ('p, 'p job_record list) store_step" where
  "dead_letters cd out now s = bind_store (refresh_expired_claims cd out now s) (\<lambda>s _.
     (s, Inr (filter (\<lambda>job. status job = DeadLetter) (map snd (jobs (store_data s))))))"

text \<open>The path of the log, which the operator snapshot also carries, is the host's.\<close>

record queue_snapshot =
  qs_wal_bytes :: nat
  qs_wal_events :: nat
  qs_jobs_total :: nat
  qs_pending :: nat
  qs_claimed :: nat
  qs_completed :: nat
  qs_dead_letter :: nat
  qs_claims_total :: nat
  qs_acknowledgments_total :: nat
  qs_redeliveries_total :: nat
  qs_explicit_failures_total :: nat
  qs_dead_lettered_total :: nat
  qs_torn_tail_records_discarded :: nat

definition snapshot_of :: "'p store \<Rightarrow> queue_snapshot" where
  "snapshot_of s =
     (let d = store_data s; w = store_wal s
      in \<lparr>qs_wal_bytes = wal_bytes w, qs_wal_events = wal_events w, qs_jobs_total = length (jobs d),
          qs_pending = pending_count d, qs_claimed = claimed_count d, qs_completed = completed_count d,
          qs_dead_letter = dead_letter_count d, qs_claims_total = claims_total d,
          qs_acknowledgments_total = acknowledgments_total d, qs_redeliveries_total = redeliveries_total d,
          qs_explicit_failures_total = explicit_failures_total d, qs_dead_lettered_total = dead_lettered_total d,
          qs_torn_tail_records_discarded = torn_tail_records_discarded d\<rparr>)"

definition snapshot ::
  "'p codec \<Rightarrow> (nat \<Rightarrow> append_outcome) \<Rightarrow> nat \<Rightarrow> 'p store \<Rightarrow> ('p, queue_snapshot) store_step" where
  "snapshot cd out now s = bind_store (refresh_expired_claims cd out now s) (\<lambda>s _. (s, Inr (snapshot_of s)))"

record queue_metrics_snapshot =
  ms_wal_bytes :: nat
  ms_wal_events :: nat
  ms_pending :: nat
  ms_claimed :: nat
  ms_completed :: nat
  ms_dead_letter :: nat
  ms_claims_total :: nat
  ms_acknowledgments_total :: nat
  ms_redeliveries_total :: nat
  ms_explicit_failures_total :: nat
  ms_dead_lettered_total :: nat
  ms_torn_tail_records_discarded :: nat

definition metrics_snapshot :: "'p store \<Rightarrow> queue_metrics_snapshot" where
  "metrics_snapshot s =
     (let d = store_data s; w = store_wal s
      in \<lparr>ms_wal_bytes = wal_bytes w, ms_wal_events = wal_events w,
          ms_pending = pending_count d, ms_claimed = claimed_count d, ms_completed = completed_count d,
          ms_dead_letter = dead_letter_count d, ms_claims_total = claims_total d,
          ms_acknowledgments_total = acknowledgments_total d, ms_redeliveries_total = redeliveries_total d,
          ms_explicit_failures_total = explicit_failures_total d, ms_dead_lettered_total = dead_lettered_total d,
          ms_torn_tail_records_discarded = torn_tail_records_discarded d\<rparr>)"

end
