(* ===== verification/Batch_Queue_Inv.thy ===== *)
theory Batch_Queue_Inv
  imports Batch_Queue
begin

text \<open>
  The invariant of the queue, and that every event an operation logs can be applied and keeps it.
\<close>

section \<open>Sequence numbers\<close>

lemma parse_sequence_name:
  "n \<le> u64_max \<Longrightarrow> parse_sequence (p @ zero_pad w (dec_string n)) p = n"
  by (simp add: parse_sequence_def parse_zero_pad_dec)

lemma parse_job_name [simp]: "n \<le> u64_max \<Longrightarrow> parse_sequence (job_name n) ''batch-'' = n"
  using parse_sequence_name[of n "''batch-''" 8] by (simp add: job_name_def)

lemma parse_claim_name [simp]: "n \<le> u64_max \<Longrightarrow> parse_sequence (claim_name n) ''claim-'' = n"
  using parse_sequence_name[of n "''claim-''" 12] by (simp add: claim_name_def)

lemma job_name_inj [simp]: "job_name m = job_name n \<longleftrightarrow> m = n"
proof
  assume "job_name m = job_name n"
  then have "dec_value (zero_pad 8 (dec_string m)) = dec_value (zero_pad 8 (dec_string n))"
    by (simp only: job_name_def same_append_eq)
  then show "m = n" by simp
qed simp

lemma claim_name_inj [simp]: "claim_name m = claim_name n \<longleftrightarrow> m = n"
proof
  assume "claim_name m = claim_name n"
  then have "dec_value (zero_pad 12 (dec_string m)) = dec_value (zero_pad 12 (dec_string n))"
    by (simp only: claim_name_def same_append_eq)
  then show "m = n" by simp
qed simp

section \<open>The invariant\<close>

definition count_status :: "job_status \<Rightarrow> 'p queue_data \<Rightarrow> nat" where
  "count_status x d = btree.count_items (\<lambda>job. status job = x) (jobs d)"

definition job_ok :: "'p queue_data \<Rightarrow> string \<Rightarrow> 'p job_record \<Rightarrow> bool" where
  "job_ok d i job \<longleftrightarrow> job_id job = i \<and> idempotency_index d (idempotency_key job) = Some i \<and>
     (\<exists>n<next_job_number d. i = job_name n) \<and>
     1 \<le> max_attempts job \<and> max_attempts job \<le> MAX_ATTEMPTS \<and> attempts job \<le> max_attempts job \<and>
     (status job = Pending \<longrightarrow> attempts job < max_attempts job) \<and>
     (status job = Claimed \<longleftrightarrow> active_claim job \<noteq> None) \<and>
     (\<forall>l. active_claim job = Some l \<longrightarrow> (\<exists>n<next_claim_number d. cl_claim_token l = claim_name n))"

definition queue_ok :: "'p queue_data \<Rightarrow> bool" where
  "queue_ok d \<longleftrightarrow> bt_ok (jobs d) \<and>
     (\<forall>i job. map_of (jobs d) i = Some job \<longrightarrow> job_ok d i job) \<and>
     (\<forall>k i. idempotency_index d k = Some i \<longrightarrow> (\<exists>job. map_of (jobs d) i = Some job \<and> idempotency_key job = k)) \<and>
     next_job_number d \<le> u64_max \<and> next_claim_number d \<le> u64_max \<and> length (jobs d) \<le> next_job_number d \<and>
     pending_count d = count_status Pending d \<and> claimed_count d = count_status Claimed d \<and>
     completed_count d = count_status Completed d \<and> dead_letter_count d = count_status DeadLetter d"

lemma job_ok_mono:
  assumes j: "job_ok d i job" and d': "idempotency_index d' (idempotency_key job) = Some i"
    "next_job_number d \<le> next_job_number d'" "next_claim_number d \<le> next_claim_number d'"
  shows "job_ok d' i job"
proof -
  obtain n where "n < next_job_number d" "i = job_name n" using j by (auto simp: job_ok_def)
  then have "\<exists>n<next_job_number d'. i = job_name n" using d'(2) by (intro exI[of _ n]) simp
  moreover have "\<exists>n<next_claim_number d'. cl_claim_token l = claim_name n" if al: "active_claim job = Some l" for l
  proof -
    obtain n where "n < next_claim_number d" "cl_claim_token l = claim_name n" using j al by (auto simp: job_ok_def)
    then show ?thesis using d'(3) by (intro exI[of _ n]) simp
  qed
  ultimately show ?thesis using j d'(1) by (simp add: job_ok_def)
qed

lemma queue_okD:
  assumes "queue_ok d"
  shows "bt_ok (jobs d)" "map_of (jobs d) i = Some job \<Longrightarrow> job_ok d i job"
    and "idempotency_index d k = Some i \<Longrightarrow> \<exists>job. map_of (jobs d) i = Some job \<and> idempotency_key job = k"
    and "next_job_number d \<le> u64_max" "next_claim_number d \<le> u64_max" "length (jobs d) \<le> next_job_number d"
    and "pending_count d = count_status Pending d" "claimed_count d = count_status Claimed d"
    and "completed_count d = count_status Completed d" "dead_letter_count d = count_status DeadLetter d"
  using assms by (simp_all add: queue_ok_def)

lemma initial_data_ok: "queue_ok (initial_data b)"
  by (simp add: queue_ok_def initial_data_def bt_ok_def count_status_def btree_count u64_max_def)

lemma count_status_le: "count_status x d \<le> length (jobs d)"
  by (simp add: count_status_def btree_count length_filter_le)

lemma length_bt_insert:
  "bt_ok m \<Longrightarrow> length (bt_insert k v m) = (if map_of m k = None then Suc (length m) else length m)"
  using btree.count_insert_new[of m k "\<lambda>_. True" v] btree.count_insert_old[of m k _ "\<lambda>_. True" v]
  by (cases "map_of m k") (auto simp: btree_count case_prod_beta)

lemma count_put_job:
  assumes "bt_ok (jobs d)" "map_of (jobs d) i = Some old"
  shows "count_status x (put_job i new d) + (if status old = x then 1 else 0)
       = count_status x d + (if status new = x then 1 else 0)"
  using btree.count_insert_old[OF assms, of "\<lambda>job. status job = x" new]
  by (simp add: count_status_def put_job_def)

lemma count_put_new:
  assumes "bt_ok (jobs d)" "map_of (jobs d) i = None"
  shows "count_status x (put_job i new d) = count_status x d + (if status new = x then 1 else 0)"
  using btree.count_insert_new[OF assms, of "\<lambda>job. status job = x" new]
  by (simp add: count_status_def put_job_def)

lemma count_status_cong: "jobs d' = jobs d \<Longrightarrow> count_status x d' = count_status x d"
  by (simp add: count_status_def)

lemma put_job_sel [simp]:
  "jobs (put_job i job d) = bt_insert i job (jobs d)"
  "idempotency_index (put_job i job d) = idempotency_index d"
  "next_job_number (put_job i job d) = next_job_number d" "next_claim_number (put_job i job d) = next_claim_number d"
  by (simp_all add: put_job_def)

text \<open>Replacing one job by another version of itself, with the counters moved accordingly.\<close>

lemma queue_ok_update:
  assumes d: "queue_ok d" and old: "map_of (jobs d) i = Some old"
    and d': "jobs d' = bt_insert i new (jobs d)" "idempotency_index d' = idempotency_index d"
      "next_job_number d' = next_job_number d" "next_claim_number d \<le> next_claim_number d'"
      "next_claim_number d' \<le> u64_max"
    and new: "job_ok d' i new" "idempotency_key new = idempotency_key old"
    and cnt: "\<And>x. count_status x (put_job i new d) =
        (case x of Pending \<Rightarrow> pending_count d' | Claimed \<Rightarrow> claimed_count d' | Completed \<Rightarrow> completed_count d'
          | DeadLetter \<Rightarrow> dead_letter_count d')"
  shows "queue_ok d'"
proof -
  note D = queue_okD[OF d]
  have look: "map_of (jobs d') = (map_of (jobs d))(i \<mapsto> new)" by (simp add: d'(1) map_of_bt_insert)
  have "job_ok d' j job" if "map_of (jobs d') j = Some job" for j job
  proof (cases "j = i")
    case False
    then have "job_ok d j job" using D(2) that look by simp
    then show ?thesis by (rule job_ok_mono) (use \<open>job_ok d j job\<close> d'(2-4) in \<open>simp_all add: job_ok_def\<close>)
  qed (use that look new in simp)
  moreover have "\<exists>job. map_of (jobs d') j = Some job \<and> idempotency_key job = k" if "idempotency_index d' k = Some j" for k j
    using D(3)[of k j] that look old new(2) d'(2) by (cases "j = i") auto
  moreover have "count_status x d' = count_status x (put_job i new d)" for x
    by (rule count_status_cong) (simp add: d'(1))
  moreover have "length (jobs d') \<le> next_job_number d'" using D(1,6) d' length_bt_insert[OF D(1)] old by simp
  ultimately show ?thesis
    using bt_ok_insert[OF D(1)] D(4) d' cnt[of Pending] cnt[of Claimed] cnt[of Completed] cnt[of DeadLetter]
    by (simp add: queue_ok_def)
qed

section \<open>Events\<close>

lemma apply_enqueued_ok:
  assumes d: "queue_ok d" and n: "next_job_number d < u64_max" and k: "idempotency_index d k = None"
    and m: "1 \<le> m" "m \<le> MAX_ATTEMPTS"
  obtains d' where "apply_event d (Enqueued (job_name (next_job_number d)) k p m t) = Inr d'" "queue_ok d'"
    "idempotency_index d' = (idempotency_index d)(k \<mapsto> job_name (next_job_number d))"
    "map_of (jobs d') = (map_of (jobs d))(job_name (next_job_number d) \<mapsto>
       the (enqueued_job (Enqueued (job_name (next_job_number d)) k p m t)))"
proof -
  note D = queue_okD[OF d]
  define i where "i = job_name (next_job_number d)"
  define job where "job = the (enqueued_job (Enqueued i k p m t))"
  have job: "job_id job = i" "idempotency_key job = k" "max_attempts job = m" "attempts job = 0" "status job = Pending"
      "active_claim job = None"
    by (simp_all add: job_def enqueued_job_def)
  have fresh: "map_of (jobs d) i = None"
    using D(2)[of i] by (cases "map_of (jobs d) i") (auto simp: job_ok_def i_def)
  define d' where "d' = (put_job i job d)\<lparr>pending_count := sat_add64 (pending_count d) 1,
                 idempotency_index := (idempotency_index d)(k \<mapsto> i), next_job_number := Suc (next_job_number d)\<rparr>"
  have sel: "jobs d' = bt_insert i job (jobs d)" "idempotency_index d' = (idempotency_index d)(k \<mapsto> i)"
      "next_job_number d' = Suc (next_job_number d)" "next_claim_number d' = next_claim_number d"
      "pending_count d' = sat_add64 (pending_count d) 1" "claimed_count d' = claimed_count d"
      "completed_count d' = completed_count d" "dead_letter_count d' = dead_letter_count d"
    by (simp_all add: d'_def put_job_def)
  have ap: "apply_event d (Enqueued i k p m t) = Inr d'"
    using fresh k n by (simp add: d'_def job_def enqueued_job_def sat_add64_def i_def)
  have look: "map_of (jobs d') = (map_of (jobs d))(i \<mapsto> job)" by (simp add: sel map_of_bt_insert)
  have jk: "job_ok d' j x" if x: "map_of (jobs d') j = Some x" for j x
  proof (cases "j = i")
    case True
    then have "x = job" using x look by simp
    then show ?thesis using True m job sel by (auto simp: job_ok_def i_def)
  next
    case False
    then have j: "job_ok d j x" using D(2) x look by simp
    then have "idempotency_key x \<noteq> k" using k by (auto simp: job_ok_def)
    then show ?thesis using j sel by (intro job_ok_mono[OF j]) (simp_all add: job_ok_def)
  qed
  have ix: "\<exists>x. map_of (jobs d') j = Some x \<and> idempotency_key x = k'"
    if kj: "idempotency_index d' k' = Some j" for k' j
  proof (cases "k' = k")
    case True
    then show ?thesis using kj look job sel by simp
  next
    case False
    then obtain x where "map_of (jobs d) j = Some x" "idempotency_key x = k'" using D(3)[of k' j] kj sel by auto
    then show ?thesis using fresh look by (cases "j = i") auto
  qed
  have cs: "count_status x d' = count_status x d + (if x = Pending then 1 else 0)" for x
  proof -
    have "count_status x d' = count_status x (put_job i job d)" by (rule count_status_cong) (simp add: sel)
    then show ?thesis using count_put_new[OF D(1) fresh, of x job] job by auto
  qed
  have lt: "count_status Pending d < u64_max" using D(6) count_status_le[of Pending d] n by linarith
  have len: "length (jobs d') \<le> next_job_number d'" using length_bt_insert[OF D(1)] fresh D(6) sel by simp
  have "queue_ok d'"
    unfolding queue_ok_def
  proof (intro conjI allI impI)
    show "bt_ok (jobs d')" using bt_ok_insert[OF D(1)] sel by simp
    show "pending_count d' = count_status Pending d'" using D(7) lt cs sel by (simp add: sat_add64_def)
  qed (use jk ix len D n cs sel in auto)
  then show ?thesis using that[of d'] ap look sel by (simp add: i_def job_def)
qed

lemma claimed_transition:
  assumes "queue_ok d" "map_of (jobs d) i = Some job" "active_claim job = Some l" "cl_claim_token l = tok"
  shows "transition_claimed_job d i tok = Inr job" "status job = Claimed"
proof -
  show s: "status job = Claimed" using queue_okD(2)[OF assms(1,2)] assms(3) by (simp add: job_ok_def)
  show "transition_claimed_job d i tok = Inr job"
    using assms s by (simp add: transition_claimed_job_def)
qed

lemma count_bound: "queue_ok d \<Longrightarrow> count_status x d \<le> u64_max"
  using count_status_le[of x d] queue_okD(4,6)[of d] by linarith

lemma apply_claimed_ok:
  assumes d: "queue_ok d" and i: "map_of (jobs d) i = Some job" "status job = Pending" and n: "next_claim_number d < u64_max"
  obtains d' where
    "apply_event d (ClaimedEv i c (claim_name (next_claim_number d)) dl (sat_add32 (attempts job) 1) t) = Inr d'" "queue_ok d'"
    "map_of (jobs d') = (map_of (jobs d))(i \<mapsto> job\<lparr>status := Claimed, attempts := Suc (attempts job),
       active_claim := Some \<lparr>cl_consumer_id = c, cl_claim_token = claim_name (next_claim_number d), cl_deadline_ms = dl\<rparr>,
       updated_at_ms := t\<rparr>)"
    "next_claim_number d' = Suc (next_claim_number d)" "next_job_number d' = next_job_number d"
    "idempotency_index d' = idempotency_index d"
proof -
  note D = queue_okD[OF d] and J = queue_okD(2)[OF d i(1)]
  define tok where "tok = claim_name (next_claim_number d)"
  define new where "new = job\<lparr>status := Claimed, attempts := Suc (attempts job),
       active_claim := Some \<lparr>cl_consumer_id = c, cl_claim_token = tok, cl_deadline_ms = dl\<rparr>, updated_at_ms := t\<rparr>"
  have at: "sat_add32 (attempts job) 1 = Suc (attempts job)"
    using J i(2) by (simp add: sat_add32_def u32_max_def job_ok_def MAX_ATTEMPTS_def)
  obtain d' where ap: "apply_event d (ClaimedEv i c tok dl (sat_add32 (attempts job) 1) t) = Inr d'"
    and sel: "jobs d' = bt_insert i new (jobs d)" "idempotency_index d' = idempotency_index d"
      "next_job_number d' = next_job_number d" "next_claim_number d' = Suc (next_claim_number d)"
      "pending_count d' = pending_count d - 1" "claimed_count d' = sat_add64 (claimed_count d) 1"
      "completed_count d' = completed_count d" "dead_letter_count d' = dead_letter_count d"
    using i n at by (simp add: tok_def new_def put_job_def sat_add64_def)
  have cnt: "count_status x (put_job i new d) + (if x = Pending then 1 else 0)
      = count_status x d + (if x = Claimed then 1 else 0)" for x
    using count_put_job[OF D(1) i(1), of x new] i(2) by (auto simp: new_def split: if_splits)
  have "count_status Claimed d < u64_max"
    using cnt[of Claimed] count_status_le[of Claimed "put_job i new d"] length_bt_insert[OF D(1)] i(1) D(4,6)
    by (simp add: put_job_def)
  then have "queue_ok d'"
    using cnt[of Pending] cnt[of Claimed] cnt[of Completed] cnt[of DeadLetter] D(7-10) J i(2) n sel
    by (intro queue_ok_update[OF d i(1) sel(1,2,3)])
      (auto simp: job_ok_def new_def tok_def sat_add64_def split: job_status.splits)
  then show ?thesis using that[of d'] ap sel by (simp add: tok_def new_def map_of_bt_insert)
qed

text \<open>The three events that end a claim differ in the new status only.\<close>

lemma end_claim_ok:
  assumes d: "queue_ok d" and i: "map_of (jobs d) i = Some job" "active_claim job = Some l"
    and new: "job_id new = job_id job" "idempotency_key new = idempotency_key job" "max_attempts new = max_attempts job"
      "attempts new = attempts job" "active_claim new = None" "status new \<noteq> Claimed"
      "status new = Pending \<Longrightarrow> attempts job < max_attempts job"
    and sel: "jobs d' = bt_insert i new (jobs d)" "idempotency_index d' = idempotency_index d"
      "next_job_number d' = next_job_number d" "next_claim_number d' = next_claim_number d"
      "claimed_count d' = claimed_count d - 1"
      "pending_count d' = (if status new = Pending then sat_add64 (pending_count d) 1 else pending_count d)"
      "completed_count d' = (if status new = Completed then sat_add64 (completed_count d) 1 else completed_count d)"
      "dead_letter_count d' = (if status new = DeadLetter then sat_add64 (dead_letter_count d) 1 else dead_letter_count d)"
  shows "queue_ok d'"
proof -
  note D = queue_okD[OF d] and J = queue_okD(2)[OF d i(1)]
  have cl: "status job = Claimed" using J i(2) by (simp add: job_ok_def)
  have cnt: "count_status x (put_job i new d) + (if x = Claimed then 1 else 0)
      = count_status x d + (if x = status new then 1 else 0)" for x
    using count_put_job[OF D(1) i(1), of x new] cl by (auto split: if_splits)
  have "count_status (status new) d < u64_max"
    using cnt[of "status new"] new(6) count_status_le[of "status new" "put_job i new d"] length_bt_insert[OF D(1)] i(1) D(4,6)
    by (simp add: put_job_def)
  then show ?thesis
    using cnt[of Pending] cnt[of Claimed] cnt[of Completed] cnt[of DeadLetter] D(5,7-10) J new sel(2-)
    by (intro queue_ok_update[OF d i(1) sel(1,2,3)])
      (auto simp: job_ok_def sat_add64_def split: job_status.splits if_splits)
qed

lemma apply_end_ok:
  assumes d: "queue_ok d" and i: "map_of (jobs d) i = Some job" "active_claim job = Some l" "cl_claim_token l = tok"
    and e: "e = Acknowledged i tok t \<or> e = DeadLettered i tok r x t \<or> (e = Released i tok r x t \<and> attempts job < max_attempts job)"
  obtains d' new where "apply_event d e = Inr d'" "queue_ok d'" "map_of (jobs d') = (map_of (jobs d))(i \<mapsto> new)"
    "active_claim new = None" "status new = (case e of Acknowledged _ _ _ \<Rightarrow> Completed | DeadLettered _ _ _ _ _ \<Rightarrow> DeadLetter | _ \<Rightarrow> Pending)"
    "attempts new = attempts job" "max_attempts new = max_attempts job" "payload new = payload job"
    "idempotency_key new = idempotency_key job"
    "next_claim_number d' = next_claim_number d" "next_job_number d' = next_job_number d"
    "idempotency_index d' = idempotency_index d"
proof -
  note T = claimed_transition(1)[OF d i]
  let ?a = "job\<lparr>status := Completed, active_claim := None, updated_at_ms := t\<rparr>"
  let ?dl = "job\<lparr>status := DeadLetter, active_claim := None, updated_at_ms := t, last_error := Some r\<rparr>"
  let ?rl = "job\<lparr>status := Pending, active_claim := None, updated_at_ms := t, last_error := Some r\<rparr>"
  from e consider (a) "e = Acknowledged i tok t" | (dl) "e = DeadLettered i tok r x t"
    | (rl) "e = Released i tok r x t" "attempts job < max_attempts job" by blast
  then show ?thesis
  proof cases
    case a
    then obtain d' where ap: "apply_event d e = Inr d'" and s: "jobs d' = bt_insert i ?a (jobs d)" "idempotency_index d' = idempotency_index d"
      "next_job_number d' = next_job_number d" "next_claim_number d' = next_claim_number d"
      "claimed_count d' = claimed_count d - 1" "pending_count d' = pending_count d"
      "completed_count d' = sat_add64 (completed_count d) 1" "dead_letter_count d' = dead_letter_count d"
      using T by (simp add: put_job_def)
    have "queue_ok d'" by (rule end_claim_ok[OF d i(1,2) _ _ _ _ _ _ _ s(1-5)]) (use s in simp_all)
    then show ?thesis using that[OF ap, of ?a] s a by (simp add: map_of_bt_insert)
  next
    case dl
    then obtain d' where ap: "apply_event d e = Inr d'" and s: "jobs d' = bt_insert i ?dl (jobs d)" "idempotency_index d' = idempotency_index d"
      "next_job_number d' = next_job_number d" "next_claim_number d' = next_claim_number d"
      "claimed_count d' = claimed_count d - 1" "pending_count d' = pending_count d"
      "completed_count d' = completed_count d" "dead_letter_count d' = sat_add64 (dead_letter_count d) 1"
      using T by (simp add: put_job_def)
    have "queue_ok d'" by (rule end_claim_ok[OF d i(1,2) _ _ _ _ _ _ _ s(1-5)]) (use s in simp_all)
    then show ?thesis using that[OF ap, of ?dl] s dl by (simp add: map_of_bt_insert)
  next
    case rl
    then obtain d' where ap: "apply_event d e = Inr d'" and s: "jobs d' = bt_insert i ?rl (jobs d)" "idempotency_index d' = idempotency_index d"
      "next_job_number d' = next_job_number d" "next_claim_number d' = next_claim_number d"
      "claimed_count d' = claimed_count d - 1" "pending_count d' = sat_add64 (pending_count d) 1"
      "completed_count d' = completed_count d" "dead_letter_count d' = dead_letter_count d"
      using T by (simp add: put_job_def)
    have "queue_ok d'" by (rule end_claim_ok[OF d i(1,2) _ _ _ _ _ _ _ s(1-5)]) (use s rl in simp_all)
    then show ?thesis using that[OF ap, of ?rl] s rl by (simp add: map_of_bt_insert)
  qed
qed

end
