(* ===== verification/Batch_Queue_Safety.thy ===== *)
theory Batch_Queue_Safety
  imports Batch_Queue_Inv
begin

text \<open>
  The write-ahead log as the queue's stable state: what is replayed is what was written, every
  operation keeps the store recoverable, and the guarantees of the queue follow.
\<close>

section \<open>Replay\<close>

text \<open>What the queue relies on of the JSON codec, for the events it can encode: an encoded event is
  a non-empty line without a raw newline, and decodes to itself.\<close>

definition codec_ok :: "'p codec \<Rightarrow> 'p wal_event \<Rightarrow> bool" where
  "codec_ok cd e \<longleftrightarrow> (\<exists>b. encode cd e = Some b \<and> b \<noteq> [] \<and> newline \<notin> set b \<and> decode cd b = Some e)"

definition codec_faithful :: "'p codec \<Rightarrow> bool" where
  "codec_faithful cd \<longleftrightarrow> (\<forall>e b. encode cd e = Some b \<longrightarrow> b \<noteq> [] \<and> newline \<notin> set b \<and> decode cd b = Some e)"

definition wal_line :: "'p codec \<Rightarrow> 'p wal_event \<Rightarrow> string" where
  "wal_line cd e = the (encode cd e) @ [newline]"

definition wal_lines :: "'p codec \<Rightarrow> 'p wal_event list \<Rightarrow> string" where
  "wal_lines cd es = concat (map (wal_line cd) es)"

lemma wal_lines_simps [simp]:
  "wal_lines cd [] = []" "wal_lines cd (e # es) = wal_line cd e @ wal_lines cd es"
  "wal_lines cd (es @ es') = wal_lines cd es @ wal_lines cd es'"
  by (simp_all add: wal_lines_def)

lemma takeWhile_line: "newline \<notin> set b \<Longrightarrow> takeWhile (\<lambda>c. c \<noteq> newline) (b @ newline # r) = b"
  by (induction b) auto

lemma replay_from_lines:
  assumes "\<forall>e\<in>set es. codec_ok cd e" "newline \<notin> set t"
  shows "replay_from cd (pre @ wal_lines cd es @ t) (length pre) acc =
    Inr \<lparr>rr_events = acc @ es, valid_bytes = u64_of_len (length pre + length (wal_lines cd es)),
         discarded_torn_tail = (t \<noteq> [])\<rparr>"
  using assms(1)
proof (induction es arbitrary: pre acc)
  case Nil
  have tw: "takeWhile (\<lambda>c. c \<noteq> newline) t = t" using assms(2) by auto
  show ?case by (subst replay_from.simps) (simp add: Let_def tw)
next
  case (Cons e es)
  then obtain b where b: "encode cd e = Some b" "b \<noteq> []" "newline \<notin> set b" "decode cd b = Some e"
    by (auto simp: codec_ok_def)
  let ?bytes = "pre @ wal_lines cd (e # es) @ t"
  have split: "?bytes = (pre @ b @ [newline]) @ wal_lines cd es @ t" by (simp add: wal_line_def b)
  have "drop (length pre) ?bytes = b @ newline # (wal_lines cd es @ t)" by (simp add: wal_line_def b)
  then have line: "takeWhile (\<lambda>c. c \<noteq> newline) (drop (length pre) ?bytes) = b" using takeWhile_line[OF b(3)] by simp
  have "replay_from cd ?bytes (length pre) acc = replay_from cd ?bytes (length (pre @ b @ [newline])) (acc @ [e])"
    by (subst replay_from.simps) (simp only: line Let_def, simp add: b wal_line_def)
  also have "\<dots> = Inr \<lparr>rr_events = (acc @ [e]) @ es,
      valid_bytes = u64_of_len (length (pre @ b @ [newline]) + length (wal_lines cd es)), discarded_torn_tail = (t \<noteq> [])\<rparr>"
    unfolding split by (rule Cons.IH) (use Cons.prems in simp)
  finally show ?case by (simp add: wal_line_def b add.assoc)
qed

lemma replay_lines:
  "\<forall>e\<in>set es. codec_ok cd e \<Longrightarrow> newline \<notin> set t \<Longrightarrow> replay cd (wal_lines cd es @ t) =
    Inr \<lparr>rr_events = es, valid_bytes = u64_of_len (length (wal_lines cd es)), discarded_torn_tail = (t \<noteq> [])\<rparr>"
  using replay_from_lines[of es cd t "[]" "[]"] by (simp add: replay_def)

text \<open>A line that was cut short by a crash is either complete or a torn tail.\<close>

lemma replay_cut:
  assumes "\<forall>e\<in>set es. codec_ok cd e" "codec_ok cd e"
  shows "\<exists>es' torn v. replay cd (wal_lines cd es @ take k (wal_line cd e)) =
     Inr \<lparr>rr_events = es', valid_bytes = v, discarded_torn_tail = torn\<rparr> \<and> (es' = es \<or> es' = es @ [e])"
proof (cases "k < length (wal_line cd e)")
  case True
  obtain b where b: "encode cd e = Some b" "newline \<notin> set b" using assms(2) by (auto simp: codec_ok_def)
  then have "newline \<notin> set (take k (wal_line cd e))"
    using True by (auto simp: wal_line_def dest: in_set_takeD)
  from replay_lines[OF assms(1) this] show ?thesis by auto
next
  case False
  then have "wal_lines cd es @ take k (wal_line cd e) = wal_lines cd (es @ [e]) @ []" by simp
  then show ?thesis using replay_lines[of "es @ [e]" cd "[]"] assms by auto
qed

section \<open>Recoverable stores\<close>

definition store_ok :: "'p codec \<Rightarrow> 'p store \<Rightarrow> bool" where
  "store_ok cd s \<longleftrightarrow> queue_ok (store_data s) \<and>
     (\<exists>torn es. (\<forall>e\<in>set es. codec_ok cd e) \<and> replay_events (initial_data torn) es = Inr (store_data s) \<and>
        (if poisoned (store_wal s)
         then \<exists>e d' k. codec_ok cd e \<and> apply_event (store_data s) e = Inr d' \<and> queue_ok d' \<and>
                wal_file (store_wal s) = wal_lines cd es @ take k (wal_line cd e)
         else wal_file (store_wal s) = wal_lines cd es))"

lemma replay_events_append:
  "replay_events d (es @ es') = and_then (replay_events d es) (\<lambda>d'. replay_events d' es')"
  by (induction d es rule: replay_events.induct) (auto simp: and_then_def split: sum.splits)

lemma store_ok_cut:
  assumes "queue_ok (store_data s)" "\<forall>e\<in>set es. codec_ok cd e" "replay_events (initial_data torn) es = Inr (store_data s)"
    and "codec_ok cd e" "apply_event (store_data s) e = Inr d'" "queue_ok d'"
    and "poisoned (store_wal s)" "wal_file (store_wal s) = wal_lines cd es @ take k (wal_line cd e)"
  shows "store_ok cd s"
proof -
  have "\<exists>e d' k. codec_ok cd e \<and> apply_event (store_data s) e = Inr d' \<and> queue_ok d' \<and>
      wal_file (store_wal s) = wal_lines cd es @ take k (wal_line cd e)"
    using assms(4-6,8) by blast
  then show ?thesis
    unfolding store_ok_def using assms(1-3,7) by (intro conjI exI[of _ torn] exI[of _ es]) simp_all
qed

lemma log_event_ok:
  assumes c: "codec_faithful cd" and s: "store_ok cd s"
    and e: "apply_event (store_data s) e = Inr d'" "queue_ok d'" and r: "log_event cd out e s = (s', r)"
  shows "store_ok cd s' \<and> (r = Inr () \<and> store_data s' = d' \<or> (\<exists>x. r = Inl x) \<and> store_data s' = store_data s)"
proof -
  from s obtain torn es where es: "queue_ok (store_data s)" "\<forall>e\<in>set es. codec_ok cd e"
      "replay_events (initial_data torn) es = Inr (store_data s)"
      and fl: "if poisoned (store_wal s)
         then \<exists>e d' k. codec_ok cd e \<and> apply_event (store_data s) e = Inr d' \<and> queue_ok d' \<and>
                wal_file (store_wal s) = wal_lines cd es @ take k (wal_line cd e)
         else wal_file (store_wal s) = wal_lines cd es"
    by (auto simp: store_ok_def)
  show ?thesis
  proof (cases "poisoned (store_wal s) \<or> encode cd e = None")
    case True
    then have "s' = s" "\<exists>x. r = Inl x" using r by (auto simp: log_event_def wal_append_def split: option.splits)
    then show ?thesis using s by simp
  next
    case False
    then obtain b where b: "encode cd e = Some b" and np: "\<not> poisoned (store_wal s)" by auto
    have co: "codec_ok cd e" using c b by (auto simp: codec_faithful_def codec_ok_def)
    have ln: "wal_line cd e = b @ [newline]" by (simp add: wal_line_def b)
    have fe: "wal_file (store_wal s) = wal_lines cd es" using fl np by simp
    show ?thesis
    proof (cases out)
      case AppendOk
      then have s': "store_data s' = d'" "wal_file (store_wal s') = wal_lines cd es @ wal_line cd e"
          "\<not> poisoned (store_wal s')" "r = Inr ()"
        using r e(1) b np fe ln by (auto simp: log_event_def wal_append_def Let_def)
      have "replay_events (initial_data torn) (es @ [e]) = Inr d'" using es(3) e(1) by (simp add: replay_events_append)
      then have "store_ok cd s'"
        unfolding store_ok_def using s' e(2) es(2) co
        by (intro conjI exI[of _ torn] exI[of _ "es @ [e]"]) auto
      then show ?thesis using s' by simp
    next
      case (WriteFailed k)
      then have s': "store_data s' = store_data s" "wal_file (store_wal s') = wal_lines cd es @ take k (wal_line cd e)"
          "poisoned (store_wal s')" "\<exists>x. r = Inl x"
        using r b np fe ln by (auto simp: log_event_def wal_append_def Let_def)
      then have "store_ok cd s'" using es e co by (intro store_ok_cut[of s' es cd torn e d' k]) simp_all
      then show ?thesis using s' by simp
    next
      case (SyncFailed k)
      then have s': "store_data s' = store_data s" "wal_file (store_wal s') = wal_lines cd es @ take k (wal_line cd e)"
          "poisoned (store_wal s')" "\<exists>x. r = Inl x"
        using r b np fe ln by (auto simp: log_event_def wal_append_def Let_def)
      then have "store_ok cd s'" using es e co by (intro store_ok_cut[of s' es cd torn e d' k]) simp_all
      then show ?thesis using s' by simp
    qed
  qed
qed

section \<open>Expired claims\<close>

text \<open>Refreshing ends the expired claims and touches nothing else.\<close>

definition job_refreshed :: "'p job_record \<Rightarrow> 'p job_record \<Rightarrow> bool" where
  "job_refreshed job job' \<longleftrightarrow> payload job' = payload job \<and> max_attempts job' = max_attempts job \<and>
     attempts job' = attempts job \<and> (active_claim job' \<noteq> None \<longrightarrow> job' = job)"

definition refreshed :: "'p queue_data \<Rightarrow> 'p queue_data \<Rightarrow> bool" where
  "refreshed d d' \<longleftrightarrow> next_job_number d' = next_job_number d \<and> next_claim_number d' = next_claim_number d \<and>
     idempotency_index d' = idempotency_index d \<and>
     (\<forall>i. rel_option job_refreshed (map_of (jobs d) i) (map_of (jobs d') i))"

lemma job_refreshed_refl [simp]: "job_refreshed job job"
  by (simp add: job_refreshed_def)

lemma refreshed_refl [simp]: "refreshed d d"
  by (simp add: refreshed_def option.rel_refl)

lemma refreshed_trans: "refreshed d d1 \<Longrightarrow> refreshed d1 d2 \<Longrightarrow> refreshed d d2"
proof -
  assume a: "refreshed d d1" and b: "refreshed d1 d2"
  have "rel_option job_refreshed (map_of (jobs d) i) (map_of (jobs d2) i)" for i
  proof -
    have "rel_option job_refreshed (map_of (jobs d) i) (map_of (jobs d1) i)"
      "rel_option job_refreshed (map_of (jobs d1) i) (map_of (jobs d2) i)"
      using a b by (simp_all add: refreshed_def)
    then show ?thesis
      by (cases "map_of (jobs d) i"; cases "map_of (jobs d1) i"; cases "map_of (jobs d2) i")
        (auto simp: job_refreshed_def)
  qed
  then show ?thesis using a b by (simp add: refreshed_def)
qed

lemma refreshedD:
  assumes "refreshed d d'"
  shows "map_of (jobs d') i = Some job' \<Longrightarrow> \<exists>job. map_of (jobs d) i = Some job \<and> job_refreshed job job'"
    and "map_of (jobs d') i = Some job' \<Longrightarrow> active_claim job' = Some l \<Longrightarrow> map_of (jobs d) i = Some job'"
    and "next_job_number d' = next_job_number d" "next_claim_number d' = next_claim_number d"
    and "idempotency_index d' = idempotency_index d"
proof -
  have r: "rel_option job_refreshed (map_of (jobs d) i) (map_of (jobs d') i)" using assms by (simp add: refreshed_def)
  then show "map_of (jobs d') i = Some job' \<Longrightarrow> \<exists>job. map_of (jobs d) i = Some job \<and> job_refreshed job job'"
    by (simp add: option_rel_Some2)
  show "map_of (jobs d') i = Some job' \<Longrightarrow> active_claim job' = Some l \<Longrightarrow> map_of (jobs d) i = Some job'"
    using r by (cases "map_of (jobs d) i") (auto simp: job_refreshed_def)
qed (use assms in \<open>simp_all add: refreshed_def\<close>)

definition expiring :: "'p queue_data \<Rightarrow> (string \<times> string \<times> bool) list \<Rightarrow> bool" where
  "expiring d xs \<longleftrightarrow> distinct (map fst xs) \<and>
     (\<forall>i tok ex. (i, tok, ex) \<in> set xs \<longrightarrow> (\<exists>job l. map_of (jobs d) i = Some job \<and> active_claim job = Some l \<and>
        cl_claim_token l = tok \<and> ex = (max_attempts job \<le> attempts job)))"

lemma expiringD:
  "expiring d xs \<Longrightarrow> (i, tok, ex) \<in> set xs \<Longrightarrow> \<exists>job l. map_of (jobs d) i = Some job \<and> active_claim job = Some l \<and>
        cl_claim_token l = tok \<and> ex = (max_attempts job \<le> attempts job)"
  by (simp add: expiring_def)

lemma expired_claims_expiring:
  assumes "queue_ok d" shows "expiring d (expired_claims d now)"
proof -
  have m: "distinct (map fst (jobs d))" using bt_ok_distinct queue_okD(1)[OF assms] by blast
  have "distinct (map fst (List.map_filter f js))" if "distinct (map fst js)" "\<And>x y. f x = Some y \<Longrightarrow> fst y = fst x"
    for js and f :: "string \<times> 'b job_record \<Rightarrow> (string \<times> string \<times> bool) option"
    using that(1)
  proof (induction js)
    case (Cons x js)
    have "fst ` set (List.map_filter f js) \<subseteq> fst ` set js"
      using that(2) by (force simp: List.map_filter_def)
    then show ?case using Cons that(2) by (auto simp: List.map_filter_def split: option.splits)
  qed (simp add: List.map_filter_def)
  from this[OF m, of "\<lambda>(i, job). case active_claim job of None \<Rightarrow> None
       | Some lease \<Rightarrow> if status job = Claimed \<and> cl_deadline_ms lease \<le> now
           then Some (i, cl_claim_token lease, max_attempts job \<le> attempts job) else None"]
  have "distinct (map fst (expired_claims d now))"
    unfolding expired_claims_def by (fastforce split: option.splits if_splits)
  moreover have "\<exists>job l. map_of (jobs d) i = Some job \<and> active_claim job = Some l \<and>
        cl_claim_token l = tok \<and> ex = (max_attempts job \<le> attempts job)"
    if "(i, tok, ex) \<in> set (expired_claims d now)" for i tok ex
    using that m by (auto simp: expired_claims_def List.map_filter_def split: option.splits if_splits)
  ultimately show ?thesis by (auto simp: expiring_def)
qed

lemma expiry_event_ok:
  assumes d: "queue_ok d" and x: "expiring d ((i, tok, ex) # xs)"
  obtains d' where "apply_event d (expiry_event now (i, tok, ex)) = Inr d'" "queue_ok d'" "refreshed d d'"
    "expiring d' xs" "\<And>job. map_of (jobs d') i = Some job \<Longrightarrow> active_claim job = None"
    "\<And>j. j \<noteq> i \<Longrightarrow> map_of (jobs d') j = map_of (jobs d) j"
proof -
  obtain job l where j: "map_of (jobs d) i = Some job" "active_claim job = Some l" "cl_claim_token l = tok"
      "ex = (max_attempts job \<le> attempts job)"
    using expiringD[OF x, of i tok ex] by auto
  have "expiry_event now (i, tok, ex) = DeadLettered i tok ''visibility_timeout'' True now \<or>
      (expiry_event now (i, tok, ex) = Released i tok ''visibility_timeout'' True now \<and> attempts job < max_attempts job)"
    using j(4) by (auto simp: expiry_event_def)
  then obtain d' new where n: "apply_event d (expiry_event now (i, tok, ex)) = Inr d'" "queue_ok d'"
      "map_of (jobs d') = (map_of (jobs d))(i \<mapsto> new)" "active_claim new = None"
      "attempts new = attempts job" "max_attempts new = max_attempts job" "payload new = payload job"
      "next_claim_number d' = next_claim_number d" "next_job_number d' = next_job_number d"
      "idempotency_index d' = idempotency_index d"
    using apply_end_ok[OF d j(1-3), of "expiry_event now (i, tok, ex)" now "''visibility_timeout''" True] by metis
  have "job_refreshed job new" using n(4-7) by (simp add: job_refreshed_def)
  then have "refreshed d d'" using n(3,8-10) j(1) by (simp add: refreshed_def option.rel_refl)
  moreover have "i \<notin> fst ` set xs" using x by (simp add: expiring_def)
  then have "map_of (jobs d') i' = map_of (jobs d) i'" if "(i', tok', ex') \<in> set xs" for i' tok' ex'
    using that n(3) by force
  then have "expiring d' xs" using x expiringD[OF x] by (simp add: expiring_def)
  ultimately show ?thesis using that n by simp
qed

lemma log_expiry_events:
  assumes c: "codec_faithful cd" and s: "store_ok cd s" and x: "expiring (store_data s) xs"
    and r: "log_events cd out k (map (expiry_event now) xs) s = (s', r)"
  shows "store_ok cd s' \<and> refreshed (store_data s) (store_data s') \<and>
     (is_ok r \<longrightarrow> (\<forall>i\<in>fst ` set xs. \<forall>job. map_of (jobs (store_data s')) i = Some job \<longrightarrow> active_claim job = None)) \<and>
     (\<forall>j. j \<notin> fst ` set xs \<longrightarrow> map_of (jobs (store_data s')) j = map_of (jobs (store_data s)) j)"
  using s x r
proof (induction xs arbitrary: k s)
  case (Cons y xs)
  obtain i tok ex where y: "y = (i, tok, ex)" by (cases y)
  have q: "queue_ok (store_data s)" using Cons.prems(1) by (simp add: store_ok_def)
  obtain d1 where d1: "apply_event (store_data s) (expiry_event now y) = Inr d1" "queue_ok d1" "refreshed (store_data s) d1"
    "expiring d1 xs" "\<And>job. map_of (jobs d1) i = Some job \<Longrightarrow> active_claim job = None"
    "\<And>j. j \<noteq> i \<Longrightarrow> map_of (jobs d1) j = map_of (jobs (store_data s)) j"
    using expiry_event_ok[OF q Cons.prems(2)[unfolded y], of now] y by metis
  obtain s1 r1 where l: "log_event cd (out k) (expiry_event now y) s = (s1, r1)"
    by (cases "log_event cd (out k) (expiry_event now y) s")
  note L = log_event_ok[OF c Cons.prems(1) d1(1,2) l]
  show ?case
  proof (cases r1)
    case (Inl e)
    then show ?thesis using L Cons.prems(3) l by auto
  next
    case (Inr u)
    then have s1: "store_ok cd s1" "store_data s1 = d1" using L by auto
    have "log_events cd out (Suc k) (map (expiry_event now) xs) s1 = (s', r)" using Cons.prems(3) l Inr by simp
    from Cons.IH[OF s1(1) _ this] have IH: "store_ok cd s'" "refreshed d1 (store_data s')"
      "is_ok r \<longrightarrow> (\<forall>i\<in>fst ` set xs. \<forall>job. map_of (jobs (store_data s')) i = Some job \<longrightarrow> active_claim job = None)"
      "\<forall>j. j \<notin> fst ` set xs \<longrightarrow> map_of (jobs (store_data s')) j = map_of (jobs d1) j"
      using s1(2) d1(4) by auto
    have "active_claim job = None" if job: "map_of (jobs (store_data s')) i = Some job" for job
    proof -
      show ?thesis using refreshedD(2)[OF IH(2) job] d1(5)[of job] by (cases "active_claim job") auto
    qed
    then show ?thesis using IH refreshed_trans[OF d1(3) IH(2)] y d1(6) by auto
  qed
qed simp

lemma refresh_ok:
  assumes c: "codec_faithful cd" and s: "store_ok cd s" and r: "refresh_expired_claims cd out now s = (s', r)"
  shows "store_ok cd s'" "refreshed (store_data s) (store_data s')"
    and "is_ok r \<Longrightarrow> map_of (jobs (store_data s')) i = Some job \<Longrightarrow> active_claim job = Some l \<Longrightarrow> now < cl_deadline_ms l"
    and "map_of (jobs (store_data s)) i = Some job \<Longrightarrow> active_claim job = None \<or> (\<exists>l. active_claim job = Some l \<and> now < cl_deadline_ms l)
      \<Longrightarrow> map_of (jobs (store_data s')) i = Some job"
proof -
  have q: "queue_ok (store_data s)" using s by (simp add: store_ok_def)
  note L = log_expiry_events[OF c s expired_claims_expiring[OF q] r[unfolded refresh_expired_claims_def]]
  then show "store_ok cd s'" "refreshed (store_data s) (store_data s')" by auto
  show "map_of (jobs (store_data s')) i = Some job"
    if j: "map_of (jobs (store_data s)) i = Some job"
      "active_claim job = None \<or> (\<exists>l. active_claim job = Some l \<and> now < cl_deadline_ms l)"
  proof -
    have u: "job' = job" if "(i, job') \<in> set (jobs (store_data s))" for job'
      using that j(1) bt_ok_distinct[OF queue_okD(1)[OF q]] by (metis map_of_eq_Some_iff option.inject)
    have "i \<notin> fst ` set (expired_claims (store_data s) now)"
      using j(2) by (auto simp: expired_claims_def List.map_filter_def dest!: u split: option.splits if_splits)
    then show ?thesis using L j(1) by simp
  qed
  show "now < cl_deadline_ms l" if a: "is_ok r" "map_of (jobs (store_data s')) i = Some job" "active_claim job = Some l"
  proof (rule ccontr)
    assume n: "\<not> now < cl_deadline_ms l"
    have j: "map_of (jobs (store_data s)) i = Some job" using refreshedD(2) L a(2,3) by blast
    then have "status job = Claimed" using queue_okD(2)[OF q] a(3) by (auto simp: job_ok_def)
    then have "(i, cl_claim_token l, max_attempts job \<le> attempts job) \<in> set (expired_claims (store_data s) now)"
      using map_of_SomeD[OF j] a(3) n
      by (force simp: expired_claims_def List.map_filter_def)
    then show False using L a by force
  qed
qed

section \<open>Operations\<close>

definition step_ok :: "'p codec \<Rightarrow> ('p, 'a) store_step \<Rightarrow> ('p store \<Rightarrow> 'a \<Rightarrow> bool) \<Rightarrow> bool" where
  "step_ok cd m Q \<longleftrightarrow> store_ok cd (fst m) \<and> (\<forall>x. snd m = Inr x \<longrightarrow> Q (fst m) x)"

lemma step_okI_err [simp]: "step_ok cd (s, Inl e) Q \<longleftrightarrow> store_ok cd s"
  by (simp add: step_ok_def)

lemma step_okI_ret [simp]: "step_ok cd (s, Inr x) Q \<longleftrightarrow> store_ok cd s \<and> Q s x"
  by (simp add: step_ok_def)

lemma step_bind:
  assumes "step_ok cd m P" "\<And>s x. store_ok cd s \<Longrightarrow> P s x \<Longrightarrow> step_ok cd (f s x) Q"
  shows "step_ok cd (bind_store m f) Q"
  using assms by (cases m; cases "snd m") (auto simp: step_ok_def)

lemma step_guard: "store_ok cd s \<Longrightarrow> (\<not> b \<Longrightarrow> step_ok cd m Q) \<Longrightarrow> step_ok cd (if b then (s, Inl e) else m) Q"
  by simp

lemma step_check: "store_ok cd s \<Longrightarrow> step_ok cd (check_store r s) (\<lambda>s' _. s' = s \<and> is_ok r)"
  by (auto simp: step_ok_def check_store_def)

lemma step_log:
  assumes "codec_faithful cd" "store_ok cd s" "apply_event (store_data s) e = Inr d'" "queue_ok d'"
  shows "step_ok cd (log_event cd out e s) (\<lambda>s' _. store_data s' = d')"
  using log_event_ok[OF assms] by (cases "log_event cd out e s") (auto simp: step_ok_def)

lemma step_refresh:
  assumes "codec_faithful cd" "store_ok cd s"
  shows "step_ok cd (refresh_expired_claims cd out now s) (\<lambda>s' _. refreshed (store_data s) (store_data s') \<and>
     (\<forall>i job l. map_of (jobs (store_data s')) i = Some job \<longrightarrow> active_claim job = Some l \<longrightarrow> now < cl_deadline_ms l) \<and>
     (\<forall>i job. map_of (jobs (store_data s)) i = Some job \<longrightarrow>
        active_claim job = None \<or> (\<exists>l. active_claim job = Some l \<and> now < cl_deadline_ms l) \<longrightarrow>
        map_of (jobs (store_data s')) i = Some job))"
proof -
  obtain s' r where r: "refresh_expired_claims cd out now s = (s', r)" by (cases "refresh_expired_claims cd out now s")
  note R = refresh_ok[OF assms r]
  show ?thesis
  proof (cases r)
    case (Inl e)
    then show ?thesis using R(1) by (simp add: r)
  next
    case (Inr k)
    show ?thesis
      unfolding r Inr step_okI_ret by (intro conjI allI impI R(1,2); (rule R(4) | rule R(3)); (assumption | simp add: Inr))
  qed
qed

lemma store_ok_queue: "store_ok cd s \<Longrightarrow> queue_ok (store_data s)"
  by (simp add: store_ok_def)

lemma step_enqueue:
  assumes c: "codec_faithful cd" and s: "store_ok cd s" and n: "next_job_number (store_data s) < u64_max"
  shows "step_ok cd (enqueue cd out req now s) (\<lambda>s' r.
     idempotency_index (store_data s') (er_idempotency_key req) = Some (job_id (er_job r)) \<and>
     map_of (jobs (store_data s')) (job_id (er_job r)) = Some (er_job r) \<and>
     payload (er_job r) = er_payload req \<and> max_attempts (er_job r) = er_max_attempts req)"
  unfolding enqueue_def
proof (rule step_bind[OF step_check[OF s]], goal_cases)
  case (1 s0 _)
  then have [simp]: "s0 = s" by simp
  note q = store_ok_queue[OF s]
  let ?k = "er_idempotency_key req" and ?m = "er_max_attempts req" and ?d = "store_data s"
  show ?case
  proof (cases "idempotency_index ?d ?k")
    case (Some i)
    then obtain job where "map_of (jobs ?d) i = Some job" "job_id job = i"
      using queue_okD(2,3)[OF q] by (metis job_ok_def)
    then show ?thesis using Some s by (auto split: option.splits)
  next
    case None
    show ?thesis
    proof (cases "1 \<le> ?m \<and> ?m \<le> MAX_ATTEMPTS")
      case True
      obtain d' where d': "apply_event ?d (Enqueued (job_name (next_job_number ?d)) ?k (er_payload req) ?m now) = Inr d'" "queue_ok d'"
        "idempotency_index d' = (idempotency_index ?d)(?k \<mapsto> job_name (next_job_number ?d))"
        "map_of (jobs d') = (map_of (jobs ?d))(job_name (next_job_number ?d) \<mapsto>
           the (enqueued_job (Enqueued (job_name (next_job_number ?d)) ?k (er_payload req) ?m now)))"
        using apply_enqueued_ok[OF q n None] True by metis
      have "step_ok cd (bind_store (log_event cd (out 0)
            (Enqueued (job_name (next_job_number ?d)) ?k (er_payload req) ?m now) s) (\<lambda>s _.
              (s, case enqueued_job (Enqueued (job_name (next_job_number ?d)) ?k (er_payload req) ?m now) of None \<Rightarrow> Inl QStorage
                     | Some job \<Rightarrow> Inr \<lparr>created = True, er_job = job\<rparr>)))
         (\<lambda>s' r. idempotency_index (store_data s') ?k = Some (job_id (er_job r)) \<and>
           map_of (jobs (store_data s')) (job_id (er_job r)) = Some (er_job r) \<and>
           payload (er_job r) = er_payload req \<and> max_attempts (er_job r) = ?m)"
        by (rule step_bind[OF step_log[OF c s d'(1,2)]]) (simp add: enqueued_job_def d'(3,4))
      then show ?thesis using True None s by (auto simp: Let_def split: option.splits)
    qed (use s in auto)
  qed
qed

lemma first_pending_least:
  assumes "queue_ok d" "first_pending d = Some i"
  obtains job where "map_of (jobs d) i = Some job" "status job = Pending"
    "\<And>j job'. map_of (jobs d) j = Some job' \<Longrightarrow> status job' = Pending \<Longrightarrow> i \<le> j"
proof -
  obtain job where "find (\<lambda>(i, job). status job = Pending) (jobs d) = Some (i, job)"
    using assms(2) by (auto simp: first_pending_def)
  then show ?thesis
    using btree.first_item_least[OF queue_okD(1)[OF assms(1)], of "\<lambda>job. status job = Pending" i job] that
    by (simp add: bt_items_def)
qed

lemma first_pending_none:
  assumes "queue_ok d" "first_pending d = None" "map_of (jobs d) i = Some job"
  shows "status job \<noteq> Pending"
  using assms(2) map_of_SomeD[OF assms(3)] by (auto simp: first_pending_def find_None_iff)

definition claim_granted :: "'p queue_data \<Rightarrow> claim_request \<Rightarrow> nat \<Rightarrow> 'p store \<Rightarrow> 'p claim_response option \<Rightarrow> bool" where
  "claim_granted d req now s' r \<longleftrightarrow> (case r of
     None \<Rightarrow> (\<forall>i job. map_of (jobs (store_data s')) i = Some job \<longrightarrow> status job \<noteq> Pending)
   | Some c \<Rightarrow> (\<exists>job. map_of (jobs (store_data s')) (cs_job_id c) = Some job \<and> active_claim job =
         Some \<lparr>cl_consumer_id = cr_consumer_id req, cl_claim_token = cs_claim_token c, cl_deadline_ms = cs_deadline_ms c\<rparr> \<and>
         payload job = cs_payload c \<and> attempts job = cs_attempt c \<and> max_attempts job = cs_max_attempts c \<and>
         cs_attempt c \<le> cs_max_attempts c) \<and>
       (\<forall>j job. map_of (jobs (store_data s')) j = Some job \<longrightarrow> status job = Pending \<longrightarrow> cs_job_id c < j) \<and>
       cs_claim_token c = claim_name (next_claim_number d) \<and>
       (\<forall>job l. map_of (jobs d) (cs_job_id c) = Some job \<longrightarrow> active_claim job = Some l \<longrightarrow> cl_deadline_ms l \<le> now))"

lemma step_claim:
  assumes c: "codec_faithful cd" and s: "store_ok cd s" and n: "next_claim_number (store_data s) < u64_max"
  shows "step_ok cd (claim cd out req now s) (claim_granted (store_data s) req now)"
  unfolding claim_def
proof (rule step_bind[OF step_check[OF s]], goal_cases)
  case (1 s0 _)
  then have s0: "s0 = s" by simp
  show ?case
    unfolding s0
  proof (rule step_guard[OF s], rule step_bind[OF step_refresh[OF c s]], elim conjE, goal_cases)
    case (1 s1 k)
    note 1 = 1(2-)
    note q = store_ok_queue[OF 1(1)] and R = refreshedD[OF 1(2)]
    show ?case
    proof (cases "first_pending (store_data s1)")
      case None
      then show ?thesis using 1(1) first_pending_none[OF q None] by (simp add: claim_granted_def)
    next
      case (Some i)
      then obtain job where j: "map_of (jobs (store_data s1)) i = Some job" "status job = Pending"
        "\<And>j job'. map_of (jobs (store_data s1)) j = Some job' \<Longrightarrow> status job' = Pending \<Longrightarrow> i \<le> j"
        using first_pending_least[OF q] by metis
      have jo: "attempts job < max_attempts job" "max_attempts job \<le> MAX_ATTEMPTS" "active_claim job = None"
        using queue_okD(2)[OF q j(1)] j(2) by (auto simp: job_ok_def)
      have at: "sat_add32 (attempts job) (Suc 0) = Suc (attempts job)"
        using jo by (simp add: sat_add32_def MAX_ATTEMPTS_def u32_max_def)
      have "next_claim_number (store_data s1) < u64_max" using n R(4) by simp
      from apply_claimed_ok[OF q j(1,2) this, of "cr_consumer_id req" "sat_add64 now (cr_visibility_timeout_ms req)" now]
      obtain d' where d': "apply_event (store_data s1) (ClaimedEv i (cr_consumer_id req)
            (claim_name (next_claim_number (store_data s1))) (sat_add64 now (cr_visibility_timeout_ms req)) (sat_add32 (attempts job) 1) now) = Inr d'"
          "queue_ok d'" "map_of (jobs d') = (map_of (jobs (store_data s1)))(i \<mapsto> job\<lparr>status := Claimed, attempts := Suc (attempts job),
             active_claim := Some \<lparr>cl_consumer_id = cr_consumer_id req, cl_claim_token = claim_name (next_claim_number (store_data s1)),
               cl_deadline_ms = sat_add64 now (cr_visibility_timeout_ms req)\<rparr>, updated_at_ms := now\<rparr>)"
        by metis
      have old: "cl_deadline_ms l \<le> now" if "map_of (jobs (store_data s)) i = Some job'" "active_claim job' = Some l" for job' l
        using 1(4) that j(1) jo(3) by (metis linorder_not_less option.inject option.distinct(1))
      have lt: "i < j'" if "j' \<noteq> i" "map_of (jobs (store_data s1)) j' = Some job'" "status job' = Pending" for j' job'
        using j(3)[OF that(2,3)] that(1) by simp
      show ?thesis unfolding Some j(1) option.case Let_def
        by (rule step_bind[OF step_log[OF c 1(1) d'(1,2)]])
          (use old lt jo(1) in \<open>simp add: d'(3) claim_granted_def R(4) at\<close>)
    qed
  qed
qed

definition live_claim :: "'p queue_data \<Rightarrow> string \<Rightarrow> string \<Rightarrow> string \<Rightarrow> nat \<Rightarrow> 'p job_record \<Rightarrow> bool" where
  "live_claim d i consumer tok now job \<longleftrightarrow> map_of (jobs d) i = Some job \<and>
     (\<exists>deadline. active_claim job = Some \<lparr>cl_consumer_id = consumer, cl_claim_token = tok, cl_deadline_ms = deadline\<rparr> \<and>
        now < deadline)"

lemma require_active_claimD:
  assumes "is_ok (require_active_claim d i consumer tok)"
  obtains job l where "map_of (jobs d) i = Some job" "active_claim job = Some l" "cl_consumer_id l = consumer" "cl_claim_token l = tok"
  using assms by (auto simp: require_active_claim_def split: option.splits if_splits)

lemma step_require:
  assumes s: "store_ok cd s1" and r: "refreshed d (store_data s1)"
    "\<forall>i job l. map_of (jobs (store_data s1)) i = Some job \<longrightarrow> active_claim job = Some l \<longrightarrow> now < cl_deadline_ms l"
  shows "step_ok cd (check_store (require_active_claim (store_data s1) i consumer tok) s1)
    (\<lambda>s' _. s' = s1 \<and> (\<exists>job. live_claim (store_data s1) i consumer tok now job \<and> live_claim d i consumer tok now job))"
proof -
  have "\<exists>job. live_claim (store_data s1) i consumer tok now job \<and> live_claim d i consumer tok now job"
    if a: "is_ok (require_active_claim (store_data s1) i consumer tok)"
  proof -
    from require_active_claimD[OF a] obtain job l where j: "map_of (jobs (store_data s1)) i = Some job" "active_claim job = Some l"
      "cl_consumer_id l = consumer" "cl_claim_token l = tok" .
    moreover have "map_of (jobs d) i = Some job" using refreshedD(2)[OF r(1) j(1,2)] .
    moreover have "now < cl_deadline_ms l" using r(2) j(1,2) by blast
    ultimately show ?thesis by (intro exI[of _ job]) (auto simp: live_claim_def intro: exI[of _ "cl_deadline_ms l"])
  qed
  then show ?thesis using step_check[OF s] by (auto simp: step_ok_def)
qed

lemma step_end:
  assumes c: "codec_faithful cd" and s: "store_ok cd s" and l: "live_claim (store_data s) i consumer tok now job"
    and e: "e = Acknowledged i tok t \<or> e = DeadLettered i tok r x t \<or> (e = Released i tok r x t \<and> attempts job < max_attempts job)"
  shows "step_ok cd (bind_store (log_event cd out e s) (\<lambda>s _. clone_job i s)) (\<lambda>s' job'.
     map_of (jobs (store_data s')) i = Some job' \<and> active_claim job' = None \<and> attempts job' = attempts job \<and>
     max_attempts job' = max_attempts job \<and> payload job' = payload job \<and>
     status job' = (case e of Acknowledged _ _ _ \<Rightarrow> Completed | DeadLettered _ _ _ _ _ \<Rightarrow> DeadLetter | _ \<Rightarrow> Pending))"
proof -
  obtain l where j: "map_of (jobs (store_data s)) i = Some job" "active_claim job = Some l" "cl_claim_token l = tok"
    using assms(3) by (auto simp: live_claim_def)
  from apply_end_ok[OF store_ok_queue[OF s] j e] obtain d' new where
    d': "apply_event (store_data s) e = Inr d'" "queue_ok d'" "map_of (jobs d') = (map_of (jobs (store_data s)))(i \<mapsto> new)"
    "active_claim new = None" "status new = (case e of Acknowledged _ _ _ \<Rightarrow> Completed | DeadLettered _ _ _ _ _ \<Rightarrow> DeadLetter | _ \<Rightarrow> Pending)"
    "attempts new = attempts job" "max_attempts new = max_attempts job" "payload new = payload job" by metis
  show ?thesis
    by (rule step_bind[OF step_log[OF c s d'(1,2)]]) (use d'(3-) in \<open>simp add: clone_job_def\<close>)
qed

lemma step_mono: "step_ok cd m P \<Longrightarrow> (\<And>s x. P s x \<Longrightarrow> Q s x) \<Longrightarrow> step_ok cd m Q"
  by (auto simp: step_ok_def)

lemma step_bind_check:
  "store_ok cd s \<Longrightarrow> (is_ok r \<Longrightarrow> step_ok cd (f s ()) Q) \<Longrightarrow> step_ok cd (bind_store (check_store r s) f) Q"
  by (rule step_bind[OF step_check]) auto

lemma step_live:
  assumes c: "codec_faithful cd" and s: "store_ok cd s"
    and f: "\<And>s1 k job. store_ok cd s1 \<Longrightarrow> live_claim (store_data s1) i consumer tok now job \<Longrightarrow>
        live_claim (store_data s) i consumer tok now job \<Longrightarrow> step_ok cd (f k s1) Q"
  shows "step_ok cd (bind_store (refresh_expired_claims cd out now s) (\<lambda>s k.
     bind_store (check_store (require_active_claim (store_data s) i consumer tok) s) (\<lambda>s _. f k s))) Q"
proof (rule step_bind[OF step_refresh[OF c s]], elim conjE, goal_cases)
  case (1 s1 k)
  show ?case by (rule step_bind[OF step_require[OF 1(1-3)]]) (use f in auto)
qed

lemma step_acknowledge:
  assumes c: "codec_faithful cd" and s: "store_ok cd s"
  shows "step_ok cd (acknowledge cd out i req now s) (\<lambda>s' job'.
     (\<exists>job. live_claim (store_data s) i (ar_consumer_id req) (ar_claim_token req) now job \<and> payload job' = payload job) \<and>
     status job' = Completed \<and> active_claim job' = None \<and> map_of (jobs (store_data s')) i = Some job')"
  unfolding acknowledge_def
proof (rule step_bind_check[OF s], rule step_bind_check[OF s], rule step_live[OF c s], goal_cases)
  case (1 s1 k job)
  show ?case
    by (rule step_mono[OF step_end[OF c 1(3,4), of "Acknowledged i (ar_claim_token req) now" now]]) (use 1(5) in auto)
qed

lemma step_fail:
  assumes c: "codec_faithful cd" and s: "store_ok cd s"
  shows "step_ok cd (fail cd out i req now s) (\<lambda>s' job'.
     (\<exists>job. live_claim (store_data s) i (fr_consumer_id req) (fr_claim_token req) now job \<and> payload job' = payload job \<and>
        status job' = (if max_attempts job \<le> attempts job then DeadLetter else Pending)) \<and>
     active_claim job' = None \<and> map_of (jobs (store_data s')) i = Some job')"
  unfolding fail_def
proof (rule step_bind_check[OF s], rule step_bind_check[OF s], rule step_bind_check[OF s], rule step_live[OF c s], goal_cases)
  case (1 s1 k job)
  let ?e = "if max_attempts job \<le> attempts job then DeadLettered i (fr_claim_token req) (fr_error req) False now
      else Released i (fr_claim_token req) (fr_error req) False now"
  have j: "map_of (jobs (store_data s1)) i = Some job" using 1(5) by (simp add: live_claim_def)
  show ?case unfolding j option.case
    by (rule step_mono[OF step_end[OF c 1(4,5), of ?e now "fr_error req" False]]) (use 1(6) in \<open>auto split: if_splits\<close>)
qed

lemma step_get_job:
  assumes "codec_faithful cd" "store_ok cd s"
  shows "step_ok cd (get_job cd out i now s) (\<lambda>s' job. map_of (jobs (store_data s')) i = Some job)"
  unfolding get_job_def
  by (rule step_bind[OF step_refresh[OF assms]]) (auto simp: clone_job_def split: option.splits)

lemma step_dead_letters:
  assumes "codec_faithful cd" "store_ok cd s"
  shows "step_ok cd (dead_letters cd out now s) (\<lambda>s' js. \<forall>job\<in>set js. status job = DeadLetter)"
  unfolding dead_letters_def by (rule step_bind[OF step_refresh[OF assms]]) auto

lemma step_snapshot:
  assumes "codec_faithful cd" "store_ok cd s"
  shows "step_ok cd (snapshot cd out now s) (\<lambda>s' q. q = snapshot_of s')"
  unfolding snapshot_def by (rule step_bind[OF step_refresh[OF assms]]) auto

section \<open>Recovery\<close>

text \<open>Two states of the queue that differ at most in the count of discarded torn tails.\<close>

definition same_data :: "'p queue_data \<Rightarrow> 'p queue_data \<Rightarrow> bool" where
  "same_data d d' \<longleftrightarrow> d\<lparr>torn_tail_records_discarded := 0\<rparr> = d'\<lparr>torn_tail_records_discarded := 0\<rparr>"

lemma transition_torn [simp]:
  "transition_claimed_job (d\<lparr>torn_tail_records_discarded := x\<rparr>) i tok = transition_claimed_job d i tok"
  by (simp add: transition_claimed_job_def)

lemma put_torn [simp]:
  "put_job i job (d\<lparr>torn_tail_records_discarded := x\<rparr>) = (put_job i job d)\<lparr>torn_tail_records_discarded := x\<rparr>"
  by (simp add: put_job_def)

lemma apply_torn:
  "apply_event (d\<lparr>torn_tail_records_discarded := x\<rparr>) e =
   map_sum id (\<lambda>d. d\<lparr>torn_tail_records_discarded := x\<rparr>) (apply_event d e)"
  by (cases e) (simp_all add: Let_def and_then_def put_job_def split: option.split sum.split)

lemma replay_torn:
  "replay_events (d\<lparr>torn_tail_records_discarded := x\<rparr>) es =
   map_sum id (\<lambda>d. d\<lparr>torn_tail_records_discarded := x\<rparr>) (replay_events d es)"
  by (induction es arbitrary: d) (auto simp: apply_torn and_then_def split: sum.split)

lemma initial_torn:
  "initial_data torn = (initial_data torn')\<lparr>torn_tail_records_discarded := if torn then 1 else 0\<rparr>"
  by (simp add: initial_data_def)

lemma queue_ok_torn [simp]: "queue_ok (d\<lparr>torn_tail_records_discarded := x\<rparr>) = queue_ok d"
  by (simp add: queue_ok_def job_ok_def count_status_def)

lemma same_data_refl [simp]: "same_data d (d\<lparr>torn_tail_records_discarded := x\<rparr>)"
  by (simp add: same_data_def)

lemma replay_initial:
  assumes "replay_events (initial_data torn) es = Inr d" "queue_ok d"
  obtains d' where "replay_events (initial_data torn') es = Inr d'" "same_data d d'" "queue_ok d'"
  using assms by (metis initial_torn replay_torn map_sum.simps(2) same_data_refl queue_ok_torn)

text \<open>Opening a log of complete lines and at most one torn one.\<close>

lemma open_lines:
  assumes "\<forall>e\<in>set es. codec_ok cd e" "newline \<notin> set t" "length (wal_lines cd es) \<le> u64_max"
    and r: "replay_events (initial_data torn) es = Inr d" "queue_ok d"
  obtains s' where "store_open cd (wal_lines cd es @ t) = Inr s'" "same_data d (store_data s')" "store_ok cd s'"
    "\<not> poisoned (store_wal s')"
proof -
  obtain d' where d': "replay_events (initial_data (t \<noteq> [])) es = Inr d'" "same_data d d'" "queue_ok d'"
    using replay_initial[OF r] .
  have u: "u64_of_len (length (wal_lines cd es)) = length (wal_lines cd es)" using assms(3) by (simp add: u64_of_len_def)
  define s' where "s' = \<lparr>store_wal = \<lparr>wal_file = wal_lines cd es, wal_bytes = length (wal_lines cd es),
     wal_events = u64_of_len (length es), poisoned = False\<rparr>, store_data = d'\<rparr>"
  have "store_open cd (wal_lines cd es @ t) = Inr s'"
    using d'(1) by (simp add: store_open_def wal_open_def replay_lines[OF assms(1,2)] u and_then_def s'_def)
  moreover have "store_ok cd s'" using d' assms(1) by (auto simp: store_ok_def s'_def)
  ultimately show ?thesis using that d'(2) by (simp add: s'_def)
qed

lemma store_ok_reopen:
  assumes s: "store_ok cd s" and l: "length (wal_file (store_wal s)) \<le> u64_max"
  obtains s' where "store_open cd (wal_file (store_wal s)) = Inr s'" "store_ok cd s'" "\<not> poisoned (store_wal s')"
    "same_data (store_data s) (store_data s') \<or>
       poisoned (store_wal s) \<and> (\<exists>e d'. apply_event (store_data s) e = Inr d' \<and> same_data d' (store_data s'))"
proof -
  from s obtain torn es where q: "queue_ok (store_data s)" and es: "\<forall>e\<in>set es. codec_ok cd e"
      and rp: "replay_events (initial_data torn) es = Inr (store_data s)"
      and fl: "if poisoned (store_wal s)
         then \<exists>e d' k. codec_ok cd e \<and> apply_event (store_data s) e = Inr d' \<and> queue_ok d' \<and>
                wal_file (store_wal s) = wal_lines cd es @ take k (wal_line cd e)
         else wal_file (store_wal s) = wal_lines cd es"
    by (auto simp: store_ok_def)
  have le: "length (wal_lines cd es) \<le> u64_max" using fl l by (auto split: if_splits)
  show ?thesis
  proof (cases "poisoned (store_wal s)")
    case False
    then have "wal_file (store_wal s) = wal_lines cd es @ []" using fl by simp
    then show ?thesis using open_lines[OF es _ le rp q, of "[]"] that by auto
  next
    case True
    then obtain e d' k where e: "codec_ok cd e" "apply_event (store_data s) e = Inr d'" "queue_ok d'"
      and f: "wal_file (store_wal s) = wal_lines cd es @ take k (wal_line cd e)" using fl by auto
    show ?thesis
    proof (cases "k < length (wal_line cd e)")
      case True
      have "newline \<notin> set (take k (wal_line cd e))"
        using e(1) True by (auto simp: codec_ok_def wal_line_def dest: in_set_takeD)
      from open_lines[OF es this le rp q] show ?thesis using that f by metis
    next
      case False
      then have f': "wal_file (store_wal s) = wal_lines cd (es @ [e]) @ []" using f by simp
      have "replay_events (initial_data torn) (es @ [e]) = Inr d'" using rp e(2) by (simp add: replay_events_append and_then_def)
      from open_lines[OF _ _ _ this e(3), of cd "[]"] es e(1) l f'
      obtain s' where "store_open cd (wal_file (store_wal s)) = Inr s'" "same_data d' (store_data s')" "store_ok cd s'"
        "\<not> poisoned (store_wal s')" by auto
      then show ?thesis using that e(2) True \<open>poisoned (store_wal s)\<close> by blast
    qed
  qed
qed

section \<open>Reachable stores\<close>

text \<open>A store opened on an empty log, after any sequence of operations, each append ending in any of the
  ways it can end, and reopenings of the file the store has left.\<close>

inductive queue_reachable :: "'p codec \<Rightarrow> 'p store \<Rightarrow> bool" for cd where
  opened: "store_open cd [] = Inr s \<Longrightarrow> queue_reachable cd s"
| reopened: "queue_reachable cd s \<Longrightarrow> length (wal_file (store_wal s)) \<le> u64_max \<Longrightarrow> store_open cd (wal_file (store_wal s)) = Inr s' \<Longrightarrow> queue_reachable cd s'"
| enqueued: "queue_reachable cd s \<Longrightarrow> next_job_number (store_data s) < u64_max \<Longrightarrow>
     queue_reachable cd (fst (enqueue cd out erq now s))"
| claimed: "queue_reachable cd s \<Longrightarrow> next_claim_number (store_data s) < u64_max \<Longrightarrow>
     queue_reachable cd (fst (claim cd out crq now s))"
| acknowledged: "queue_reachable cd s \<Longrightarrow> queue_reachable cd (fst (acknowledge cd out i arq now s))"
| failed: "queue_reachable cd s \<Longrightarrow> queue_reachable cd (fst (fail cd out i frq now s))"
| looked_up: "queue_reachable cd s \<Longrightarrow> queue_reachable cd (fst (get_job cd out i now s))"
| listed: "queue_reachable cd s \<Longrightarrow> queue_reachable cd (fst (dead_letters cd out now s))"
| inspected: "queue_reachable cd s \<Longrightarrow> queue_reachable cd (fst (snapshot cd out now s))"

lemma step_ok_fst: "step_ok cd m Q \<Longrightarrow> store_ok cd (fst m)"
  by (simp add: step_ok_def)

lemma open_empty: "store_open cd [] = Inr s \<Longrightarrow> store_ok cd s"
  using open_lines[of "[]" cd "[]" False "initial_data False"] initial_data_ok by auto

lemma reachable_store_ok:
  assumes "queue_reachable cd s" "codec_faithful cd"
  shows "store_ok cd s"
  using assms
proof (induction rule: queue_reachable.induct)
  case (opened s)
  show ?case using open_empty[OF opened(1)] .
next
  case (reopened s s')
  then show ?case using store_ok_reopen[of cd s] by (metis sum.inject(2))
qed (blast intro: step_ok_fst step_enqueue step_claim step_acknowledge step_fail step_get_job step_dead_letters step_snapshot)+

end
