(* ===== verification/Batch_Queue_Service.thy ===== *)
theory Batch_Queue_Service
  imports Batch_Queue_Safety
begin

text \<open>
  The service around the store: the HTTP handlers of \<open>lib.rs\<close>, as the status and body each
  answers with, and the exporter of \<open>metrics.rs\<close>, whose gauges and counters are refreshed from the
  store's scalar snapshot before every scrape.
\<close>

section \<open>Handlers\<close>

text \<open>A response is a status with a body, a bare status, or the status and code of an error.  The
  request arrives decoded and the clock is an argument.\<close>

datatype 'b reply = Reply nat 'b | NoContent nat | ErrorReply nat string

definition error_reply :: "queue_error \<Rightarrow> 'b reply" where
  "error_reply e = ErrorReply (queue_error_status e) (queue_error_code e)"

definition respond :: "('a \<Rightarrow> 'b reply) \<Rightarrow> ('p, 'a) store_step \<Rightarrow> 'p store \<times> 'b reply" where
  "respond f m = (case m of (s, Inl e) \<Rightarrow> (s, error_reply e) | (s, Inr x) \<Rightarrow> (s, f x))"

definition default_max_attempts :: nat where "default_max_attempts = 3"

definition default_visibility_timeout_ms :: nat where "default_visibility_timeout_ms = 30000"

definition handle_enqueue ::
  "'p codec \<Rightarrow> (nat \<Rightarrow> append_outcome) \<Rightarrow> 'p enqueue_request \<Rightarrow> nat \<Rightarrow> 'p store \<Rightarrow> 'p store \<times> 'p enqueue_response reply" where
  "handle_enqueue cd out req now s =
     respond (\<lambda>r. Reply (if created r then 201 else 200) r) (enqueue cd out req now s)"

definition handle_claim ::
  "'p codec \<Rightarrow> (nat \<Rightarrow> append_outcome) \<Rightarrow> claim_request \<Rightarrow> nat \<Rightarrow> 'p store \<Rightarrow> 'p store \<times> 'p claim_response reply" where
  "handle_claim cd out req now s =
     respond (\<lambda>r. case r of Some c \<Rightarrow> Reply 200 c | None \<Rightarrow> NoContent 204) (claim cd out req now s)"

definition handle_acknowledge ::
  "'p codec \<Rightarrow> (nat \<Rightarrow> append_outcome) \<Rightarrow> string \<Rightarrow> ack_request \<Rightarrow> nat \<Rightarrow> 'p store \<Rightarrow> 'p store \<times> 'p job_record reply" where
  "handle_acknowledge cd out i req now s = respond (Reply 200) (acknowledge cd out i req now s)"

definition handle_fail ::
  "'p codec \<Rightarrow> (nat \<Rightarrow> append_outcome) \<Rightarrow> string \<Rightarrow> fail_request \<Rightarrow> nat \<Rightarrow> 'p store \<Rightarrow> 'p store \<times> 'p job_record reply" where
  "handle_fail cd out i req now s = respond (Reply 200) (fail cd out i req now s)"

definition handle_get_job ::
  "'p codec \<Rightarrow> (nat \<Rightarrow> append_outcome) \<Rightarrow> string \<Rightarrow> nat \<Rightarrow> 'p store \<Rightarrow> 'p store \<times> 'p job_record reply" where
  "handle_get_job cd out i now s = respond (Reply 200) (get_job cd out i now s)"

definition handle_dead_letters ::
  "'p codec \<Rightarrow> (nat \<Rightarrow> append_outcome) \<Rightarrow> nat \<Rightarrow> 'p store \<Rightarrow> 'p store \<times> 'p job_record list reply" where
  "handle_dead_letters cd out now s = respond (Reply 200) (dead_letters cd out now s)"

definition handle_status ::
  "'p codec \<Rightarrow> (nat \<Rightarrow> append_outcome) \<Rightarrow> nat \<Rightarrow> 'p store \<Rightarrow> 'p store \<times> queue_snapshot reply" where
  "handle_status cd out now s = respond (Reply 200) (snapshot cd out now s)"

section \<open>Metrics\<close>

datatype job_state = JsPending | JsClaimed | JsCompleted | JsDeadLetter

definition job_state_label :: "job_state \<Rightarrow> string" where
  "job_state_label x = (case x of JsPending \<Rightarrow> ''pending'' | JsClaimed \<Rightarrow> ''claimed''
     | JsCompleted \<Rightarrow> ''completed'' | JsDeadLetter \<Rightarrow> ''dead_letter'')"

datatype failure_kind = FkExplicit | FkDeadLettered | FkTornTail

definition failure_kind_label :: "failure_kind \<Rightarrow> string" where
  "failure_kind_label x = (case x of FkExplicit \<Rightarrow> ''explicit'' | FkDeadLettered \<Rightarrow> ''dead_lettered''
     | FkTornTail \<Rightarrow> ''torn_tail'')"

text \<open>The label families create a series at zero when it is first used.\<close>

record queue_metrics =
  qm_jobs :: "job_state \<Rightarrow> nat"
  qm_wal_bytes :: nat
  qm_wal_events :: nat
  qm_claims :: nat
  qm_acknowledgments :: nat
  qm_redeliveries :: nat
  qm_failures :: "failure_kind \<Rightarrow> nat"

definition fresh_metrics :: queue_metrics where
  "fresh_metrics = \<lparr>qm_jobs = \<lambda>_. 0, qm_wal_bytes = 0, qm_wal_events = 0, qm_claims = 0,
     qm_acknowledgments = 0, qm_redeliveries = 0, qm_failures = \<lambda>_. 0\<rparr>"

definition sync_counter :: "nat \<Rightarrow> nat \<Rightarrow> nat" where
  "sync_counter current value = (if current < value then current + (value - current) else current)"

definition refresh :: "'p store \<Rightarrow> queue_metrics \<Rightarrow> queue_metrics" where
  "refresh s m =
     (let x = metrics_snapshot s
      in \<lparr>qm_jobs = (qm_jobs m)(JsPending := ms_pending x, JsClaimed := ms_claimed x,
                        JsCompleted := ms_completed x, JsDeadLetter := ms_dead_letter x),
          qm_wal_bytes = ms_wal_bytes x,
          qm_wal_events = sync_counter (qm_wal_events m) (ms_wal_events x),
          qm_claims = sync_counter (qm_claims m) (ms_claims_total x),
          qm_acknowledgments = sync_counter (qm_acknowledgments m) (ms_acknowledgments_total x),
          qm_redeliveries = sync_counter (qm_redeliveries m) (ms_redeliveries_total x),
          qm_failures = (let f = qm_failures m in f
             (FkExplicit := sync_counter (f FkExplicit) (ms_explicit_failures_total x),
              FkDeadLettered := sync_counter (f FkDeadLettered) (ms_dead_lettered_total x),
              FkTornTail := sync_counter (f FkTornTail) (ms_torn_tail_records_discarded x)))\<rparr>)"

definition register :: "'p store \<Rightarrow> queue_metrics" where
  "register s = refresh s fresh_metrics"

end
