(* ===== verification/Batch_Queue_Props.thy ===== *)
theory Batch_Queue_Props
  imports Batch_Queue_Service
begin

text \<open>
  The guarantees of the durable batch queue, over every reachable store, with a short run of the
  queue that shows their premises can hold together.
\<close>

section \<open>A run of the queue\<close>

text \<open>A codec that writes the four events of the run, each as a one-letter line.\<close>

definition demo_events :: "(string wal_event \<times> string) list" where
  "demo_events =
     [(Enqueued ''batch-00000001'' ''k'' ''p'' 2 10, ''e''),
      (ClaimedEv ''batch-00000001'' ''c'' ''claim-000000000001'' 120 1 20, ''c''),
      (Acknowledged ''batch-00000001'' ''claim-000000000001'' 30, ''a''),
      (Released ''batch-00000001'' ''claim-000000000001'' ''bad'' False 30, ''r'')]"

definition demo_codec :: "string codec" where
  "demo_codec = \<lparr>encode = map_of demo_events, decode = map_of (map (\<lambda>(e, b). (b, e)) demo_events),
     payload_size = \<lambda>p. Some (length p)\<rparr>"

definition demo_enqueue :: "string enqueue_request" where
  "demo_enqueue = \<lparr>er_idempotency_key = ''k'', er_payload = ''p'', er_max_attempts = 2\<rparr>"

definition demo_claim :: claim_request where
  "demo_claim = \<lparr>cr_consumer_id = ''c'', cr_visibility_timeout_ms = 100\<rparr>"

definition demo_ack :: ack_request where
  "demo_ack = \<lparr>ar_consumer_id = ''c'', ar_claim_token = ''claim-000000000001''\<rparr>"

definition demo_ok :: "nat \<Rightarrow> append_outcome" where
  "demo_ok k = AppendOk"

definition demo_opened :: "string store" where
  "demo_opened = \<lparr>store_wal = \<lparr>wal_file = [], wal_bytes = 0, wal_events = 0, poisoned = False\<rparr>, store_data = initial_data False\<rparr>"

definition demo_enqueued :: "string store" where
  "demo_enqueued = fst (enqueue demo_codec demo_ok demo_enqueue 10 demo_opened)"

definition demo_claimed :: "string store" where
  "demo_claimed = fst (claim demo_codec demo_ok demo_claim 20 demo_enqueued)"

definition demo_job :: "string job_record" where
  "demo_job = \<lparr>job_id = ''batch-00000001'', idempotency_key = ''k'', payload = ''p'', max_attempts = 2, attempts = 0,
     status = Pending, active_claim = None, created_at_ms = 10, updated_at_ms = 10, last_error = None\<rparr>"

lemma demo_faithful: "codec_faithful demo_codec"
  by (auto simp: codec_faithful_def demo_codec_def demo_events_def newline_def split: if_splits)

lemma demo_open: "store_open demo_codec [] = Inr demo_opened"
  by (simp add: store_open_def wal_open_def replay_def replay_from.simps and_then_def demo_opened_def u64_of_len_def)

lemma demo_names [simp]: "job_name (Suc 0) = ''batch-00000001''" "claim_name (Suc 0) = ''claim-000000000001''"
  by code_simp+

lemma demo_sequence [simp]:
  "parse_sequence ''batch-00000001'' ''batch-'' = 1" "parse_sequence ''claim-000000000001'' ''claim-'' = 1"
  using parse_job_name[of 1] parse_claim_name[of 1] by (simp_all add: u64_max_def)

lemma demo_trim [simp]: "trim ''k'' = ''k''" "trim ''c'' = ''c''" "trim ''claim-000000000001'' = ''claim-000000000001''"
  by (rule trim_alnum; simp add: is_ascii_alphanumeric_def is_ascii_digit_def)+

lemmas demo_defs = check_store_def validate_nonempty_limited_def demo_enqueue_def demo_codec_def demo_claim_def demo_ack_def
  demo_opened_def demo_job_def initial_data_def log_event_def wal_append_def demo_ok_def demo_events_def enqueued_job_def
  Let_def put_job_def sat_add64_def u64_of_len_def and_then_def sat_add32_def
  u64_max_def MAX_ATTEMPTS_def MAX_PAYLOAD_BYTES_def MAX_IDEMPOTENCY_KEY_BYTES_def MAX_VISIBILITY_TIMEOUT_MS_def u32_max_def

lemma demo_enqueue_run: "enqueue demo_codec demo_ok demo_enqueue 10 demo_opened =
  (\<lparr>store_wal = \<lparr>wal_file = ''e'' @ [newline], wal_bytes = 2, wal_events = 1, poisoned = False\<rparr>,
    store_data = (initial_data False)\<lparr>jobs := [(''batch-00000001'', demo_job)], idempotency_index := [''k'' \<mapsto> ''batch-00000001''],
      next_job_number := 2, pending_count := 1\<rparr>\<rparr>,
   Inr \<lparr>created = True, er_job = demo_job\<rparr>)"
  by (simp add: enqueue_def demo_defs)

lemmas demo_enqueued_eq = demo_enqueued_def[unfolded demo_enqueue_run fst_conv]

definition demo_response :: "string claim_response" where
  "demo_response = \<lparr>cs_job_id = ''batch-00000001'', cs_idempotency_key = ''k'', cs_payload = ''p'', cs_attempt = 1,
     cs_max_attempts = 2, cs_consumer_id = ''c'', cs_claim_token = ''claim-000000000001'', cs_deadline_ms = 120\<rparr>"

lemma demo_claim_run: "claim demo_codec demo_ok demo_claim 20 demo_enqueued =
  (\<lparr>store_wal = \<lparr>wal_file = ''e'' @ [newline] @ ''c'' @ [newline], wal_bytes = 4, wal_events = 2, poisoned = False\<rparr>,
    store_data = (initial_data False)\<lparr>jobs := [(''batch-00000001'', demo_job\<lparr>attempts := 1, status := Claimed, active_claim := Some
        \<lparr>cl_consumer_id = ''c'', cl_claim_token = ''claim-000000000001'', cl_deadline_ms = 120\<rparr>, updated_at_ms := 20\<rparr>)],
      idempotency_index := [''k'' \<mapsto> ''batch-00000001''],
      next_job_number := 2, next_claim_number := 2, claimed_count := 1, claims_total := 1\<rparr>\<rparr>,
   Inr (Some demo_response))"
proof -
  have r: "refresh_expired_claims demo_codec demo_ok 20 demo_enqueued = (demo_enqueued, Inr 0)"
    by (simp add: demo_enqueued_eq refresh_expired_claims_def expired_claims_def
        List.map_filter_def demo_defs)
  have f: "first_pending (store_data demo_enqueued) = Some ''batch-00000001''"
    by (simp add: demo_enqueued_eq first_pending_def demo_job_def)
  have c: "check_store (validate_nonempty_limited (cr_consumer_id demo_claim) 200) demo_enqueued = (demo_enqueued, Inr ())"
    by (simp add: demo_defs)
  show ?thesis
    unfolding claim_def c r bind_store_simps f
    by (simp add: demo_enqueued_eq demo_defs demo_response_def)
qed

lemmas demo_claimed_eq = demo_claimed_def[unfolded demo_claim_run fst_conv]

lemma demo_ack_run: "snd (acknowledge demo_codec demo_ok ''batch-00000001'' demo_ack 30 demo_claimed) =
   Inr (demo_job\<lparr>attempts := 1, status := Completed, updated_at_ms := 30\<rparr>)"
  by (simp add: acknowledge_def demo_claimed_eq refresh_expired_claims_def expired_claims_def log_events.simps
      List.map_filter_def require_active_claim_def transition_claimed_job_def clone_job_def demo_defs)

lemma demo_reachable: "queue_reachable demo_codec demo_opened" "queue_reachable demo_codec demo_enqueued"
    "queue_reachable demo_codec demo_claimed"
proof -
  show 0: "queue_reachable demo_codec demo_opened" using demo_open by (rule opened)
  show 1: "queue_reachable demo_codec demo_enqueued" unfolding demo_enqueued_def
    by (rule enqueued[OF 0]) (simp add: demo_defs)
  show "queue_reachable demo_codec demo_claimed" unfolding demo_claimed_def
    by (rule claimed[OF 1]) (simp add: demo_enqueued_eq demo_defs)
qed

lemma job_name_less:
  assumes "m < 10 ^ 8" "n < 10 ^ 8"
  shows "job_name m < job_name n \<longleftrightarrow> m < n"
proof -
  have "length (zero_pad 8 (dec_string k)) = 8" if "k < 10 ^ 8" for k
    using length_dec_string[OF _ that] by (simp add: length_zero_pad)
  then show ?thesis
    using dec_less_iff[of "zero_pad 8 (dec_string m)" "zero_pad 8 (dec_string n)"] assms
    unfolding job_name_def append_less_iff by simp
qed

section \<open>Guarantees\<close>

text \<open>C9: In every reachable store the job table is consistent: it is ordered by id, every job is indexed
  under its idempotency key and the index names only jobs of the table, ids come from numbers already
  given out, a job never has more attempts than it may have and is pending only with attempts left, it is
  claimed exactly when it holds a lease, and the four counters are the numbers of jobs in each status.\<close>

theorem queue_invariant:
  assumes "codec_faithful cd" "queue_reachable cd s"
  shows "queue_ok (store_data s)"
  using store_ok_queue[OF reachable_store_ok[OF assms(2,1)]] .

theorem queue_invariant_witness: "queue_ok (store_data demo_claimed)"
  by (rule queue_invariant[OF demo_faithful demo_reachable(3)])



text \<open>C7: A claim is exclusive.  A claimed job is stored with the caller as the holder of a lease whose token
  no job of the store had before; nobody else held an unexpired lease on it; its attempt number is within
  the job's bound; and when no job is claimed none is pending.\<close>

theorem claim_exclusive:
  assumes "codec_faithful cd" "queue_reachable cd s" "next_claim_number (store_data s) < u64_max"
    and "claim cd out req now s = (s', Inr r)"
  shows "(case r of
      None \<Rightarrow> \<forall>i job. map_of (jobs (store_data s')) i = Some job \<longrightarrow> status job \<noteq> Pending
    | Some c \<Rightarrow>
        (\<exists>job. map_of (jobs (store_data s')) (cs_job_id c) = Some job \<and> status job = Claimed \<and> active_claim job =
           Some \<lparr>cl_consumer_id = cr_consumer_id req, cl_claim_token = cs_claim_token c, cl_deadline_ms = cs_deadline_ms c\<rparr> \<and>
           payload job = cs_payload c \<and> attempts job = cs_attempt c \<and> cs_attempt c \<le> max_attempts job) \<and>
        (\<forall>i job l. map_of (jobs (store_data s)) i = Some job \<and> active_claim job = Some l \<longrightarrow> cl_claim_token l \<noteq> cs_claim_token c) \<and>
        (\<forall>job l. map_of (jobs (store_data s)) (cs_job_id c) = Some job \<and> active_claim job = Some l \<longrightarrow> cl_deadline_ms l \<le> now))"
proof -
  note s = reachable_store_ok[OF assms(2,1)]
  note g = step_claim[OF assms(1) s assms(3), of out req now, unfolded assms(4), unfolded step_okI_ret]
  have fresh: "cl_claim_token l \<noteq> claim_name (next_claim_number (store_data s))"
    if "map_of (jobs (store_data s)) i = Some job" "active_claim job = Some l" for i job l
    using queue_okD(2)[OF store_ok_queue[OF s] that(1)] that(2) by (auto simp: job_ok_def)
  have cl: "status job = Claimed" if "map_of (jobs (store_data s')) i = Some job" "active_claim job = Some l" for i job l
    using queue_okD(2)[OF store_ok_queue that(1)] g that(2) by (auto simp: job_ok_def)
  show ?thesis using g fresh cl by (cases r) (auto simp: claim_granted_def)
qed

theorem claim_exclusive_witness:
  "\<exists>job. map_of (jobs (store_data demo_claimed)) ''batch-00000001'' = Some job \<and> status job = Claimed \<and> attempts job \<le> max_attempts job"
  using claim_exclusive[OF demo_faithful demo_reachable(2) _ demo_claim_run]
  by (auto simp: demo_enqueued_eq demo_claimed_eq demo_response_def initial_data_def u64_max_def)

text \<open>C8: Fencing.  A job is completed, or released or dead-lettered by its consumer, only by the holder of its
  current lease and only before that lease's deadline; the stored job then has no holder, and an explicit
  failure makes it pending again exactly when attempts are left.\<close>

theorem only_live_claims_end:
  assumes "codec_faithful cd" "queue_reachable cd s"
  shows "(acknowledge cd out i arq now s = (s1, Inr job1) \<longrightarrow>
      (\<exists>job. live_claim (store_data s) i (ar_consumer_id arq) (ar_claim_token arq) now job) \<and>
      status job1 = Completed \<and> active_claim job1 = None \<and> map_of (jobs (store_data s1)) i = Some job1) \<and>
    (fail cd out i frq now s = (s2, Inr job2) \<longrightarrow>
      (\<exists>job. live_claim (store_data s) i (fr_consumer_id frq) (fr_claim_token frq) now job \<and>
        status job2 = (if max_attempts job \<le> attempts job then DeadLetter else Pending)) \<and>
      active_claim job2 = None \<and> map_of (jobs (store_data s2)) i = Some job2)"
proof -
  note s = reachable_store_ok[OF assms(2,1)]
  show ?thesis
  proof (intro conjI impI)
    assume "acknowledge cd out i arq now s = (s1, Inr job1)"
    then show "\<exists>job. live_claim (store_data s) i (ar_consumer_id arq) (ar_claim_token arq) now job"
      "status job1 = Completed" "active_claim job1 = None" "map_of (jobs (store_data s1)) i = Some job1"
      using step_acknowledge[OF assms(1) s, of out i arq now] by auto
  next
    assume "fail cd out i frq now s = (s2, Inr job2)"
    then show "\<exists>job. live_claim (store_data s) i (fr_consumer_id frq) (fr_claim_token frq) now job \<and>
        status job2 = (if max_attempts job \<le> attempts job then DeadLetter else Pending)"
      "active_claim job2 = None" "map_of (jobs (store_data s2)) i = Some job2"
      using step_fail[OF assms(1) s, of out i frq now] by (auto simp del: if_split)
  qed
qed

theorem only_live_claims_end_witness:
  "\<exists>job. live_claim (store_data demo_claimed) ''batch-00000001'' ''c'' ''claim-000000000001'' 30 job"
  using only_live_claims_end[OF demo_faithful demo_reachable(3), of demo_ok "''batch-00000001''" demo_ack 30
      "fst (acknowledge demo_codec demo_ok ''batch-00000001'' demo_ack 30 demo_claimed)"] demo_ack_run
  by (auto simp: demo_ack_def prod_eq_iff)

text \<open>C10: Enqueueing is idempotent.  Repeating a successful request, at any later time, returns the same job and
  leaves the store as it is; a request that reuses the key for another payload or attempt bound is refused.\<close>

theorem enqueue_idempotent:
  assumes "codec_faithful cd" "queue_reachable cd s" "next_job_number (store_data s) < u64_max"
    and e: "enqueue cd out req now s = (s1, Inr r)"
  shows "enqueue cd out' req now' s1 = (s1, Inr \<lparr>created = False, er_job = er_job r\<rparr>) \<and>
    (er_idempotency_key req' = er_idempotency_key req \<and> 1 \<le> er_max_attempts req' \<and>
      er_max_attempts req' \<le> MAX_ATTEMPTS \<and> payload_size cd (er_payload req') = Some n \<and> n \<le> MAX_PAYLOAD_BYTES \<and>
      (er_payload req' \<noteq> er_payload req \<or> er_max_attempts req' \<noteq> er_max_attempts req) \<longrightarrow>
      enqueue cd out' req' now' s1 = (s1, Inl QIdempotencyConflict))"
proof -
  note g = step_enqueue[OF assms(1) reachable_store_ok[OF assms(2,1)] assms(3), of out req now, unfolded e, unfolded step_okI_ret]
  have v: "validate_nonempty_limited (er_idempotency_key req) MAX_IDEMPOTENCY_KEY_BYTES = Inr ()"
    and m: "1 \<le> er_max_attempts req" "er_max_attempts req \<le> MAX_ATTEMPTS"
    and p: "\<exists>n. payload_size cd (er_payload req) = Some n \<and> n \<le> MAX_PAYLOAD_BYTES"
    using e by (auto simp: enqueue_def check_store_def bind_store_def split: sum.splits if_splits option.splits)
  show ?thesis using g v m p by (auto simp: enqueue_def check_store_def)
qed

theorem enqueue_idempotent_witness:
  "enqueue demo_codec demo_ok demo_enqueue 99 demo_enqueued = (demo_enqueued, Inr \<lparr>created = False, er_job = demo_job\<rparr>)"
  using enqueue_idempotent[OF demo_faithful demo_reachable(1) _ demo_enqueue_run, of demo_ok 99 demo_enqueue 0]
  by (simp add: demo_enqueued_eq demo_opened_def initial_data_def u64_max_def)

text \<open>C11: Oldest first.  While fewer than a hundred million jobs were enqueued, a claim takes the pending job that
  was enqueued first: every job still pending has a later number.\<close>

theorem claim_oldest_first:
  assumes "codec_faithful cd" "queue_reachable cd s" "next_claim_number (store_data s) < u64_max"
    and "claim cd out req now s = (s', Inr (Some c))" "next_job_number (store_data s') \<le> 10 ^ 8"
  shows "\<exists>n. cs_job_id c = job_name n \<and>
    (\<forall>m job. map_of (jobs (store_data s')) (job_name m) = Some job \<and> status job = Pending \<longrightarrow> n < m)"
proof -
  note g = step_claim[OF assms(1) reachable_store_ok[OF assms(2,1)] assms(3), of out req now, unfolded assms(4), unfolded step_okI_ret]
  note q = queue_okD(2)[OF store_ok_queue]
  have num: "\<exists>n<10 ^ 8. i = job_name n" if "map_of (jobs (store_data s')) i = Some job" for i job
    using q[OF conjunct1[OF g] that] assms(5) by (fastforce simp: job_ok_def)
  obtain job where "map_of (jobs (store_data s')) (cs_job_id c) = Some job" using g by (auto simp: claim_granted_def)
  then obtain n where n: "n < 10 ^ 8" "cs_job_id c = job_name n" using num by blast
  have "n < m" if "map_of (jobs (store_data s')) (job_name m) = Some job" "status job = Pending" for m job
    using num[OF that(1)] g that n job_name_less[of n m] by (auto simp: claim_granted_def)
  then show ?thesis using n(2) by blast
qed

theorem claim_oldest_first_witness: "\<exists>n. ''batch-00000001'' = job_name n"
  using claim_oldest_first[OF demo_faithful demo_reachable(2) _ demo_claim_run]
  by (auto simp: demo_enqueued_eq demo_response_def initial_data_def u64_max_def)


text \<open>The exported gauges, which read the store's running counters, are what a scan of the job table would
  count, and no exported counter ever decreases.\<close>

theorem metrics_match_scan:
  assumes "codec_faithful cd" "queue_reachable cd s"
  shows "qm_jobs (refresh s m) JsPending = length (filter (\<lambda>(i, job). status job = Pending) (jobs (store_data s))) \<and>
    qm_jobs (refresh s m) JsClaimed = length (filter (\<lambda>(i, job). status job = Claimed) (jobs (store_data s))) \<and>
    qm_jobs (refresh s m) JsCompleted = length (filter (\<lambda>(i, job). status job = Completed) (jobs (store_data s))) \<and>
    qm_jobs (refresh s m) JsDeadLetter = length (filter (\<lambda>(i, job). status job = DeadLetter) (jobs (store_data s))) \<and>
    qm_wal_events m \<le> qm_wal_events (refresh s m) \<and> qm_claims m \<le> qm_claims (refresh s m) \<and>
    qm_acknowledgments m \<le> qm_acknowledgments (refresh s m) \<and> qm_redeliveries m \<le> qm_redeliveries (refresh s m) \<and>
    (\<forall>k. qm_failures m k \<le> qm_failures (refresh s m) k)"
  using queue_okD(7-10)[OF store_ok_queue[OF reachable_store_ok[OF assms(2,1)]]]
  by (simp add: refresh_def metrics_snapshot_def Let_def count_status_def btree_count sync_counter_def)

theorem metrics_match_scan_witness: "qm_jobs (register demo_claimed) JsClaimed = 1"
  using metrics_match_scan[OF demo_faithful demo_reachable(3), of fresh_metrics]
  by (simp add: register_def demo_claimed_eq)

end
