(* ===== verification/Circuit_Breaker.thy ===== *)
theory Circuit_Breaker
  imports InferLab_Prelude
begin

text \<open>
  The per-worker circuit breaker of \<open>gateway/src/circuit_breaker.rs\<close>.  The breaker is its
  configuration and the data behind its mutex; an attempt is the token a caller holds until it
  reports success or failure or drops it.  Instants and durations are nanoseconds.  The snapshot's
  floating-point failure percentage is a display value and is left out.
\<close>

record circuit_breaker_config =
  window_size :: nat
  minimum_requests :: nat
  failure_rate_percent :: nat
  open_duration :: nat

definition default_circuit_config :: circuit_breaker_config where
  "default_circuit_config = \<lparr>window_size = 10, minimum_requests = 5, failure_rate_percent = 50, open_duration = from_secs 5\<rparr>"

datatype circuit_error = BadWindow | BadMinimum | BadRate | BadDuration

definition validate_circuit :: "circuit_breaker_config \<Rightarrow> (circuit_error, unit) result" where
  "validate_circuit c =
     (if window_size c = 0 \<or> 100000 < window_size c then Inl BadWindow
      else if minimum_requests c = 0 \<or> window_size c < minimum_requests c then Inl BadMinimum
      else if failure_rate_percent c = 0 \<or> 100 < failure_rate_percent c then Inl BadRate
      else if open_duration c = 0 \<or> from_secs (60 * 60) < open_duration c then Inl BadDuration
      else Inr ())"

datatype circuit_state_name = NameClosed | NameOpen | NameHalfOpen

datatype circuit_state = Closed | Open (open_until: nat) | HalfOpen (probe_in_flight: bool)

datatype attempt_kind = ClosedAttempt | HalfOpenAttempt

record circuit_data =
  circ_state :: circuit_state
  generation :: nat
  outcomes :: "bool list"
  successful_attempts_total :: nat
  failed_attempts_total :: nat
  opened_total :: nat
  circ_rejected_total :: nat
  half_open_probes_total :: nat
  recoveries_total :: nat

record circuit_attempt =
  at_generation :: nat
  at_kind :: attempt_kind
  resolved :: bool

definition new_circuit :: circuit_data where
  "new_circuit = \<lparr>circ_state = Closed, generation = 0, outcomes = [], successful_attempts_total = 0,
     failed_attempts_total = 0, opened_total = 0, circ_rejected_total = 0, half_open_probes_total = 0,
     recoveries_total = 0\<rparr>"

definition refresh_open_state :: "nat \<Rightarrow> circuit_data \<Rightarrow> circuit_data" where
  "refresh_open_state now d =
     (case circ_state d of
        Open until \<Rightarrow> if until \<le> now then d\<lparr>circ_state := HalfOpen False\<rparr> else d
      | _ \<Rightarrow> d)"

definition should_open :: "bool list \<Rightarrow> circuit_breaker_config \<Rightarrow> bool" where
  "should_open xs c =
     (if length xs < minimum_requests c then False
      else length xs * failure_rate_percent c \<le> length (filter (\<lambda>failed. failed) xs) * 100)"

definition open_circuit :: "nat \<Rightarrow> nat \<Rightarrow> circuit_data \<Rightarrow> circuit_data" where
  "open_circuit now duration d =
     d\<lparr>generation := inc64 (generation d), circ_state := Open (now + duration), opened_total := inc64 (opened_total d)\<rparr>"

definition try_acquire_at :: "nat \<Rightarrow> circuit_data \<Rightarrow> circuit_data \<times> circuit_attempt option" where
  "try_acquire_at now d0 =
     (let d = refresh_open_state now d0
      in case circ_state d of
           Closed \<Rightarrow> (d, Some \<lparr>at_generation = generation d, at_kind = ClosedAttempt, resolved = False\<rparr>)
         | Open _ \<Rightarrow> (d\<lparr>circ_rejected_total := inc64 (circ_rejected_total d)\<rparr>, None)
         | HalfOpen probing \<Rightarrow>
             if probing then (d\<lparr>circ_rejected_total := inc64 (circ_rejected_total d)\<rparr>, None)
             else (d\<lparr>circ_state := HalfOpen True, half_open_probes_total := inc64 (half_open_probes_total d)\<rparr>,
                   Some \<lparr>at_generation = generation d, at_kind = HalfOpenAttempt, resolved = False\<rparr>))"

definition kind_matches :: "attempt_kind \<Rightarrow> circuit_state \<Rightarrow> bool" where
  "kind_matches k s = (case (k, s) of (ClosedAttempt, Closed) \<Rightarrow> True | (HalfOpenAttempt, HalfOpen _) \<Rightarrow> True | _ \<Rightarrow> False)"

definition push_outcome :: "nat \<Rightarrow> bool \<Rightarrow> bool list \<Rightarrow> bool list" where
  "push_outcome n failed xs = (let ys = xs @ [failed] in if n < length ys then tl ys else ys)"

definition resolve :: "circuit_breaker_config \<Rightarrow> nat \<Rightarrow> attempt_kind \<Rightarrow> bool \<Rightarrow> nat \<Rightarrow> circuit_data \<Rightarrow> circuit_data" where
  "resolve c g k failed now d0 =
     (if generation d0 \<noteq> g then d0
      else if \<not> kind_matches k (circ_state d0) then d0
      else let d = (if failed then d0\<lparr>failed_attempts_total := inc64 (failed_attempts_total d0)\<rparr>
                    else d0\<lparr>successful_attempts_total := inc64 (successful_attempts_total d0)\<rparr>)
           in case k of
                ClosedAttempt \<Rightarrow>
                  (let d1 = d\<lparr>outcomes := push_outcome (window_size c) failed (outcomes d)\<rparr>
                   in if should_open (outcomes d1) c then open_circuit now (open_duration c) d1 else d1)
              | HalfOpenAttempt \<Rightarrow>
                  if failed then open_circuit now (open_duration c) (d\<lparr>outcomes := [True]\<rparr>)
                  else d\<lparr>generation := inc64 (generation d), circ_state := Closed, outcomes := [],
                         recoveries_total := inc64 (recoveries_total d)\<rparr>)"

definition cancel :: "nat \<Rightarrow> attempt_kind \<Rightarrow> circuit_data \<Rightarrow> circuit_data" where
  "cancel g k d =
     (if k \<noteq> HalfOpenAttempt then d
      else if generation d = g \<and> (case circ_state d of HalfOpen _ \<Rightarrow> True | _ \<Rightarrow> False)
           then d\<lparr>circ_state := HalfOpen False\<rparr> else d)"

definition success_at :: "circuit_breaker_config \<Rightarrow> nat \<Rightarrow> circuit_attempt \<Rightarrow> circuit_data \<Rightarrow> circuit_data \<times> circuit_attempt" where
  "success_at c now a d = (resolve c (at_generation a) (at_kind a) False now d, a\<lparr>resolved := True\<rparr>)"

definition failure_at :: "circuit_breaker_config \<Rightarrow> nat \<Rightarrow> circuit_attempt \<Rightarrow> circuit_data \<Rightarrow> circuit_data \<times> circuit_attempt" where
  "failure_at c now a d = (resolve c (at_generation a) (at_kind a) True now d, a\<lparr>resolved := True\<rparr>)"

definition drop_attempt :: "circuit_attempt \<Rightarrow> circuit_data \<Rightarrow> circuit_data" where
  "drop_attempt a d = (if \<not> resolved a then cancel (at_generation a) (at_kind a) d else d)"

definition duration_millis_ceil :: "nat \<Rightarrow> nat" where
  "duration_millis_ceil d = min (min (d + 999999) (2 ^ 128 - 1) div 1000000) u64_max"

record circuit_snapshot =
  cs_state :: circuit_state_name
  cs_window_size :: nat
  cs_minimum_requests :: nat
  cs_failure_rate_threshold_percent :: nat
  cs_open_duration_ms :: nat
  cs_samples :: nat
  cs_failures :: nat
  cs_remaining_open_ms :: nat
  cs_probe_in_flight :: bool
  cs_successful_attempts_total :: nat
  cs_failed_attempts_total :: nat
  cs_opened_total :: nat
  cs_rejected_total :: nat
  cs_half_open_probes_total :: nat
  cs_recoveries_total :: nat

definition snapshot_at :: "circuit_breaker_config \<Rightarrow> nat \<Rightarrow> circuit_data \<Rightarrow> circuit_data \<times> circuit_snapshot" where
  "snapshot_at c now d0 =
     (let d = refresh_open_state now d0;
          failures = length (filter (\<lambda>failed. failed) (outcomes d));
          samples = length (outcomes d);
          (state, remaining, probe) =
            (case circ_state d of
               Closed \<Rightarrow> (NameClosed, 0, False)
             | Open until \<Rightarrow> (NameOpen, duration_millis_ceil (until - now), False)
             | HalfOpen p \<Rightarrow> (NameHalfOpen, 0, p))
      in (d, \<lparr>cs_state = state, cs_window_size = window_size c, cs_minimum_requests = minimum_requests c,
              cs_failure_rate_threshold_percent = failure_rate_percent c,
              cs_open_duration_ms = duration_millis_ceil (open_duration c),
              cs_samples = samples, cs_failures = failures, cs_remaining_open_ms = remaining,
              cs_probe_in_flight = probe,
              cs_successful_attempts_total = successful_attempts_total d,
              cs_failed_attempts_total = failed_attempts_total d, cs_opened_total = opened_total d,
              cs_rejected_total = circ_rejected_total d,
              cs_half_open_probes_total = half_open_probes_total d,
              cs_recoveries_total = recoveries_total d\<rparr>))"

definition circuit_metrics_snapshot :: "nat \<Rightarrow> circuit_data \<Rightarrow> circuit_state_name" where
  "circuit_metrics_snapshot now d =
     (case circ_state d of
        Closed \<Rightarrow> NameClosed
      | Open until \<Rightarrow> if now < until then NameOpen else NameHalfOpen
      | HalfOpen _ \<Rightarrow> NameHalfOpen)"

end
