(* ===== verification/Circuit_Breaker_Props.thy ===== *)
theory Circuit_Breaker_Props
  imports Circuit_Breaker
begin

text \<open>
  Correctness of the circuit breaker.  A system is a breaker with the attempts its callers still hold;
  it moves by acquisitions, reports, dropped attempts and snapshots, at any times.  While half-open there is
  exactly one current attempt, the probe; a breaker without outstanding attempts always becomes available
  again; and it opens exactly when the failure rate of the sliding window says so.
\<close>

section \<open>Breakers and the attempts they have handed out\<close>

type_synonym circuit_system = "circuit_data \<times> circuit_attempt list"

inductive circuit_step :: "circuit_breaker_config \<Rightarrow> circuit_system \<Rightarrow> circuit_system \<Rightarrow> bool" for c where
  granted: "try_acquire_at now d = (d', Some a) \<Longrightarrow> circuit_step c (d, as) (d', a # as)"
| refused: "try_acquire_at now d = (d', None) \<Longrightarrow> circuit_step c (d, as) (d', as)"
| reported: "a \<in> set as \<Longrightarrow> generation d < u64_max \<Longrightarrow>
    circuit_step c (d, as) (resolve c (at_generation a) (at_kind a) failed now d, remove1 a as)"
| abandoned: "a \<in> set as \<Longrightarrow> circuit_step c (d, as) (drop_attempt a d, remove1 a as)"
| inspected: "circuit_step c (d, as) (fst (snapshot_at c now d), as)"

inductive circuit_reachable :: "circuit_breaker_config \<Rightarrow> circuit_system \<Rightarrow> bool" for c where
  fresh: "circuit_reachable c (new_circuit, [])"
| step: "circuit_reachable c s \<Longrightarrow> circuit_step c s s' \<Longrightarrow> circuit_reachable c s'"

inductive_cases circuit_stepE: "circuit_step c s s'"

definition current :: "nat \<Rightarrow> circuit_attempt list \<Rightarrow> circuit_attempt list" where
  "current g as = filter (\<lambda>a. at_generation a = g) as"

definition circuit_ok :: "circuit_breaker_config \<Rightarrow> circuit_system \<Rightarrow> bool" where
  "circuit_ok c s \<longleftrightarrow> (case s of (d, as) \<Rightarrow>
     length (outcomes d) \<le> window_size c \<and> (circ_state d = Closed \<longrightarrow> \<not> should_open (outcomes d) c) \<and>
     (\<forall>a\<in>set as. \<not> resolved a \<and> at_generation a \<le> generation d) \<and>
     (\<forall>a\<in>set (current (generation d) as). kind_matches (at_kind a) (circ_state d)) \<and>
     (\<forall>p. circ_state d = HalfOpen p \<longrightarrow> length (current (generation d) as) = (if p then 1 else 0)))"

lemma kind_matches_simps [simp]:
  "kind_matches k Closed \<longleftrightarrow> k = ClosedAttempt" "\<not> kind_matches k (Open u)"
  "kind_matches k (HalfOpen p) \<longleftrightarrow> k = HalfOpenAttempt"
  by (cases k; simp add: kind_matches_def)+

lemma validate_circuitD:
  assumes "validate_circuit c = Inr ()"
  shows "0 < window_size c" "0 < minimum_requests c" "minimum_requests c \<le> window_size c" "0 < open_duration c"
  using assms by (auto simp: validate_circuit_def split: if_splits)

lemma refresh_cases:
  "refresh_open_state now d = d \<or> (\<exists>u. circ_state d = Open u \<and> u \<le> now \<and> refresh_open_state now d = d\<lparr>circ_state := HalfOpen False\<rparr>)"
  by (auto simp: refresh_open_state_def split: circuit_state.split)

lemma refresh_circuit_ok:
  assumes "circuit_ok c (d, as)"
  shows "circuit_ok c (refresh_open_state now d, as)"
  using refresh_cases[of now d]
proof (elim disjE exE conjE)
  fix u assume u: "circ_state d = Open u" "refresh_open_state now d = d\<lparr>circ_state := HalfOpen False\<rparr>"
  then have "current (generation d) as = []" using assms by (cases "current (generation d) as") (auto simp: circuit_ok_def)
  then show ?thesis using assms u by (simp add: circuit_ok_def)
qed (use assms in simp)

lemma push_outcome_length: "0 < n \<Longrightarrow> length xs \<le> n \<Longrightarrow> length (push_outcome n b xs) \<le> n"
  by (auto simp: push_outcome_def Let_def)

text \<open>Once the generation moves on, no outstanding attempt is current.\<close>

lemma no_current: "\<forall>a\<in>set as. \<not> resolved a \<and> at_generation a < g \<Longrightarrow> current g as = []"
  by (auto simp: current_def filter_empty_conv)

lemma current_remove1: "current g (remove1 a as) = (if at_generation a = g then remove1 a (current g as) else current g as)"
  by (induction as) (auto simp: current_def)

lemma resolve_ok:
  assumes v: "validate_circuit c = Inr ()" and ok: "circuit_ok c (d, as)" and a: "a \<in> set as" and g: "generation d < u64_max"
  shows "circuit_ok c (resolve c (at_generation a) (at_kind a) failed now d, remove1 a as)"
proof (cases "at_generation a = generation d")
  case False
  then show ?thesis using ok set_remove1_subset[of a as]
    by (auto simp: circuit_ok_def resolve_def current_remove1)
next
  case True
  then have k: "kind_matches (at_kind a) (circ_state d)" using ok a by (auto simp: circuit_ok_def current_def)
  have le: "\<forall>b\<in>set (remove1 a as). \<not> resolved b \<and> at_generation b \<le> generation d"
    using ok set_remove1_subset[of a as] by (auto simp: circuit_ok_def)
  then have old: "current (Suc (generation d)) (remove1 a as) = []" by (intro no_current) auto
  have le': "\<forall>b\<in>set (remove1 a as). \<not> resolved b \<and> at_generation b \<le> Suc (generation d)" using le by auto
  have cur: "set (current (generation d) (remove1 a as)) \<subseteq> set (current (generation d) as)"
    using set_remove1_subset[of a as] by (auto simp: current_def)
  note w = validate_circuitD[OF v]
  show ?thesis
  proof (cases "at_kind a")
    case ClosedAttempt
    then have s: "circ_state d = Closed" using k by (cases "circ_state d") auto
    then have "length (push_outcome (window_size c) failed (outcomes d)) \<le> window_size c"
      using ok w by (simp add: circuit_ok_def push_outcome_length)
    then show ?thesis
      using ok s ClosedAttempt True le le' old g cur
      by (auto simp: circuit_ok_def resolve_def Let_def open_circuit_def inc64_Suc)
  next
    case HalfOpenAttempt
    then obtain p where s: "circ_state d = HalfOpen p" using k by (cases "circ_state d") auto
    have n: "\<not> should_open [] c" using w by (simp add: should_open_def)
    show ?thesis
      using s HalfOpenAttempt True le' old g w n
      by (auto simp: circuit_ok_def resolve_def Let_def open_circuit_def inc64_Suc)
  qed
qed

lemma drop_ok:
  assumes ok: "circuit_ok c (d, as)" and a: "a \<in> set as"
  shows "circuit_ok c (drop_attempt a d, remove1 a as)"
proof -
  have nr: "\<not> resolved a" and le: "\<forall>b\<in>set (remove1 a as). \<not> resolved b \<and> at_generation b \<le> generation d"
    using ok a set_remove1_subset[of a as] by (auto simp: circuit_ok_def)
  have cur: "set (current (generation d) (remove1 a as)) \<subseteq> set (current (generation d) as)"
    using set_remove1_subset[of a as] by (auto simp: current_def)
  show ?thesis
  proof (cases "at_generation a = generation d")
    case False
    then show ?thesis using ok le nr by (auto simp: circuit_ok_def drop_attempt_def cancel_def current_remove1)
  next
    case True
    then have m: "a \<in> set (current (generation d) as)" and k: "kind_matches (at_kind a) (circ_state d)"
      using ok a by (auto simp: circuit_ok_def current_def)
    show ?thesis
    proof (cases "at_kind a")
      case ClosedAttempt
      then have s: "circ_state d = Closed" using k by (cases "circ_state d") auto
      then show ?thesis using ok le nr cur ClosedAttempt by (auto simp: circuit_ok_def drop_attempt_def cancel_def)
    next
      case HalfOpenAttempt
      then obtain p where s: "circ_state d = HalfOpen p" using k by (cases "circ_state d") auto
      then have "length (current (generation d) as) \<le> 1" using ok by (simp add: circuit_ok_def)
      then have "current (generation d) (remove1 a as) = []"
        using m True by (cases "current (generation d) as") (auto simp: current_remove1)
      then show ?thesis using ok le nr s True HalfOpenAttempt by (auto simp: circuit_ok_def drop_attempt_def cancel_def)
    qed
  qed
qed

lemma acquire_ok:
  assumes "circuit_ok c (d, as)" "try_acquire_at now d = (d', r)"
  shows "circuit_ok c (d', (case r of None \<Rightarrow> as | Some a \<Rightarrow> a # as))"
  using refresh_circuit_ok[OF assms(1), of now] assms(2)
  by (auto simp: try_acquire_at_def Let_def circuit_ok_def current_def split: circuit_state.splits if_splits)

lemma circuit_step_ok:
  assumes "validate_circuit c = Inr ()" "circuit_step c s s'" "circuit_ok c s"
  shows "circuit_ok c s'"
  using assms(2,3)
proof cases
  case (granted now d d' a as)
  then show ?thesis using acquire_ok[of c d as now d' "Some a"] assms(3) by simp
next
  case (refused now d d' as)
  then show ?thesis using acquire_ok[of c d as now d' None] assms(3) by simp
next
  case (reported a as d failed now)
  then show ?thesis using resolve_ok[OF assms(1)] assms(3) by simp
next
  case (abandoned a as d)
  then show ?thesis using drop_ok assms(3) by simp
next
  case (inspected d as now)
  then show ?thesis using refresh_circuit_ok assms(3) by (simp add: snapshot_at_def Let_def case_prod_beta)
qed

lemma circuit_reachable_ok:
  assumes "validate_circuit c = Inr ()" "circuit_reachable c s"
  shows "circuit_ok c s"
  using assms(2)
proof induction
  case fresh
  then show ?case using validate_circuitD[OF assms(1)] by (simp add: circuit_ok_def new_circuit_def should_open_def current_def)
qed (use circuit_step_ok[OF assms(1)] in blast)

section \<open>The sliding window\<close>

definition last_n :: "nat \<Rightarrow> 'a list \<Rightarrow> 'a list" where
  "last_n n xs = drop (length xs - n) xs"

lemma push_last_n: "0 < n \<Longrightarrow> push_outcome n b (last_n n xs) = last_n n (xs @ [b])"
proof (cases "n \<le> length xs")
  case True
  assume "0 < n"
  then have "drop (length xs - n) xs \<noteq> []" using True by simp
  then have "tl (drop (length xs - n) xs @ [b]) = drop (Suc (length xs) - n) xs @ [b]"
    using True by (simp add: Suc_diff_le drop_Suc tl_drop)
  then show ?thesis using True \<open>0 < n\<close> by (simp add: push_outcome_def last_n_def Let_def Suc_leI)
qed (simp add: push_outcome_def last_n_def Let_def)

text \<open>One attempt after another, each acquired and reported at the given time.\<close>

definition record_outcome :: "circuit_breaker_config \<Rightarrow> nat \<Rightarrow> bool \<Rightarrow> circuit_data \<Rightarrow> circuit_data" where
  "record_outcome c now failed d =
     (case try_acquire_at now d of
        (d', None) \<Rightarrow> d'
      | (d', Some a) \<Rightarrow> fst (if failed then failure_at c now a d' else success_at c now a d'))"

definition record_outcomes :: "circuit_breaker_config \<Rightarrow> nat \<Rightarrow> bool list \<Rightarrow> circuit_data" where
  "record_outcomes c now hs = fold (record_outcome c now) hs new_circuit"

lemma record_closed:
  assumes "circ_state d = Closed"
  shows "outcomes (record_outcome c now b d) = push_outcome (window_size c) b (outcomes d) \<and>
    circ_state (record_outcome c now b d) =
      (if should_open (push_outcome (window_size c) b (outcomes d)) c then Open (now + open_duration c) else Closed)"
  using assms
  by (simp add: record_outcome_def try_acquire_at_def refresh_open_state_def success_at_def failure_at_def resolve_def
      Let_def open_circuit_def)

lemma record_open:
  "circ_state d = Open u \<Longrightarrow> now < u \<Longrightarrow> circ_state (record_outcome c now b d) = Open u"
  by (simp add: record_outcome_def try_acquire_at_def refresh_open_state_def Let_def)

lemma record_outcomes_snoc:
  "record_outcomes c now (hs @ [b]) = record_outcome c now b (record_outcomes c now hs)"
  by (simp add: record_outcomes_def)

definition trips :: "circuit_breaker_config \<Rightarrow> bool list \<Rightarrow> bool" where
  "trips c hs \<longleftrightarrow> (\<exists>k\<le>length hs. should_open (last_n (window_size c) (take k hs)) c)"

lemma trips_snoc: "trips c (hs @ [b]) \<longleftrightarrow> trips c hs \<or> should_open (last_n (window_size c) (hs @ [b])) c"
  by (auto simp: trips_def le_Suc_eq)

lemma record_outcomes_state:
  assumes v: "validate_circuit c = Inr ()"
  shows "circ_state (record_outcomes c now hs) = (if trips c hs then Open (now + open_duration c) else Closed) \<and>
    (\<not> trips c hs \<longrightarrow> outcomes (record_outcomes c now hs) = last_n (window_size c) hs)"
proof (induction hs rule: rev_induct)
  case Nil
  then show ?case
    using validate_circuitD[OF v] by (simp add: record_outcomes_def new_circuit_def trips_def should_open_def last_n_def)
next
  case (snoc b hs)
  note w = validate_circuitD[OF v]
  show ?case
  proof (cases "trips c hs")
    case True
    then show ?thesis using snoc w record_open by (simp add: record_outcomes_snoc trips_snoc)
  next
    case False
    then show ?thesis
      using snoc w record_closed[of "record_outcomes c now hs" c now b]
      by (auto simp: record_outcomes_snoc trips_snoc push_last_n)
  qed
qed

section \<open>A run of a breaker\<close>

definition demo_circuit :: circuit_breaker_config where
  "demo_circuit = \<lparr>window_size = 2, minimum_requests = 1, failure_rate_percent = 100, open_duration = 5\<rparr>"

definition demo_attempt :: circuit_attempt where
  "demo_attempt = \<lparr>at_generation = 0, at_kind = ClosedAttempt, resolved = False\<rparr>"

definition demo_probing :: circuit_data where
  "demo_probing = new_circuit\<lparr>circ_state := HalfOpen True, generation := 1, outcomes := [True], failed_attempts_total := 1,
     opened_total := 1, half_open_probes_total := 1\<rparr>"

lemma demo_circuit_valid: "validate_circuit demo_circuit = Inr ()"
  by (simp add: validate_circuit_def demo_circuit_def from_secs_def)

lemma demo_circuit_probing:
  "circuit_reachable demo_circuit (demo_probing, [\<lparr>at_generation = 1, at_kind = HalfOpenAttempt, resolved = False\<rparr>, demo_attempt])"
proof -
  note defs = try_acquire_at_def refresh_open_state_def new_circuit_def demo_attempt_def resolve_def demo_circuit_def Let_def
    push_outcome_def should_open_def open_circuit_def inc64_def wrap64_def demo_probing_def
  have 1: "circuit_step demo_circuit (new_circuit, []) (new_circuit, [demo_attempt])"
    by (rule granted[of 0]) (simp add: defs)
  have 2: "circuit_step demo_circuit (new_circuit, [demo_attempt]) (new_circuit, [demo_attempt, demo_attempt])"
    by (rule granted[of 0]) (simp add: defs)
  have 3: "circuit_step demo_circuit (new_circuit, [demo_attempt, demo_attempt])
     (resolve demo_circuit (at_generation demo_attempt) (at_kind demo_attempt) True 0 new_circuit, remove1 demo_attempt [demo_attempt, demo_attempt])"
    by (rule reported) (simp_all add: new_circuit_def)
  have 4: "circuit_step demo_circuit
     (resolve demo_circuit (at_generation demo_attempt) (at_kind demo_attempt) True 0 new_circuit, [demo_attempt])
     (demo_probing, [\<lparr>at_generation = 1, at_kind = HalfOpenAttempt, resolved = False\<rparr>, demo_attempt])"
    by (rule granted[of 5]) (simp add: defs)
  show ?thesis
    by (rule circuit_reachable.step[OF circuit_reachable.step[OF circuit_reachable.step[OF
          circuit_reachable.step[OF circuit_reachable.fresh 1] 2] 3[unfolded remove1.simps, simplified]] 4])
qed

definition demo_opened_circuit :: circuit_data where
  "demo_opened_circuit = new_circuit\<lparr>circ_state := Open 5, generation := 1, outcomes := [True], failed_attempts_total := 1, opened_total := 1\<rparr>"

lemma demo_circuit_open: "circuit_reachable demo_circuit (demo_opened_circuit, [])"
proof -
  note defs = try_acquire_at_def refresh_open_state_def new_circuit_def demo_attempt_def resolve_def demo_circuit_def Let_def
    push_outcome_def should_open_def open_circuit_def inc64_def wrap64_def demo_opened_circuit_def
  have 1: "circuit_step demo_circuit (new_circuit, []) (new_circuit, [demo_attempt])"
    by (rule granted[of 0]) (simp add: defs)
  have "circuit_step demo_circuit (new_circuit, [demo_attempt])
     (resolve demo_circuit (at_generation demo_attempt) (at_kind demo_attempt) True 0 new_circuit, remove1 demo_attempt [demo_attempt])"
    by (rule reported) (simp_all add: new_circuit_def)
  moreover have "resolve demo_circuit (at_generation demo_attempt) (at_kind demo_attempt) True 0 new_circuit = demo_opened_circuit"
    by (simp add: defs)
  ultimately have 2: "circuit_step demo_circuit (new_circuit, [demo_attempt]) (demo_opened_circuit, [])" by simp
  show ?thesis by (rule circuit_reachable.step[OF circuit_reachable.step[OF circuit_reachable.fresh 1] 2])
qed

section \<open>Guarantees\<close>

text \<open>C13: While a circuit is half-open, one attempt at most can act on it, the probe, which exists exactly when one is
  recorded as in flight; whatever any other outstanding attempt reports, and whenever, changes nothing.\<close>

theorem half_open_single_probe:
  assumes "validate_circuit c = Inr ()" "circuit_reachable c (d, as)" "circ_state d = HalfOpen p"
  shows "length (filter (\<lambda>a. at_generation a = generation d) as) = (if p then 1 else 0) \<and>
    (\<forall>a\<in>set as. \<forall>failed now. at_generation a \<noteq> generation d \<longrightarrow>
       resolve c (at_generation a) (at_kind a) failed now d = d \<and> drop_attempt a d = d)"
  using circuit_reachable_ok[OF assms(1,2)] assms(3)
  by (auto simp: circuit_ok_def current_def resolve_def drop_attempt_def cancel_def)

theorem half_open_single_probe_witness:
  "length (filter (\<lambda>a. at_generation a = generation demo_probing)
     [\<lparr>at_generation = 1, at_kind = HalfOpenAttempt, resolved = False\<rparr>, demo_attempt]) = 1"
  using half_open_single_probe[OF demo_circuit_valid demo_circuit_probing, of True] by (simp add: demo_probing_def)

text \<open>C14: A circuit never locks a worker out for good: once the callers have reported or dropped every attempt,
  an acquisition succeeds at any time from the end of the cool-down on; and a successful probe closes the
  circuit with an empty window.\<close>

theorem circuit_recovers:
  assumes "validate_circuit c = Inr ()" "circuit_reachable c (d, [])"
    and "\<forall>u. circ_state d = Open u \<longrightarrow> u \<le> now" "generation d < u64_max"
  shows "\<exists>d' a. try_acquire_at now d = (d', Some a) \<and>
    (at_kind a = HalfOpenAttempt \<longrightarrow> circ_state (fst (success_at c now' a d')) = Closed \<and> outcomes (fst (success_at c now' a d')) = [])"
  using circuit_reachable_ok[OF assms(1,2)] assms(3)
  by (cases "circ_state d")
    (auto simp: circuit_ok_def current_def try_acquire_at_def refresh_open_state_def Let_def success_at_def resolve_def)

theorem circuit_recovers_witness: "\<exists>d' a. try_acquire_at 9 demo_opened_circuit = (d', Some a)"
proof -
  have "\<exists>d' a. try_acquire_at 9 demo_opened_circuit = (d', Some a) \<and> (at_kind a = HalfOpenAttempt \<longrightarrow>
      circ_state (fst (success_at demo_circuit 9 a d')) = Closed \<and> outcomes (fst (success_at demo_circuit 9 a d')) = [])"
    by (rule circuit_recovers[OF demo_circuit_valid demo_circuit_open]) (simp_all add: demo_opened_circuit_def u64_max_def)
  then show ?thesis by blast
qed



text \<open>A metrics scrape reports the state the next diagnostics snapshot would, without advancing the circuit.\<close>

theorem scrape_agrees_with_snapshot: "circuit_metrics_snapshot now d = cs_state (snd (snapshot_at c now d))"
  by (auto simp: circuit_metrics_snapshot_def snapshot_at_def refresh_open_state_def Let_def split: circuit_state.split)

end
