(* ===== verification/Hash_Ring.thy ===== *)
theory Hash_Ring
  imports Text_Format "HOL-Library.Word" "HOL-Library.Product_Lexorder"
begin

text \<open>
  The consistent-hash ring of \<open>gateway/src/routing.rs\<close>: the 64-bit FNV-1a hash with its avalanche step,
  the sorted ring of virtual nodes, the owner of a key and the order in which other workers stand in for
  it.  A ring point is the pair of its position and its worker's index.
\<close>

unbundle bit_operations_syntax

section \<open>The model\<close>

definition FNV_OFFSET_BASIS :: "64 word" where "FNV_OFFSET_BASIS = 14695981039346656037"

definition FNV_PRIME :: "64 word" where "FNV_PRIME = 1099511628211"

definition stable_hash :: "string \<Rightarrow> 64 word" where
  "stable_hash bytes =
     (let h0 = foldl (\<lambda>h b. (h XOR of_nat (of_char b)) * FNV_PRIME) FNV_OFFSET_BASIS bytes;
          h1 = h0 XOR drop_bit 33 h0;
          h2 = h1 * 0xff51afd7ed558ccd;
          h3 = h2 XOR drop_bit 33 h2;
          h4 = h3 * 0xc4ceb9fe1a85ec53
      in h4 XOR drop_bit 33 h4)"

record hash_ring =
  ring_ids :: "string list"
  ring_points :: "(64 word \<times> nat) list"

datatype ring_error = RingNoWorkers | RingNoVirtualNodes | RingEmptyId | RingDuplicateId | RingTooLarge | RingCollision

definition vnode_label :: "string \<Rightarrow> nat \<Rightarrow> string" where
  "vnode_label i v = i @ ''#vnode-'' @ dec_string v"

definition raw_points :: "string list \<Rightarrow> nat \<Rightarrow> (64 word \<times> nat) list" where
  "raw_points ids vn =
     concat (map (\<lambda>(idx, i). map (\<lambda>v. (stable_hash (vnode_label i v), idx)) [0..<vn]) (List.enumerate 0 ids))"

fun adjacent_equal :: "(64 word \<times> nat) list \<Rightarrow> bool" where
  "adjacent_equal (p # q # ps) = (fst p = fst q \<or> adjacent_equal (q # ps))"
| "adjacent_equal _ = False"

definition new_ring :: "string list \<Rightarrow> nat \<Rightarrow> (ring_error, hash_ring) result" where
  "new_ring worker_ids vn =
     (let ids = map trim worker_ids
      in if ids = [] then Inl RingNoWorkers
         else if vn = 0 then Inl RingNoVirtualNodes
         else if list_ex (\<lambda>i. trim i = []) ids then Inl RingEmptyId
         else if length (remdups ids) \<noteq> length ids then Inl RingDuplicateId
         else if u64_max < length ids * vn then Inl RingTooLarge
         else let points = sort (raw_points ids vn)
              in if adjacent_equal points then Inl RingCollision
                 else Inr \<lparr>ring_ids = ids, ring_points = points\<rparr>)"

text \<open>\<open>partition_point\<close> of a slice that its predicate partitions.\<close>

definition partition_point :: "('a \<Rightarrow> bool) \<Rightarrow> 'a list \<Rightarrow> nat" where
  "partition_point P xs = length (takeWhile P xs)"

definition owner_index :: "hash_ring \<Rightarrow> string \<Rightarrow> nat" where
  "owner_index r key =
     (let point_index = partition_point (\<lambda>p. fst p < stable_hash key) (ring_points r);
          wrapped = (if point_index = length (ring_points r) then 0 else point_index)
      in snd (ring_points r ! wrapped))"

definition owner :: "hash_ring \<Rightarrow> string \<Rightarrow> string" where
  "owner r key = ring_ids r ! owner_index r key"

fun collect_owners :: "nat \<Rightarrow> nat list \<Rightarrow> bool list \<Rightarrow> nat list \<Rightarrow> nat list" where
  "collect_owners n [] seen owners = owners"
| "collect_owners n (w # ws) seen owners =
     (if \<not> seen ! w
      then let owners' = owners @ [w]
           in if length owners' = n then owners' else collect_owners n ws (seen[w := True]) owners'
      else collect_owners n ws seen owners)"

definition owner_indices :: "hash_ring \<Rightarrow> string \<Rightarrow> nat list" where
  "owner_indices r key =
     (let n = length (ring_points r);
          start = partition_point (\<lambda>p. fst p < stable_hash key) (ring_points r);
          visited = map (\<lambda>offset. snd (ring_points r ! ((start + offset) mod n))) [0..<n]
      in collect_owners (length (ring_ids r)) visited (replicate (length (ring_ids r)) False) [])"

section \<open>Well-formed rings\<close>

end
