(* ===== verification/Routing.thy ===== *)
theory Routing
  imports Circuit_Breaker Hash_Ring
begin

text \<open>
  The worker pool of \<open>gateway/src/routing.rs\<close>: registration and validation, the five routing
  policies, leases and the accounting behind them.  A worker's atomics, its execution semaphore (as the
  number of free permits), its latency estimate and its breaker are fields of one record; a lease names its
  worker by index.  The clock is an argument, read once per breaker that is tried.

  Latency estimates are doubles.  Their type is a parameter: a linear order (no estimate is NaN, since
  \<open>alpha\<close> is validated and samples are finite) with the arithmetic the code uses on it.
\<close>

section \<open>Doubles\<close>

record 'f f64_ops =
  f_zero :: 'f
  f_one :: 'f
  f_infinity :: 'f
  f_is_finite :: "'f \<Rightarrow> bool"
  f_add :: "'f \<Rightarrow> 'f \<Rightarrow> 'f"
  f_sub :: "'f \<Rightarrow> 'f \<Rightarrow> 'f"
  f_mul :: "'f \<Rightarrow> 'f \<Rightarrow> 'f"
  f_of_duration_ms :: "nat \<Rightarrow> 'f"

section \<open>Workers, pools and leases\<close>

datatype routing_policy = RoundRobin | LeastInFlight | WeightedRoundRobin | EwmaLatency | ConsistentHash

record 'f worker =
  wk_id :: string
  wk_base_url :: string
  wk_weight :: nat
  smooth_current :: int
  ewma_ms :: "'f option"
  observations :: nat
  in_flight :: nat
  free_slots :: nat
  concurrency_limit :: nat
  breaker :: circuit_data

record 'f worker_pool =
  workers :: "'f worker list"
  next_start :: nat
  pool_policy :: routing_policy
  total_weight :: int
  ewma_alpha :: 'f
  ewma_probe_interval :: nat
  ewma_decisions :: nat
  pool_ring :: hash_ring
  total_execution_capacity :: nat
  circuit_config :: circuit_breaker_config

record 'f routing_config =
  rc_policy :: routing_policy
  rc_ewma_alpha :: 'f
  rc_ewma_probe_interval :: nat
  rc_virtual_nodes :: nat
  rc_worker_concurrency_limit :: nat

record worker_registration =
  wr_id :: string
  wr_base_url :: string
  wr_weight :: nat

record worker_lease =
  lease_worker :: nat
  started_at :: nat
  latency_observed :: bool
  lease_attempt :: "circuit_attempt option"

datatype routing_error = NoWorkers | EmptyWorker | ZeroWeight | DuplicateWorker | WeightTooLarge | BadAlpha
  | BadProbeInterval | BadVirtualNodes | BadConcurrency | CircuitInvalid circuit_error | CapacityTooLarge | RingInvalid ring_error

definition trim_end_slashes :: "string \<Rightarrow> string" where
  "trim_end_slashes s = rev (dropWhile (\<lambda>c. c = CHR ''/'') (rev s))"

fun sum_weights :: "int \<Rightarrow> worker_registration list \<Rightarrow> (routing_error, int) result" where
  "sum_weights tot [] = Inr tot"
| "sum_weights tot (w # ws) =
     (if 2 ^ 63 - 1 < tot + int (wr_weight w) then Inl WeightTooLarge else sum_weights (tot + int (wr_weight w)) ws)"

definition new_worker :: "nat \<Rightarrow> worker_registration \<Rightarrow> 'f worker" where
  "new_worker limit w =
     \<lparr>wk_id = trim (wr_id w), wk_base_url = trim_end_slashes (wr_base_url w), wk_weight = wr_weight w,
      smooth_current = 0, ewma_ms = None, observations = 0, in_flight = 0, free_slots = limit,
      concurrency_limit = limit, breaker = new_circuit\<rparr>"

definition from_config ::
  "('f::linorder) f64_ops \<Rightarrow> worker_registration list \<Rightarrow> 'f routing_config \<Rightarrow> circuit_breaker_config
     \<Rightarrow> (routing_error, 'f worker_pool) result" where
  "from_config f ws rc cc =
     (if ws = [] then Inl NoWorkers
      else if list_ex (\<lambda>w. trim (wr_id w) = [] \<or> trim (wr_base_url w) = []) ws then Inl EmptyWorker
      else if list_ex (\<lambda>w. wr_weight w = 0) ws then Inl ZeroWeight
      else if length (remdups (map (\<lambda>w. trim (wr_id w)) ws)) \<noteq> length ws then Inl DuplicateWorker
      else and_then (sum_weights 0 ws) (\<lambda>tot.
        if \<not> f_is_finite f (rc_ewma_alpha rc) \<or> rc_ewma_alpha rc \<le> f_zero f \<or> f_one f < rc_ewma_alpha rc then Inl BadAlpha
        else if rc_ewma_probe_interval rc = 0 then Inl BadProbeInterval
        else if rc_virtual_nodes rc = 0 then Inl BadVirtualNodes
        else if 100000 < rc_virtual_nodes rc then Inl BadVirtualNodes
        else if rc_worker_concurrency_limit rc = 0 then Inl BadConcurrency
        else if 100000 < rc_worker_concurrency_limit rc then Inl BadConcurrency
        else case validate_circuit cc of
          Inl e \<Rightarrow> Inl (CircuitInvalid e)
        | Inr _ \<Rightarrow>
          if u64_max < length ws * rc_worker_concurrency_limit rc then Inl CapacityTooLarge
          else case new_ring (map (\<lambda>w. trim (wr_id w)) ws) (rc_virtual_nodes rc) of
            Inl e \<Rightarrow> Inl (RingInvalid e)
          | Inr r \<Rightarrow>
             Inr \<lparr>workers = map (new_worker (rc_worker_concurrency_limit rc)) ws, next_start = 0,
                  pool_policy = rc_policy rc, total_weight = tot, ewma_alpha = rc_ewma_alpha rc,
                  ewma_probe_interval = rc_ewma_probe_interval rc, ewma_decisions = 0, pool_ring = r,
                  total_execution_capacity = length ws * rc_worker_concurrency_limit rc, circuit_config = cc\<rparr>))"

section \<open>Leases\<close>

definition update_worker :: "nat \<Rightarrow> ('f worker \<Rightarrow> 'f worker) \<Rightarrow> 'f worker_pool \<Rightarrow> 'f worker_pool" where
  "update_worker i g p = p\<lparr>workers := (workers p)[i := g (workers p ! i)]\<rparr>"

definition lease :: "nat \<Rightarrow> nat \<Rightarrow> circuit_attempt \<Rightarrow> 'f worker_pool \<Rightarrow> 'f worker_pool \<times> worker_lease" where
  "lease now i a p =
     (update_worker i (\<lambda>w. w\<lparr>in_flight := inc64 (in_flight w)\<rparr>) p,
      \<lparr>lease_worker = i, started_at = now, latency_observed = False, lease_attempt = Some a\<rparr>)"

text \<open>\<open>clock k\<close> is the reading of the clock for the \<open>k\<close>-th candidate.\<close>

fun try_lease_indices ::
  "(nat \<Rightarrow> nat) \<Rightarrow> nat \<Rightarrow> nat list \<Rightarrow> 'f worker_pool \<Rightarrow> 'f worker_pool \<times> (nat \<times> worker_lease) option" where
  "try_lease_indices clock k [] p = (p, None)"
| "try_lease_indices clock k (i # is) p =
     (case try_acquire_at (clock k) (breaker (workers p ! i)) of
        (b, None) \<Rightarrow> try_lease_indices clock (Suc k) is (update_worker i (\<lambda>w. w\<lparr>breaker := b\<rparr>) p)
      | (b, Some a) \<Rightarrow>
          let (p', l) = lease (clock k) i a (update_worker i (\<lambda>w. w\<lparr>breaker := b\<rparr>) p) in (p', Some (i, l)))"

definition fetch_next :: "'f worker_pool \<Rightarrow> 'f worker_pool \<times> nat" where
  "fetch_next p = (p\<lparr>next_start := inc64 (next_start p)\<rparr>, next_start p mod length (workers p))"

definition rotated_indices :: "'f worker_pool \<Rightarrow> nat \<Rightarrow> nat list" where
  "rotated_indices p start = map (\<lambda>offset. (start + offset) mod length (workers p)) [0..<length (workers p)]"

section \<open>Policies\<close>

definition drop_index :: "'f worker_pool \<times> (nat \<times> worker_lease) option \<Rightarrow> 'f worker_pool \<times> worker_lease option" where
  "drop_index r = (fst r, map_option snd (snd r))"

definition retry_candidates :: "string set \<Rightarrow> nat \<Rightarrow> 'f worker_pool \<Rightarrow> nat list" where
  "retry_candidates attempted start p =
     filter (\<lambda>i. wk_id (workers p ! i) \<notin> attempted) (rotated_indices p start)
     @ filter (\<lambda>i. wk_id (workers p ! i) \<in> attempted) (rotated_indices p start)"

definition try_choose_retry :: "(nat \<Rightarrow> nat) \<Rightarrow> string set \<Rightarrow> 'f worker_pool \<Rightarrow> 'f worker_pool \<times> worker_lease option" where
  "try_choose_retry clock attempted p =
     (let (p', start) = fetch_next p in drop_index (try_lease_indices clock 0 (retry_candidates attempted start p') p'))"

definition try_choose_round_robin :: "(nat \<Rightarrow> nat) \<Rightarrow> 'f worker_pool \<Rightarrow> 'f worker_pool \<times> worker_lease option" where
  "try_choose_round_robin clock p =
     (let (p', start) = fetch_next p in drop_index (try_lease_indices clock 0 (rotated_indices p' start) p'))"

definition least_in_flight_candidates :: "nat \<Rightarrow> 'f worker_pool \<Rightarrow> nat list" where
  "least_in_flight_candidates start p = sort_key (\<lambda>i. in_flight (workers p ! i)) (rotated_indices p start)"

definition try_choose_least_in_flight :: "(nat \<Rightarrow> nat) \<Rightarrow> 'f worker_pool \<Rightarrow> 'f worker_pool \<times> worker_lease option" where
  "try_choose_least_in_flight clock p =
     (let (p', start) = fetch_next p
      in drop_index (try_lease_indices clock 0 (least_in_flight_candidates start p') p'))"

definition i64_wrap :: "int \<Rightarrow> int" where
  "i64_wrap x = (x + 2 ^ 63) mod 2 ^ 64 - 2 ^ 63"

text \<open>Every worker's entitlement grows by its weight.\<close>

definition accrue :: "'f worker_pool \<Rightarrow> 'f worker_pool" where
  "accrue p = p\<lparr>workers := map (\<lambda>w. w\<lparr>smooth_current := i64_wrap (smooth_current w + int (wk_weight w))\<rparr>) (workers p)\<rparr>"

definition weighted_candidates :: "nat \<Rightarrow> 'f worker_pool \<Rightarrow> nat list" where
  "weighted_candidates start p = sort_key (\<lambda>i. - smooth_current (workers p ! i)) (rotated_indices p start)"

definition try_choose_weighted_round_robin :: "(nat \<Rightarrow> nat) \<Rightarrow> 'f worker_pool \<Rightarrow> 'f worker_pool \<times> worker_lease option" where
  "try_choose_weighted_round_robin clock p =
     (let (p', start) = fetch_next p; p1 = accrue p'
      in case try_lease_indices clock 0 (weighted_candidates start p1) p1 of
           (p2, None) \<Rightarrow> (p2, None)
         | (p2, Some (selected, l)) \<Rightarrow>
             (update_worker selected (\<lambda>w. w\<lparr>smooth_current := i64_wrap (smooth_current w - total_weight p2)\<rparr>) p2, Some l))"

fun ewma_scan :: "(nat \<times> 'f::linorder option) list \<Rightarrow> nat \<Rightarrow> 'f \<Rightarrow> nat" where
  "ewma_scan [] selected lowest = selected"
| "ewma_scan ((i, None) # xs) selected lowest = i"
| "ewma_scan ((i, Some e) # xs) selected lowest =
     (if e < lowest then ewma_scan xs i e else ewma_scan xs selected lowest)"

definition ewma_candidates :: "('f::linorder) f64_ops \<Rightarrow> nat \<Rightarrow> 'f worker_pool \<Rightarrow> nat list" where
  "ewma_candidates f start p =
     (let rotated = rotated_indices p start;
          selected = ewma_scan (map (\<lambda>i. (i, ewma_ms (workers p ! i))) rotated) start (f_infinity f)
      in selected # filter (\<lambda>i. i \<noteq> selected) rotated)"

definition try_choose_ewma_latency ::
  "('f::linorder) f64_ops \<Rightarrow> (nat \<Rightarrow> nat) \<Rightarrow> 'f worker_pool \<Rightarrow> 'f worker_pool \<times> worker_lease option" where
  "try_choose_ewma_latency f clock p0 =
     (let (p1, start) = fetch_next p0;
          decision = inc64 (ewma_decisions p1);
          p = p1\<lparr>ewma_decisions := decision\<rparr>
      in if ewma_probe_interval p dvd decision
         then drop_index (try_lease_indices clock 0 (rotated_indices p start) p)
         else drop_index (try_lease_indices clock 0 (ewma_candidates f start p) p))"

definition try_choose_consistent_hash :: "(nat \<Rightarrow> nat) \<Rightarrow> string \<Rightarrow> 'f worker_pool \<Rightarrow> 'f worker_pool \<times> worker_lease option" where
  "try_choose_consistent_hash clock key p =
     drop_index (try_lease_indices clock 0 (owner_indices (pool_ring p) key) p)"

definition try_choose :: "('f::linorder) f64_ops \<Rightarrow> (nat \<Rightarrow> nat) \<Rightarrow> 'f worker_pool \<Rightarrow> 'f worker_pool \<times> worker_lease option" where
  "try_choose f clock p =
     (case pool_policy p of
        RoundRobin \<Rightarrow> try_choose_round_robin clock p
      | LeastInFlight \<Rightarrow> try_choose_least_in_flight clock p
      | WeightedRoundRobin \<Rightarrow> try_choose_weighted_round_robin clock p
      | EwmaLatency \<Rightarrow> try_choose_ewma_latency f clock p
      | ConsistentHash \<Rightarrow> try_choose_consistent_hash clock [] p)"

definition try_choose_for_key ::
  "('f::linorder) f64_ops \<Rightarrow> (nat \<Rightarrow> nat) \<Rightarrow> string \<Rightarrow> 'f worker_pool \<Rightarrow> 'f worker_pool \<times> worker_lease option" where
  "try_choose_for_key f clock key p =
     (case pool_policy p of ConsistentHash \<Rightarrow> try_choose_consistent_hash clock key p | _ \<Rightarrow> try_choose f clock p)"

section \<open>What a lease does\<close>

definition try_reserve_execution :: "worker_lease \<Rightarrow> 'f worker_pool \<Rightarrow> 'f worker_pool \<times> bool" where
  "try_reserve_execution l p =
     (if free_slots (workers p ! lease_worker l) = 0 then (p, False)
      else (update_worker (lease_worker l) (\<lambda>w. w\<lparr>free_slots := free_slots w - 1\<rparr>) p, True))"

definition release_execution :: "nat \<Rightarrow> 'f worker_pool \<Rightarrow> 'f worker_pool" where
  "release_execution i p = update_worker i (\<lambda>w. w\<lparr>free_slots := free_slots w + 1\<rparr>) p"

definition record_circuit_success :: "nat \<Rightarrow> worker_lease \<Rightarrow> 'f worker_pool \<Rightarrow> 'f worker_pool \<times> worker_lease" where
  "record_circuit_success now l p =
     (case lease_attempt l of
        None \<Rightarrow> (p, l)
      | Some a \<Rightarrow> (update_worker (lease_worker l) (\<lambda>w. w\<lparr>breaker := fst (success_at (circuit_config p) now a (breaker w))\<rparr>) p,
                   l\<lparr>lease_attempt := None\<rparr>))"

definition record_circuit_failure :: "nat \<Rightarrow> worker_lease \<Rightarrow> 'f worker_pool \<Rightarrow> 'f worker_pool \<times> worker_lease" where
  "record_circuit_failure now l p =
     (case lease_attempt l of
        None \<Rightarrow> (p, l)
      | Some a \<Rightarrow> (update_worker (lease_worker l) (\<lambda>w. w\<lparr>breaker := fst (failure_at (circuit_config p) now a (breaker w))\<rparr>) p,
                   l\<lparr>lease_attempt := None\<rparr>))"

definition observe_worker_latency :: "'f f64_ops \<Rightarrow> 'f \<Rightarrow> nat \<Rightarrow> 'f worker \<Rightarrow> 'f worker" where
  "observe_worker_latency f alpha latency w =
     (let sample = f_of_duration_ms f latency
      in w\<lparr>ewma_ms := Some (case ewma_ms w of
               Some previous \<Rightarrow> f_add f (f_mul f alpha sample) (f_mul f (f_sub f (f_one f) alpha) previous)
             | None \<Rightarrow> sample),
           observations := inc64 (observations w)\<rparr>)"

definition observe_duration :: "'f f64_ops \<Rightarrow> nat \<Rightarrow> worker_lease \<Rightarrow> 'f worker_pool \<Rightarrow> 'f worker_pool \<times> worker_lease" where
  "observe_duration f latency l p =
     (if \<not> latency_observed l
      then (update_worker (lease_worker l) (observe_worker_latency f (ewma_alpha p) latency) p, l\<lparr>latency_observed := True\<rparr>)
      else (p, l))"

text \<open>Dropping a lease gives the request back and cancels an attempt nobody reported on.\<close>

definition drop_lease :: "worker_lease \<Rightarrow> 'f worker_pool \<Rightarrow> 'f worker_pool" where
  "drop_lease l p =
     update_worker (lease_worker l)
       (\<lambda>w. (case lease_attempt l of None \<Rightarrow> w | Some a \<Rightarrow> w\<lparr>breaker := drop_attempt a (breaker w)\<rparr>)
             \<lparr>in_flight := wrap64 (in_flight w + u64_max)\<rparr>) p"

section \<open>Views\<close>

record 'f worker_snapshot =
  ws_id :: string
  ws_base_url :: string
  ws_weight :: nat
  ws_in_flight :: nat
  ws_executing :: nat
  ws_concurrency_limit :: nat
  ws_ewma_ttft_ms :: "'f option"
  ws_ewma_observations :: nat
  ws_circuit :: circuit_snapshot

definition worker_snapshot_of :: "circuit_breaker_config \<Rightarrow> nat \<Rightarrow> 'f worker \<Rightarrow> 'f worker_snapshot" where
  "worker_snapshot_of c now w =
     \<lparr>ws_id = wk_id w, ws_base_url = wk_base_url w, ws_weight = wk_weight w, ws_in_flight = in_flight w,
      ws_executing = concurrency_limit w - free_slots w, ws_concurrency_limit = concurrency_limit w,
      ws_ewma_ttft_ms = ewma_ms w, ws_ewma_observations = observations w,
      ws_circuit = snd (snapshot_at c now (breaker w))\<rparr>"

definition snapshots :: "nat \<Rightarrow> 'f worker_pool \<Rightarrow> 'f worker_pool \<times> 'f worker_snapshot list" where
  "snapshots now p =
     (p\<lparr>workers := map (\<lambda>w. w\<lparr>breaker := fst (snapshot_at (circuit_config p) now (breaker w))\<rparr>) (workers p)\<rparr>,
      map (worker_snapshot_of (circuit_config p) now) (workers p))"

record pool_metrics =
  pm_workers :: nat
  pm_in_flight :: nat
  pm_circuits_closed :: nat
  pm_circuits_open :: nat
  pm_circuits_half_open :: nat

definition add_worker_metrics :: "nat \<Rightarrow> pool_metrics \<Rightarrow> 'f worker \<Rightarrow> pool_metrics" where
  "add_worker_metrics now m w =
     (let m1 = m\<lparr>pm_in_flight := sat_add64 (pm_in_flight m) (in_flight w)\<rparr>
      in case circuit_metrics_snapshot now (breaker w) of
           NameClosed \<Rightarrow> m1\<lparr>pm_circuits_closed := sat_add64 (pm_circuits_closed m1) 1\<rparr>
         | NameOpen \<Rightarrow> m1\<lparr>pm_circuits_open := sat_add64 (pm_circuits_open m1) 1\<rparr>
         | NameHalfOpen \<Rightarrow> m1\<lparr>pm_circuits_half_open := sat_add64 (pm_circuits_half_open m1) 1\<rparr>)"

definition pool_metrics_snapshot :: "nat \<Rightarrow> 'f worker_pool \<Rightarrow> pool_metrics" where
  "pool_metrics_snapshot now p =
     foldl (add_worker_metrics now)
       \<lparr>pm_workers = length (workers p), pm_in_flight = 0, pm_circuits_closed = 0, pm_circuits_open = 0,
        pm_circuits_half_open = 0\<rparr> (workers p)"

section \<open>Policy names\<close>

datatype policy_error = UnknownPolicy

definition policy_from_str :: "string \<Rightarrow> (policy_error, routing_policy) result" where
  "policy_from_str value =
     (let v = map to_ascii_lower (trim value)
      in if v \<in> {''round-robin'', ''round_robin'', ''rr''} then Inr RoundRobin
         else if v \<in> {''least-in-flight'', ''least_in_flight'', ''lif''} then Inr LeastInFlight
         else if v \<in> {''weighted'', ''weighted-round-robin'', ''weighted_round_robin'', ''wrr''} then Inr WeightedRoundRobin
         else if v \<in> {''ewma'', ''ewma-latency'', ''ewma_latency''} then Inr EwmaLatency
         else if v \<in> {''consistent-hash'', ''consistent_hash'', ''hash''} then Inr ConsistentHash
         else Inl UnknownPolicy)"

definition policy_display :: "routing_policy \<Rightarrow> string" where
  "policy_display p = (case p of RoundRobin \<Rightarrow> ''round-robin'' | LeastInFlight \<Rightarrow> ''least-in-flight''
     | WeightedRoundRobin \<Rightarrow> ''weighted'' | EwmaLatency \<Rightarrow> ''ewma-latency'' | ConsistentHash \<Rightarrow> ''consistent-hash'')"

definition for_policy :: "'f \<Rightarrow> routing_policy \<Rightarrow> 'f routing_config" where
  "for_policy quarter policy = \<lparr>rc_policy = policy, rc_ewma_alpha = quarter, rc_ewma_probe_interval = 10,
     rc_virtual_nodes = 128, rc_worker_concurrency_limit = 8\<rparr>"

end
