(* ===== verification/Hash_Ring_Props.thy ===== *)
theory Hash_Ring_Props
  imports Hash_Ring "HOL-Library.Multiset"
begin

text \<open>
  What the ring promises: every key has an owner and a fail-over order that visits every worker once
  starting with it, and taking a worker away moves only the keys that worker owned.
\<close>

section \<open>Well-formed rings\<close>

text \<open>The ring as positions and worker ids.\<close>

definition on_ring :: "hash_ring \<Rightarrow> (64 word \<times> string) list" where
  "on_ring r = map (\<lambda>(p, i). (p, ring_ids r ! i)) (ring_points r)"

definition by_position :: "('a::linorder \<times> 'b) list \<Rightarrow> bool" where
  "by_position ps \<longleftrightarrow> sorted_wrt (\<lambda>p q. fst p < fst q) ps"

lemma by_position_unique:
  assumes "by_position xs" "by_position ys" "set xs = set ys"
  shows "xs = ys"
proof -
  have k: "sorted (map fst zs) \<and> distinct (map fst zs)" if "by_position zs" for zs :: "('a::linorder \<times> 'b) list"
    using that by (simp add: by_position_def flip: strict_sorted_iff sorted_wrt_map)
  then have m: "map fst xs = map fst ys"
    using assms by (intro sorted_distinct_set_unique) auto
  have "inj_on fst (set xs \<union> set ys)" using k[OF assms(1)] assms(3) by (simp add: distinct_map)
  then show ?thesis using m by (rule map_inj_on[rotated])
qed

lemma by_position_filter: "by_position ps \<Longrightarrow> by_position (filter P ps)"
  by (simp add: by_position_def sorted_wrt_filter)

lemma sorted_by_position:
  assumes "sorted (ps :: (64 word \<times> nat) list)" "\<not> adjacent_equal ps"
  shows "by_position ps"
  using assms
proof (induction ps rule: adjacent_equal.induct)
  case (1 p q ps)
  then have ih: "by_position (q # ps)" and lt: "fst p < fst q"
    by (auto simp: less_eq_prod_def)
  then show ?case by (auto simp: by_position_def intro: less_trans)
qed (simp_all add: by_position_def)

lemma new_ringD:
  assumes "new_ring ws vn = Inr r"
  shows "ring_ids r = map trim ws" "ring_ids r \<noteq> []" "0 < vn" "distinct (ring_ids r)" "by_position (ring_points r)"
    "set (ring_points r) = set (raw_points (ring_ids r) vn)"
proof -
  let ?ps = "sort (raw_points (map trim ws) vn)"
  have r: "r = \<lparr>ring_ids = map trim ws, ring_points = ?ps\<rparr>" and c: "map trim ws \<noteq> []" "0 < vn"
      "length (remdups (map trim ws)) = length (map trim ws)" "\<not> adjacent_equal ?ps"
    using assms by (auto simp: new_ring_def Let_def split: if_splits)
  then show "ring_ids r = map trim ws" "ring_ids r \<noteq> []" "0 < vn"
    "set (ring_points r) = set (raw_points (ring_ids r) vn)" by simp_all
  show "distinct (ring_ids r)" using r c(3) by (metis hash_ring.select_convs(1) length_remdups_eq remdups_id_iff_distinct)
  show "by_position (ring_points r)" using r sorted_by_position[OF _ c(4)] by simp
qed

lemma set_raw_points:
  "set (raw_points ids vn) = (\<lambda>(k, v). (stable_hash (vnode_label (ids ! k) v), k)) ` ({..<length ids} \<times> {..<vn})"
proof -
  have "set (List.enumerate 0 ids) = (\<lambda>k. (k, ids ! k)) ` {..<length ids}"
    by (auto simp: in_set_enumerate_eq image_iff)
  then show ?thesis by (force simp: raw_points_def)
qed

lemma ring_indices:
  assumes "new_ring ws vn = Inr r"
  shows "snd ` set (ring_points r) = {..<length (ring_ids r)}" "ring_points r \<noteq> []"
proof -
  have p: "set (ring_points r) = (\<lambda>(k, v). (stable_hash (vnode_label (ring_ids r ! k) v), k)) ` ({..<length (ring_ids r)} \<times> {..<vn})"
    using new_ringD(6)[OF assms] set_raw_points by simp
  then show i: "snd ` set (ring_points r) = {..<length (ring_ids r)}"
    using new_ringD(3)[OF assms] by (force simp: image_iff)
  then show "ring_points r \<noteq> []" using new_ringD(2)[OF assms] by (cases "ring_points r") auto
qed

lemma on_ring_set:
  assumes "new_ring ws vn = Inr r"
  shows "set (on_ring r) = (\<lambda>(i, v). (stable_hash (vnode_label i v), i)) ` (set (ring_ids r) \<times> {..<vn})"
proof -
  have "set (on_ring r) = (\<lambda>(k, v). (stable_hash (vnode_label (ring_ids r ! k) v), ring_ids r ! k)) ` ({..<length (ring_ids r)} \<times> {..<vn})"
    using new_ringD(6)[OF assms] by (force simp: on_ring_def set_raw_points)
  also have "\<dots> = (\<lambda>(i, v). (stable_hash (vnode_label i v), i)) ` ((!) (ring_ids r) ` {..<length (ring_ids r)} \<times> {..<vn})"
    by force
  also have "(!) (ring_ids r) ` {..<length (ring_ids r)} = set (ring_ids r)" by (auto simp: set_conv_nth)
  finally show ?thesis .
qed

lemma on_ring_by_position: "new_ring ws vn = Inr r \<Longrightarrow> by_position (on_ring r)"
  using new_ringD(5)[of ws vn r] by (simp add: on_ring_def by_position_def sorted_wrt_map case_prod_beta)

section \<open>Owners\<close>

text \<open>The specification: the first point at or after the key's position, or the first point of all.\<close>

definition ring_lookup :: "'a::linorder \<Rightarrow> ('a \<times> 'b) list \<Rightarrow> 'b" where
  "ring_lookup h ps = (case filter (\<lambda>p. h \<le> fst p) ps of [] \<Rightarrow> snd (hd ps) | p # _ \<Rightarrow> snd p)"

lemma dropWhile_by_position:
  "by_position ps \<Longrightarrow> dropWhile (\<lambda>p. fst p < h) ps = filter (\<lambda>p. h \<le> fst p) ps"
proof (induction ps)
  case (Cons p ps)
  show ?case
  proof (cases "fst p < h")
    case False
    then have "filter (\<lambda>p. h \<le> fst p) ps = ps"
      using Cons.prems by (intro filter_True) (auto simp: by_position_def)
    then show ?thesis using False by simp
  qed (use Cons in \<open>auto simp: by_position_def\<close>)
qed simp

lemma nth_partition_point:
  "partition_point P xs < length xs \<Longrightarrow> xs ! partition_point P xs = hd (dropWhile P xs)"
  by (induction xs) (auto simp: partition_point_def)

lemma partition_point_end: "partition_point P xs = length xs \<longleftrightarrow> dropWhile P xs = []"
  by (induction xs) (auto simp: partition_point_def)

lemma partition_point_le: "partition_point P xs \<le> length xs"
  by (simp add: partition_point_def length_takeWhile_le)

lemma owner_index_lookup:
  assumes "by_position (ring_points r)" "ring_points r \<noteq> []"
  shows "owner_index r key = ring_lookup (stable_hash key) (ring_points r)"
proof (cases "partition_point (\<lambda>p. fst p < stable_hash key) (ring_points r) = length (ring_points r)")
  case True
  then show ?thesis
    using assms by (simp add: owner_index_def Let_def ring_lookup_def partition_point_end dropWhile_by_position hd_conv_nth del: filter_empty_conv filter_False)
next
  case False
  then have "partition_point (\<lambda>p. fst p < stable_hash key) (ring_points r) < length (ring_points r)"
    using partition_point_le le_neq_implies_less by blast
  then show ?thesis
    using False nth_partition_point[of "\<lambda>p. fst p < stable_hash key" "ring_points r"] assms
    by (auto simp: owner_index_def Let_def ring_lookup_def partition_point_end dropWhile_by_position split: list.split)
qed

lemma owner_lookup:
  assumes "new_ring ws vn = Inr r"
  shows "owner r key = ring_lookup (stable_hash key) (on_ring r)"
proof -
  note i = owner_index_lookup[OF new_ringD(5)[OF assms] ring_indices(2)[OF assms], of key]
  have f: "filter (\<lambda>p. h \<le> fst p) (on_ring r) = map (\<lambda>(p, i). (p, ring_ids r ! i)) (filter (\<lambda>p. h \<le> fst p) (ring_points r))" for h
    by (simp add: on_ring_def filter_map o_def case_prod_beta)
  show ?thesis
    using ring_indices(2)[OF assms] unfolding owner_def i ring_lookup_def f
    by (cases "ring_points r") (auto simp: on_ring_def split: list.split)
qed

lemma ring_lookup_filter:
  assumes "ps \<noteq> []" "ring_lookup h ps \<noteq> w"
  shows "ring_lookup h (filter (\<lambda>p. snd p \<noteq> w) ps) = ring_lookup h ps"
proof -
  have c: "filter (\<lambda>p. h \<le> fst p) (filter (\<lambda>p. snd p \<noteq> w) ps) = filter (\<lambda>p. snd p \<noteq> w) (filter (\<lambda>p. h \<le> fst p) ps)"
    by (simp add: conj_commute)
  show ?thesis
    using assms unfolding ring_lookup_def c
    by (cases ps; cases "filter (\<lambda>p. h \<le> fst p) ps") auto
qed

section \<open>Fail-over order\<close>

lemma collect_owners_all:
  assumes "distinct owners" "set owners \<union> set ws = {..<n}" "length seen = n" "\<forall>w<n. seen ! w \<longleftrightarrow> w \<in> set owners"
  shows "distinct (collect_owners n ws seen owners) \<and> set (collect_owners n ws seen owners) = {..<n} \<and>
    prefix owners (collect_owners n ws seen owners)"
  using assms
proof (induction n ws seen owners rule: collect_owners.induct)
  case (2 n w ws seen owners)
  have w: "w < n" using 2(4) by auto
  show ?case
  proof (cases "seen ! w")
    case True
    then show ?thesis using 2(2)[OF _ 2(3) _ 2(5,6)] 2(4,6) w by (auto simp: insert_absorb)
  next
    case False
    then have d: "distinct (owners @ [w])" using 2(3,6) w by auto
    show ?thesis
    proof (cases "length (owners @ [w]) = n")
      case True
      have "set (owners @ [w]) \<subseteq> {..<n}" using 2(4) w by auto
      moreover have "card (set (owners @ [w])) = card {..<n}" using distinct_card[OF d] True by simp
      ultimately have "set (owners @ [w]) = {..<n}" by (intro card_subset_eq) simp_all
      then show ?thesis using False True d by simp
    next
      case nf: False
      have "distinct (collect_owners n ws (seen[w := True]) (owners @ [w])) \<and>
          set (collect_owners n ws (seen[w := True]) (owners @ [w])) = {..<n} \<and>
          prefix (owners @ [w]) (collect_owners n ws (seen[w := True]) (owners @ [w]))"
        using 2(1)[OF False refl nf d] 2(4-6) w by (auto simp: nth_list_update)
      then show ?thesis using False nf by (auto dest: append_prefixD)
    qed
  qed
qed auto

lemma collect_owners_hd:
  assumes "set (w # ws) = {..<n}"
  shows "hd (collect_owners n (w # ws) (replicate n False) []) = w"
proof -
  have w: "w < n" using assms by auto
  have "prefix [w] (collect_owners n ws ((replicate n False)[w := True]) [w])"
    using collect_owners_all[of "[w]" ws n "(replicate n False)[w := True]"] assms w by (auto simp: nth_list_update)
  then show ?thesis using w by (auto simp: Let_def prefix_def)
qed

lemma rotate_nth: "map (\<lambda>k. xs ! ((s + k) mod length xs)) [0..<length xs] = rotate s xs"
  by (rule nth_equalityI) (auto simp: nth_rotate)

lemma owner_indices_order:
  assumes r: "new_ring ws vn = Inr r"
  shows "distinct (owner_indices r key) \<and> set (owner_indices r key) = {..<length (ring_ids r)} \<and>
    hd (owner_indices r key) = owner_index r key"
proof -
  let ?ps = "ring_points r" and ?n = "length (ring_ids r)"
  define start where "start = partition_point (\<lambda>p. fst p < stable_hash key) ?ps"
  define vis where "vis = map (\<lambda>offset. snd (?ps ! ((start + offset) mod length ?ps))) [0..<length ?ps]"
  have v: "vis = map snd (rotate start ?ps)"
    unfolding vis_def by (simp flip: rotate_nth[of ?ps start] add: o_def)
  then have sv: "set vis = {..<?n}" using ring_indices(1)[OF r] by simp
  have o: "owner_indices r key = collect_owners ?n vis (replicate ?n False) []"
    by (simp add: owner_indices_def Let_def vis_def start_def)
  have c: "distinct (owner_indices r key) \<and> set (owner_indices r key) = {..<?n}"
    using collect_owners_all[of "[]" vis ?n "replicate ?n False"] sv unfolding o by simp
  have ne: "?ps \<noteq> []" using ring_indices(2)[OF r] .
  then have vh: "vis = snd (?ps ! (start mod length ?ps)) # tl vis"
    unfolding vis_def by (cases "length ?ps") (auto simp: upt_rec)
  have "hd (owner_indices r key) = snd (?ps ! (start mod length ?ps))"
    using collect_owners_hd[of "snd (?ps ! (start mod length ?ps))" "tl vis" ?n] sv vh unfolding o by metis
  moreover have "snd (?ps ! (start mod length ?ps)) = owner_index r key"
    using partition_point_le[of "\<lambda>p. fst p < stable_hash key" ?ps] ne
    by (auto simp: owner_index_def Let_def start_def le_less)
  ultimately show ?thesis using c by simp
qed

section \<open>A ring of three workers\<close>

definition demo_ring :: hash_ring where
  "demo_ring = \<lparr>ring_ids = [''a'', ''b'', ''c''], ring_points = [(168086587484336516, 0), (1445577222437020839, 2), (2865587997922140901, 1)]\<rparr>"

definition demo_ring_less :: hash_ring where
  "demo_ring_less = \<lparr>ring_ids = [''a'', ''c''], ring_points = [(168086587484336516, 0), (1445577222437020839, 1)]\<rparr>"

lemma demo_hashes:
  "stable_hash ''a#vnode-0'' = 168086587484336516" "stable_hash ''b#vnode-0'' = 2865587997922140901"
  "stable_hash ''c#vnode-0'' = 1445577222437020839" "stable_hash ''x'' = 478781583942767621"
  by code_simp+

lemma demo_trims [simp]: "trim ''a'' = ''a''" "trim ''b'' = ''b''" "trim ''c'' = ''c''"
  by (rule trim_alnum; simp add: is_ascii_alphanumeric_def)+

lemma demo_rings: "new_ring [''a'', ''b'', ''c''] 1 = Inr demo_ring" "new_ring [''a'', ''c''] 1 = Inr demo_ring_less"
proof -
  have z: "dec_string 0 = ''0''" by code_simp
  show "new_ring [''a'', ''b'', ''c''] 1 = Inr demo_ring" "new_ring [''a'', ''c''] 1 = Inr demo_ring_less"
    by (simp_all add: new_ring_def demo_ring_def demo_ring_less_def raw_points_def vnode_label_def z demo_hashes
        less_eq_prod_def u64_max_def)
qed

lemma demo_owner: "owner demo_ring ''x'' = ''c''"
  by (simp add: owner_def owner_index_def partition_point_def demo_ring_def demo_hashes)

section \<open>Guarantees\<close>

text \<open>C17: Fail-over on the ring is complete: for every key the candidates are all workers, each once, beginning
  with the key's owner.\<close>

theorem ring_failover_complete:
  assumes "new_ring ws vn = Inr r"
  shows "mset (owner_indices r key) = mset [0..<length (ring_ids r)] \<and> hd (owner_indices r key) = owner_index r key"
  using owner_indices_order[OF assms, of key] set_eq_iff_mset_eq_distinct[of "owner_indices r key" "[0..<length (ring_ids r)]"]
  by (simp add: lessThan_atLeast0)

text \<open>C16: Consistent hashing.  When a worker leaves, every key it did not own keeps its owner.\<close>

theorem ring_removal_stable:
  assumes r: "new_ring ws vn = Inr r" and r': "new_ring (filter (\<lambda>i. trim i \<noteq> w) ws) vn = Inr r'"
    and o: "owner r key \<noteq> w"
  shows "owner r' key = owner r key"
proof -
  have ids: "set (ring_ids r') = set (ring_ids r) - {w}" using new_ringD(1)[OF r] new_ringD(1)[OF r'] by auto
  have "on_ring r' = filter (\<lambda>p. snd p \<noteq> w) (on_ring r)"
    using on_ring_set[OF r] on_ring_set[OF r'] ids
    by (intro by_position_unique on_ring_by_position[OF r'] by_position_filter[OF on_ring_by_position[OF r]]) force
  moreover have "on_ring r \<noteq> []" using ring_indices(2)[OF r] by (simp add: on_ring_def)
  ultimately show ?thesis using ring_lookup_filter[of "on_ring r" _ w] o by (simp add: owner_lookup[OF r] owner_lookup[OF r'])
qed

theorem ring_failover_complete_witness: "mset (owner_indices demo_ring ''x'') = {#0, 1, 2#}"
  using ring_failover_complete[OF demo_rings(1), of "''x''"] by (simp add: demo_ring_def numeral_eq_Suc)

theorem ring_removal_stable_witness: "owner demo_ring_less ''x'' = owner demo_ring ''x''"
proof (rule ring_removal_stable[OF demo_rings(1), of "''b''"])
  show "new_ring (filter (\<lambda>i. trim i \<noteq> ''b'') [''a'', ''b'', ''c'']) 1 = Inr demo_ring_less" using demo_rings(2) by simp
  show "owner demo_ring ''x'' \<noteq> ''b''" by (simp add: demo_owner)
qed

end
