(* ===== verification/Routing_Policies.thy ===== *)
theory Routing_Policies
  imports Routing Hash_Ring_Props
begin

text \<open>
  Selection.  Every policy proposes an order of candidates and the pool leases the first whose breaker
  admits it.  The contract of a policy is that its order is a permutation of the workers; what follows
  from it, that no available worker is missed, is proved once and holds for each policy.
\<close>

section \<open>Updates of one worker\<close>

lemma update_worker_sel [simp]:
  "length (workers (update_worker i g p)) = length (workers p)"
  "next_start (update_worker i g p) = next_start p" "pool_policy (update_worker i g p) = pool_policy p"
  "total_weight (update_worker i g p) = total_weight p" "ewma_alpha (update_worker i g p) = ewma_alpha p"
  "ewma_probe_interval (update_worker i g p) = ewma_probe_interval p"
  "ewma_decisions (update_worker i g p) = ewma_decisions p" "pool_ring (update_worker i g p) = pool_ring p"
  "total_execution_capacity (update_worker i g p) = total_execution_capacity p"
  "circuit_config (update_worker i g p) = circuit_config p"
  by (simp_all add: update_worker_def)

lemma update_worker_nth:
  "j < length (workers p) \<Longrightarrow> workers (update_worker i g p) ! j = (if i = j then g (workers p ! j) else workers p ! j)"
  by (simp add: update_worker_def nth_list_update)

definition admits :: "nat \<Rightarrow> 'f worker \<Rightarrow> bool" where
  "admits now w \<longleftrightarrow> snd (try_acquire_at now (breaker w)) \<noteq> None"

lemma find_SomeD: "find P xs = Some x \<Longrightarrow> x \<in> set xs \<and> P x"
  by (induction xs) (auto split: if_splits)

text \<open>Which candidate is leased, when the clock stands still.\<close>

lemma try_lease_find:
  assumes "distinct js" "set js \<subseteq> {..<length (workers p)}"
  shows "map_option fst (snd (try_lease_indices (\<lambda>_. now) k js p)) = find (\<lambda>i. admits now (workers p ! i)) js"
  using assms
proof (induction js arbitrary: k p)
  case (Cons i js)
  obtain b r where t: "try_acquire_at now (breaker (workers p ! i)) = (b, r)" by fastforce
  show ?case
  proof (cases r)
    case None
    let ?p = "update_worker i (\<lambda>w. w\<lparr>breaker := b\<rparr>) p"
    have "find (\<lambda>i. admits now (workers ?p ! i)) js = find (\<lambda>i. admits now (workers p ! i)) js"
    proof (rule find_cong[OF refl])
      fix x assume "x \<in> set js"
      then have "x < length (workers p)" "x \<noteq> i" using Cons.prems by auto
      then show "admits now (workers ?p ! x) = admits now (workers p ! x)" by (simp add: update_worker_nth)
    qed
    then show ?thesis using t None Cons.IH[of ?p "Suc k"] Cons.prems by (simp add: admits_def)
  qed (use t in \<open>simp add: admits_def lease_def Let_def\<close>)
qed simp

lemma try_lease_worker:
  "snd (try_lease_indices clock k js p) = Some (i, l) \<Longrightarrow> lease_worker l = i"
  by (induction clock k js p rule: try_lease_indices.induct)
    (auto simp: lease_def Let_def split: prod.splits option.splits)

section \<open>The contract of a policy\<close>

locale candidate_policy =
  fixes cands :: "'f worker_pool \<Rightarrow> nat list" and wf :: "'f worker_pool \<Rightarrow> bool"
  assumes cands_all: "wf p \<Longrightarrow> mset (cands p) = mset [0..<length (workers p)]"
begin

lemma cands_distinct: "wf p \<Longrightarrow> distinct (cands p)"
  using cands_all[of p] by (metis distinct_upt mset_eq_imp_distinct_iff)

lemma cands_set: "wf p \<Longrightarrow> set (cands p) = {..<length (workers p)}"
  using cands_all[of p] by (metis atLeast_upt set_mset_mset)

lemma leased_is_find:
  "wf p \<Longrightarrow> map_option fst (snd (try_lease_indices (\<lambda>_. now) k (cands p) p)) = find (\<lambda>i. admits now (workers p ! i)) (cands p)"
  by (rule try_lease_find) (auto simp: cands_distinct cands_set)

text \<open>No available worker is missed, and only an available one is leased.\<close>

lemma leases_available:
  assumes "wf p"
  shows "snd (try_lease_indices (\<lambda>_. now) k (cands p) p) = None \<longleftrightarrow> (\<forall>w\<in>set (workers p). \<not> admits now w)"
    and "snd (try_lease_indices (\<lambda>_. now) k (cands p) p) = Some (i, l) \<Longrightarrow> i < length (workers p) \<and> admits now (workers p ! i)"
proof -
  have "snd (try_lease_indices (\<lambda>_. now) k (cands p) p) = None \<longleftrightarrow> find (\<lambda>i. admits now (workers p ! i)) (cands p) = None"
    using leased_is_find[OF assms, of now k] by (cases "snd (try_lease_indices (\<lambda>_. now) k (cands p) p)") (auto dest: sym)
  also have "\<dots> \<longleftrightarrow> (\<forall>w\<in>set (workers p). \<not> admits now w)"
    using cands_set[OF assms] by (auto simp: find_None_iff all_set_conv_all_nth)
  finally show "snd (try_lease_indices (\<lambda>_. now) k (cands p) p) = None \<longleftrightarrow> (\<forall>w\<in>set (workers p). \<not> admits now w)" .
  show "i < length (workers p) \<and> admits now (workers p ! i)"
    if "snd (try_lease_indices (\<lambda>_. now) k (cands p) p) = Some (i, l)"
  proof -
    have "find (\<lambda>i. admits now (workers p ! i)) (cands p) = Some i"
      using leased_is_find[OF assms, of now k] that by simp
    then have "i \<in> set (cands p)" "admits now (workers p ! i)" using find_SomeD by fast+
    then show ?thesis using cands_set[OF assms] by simp
  qed
qed

end

section \<open>The policies meet it\<close>

lemma rotated_is_rotate: "rotated_indices p start = rotate start [0..<length (workers p)]"
  using rotate_nth[of "[0..<length (workers p)]" start]
  by (cases "workers p = []") (auto simp: rotated_indices_def intro!: nth_equalityI simp: nth_rotate)

lemma mset_rotated: "mset (rotated_indices p start) = mset [0..<length (workers p)]"
  using set_eq_iff_mset_eq_distinct[of "rotated_indices p start" "[0..<length (workers p)]"] by (simp add: rotated_is_rotate)

lemma set_rotated [simp]: "set (rotated_indices p start) = {..<length (workers p)}"
  by (simp add: rotated_is_rotate lessThan_atLeast0)

lemma distinct_rotated [simp]: "distinct (rotated_indices p start)"
  by (simp add: rotated_is_rotate)

definition pool_ok :: "'f worker_pool \<Rightarrow> bool" where
  "pool_ok p \<longleftrightarrow> workers p \<noteq> [] \<and>
     (\<exists>ws vn. new_ring ws vn = Inr (pool_ring p)) \<and> length (ring_ids (pool_ring p)) = length (workers p)"

interpretation rr: candidate_policy "\<lambda>p. rotated_indices p start" pool_ok for start
  by unfold_locales (simp add: mset_rotated)

interpretation retry: candidate_policy "retry_candidates attempted start" pool_ok for attempted start
proof
  fix p :: "'a worker_pool"
  show "mset (retry_candidates attempted start p) = mset [0..<length (workers p)]"
    using multiset_partition[of "mset (rotated_indices p start)" "\<lambda>i. wk_id (workers p ! i) \<in> attempted"]
      mset_rotated[of p start] by (simp add: retry_candidates_def add.commute)
qed

interpretation lif: candidate_policy "least_in_flight_candidates start" pool_ok for start
  by unfold_locales (simp add: least_in_flight_candidates_def mset_rotated)

interpretation wrr: candidate_policy "weighted_candidates start" pool_ok for start
  by unfold_locales (simp add: weighted_candidates_def mset_rotated)

text \<open>The scan of latency estimates stops at the first unknown worker and otherwise finds the least estimate.\<close>

lemma ewma_scan_in: "ewma_scan xs selected lowest \<in> insert selected (fst ` set xs)"
  by (induction xs selected lowest rule: ewma_scan.induct) auto

lemma ewma_scan_unknown:
  "(i, None) \<in> set xs \<Longrightarrow> (ewma_scan xs selected lowest, None) \<in> set xs"
  by (induction xs selected lowest rule: ewma_scan.induct) auto

lemma ewma_scan_least:
  assumes "\<forall>i. (i, None) \<notin> set xs"
  shows "(ewma_scan xs selected lowest = selected \<and> (\<forall>i e. (i, Some e) \<in> set xs \<longrightarrow> lowest \<le> e)) \<or>
    (\<exists>m. (ewma_scan xs selected lowest, Some m) \<in> set xs \<and> m < lowest \<and> (\<forall>i e. (i, Some e) \<in> set xs \<longrightarrow> m \<le> e))"
  using assms
proof (induction xs selected lowest rule: ewma_scan.induct)
  case (3 i e xs selected lowest)
  show ?case
  proof (cases "e < lowest")
    case True
    then show ?thesis using 3(1)[OF True] 3(3) by (auto 4 4 intro: order.strict_trans order.strict_implies_order)
  next
    case False
    then show ?thesis using 3(2)[OF False] 3(3) by (auto simp: not_less intro: order_trans less_imp_le)
  qed
qed auto

lemma ewma_selected:
  assumes "start < length (workers p)"
  shows "ewma_scan (map (\<lambda>i. (i, ewma_ms (workers p ! i))) (rotated_indices p start)) start b < length (workers p)"
  using ewma_scan_in[of "map (\<lambda>i. (i, ewma_ms (workers p ! i))) (rotated_indices p start)" start b] assms by auto

interpretation ewma: candidate_policy "ewma_candidates f start" "\<lambda>p. pool_ok p \<and> start < length (workers p)" for f start
proof
  fix p :: "'a worker_pool"
  assume p: "pool_ok p \<and> start < length (workers p)"
  define s where "s = ewma_scan (map (\<lambda>i. (i, ewma_ms (workers p ! i))) (rotated_indices p start)) start (f_infinity f)"
  have s: "s < length (workers p)" unfolding s_def using p by (intro ewma_selected) simp
  have "set (s # filter (\<lambda>i. i \<noteq> s) (rotated_indices p start)) = {..<length (workers p)}"
    "distinct (s # filter (\<lambda>i. i \<noteq> s) (rotated_indices p start))" using s by auto
  then show "mset (ewma_candidates f start p) = mset [0..<length (workers p)]"
    using set_eq_iff_mset_eq_distinct[of "s # filter (\<lambda>i. i \<noteq> s) (rotated_indices p start)" "[0..<length (workers p)]"]
    by (simp add: ewma_candidates_def Let_def s_def lessThan_atLeast0)
qed

interpretation hashed: candidate_policy "\<lambda>p. owner_indices (pool_ring p) key" pool_ok for key
proof
  fix p :: "'a worker_pool"
  assume "pool_ok p"
  then obtain ws vn where r: "new_ring ws vn = Inr (pool_ring p)" and l: "length (ring_ids (pool_ring p)) = length (workers p)"
    by (auto simp: pool_ok_def)
  show "mset (owner_indices (pool_ring p) key) = mset [0..<length (workers p)]"
    using owner_indices_order[OF r, of key] set_eq_iff_mset_eq_distinct[of "owner_indices (pool_ring p) key" "[0..<length (workers p)]"]
    by (simp add: l lessThan_atLeast0)
qed

end
