(* ===== verification/Routing_Accounting.thy ===== *)
theory Routing_Accounting
  imports Routing_Policies
begin

text \<open>
  Accounting.  A pool moves together with the leases and execution permits its callers hold; the in-flight
  number of a worker is always the number of its leases, and the executions it runs never exceed its limit.
\<close>

section \<open>What a choice changes\<close>

definition accounted :: "'f worker_pool \<Rightarrow> 'f worker_pool \<Rightarrow> worker_lease option \<Rightarrow> bool" where
  "accounted p p' r \<longleftrightarrow> length (workers p') = length (workers p) \<and> pool_ring p' = pool_ring p \<and>
     (\<forall>l. r = Some l \<longrightarrow> lease_worker l < length (workers p)) \<and>
     (\<forall>i<length (workers p).
        free_slots (workers p' ! i) = free_slots (workers p ! i) \<and>
        concurrency_limit (workers p' ! i) = concurrency_limit (workers p ! i) \<and>
        in_flight (workers p' ! i) =
          (if map_option lease_worker r = Some i then inc64 (in_flight (workers p ! i)) else in_flight (workers p ! i)))"

definition quiet :: "'f worker_pool \<Rightarrow> 'f worker_pool \<Rightarrow> bool" where
  "quiet p p' \<longleftrightarrow> accounted p p' None"

lemma quiet_refl [simp]: "quiet p p"
  by (simp add: quiet_def accounted_def)

lemma quietI:
  assumes "length (workers p') = length (workers p)" "pool_ring p' = pool_ring p"
    "\<And>i. i < length (workers p) \<Longrightarrow> free_slots (workers p' ! i) = free_slots (workers p ! i) \<and>
        concurrency_limit (workers p' ! i) = concurrency_limit (workers p ! i) \<and> in_flight (workers p' ! i) = in_flight (workers p ! i)"
  shows "quiet p p'"
  using assms by (simp add: quiet_def accounted_def)

lemma quiet_accounted: "quiet p p1 \<Longrightarrow> accounted p1 p2 r \<Longrightarrow> accounted p p2 r"
  by (auto simp: quiet_def accounted_def)

lemma accounted_quiet: "accounted p p1 r \<Longrightarrow> quiet p1 p2 \<Longrightarrow> accounted p p2 r"
  by (auto simp: quiet_def accounted_def)

lemma quiet_update:
  assumes "\<And>w. free_slots (g w) = free_slots w \<and> concurrency_limit (g w) = concurrency_limit w \<and> in_flight (g w) = in_flight w"
  shows "quiet p (update_worker i g p)"
  by (rule quietI) (auto simp: update_worker_nth assms)

lemma try_lease_accounted:
  assumes "set js \<subseteq> {..<length (workers p)}"
  shows "accounted p (fst (try_lease_indices clock k js p)) (map_option snd (snd (try_lease_indices clock k js p)))"
  using assms
proof (induction js arbitrary: k p)
  case (Cons i js)
  obtain b r where t: "try_acquire_at (clock k) (breaker (workers p ! i)) = (b, r)" by fastforce
  let ?p = "update_worker i (\<lambda>w. w\<lparr>breaker := b\<rparr>) p"
  have q: "quiet p ?p" by (rule quiet_update) simp
  show ?case
  proof (cases r)
    case None
    then show ?thesis using t quiet_accounted[OF q Cons.IH[of ?p "Suc k"]] Cons.prems by simp
  next
    case (Some a)
    have "accounted ?p (fst (lease (clock k) i a ?p)) (Some (snd (lease (clock k) i a ?p)))"
      using Cons.prems by (auto simp: accounted_def lease_def update_worker_nth)
    then show ?thesis using t Some quiet_accounted[OF q] by (simp add: Let_def case_prod_beta)
  qed
qed (simp add: accounted_def)

lemma drop_index_accounted:
  "set js \<subseteq> {..<length (workers p)} \<Longrightarrow> drop_index (try_lease_indices clock k js p) = (p', r) \<Longrightarrow> accounted p p' r"
  using try_lease_accounted[of js p clock k] by (auto simp: drop_index_def)

lemma fetch_next_sel [simp]:
  "workers (fst (fetch_next p)) = workers p" "pool_ring (fst (fetch_next p)) = pool_ring p"
  "total_weight (fst (fetch_next p)) = total_weight p" "snd (fetch_next p) = next_start p mod length (workers p)"
  by (simp_all add: fetch_next_def)

lemma quiet_fetch: "quiet p (fst (fetch_next p))"
  by (rule quietI) simp_all

lemma pool_ok_fetch [simp]: "pool_ok (fst (fetch_next p)) = pool_ok p"
  by (simp add: pool_ok_def)

lemma pool_ok_update [simp]: "pool_ok (update_worker i g p) = pool_ok p"
  by (simp add: pool_ok_def) (simp add: update_worker_def)

lemma pool_ok_nonempty: "pool_ok p \<Longrightarrow> 0 < length (workers p)"
  by (simp add: pool_ok_def)

lemma accrue_sel [simp]:
  "length (workers (accrue p)) = length (workers p)" "pool_ring (accrue p) = pool_ring p" "total_weight (accrue p) = total_weight p"
  "i < length (workers p) \<Longrightarrow> workers (accrue p) ! i =
     (workers p ! i)\<lparr>smooth_current := i64_wrap (smooth_current (workers p ! i) + int (wk_weight (workers p ! i)))\<rparr>"
  by (simp_all add: accrue_def)

lemma quiet_accrue: "quiet p (accrue p)"
  by (rule quietI) simp_all

lemma pool_ok_accrue [simp]: "pool_ok (accrue p) = pool_ok p"
  by (auto simp: pool_ok_def accrue_def)

lemma choose_accounted:
  assumes p: "pool_ok p"
  shows "try_choose_round_robin clock p = (p', r) \<Longrightarrow> accounted p p' r"
    and "try_choose_least_in_flight clock p = (p', r) \<Longrightarrow> accounted p p' r"
    and "try_choose_consistent_hash clock key p = (p', r) \<Longrightarrow> accounted p p' r"
    and "try_choose_retry clock attempted p = (p', r) \<Longrightarrow> accounted p p' r"
proof -
  note F = quiet_accounted[OF quiet_fetch drop_index_accounted]
  show "try_choose_round_robin clock p = (p', r) \<Longrightarrow> accounted p p' r"
    by (rule F) (auto simp: try_choose_round_robin_def case_prod_beta)
  show "try_choose_least_in_flight clock p = (p', r) \<Longrightarrow> accounted p p' r"
    using lif.cands_set[of "fst (fetch_next p)"] p by (intro F) (auto simp: try_choose_least_in_flight_def case_prod_beta)
  show "try_choose_consistent_hash clock key p = (p', r) \<Longrightarrow> accounted p p' r"
    using hashed.cands_set[OF p] by (intro drop_index_accounted) (auto simp: try_choose_consistent_hash_def)
  show "try_choose_retry clock attempted p = (p', r) \<Longrightarrow> accounted p p' r"
    using retry.cands_set[of "fst (fetch_next p)"] p by (intro F) (auto simp: try_choose_retry_def case_prod_beta)
qed

lemma choose_ewma_accounted:
  assumes p: "pool_ok p" and c: "try_choose_ewma_latency f clock p = (p', r)"
  shows "accounted p p' r"
proof -
  define p1 where "p1 = (fst (fetch_next p))\<lparr>ewma_decisions := inc64 (ewma_decisions (fst (fetch_next p)))\<rparr>"
  define start where "start = next_start p mod length (workers p)"
  have q: "quiet p p1" unfolding p1_def by (rule quietI) simp_all
  have ok: "pool_ok p1 \<and> start < length (workers p1)"
    using p pool_ok_nonempty[OF p] by (simp add: pool_ok_def p1_def start_def)
  have "drop_index (try_lease_indices clock 0 (rotated_indices p1 start) p1) = (p', r) \<or>
      drop_index (try_lease_indices clock 0 (ewma_candidates f start p1) p1) = (p', r)"
    using c by (simp add: try_choose_ewma_latency_def case_prod_beta Let_def p1_def start_def split: if_splits)
  then show ?thesis
    using drop_index_accounted[of "rotated_indices p1 start" p1] drop_index_accounted[of "ewma_candidates f start p1" p1]
      ewma.cands_set[OF ok, of f] quiet_accounted[OF q] by auto
qed

lemma choose_wrr_accounted:
  assumes p: "pool_ok p" and c: "try_choose_weighted_round_robin clock p = (p', r)"
  shows "accounted p p' r"
proof -
  let ?p = "accrue (fst (fetch_next p))"
  let ?t = "try_lease_indices clock 0 (weighted_candidates (next_start p mod length (workers p)) ?p) ?p"
  have q: "accounted p p1 r" if "accounted ?p p1 r" for p1 r
    using that quiet_accounted[OF quiet_fetch quiet_accounted[OF quiet_accrue]] by blast
  have "set (weighted_candidates (next_start p mod length (workers p)) ?p) = {..<length (workers ?p)}"
    by (rule wrr.cands_set) (use p in simp)
  then have a: "accounted p (fst ?t) (map_option snd (snd ?t))" by (intro q try_lease_accounted) simp
  show ?thesis
  proof (cases "snd ?t")
    case None
    then show ?thesis using c a by (simp add: try_choose_weighted_round_robin_def case_prod_beta Let_def)
  next
    case (Some x)
    let ?p2 = "update_worker (fst x) (\<lambda>w. w\<lparr>smooth_current := i64_wrap (smooth_current w - total_weight (fst ?t))\<rparr>) (fst ?t)"
    have "p' = ?p2" "r = Some (snd x)"
      using c Some by (auto simp: try_choose_weighted_round_robin_def case_prod_beta Let_def)
    moreover have "quiet (fst ?t) ?p2" by (rule quiet_update) simp
    ultimately show ?thesis using accounted_quiet[OF a] Some by simp
  qed
qed

lemma choose_for_key_accounted:
  assumes "pool_ok p" "try_choose_for_key f clock key p = (p', r)"
  shows "accounted p p' r"
  using assms choose_accounted[OF assms(1)] choose_ewma_accounted[OF assms(1)] choose_wrr_accounted[OF assms(1)]
  by (auto simp: try_choose_for_key_def try_choose_def split: routing_policy.splits)

section \<open>Pools with their callers\<close>

type_synonym 'f pool_system = "'f worker_pool \<times> worker_lease list \<times> nat list"

inductive pool_reachable :: "('f::linorder) f64_ops \<Rightarrow> 'f pool_system \<Rightarrow> bool" for f where
  created: "from_config f ws rc cc = Inr p \<Longrightarrow> pool_reachable f (p, [], [])"
| chosen: "pool_reachable f (p, ls, es) \<Longrightarrow> length ls < u64_max \<Longrightarrow> try_choose_for_key f clock key p = (p', r) \<Longrightarrow>
    pool_reachable f (p', (case r of None \<Rightarrow> ls | Some l \<Rightarrow> l # ls), es)"
| retried: "pool_reachable f (p, ls, es) \<Longrightarrow> length ls < u64_max \<Longrightarrow> try_choose_retry clock attempted p = (p', r) \<Longrightarrow>
    pool_reachable f (p', (case r of None \<Rightarrow> ls | Some l \<Rightarrow> l # ls), es)"
| reserved: "pool_reachable f (p, ls, es) \<Longrightarrow> l \<in> set ls \<Longrightarrow> try_reserve_execution l p = (p', b) \<Longrightarrow>
    pool_reachable f (p', ls, if b then lease_worker l # es else es)"
| released: "pool_reachable f (p, ls, es) \<Longrightarrow> i \<in> set es \<Longrightarrow> pool_reachable f (release_execution i p, ls, remove1 i es)"
| succeeded: "pool_reachable f (p, ls, es) \<Longrightarrow> l \<in> set ls \<Longrightarrow> record_circuit_success now l p = (p', l') \<Longrightarrow>
    pool_reachable f (p', l' # remove1 l ls, es)"
| failed: "pool_reachable f (p, ls, es) \<Longrightarrow> l \<in> set ls \<Longrightarrow> record_circuit_failure now l p = (p', l') \<Longrightarrow>
    pool_reachable f (p', l' # remove1 l ls, es)"
| observed: "pool_reachable f (p, ls, es) \<Longrightarrow> l \<in> set ls \<Longrightarrow> observe_duration f latency l p = (p', l') \<Longrightarrow>
    pool_reachable f (p', l' # remove1 l ls, es)"
| dropped: "pool_reachable f (p, ls, es) \<Longrightarrow> l \<in> set ls \<Longrightarrow> pool_reachable f (drop_lease l p, remove1 l ls, es)"
| viewed: "pool_reachable f (p, ls, es) \<Longrightarrow> pool_reachable f (fst (snapshots now p), ls, es)"

definition leases_of :: "worker_lease list \<Rightarrow> nat \<Rightarrow> nat" where
  "leases_of ls i = length (filter (\<lambda>l. lease_worker l = i) ls)"

definition system_ok :: "'f pool_system \<Rightarrow> bool" where
  "system_ok s \<longleftrightarrow> (case s of (p, ls, es) \<Rightarrow>
     pool_ok p \<and> length ls \<le> u64_max \<and> (\<forall>l\<in>set ls. lease_worker l < length (workers p)) \<and>
     (\<forall>i<length (workers p). in_flight (workers p ! i) = leases_of ls i \<and>
        free_slots (workers p ! i) + count_list es i = concurrency_limit (workers p ! i)))"

lemma leases_of_simps [simp]:
  "leases_of [] i = 0" "leases_of (l # ls) i = (if lease_worker l = i then Suc (leases_of ls i) else leases_of ls i)"
  by (simp_all add: leases_of_def)

lemma leases_of_remove:
  "l \<in> set ls \<Longrightarrow> leases_of ls i = leases_of (remove1 l ls) i + (if lease_worker l = i then 1 else 0)"
  by (induction ls) auto

lemma leases_of_le: "leases_of ls i \<le> length ls"
  by (simp add: leases_of_def)

lemma count_remove1: "x \<in> set xs \<Longrightarrow> count_list xs i = count_list (remove1 x xs) i + (if x = i then 1 else 0)"
  by (induction xs) auto

lemma accounted_system:
  assumes ok: "system_ok (p, ls, es)" and a: "accounted p p' r" and n: "length ls < u64_max"
  shows "system_ok (p', (case r of None \<Rightarrow> ls | Some l \<Rightarrow> l # ls), es)"
proof -
  have i: "inc64 (leases_of ls i) = Suc (leases_of ls i)" for i using n leases_of_le[of ls i] by (intro inc64_Suc) simp
  have "pool_ok p'" using ok a by (auto simp: system_ok_def accounted_def pool_ok_def)
  then show ?thesis using ok a n i by (cases r) (auto simp: system_ok_def accounted_def)
qed

lemma quiet_system:
  assumes ok: "system_ok (p, ls, es)" and q: "quiet p p'" and l: "l \<in> set ls" "lease_worker l' = lease_worker l"
  shows "system_ok (p', l' # remove1 l ls, es)"
proof -
  have "pool_ok p'" using ok q by (auto simp: system_ok_def quiet_def accounted_def pool_ok_def)
  moreover have "leases_of (l' # remove1 l ls) i = leases_of ls i" for i using leases_of_remove[OF l(1), of i] l(2) by simp
  moreover have "length (l' # remove1 l ls) = length ls"
    using l(1) length_pos_if_in_set[OF l(1)] by (simp add: length_remove1)
  moreover have "lease_worker x < length (workers p)" if "x \<in> set (l' # remove1 l ls)" for x
    using that ok l set_remove1_subset[of l ls] by (auto simp: system_ok_def)
  ultimately show ?thesis using ok q by (auto simp: system_ok_def quiet_def accounted_def)
qed

lemma from_configD:
  assumes "from_config f ws rc cc = Inr p"
  shows "ws \<noteq> []" "workers p = map (new_worker (rc_worker_concurrency_limit rc)) ws"
    "new_ring (map (\<lambda>w. trim (wr_id w)) ws) (rc_virtual_nodes rc) = Inr (pool_ring p)"
    "sum_weights 0 ws = Inr (total_weight p)" "\<forall>w\<in>set ws. 0 < wr_weight w" "next_start p = 0"
    "pool_policy p = rc_policy rc" "circuit_config p = cc" "validate_circuit cc = Inr ()" "ewma_decisions p = 0"
  using assms
  by (auto simp: from_config_def and_then_Inr_iff list_ex_iff split: if_splits sum.splits)

lemma from_config_ok: "from_config f ws rc cc = Inr p \<Longrightarrow> system_ok (p, [], [])"
  using from_configD[of f ws rc cc p] new_ringD(1)[of "map (\<lambda>w. trim (wr_id w)) ws" "rc_virtual_nodes rc" "pool_ring p"]
  by (auto simp: system_ok_def pool_ok_def new_worker_def)

lemma reserve_ok:
  assumes ok: "system_ok (p, ls, es)" and l: "l \<in> set ls" and r: "try_reserve_execution l p = (p', b)"
  shows "system_ok (p', ls, if b then lease_worker l # es else es)"
proof -
  have "lease_worker l < length (workers p)" using ok l by (simp add: system_ok_def)
  then show ?thesis
    using ok r by (auto simp: system_ok_def try_reserve_execution_def update_worker_nth split: if_splits)
qed

lemma release_ok:
  assumes ok: "system_ok (p, ls, es)" and i: "i \<in> set es"
  shows "system_ok (release_execution i p, ls, remove1 i es)"
proof -
  have "free_slots (workers (release_execution i p) ! j) + count_list (remove1 i es) j = concurrency_limit (workers (release_execution i p) ! j) \<and>
      in_flight (workers (release_execution i p) ! j) = leases_of ls j" if j: "j < length (workers p)" for j
  proof -
    have "free_slots (workers p ! j) + count_list es j = concurrency_limit (workers p ! j)" "in_flight (workers p ! j) = leases_of ls j"
      using ok j by (simp_all add: system_ok_def)
    moreover have "free_slots (workers (release_execution i p) ! j) = free_slots (workers p ! j) + (if i = j then 1 else 0)"
      "concurrency_limit (workers (release_execution i p) ! j) = concurrency_limit (workers p ! j)"
      "in_flight (workers (release_execution i p) ! j) = in_flight (workers p ! j)"
      using j by (simp_all add: release_execution_def update_worker_nth)
    ultimately show ?thesis using count_remove1[OF i, of j] by linarith
  qed
  then show ?thesis using ok by (simp add: system_ok_def release_execution_def)
qed

lemma drop_lease_ok:
  assumes ok: "system_ok (p, ls, es)" and l: "l \<in> set ls"
  shows "system_ok (drop_lease l p, remove1 l ls, es)"
proof -
  note c = leases_of_remove[OF l]
  have w: "wrap64 (n + 1 + u64_max) = n" if "n < u64_max" for n
    using that by (simp add: wrap64_def u64_max_def mod_if)
  have b: "leases_of (remove1 l ls) i < u64_max" if "lease_worker l = i" for i
    using c[of i] leases_of_le[of ls i] ok that by (simp add: system_ok_def)
  have f: "in_flight (workers (drop_lease l p) ! i) = leases_of (remove1 l ls) i" if "i < length (workers p)" for i
    using ok that c[of i] w[OF b] by (auto simp: system_ok_def drop_lease_def update_worker_nth split: option.splits)
  have "free_slots (workers (drop_lease l p) ! i) = free_slots (workers p ! i) \<and>
      concurrency_limit (workers (drop_lease l p) ! i) = concurrency_limit (workers p ! i)" if "i < length (workers p)" for i
    using that by (auto simp: drop_lease_def update_worker_nth split: option.splits)
  moreover have "\<forall>x\<in>set (remove1 l ls). lease_worker x < length (workers p)" "length (remove1 l ls) \<le> u64_max"
    using ok set_remove1_subset[of l ls] by (auto simp: system_ok_def length_remove1)
  ultimately show ?thesis using ok f by (auto simp: system_ok_def drop_lease_def)
qed

lemma lease_calls_quiet:
  shows "record_circuit_success now l p = (p', l') \<Longrightarrow> quiet p p' \<and> lease_worker l' = lease_worker l"
    and "record_circuit_failure now l p = (p', l') \<Longrightarrow> quiet p p' \<and> lease_worker l' = lease_worker l"
    and "observe_duration f latency l p = (p', l') \<Longrightarrow> quiet p p' \<and> lease_worker l' = lease_worker l"
  by (auto simp: record_circuit_success_def record_circuit_failure_def observe_duration_def observe_worker_latency_def Let_def
      intro!: quiet_update split: option.splits if_splits)

lemma snapshots_quiet: "quiet p (fst (snapshots now p))"
  by (rule quietI) (simp_all add: snapshots_def)

lemma pool_reachable_ok: "pool_reachable f s \<Longrightarrow> system_ok s"
proof (induction rule: pool_reachable.induct)
  case (created ws rc cc p)
  then show ?case by (rule from_config_ok)
next
  case (chosen p ls es clock key p' r)
  have "pool_ok p" using chosen.IH by (simp add: system_ok_def)
  then show ?case using accounted_system[OF chosen.IH choose_for_key_accounted[OF _ chosen.hyps(3)] chosen.hyps(2)] by simp
next
  case (retried p ls es clock attempted p' r)
  have "pool_ok p" using retried.IH by (simp add: system_ok_def)
  then show ?case using accounted_system[OF retried.IH choose_accounted(4)[OF _ retried.hyps(3)] retried.hyps(2)] by simp
next
  case (reserved p ls es l p' b)
  then show ?case using reserve_ok[OF reserved.IH reserved.hyps(2,3)] by simp
next
  case (released p ls es i)
  then show ?case using release_ok[OF released.IH released.hyps(2)] by simp
next
  case (succeeded p ls es l now p' l')
  then show ?case using lease_calls_quiet(1)[OF succeeded.hyps(3)] quiet_system[OF succeeded.IH _ succeeded.hyps(2)] by simp
next
  case (failed p ls es l now p' l')
  then show ?case using lease_calls_quiet(2)[OF failed.hyps(3)] quiet_system[OF failed.IH _ failed.hyps(2)] by simp
next
  case (observed p ls es l latency p' l')
  then show ?case using lease_calls_quiet(3)[OF observed.hyps(3)] quiet_system[OF observed.IH _ observed.hyps(2)] by simp
next
  case (dropped p ls es l)
  then show ?case using drop_lease_ok[OF dropped.IH dropped.hyps(2)] by simp
next
  case (viewed p ls es now)
  then show ?case using snapshots_quiet[of p now] by (auto simp: system_ok_def quiet_def accounted_def pool_ok_def)
qed

end
