(* ===== verification/Routing_Props.thy ===== *)
theory Routing_Props
  imports Routing_Accounting "HOL-Library.Extended_Nat"
begin

text \<open>
  The guarantees of worker selection: accounting, availability, and what each policy adds, with a pool of
  two workers as the concrete instance.
\<close>

section \<open>A pool of two workers\<close>

definition demo_ops :: "enat f64_ops" where
  "demo_ops = \<lparr>f_zero = 0, f_one = 1, f_infinity = \<infinity>, f_is_finite = (\<lambda>x. x \<noteq> \<infinity>), f_add = (+), f_sub = (-), f_mul = (*), f_of_duration_ms = enat\<rparr>"

definition demo_pair :: "worker_registration list" where
  "demo_pair = [\<lparr>wr_id = ''a'', wr_base_url = ''u'', wr_weight = 2\<rparr>, \<lparr>wr_id = ''b'', wr_base_url = ''v'', wr_weight = 1\<rparr>]"

definition demo_routing :: "routing_policy \<Rightarrow> enat routing_config" where
  "demo_routing policy = \<lparr>rc_policy = policy, rc_ewma_alpha = 1, rc_ewma_probe_interval = 10, rc_virtual_nodes = 1, rc_worker_concurrency_limit = 1\<rparr>"

definition demo_pair_ring :: hash_ring where
  "demo_pair_ring = \<lparr>ring_ids = [''a'', ''b''], ring_points = [(168086587484336516, 0), (2865587997922140901, 1)]\<rparr>"

definition demo_pool :: "routing_policy \<Rightarrow> enat worker_pool" where
  "demo_pool policy =
     \<lparr>workers = map (new_worker 1) demo_pair, next_start = 0, pool_policy = policy, total_weight = 3, ewma_alpha = 1,
      ewma_probe_interval = 10, ewma_decisions = 0, pool_ring = demo_pair_ring, total_execution_capacity = 2,
      circuit_config = default_circuit_config\<rparr>"

lemma demo_urls [simp]: "trim ''u'' = ''u''" "trim ''v'' = ''v''"
  by (rule trim_alnum; simp add: is_ascii_alphanumeric_def)+

lemma demo_pair_ring: "new_ring [''a'', ''b''] 1 = Inr demo_pair_ring"
proof -
  have z: "dec_string 0 = ''0''" by code_simp
  show ?thesis
    by (simp add: new_ring_def demo_pair_ring_def raw_points_def vnode_label_def z demo_hashes less_eq_prod_def u64_max_def)
qed

lemma demo_pool_config: "from_config demo_ops demo_pair (demo_routing policy) default_circuit_config = Inr (demo_pool policy)"
proof -
  have "validate_circuit default_circuit_config = Inr ()" by (simp add: validate_circuit_def default_circuit_config_def from_secs_def)
  then show ?thesis
    using demo_pair_ring
    by (simp add: from_config_def demo_pair_def demo_routing_def demo_pool_def demo_ops_def u64_max_def one_enat_def zero_enat_def)
qed

lemma demo_pool_reachable: "pool_reachable demo_ops (demo_pool policy, [], [])"
  by (rule created[OF demo_pool_config])

section \<open>Availability\<close>

definition same_breakers :: "'f worker_pool \<Rightarrow> 'f worker_pool \<Rightarrow> bool" where
  "same_breakers p p' \<longleftrightarrow> map breaker (workers p') = map breaker (workers p)"

lemma same_breakers_admits:
  assumes "same_breakers p p'"
  shows "length (workers p') = length (workers p)" "(\<forall>w\<in>set (workers p'). \<not> admits now w) \<longleftrightarrow> (\<forall>w\<in>set (workers p). \<not> admits now w)"
    and "i < length (workers p) \<Longrightarrow> admits now (workers p' ! i) = admits now (workers p ! i)"
proof -
  show l: "length (workers p') = length (workers p)" using assms by (metis same_breakers_def length_map)
  show n: "admits now (workers p' ! i) = admits now (workers p ! i)" if "i < length (workers p)" for i
    using arg_cong[OF assms[unfolded same_breakers_def], of "\<lambda>xs. xs ! i"] that l by (simp add: admits_def)
  show "(\<forall>w\<in>set (workers p'). \<not> admits now w) \<longleftrightarrow> (\<forall>w\<in>set (workers p). \<not> admits now w)"
    using n l by (auto simp: all_set_conv_all_nth)
qed

text \<open>The outcome of a choice: a lease of an available worker, or nothing when there is none.\<close>

definition choice_ok :: "nat \<Rightarrow> 'f worker_pool \<Rightarrow> worker_lease option \<Rightarrow> bool" where
  "choice_ok now p r \<longleftrightarrow>
     (case r of
        None \<Rightarrow> \<forall>w\<in>set (workers p). \<not> admits now w
      | Some l \<Rightarrow> lease_worker l < length (workers p) \<and> admits now (workers p ! lease_worker l))"

context candidate_policy
begin

lemma choice:
  assumes "wf p1" "same_breakers p p1"
  shows "choice_ok now p (map_option snd (snd (try_lease_indices (\<lambda>_. now) k (cands p1) p1)))"
proof (cases "snd (try_lease_indices (\<lambda>_. now) k (cands p1) p1)")
  case None
  then show ?thesis
    using leases_available(1)[OF assms(1), of now k] same_breakers_admits(2)[OF assms(2), of now] by (simp add: choice_ok_def)
next
  case (Some x)
  then have "lease_worker (snd x) = fst x" using try_lease_worker by (metis prod.collapse)
  then show ?thesis
    using Some leases_available(2)[OF assms(1), of now k "fst x" "snd x"] same_breakers_admits(1)[OF assms(2)]
      same_breakers_admits(3)[OF assms(2), of "fst x" now]
    by (auto simp: choice_ok_def)
qed

end

lemma same_breakers_fetch: "same_breakers p (fst (fetch_next p))" "same_breakers p (accrue (fst (fetch_next p)))"
  by (simp_all add: same_breakers_def accrue_def o_def)

lemma choose_ok:
  assumes p: "pool_ok p"
  shows "choice_ok now p (snd (try_choose_round_robin (\<lambda>_. now) p))"
    "choice_ok now p (snd (try_choose_least_in_flight (\<lambda>_. now) p))"
    "choice_ok now p (snd (try_choose_consistent_hash (\<lambda>_. now) key p))"
    "choice_ok now p (snd (try_choose_retry (\<lambda>_. now) attempted p))"
    "choice_ok now p (snd (try_choose_weighted_round_robin (\<lambda>_. now) p))"
    "choice_ok now p (snd (try_choose_ewma_latency f (\<lambda>_. now) p))"
proof -
  have f: "pool_ok (fst (fetch_next p))" "pool_ok (accrue (fst (fetch_next p)))" using p by simp_all
  show "choice_ok now p (snd (try_choose_round_robin (\<lambda>_. now) p))"
    using rr.choice[OF f(1) same_breakers_fetch(1)] by (simp add: try_choose_round_robin_def drop_index_def case_prod_beta)
  show "choice_ok now p (snd (try_choose_least_in_flight (\<lambda>_. now) p))"
    using lif.choice[OF f(1) same_breakers_fetch(1)] by (simp add: try_choose_least_in_flight_def drop_index_def case_prod_beta)
  show "choice_ok now p (snd (try_choose_retry (\<lambda>_. now) attempted p))"
    using retry.choice[OF f(1) same_breakers_fetch(1)] by (simp add: try_choose_retry_def drop_index_def case_prod_beta)
  show "choice_ok now p (snd (try_choose_consistent_hash (\<lambda>_. now) key p))"
    using hashed.choice[OF p, of p] by (simp add: try_choose_consistent_hash_def drop_index_def same_breakers_def)
  show "choice_ok now p (snd (try_choose_weighted_round_robin (\<lambda>_. now) p))"
    using wrr.choice[OF f(2) same_breakers_fetch(2), of now 0 "next_start p mod length (workers p)"]
    by (auto simp: try_choose_weighted_round_robin_def Let_def case_prod_beta split: option.splits prod.splits)
  define p1 where "p1 = (fst (fetch_next p))\<lparr>ewma_decisions := inc64 (ewma_decisions (fst (fetch_next p)))\<rparr>"
  have p1: "pool_ok p1 \<and> next_start p mod length (workers p) < length (workers p1)" "same_breakers p p1" "pool_ok p1"
    using p pool_ok_nonempty[OF p] by (simp_all add: p1_def pool_ok_def same_breakers_def)
  show "choice_ok now p (snd (try_choose_ewma_latency f (\<lambda>_. now) p))"
    using ewma.choice[OF p1(1,2), of now 0 f] rr.choice[OF p1(3,2), of now 0 "next_start p mod length (workers p)"]
    by (simp add: try_choose_ewma_latency_def drop_index_def case_prod_beta Let_def p1_def)
qed

lemma choose_for_key_ok: "pool_ok p \<Longrightarrow> choice_ok now p (snd (try_choose_for_key f (\<lambda>_. now) key p))"
  using choose_ok[of p now] by (auto simp: try_choose_for_key_def try_choose_def split: routing_policy.split)

text \<open>Retries try every worker that was not attempted before any that was.\<close>

lemma find_append: "find P (xs @ ys) = (case find P xs of None \<Rightarrow> find P ys | r \<Rightarrow> r)"
  by (induction xs) auto

lemma retry_prefers:
  assumes p: "pool_ok p" and l: "snd (try_choose_retry (\<lambda>_. now) attempted p) = Some l"
    and a: "wk_id (workers p ! lease_worker l) \<in> attempted"
    and i: "i < length (workers p)" "wk_id (workers p ! i) \<notin> attempted"
  shows "\<not> admits now (workers p ! i)"
proof -
  let ?s = "next_start p mod length (workers p)" and ?p = "fst (fetch_next p)"
  obtain j where j: "snd (try_lease_indices (\<lambda>_. now) 0 (retry_candidates attempted ?s ?p) ?p) = Some (j, l)"
    using l by (auto simp: try_choose_retry_def drop_index_def case_prod_beta)
  have "find (\<lambda>i. admits now (workers ?p ! i)) (retry_candidates attempted ?s ?p) = Some j"
    using retry.leased_is_find[of ?p now 0 attempted ?s] p j by simp
  moreover have "lease_worker l = j" using try_lease_worker[OF j] .
  moreover have "j \<notin> set (filter (\<lambda>i. wk_id (workers p ! i) \<notin> attempted) (rotated_indices ?p ?s))"
    using a \<open>lease_worker l = j\<close> by simp
  ultimately have "find (\<lambda>i. admits now (workers p ! i)) (filter (\<lambda>i. wk_id (workers p ! i) \<notin> attempted) (rotated_indices ?p ?s)) = None"
    by (auto simp: retry_candidates_def find_append dest: find_SomeD split: option.splits)
  then show ?thesis using i by (auto simp: find_None_iff)
qed

section \<open>Least in flight\<close>

lemma find_sorted_least:
  assumes "sorted (map k xs)" "find P xs = Some x" "y \<in> set xs" "P y"
  shows "k x \<le> k y"
  using assms by (induction xs) (auto split: if_splits dest: find_SomeD)

lemma least_in_flight_minimal_lemma:
  assumes p: "pool_ok p" and l: "snd (try_choose_least_in_flight (\<lambda>_. now) p) = Some l"
    and i: "i < length (workers p)" "admits now (workers p ! i)"
  shows "in_flight (workers p ! lease_worker l) \<le> in_flight (workers p ! i)"
proof -
  let ?s = "next_start p mod length (workers p)" and ?p = "fst (fetch_next p)"
  obtain j where j: "snd (try_lease_indices (\<lambda>_. now) 0 (least_in_flight_candidates ?s ?p) ?p) = Some (j, l)"
    using l by (auto simp: try_choose_least_in_flight_def drop_index_def case_prod_beta)
  have "find (\<lambda>i. admits now (workers ?p ! i)) (least_in_flight_candidates ?s ?p) = Some j"
    using lif.leased_is_find[of ?p now 0 ?s] p j by simp
  moreover have "i \<in> set (least_in_flight_candidates ?s ?p)" using lif.cands_set[of ?p ?s] p i by simp
  moreover have "sorted (map (\<lambda>i. in_flight (workers p ! i)) (least_in_flight_candidates ?s ?p))"
    by (simp add: least_in_flight_candidates_def)
  ultimately show ?thesis using find_sorted_least[of "\<lambda>i. in_flight (workers p ! i)"] try_lease_worker[OF j] i by simp
qed

section \<open>Latency\<close>

lemma all_closed_admits: "circ_state (breaker w) = Closed \<Longrightarrow> admits now w"
  by (simp add: admits_def try_acquire_at_def refresh_open_state_def Let_def)

lemma ewma_choice:
  assumes p: "pool_ok p" and top: "\<And>x. x \<le> f_infinity f"
    and nd: "\<not> ewma_probe_interval p dvd inc64 (ewma_decisions p)"
    and closed: "\<forall>w\<in>set (workers p). circ_state (breaker w) = Closed"
    and l: "snd (try_choose_ewma_latency f (\<lambda>_. now) p) = Some l"
  shows "(case ewma_ms (workers p ! lease_worker l) of
      None \<Rightarrow> True
    | Some e \<Rightarrow> \<forall>i<length (workers p). \<exists>e'. ewma_ms (workers p ! i) = Some e' \<and> e \<le> e')"
proof -
  define p1 where "p1 = (fst (fetch_next p))\<lparr>ewma_decisions := inc64 (ewma_decisions (fst (fetch_next p)))\<rparr>"
  define start where "start = next_start p mod length (workers p)"
  define xs where "xs = map (\<lambda>i. (i, ewma_ms (workers p ! i))) (rotated_indices p1 start)"
  define s where "s = ewma_scan xs start (f_infinity f)"
  have w: "workers p1 = workers p" by (simp add: p1_def)
  have st: "start < length (workers p)" using pool_ok_nonempty[OF p] by (simp add: start_def)
  have ok: "pool_ok p1 \<and> start < length (workers p1)" using p st by (simp add: pool_ok_def p1_def)
  have d: "ewma_probe_interval p1 = ewma_probe_interval p" "ewma_decisions p1 = inc64 (ewma_decisions p)"
    by (simp_all add: p1_def fetch_next_def)
  have "snd (try_choose_ewma_latency f (\<lambda>_. now) p) = map_option snd (snd (try_lease_indices (\<lambda>_. now) 0 (ewma_candidates f start p1) p1))"
    using nd d by (simp add: try_choose_ewma_latency_def drop_index_def case_prod_beta Let_def p1_def start_def)
  then obtain j where j: "snd (try_lease_indices (\<lambda>_. now) 0 (ewma_candidates f start p1) p1) = Some (j, l)"
    using l by (cases "snd (try_lease_indices (\<lambda>_. now) 0 (ewma_candidates f start p1) p1)") auto
  have c: "ewma_candidates f start p1 = s # filter (\<lambda>i. i \<noteq> s) (rotated_indices p1 start)"
    by (simp add: ewma_candidates_def Let_def s_def xs_def w)
  have s: "s < length (workers p)" using ewma_selected[of start p1 "f_infinity f"] st by (simp add: s_def xs_def w)
  have "find (\<lambda>i. admits now (workers p1 ! i)) (ewma_candidates f start p1) = Some j"
    using ewma.leased_is_find[OF ok, of now 0 f] j by simp
  then have "j = s" using closed s all_closed_admits[of "workers p ! s" now] by (simp add: c w)
  then have ls: "lease_worker l = s" using try_lease_worker[OF j] by simp
  have mem: "(i, ewma_ms (workers p ! i)) \<in> set xs" if "i < length (workers p)" for i using that by (auto simp: xs_def w)
  have val: "e = ewma_ms (workers p ! i)" if "(i, e) \<in> set xs" for i e using that by (auto simp: xs_def)
  show ?thesis
  proof (cases "ewma_ms (workers p ! s)")
    case (Some e)
    then have known: "(i, None) \<notin> set xs" for i using ewma_scan_unknown[of i xs start "f_infinity f"] val by (fastforce simp: s_def)
    have "\<exists>e'. ewma_ms (workers p ! i) = Some e' \<and> e \<le> e'" if i: "i < length (workers p)" for i
    proof (cases "ewma_ms (workers p ! i)")
      case None
      then show ?thesis using mem[OF i] known by simp
    next
      case e': (Some e')
      then have i': "(i, Some e') \<in> set xs" using mem[OF i] by simp
      have "(\<forall>i e. (i, Some e) \<in> set xs \<longrightarrow> f_infinity f \<le> e) \<or> (\<exists>m. (s, Some m) \<in> set xs \<and> (\<forall>i e. (i, Some e) \<in> set xs \<longrightarrow> m \<le> e))"
        using ewma_scan_least[of xs start "f_infinity f"] known unfolding s_def by blast
      then have "e \<le> e'"
      proof (elim disjE exE conjE)
        assume "\<forall>i e. (i, Some e) \<in> set xs \<longrightarrow> f_infinity f \<le> e"
        then have "f_infinity f \<le> e'" using i' by blast
        then show ?thesis using top[of e] by (rule order_trans[rotated])
      next
        fix m assume m: "(s, Some m) \<in> set xs" "\<forall>i e. (i, Some e) \<in> set xs \<longrightarrow> m \<le> e"
        then show ?thesis using val[OF m(1)] Some i' by auto
      qed
      then show ?thesis using e' by simp
    qed
    then show ?thesis using Some ls by simp
  qed (simp add: ls)
qed

lemma demo_chosen:
  assumes "choice_ok 7 (demo_pool policy) r"
  obtains l where "r = Some l" "lease_worker l < 2"
proof -
  have "workers (demo_pool policy) ! 1 \<in> set (workers (demo_pool policy))" "length (workers (demo_pool policy)) = 2"
    by (simp_all add: demo_pool_def demo_pair_def)
  moreover have "admits 7 (workers (demo_pool policy) ! 1)"
    by (rule all_closed_admits) (simp add: demo_pool_def demo_pair_def new_worker_def new_circuit_def)
  ultimately show ?thesis using assms that by (cases r) (auto simp: choice_ok_def)
qed

lemma demo_pool_ok: "pool_ok (demo_pool policy)"
  using pool_reachable_ok[OF demo_pool_reachable[of policy]] by (simp add: system_ok_def)

section \<open>Guarantees\<close>

text \<open>A worker's in-flight number is the number of leases on it that callers still hold, and the executions it
  runs are the permits they hold, never more than its limit, in every reachable pool.\<close>

theorem leases_accounted:
  assumes "pool_reachable f (p, ls, es)" "i < length (workers p)"
  shows "in_flight (workers p ! i) = length (filter (\<lambda>l. lease_worker l = i) ls) \<and>
    concurrency_limit (workers p ! i) - free_slots (workers p ! i) = count_list es i \<and>
    count_list es i \<le> concurrency_limit (workers p ! i)"
proof -
  have "in_flight (workers p ! i) = leases_of ls i"
    "free_slots (workers p ! i) + count_list es i = concurrency_limit (workers p ! i)"
    using pool_reachable_ok[OF assms(1)] assms(2) by (simp_all add: system_ok_def)
  then show ?thesis unfolding leases_of_def by linarith
qed

theorem leases_accounted_witness: "in_flight (workers (demo_pool RoundRobin) ! 1) = 0"
  using leases_accounted[OF demo_pool_reachable, of 1 RoundRobin] by (simp add: demo_pool_def demo_pair_def)

text \<open>C18: Selection is complete under every policy, and for retries: a choice fails only when every worker's
  circuit refuses, and a worker that is leased was admitted by its circuit.\<close>

theorem selection_complete:
  assumes "pool_reachable f (p, ls, es)"
  shows "choice_ok now p (snd (try_choose_for_key f (\<lambda>_. now) key p)) \<and>
    choice_ok now p (snd (try_choose_retry (\<lambda>_. now) attempted p))"
proof -
  have "pool_ok p" using pool_reachable_ok[OF assms] by (simp add: system_ok_def)
  then show ?thesis using choose_for_key_ok choose_ok(4) by blast
qed

theorem selection_complete_witness: "choice_ok 7 (demo_pool ConsistentHash) (snd (try_choose_for_key demo_ops (\<lambda>_. 7) ''x'' (demo_pool ConsistentHash)))"
  using selection_complete[OF demo_pool_reachable] by blast

text \<open>A retry goes to a worker already attempted only when the circuit of every other worker refuses.\<close>

theorem retry_prefers_fresh_worker:
  assumes "pool_reachable f (p, ls, es)" "snd (try_choose_retry (\<lambda>_. now) attempted p) = Some l"
    and "wk_id (workers p ! lease_worker l) \<in> attempted"
    and "i < length (workers p)" "wk_id (workers p ! i) \<notin> attempted"
  shows "\<not> admits now (workers p ! i)"
  using retry_prefers[OF _ assms(2-5)] pool_reachable_ok[OF assms(1)] by (simp add: system_ok_def)

theorem retry_prefers_fresh_worker_witness:
  "wk_id (workers (demo_pool RoundRobin) ! lease_worker (the (snd (try_choose_retry (\<lambda>_. 7) {''a''} (demo_pool RoundRobin))))) = ''b''"
proof (rule ccontr)
  let ?p = "demo_pool RoundRobin" and ?r = "snd (try_choose_retry (\<lambda>_. 7) {''a''} (demo_pool RoundRobin))"
  have adm: "admits 7 (workers ?p ! 1)" by (rule all_closed_admits) (simp add: demo_pool_def demo_pair_def new_worker_def new_circuit_def)
  have len: "length (workers ?p) = 2" by (simp add: demo_pool_def demo_pair_def)
  obtain l where l: "?r = Some l" "lease_worker l < 2" using demo_chosen[OF choose_ok(4)[OF demo_pool_ok]] .
  assume "wk_id (workers ?p ! lease_worker (the ?r)) \<noteq> ''b''"
  then have "wk_id (workers ?p ! lease_worker l) = ''a''" using l by (auto simp: less_2_cases_iff demo_pool_def demo_pair_def new_worker_def)
  then show False
    using retry_prefers_fresh_worker[OF demo_pool_reachable l(1), of 1] adm len
    by (simp add: demo_pool_def demo_pair_def new_worker_def)
qed

text \<open>The least-in-flight policy leases a worker with the fewest requests in flight among those whose circuit
  admits.\<close>

theorem least_in_flight_minimal:
  assumes "pool_reachable f (p, ls, es)" "snd (try_choose_least_in_flight (\<lambda>_. now) p) = Some l"
    and "i < length (workers p)" "admits now (workers p ! i)"
  shows "length (filter (\<lambda>l'. lease_worker l' = lease_worker l) ls) \<le> length (filter (\<lambda>l'. lease_worker l' = i) ls)"
proof -
  have ok: "system_ok (p, ls, es)" and p: "pool_ok p" using pool_reachable_ok[OF assms(1)] by (simp_all add: system_ok_def)
  have "lease_worker l < length (workers p)" using choose_ok(2)[OF p, of now] assms(2) by (simp add: choice_ok_def)
  then show ?thesis
    using least_in_flight_minimal_lemma[OF p assms(2-4)] ok assms(3) by (simp add: system_ok_def leases_of_def)
qed

theorem least_in_flight_minimal_witness:
  "\<exists>l. snd (try_choose_least_in_flight (\<lambda>_. 7) (demo_pool LeastInFlight)) = Some l \<and> length (filter (\<lambda>l'. lease_worker l' = lease_worker l) []) \<le> 0"
proof -
  let ?p = "demo_pool LeastInFlight"
  have adm: "admits 7 (workers ?p ! 1)" by (rule all_closed_admits) (simp add: demo_pool_def demo_pair_def new_worker_def new_circuit_def)
  have len: "length (workers ?p) = 2" by (simp add: demo_pool_def demo_pair_def)
  obtain l where l: "snd (try_choose_least_in_flight (\<lambda>_. 7) ?p) = Some l" using demo_chosen[OF choose_ok(2)[OF demo_pool_ok]] .
  then show ?thesis using least_in_flight_minimal[OF demo_pool_reachable l, of 1] adm len by simp
qed

text \<open>Between its probes, and while every circuit is closed, the latency policy leases a worker nobody has
  measured, or one whose estimate is the least of all.\<close>

theorem ewma_least_latency:
  assumes "pool_reachable f (p, ls, es)" "\<forall>x. x \<le> f_infinity f"
    and "\<not> ewma_probe_interval p dvd inc64 (ewma_decisions p)" "\<forall>w\<in>set (workers p). circ_state (breaker w) = Closed"
    and "snd (try_choose_ewma_latency f (\<lambda>_. now) p) = Some l"
  shows "ewma_ms (workers p ! lease_worker l) = None \<or>
    (\<exists>e. ewma_ms (workers p ! lease_worker l) = Some e \<and>
      (\<forall>i<length (workers p). \<exists>e'. ewma_ms (workers p ! i) = Some e' \<and> e \<le> e'))"
proof -
  have "pool_ok p" using pool_reachable_ok[OF assms(1)] by (simp add: system_ok_def)
  from ewma_choice[OF this _ assms(3-5)] assms(2) show ?thesis by (auto split: option.splits)
qed

theorem ewma_least_latency_witness:
  "\<exists>l. snd (try_choose_ewma_latency demo_ops (\<lambda>_. 7) (demo_pool EwmaLatency)) = Some l \<and>
     ewma_ms (workers (demo_pool EwmaLatency) ! lease_worker l) = None"
proof -
  let ?p = "demo_pool EwmaLatency"
  have closed: "\<forall>w\<in>set (workers ?p). circ_state (breaker w) = Closed" by (simp add: demo_pool_def demo_pair_def new_worker_def new_circuit_def)
  obtain l where l: "snd (try_choose_ewma_latency demo_ops (\<lambda>_. 7) ?p) = Some l" using demo_chosen[OF choose_ok(6)[OF demo_pool_ok]] .
  have nd: "\<not> ewma_probe_interval ?p dvd inc64 (ewma_decisions ?p)" by (simp add: demo_pool_def inc64_def wrap64_def)
  have "\<forall>x. x \<le> f_infinity demo_ops" by (simp add: demo_ops_def)
  note ewma_least_latency[OF demo_pool_reachable this nd closed l]
  moreover have "ewma_ms (workers ?p ! 0) = None" "0 < length (workers ?p)" by (simp_all add: demo_pool_def demo_pair_def new_worker_def)
  ultimately show ?thesis using l by auto
qed

text \<open>Every policy parses back from the name it is displayed with.\<close>

theorem policy_name_roundtrip: "policy_from_str (policy_display p) = Inr p"
proof -
  have "trim (policy_display p) = policy_display p"
    by (rule trim_alnum; cases p) (simp_all add: policy_display_def is_ascii_alphanumeric_def)
  moreover have "map to_ascii_lower (policy_display p) = policy_display p"
    by (cases p) (simp_all add: policy_display_def to_ascii_lower_def)
  ultimately show ?thesis by (cases p) (simp_all add: policy_from_str_def policy_display_def)
qed

end
