(* ===== verification/Routing_Fairness.thy ===== *)
theory Routing_Fairness
  imports Routing_Props
begin

text \<open>
  Fairness over runs.  While every circuit is closed, round robin visits the workers in turn, and smooth weighted
  round robin keeps every worker within a bounded distance of its exact share at every moment of a run of any
  length.  When every circuit refuses, a turn is charged to nobody and the entitlements drift.
\<close>

section \<open>Runs of choices\<close>

primrec picks :: "(nat \<Rightarrow> 'f worker_pool \<Rightarrow> 'f worker_pool \<times> worker_lease option) \<Rightarrow> nat \<Rightarrow> 'f worker_pool \<Rightarrow> 'f worker_pool \<times> nat list" where
  "picks ch 0 p = (p, [])"
| "picks ch (Suc t) p =
     (case picks ch t p of (p1, xs) \<Rightarrow>
        case ch t p1 of (p2, None) \<Rightarrow> (p2, xs) | (p2, Some l) \<Rightarrow> (p2, xs @ [lease_worker l]))"

definition all_closed :: "'f worker_pool \<Rightarrow> bool" where
  "all_closed p \<longleftrightarrow> (\<forall>w\<in>set (workers p). circ_state (breaker w) = Closed)"

lemma all_closed_nth: "all_closed p \<Longrightarrow> i < length (workers p) \<Longrightarrow> circ_state (breaker (workers p ! i)) = Closed"
  by (simp add: all_closed_def)

lemma acquire_closed: "circ_state d = Closed \<Longrightarrow>
  try_acquire_at now d = (d, Some \<lparr>at_generation = generation d, at_kind = ClosedAttempt, resolved = False\<rparr>)"
  by (simp add: try_acquire_at_def refresh_open_state_def Let_def)

text \<open>With closed circuits the first candidate is leased, and only its in-flight number changes.\<close>

definition same_but_flight :: "'f worker_pool \<Rightarrow> 'f worker_pool \<Rightarrow> bool" where
  "same_but_flight p p' \<longleftrightarrow> length (workers p') = length (workers p) \<and> next_start p' = next_start p \<and> total_weight p' = total_weight p \<and>
     (\<forall>i<length (workers p). \<exists>n. workers p' ! i = (workers p ! i)\<lparr>in_flight := n\<rparr>)"

lemma try_lease_closed:
  assumes "all_closed p" "i < length (workers p)"
  obtains p' l where "try_lease_indices clock k (i # js) p = (p', Some (i, l))" "lease_worker l = i" "same_but_flight p p'"
proof -
  define p1 where "p1 = update_worker i (\<lambda>w. w\<lparr>breaker := breaker (workers p ! i)\<rparr>) p"
  define a where "a = \<lparr>at_generation = generation (breaker (workers p ! i)), at_kind = ClosedAttempt, resolved = False\<rparr>"
  have w: "workers p1 ! j = workers p ! j" if "j < length (workers p)" for j using that by (simp add: p1_def update_worker_nth)
  have t: "try_lease_indices clock k (i # js) p = (fst (lease (clock k) i a p1), Some (i, snd (lease (clock k) i a p1)))"
    using acquire_closed[OF all_closed_nth[OF assms], of "clock k"] by (simp add: Let_def case_prod_beta p1_def a_def)
  have "\<exists>n. workers (fst (lease (clock k) i a p1)) ! j = (workers p ! j)\<lparr>in_flight := n\<rparr>" if "j < length (workers p)" for j
    using that w[OF that] by (cases "i = j") (auto simp: lease_def update_worker_nth p1_def intro: exI[of _ "in_flight (workers p ! j)"])
  then have "same_but_flight p (fst (lease (clock k) i a p1))" by (auto simp: same_but_flight_def lease_def p1_def)
  then show ?thesis using that[OF t] by (simp add: lease_def)
qed

lemma same_but_flight_closed:
  assumes "same_but_flight p p'" "all_closed p"
  shows "all_closed p'"
  unfolding all_closed_def all_set_conv_all_nth
proof (intro allI impI)
  fix i assume "i < length (workers p')"
  then show "circ_state (breaker (workers p' ! i)) = Closed"
    using assms all_closed_nth[of p i] by (auto simp: same_but_flight_def)
qed

section \<open>Round robin\<close>

lemma round_robin_step:
  assumes c: "all_closed p" and n: "workers p \<noteq> []" "next_start p < u64_max"
  obtains p' l where "try_choose_round_robin clock p = (p', Some l)" "lease_worker l = next_start p mod length (workers p)"
    "all_closed p'" "length (workers p') = length (workers p)" "next_start p' = Suc (next_start p)"
proof -
  let ?p = "fst (fetch_next p)" and ?s = "next_start p mod length (workers p)"
  have s: "?s < length (workers p)" using n by simp
  have "rotated_indices ?p ?s = ?s # tl (rotated_indices ?p ?s)"
    using n by (cases "length (workers p)") (auto simp: rotated_indices_def upt_rec)
  moreover have "all_closed ?p" using c by (simp add: all_closed_def)
  ultimately obtain p' l where t: "try_lease_indices clock 0 (rotated_indices ?p ?s) ?p = (p', Some (?s, l))" "lease_worker l = ?s" "same_but_flight ?p p'"
    using try_lease_closed[of ?p ?s clock 0 "tl (rotated_indices ?p ?s)"] s by auto
  have "next_start ?p = Suc (next_start p)" using n(2) by (simp add: fetch_next_def inc64_Suc)
  then show ?thesis
    using that[of p' l] t same_but_flight_closed[OF t(3)] c
    by (simp add: try_choose_round_robin_def drop_index_def case_prod_beta same_but_flight_def all_closed_def)
qed

lemma round_robin_run:
  assumes "all_closed p" "workers p \<noteq> []" "next_start p + t \<le> u64_max"
  shows "case picks (\<lambda>k. try_choose_round_robin (clocks k)) t p of (p', xs) \<Rightarrow>
    xs = map (\<lambda>k. (next_start p + k) mod length (workers p)) [0..<t] \<and> all_closed p' \<and>
    length (workers p') = length (workers p) \<and> next_start p' = next_start p + t"
  using assms(3)
proof (induction t)
  case (Suc t)
  obtain p1 xs where p1: "picks (\<lambda>k. try_choose_round_robin (clocks k)) t p = (p1, xs)" by fastforce
  then have ih: "xs = map (\<lambda>k. (next_start p + k) mod length (workers p)) [0..<t]" "all_closed p1" "length (workers p1) = length (workers p)"
      "next_start p1 = next_start p + t" using Suc by auto
  moreover have "workers p1 \<noteq> []" using ih(3) assms(2) by auto
  ultimately obtain p' l where "try_choose_round_robin (clocks t) p1 = (p', Some l)" "lease_worker l = (next_start p + t) mod length (workers p)"
    "all_closed p'" "length (workers p') = length (workers p)" "next_start p' = Suc (next_start p + t)"
    using round_robin_step[of p1 "clocks t"] Suc.prems by auto
  then show ?case using p1 ih by simp
qed (use assms in simp)

section \<open>Weighted round robin\<close>

lemma i64_wrap_id: "- (2 ^ 63) \<le> x \<Longrightarrow> x < 2 ^ 63 \<Longrightarrow> i64_wrap x = x"
  by (simp add: i64_wrap_def)

text \<open>One turn: the most entitled worker is charged.\<close>

lemma wrr_step:
  assumes c: "all_closed p" and n: "workers p \<noteq> []"
    and r: "\<And>i. i < length (workers p) \<Longrightarrow> - (2 ^ 63) \<le> smooth_current (workers p ! i) + int (wk_weight (workers p ! i)) \<and>
       smooth_current (workers p ! i) + int (wk_weight (workers p ! i)) < 2 ^ 63"
    and pos: "\<And>s. s < length (workers p) \<Longrightarrow> \<forall>i<length (workers p). smooth_current (workers p ! i) + int (wk_weight (workers p ! i))
        \<le> smooth_current (workers p ! s) + int (wk_weight (workers p ! s)) \<Longrightarrow>
      - (2 ^ 63) \<le> smooth_current (workers p ! s) + int (wk_weight (workers p ! s)) - total_weight p"
      "0 \<le> total_weight p"
  obtains p' l where "try_choose_weighted_round_robin clock p = (p', Some l)" "lease_worker l < length (workers p)" "all_closed p'"
    "length (workers p') = length (workers p)" "total_weight p' = total_weight p"
    "\<And>i. i < length (workers p) \<Longrightarrow> wk_weight (workers p' ! i) = wk_weight (workers p ! i)"
    "\<And>i. i < length (workers p) \<Longrightarrow> smooth_current (workers p' ! i) = smooth_current (workers p ! i) + int (wk_weight (workers p ! i))
        - (if i = lease_worker l then total_weight p else 0)"
    "\<And>i. i < length (workers p) \<Longrightarrow> smooth_current (workers p ! i) + int (wk_weight (workers p ! i))
        \<le> smooth_current (workers p ! lease_worker l) + int (wk_weight (workers p ! lease_worker l))"
proof -
  define p1 where "p1 = accrue (fst (fetch_next p))"
  define start where "start = next_start p mod length (workers p)"
  have len: "length (workers p1) = length (workers p)" by (simp add: p1_def)
  have w: "workers p1 ! i = (workers p ! i)\<lparr>smooth_current := smooth_current (workers p ! i) + int (wk_weight (workers p ! i))\<rparr>"
    if "i < length (workers p)" for i using that r[OF that] by (simp add: p1_def i64_wrap_id)
  have cl: "all_closed p1" unfolding all_closed_def all_set_conv_all_nth using all_closed_nth[OF c] w by (simp add: len)
  let ?key = "\<lambda>i. - smooth_current (workers p1 ! i)" and ?cs = "weighted_candidates start p1"
  have set: "set ?cs = {..<length (workers p)}" by (simp add: weighted_candidates_def len)
  then obtain s js where cs: "?cs = s # js" using n by (cases ?cs) auto
  have s: "s < length (workers p)" using set cs by auto
  have max: "smooth_current (workers p1 ! i) \<le> smooth_current (workers p1 ! s)" if "i < length (workers p)" for i
  proof -
    have "sorted (map ?key (s # js))" using sorted_sort_key[of ?key "rotated_indices p1 start"] by (simp add: weighted_candidates_def flip: cs)
    moreover have "i = s \<or> i \<in> set js" using that set cs by auto
    ultimately show ?thesis by auto
  qed
  obtain p2 l where t: "try_lease_indices clock 0 ?cs p1 = (p2, Some (s, l))" "lease_worker l = s" "same_but_flight p1 p2"
    using try_lease_closed[OF cl, of s clock 0 js] s by (auto simp: len cs)
  have ps: "- (2 ^ 63) \<le> smooth_current (workers p ! s) + int (wk_weight (workers p ! s)) - total_weight p"
    using pos(1)[OF s] max w s by simp
  define p' where "p' = update_worker s (\<lambda>w. w\<lparr>smooth_current := i64_wrap (smooth_current w - total_weight p2)\<rparr>) p2"
  have p2: "length (workers p2) = length (workers p)" "total_weight p2 = total_weight p"
    "\<And>i. i < length (workers p) \<Longrightarrow> \<exists>n. workers p2 ! i = (workers p1 ! i)\<lparr>in_flight := n\<rparr>"
    using t(3) by (auto simp: same_but_flight_def len p1_def)
  have u: "workers p' ! i = (if s = i then (workers p2 ! i)\<lparr>smooth_current := i64_wrap (smooth_current (workers p2 ! i) - total_weight p)\<rparr> else workers p2 ! i)"
    if "i < length (workers p)" for i using that by (simp add: p'_def update_worker_nth p2)
  show ?thesis
  proof (rule that[of p' l])
    show "try_choose_weighted_round_robin clock p = (p', Some l)"
      using t(1) by (simp add: try_choose_weighted_round_robin_def case_prod_beta Let_def p'_def p1_def start_def)
    show "lease_worker l < length (workers p)" using t(2) s by simp
    show "length (workers p') = length (workers p)" "total_weight p' = total_weight p" by (simp_all add: p'_def p2)
    show "all_closed p'" unfolding all_closed_def all_set_conv_all_nth
    proof (intro allI impI)
      fix i assume "i < length (workers p')"
      then have i: "i < length (workers p)" by (simp add: p'_def p2)
      then show "circ_state (breaker (workers p' ! i)) = Closed" using u[OF i] p2(3)[OF i] w[OF i] all_closed_nth[OF c i] by auto
    qed
    show "wk_weight (workers p' ! i) = wk_weight (workers p ! i)" if i: "i < length (workers p)" for i
      using u[OF i] p2(3)[OF i] w[OF i] by auto
    show "smooth_current (workers p' ! i) = smooth_current (workers p ! i) + int (wk_weight (workers p ! i))
        - (if i = lease_worker l then total_weight p else 0)" if i: "i < length (workers p)" for i
      using u[OF i] p2(3)[OF i] w[OF i] t(2) r[OF i] ps pos(2) by (auto simp: i64_wrap_id)
    show "smooth_current (workers p ! i) + int (wk_weight (workers p ! i))
        \<le> smooth_current (workers p ! lease_worker l) + int (wk_weight (workers p ! lease_worker l))" if i: "i < length (workers p)" for i
      using max[OF i] w[OF i] w[OF s] t(2) by simp
  qed
qed

lemma sum_count_list: "set (xs :: nat list) \<subseteq> {..<n} \<Longrightarrow> (\<Sum>i<n. count_list xs i) = length xs"
proof (induction xs)
  case (Cons x xs)
  have "(\<Sum>i<n. count_list (x # xs) i) = (\<Sum>i<n. count_list xs i + (if i = x then 1 else 0))"
    by (rule sum.cong) auto
  also have "\<dots> = length xs + (\<Sum>i<n. if i = x then 1 else 0)" using Cons by (simp add: sum.distrib)
  also have "(\<Sum>i<n. if i = x then 1 else 0) = (1 :: nat)" using Cons.prems by (subst sum.delta) auto
  finally show ?case by simp
qed simp

text \<open>The state of a run: entitlements are exactly the distance from the fair share, and none is lower than the price
  of a turn.\<close>

definition wrr_run_ok :: "'f worker_pool \<Rightarrow> nat \<Rightarrow> 'f worker_pool \<Rightarrow> nat list \<Rightarrow> bool" where
  "wrr_run_ok p0 t p xs \<longleftrightarrow> length (workers p) = length (workers p0) \<and> all_closed p \<and> total_weight p = total_weight p0 \<and>
     length xs = t \<and> set xs \<subseteq> {..<length (workers p0)} \<and>
     (\<forall>i<length (workers p0). wk_weight (workers p ! i) = wk_weight (workers p0 ! i) \<and>
        smooth_current (workers p ! i) = int t * int (wk_weight (workers p0 ! i)) - total_weight p0 * int (count_list xs i) \<and>
        - total_weight p0 < smooth_current (workers p ! i))"

lemma sum_drop_one:
  fixes c :: "nat \<Rightarrow> int"
  assumes "(\<Sum>j<n. c j) = 0" "i < n" "\<forall>j<n. - W \<le> c j"
  shows "c i \<le> int (n - 1) * W"
proof -
  have "(\<Sum>j<n. c j) = c i + (\<Sum>j\<in>{..<n} - {i}. c j)" using assms(2) by (simp add: sum.remove)
  moreover have "(\<Sum>j\<in>{..<n} - {i}. c j) \<ge> (\<Sum>j\<in>{..<n} - {i}. - W)" using assms(3) by (intro sum_mono) auto
  moreover have "card ({..<n} - {i}) = n - 1" using assms(2) by simp
  ultimately show ?thesis using assms(1) by simp
qed

lemma max_positive:
  fixes c :: "nat \<Rightarrow> int"
  assumes "(\<Sum>j<n. c j) = W" "0 < W" "\<forall>j<n. c j \<le> m"
  shows "0 < m"
proof (rule ccontr)
  assume "\<not> 0 < m"
  then have "(\<Sum>j<n. c j) \<le> (\<Sum>j<n. 0)" using assms(3) by (intro sum_mono) force
  then show False using assms by simp
qed

lemma wrr_run_step:
  assumes ok: "wrr_run_ok p0 t p xs" and n: "workers p0 \<noteq> []"
    and W: "(\<Sum>i<length (workers p0). int (wk_weight (workers p0 ! i))) = total_weight p0" "0 < total_weight p0"
    and big: "int (length (workers p0)) * total_weight p0 < 2 ^ 63"
  obtains p' l where "try_choose_weighted_round_robin clock p = (p', Some l)" "wrr_run_ok p0 (Suc t) p' (xs @ [lease_worker l])"
proof -
  let ?n = "length (workers p0)" and ?W = "total_weight p0"
  define c where "c i = smooth_current (workers p ! i)" for i
  define w where "w i = int (wk_weight (workers p0 ! i))" for i
  have len: "length (workers p) = ?n" "all_closed p" "total_weight p = ?W" "workers p \<noteq> []"
    using ok n by (auto simp: wrr_run_ok_def)
  have pw: "\<And>i. i < ?n \<Longrightarrow> int (wk_weight (workers p ! i)) = w i" and ce: "\<And>i. i < ?n \<Longrightarrow> c i = int t * w i - ?W * int (count_list xs i)"
    using ok by (simp_all add: wrr_run_ok_def c_def w_def)
  have low: "\<And>i. i < ?n \<Longrightarrow> - ?W < c i" using ok unfolding wrr_run_ok_def c_def by blast
  have "(\<Sum>i<?n. c i) = (\<Sum>i<?n. int t * w i - ?W * int (count_list xs i))" using ce by simp
  also have "\<dots> = int t * (\<Sum>i<?n. w i) - ?W * (\<Sum>i<?n. int (count_list xs i))" by (simp add: sum_subtractf sum_distrib_left)
  also have "\<dots> = 0"
  proof -
    have "(\<Sum>i<?n. int (count_list xs i)) = int t" using ok sum_count_list[of xs ?n] by (simp add: wrr_run_ok_def flip: of_nat_sum)
    then show ?thesis using W(1) by (simp add: w_def)
  qed
  finally have zero: "(\<Sum>i<?n. c i) = 0" .
  have wle: "w i \<le> ?W" if "i < ?n" for i
    using member_le_sum[of i "{..<?n}" w] that W(1) by (simp add: w_def)
  have up: "c i + w i < 2 ^ 63" if i: "i < ?n" for i
  proof -
    have "c i \<le> int (?n - 1) * ?W" using sum_drop_one[OF zero i, of ?W] low less_imp_le by blast
    then have "c i + w i \<le> int (?n - 1) * ?W + ?W" using wle[OF i] by simp
    also have "\<dots> = int ?n * ?W" using n by (cases ?n) (auto simp: algebra_simps)
    finally show ?thesis using big by simp
  qed
  have wnn: "0 \<le> w i" for i by (simp add: w_def)
  have "?W \<le> int ?n * ?W" using n W(2) by (cases ?n) (auto simp: algebra_simps)
  then have Wb: "?W < 2 ^ 63" using big by simp
  have r: "- (2 ^ 63) \<le> c i + w i \<and> c i + w i < 2 ^ 63" if i: "i < ?n" for i
    using low[OF i] up[OF i] wnn[of i] Wb by linarith
  have mp: "0 < c s + w s" if "s < ?n" "\<forall>i<?n. c i + w i \<le> c s + w s" for s
    using max_positive[of "\<lambda>i. c i + w i" ?n ?W "c s + w s"] zero W that by (simp add: sum.distrib w_def)
  obtain p' l where t: "try_choose_weighted_round_robin clock p = (p', Some l)" "lease_worker l < ?n" "all_closed p'"
    "length (workers p') = ?n" "total_weight p' = ?W"
    and pw': "\<And>i. i < ?n \<Longrightarrow> wk_weight (workers p' ! i) = wk_weight (workers p ! i)"
    and pc: "\<And>i. i < ?n \<Longrightarrow> smooth_current (workers p' ! i) = c i + w i - (if i = lease_worker l then ?W else 0)"
    and pm: "\<And>i. i < ?n \<Longrightarrow> c i + w i \<le> c (lease_worker l) + w (lease_worker l)"
  proof (rule wrr_step[OF len(2,4), of clock], goal_cases)
    case (1 i)
    then show ?case using r[of i] pw[of i] len(1) by (simp add: c_def)
  next
    case (2 s)
    then have "0 < c s + w s" using mp[of s] pw len(1) by (simp add: c_def)
    then show ?case using Wb 2(2) pw[of s] len(1,3) by (simp add: c_def)
  next
    case 3
    then show ?case using W(2) len(3) by simp
  next
    case (4 p' l)
    show ?case
    proof (rule that[of p' l])
      fix i assume i: "i < ?n"
      show "wk_weight (workers p' ! i) = wk_weight (workers p ! i)" using 4(7)[of i] i len(1) by simp
      show "smooth_current (workers p' ! i) = c i + w i - (if i = lease_worker l then ?W else 0)"
        using 4(8)[of i] i len(1,3) pw[OF i] by (simp add: c_def)
      show "c i + w i \<le> c (lease_worker l) + w (lease_worker l)"
        using 4(9)[of i] 4(3) i len(1) pw[OF i] pw[of "lease_worker l"] by (simp add: c_def)
    qed (use 4 len in simp_all)
  qed
  have "0 < c (lease_worker l) + w (lease_worker l)" using mp[OF t(2)] pm by blast
  then have lo: "- ?W < smooth_current (workers p' ! i)" if i: "i < ?n" for i
    using pc[OF i] low[OF i] wnn[of i] by (auto split: if_splits)
  have "smooth_current (workers p' ! i) = int (Suc t) * w i - ?W * int (count_list (xs @ [lease_worker l]) i)" if i: "i < ?n" for i
    using pc[OF i] ce[OF i] by (cases "i = lease_worker l") (auto simp: algebra_simps)
  then have "wrr_run_ok p0 (Suc t) p' (xs @ [lease_worker l])"
    using ok t pw' pw lo by (simp add: wrr_run_ok_def w_def)
  then show ?thesis using that t(1) by blast
qed

lemma wrr_run:
  assumes "all_closed p0" "workers p0 \<noteq> []" "\<forall>i<length (workers p0). smooth_current (workers p0 ! i) = 0"
    and W: "(\<Sum>i<length (workers p0). int (wk_weight (workers p0 ! i))) = total_weight p0" "0 < total_weight p0"
    and big: "int (length (workers p0)) * total_weight p0 < 2 ^ 63"
  shows "case picks (\<lambda>k. try_choose_weighted_round_robin (clocks k)) t p0 of (p, xs) \<Rightarrow> wrr_run_ok p0 t p xs"
proof (induction t)
  case 0
  then show ?case using assms by (simp add: wrr_run_ok_def)
next
  case (Suc t)
  obtain p xs where p: "picks (\<lambda>k. try_choose_weighted_round_robin (clocks k)) t p0 = (p, xs)" by fastforce
  then have "wrr_run_ok p0 t p xs" using Suc by simp
  then obtain p' l where "try_choose_weighted_round_robin (clocks t) p = (p', Some l)" "wrr_run_ok p0 (Suc t) p' (xs @ [lease_worker l])"
    using wrr_run_step[OF _ assms(2) W big] by metis
  then show ?case using p by simp
qed

lemma sum_weights_sum: "sum_weights a ws = Inr b \<Longrightarrow> b = a + sum_list (map (\<lambda>w. int (wr_weight w)) ws)"
  by (induction a ws rule: sum_weights.induct) (auto split: if_splits)

lemma from_config_run:
  assumes c: "from_config f ws rc cc = Inr p"
  shows "all_closed p" "workers p \<noteq> []" "\<forall>i<length (workers p). smooth_current (workers p ! i) = 0"
    "(\<Sum>i<length (workers p). int (wk_weight (workers p ! i))) = total_weight p" "0 < total_weight p"
    "workers p = map (new_worker (rc_worker_concurrency_limit rc)) ws" "next_start p = 0"
proof -
  note D = from_configD[OF c]
  show "all_closed p" "workers p \<noteq> []" "\<forall>i<length (workers p). smooth_current (workers p ! i) = 0"
    using D by (auto simp: all_closed_def new_worker_def new_circuit_def)
  show "workers p = map (new_worker (rc_worker_concurrency_limit rc)) ws" "next_start p = 0" using D by simp_all
  have t: "total_weight p = sum_list (map (\<lambda>w. int (wr_weight w)) ws)" using sum_weights_sum[OF D(4)] by simp
  then show "(\<Sum>i<length (workers p). int (wk_weight (workers p ! i))) = total_weight p"
    using D(2) by (simp add: new_worker_def sum_list_sum_nth lessThan_atLeast0)
  have "0 < sum_list (map (\<lambda>w. int (wr_weight w)) ws)"
    using D(1,5) by (cases ws) (auto intro!: add_pos_nonneg sum_list_nonneg)
  then show "0 < total_weight p" using t by simp
qed

lemma try_lease_smooth:
  "i < length (workers p) \<Longrightarrow> smooth_current (workers (fst (try_lease_indices clock k js p)) ! i) = smooth_current (workers p ! i)"
proof (induction clock k js p rule: try_lease_indices.induct)
  case (2 clock k j js p)
  obtain b r where "try_acquire_at (clock k) (breaker (workers p ! j)) = (b, r)" by fastforce
  then show ?case using 2 by (cases r) (auto simp: lease_def Let_def update_worker_nth)
qed simp

definition demo_refusing :: "enat worker_pool" where
  "demo_refusing = (demo_pool WeightedRoundRobin)\<lparr>workers := map (\<lambda>w. w\<lparr>breaker := new_circuit\<lparr>circ_state := Open 100\<rparr>\<rparr>) (workers (demo_pool WeightedRoundRobin))\<rparr>"

section \<open>Guarantees\<close>





text \<open>C21: A weighted choice that finds every circuit refusing charges nobody: each worker keeps the entitlement it
  gained, so that outages add up and the heavier workers lead by their weight for every refused turn.\<close>

theorem refused_turn_charges_nobody:
  assumes "pool_ok p" "\<forall>w\<in>set (workers p). \<not> admits now w"
    and "i < length (workers p)" "- (2 ^ 63) \<le> smooth_current (workers p ! i)"
      "smooth_current (workers p ! i) + int (wk_weight (workers p ! i)) < 2 ^ 63"
  shows "\<exists>p'. try_choose_weighted_round_robin (\<lambda>_. now) p = (p', None) \<and>
    smooth_current (workers p' ! i) = smooth_current (workers p ! i) + int (wk_weight (workers p ! i))"
proof -
  define p1 where "p1 = accrue (fst (fetch_next p))"
  define t where "t = try_lease_indices (\<lambda>_. now) 0 (weighted_candidates (next_start p mod length (workers p)) p1) p1"
  have ok: "pool_ok p1" using assms(1) by (simp add: p1_def)
  have "\<forall>w\<in>set (workers p1). \<not> admits now w"
    using same_breakers_admits(2)[OF same_breakers_fetch(2)[of p], of now] assms(2) by (simp add: p1_def)
  then have "snd t = None" using wrr.leases_available(1)[OF ok] by (simp add: t_def)
  then have "try_choose_weighted_round_robin (\<lambda>_. now) p = (fst t, None)"
    by (cases t) (simp add: try_choose_weighted_round_robin_def case_prod_beta Let_def t_def p1_def)
  moreover have "smooth_current (workers (fst t) ! i) = smooth_current (workers p1 ! i)"
    unfolding t_def using assms(3) by (intro try_lease_smooth) (simp add: p1_def)
  ultimately show ?thesis using assms(3-5) by (simp add: p1_def i64_wrap_id)
qed

theorem refused_turn_charges_nobody_witness:
  "\<exists>p'. try_choose_weighted_round_robin (\<lambda>_. 7) demo_refusing = (p', None) \<and> smooth_current (workers p' ! 0) = 2"
proof -
  have "pool_ok demo_refusing" using demo_pool_ok[of WeightedRoundRobin] by (simp add: pool_ok_def demo_refusing_def)
  moreover have "\<forall>w\<in>set (workers demo_refusing). \<not> admits 7 w"
    by (auto simp: demo_refusing_def admits_def try_acquire_at_def refresh_open_state_def Let_def)
  ultimately show ?thesis
    using refused_turn_charges_nobody[of demo_refusing 7 0]
    by (simp add: demo_refusing_def demo_pool_def demo_pair_def new_worker_def)
qed

end
