(* ===== verification/Public_Authentication.thy ===== *)
theory Public_Authentication
  imports Routing
begin

text \<open>
  Bearer-key authentication of \<open>gateway/src/public_authentication.rs\<close>.  A header map is the list of its
  entries, names in lower case.  \<open>to_str\<close> is the HTTP library's conversion of a header value to text.
\<close>

unbundle bit_operations_syntax

definition MAXIMUM_API_KEY_COUNT :: nat where "MAXIMUM_API_KEY_COUNT = 16"
definition MINIMUM_API_KEY_BYTES :: nat where "MINIMUM_API_KEY_BYTES = 16"
definition MAXIMUM_API_KEY_BYTES :: nat where "MAXIMUM_API_KEY_BYTES = 256"
definition MAXIMUM_CONFIGURATION_BYTES :: nat where "MAXIMUM_CONFIGURATION_BYTES = 4096"

type_synonym headers = "(string \<times> string) list"

definition is_ascii_graphic :: "char \<Rightarrow> bool" where
  "is_ascii_graphic c = (let n = (of_char c :: nat) in 33 \<le> n \<and> n \<le> 126)"

definition is_visible_non_whitespace_ascii :: "char \<Rightarrow> bool" where
  "is_visible_non_whitespace_ascii c \<longleftrightarrow> is_ascii_graphic c \<and> c \<noteq> CHR '',''"

text \<open>\<open>str::split\<close> on one character: there is always at least one piece.\<close>

fun split_on :: "char \<Rightarrow> string \<Rightarrow> string list" where
  "split_on d [] = [[]]"
| "split_on d (c # s) =
     (if c = d then [] # split_on d s
      else case split_on d s of [] \<Rightarrow> [[c]] | p # ps \<Rightarrow> (c # p) # ps)"

datatype key_error = ConfigurationTooLong | ConfigurationEmpty | TooManyKeys | KeyEmpty nat | KeyShort nat
  | KeyLong nat | KeyInvisible nat | KeyDuplicate nat | NotOneKey

fun collect_keys :: "nat \<Rightarrow> string list \<Rightarrow> string list \<Rightarrow> (key_error, string list) result" where
  "collect_keys index keys [] = Inr keys"
| "collect_keys index keys (raw # rest) =
     (if MAXIMUM_API_KEY_COUNT \<le> index then Inl TooManyKeys
      else let key = trim raw; position = index + 1 in
        if key = [] then Inl (KeyEmpty position)
        else if length key < MINIMUM_API_KEY_BYTES then Inl (KeyShort position)
        else if MAXIMUM_API_KEY_BYTES < length key then Inl (KeyLong position)
        else if \<not> list_all is_visible_non_whitespace_ascii key then Inl (KeyInvisible position)
        else if key \<in> set keys then Inl (KeyDuplicate position)
        else collect_keys (index + 1) (keys @ [key]) rest)"

definition public_from_configuration :: "string option \<Rightarrow> (key_error, string list) result" where
  "public_from_configuration configuration =
     (case configuration of
        None \<Rightarrow> Inr []
      | Some c \<Rightarrow>
          if MAXIMUM_CONFIGURATION_BYTES < length c then Inl ConfigurationTooLong
          else if c = [] then Inl ConfigurationEmpty
          else collect_keys 0 [] (split_on (CHR '','') c))"

definition operator_from_configuration :: "string \<Rightarrow> (key_error, string list) result" where
  "operator_from_configuration configuration =
     (if CHR '','' \<in> set configuration then Inl NotOneKey
      else and_then (public_from_configuration (Some configuration)) (\<lambda>keys.
        if length keys \<noteq> 1 then Inl NotOneKey else Inr keys))"

fun split_once :: "char \<Rightarrow> string \<Rightarrow> (string \<times> string) option" where
  "split_once d [] = None"
| "split_once d (c # s) =
     (if c = d then Some ([], s) else map_option (\<lambda>(a, b). (c # a, b)) (split_once d s))"

definition bearer_token :: "string \<Rightarrow> string option" where
  "bearer_token v =
     (case split_once (CHR '' '') v of
        None \<Rightarrow> None
      | Some (scheme, token) \<Rightarrow>
          if map to_ascii_lower scheme = ''bearer'' \<and> token \<noteq> [] \<and> list_all is_visible_non_whitespace_ascii token
          then Some token else None)"

definition byte_at :: "string \<Rightarrow> nat \<Rightarrow> nat" where
  "byte_at s i = (if i < length s then of_char (s ! i) else 0)"

definition constant_time_equal :: "string \<Rightarrow> string \<Rightarrow> bool" where
  "constant_time_equal configured candidate =
     (foldl (\<lambda>difference i. difference OR (byte_at configured i XOR byte_at candidate i))
        (length configured XOR length candidate) [0 ..< MAXIMUM_API_KEY_BYTES] = 0)"

definition credential_slot :: "nat \<Rightarrow> nat option" where
  "credential_slot index = (if index < 256 then Some index else None)"

definition matched_slot :: "string list \<Rightarrow> string \<Rightarrow> nat option" where
  "matched_slot keys candidate =
     foldl (\<lambda>matched i. if constant_time_equal (keys ! i) candidate then credential_slot i else matched) None [0 ..< length keys]"

text \<open>The result carries the credential's slot; without configured keys there is none.\<close>

definition authenticate :: "(string \<Rightarrow> string option) \<Rightarrow> string list \<Rightarrow> headers \<Rightarrow> nat option option" where
  "authenticate to_str keys h =
     (if keys = [] then Some None
      else let values = map snd (filter (\<lambda>e. fst e = ''authorization'') h) in
        if length values \<noteq> 1 then None
        else case to_str (hd values) of
          None \<Rightarrow> None
        | Some v \<Rightarrow> (case bearer_token v of
            None \<Rightarrow> None
          | Some candidate \<Rightarrow>
              if MAXIMUM_API_KEY_BYTES < length candidate then None
              else map_option Some (matched_slot keys candidate)))"

definition authorizes :: "(string \<Rightarrow> string option) \<Rightarrow> string list \<Rightarrow> headers \<Rightarrow> bool" where
  "authorizes to_str keys h = (authenticate to_str keys h \<noteq> None)"

definition overlaps_operator :: "string list \<Rightarrow> string list \<Rightarrow> bool" where
  "overlaps_operator keys operator_keys =
     foldl (\<lambda>overlaps k. constant_time_equal k (operator_keys ! 0) \<or> overlaps) False keys"

section \<open>The comparison decides equality\<close>

lemma xor_eq_0: "(a XOR b = (0::nat)) = (a = b)"
  by (auto simp: bit_eq_iff bit_simps)

lemma foldl_or: "(foldl (\<lambda>d i. d OR g i) d xs = (0::nat)) = (d = 0 \<and> (\<forall>i\<in>set xs. g i = 0))"
  by (induction xs arbitrary: d) (auto simp: or_eq_0_iff)

lemma byte_at_inj: "length s = length t \<Longrightarrow> (\<forall>i<length s. byte_at s i = byte_at t i) \<Longrightarrow> s = t"
  by (rule nth_equalityI) (auto simp: byte_at_def)

lemma constant_time_equal_iff:
  assumes "length s \<le> MAXIMUM_API_KEY_BYTES"
  shows "constant_time_equal s t \<longleftrightarrow> s = t"
proof
  assume "constant_time_equal s t"
  then have "length s = length t" "\<forall>i<MAXIMUM_API_KEY_BYTES. byte_at s i = byte_at t i"
    by (auto simp: constant_time_equal_def foldl_or xor_eq_0)
  then show "s = t" using assms by (intro byte_at_inj) auto
next
  have "foldl (\<lambda>d i. d OR (byte_at t i XOR byte_at t i)) (length t XOR length t) xs = 0" for xs
    by (subst foldl_or) simp
  moreover assume "s = t"
  ultimately show "constant_time_equal s t" by (simp only: constant_time_equal_def)
qed

lemma constant_time_equal_diff: "length s \<noteq> length t \<Longrightarrow> \<not> constant_time_equal s t"
  by (auto simp: constant_time_equal_def foldl_or xor_eq_0)

section \<open>Configured keys\<close>

definition key_ok :: "string \<Rightarrow> bool" where
  "key_ok k \<longleftrightarrow> MINIMUM_API_KEY_BYTES \<le> length k \<and> length k \<le> MAXIMUM_API_KEY_BYTES \<and> list_all is_visible_non_whitespace_ascii k"

lemma collect_keys_ok:
  assumes "collect_keys i acc ps = Inr keys" "distinct acc" "list_all key_ok acc" "length acc = i" "i \<le> MAXIMUM_API_KEY_COUNT"
  shows "distinct keys \<and> list_all key_ok keys \<and> length keys \<le> MAXIMUM_API_KEY_COUNT \<and> length keys = i + length ps"
  using assms
proof (induction i acc ps rule: collect_keys.induct)
  case (2 i acc raw rest)
  show ?case
    using "2.prems" "2.IH"[OF _ refl refl] by (auto simp: Let_def key_ok_def split: if_splits)
qed auto

lemma split_on_ne: "split_on d s \<noteq> []"
  by (induction s) (auto split: list.splits)

lemma public_keys_ok:
  assumes "public_from_configuration c = Inr keys"
  shows "distinct keys \<and> list_all key_ok keys \<and> length keys \<le> MAXIMUM_API_KEY_COUNT \<and> (keys = [] \<longleftrightarrow> c = None)"
proof (cases c)
  case (Some s)
  then have "collect_keys 0 [] (split_on (CHR '','') s) = Inr keys"
    using assms by (auto simp: public_from_configuration_def split: if_splits)
  from collect_keys_ok[OF this] have k: "distinct keys \<and> list_all key_ok keys \<and> length keys \<le> MAXIMUM_API_KEY_COUNT"
    "length keys = length (split_on (CHR '','') s)" by simp_all
  moreover have "keys \<noteq> []" using k(2) split_on_ne[of "CHR '',''" s] by auto
  ultimately show ?thesis using Some by simp
qed (use assms in \<open>auto simp: public_from_configuration_def MAXIMUM_API_KEY_COUNT_def\<close>)

lemma foldl_match:
  "distinct xs \<Longrightarrow> (\<forall>i\<in>set xs. \<forall>j\<in>set xs. P i \<longrightarrow> P j \<longrightarrow> i = j) \<Longrightarrow>
   foldl (\<lambda>m i. if P i then Some i else m) m xs = Some j \<longleftrightarrow> (j \<in> set xs \<and> P j) \<or> ((\<forall>i\<in>set xs. \<not> P i) \<and> m = Some j)"
  by (induction xs arbitrary: m) auto

lemma foldl_cong_slot:
  "\<forall>i\<in>set xs. i < 256 \<Longrightarrow>
   foldl (\<lambda>m i. if P i then credential_slot i else m) m xs = foldl (\<lambda>m i. if P i then Some i else m) m xs"
  by (induction xs arbitrary: m) (auto simp: credential_slot_def)

lemma matched_slot_iff:
  assumes "distinct keys" "list_all key_ok keys" "length keys \<le> MAXIMUM_API_KEY_COUNT"
  shows "matched_slot keys t = Some j \<longleftrightarrow> j < length keys \<and> keys ! j = t"
proof -
  have eq: "constant_time_equal (keys ! i) t \<longleftrightarrow> keys ! i = t" if "i < length keys" for i
    using that assms(2) by (intro constant_time_equal_iff) (auto simp: list_all_length key_ok_def)
  have "matched_slot keys t = foldl (\<lambda>m i. if constant_time_equal (keys ! i) t then Some i else m) None [0 ..< length keys]"
    unfolding matched_slot_def by (rule foldl_cong_slot) (use assms(3) in \<open>auto simp: MAXIMUM_API_KEY_COUNT_def\<close>)
  moreover have "foldl (\<lambda>m i. if constant_time_equal (keys ! i) t then Some i else m) None [0 ..< length keys] = Some j \<longleftrightarrow>
      j \<in> set [0 ..< length keys] \<and> constant_time_equal (keys ! j) t"
    by (subst foldl_match) (use eq assms(1) in \<open>auto simp: nth_eq_iff_index_eq\<close>)
  ultimately show ?thesis using eq by auto
qed

lemma split_once_iff: "split_once d s = Some (a, b) \<longleftrightarrow> s = a @ d # b \<and> d \<notin> set a"
proof (induction s arbitrary: a)
  case (Cons c s)
  show ?case by (cases a) (auto simp: Cons.IH)
qed simp

lemma bearer_token_iff:
  "bearer_token v = Some t \<longleftrightarrow>
   (\<exists>scheme. v = scheme @ CHR '' '' # t \<and> map to_ascii_lower scheme = ''bearer'') \<and> t \<noteq> [] \<and>
   list_all is_visible_non_whitespace_ascii t"
proof -
  have sp: "CHR '' '' \<notin> set scheme" if "map to_ascii_lower scheme = ''bearer''" for scheme
  proof
    assume "CHR '' '' \<in> set scheme"
    then have "to_ascii_lower (CHR '' '') \<in> set (map to_ascii_lower scheme)" by simp
    then show False using that by (simp add: to_ascii_lower_def)
  qed
  define named where "named scheme = (map to_ascii_lower scheme = ''bearer'')" for scheme
  define shown where "shown token = (token \<noteq> [] \<and> list_all is_visible_non_whitespace_ascii token)" for token
  have "bearer_token v = Some t \<longleftrightarrow> (\<exists>scheme. split_once (CHR '' '') v = Some (scheme, t) \<and> named scheme \<and> shown t)"
    unfolding bearer_token_def named_def[symmetric] shown_def[symmetric] by (cases "split_once (CHR '' '') v") (auto split: if_splits)
  also have "\<dots> \<longleftrightarrow> (\<exists>scheme. v = scheme @ CHR '' '' # t \<and> named scheme) \<and> shown t"
    unfolding split_once_iff using sp unfolding named_def[symmetric] by blast
  finally show ?thesis by (simp only: named_def shown_def)
qed

end
