(* ===== verification/Control_Auth.thy ===== *)
theory Control_Auth
  imports Public_Authentication
begin

text \<open>
  Signed control messages of \<open>control-auth/src/lib.rs\<close>: the canonical byte strings of routing configurations and
  of writes, key rings with revocation, and their verification.  Base64 and Ed25519 are libraries: their
  functions are parameters, collected in a record.
\<close>

section \<open>Messages\<close>

record routing_worker =
  cw_id :: string
  cw_base_url :: string
  cw_weight :: nat

record routing_payload =
  pl_cluster_id :: string
  pl_revision :: nat
  pl_term :: nat
  pl_routing_policy :: string
  pl_workers :: "routing_worker list"

record write_payload =
  wp_cluster_id :: string
  wp_expected_revision :: nat
  wp_issued_at_ms :: nat
  wp_nonce :: string
  wp_routing_policy :: string
  wp_workers :: "routing_worker list"

record control_authentication =
  ca_schema :: string
  ca_algorithm :: string
  ca_key_id :: string
  ca_signature :: string

record write_authorization =
  wa_schema :: string
  wa_algorithm :: string
  wa_writer_id :: string
  wa_issued_at_ms :: nat
  wa_nonce :: string
  wa_signature :: string

datatype auth_error = MissingEquals | BadKeyId | BadBase64 | BadLength | BadPublicKey | DuplicateKey | NoTrustedKeys | DuplicateRevoked
  | UnsupportedSchema | UnsupportedAlgorithm | KeyRevoked | KeyNotTrusted | CanonicalLimit | BadNonce | MetadataMismatch | BadSignature

record ('s, 'k) crypto =
  base64_decode :: "string \<Rightarrow> string option"
  base64_encode :: "string \<Rightarrow> string"
  signing_key :: "string \<Rightarrow> 's"
  verifying_key :: "string \<Rightarrow> 'k option"
  sign_bytes :: "'s \<Rightarrow> string \<Rightarrow> string"
  verify_strict :: "'k \<Rightarrow> string \<Rightarrow> string \<Rightarrow> bool"

definition AUTHENTICATION_SCHEMA :: string where "AUTHENTICATION_SCHEMA = ''inferlab.control-authentication.v1''"
definition WRITE_AUTHORIZATION_SCHEMA :: string where "WRITE_AUTHORIZATION_SCHEMA = ''inferlab.control-write-authorization.v1''"
definition SIGNATURE_ALGORITHM :: string where "SIGNATURE_ALGORITHM = ''ed25519''"
definition PAYLOAD_DOMAIN :: string where "PAYLOAD_DOMAIN = ''inferlab.control-routing.v1'' @ [char_of (0::nat)]"
definition WRITE_PAYLOAD_DOMAIN :: string where "WRITE_PAYLOAD_DOMAIN = ''inferlab.control-write.v1'' @ [char_of (0::nat)]"
definition MAX_KEY_ID_BYTES :: nat where "MAX_KEY_ID_BYTES = 128"
definition MIN_NONCE_BYTES :: nat where "MIN_NONCE_BYTES = 16"
definition MAX_NONCE_BYTES :: nat where "MAX_NONCE_BYTES = 128"

section \<open>Validation\<close>

definition identifier_char :: "char \<Rightarrow> bool" where
  "identifier_char c \<longleftrightarrow> is_ascii_alphanumeric c \<or> c = CHR ''.'' \<or> c = CHR ''_'' \<or> c = CHR ''-''"

definition validate_key_id :: "string \<Rightarrow> (auth_error, unit) result" where
  "validate_key_id k = (if k \<noteq> [] \<and> length k \<le> MAX_KEY_ID_BYTES \<and> list_all identifier_char k then Inr () else Inl BadKeyId)"

definition validate_nonce :: "string \<Rightarrow> (auth_error, unit) result" where
  "validate_nonce v =
     (if MIN_NONCE_BYTES \<le> length v \<and> length v \<le> MAX_NONCE_BYTES \<and> list_all identifier_char v then Inr () else Inl BadNonce)"

definition validate_authentication :: "control_authentication \<Rightarrow> (auth_error, unit) result" where
  "validate_authentication a =
     (if ca_schema a \<noteq> AUTHENTICATION_SCHEMA then Inl UnsupportedSchema
      else if ca_algorithm a \<noteq> SIGNATURE_ALGORITHM then Inl UnsupportedAlgorithm
      else validate_key_id (ca_key_id a))"

definition validate_write_authorization :: "write_authorization \<Rightarrow> (auth_error, unit) result" where
  "validate_write_authorization a =
     (if wa_schema a \<noteq> WRITE_AUTHORIZATION_SCHEMA then Inl UnsupportedSchema
      else if wa_algorithm a \<noteq> SIGNATURE_ALGORITHM then Inl UnsupportedAlgorithm
      else and_then (validate_key_id (wa_writer_id a)) (\<lambda>_. validate_nonce (wa_nonce a)))"

section \<open>Canonical bytes\<close>

text \<open>\<open>to_be_bytes\<close> of a number of \<open>w\<close> bytes.\<close>

fun be_bytes :: "nat \<Rightarrow> nat \<Rightarrow> string" where
  "be_bytes 0 n = []"
| "be_bytes (Suc w) n = char_of (n div 256 ^ w mod 256) # be_bytes w n"

definition append_string :: "string \<Rightarrow> string \<Rightarrow> (auth_error, string) result" where
  "append_string bytes v = (if u32_max < length v then Inl CanonicalLimit else Inr (bytes @ be_bytes 4 (length v) @ v))"

fun append_strings :: "string \<Rightarrow> string list \<Rightarrow> (auth_error, string) result" where
  "append_strings bytes [] = Inr bytes"
| "append_strings bytes (v # vs) = and_then (append_string bytes v) (\<lambda>bytes. append_strings bytes vs)"

fun append_workers :: "string \<Rightarrow> routing_worker list \<Rightarrow> (auth_error, string) result" where
  "append_workers bytes [] = Inr bytes"
| "append_workers bytes (w # ws) =
     and_then (append_strings bytes [cw_id w, cw_base_url w]) (\<lambda>bytes. append_workers (bytes @ be_bytes 4 (cw_weight w)) ws)"

definition append_worker_list :: "string \<Rightarrow> routing_worker list \<Rightarrow> (auth_error, string) result" where
  "append_worker_list bytes ws =
     (if u32_max < length ws then Inl CanonicalLimit else append_workers (bytes @ be_bytes 4 (length ws)) ws)"

definition canonical_payload :: "routing_payload \<Rightarrow> string \<Rightarrow> (auth_error, string) result" where
  "canonical_payload p key_id =
     and_then (validate_key_id key_id) (\<lambda>_.
     and_then (append_strings PAYLOAD_DOMAIN [AUTHENTICATION_SCHEMA, SIGNATURE_ALGORITHM, key_id, pl_cluster_id p]) (\<lambda>bytes.
     and_then (append_string (bytes @ be_bytes 8 (pl_revision p) @ be_bytes 8 (pl_term p)) (pl_routing_policy p)) (\<lambda>bytes.
       append_worker_list bytes (pl_workers p))))"

definition canonical_write_payload :: "write_payload \<Rightarrow> string \<Rightarrow> (auth_error, string) result" where
  "canonical_write_payload p writer_id =
     and_then (validate_key_id writer_id) (\<lambda>_.
     and_then (validate_nonce (wp_nonce p)) (\<lambda>_.
     and_then (append_strings WRITE_PAYLOAD_DOMAIN
       [WRITE_AUTHORIZATION_SCHEMA, SIGNATURE_ALGORITHM, writer_id, ''PUT'', ''/v1/control/config'', wp_cluster_id p]) (\<lambda>bytes.
     and_then (append_strings (bytes @ be_bytes 8 (wp_expected_revision p) @ be_bytes 8 (wp_issued_at_ms p)) [wp_nonce p, wp_routing_policy p]) (\<lambda>bytes.
       append_worker_list bytes (wp_workers p)))))"

section \<open>Key rings\<close>

record 'k key_ring =
  kr_keys :: "(string \<times> 'k) list"
  kr_preferences :: "(string \<times> nat) list"
  kr_ordered :: "string list"
  kr_revoked :: "string list"

definition decode_exact :: "('s, 'k) crypto \<Rightarrow> nat \<Rightarrow> string \<Rightarrow> (auth_error, string) result" where
  "decode_exact c n encoded =
     (case base64_decode c encoded of
        None \<Rightarrow> Inl BadBase64
      | Some bytes \<Rightarrow> if length bytes = n then Inr bytes else Inl BadLength)"

fun parse_keys :: "('s, 'k) crypto \<Rightarrow> string list \<Rightarrow> 'k key_ring \<Rightarrow> (auth_error, 'k key_ring) result" where
  "parse_keys c [] r = Inr r"
| "parse_keys c (raw # rest) r =
     (let entry = trim raw in
      if entry = [] then parse_keys c rest r
      else case split_once (CHR ''='') entry of
        None \<Rightarrow> Inl MissingEquals
      | Some (raw_id, encoded) \<Rightarrow>
          let key_id = trim raw_id in
          and_then (validate_key_id key_id) (\<lambda>_.
          and_then (decode_exact c 32 (trim encoded)) (\<lambda>bytes.
            case verifying_key c bytes of
              None \<Rightarrow> Inl BadPublicKey
            | Some k \<Rightarrow>
                if map_of (kr_keys r) key_id \<noteq> None then Inl DuplicateKey
                else parse_keys c rest
                  (r\<lparr>kr_keys := (key_id, k) # kr_keys r, kr_preferences := (key_id, length (kr_ordered r)) # kr_preferences r,
                     kr_ordered := kr_ordered r @ [key_id]\<rparr>))))"

fun parse_revoked :: "string list \<Rightarrow> string list \<Rightarrow> (auth_error, string list) result" where
  "parse_revoked [] revoked = Inr revoked"
| "parse_revoked (raw # rest) revoked =
     (let key_id = trim raw in
      if key_id = [] then parse_revoked rest revoked
      else and_then (validate_key_id key_id) (\<lambda>_.
        if key_id \<in> set revoked then Inl DuplicateRevoked else parse_revoked rest (key_id # revoked)))"

definition empty_ring :: "'k key_ring" where
  "empty_ring = \<lparr>kr_keys = [], kr_preferences = [], kr_ordered = [], kr_revoked = []\<rparr>"

text \<open>\<open>TrustedWriterKeyRing::parse\<close> is the same code without preferences, which nothing reads there.\<close>

definition parse_ring :: "('s, 'k) crypto \<Rightarrow> string \<Rightarrow> string \<Rightarrow> (auth_error, 'k key_ring) result" where
  "parse_ring c encoded_keys revoked_ids =
     and_then (parse_keys c (split_on (CHR '','') encoded_keys) empty_ring) (\<lambda>r.
       if kr_keys r = [] then Inl NoTrustedKeys
       else and_then (parse_revoked (split_on (CHR '','') revoked_ids) []) (\<lambda>revoked. Inr (r\<lparr>kr_revoked := revoked\<rparr>)))"

definition key_preference :: "'k key_ring \<Rightarrow> string \<Rightarrow> nat option" where
  "key_preference r key_id = map_of (kr_preferences r) key_id"

section \<open>Signing and verifying\<close>

record 's signing_identity =
  si_key_id :: string
  si_key :: 's

text \<open>\<open>WriterSigningIdentity\<close> has the same fields and the same constructor.\<close>

definition from_base64_seed :: "('s, 'k) crypto \<Rightarrow> string \<Rightarrow> string \<Rightarrow> (auth_error, 's signing_identity) result" where
  "from_base64_seed c key_id encoded_seed =
     and_then (validate_key_id key_id) (\<lambda>_.
     and_then (decode_exact c 32 encoded_seed) (\<lambda>bytes. Inr \<lparr>si_key_id = key_id, si_key = signing_key c bytes\<rparr>))"

definition sign_routing :: "('s, 'k) crypto \<Rightarrow> 's signing_identity \<Rightarrow> routing_payload \<Rightarrow> (auth_error, control_authentication) result" where
  "sign_routing c i p =
     and_then (canonical_payload p (si_key_id i)) (\<lambda>message.
       Inr \<lparr>ca_schema = AUTHENTICATION_SCHEMA, ca_algorithm = SIGNATURE_ALGORITHM, ca_key_id = si_key_id i,
            ca_signature = base64_encode c (sign_bytes c (si_key i) message)\<rparr>)"

definition sign_write :: "('s, 'k) crypto \<Rightarrow> 's signing_identity \<Rightarrow> write_payload \<Rightarrow> (auth_error, write_authorization) result" where
  "sign_write c i p =
     and_then (validate_nonce (wp_nonce p)) (\<lambda>_.
     and_then (canonical_write_payload p (si_key_id i)) (\<lambda>message.
       Inr \<lparr>wa_schema = WRITE_AUTHORIZATION_SCHEMA, wa_algorithm = SIGNATURE_ALGORITHM, wa_writer_id = si_key_id i,
            wa_issued_at_ms = wp_issued_at_ms p, wa_nonce = wp_nonce p,
            wa_signature = base64_encode c (sign_bytes c (si_key i) message)\<rparr>))"

definition ring_verify :: "('s, 'k) crypto \<Rightarrow> 'k key_ring \<Rightarrow> routing_payload \<Rightarrow> control_authentication \<Rightarrow> (auth_error, unit) result" where
  "ring_verify c r p a =
     and_then (validate_authentication a) (\<lambda>_.
       if ca_key_id a \<in> set (kr_revoked r) then Inl KeyRevoked
       else case map_of (kr_keys r) (ca_key_id a) of
         None \<Rightarrow> Inl KeyNotTrusted
       | Some k \<Rightarrow>
           and_then (decode_exact c 64 (ca_signature a)) (\<lambda>signature.
           and_then (canonical_payload p (ca_key_id a)) (\<lambda>message.
             if verify_strict c k message signature then Inr () else Inl BadSignature)))"

definition ring_verify_write :: "('s, 'k) crypto \<Rightarrow> 'k key_ring \<Rightarrow> write_payload \<Rightarrow> write_authorization \<Rightarrow> (auth_error, unit) result" where
  "ring_verify_write c r p a =
     and_then (validate_write_authorization a) (\<lambda>_.
       if wa_issued_at_ms a \<noteq> wp_issued_at_ms p \<or> wa_nonce a \<noteq> wp_nonce p then Inl MetadataMismatch
       else if wa_writer_id a \<in> set (kr_revoked r) then Inl KeyRevoked
       else case map_of (kr_keys r) (wa_writer_id a) of
         None \<Rightarrow> Inl KeyNotTrusted
       | Some k \<Rightarrow>
           and_then (decode_exact c 64 (wa_signature a)) (\<lambda>signature.
           and_then (canonical_write_payload p (wa_writer_id a)) (\<lambda>message.
             if verify_strict c k message signature then Inr () else Inl BadSignature)))"

section \<open>The canonical bytes determine the message\<close>

text \<open>The widths the Rust types give the numbers.\<close>

definition worker_fits :: "routing_worker \<Rightarrow> bool" where
  "worker_fits w \<longleftrightarrow> cw_weight w \<le> u32_max"

definition payload_fits :: "routing_payload \<Rightarrow> bool" where
  "payload_fits p \<longleftrightarrow> pl_revision p \<le> u64_max \<and> pl_term p \<le> u64_max \<and> list_all worker_fits (pl_workers p)"

definition write_fits :: "write_payload \<Rightarrow> bool" where
  "write_fits p \<longleftrightarrow> wp_expected_revision p \<le> u64_max \<and> wp_issued_at_ms p \<le> u64_max \<and> list_all worker_fits (wp_workers p)"

definition lp :: "string \<Rightarrow> string" where
  "lp v = be_bytes 4 (length v) @ v"

definition wbytes :: "routing_worker \<Rightarrow> string" where
  "wbytes w = lp (cw_id w) @ lp (cw_base_url w) @ be_bytes 4 (cw_weight w)"

definition short :: "string \<Rightarrow> bool" where
  "short v \<longleftrightarrow> length v \<le> u32_max"

lemma length_be [simp]: "length (be_bytes w n) = w"
  by (induction w) auto

lemma be_value: "n < 256 ^ w \<Longrightarrow> foldl (\<lambda>a c. a * 256 + of_char c) 0 (be_bytes w n) = n"
proof -
  have "foldl (\<lambda>a c. a * 256 + of_char c) a (be_bytes w n) = a * 256 ^ w + n mod 256 ^ w" for a
  proof (induction w arbitrary: a)
    case (Suc w)
    have "n mod 256 ^ Suc w = (n div 256 ^ w mod 256) * 256 ^ w + n mod 256 ^ w"
      using mod_mult2_eq[of n "256 ^ w" 256] by (simp add: mult.commute)
    then show ?case using Suc.IH[of "a * 256 + n div 256 ^ w mod 256"] by (simp add: algebra_simps)
  qed simp
  moreover assume "n < 256 ^ w"
  ultimately show ?thesis by simp
qed

lemma be_inj: "n < 256 ^ w \<Longrightarrow> m < 256 ^ w \<Longrightarrow> (be_bytes w n @ r = be_bytes w m @ r') = (n = m \<and> r = r')"
  by (metis append_eq_append_conv be_value length_be)

lemma be_eq: "n < 256 ^ w \<Longrightarrow> m < 256 ^ w \<Longrightarrow> (be_bytes w n = be_bytes w m) = (n = m)"
  by (metis be_value)

lemma u_bounds: "n \<le> u32_max \<Longrightarrow> n < 256 ^ 4" "n \<le> u64_max \<Longrightarrow> n < 256 ^ 8"
  by (simp_all add: u32_max_def u64_max_def)

lemma be8: "n \<le> u64_max \<Longrightarrow> m \<le> u64_max \<Longrightarrow> (be_bytes 8 n = be_bytes 8 m) = (n = m)"
  by (intro be_eq u_bounds)

lemma lp_inj: "short v \<Longrightarrow> short v' \<Longrightarrow> (lp v @ r = lp v' @ r') = (v = v' \<and> r = r')"
  unfolding lp_def append_assoc using be_inj[OF u_bounds(1) u_bounds(1), of "length v" "length v'"] by (auto simp: short_def)

lemma append_string_eq: "append_string b v = Inr x \<longleftrightarrow> short v \<and> x = b @ lp v"
  by (auto simp: append_string_def lp_def short_def)

lemma append_strings_eq: "append_strings b vs = Inr x \<longleftrightarrow> list_all short vs \<and> x = b @ concat (map lp vs)"
  by (induction vs arbitrary: b) (auto simp: and_then_Inr_iff append_string_eq)

lemma append_workers_eq:
  "append_workers b ws = Inr x \<longleftrightarrow> list_all (\<lambda>w. short (cw_id w) \<and> short (cw_base_url w)) ws \<and> x = b @ concat (map wbytes ws)"
  by (induction ws arbitrary: b) (auto simp: and_then_Inr_iff append_strings_eq wbytes_def simp del: append_strings.simps)

lemma append_worker_list_eq:
  "append_worker_list b ws = Inr x \<longleftrightarrow> length ws \<le> u32_max \<and> list_all (\<lambda>w. short (cw_id w) \<and> short (cw_base_url w)) ws \<and>
     x = b @ be_bytes 4 (length ws) @ concat (map wbytes ws)"
  by (auto simp: append_worker_list_def append_workers_eq)

lemma wbytes_inj:
  assumes "short (cw_id w) \<and> short (cw_base_url w)" "short (cw_id w') \<and> short (cw_base_url w')" "worker_fits w" "worker_fits w'"
  shows "(wbytes w @ r = wbytes w' @ r') = (w = w' \<and> r = r')"
  using assms be_inj[OF u_bounds(1) u_bounds(1), of "cw_weight w" "cw_weight w'"] unfolding wbytes_def
  by (auto simp: lp_inj worker_fits_def)

lemma workers_inj:
  assumes "length ws = length ws'" "list_all (\<lambda>w. short (cw_id w) \<and> short (cw_base_url w)) ws" "list_all worker_fits ws"
    "list_all (\<lambda>w. short (cw_id w) \<and> short (cw_base_url w)) ws'" "list_all worker_fits ws'"
    "concat (map wbytes ws) = concat (map wbytes ws')"
  shows "ws = ws'"
  using assms by (induction ws ws' rule: list_induct2) (auto simp: wbytes_inj)

definition named :: "routing_worker \<Rightarrow> bool" where
  "named w \<longleftrightarrow> short (cw_id w) \<and> short (cw_base_url w)"

definition tail_bytes :: "routing_worker list \<Rightarrow> string" where
  "tail_bytes ws = be_bytes 4 (length ws) @ concat (map wbytes ws)"

lemma worker_list_eq:
  "append_worker_list b ws = Inr x \<longleftrightarrow> (length ws \<le> u32_max \<and> list_all named ws) \<and> x = b @ tail_bytes ws"
  by (auto simp: append_worker_list_eq tail_bytes_def named_def[abs_def])

lemma tail_bytes_inj:
  assumes "length ws \<le> u32_max \<and> list_all named ws" "length ws' \<le> u32_max \<and> list_all named ws'"
    "list_all worker_fits ws" "list_all worker_fits ws'" "tail_bytes ws = tail_bytes ws'"
  shows "ws = ws'"
  using assms be_inj[OF u_bounds(1) u_bounds(1), of "length ws" "length ws'"]
  by (auto simp: tail_bytes_def named_def[abs_def] intro: workers_inj)

lemma key_id_short: "validate_key_id k = Inr () \<Longrightarrow> short k"
  by (auto simp: validate_key_id_def short_def MAX_KEY_ID_BYTES_def u32_max_def split: if_splits)

lemma canonical_payload_eq:
  "canonical_payload p k = Inr m \<longleftrightarrow>
     validate_key_id k = Inr () \<and> list_all short [AUTHENTICATION_SCHEMA, SIGNATURE_ALGORITHM, k, pl_cluster_id p, pl_routing_policy p] \<and>
     (length (pl_workers p) \<le> u32_max \<and> list_all named (pl_workers p)) \<and>
     m = PAYLOAD_DOMAIN @ lp AUTHENTICATION_SCHEMA @ lp SIGNATURE_ALGORITHM @ lp k @ lp (pl_cluster_id p) @
       be_bytes 8 (pl_revision p) @ be_bytes 8 (pl_term p) @ lp (pl_routing_policy p) @ tail_bytes (pl_workers p)"
  unfolding canonical_payload_def and_then_Inr_iff append_strings_eq append_string_eq worker_list_eq by auto

lemma canonical_write_payload_eq:
  "canonical_write_payload p k = Inr m \<longleftrightarrow>
     validate_key_id k = Inr () \<and> validate_nonce (wp_nonce p) = Inr () \<and>
     list_all short [WRITE_AUTHORIZATION_SCHEMA, SIGNATURE_ALGORITHM, k, ''PUT'', ''/v1/control/config'', wp_cluster_id p, wp_nonce p,
       wp_routing_policy p] \<and>
     (length (wp_workers p) \<le> u32_max \<and> list_all named (wp_workers p)) \<and>
     m = WRITE_PAYLOAD_DOMAIN @ lp WRITE_AUTHORIZATION_SCHEMA @ lp SIGNATURE_ALGORITHM @ lp k @ lp ''PUT'' @ lp ''/v1/control/config'' @
       lp (wp_cluster_id p) @ be_bytes 8 (wp_expected_revision p) @ be_bytes 8 (wp_issued_at_ms p) @ lp (wp_nonce p) @
       lp (wp_routing_policy p) @ tail_bytes (wp_workers p)"
  unfolding canonical_write_payload_def and_then_Inr_iff append_strings_eq append_string_eq worker_list_eq by auto

lemma canonical_payload_inj:
  assumes m: "canonical_payload p k = Inr m" "canonical_payload p' k' = Inr m" and fits: "payload_fits p" "payload_fits p'"
  shows "p = p' \<and> k = k'"
proof -
  note e = m[unfolded canonical_payload_eq]
  have k: "short k" "short k'" using e key_id_short by blast+
  have "lp k @ lp (pl_cluster_id p) @ be_bytes 8 (pl_revision p) @ be_bytes 8 (pl_term p) @ lp (pl_routing_policy p) @ tail_bytes (pl_workers p) =
    lp k' @ lp (pl_cluster_id p') @ be_bytes 8 (pl_revision p') @ be_bytes 8 (pl_term p') @ lp (pl_routing_policy p') @ tail_bytes (pl_workers p')"
    using e by (metis same_append_eq)
  then have "k = k' \<and> pl_cluster_id p = pl_cluster_id p' \<and> pl_revision p = pl_revision p' \<and> pl_term p = pl_term p' \<and>
    pl_routing_policy p = pl_routing_policy p' \<and> tail_bytes (pl_workers p) = tail_bytes (pl_workers p')"
    using e k fits by (simp add: lp_inj be8 payload_fits_def)
  then show ?thesis using tail_bytes_inj e fits by (simp add: payload_fits_def)
qed

lemma canonical_write_payload_inj:
  assumes m: "canonical_write_payload p k = Inr m" "canonical_write_payload p' k' = Inr m" and fits: "write_fits p" "write_fits p'"
  shows "p = p' \<and> k = k'"
proof -
  note e = m[unfolded canonical_write_payload_eq]
  have k: "short k" "short k'" using e key_id_short by blast+
  have "lp k @ lp ''PUT'' @ lp ''/v1/control/config'' @ lp (wp_cluster_id p) @ be_bytes 8 (wp_expected_revision p) @
      be_bytes 8 (wp_issued_at_ms p) @ lp (wp_nonce p) @ lp (wp_routing_policy p) @ tail_bytes (wp_workers p) =
    lp k' @ lp ''PUT'' @ lp ''/v1/control/config'' @ lp (wp_cluster_id p') @ be_bytes 8 (wp_expected_revision p') @
      be_bytes 8 (wp_issued_at_ms p') @ lp (wp_nonce p') @ lp (wp_routing_policy p') @ tail_bytes (wp_workers p')"
    using e by (metis same_append_eq)
  then have "k = k' \<and> wp_cluster_id p = wp_cluster_id p' \<and> wp_expected_revision p = wp_expected_revision p' \<and>
    wp_issued_at_ms p = wp_issued_at_ms p' \<and> wp_nonce p = wp_nonce p' \<and>
    wp_routing_policy p = wp_routing_policy p' \<and> tail_bytes (wp_workers p) = tail_bytes (wp_workers p')"
    using e k fits by (simp add: lp_inj be8 write_fits_def)
  then show ?thesis using tail_bytes_inj e fits by (simp add: write_fits_def)
qed

text \<open>The two kinds of message cannot be confused: the domains differ at their eighteenth byte.\<close>

lemma domains_differ: "canonical_payload p k = Inr m \<Longrightarrow> canonical_write_payload p' k' \<noteq> Inr m"
proof
  assume "canonical_payload p k = Inr m" "canonical_write_payload p' k' = Inr m"
  then obtain a b where "m = PAYLOAD_DOMAIN @ a" "m = WRITE_PAYLOAD_DOMAIN @ b" unfolding canonical_payload_eq canonical_write_payload_eq by blast
  then have "take 18 (PAYLOAD_DOMAIN @ a) = take 18 (WRITE_PAYLOAD_DOMAIN @ b)" by simp
  then show False by (simp add: PAYLOAD_DOMAIN_def WRITE_PAYLOAD_DOMAIN_def)
qed

section \<open>The rings\<close>

text \<open>A key ring lists each trusted identifier once, and the preference of a key is its position.\<close>

definition ring_ok :: "'k key_ring \<Rightarrow> bool" where
  "ring_ok r \<longleftrightarrow> distinct (kr_ordered r) \<and> set (kr_ordered r) = fst ` set (kr_keys r) \<and>
     (\<forall>k. map_of (kr_preferences r) k = (if k \<in> set (kr_ordered r) then Some (length (takeWhile (\<lambda>x. x \<noteq> k) (kr_ordered r))) else None))"

lemma parse_keys_ok: "parse_keys c es r = Inr r' \<Longrightarrow> ring_ok r \<Longrightarrow> ring_ok r'"
proof (induction c es r rule: parse_keys.induct)
  case (2 c raw rest r)
  show ?case
  proof (cases "trim raw = []")
    case True
    then show ?thesis using 2 by (simp add: Let_def)
  next
    case False
    then obtain i enc bytes k where s: "split_once (CHR ''='') (trim raw) = Some (i, enc)" "validate_key_id (trim i) = Inr ()"
      "decode_exact c 32 (trim enc) = Inr bytes" "verifying_key c bytes = Some k" "map_of (kr_keys r) (trim i) = None"
      and p: "parse_keys c rest (r\<lparr>kr_keys := (trim i, k) # kr_keys r,
        kr_preferences := (trim i, length (kr_ordered r)) # kr_preferences r, kr_ordered := kr_ordered r @ [trim i]\<rparr>) = Inr r'"
      using 2(3) by (auto simp: Let_def and_then_Inr_iff case_option_Inr_iff if_Inl_Inr_iff)
    have new: "trim i \<notin> set (kr_ordered r)" using s(5) 2(4) by (auto simp: ring_ok_def map_of_eq_None_iff)
    have "\<forall>x\<in>set (kr_ordered r). x \<noteq> trim i" using new by blast
    then have w: "length (takeWhile (\<lambda>x. x \<noteq> trim i) (kr_ordered r @ [trim i])) = length (kr_ordered r)" by (simp add: takeWhile_append2)
    have "takeWhile (\<lambda>x. x \<noteq> j) (kr_ordered r @ [trim i]) = takeWhile (\<lambda>x. x \<noteq> j) (kr_ordered r)" if "j \<in> set (kr_ordered r)" for j
      using that by (simp add: takeWhile_append1)
    then have "ring_ok (r\<lparr>kr_keys := (trim i, k) # kr_keys r, kr_preferences := (trim i, length (kr_ordered r)) # kr_preferences r,
        kr_ordered := kr_ordered r @ [trim i]\<rparr>)"
      using 2(4) new w by (simp add: ring_ok_def)
    then show ?thesis using "2.IH"(2)[OF refl False s(1) refl refl s(4)] s(5) p by simp
  qed
qed simp

lemma parse_ring_ok: "parse_ring c ks rs = Inr r \<Longrightarrow> ring_ok r \<and> kr_ordered r \<noteq> []"
  by (auto simp: parse_ring_def and_then_Inr_iff split: if_splits dest!: parse_keys_ok) (auto simp: ring_ok_def empty_ring_def)

lemma ring_verify_eq:
  "ring_verify c r p a = Inr () \<longleftrightarrow>
     (\<exists>k sig m. validate_authentication a = Inr () \<and> ca_key_id a \<notin> set (kr_revoked r) \<and> map_of (kr_keys r) (ca_key_id a) = Some k \<and>
        decode_exact c 64 (ca_signature a) = Inr sig \<and> canonical_payload p (ca_key_id a) = Inr m \<and> verify_strict c k m sig)"
  by (auto simp: ring_verify_def and_then_Inr_iff case_option_Inr_iff)

lemma ring_verify_write_eq:
  "ring_verify_write c r p a = Inr () \<longleftrightarrow>
     (\<exists>k sig m. validate_write_authorization a = Inr () \<and> wa_issued_at_ms a = wp_issued_at_ms p \<and> wa_nonce a = wp_nonce p \<and>
        wa_writer_id a \<notin> set (kr_revoked r) \<and> map_of (kr_keys r) (wa_writer_id a) = Some k \<and>
        decode_exact c 64 (wa_signature a) = Inr sig \<and> canonical_write_payload p (wa_writer_id a) = Inr m \<and> verify_strict c k m sig)"
  by (auto simp: ring_verify_write_def and_then_Inr_iff case_option_Inr_iff if_Inl_Inr_iff)

end
