(* ===== verification/Snapshot_Store.thy ===== *)
theory Snapshot_Store
  imports Control_Auth Routing
begin

text \<open>
  The durable routing snapshot of \<open>gateway/src/routing_snapshot_store.rs\<close> and the check of its signature in
  \<open>control_authentication.rs\<close>.  JSON is a library: the codec is a parameter.  The file system is the content of the
  snapshot file and of the temporary file beside it; which call fails, if any, is an argument.
\<close>

section \<open>Configurations\<close>

record stored_worker =
  sw_id :: string
  sw_base_url :: string
  sw_weight :: nat

record stored_configuration =
  st_routing_policy :: string
  st_workers :: "stored_worker list"

record committed =
  cm_cluster_id :: string
  cm_revision :: nat
  cm_term :: nat
  cm_configuration :: stored_configuration
  cm_authentication :: "control_authentication option"

record persisted_snapshot =
  ps_schema :: string
  ps_saved_at_ms :: nat
  ps_committed :: committed

definition ROUTING_SNAPSHOT_SCHEMA :: string where "ROUTING_SNAPSHOT_SCHEMA = ''inferlab.gateway-routing-snapshot.v1''"
definition MAX_SNAPSHOT_BYTES :: nat where "MAX_SNAPSHOT_BYTES = 1048576"

datatype snapshot_error = BadClusterId | BadRevision | BadPolicy | NoStoredWorkers | EmptyStoredWorker | ZeroStoredWeight | DuplicateStoredWorker
  | BadSnapshotSchema | ClusterMismatch | FutureSnapshot | SnapshotExpired | SnapshotMissing | SnapshotTooLarge | SnapshotUndecodable
  | NotSerialized | BadFileName | IoFailure | Unsigned | AuthFailed auth_error

section \<open>Validation\<close>

definition validate_control_cluster_id :: "string \<Rightarrow> (snapshot_error, unit) result" where
  "validate_control_cluster_id c = (if c \<noteq> [] \<and> length c \<le> 128 \<and> list_all identifier_char c then Inr () else Inl BadClusterId)"

fun validate_stored_workers :: "string set \<Rightarrow> stored_worker list \<Rightarrow> (snapshot_error, unit) result" where
  "validate_stored_workers identities [] = Inr ()"
| "validate_stored_workers identities (w # ws) =
     (if trim (sw_id w) = [] \<or> trim (sw_base_url w) = [] then Inl EmptyStoredWorker
      else if sw_weight w = 0 then Inl ZeroStoredWeight
      else if sw_id w \<in> identities then Inl DuplicateStoredWorker
      else validate_stored_workers (insert (sw_id w) identities) ws)"

definition validate_committed :: "committed \<Rightarrow> (snapshot_error, unit) result" where
  "validate_committed c =
     and_then (validate_control_cluster_id (cm_cluster_id c)) (\<lambda>_.
       if cm_revision c = 0 \<or> cm_term c = 0 then Inl BadRevision
       else case policy_from_str (st_routing_policy (cm_configuration c)) of
         Inl _ \<Rightarrow> Inl BadPolicy
       | Inr _ \<Rightarrow>
           if st_workers (cm_configuration c) = [] then Inl NoStoredWorkers
           else validate_stored_workers {} (st_workers (cm_configuration c)))"

definition validate_snapshot :: "persisted_snapshot \<Rightarrow> (snapshot_error, unit) result" where
  "validate_snapshot s = (if ps_schema s \<noteq> ROUTING_SNAPSHOT_SCHEMA then Inl BadSnapshotSchema else validate_committed (ps_committed s))"

definition validate_expected_control_cluster :: "committed \<Rightarrow> string \<Rightarrow> (snapshot_error, unit) result" where
  "validate_expected_control_cluster c expected =
     and_then (validate_control_cluster_id expected) (\<lambda>_. if cm_cluster_id c = expected then Inr () else Inl ClusterMismatch)"

section \<open>Freshness\<close>

record freshness_policy =
  maximum_age_ms :: "nat option"
  maximum_future_skew_ms :: nat

definition default_freshness_policy :: freshness_policy where
  "default_freshness_policy = \<lparr>maximum_age_ms = None, maximum_future_skew_ms = 1000\<rparr>"

definition policy_expires_at_ms :: "freshness_policy \<Rightarrow> nat \<Rightarrow> nat option" where
  "policy_expires_at_ms p saved_at_ms = map_option (sat_add64 saved_at_ms) (maximum_age_ms p)"

record snapshot_freshness =
  observed_age_ms :: nat
  fr_expires_at_ms :: "nat option"

definition validate_snapshot_freshness :: "nat \<Rightarrow> nat \<Rightarrow> freshness_policy \<Rightarrow> (snapshot_error, snapshot_freshness) result" where
  "validate_snapshot_freshness saved_at_ms observed_at_ms p =
     (if observed_at_ms < saved_at_ms \<and> maximum_future_skew_ms p < saved_at_ms - observed_at_ms then Inl FutureSnapshot
      else let age = observed_at_ms - saved_at_ms
           in if (case maximum_age_ms p of None \<Rightarrow> False | Some m \<Rightarrow> m < age) then Inl SnapshotExpired
              else Inr \<lparr>observed_age_ms = age, fr_expires_at_ms = policy_expires_at_ms p saved_at_ms\<rparr>)"

section \<open>The file\<close>

record snapshot_codec =
  to_vec_pretty :: "persisted_snapshot \<Rightarrow> string option"
  from_slice :: "string \<Rightarrow> persisted_snapshot option"

record snapshot_disk =
  sd_target :: "string option"
  sd_temporary :: "string option"

text \<open>Which call of \<open>save\<close> fails: \<open>create_dir_all\<close>, the file name, \<open>open\<close>, a write after \<open>n\<close> bytes, a sync, the rename or the
  sync of the directory.\<close>

datatype snapshot_save_outcome = DirFails | NameFails | OpenFails | WriteFails nat | SyncFails | RenameFails | DirSyncFails | SaveSucceeds

definition line_break :: string where "line_break = [char_of (10::nat)]"

definition load :: "snapshot_codec \<Rightarrow> bool \<Rightarrow> snapshot_disk \<Rightarrow> (snapshot_error, persisted_snapshot) result" where
  "load codec readable d =
     (case sd_target d of
        None \<Rightarrow> Inl SnapshotMissing
      | Some bytes \<Rightarrow>
          if MAX_SNAPSHOT_BYTES < length bytes then Inl SnapshotTooLarge
          else if \<not> readable then Inl IoFailure
          else case from_slice codec bytes of
            None \<Rightarrow> Inl SnapshotUndecodable
          | Some s \<Rightarrow> and_then (validate_snapshot s) (\<lambda>_. Inr s))"

text \<open>The write of the temporary file and its rename.  A failure removes the temporary file if that works; a crash leaves what the calls so far have left,
  which is the failure of the next call without the removal.\<close>

definition write_snapshot :: "string \<Rightarrow> snapshot_save_outcome \<Rightarrow> bool \<Rightarrow> snapshot_disk \<Rightarrow> snapshot_disk \<times> (snapshot_error, unit) result" where
  "write_snapshot bytes outcome removed d =
     (let file = bytes @ line_break; cleanup = (\<lambda>d. if removed then d\<lparr>sd_temporary := None\<rparr> else d)
      in case outcome of
           OpenFails \<Rightarrow> (cleanup d, Inl IoFailure)
         | WriteFails n \<Rightarrow> (cleanup (d\<lparr>sd_temporary := Some (take n file)\<rparr>), Inl IoFailure)
         | SyncFails \<Rightarrow> (cleanup (d\<lparr>sd_temporary := Some file\<rparr>), Inl IoFailure)
         | RenameFails \<Rightarrow> (cleanup (d\<lparr>sd_temporary := Some file\<rparr>), Inl IoFailure)
         | DirSyncFails \<Rightarrow> (\<lparr>sd_target = Some file, sd_temporary = None\<rparr>, Inl IoFailure)
         | _ \<Rightarrow> (\<lparr>sd_target = Some file, sd_temporary = None\<rparr>, Inr ()))"

definition save ::
  "snapshot_codec \<Rightarrow> nat \<Rightarrow> snapshot_save_outcome \<Rightarrow> bool \<Rightarrow> committed \<Rightarrow> snapshot_disk \<Rightarrow> snapshot_disk \<times> (snapshot_error, persisted_snapshot) result" where
  "save codec now_ms outcome removed c d =
     (let s = \<lparr>ps_schema = ROUTING_SNAPSHOT_SCHEMA, ps_saved_at_ms = now_ms, ps_committed = c\<rparr>
      in case validate_snapshot s of
           Inl e \<Rightarrow> (d, Inl e)
         | Inr _ \<Rightarrow>
           (case to_vec_pretty codec s of
              None \<Rightarrow> (d, Inl NotSerialized)
            | Some bytes \<Rightarrow>
                if MAX_SNAPSHOT_BYTES < length bytes then (d, Inl SnapshotTooLarge)
                else if outcome = DirFails then (d, Inl IoFailure)
                else if outcome = NameFails then (d, Inl BadFileName)
                else let (d, r) = write_snapshot bytes outcome removed d in (d, and_then r (\<lambda>_. Inr s))))"

section \<open>Signatures of configurations\<close>

datatype 'k control_authenticator = AuthDisabled | AuthRequired "'k key_ring"

datatype signing_key_transition = TrDisabled | TrSame | TrUpgrade | TrDowngrade

definition authenticator_from_configuration ::
  "('s, 'k) crypto \<Rightarrow> string option \<Rightarrow> string option \<Rightarrow> (auth_error option, 'k control_authenticator) result" where
  "authenticator_from_configuration c trusted_keys revoked =
     (case trusted_keys of
        None \<Rightarrow> if (case revoked of None \<Rightarrow> False | Some v \<Rightarrow> trim v \<noteq> []) then Inl None else Inr AuthDisabled
      | Some keys \<Rightarrow>
          (case parse_ring c keys (case revoked of None \<Rightarrow> [] | Some v \<Rightarrow> v) of
             Inl e \<Rightarrow> Inl (Some e)
           | Inr r \<Rightarrow> Inr (AuthRequired r)))"

definition auth_required :: "'k control_authenticator \<Rightarrow> bool" where
  "auth_required a = (case a of AuthDisabled \<Rightarrow> False | AuthRequired _ \<Rightarrow> True)"

definition payload_of :: "committed \<Rightarrow> routing_payload" where
  "payload_of c =
     \<lparr>pl_cluster_id = cm_cluster_id c, pl_revision = cm_revision c, pl_term = cm_term c,
      pl_routing_policy = st_routing_policy (cm_configuration c),
      pl_workers = map (\<lambda>w. \<lparr>cw_id = sw_id w, cw_base_url = sw_base_url w, cw_weight = sw_weight w\<rparr>) (st_workers (cm_configuration c))\<rparr>"

definition verify_committed :: "('s, 'k) crypto \<Rightarrow> 'k control_authenticator \<Rightarrow> committed \<Rightarrow> (snapshot_error, string option) result" where
  "verify_committed cr a c =
     (case a of
        AuthDisabled \<Rightarrow> Inr None
      | AuthRequired r \<Rightarrow>
          (case cm_authentication c of
             None \<Rightarrow> Inl Unsigned
           | Some x \<Rightarrow>
               (case ring_verify cr r (payload_of c) x of
                  Inl e \<Rightarrow> Inl (AuthFailed e)
                | Inr _ \<Rightarrow> Inr (Some (ca_key_id x)))))"

definition key_transition :: "'k control_authenticator \<Rightarrow> string option \<Rightarrow> string option \<Rightarrow> signing_key_transition" where
  "key_transition a current observed =
     (case a of
        AuthDisabled \<Rightarrow> TrDisabled
      | AuthRequired r \<Rightarrow>
          (case observed of
             None \<Rightarrow> TrDowngrade
           | Some ob \<Rightarrow>
               (case current of
                  None \<Rightarrow> TrUpgrade
                | Some cu \<Rightarrow>
                    if ob = cu then TrSame
                    else case (key_preference r cu, key_preference r ob) of
                      (Some pc, Some po) \<Rightarrow> if pc < po then TrUpgrade else TrDowngrade
                    | _ \<Rightarrow> TrDowngrade)))"

definition same_routing_payload :: "committed \<Rightarrow> committed \<Rightarrow> bool" where
  "same_routing_payload l r \<longleftrightarrow> cm_cluster_id l = cm_cluster_id r \<and> cm_revision l = cm_revision r \<and> cm_term l = cm_term r \<and>
     cm_configuration l = cm_configuration r"

section \<open>Saving and loading\<close>

text \<open>What the store relies on: the codec reads back what it wrote, with white space after it.\<close>

definition codec_reads_back :: "snapshot_codec \<Rightarrow> bool" where
  "codec_reads_back codec \<longleftrightarrow> (\<forall>s bytes. to_vec_pretty codec s = Some bytes \<longrightarrow> from_slice codec (bytes @ line_break) = Some s)"

definition never_full :: "snapshot_codec \<Rightarrow> bool" where
  "never_full codec \<longleftrightarrow> (\<forall>s bytes. to_vec_pretty codec s = Some bytes \<longrightarrow> length bytes \<noteq> MAX_SNAPSHOT_BYTES)"

lemma length_line_break [simp]: "length line_break = 1"
  by (simp add: line_break_def)

lemma saved_effect:
  assumes "save codec now_ms outcome removed c d = (d', r)"
  shows "sd_target d' = sd_target d \<and> (\<exists>e. r = Inl e) \<or>
    (\<exists>bytes s. s = \<lparr>ps_schema = ROUTING_SNAPSHOT_SCHEMA, ps_saved_at_ms = now_ms, ps_committed = c\<rparr> \<and> validate_committed c = Inr () \<and>
       to_vec_pretty codec s = Some bytes \<and> length bytes \<le> MAX_SNAPSHOT_BYTES \<and> sd_target d' = Some (bytes @ line_break) \<and>
       (r = Inr s \<or> (\<exists>e. r = Inl e)))"
  using assms unfolding save_def write_snapshot_def Let_def validate_snapshot_def
  by (auto split: sum.splits option.splits if_splits snapshot_save_outcome.splits)

lemma load_saved:
  assumes codec: "codec_reads_back codec" "never_full codec"
    and s: "s = \<lparr>ps_schema = ROUTING_SNAPSHOT_SCHEMA, ps_saved_at_ms = now_ms, ps_committed = c\<rparr>" "validate_committed c = Inr ()"
      "to_vec_pretty codec s = Some bytes" "length bytes \<le> MAX_SNAPSHOT_BYTES" "sd_target d = Some (bytes @ line_break)"
  shows "load codec True d = Inr s"
proof -
  have "length bytes \<noteq> MAX_SNAPSHOT_BYTES" using codec(2) s(3) by (simp add: never_full_def)
  then have "\<not> MAX_SNAPSHOT_BYTES < length (bytes @ line_break)" using s(4) by simp
  moreover have "from_slice codec (bytes @ line_break) = Some s" using codec(1) s(3) by (simp add: codec_reads_back_def)
  ultimately show ?thesis using s by (simp add: load_def validate_snapshot_def)
qed

text \<open>After a save, whatever happened, the snapshot file is the old one or the new one, and the new one if the save succeeded.\<close>

lemma save_load:
  assumes "codec_reads_back codec" "never_full codec" "save codec now_ms outcome removed c d = (d', r)"
  shows "load codec rd d' = load codec rd d \<and> (\<exists>e. r = Inl e) \<or>
    (\<exists>s. ps_committed s = c \<and> load codec True d' = Inr s \<and> (r = Inr s \<or> (\<exists>e. r = Inl e)))"
  using saved_effect[OF assms(3)]
proof
  assume "sd_target d' = sd_target d \<and> (\<exists>e. r = Inl e)"
  then show ?thesis by (simp add: load_def)
next
  assume "\<exists>bytes s. s = \<lparr>ps_schema = ROUTING_SNAPSHOT_SCHEMA, ps_saved_at_ms = now_ms, ps_committed = c\<rparr> \<and> validate_committed c = Inr () \<and>
       to_vec_pretty codec s = Some bytes \<and> length bytes \<le> MAX_SNAPSHOT_BYTES \<and> sd_target d' = Some (bytes @ line_break) \<and>
       (r = Inr s \<or> (\<exists>e. r = Inl e))"
  then obtain bytes s where s: "s = \<lparr>ps_schema = ROUTING_SNAPSHOT_SCHEMA, ps_saved_at_ms = now_ms, ps_committed = c\<rparr>" "validate_committed c = Inr ()"
    "to_vec_pretty codec s = Some bytes" "length bytes \<le> MAX_SNAPSHOT_BYTES" "sd_target d' = Some (bytes @ line_break)"
    "r = Inr s \<or> (\<exists>e. r = Inl e)" by blast
  have "load codec True d' = Inr s" by (rule load_saved[OF assms(1,2) s(1-5)])
  moreover have "ps_committed s = c" using s(1) by simp
  ultimately show ?thesis using s(6) by blast
qed

lemma load_valid: "load codec rd d = Inr s \<Longrightarrow> validate_committed (ps_committed s) = Inr ()"
  by (auto simp: load_def validate_snapshot_def and_then_Inr_iff split: option.splits if_splits)

lemma same_payload_refl [simp]: "same_routing_payload c c"
  by (simp add: same_routing_payload_def)

lemma same_payload_trans: "same_routing_payload a b \<Longrightarrow> same_routing_payload b c \<Longrightarrow> same_routing_payload a c"
  by (simp add: same_routing_payload_def)

lemma same_payload_sym: "same_routing_payload a b \<Longrightarrow> same_routing_payload b a"
  by (simp add: same_routing_payload_def)

section \<open>The order on keys\<close>

definition key_le :: "'k control_authenticator \<Rightarrow> string option \<Rightarrow> string option \<Rightarrow> bool" where
  "key_le a current observed \<longleftrightarrow> key_transition a current observed \<noteq> TrDowngrade"

definition key_known :: "'k control_authenticator \<Rightarrow> string option \<Rightarrow> bool" where
  "key_known a k \<longleftrightarrow> (case a of AuthDisabled \<Rightarrow> k = None | AuthRequired r \<Rightarrow> (\<exists>i p. k = Some i \<and> key_preference r i = Some p))"

lemma key_le_refl: "key_known a k \<Longrightarrow> key_le a k k"
  by (auto simp: key_le_def key_known_def key_transition_def split: control_authenticator.splits)

lemma key_le_trans: "key_known a x \<Longrightarrow> key_known a z \<Longrightarrow> key_le a x y \<Longrightarrow> key_le a y z \<Longrightarrow> key_le a x z"
  by (auto simp: key_le_def key_known_def key_transition_def split: control_authenticator.splits option.splits if_splits)

definition auth_ok :: "'k control_authenticator \<Rightarrow> bool" where
  "auth_ok a \<longleftrightarrow> (case a of AuthDisabled \<Rightarrow> True | AuthRequired r \<Rightarrow> ring_ok r)"

lemma auth_ok_from_configuration: "authenticator_from_configuration c ks rs = Inr a \<Longrightarrow> auth_ok a"
  by (auto simp: authenticator_from_configuration_def auth_ok_def dest: parse_ring_ok split: option.splits if_splits sum.splits)

lemma verified_key_known: "auth_ok a \<Longrightarrow> verify_committed cr a c = Inr k \<Longrightarrow> key_known a k"
proof (cases a)
  case (AuthRequired r)
  assume "auth_ok a" "verify_committed cr a c = Inr k"
  then obtain x where x: "ring_verify cr r (payload_of c) x = Inr ()" "k = Some (ca_key_id x)" "ring_ok r"
    by (auto simp: verify_committed_def AuthRequired auth_ok_def split: option.splits sum.splits)
  then obtain y where "map_of (kr_keys r) (ca_key_id x) = Some y" unfolding ring_verify_eq by blast
  then have "ca_key_id x \<in> set (kr_ordered r)" using x(3) by (metis ring_ok_def map_of_eq_None_iff option.distinct(1))
  then show ?thesis using x by (simp add: AuthRequired key_known_def key_preference_def ring_ok_def)
qed (auto simp: verify_committed_def key_known_def)

end
