(* ===== verification/Admission.thy ===== *)
theory Admission
  imports Routing
begin

text \<open>
  Bounded admission of \<open>gateway/src/admission.rs\<close>.  A semaphore is its number of free permits; the counters
  beside it are the atomics the diagnostics read.  \<open>admit_worker\<close> is split at its await: what it does
  before waiting for an execution permit, and what happens when the permit arrives or the caller gives up.
  Dropping a guard runs its \<open>Drop\<close> and then returns the permits it owns.
\<close>

record admission_controller =
  outstanding_slots :: nat
  queue_slots :: nat
  queue_capacity :: nat
  worker_execution_capacity :: nat
  outstanding :: nat
  executing :: nat
  queued :: nat
  rejected_total :: nat
  max_observed_outstanding :: nat
  max_observed_executing :: nat
  max_observed_queued :: nat

definition default_queue_capacity :: nat where "default_queue_capacity = 64"

datatype admission_error = QueueTooLarge | NoExecutionCapacity | AdmissionTooLarge

definition new_admission :: "nat \<Rightarrow> nat \<Rightarrow> (admission_error, admission_controller) result" where
  "new_admission capacity execution_capacity =
     (if 1000000 < capacity then Inl QueueTooLarge
      else if execution_capacity = 0 then Inl NoExecutionCapacity
      else if u64_max < execution_capacity + capacity then Inl AdmissionTooLarge
      else Inr \<lparr>outstanding_slots = execution_capacity + capacity, queue_slots = capacity, queue_capacity = capacity,
                worker_execution_capacity = execution_capacity, outstanding = 0, executing = 0, queued = 0,
                rejected_total = 0, max_observed_outstanding = 0, max_observed_executing = 0, max_observed_queued = 0\<rparr>)"

definition increment_with_peak :: "nat \<Rightarrow> nat \<Rightarrow> nat \<times> nat" where
  "increment_with_peak current peak = (inc64 current, max peak (inc64 current))"

definition decrement :: "nat \<Rightarrow> nat" where
  "decrement current = wrap64 (current + u64_max)"

definition record_rejection :: "admission_controller \<Rightarrow> admission_controller" where
  "record_rejection a = a\<lparr>rejected_total := inc64 (rejected_total a)\<rparr>"

section \<open>Requests\<close>

definition try_admit_request :: "admission_controller \<Rightarrow> admission_controller \<times> bool" where
  "try_admit_request a =
     (if outstanding_slots a = 0 then (record_rejection a, False)
      else let (v, peak) = increment_with_peak (outstanding a) (max_observed_outstanding a)
           in (a\<lparr>outstanding_slots := outstanding_slots a - 1, outstanding := v, max_observed_outstanding := peak\<rparr>, True))"

definition drop_request_permit :: "admission_controller \<Rightarrow> admission_controller" where
  "drop_request_permit a = a\<lparr>outstanding := decrement (outstanding a), outstanding_slots := outstanding_slots a + 1\<rparr>"

section \<open>The waiting room\<close>

definition enter_queue :: "admission_controller \<Rightarrow> admission_controller \<times> bool" where
  "enter_queue a =
     (if queue_slots a = 0 then (record_rejection a, False)
      else let (v, peak) = increment_with_peak (queued a) (max_observed_queued a)
           in (a\<lparr>queue_slots := queue_slots a - 1, queued := v, max_observed_queued := peak\<rparr>, True))"

definition drop_queue_guard :: "admission_controller \<Rightarrow> admission_controller" where
  "drop_queue_guard a = a\<lparr>queued := decrement (queued a), queue_slots := queue_slots a + 1\<rparr>"

section \<open>Executions\<close>

definition begin_execution :: "admission_controller \<Rightarrow> admission_controller" where
  "begin_execution a =
     (let (v, peak) = increment_with_peak (executing a) (max_observed_executing a)
      in a\<lparr>executing := v, max_observed_executing := peak\<rparr>)"

definition drop_execution_guard :: "admission_controller \<Rightarrow> admission_controller" where
  "drop_execution_guard a = a\<lparr>executing := decrement (executing a)\<rparr>"

datatype admit_outcome = Executing | Waiting | Overloaded

definition admit_worker_begin ::
  "worker_lease \<Rightarrow> 'f worker_pool \<Rightarrow> admission_controller \<Rightarrow> 'f worker_pool \<times> admission_controller \<times> admit_outcome" where
  "admit_worker_begin l p a =
     (case try_reserve_execution l p of
        (p', True) \<Rightarrow> (p', begin_execution a, Executing)
      | (p', False) \<Rightarrow>
          (case enter_queue a of (a', True) \<Rightarrow> (p', a', Waiting) | (a', False) \<Rightarrow> (p', a', Overloaded)))"

text \<open>The semaphore hands a permit to the waiter: only when the worker has a free one.\<close>

definition admit_worker_resume ::
  "worker_lease \<Rightarrow> 'f worker_pool \<Rightarrow> admission_controller \<Rightarrow> ('f worker_pool \<times> admission_controller) option" where
  "admit_worker_resume l p a =
     (case try_reserve_execution l p of
        (p', True) \<Rightarrow> Some (p', begin_execution (drop_queue_guard a))
      | (_, False) \<Rightarrow> None)"

section \<open>Diagnostics\<close>

record admission_snapshot =
  as_queue_capacity :: nat
  as_worker_execution_capacity :: nat
  as_outstanding_capacity :: nat
  as_outstanding :: nat
  as_executing :: nat
  as_queued :: nat
  as_rejected_total :: nat
  as_max_observed_outstanding :: nat
  as_max_observed_executing :: nat
  as_max_observed_queued :: nat

definition snapshot_admission :: "admission_controller \<Rightarrow> admission_snapshot" where
  "snapshot_admission a =
     \<lparr>as_queue_capacity = queue_capacity a, as_worker_execution_capacity = worker_execution_capacity a,
      as_outstanding_capacity = worker_execution_capacity a + queue_capacity a, as_outstanding = outstanding a,
      as_executing = executing a, as_queued = queued a, as_rejected_total = rejected_total a,
      as_max_observed_outstanding = max_observed_outstanding a, as_max_observed_executing = max_observed_executing a,
      as_max_observed_queued = max_observed_queued a\<rparr>"

section \<open>Laws\<close>

text \<open>\<open>admission_ok n w e a\<close>: the controller accounts for \<open>n\<close> admitted requests, \<open>w\<close> of them waiting and \<open>e\<close>
  executing, and the recorded peaks are at least the present values and within the capacities.\<close>

definition admission_ok :: "nat \<Rightarrow> nat \<Rightarrow> nat \<Rightarrow> admission_controller \<Rightarrow> bool" where
  "admission_ok n w e a \<longleftrightarrow>
     outstanding a = n \<and> queued a = w \<and> executing a = e \<and> w + e \<le> n \<and>
     outstanding_slots a + n = worker_execution_capacity a + queue_capacity a \<and> queue_slots a + w = queue_capacity a \<and>
     worker_execution_capacity a + queue_capacity a \<le> u64_max \<and>
     n \<le> max_observed_outstanding a \<and> max_observed_outstanding a \<le> worker_execution_capacity a + queue_capacity a \<and>
     w \<le> max_observed_queued a \<and> max_observed_queued a \<le> queue_capacity a \<and>
     e \<le> max_observed_executing a \<and> max_observed_executing a \<le> worker_execution_capacity a + queue_capacity a"

named_theorems admission_defs \<open>the operations of the controller\<close>

lemmas [admission_defs] = try_admit_request_def drop_request_permit_def enter_queue_def drop_queue_guard_def
  begin_execution_def drop_execution_guard_def record_rejection_def increment_with_peak_def

lemma decrement_Suc [simp]: "n < u64_max \<Longrightarrow> decrement (Suc n) = n"
  by (simp add: decrement_def wrap64_def u64_max_def)

lemma inc64_below: "n < m \<Longrightarrow> m \<le> u64_max \<Longrightarrow> inc64 n = Suc n"
  by (rule inc64_Suc) simp

lemma new_admission_ok: "new_admission q x = Inr a \<Longrightarrow> admission_ok 0 0 0 a"
  by (auto simp: new_admission_def admission_ok_def split: if_splits)

lemma try_admit_ok:
  assumes "admission_ok n w e a" "try_admit_request a = (a', b)"
  shows "admission_ok (if b then Suc n else n) w e a'"
    "b \<longleftrightarrow> n < worker_execution_capacity a + queue_capacity a"
proof -
  have i: "inc64 n = Suc n" if "outstanding_slots a \<noteq> 0"
    using assms(1) that by (intro inc64_below[of _ "worker_execution_capacity a + queue_capacity a"]) (auto simp: admission_ok_def)
  show "admission_ok (if b then Suc n else n) w e a'"
    using assms i by (auto simp: admission_ok_def admission_defs split: if_splits)
  show "b \<longleftrightarrow> n < worker_execution_capacity a + queue_capacity a"
    using assms by (auto simp: admission_ok_def admission_defs split: if_splits)
qed

lemma drop_request_ok: "admission_ok (Suc n) w e a \<Longrightarrow> w + e \<le> n \<Longrightarrow> admission_ok n w e (drop_request_permit a)"
  by (auto simp: admission_ok_def admission_defs)

lemma enter_queue_ok:
  assumes "admission_ok n w e a" "w + e < n" "enter_queue a = (a', b)"
  shows "admission_ok n (if b then Suc w else w) e a'" "b \<longleftrightarrow> w < queue_capacity a"
proof -
  have i: "inc64 w = Suc w" if "queue_slots a \<noteq> 0"
    using assms(1) that by (intro inc64_below[of _ "queue_capacity a"]) (auto simp: admission_ok_def)
  show "admission_ok n (if b then Suc w else w) e a'"
    using assms i by (auto simp: admission_ok_def admission_defs split: if_splits)
  show "b \<longleftrightarrow> w < queue_capacity a"
    using assms by (auto simp: admission_ok_def admission_defs split: if_splits)
qed

lemma leave_queue_ok: "admission_ok n (Suc w) e a \<Longrightarrow> admission_ok n w e (drop_queue_guard a)"
  by (auto simp: admission_ok_def admission_defs)

lemma begin_execution_ok:
  assumes "admission_ok n w e a" "w + e < n"
  shows "admission_ok n w (Suc e) (begin_execution a)"
proof -
  have "inc64 e = Suc e" using assms by (intro inc64_below[of _ "worker_execution_capacity a + queue_capacity a"]) (auto simp: admission_ok_def)
  then show ?thesis using assms by (auto simp: admission_ok_def admission_defs)
qed

lemma end_execution_ok: "admission_ok n w (Suc e) a \<Longrightarrow> admission_ok n w e (drop_execution_guard a)"
  by (auto simp: admission_ok_def admission_defs)

lemma admission_capacities [simp]:
  "worker_execution_capacity (fst (try_admit_request a)) = worker_execution_capacity a"
  "queue_capacity (fst (try_admit_request a)) = queue_capacity a"
  "worker_execution_capacity (drop_request_permit a) = worker_execution_capacity a"
  "queue_capacity (drop_request_permit a) = queue_capacity a"
  "worker_execution_capacity (fst (enter_queue a)) = worker_execution_capacity a"
  "queue_capacity (fst (enter_queue a)) = queue_capacity a"
  "worker_execution_capacity (drop_queue_guard a) = worker_execution_capacity a"
  "queue_capacity (drop_queue_guard a) = queue_capacity a"
  "worker_execution_capacity (begin_execution a) = worker_execution_capacity a"
  "queue_capacity (begin_execution a) = queue_capacity a"
  "worker_execution_capacity (drop_execution_guard a) = worker_execution_capacity a"
  "queue_capacity (drop_execution_guard a) = queue_capacity a"
  by (simp_all add: admission_defs)

end
