(* ===== verification/Resilience.thy ===== *)
theory Resilience
  imports InferLab_Prelude "HOL-Library.Word"
begin

text \<open>
  Deadlines, retry budget and backoff of \<open>gateway/src/resilience.rs\<close>.  The controller's atomics are fields
  of a record, a \<open>RetryReservation\<close> in flight is a value its owner commits or drops, and the
  compare-and-swap loop of \<open>reserve_retry\<close> is given one iteration at a time so that threads can
  interleave inside it.  \<open>reserve_retry\<close> itself is the loop without contention.
\<close>

unbundle bit_operations_syntax

section \<open>Configuration\<close>

record resilience_config =
  request_deadline :: nat
  attempt_timeout :: nat
  max_retries :: nat
  retry_budget_percent :: nat
  retry_base_delay :: nat
  retry_max_delay :: nat
  jitter_seed :: "64 word"

definition default_resilience_config :: "64 word \<Rightarrow> resilience_config" where
  "default_resilience_config default_jitter_seed =
     \<lparr>request_deadline = from_secs 30, attempt_timeout = from_secs 5, max_retries = 2, retry_budget_percent = 10,
      retry_base_delay = from_millis 25, retry_max_delay = from_millis 500, jitter_seed = default_jitter_seed\<rparr>"

datatype resilience_error = BadRequestDeadline | BadAttemptTimeout | TooManyRetries | BadBudgetPercent
  | ZeroBaseDelay | BaseAboveMaximum | MaximumTooLarge

definition validate_resilience :: "resilience_config \<Rightarrow> (resilience_error, unit) result" where
  "validate_resilience c =
     (let one_day = from_secs (24 * 60 * 60) in
      if request_deadline c = 0 \<or> one_day < request_deadline c then Inl BadRequestDeadline
      else if attempt_timeout c = 0 \<or> one_day < attempt_timeout c then Inl BadAttemptTimeout
      else if 16 < max_retries c then Inl TooManyRetries
      else if 100 < retry_budget_percent c then Inl BadBudgetPercent
      else if retry_base_delay c = 0 then Inl ZeroBaseDelay
      else if retry_max_delay c < retry_base_delay c then Inl BaseAboveMaximum
      else if from_secs (60 * 60) < retry_max_delay c then Inl MaximumTooLarge
      else Inr ())"

section \<open>Backoff\<close>

text \<open>\<open>Duration::MAX\<close>, and a left shift of a \<open>u32\<close> one that refuses to shift by its width.\<close>

definition duration_max :: nat where
  "duration_max = u64_max * 1000000000 + 999999999"

definition checked_shl_one :: "nat \<Rightarrow> nat option" where
  "checked_shl_one e = (if e < 32 then Some (2 ^ e) else None)"

definition exponential_cap :: "nat \<Rightarrow> nat \<Rightarrow> nat \<Rightarrow> nat" where
  "exponential_cap base maximum retry_index =
     (let exponent = (if retry_index \<le> u32_max then retry_index else u32_max);
          multiplier = (case checked_shl_one exponent of Some m \<Rightarrow> m | None \<Rightarrow> u32_max)
      in min (min (base * multiplier) duration_max) maximum)"

definition splitmix64 :: "64 word \<Rightarrow> 64 word" where
  "splitmix64 v0 =
     (let v1 = v0 + 0x9e3779b97f4a7c15;
          v2 = (v1 XOR drop_bit 30 v1) * 0xbf58476d1ce4e5b9;
          v3 = (v2 XOR drop_bit 27 v2) * 0x94d049bb133111eb
      in v3 XOR drop_bit 31 v3)"

record full_jitter =
  fj_seed :: "64 word"
  fj_sequence :: "64 word"

definition with_seed :: "64 word \<Rightarrow> full_jitter" where
  "with_seed seed = \<lparr>fj_seed = seed, fj_sequence = 0\<rparr>"

definition jitter_delay :: "nat \<Rightarrow> full_jitter \<Rightarrow> full_jitter \<times> nat" where
  "jitter_delay upper_bound j =
     (let upper_millis = duration_millis upper_bound;
          random = splitmix64 (fj_seed j + fj_sequence j * 0x9e3779b97f4a7c15)
      in (j\<lparr>fj_sequence := fj_sequence j + 1\<rparr>, from_millis (unat random mod sat_add64 upper_millis 1)))"

section \<open>Controller\<close>

record resilience_controller =
  rs_config :: resilience_config
  rs_jitter :: full_jitter
  original_requests :: nat
  rs_attempts :: nat
  transient_failures :: nat
  retry_slots_used :: nat
  retries_granted :: nat
  retries_denied_budget :: nat
  retry_limit_exhausted :: nat
  deadline_exceeded :: nat

record request_context =
  request_number :: nat
  req_started_at :: nat
  req_deadline :: nat

definition new_resilience :: "resilience_config \<Rightarrow> (resilience_error, resilience_controller) result" where
  "new_resilience c = and_then (validate_resilience c) (\<lambda>_.
     Inr \<lparr>rs_config = c, rs_jitter = with_seed (jitter_seed c), original_requests = 0, rs_attempts = 0, transient_failures = 0,
          retry_slots_used = 0, retries_granted = 0, retries_denied_budget = 0, retry_limit_exhausted = 0,
          deadline_exceeded = 0\<rparr>)"

text \<open>The request's number is \<open>fetch_add(1) + 1\<close>; both the counter and the sum wrap.\<close>

definition start_request :: "nat \<Rightarrow> resilience_controller \<Rightarrow> resilience_controller \<times> request_context" where
  "start_request now c =
     (c\<lparr>original_requests := inc64 (original_requests c)\<rparr>,
      \<lparr>request_number = inc64 (original_requests c), req_started_at = now, req_deadline = now + request_deadline (rs_config c)\<rparr>)"

definition retry_allowance :: "resilience_controller \<Rightarrow> nat" where
  "retry_allowance c = sat_mul64 (original_requests c) (retry_budget_percent (rs_config c)) div 100"

text \<open>A caller inside the loop: what it computed as allowed and the number of used slots it saw last.\<close>

record reserving =
  rv_allowed :: nat
  rv_used :: nat
  rv_index :: nat

datatype reserve_outcome = Denied | Reserved nat | Again reserving

definition reserve_begin :: "nat \<Rightarrow> resilience_controller \<Rightarrow> reserving" where
  "reserve_begin retry_index c = \<lparr>rv_allowed = retry_allowance c, rv_used = retry_slots_used c, rv_index = retry_index\<rparr>"

text \<open>One turn of the loop.  \<open>weak\<close> is a spurious failure of \<open>compare_exchange_weak\<close>.\<close>

definition reserve_iteration :: "bool \<Rightarrow> reserving \<Rightarrow> resilience_controller \<Rightarrow> resilience_controller \<times> reserve_outcome" where
  "reserve_iteration weak v c =
     (if rv_allowed v \<le> rv_used v then (c\<lparr>retries_denied_budget := inc64 (retries_denied_budget c)\<rparr>, Denied)
      else if retry_slots_used c = rv_used v \<and> \<not> weak then
        (let cap = exponential_cap (retry_base_delay (rs_config c)) (retry_max_delay (rs_config c)) (rv_index v);
             (j, delay) = jitter_delay cap (rs_jitter c)
         in (c\<lparr>retry_slots_used := rv_used v + 1, rs_jitter := j\<rparr>, Reserved delay))
      else (c, Again (v\<lparr>rv_used := retry_slots_used c\<rparr>)))"

definition reserve_retry :: "nat \<Rightarrow> resilience_controller \<Rightarrow> resilience_controller \<times> nat option" where
  "reserve_retry retry_index c =
     (case reserve_iteration False (reserve_begin retry_index c) c of
        (c', Reserved delay) \<Rightarrow> (c', Some delay)
      | (c', _) \<Rightarrow> (c', None))"

definition commit_reservation :: "resilience_controller \<Rightarrow> resilience_controller" where
  "commit_reservation c = c\<lparr>retries_granted := inc64 (retries_granted c)\<rparr>"

definition drop_reservation :: "resilience_controller \<Rightarrow> resilience_controller" where
  "drop_reservation c = c\<lparr>retry_slots_used := wrap64 (retry_slots_used c + u64_max)\<rparr>"

definition record_attempt :: "resilience_controller \<Rightarrow> resilience_controller" where
  "record_attempt c = c\<lparr>rs_attempts := inc64 (rs_attempts c)\<rparr>"

definition record_transient_failure :: "resilience_controller \<Rightarrow> resilience_controller" where
  "record_transient_failure c = c\<lparr>transient_failures := inc64 (transient_failures c)\<rparr>"

definition record_retry_limit_exhausted :: "resilience_controller \<Rightarrow> resilience_controller" where
  "record_retry_limit_exhausted c = c\<lparr>retry_limit_exhausted := inc64 (retry_limit_exhausted c)\<rparr>"

definition record_deadline_exceeded :: "resilience_controller \<Rightarrow> resilience_controller" where
  "record_deadline_exceeded c = c\<lparr>deadline_exceeded := inc64 (deadline_exceeded c)\<rparr>"

definition remaining :: "nat \<Rightarrow> request_context \<Rightarrow> nat option" where
  "remaining now r = (let left = req_deadline r - now in if left = 0 then None else Some left)"

definition elapsed :: "nat \<Rightarrow> request_context \<Rightarrow> nat" where
  "elapsed now r = now - req_started_at r"

record resilience_snapshot =
  rss_request_deadline_ms :: nat
  rss_attempt_timeout_ms :: nat
  rss_max_retries :: nat
  rss_retry_budget_percent :: nat
  rss_retry_base_delay_ms :: nat
  rss_retry_max_delay_ms :: nat
  rss_original_requests :: nat
  rss_attempts :: nat
  rss_transient_failures :: nat
  rss_retries_granted :: nat
  rss_retries_denied_budget :: nat
  rss_retry_limit_exhausted :: nat
  rss_deadline_exceeded :: nat

definition snapshot_resilience :: "resilience_controller \<Rightarrow> resilience_snapshot" where
  "snapshot_resilience c =
     \<lparr>rss_request_deadline_ms = duration_millis (request_deadline (rs_config c)),
      rss_attempt_timeout_ms = duration_millis (attempt_timeout (rs_config c)),
      rss_max_retries = max_retries (rs_config c), rss_retry_budget_percent = retry_budget_percent (rs_config c),
      rss_retry_base_delay_ms = duration_millis (retry_base_delay (rs_config c)),
      rss_retry_max_delay_ms = duration_millis (retry_max_delay (rs_config c)),
      rss_original_requests = original_requests c, rss_attempts = rs_attempts c, rss_transient_failures = transient_failures c,
      rss_retries_granted = retries_granted c, rss_retries_denied_budget = retries_denied_budget c,
      rss_retry_limit_exhausted = retry_limit_exhausted c, rss_deadline_exceeded = deadline_exceeded c\<rparr>"

section \<open>Threads on one controller\<close>

text \<open>A system is the controller, the callers inside the loop and the reservations not yet committed or
  dropped.  \<open>n\<close> counts the requests ever started.\<close>

type_synonym retry_system = "resilience_controller \<times> reserving list \<times> nat"

definition after_iteration :: "reserve_outcome \<Rightarrow> reserving \<Rightarrow> reserving list \<Rightarrow> nat \<Rightarrow> reserving list \<times> nat" where
  "after_iteration out v vs held =
     (case out of Denied \<Rightarrow> (remove1 v vs, held) | Reserved _ \<Rightarrow> (remove1 v vs, Suc held) | Again v' \<Rightarrow> (v' # remove1 v vs, held))"

inductive retry_reachable :: "nat \<Rightarrow> retry_system \<Rightarrow> bool" where
  built: "new_resilience cfg = Inr c \<Longrightarrow> retry_reachable 0 (c, [], 0)"
| started: "retry_reachable n (c, vs, held) \<Longrightarrow> retry_reachable (Suc n) (fst (start_request now c), vs, held)"
| reserving: "retry_reachable n (c, vs, held) \<Longrightarrow> retry_reachable n (c, reserve_begin i c # vs, held)"
| iterated: "retry_reachable n (c, vs, held) \<Longrightarrow> v \<in> set vs \<Longrightarrow> reserve_iteration weak v c = (c', out) \<Longrightarrow>
    after_iteration out v vs held = (vs', held') \<Longrightarrow> retry_reachable n (c', vs', held')"
| committed: "retry_reachable n (c, vs, Suc held) \<Longrightarrow> retry_reachable n (commit_reservation c, vs, held)"
| abandoned: "retry_reachable n (c, vs, Suc held) \<Longrightarrow> retry_reachable n (drop_reservation c, vs, held)"
| recorded: "retry_reachable n (c, vs, held) \<Longrightarrow>
    rec \<in> {record_attempt, record_transient_failure, record_retry_limit_exhausted, record_deadline_exceeded} \<Longrightarrow>
    retry_reachable n (rec c, vs, held)"

definition budget :: "nat \<Rightarrow> resilience_controller \<Rightarrow> nat" where
  "budget n c = n * retry_budget_percent (rs_config c) div 100"

definition retry_inv :: "nat \<Rightarrow> retry_system \<Rightarrow> bool" where
  "retry_inv n s \<longleftrightarrow> (case s of (c, vs, held) \<Rightarrow>
     original_requests c = n \<and> validate_resilience (rs_config c) = Inr () \<and>
     retry_slots_used c = retries_granted c + held \<and> retry_slots_used c \<le> budget n c \<and> budget n c \<le> u64_max \<and>
     (\<forall>v\<in>set vs. rv_allowed v \<le> budget n c))"

lemma validate_resilienceD:
  assumes "validate_resilience c = Inr ()"
  shows "0 < request_deadline c" "request_deadline c \<le> 86400000000000" "0 < attempt_timeout c"
    "attempt_timeout c \<le> 86400000000000" "max_retries c \<le> 16" "retry_budget_percent c \<le> 100"
    "0 < retry_base_delay c" "retry_base_delay c \<le> retry_max_delay c" "retry_max_delay c \<le> 3600000000000"
  using assms by (auto simp: validate_resilience_def Let_def from_secs_def split: if_splits)

lemma new_resilienceD:
  assumes "new_resilience cfg = Inr c"
  shows "rs_config c = cfg" "validate_resilience cfg = Inr ()" "original_requests c = 0" "retry_slots_used c = 0" "retries_granted c = 0"
  using assms by (auto simp: new_resilience_def and_then_Inr_iff)

lemma retry_allowance_le: "retry_allowance c \<le> budget (original_requests c) c"
  by (simp add: retry_allowance_def budget_def sat_mul64_def div_le_mono)

lemma budget_le:
  assumes "retry_budget_percent (rs_config c) \<le> 100"
  shows "budget n c \<le> n" "budget n c \<le> budget (Suc n) c"
proof -
  have "n * retry_budget_percent (rs_config c) div 100 \<le> n * 100 div 100" using assms by (intro div_le_mono mult_le_mono2)
  then show "budget n c \<le> n" by (simp add: budget_def)
  show "budget n c \<le> budget (Suc n) c" by (simp add: budget_def div_le_mono)
qed

lemma wrap_pred: "0 < n \<Longrightarrow> n \<le> u64_max \<Longrightarrow> wrap64 (n + u64_max) = n - 1"
  by (simp add: wrap64_def u64_max_def mod_if)

lemma reserve_iteration_inv:
  assumes inv: "retry_inv n (c, vs, held)" and v: "v \<in> set vs" and it: "reserve_iteration weak v c = (c', out)"
    and af: "after_iteration out v vs held = (vs', held')"
  shows "retry_inv n (c', vs', held')"
proof -
  have sub: "x \<in> set (remove1 v vs) \<Longrightarrow> x \<in> set vs" for x by (rule subsetD[OF set_remove1_subset])
  have b: "budget n c' = budget n c" "rs_config c' = rs_config c" "original_requests c' = original_requests c" "retries_granted c' = retries_granted c"
    using it by (auto simp: reserve_iteration_def budget_def Let_def case_prod_beta split: if_splits)
  consider "rv_allowed v \<le> rv_used v" | "rv_used v < rv_allowed v" "retry_slots_used c = rv_used v" "\<not> weak"
    | "rv_used v < rv_allowed v" "retry_slots_used c \<noteq> rv_used v \<or> weak" by linarith
  then show ?thesis
  proof cases
    case 1
    then have "retry_slots_used c' = retry_slots_used c" "vs' = remove1 v vs" "held' = held"
      using it af by (auto simp: reserve_iteration_def after_iteration_def)
    then show ?thesis using inv b sub by (auto simp: retry_inv_def)
  next
    case 2
    then have "retry_slots_used c' = Suc (retry_slots_used c)" "vs' = remove1 v vs" "held' = Suc held"
      using it af by (auto simp: reserve_iteration_def after_iteration_def Let_def case_prod_beta)
    moreover have "Suc (retry_slots_used c) \<le> budget n c" using 2 inv v by (fastforce simp: retry_inv_def)
    ultimately show ?thesis using inv b sub by (auto simp: retry_inv_def)
  next
    case 3
    then have "c' = c" "vs' = v\<lparr>rv_used := retry_slots_used c\<rparr> # remove1 v vs" "held' = held"
      using it af by (auto simp: reserve_iteration_def after_iteration_def)
    then show ?thesis using inv v sub by (auto simp: retry_inv_def)
  qed
qed

lemma retry_reachable_inv: "retry_reachable n s \<Longrightarrow> n \<le> u64_max \<Longrightarrow> retry_inv n s"
proof (induction rule: retry_reachable.induct)
  case (built cfg c)
  then show ?case using new_resilienceD[of cfg c] by (simp add: retry_inv_def budget_def)
next
  case (started n c vs held now)
  let ?c = "fst (start_request now c)"
  have inv: "retry_inv n (c, vs, held)" using started by simp
  then have pct: "retry_budget_percent (rs_config c) \<le> 100" by (auto simp: retry_inv_def dest: validate_resilienceD)
  have b: "budget m ?c = budget m c" for m by (simp add: start_request_def budget_def)
  have "original_requests ?c = Suc n"
    using inv started.prems by (simp add: start_request_def retry_inv_def inc64_Suc)
  moreover have "budget (Suc n) c \<le> u64_max" using budget_le(1)[OF pct, of "Suc n"] started.prems by linarith
  ultimately show ?case
    using inv budget_le(2)[OF pct, of n] b by (auto simp: retry_inv_def) (simp_all add: start_request_def)
next
  case (reserving n c vs held i)
  then show ?case using retry_allowance_le[of c] by (auto simp: retry_inv_def reserve_begin_def)
next
  case (iterated n c vs held v weak c' out vs' held')
  then show ?case using reserve_iteration_inv by blast
next
  case (committed n c vs held)
  have "retries_granted c < u64_max" using committed by (auto simp: retry_inv_def)
  then show ?case using committed by (auto simp: retry_inv_def commit_reservation_def inc64_Suc budget_def)
next
  case (abandoned n c vs held)
  have inv: "retry_inv n (c, vs, Suc held)" using abandoned by simp
  then have "wrap64 (retry_slots_used c + u64_max) = retry_slots_used c - 1"
    by (intro wrap_pred) (auto simp: retry_inv_def)
  then show ?case using inv by (auto simp: retry_inv_def drop_reservation_def budget_def)
next
  case (recorded n c vs held rec)
  then show ?case
    by (auto simp: retry_inv_def budget_def record_attempt_def record_transient_failure_def
        record_retry_limit_exhausted_def record_deadline_exceeded_def)
qed

lemma exponential_cap_le: "exponential_cap base maximum i \<le> maximum"
  by (simp add: exponential_cap_def Let_def)

lemma exponential_cap_exact:
  assumes "base \<le> 3600000000000" "i \<le> 16"
  shows "exponential_cap base maximum i = min (base * 2 ^ i) maximum"
proof -
  have i32: "i \<le> u32_max" "i < 32" using assms(2) by (simp_all add: u32_max_def)
  have "(2::nat) ^ i \<le> 2 ^ 16" using assms(2) by (intro power_increasing) auto
  then have "base * 2 ^ i \<le> 3600000000000 * 2 ^ 16" using assms(1) by (intro mult_le_mono) auto
  also have "\<dots> \<le> duration_max" by (simp add: duration_max_def u64_max_def)
  finally show ?thesis using i32 by (simp add: exponential_cap_def checked_shl_one_def min.assoc[symmetric] min.absorb1)
qed

lemma jitter_delay_le: "snd (jitter_delay upper j) \<le> upper"
proof -
  have "unat r mod sat_add64 (duration_millis upper) 1 \<le> upper div 1000000" for r :: "64 word"
  proof (cases "duration_millis upper < u64_max")
    case True
    then have "duration_millis upper = upper div 1000000" by (auto simp: duration_millis_def min_def split: if_splits)
    moreover have "unat r mod Suc (upper div 1000000) < Suc (upper div 1000000)" by (rule mod_less_divisor) simp
    moreover have "sat_add64 (duration_millis upper) 1 = Suc (upper div 1000000)"
      using sat_add64_Suc[OF True] calculation(1) by simp
    ultimately show ?thesis by (metis less_Suc_eq_le)
  next
    case False
    then have "u64_max \<le> upper div 1000000" "sat_add64 (duration_millis upper) 1 = u64_max"
      by (auto simp: duration_millis_def sat_add64_def)
    moreover have "unat r mod u64_max < u64_max" by (rule mod_less_divisor) simp
    ultimately show ?thesis by (metis less_imp_le order_trans)
  qed
  then have "snd (jitter_delay upper j) \<le> upper div 1000000 * 1000000" by (simp add: jitter_delay_def Let_def from_millis_def)
  also have "\<dots> \<le> upper" by (rule div_times_less_eq_dividend)
  finally show ?thesis .
qed

end
