(* ===== verification/Routing_Lease.thy ===== *)
theory Routing_Lease
  imports InferLab_Prelude
begin

text \<open>
  The runtime routing lease of \<open>gateway/src/routing_lease.rs\<close>: new requests are admitted while the routing
  configuration was verified recently enough, and afterwards refused or served stale.  Instants come
  from the monotonic clock, the \<open>_ms\<close> fields from the wall clock; both readings are arguments.
\<close>

datatype expiry_action = RejectNew | ServeStale

definition expiry_action_display :: "expiry_action \<Rightarrow> string" where
  "expiry_action_display e = (case e of RejectNew \<Rightarrow> ''reject-new'' | ServeStale \<Rightarrow> ''serve-stale'')"

datatype expiry_error = UnsupportedAction

definition expiry_action_from_str :: "string \<Rightarrow> (expiry_error, expiry_action) result" where
  "expiry_action_from_str v =
     (if v = ''reject-new'' then Inr RejectNew else if v = ''serve-stale'' then Inr ServeStale else Inl UnsupportedAction)"

datatype lease_admission = Fresh | Stale | Rejected

record routing_lease =
  rl_duration :: nat
  rl_duration_ms :: nat
  rl_action :: expiry_action
  rl_deadline :: nat
  rl_last_verified_ms :: nat
  rl_expires_at_ms :: nat
  rl_renewals :: nat
  rl_rejections :: nat

text \<open>The constructor asserts that the duration is positive: \<open>None\<close> is the panic.\<close>

definition from_verified_age_at :: "nat \<Rightarrow> expiry_action \<Rightarrow> nat \<Rightarrow> nat \<Rightarrow> nat \<Rightarrow> routing_lease option" where
  "from_verified_age_at duration action last_verified_ms observed_age now =
     (if duration = 0 then None
      else Some \<lparr>rl_duration = duration, rl_duration_ms = duration_millis duration, rl_action = action,
                 rl_deadline = now + (duration - observed_age), rl_last_verified_ms = last_verified_ms,
                 rl_expires_at_ms = sat_add64 last_verified_ms (duration_millis duration), rl_renewals = 0, rl_rejections = 0\<rparr>)"

definition lease_from_live :: "nat \<Rightarrow> expiry_action \<Rightarrow> nat \<Rightarrow> nat \<Rightarrow> routing_lease option" where
  "lease_from_live duration action verified_at_ms now = from_verified_age_at duration action verified_at_ms 0 now"

definition lease_from_disk :: "nat \<Rightarrow> expiry_action \<Rightarrow> nat \<Rightarrow> nat \<Rightarrow> nat \<Rightarrow> routing_lease option" where
  "lease_from_disk duration action persisted_at_ms observed_age now =
     from_verified_age_at duration action persisted_at_ms observed_age now"

definition renew_at :: "nat \<Rightarrow> nat \<Rightarrow> routing_lease \<Rightarrow> routing_lease" where
  "renew_at verified_at_ms now l =
     l\<lparr>rl_deadline := now + rl_duration l, rl_last_verified_ms := verified_at_ms,
       rl_expires_at_ms := sat_add64 verified_at_ms (rl_duration_ms l), rl_renewals := sat_add64 (rl_renewals l) 1\<rparr>"

definition admit_new_at :: "nat \<Rightarrow> routing_lease \<Rightarrow> routing_lease \<times> lease_admission" where
  "admit_new_at now l =
     (if now < rl_deadline l then (l, Fresh)
      else case rl_action l of
        ServeStale \<Rightarrow> (l, Stale)
      | RejectNew \<Rightarrow> (l\<lparr>rl_rejections := sat_add64 (rl_rejections l) 1\<rparr>, Rejected))"

definition accepting_new_requests_at :: "nat \<Rightarrow> routing_lease \<Rightarrow> bool" where
  "accepting_new_requests_at now l \<longleftrightarrow> now < rl_deadline l \<or> rl_action l = ServeStale"

record lease_snapshot =
  rls_enabled :: bool
  rls_duration_ms :: nat
  rls_action :: expiry_action
  rls_state :: string
  rls_accepting :: bool
  rls_last_verified_ms :: nat
  rls_expires_at_ms :: nat
  rls_remaining_ms :: nat
  rls_renewals :: nat
  rls_rejections :: nat

definition snapshot_lease_at :: "nat \<Rightarrow> routing_lease \<Rightarrow> lease_snapshot" where
  "snapshot_lease_at now l =
     (let fresh = (now < rl_deadline l); accepting = (fresh \<or> rl_action l = ServeStale)
      in \<lparr>rls_enabled = True, rls_duration_ms = rl_duration_ms l, rls_action = rl_action l,
          rls_state = (if fresh then ''fresh'' else if accepting then ''expired-serving-stale'' else ''expired-rejecting-new''),
          rls_accepting = accepting, rls_last_verified_ms = rl_last_verified_ms l, rls_expires_at_ms = rl_expires_at_ms l,
          rls_remaining_ms = (if now \<le> rl_deadline l then duration_millis (rl_deadline l - now) else 0),
          rls_renewals = rl_renewals l, rls_rejections = rl_rejections l\<rparr>)"

text \<open>\<open>readiness\<close> of \<open>lib.rs\<close>: the service is ready unless its lease refuses new requests.\<close>

definition readiness :: "nat \<Rightarrow> routing_lease option \<Rightarrow> nat" where
  "readiness now l =
     (case map_option (snapshot_lease_at now) l of
        None \<Rightarrow> 200
      | Some s \<Rightarrow> if rls_accepting s then 200 else 503)"

section \<open>Runs\<close>

datatype lease_event = Renew nat nat | Admit nat | Look nat

fun event_time :: "lease_event \<Rightarrow> nat" where
  "event_time (Renew _ now) = now"
| "event_time (Admit now) = now"
| "event_time (Look now) = now"

fun lease_event_step :: "routing_lease \<Rightarrow> lease_event \<Rightarrow> routing_lease" where
  "lease_event_step l (Renew ms now) = renew_at ms now l"
| "lease_event_step l (Admit now) = fst (admit_new_at now l)"
| "lease_event_step l (Look now) = l"

text \<open>The instant of the last verification in a run that started at \<open>t0\<close>.\<close>

fun last_verified :: "nat \<Rightarrow> lease_event list \<Rightarrow> nat" where
  "last_verified t0 [] = t0"
| "last_verified t0 (Renew _ now # es) = last_verified now es"
| "last_verified t0 (_ # es) = last_verified t0 es"

lemma admit_keeps [simp]:
  "rl_deadline (fst (admit_new_at now l)) = rl_deadline l" "rl_duration (fst (admit_new_at now l)) = rl_duration l"
  "rl_action (fst (admit_new_at now l)) = rl_action l"
  by (simp_all add: admit_new_at_def split: expiry_action.splits)

lemma lease_run:
  assumes "rl_deadline l = t0 + rl_duration l"
  shows "rl_deadline (foldl lease_event_step l es) = last_verified t0 es + rl_duration l \<and>
    rl_duration (foldl lease_event_step l es) = rl_duration l \<and> rl_action (foldl lease_event_step l es) = rl_action l"
  using assms
proof (induction es arbitrary: l t0)
  case (Cons e es)
  then show ?case by (cases e) (auto simp: renew_at_def Cons.IH[of _ t0])
qed simp

end
