(* ===== verification/Public_Edge.thy ===== *)
theory Public_Edge
  imports InferLab_Prelude
begin

text \<open>
  The hosted public edge of \<open>gateway/src/public_edge.rs\<close>: limits on the request body, one token bucket per
  credential and a counter per reason of rejection.  A JSON value has the shape \<open>serde_json\<close> gives it (an
  object is a map, so keys are distinct, and a number is an unsigned integer, a negative one or a double);
  parsing is that library's, and a parameter of the model.
\<close>

datatype json = JNull | JBool bool | JPos nat | JNeg int | JFloat | JString string
  | JArray "json list" | JObject "(string \<times> json) list"

fun as_object :: "json \<Rightarrow> (string \<times> json) list option" where
  "as_object (JObject m) = Some m" | "as_object _ = None"

fun as_array :: "json \<Rightarrow> json list option" where
  "as_array (JArray xs) = Some xs" | "as_array _ = None"

fun as_str :: "json \<Rightarrow> string option" where
  "as_str (JString s) = Some s" | "as_str _ = None"

fun as_u64 :: "json \<Rightarrow> nat option" where
  "as_u64 (JPos n) = Some n" | "as_u64 _ = None"

definition field :: "string \<Rightarrow> (string \<times> json) list \<Rightarrow> (json \<Rightarrow> 'a option) \<Rightarrow> 'a option" where
  "field name m as = (case map_of m name of None \<Rightarrow> None | Some v \<Rightarrow> as v)"

section \<open>Configuration\<close>

datatype edge_mode = Local | Hosted

definition edge_mode_as_str :: "edge_mode \<Rightarrow> string" where
  "edge_mode_as_str m = (case m of Local \<Rightarrow> ''local'' | Hosted \<Rightarrow> ''hosted'')"

datatype edge_error = UnknownMode | NotPositive string | TooLarge string | NoCredentialSlot | TooManySlots

definition edge_mode_from_str :: "string \<Rightarrow> (edge_error, edge_mode) result" where
  "edge_mode_from_str v = (if v = ''local'' then Inr Local else if v = ''hosted'' then Inr Hosted else Inl UnknownMode)"

definition MAX_PUBLIC_REQUEST_BYTES :: nat where "MAX_PUBLIC_REQUEST_BYTES = 64 * 1024"
definition MAX_MAX_MESSAGES :: nat where "MAX_MAX_MESSAGES = 256"
definition MAX_MAX_OUTPUT_TOKENS :: nat where "MAX_MAX_OUTPUT_TOKENS = 4096"
definition MAX_RATE_REQUESTS_PER_MINUTE :: nat where "MAX_RATE_REQUESTS_PER_MINUTE = 60000"
definition MAX_RATE_BURST :: nat where "MAX_RATE_BURST = 1000"
definition NANOS_PER_SECOND :: nat where "NANOS_PER_SECOND = 1000000000"
definition NANOS_PER_MINUTE :: nat where "NANOS_PER_MINUTE = 60 * NANOS_PER_SECOND"

record edge_config =
  ec_mode :: edge_mode
  max_messages :: nat
  max_prompt_bytes :: nat
  max_output_tokens :: nat
  rate_requests_per_minute :: nat
  rate_burst :: nat

definition edge_local :: edge_config where
  "edge_local = \<lparr>ec_mode = Local, max_messages = 32, max_prompt_bytes = 16 * 1024, max_output_tokens = 256,
                 rate_requests_per_minute = 60, rate_burst = 4\<rparr>"

definition validate_positive_bounded :: "string \<Rightarrow> nat \<Rightarrow> nat \<Rightarrow> (edge_error, unit) result" where
  "validate_positive_bounded name v maximum =
     (if v = 0 then Inl (NotPositive name) else if maximum < v then Inl (TooLarge name) else Inr ())"

definition validate_edge :: "edge_config \<Rightarrow> (edge_error, unit) result" where
  "validate_edge c =
     and_then (validate_positive_bounded ''INFERLAB_PUBLIC_MAX_MESSAGES'' (max_messages c) MAX_MAX_MESSAGES) (\<lambda>_.
     and_then (validate_positive_bounded ''INFERLAB_PUBLIC_MAX_PROMPT_BYTES'' (max_prompt_bytes c) MAX_PUBLIC_REQUEST_BYTES) (\<lambda>_.
     and_then (validate_positive_bounded ''INFERLAB_PUBLIC_MAX_OUTPUT_TOKENS'' (max_output_tokens c) MAX_MAX_OUTPUT_TOKENS) (\<lambda>_.
     and_then (validate_positive_bounded ''INFERLAB_PUBLIC_RATE_REQUESTS_PER_MINUTE'' (rate_requests_per_minute c) MAX_RATE_REQUESTS_PER_MINUTE) (\<lambda>_.
       validate_positive_bounded ''INFERLAB_PUBLIC_RATE_BURST'' (rate_burst c) MAX_RATE_BURST))))"

definition edge_hosted :: "nat \<Rightarrow> nat \<Rightarrow> nat \<Rightarrow> nat \<Rightarrow> nat \<Rightarrow> (edge_error, edge_config) result" where
  "edge_hosted messages prompt_bytes output_tokens rate burst =
     (let c = \<lparr>ec_mode = Hosted, max_messages = messages, max_prompt_bytes = prompt_bytes, max_output_tokens = output_tokens,
               rate_requests_per_minute = rate, rate_burst = burst\<rparr>
      in and_then (validate_edge c) (\<lambda>_. Inr c))"

section \<open>Rejections\<close>

datatype edge_rejection = Authentication | BodyTooLarge | MalformedJson | InvalidMessages | TooManyMessages
  | PromptTooLarge | InvalidMaxTokens | MaxOutputTokensExceeded | RateLimited | AdmissionFull

definition rejection_index :: "edge_rejection \<Rightarrow> nat" where
  "rejection_index r = (case r of Authentication \<Rightarrow> 0 | BodyTooLarge \<Rightarrow> 1 | MalformedJson \<Rightarrow> 2 | InvalidMessages \<Rightarrow> 3
     | TooManyMessages \<Rightarrow> 4 | PromptTooLarge \<Rightarrow> 5 | InvalidMaxTokens \<Rightarrow> 6 | MaxOutputTokensExceeded \<Rightarrow> 7 | RateLimited \<Rightarrow> 8
     | AdmissionFull \<Rightarrow> 9)"

definition rejection_as_str :: "edge_rejection \<Rightarrow> string" where
  "rejection_as_str r = (case r of Authentication \<Rightarrow> ''authentication'' | BodyTooLarge \<Rightarrow> ''body_too_large''
     | MalformedJson \<Rightarrow> ''malformed_json'' | InvalidMessages \<Rightarrow> ''invalid_messages'' | TooManyMessages \<Rightarrow> ''too_many_messages''
     | PromptTooLarge \<Rightarrow> ''prompt_too_large'' | InvalidMaxTokens \<Rightarrow> ''invalid_max_tokens''
     | MaxOutputTokensExceeded \<Rightarrow> ''max_output_tokens_exceeded'' | RateLimited \<Rightarrow> ''rate_limited''
     | AdmissionFull \<Rightarrow> ''admission_full'')"

section \<open>Input\<close>

text \<open>The loop over the messages; \<open>checked_add\<close> is on \<open>usize\<close>.\<close>

fun sum_prompt :: "nat \<Rightarrow> json list \<Rightarrow> (edge_rejection, nat) result" where
  "sum_prompt prompt_bytes [] = Inr prompt_bytes"
| "sum_prompt prompt_bytes (message # rest) =
     (case as_object message of
        None \<Rightarrow> Inl InvalidMessages
      | Some m \<Rightarrow>
          if field ''role'' m as_str = None then Inl InvalidMessages
          else case field ''content'' m as_str of
            None \<Rightarrow> Inl InvalidMessages
          | Some content \<Rightarrow>
              if u64_max < prompt_bytes + length content then Inl PromptTooLarge
              else sum_prompt (prompt_bytes + length content) rest)"

definition validate_request :: "edge_config \<Rightarrow> (string \<times> json) list \<Rightarrow> (edge_rejection, unit) result" where
  "validate_request c request =
     (case field ''messages'' request as_array of
        None \<Rightarrow> Inl InvalidMessages
      | Some messages \<Rightarrow>
          if messages = [] then Inl InvalidMessages
          else if max_messages c < length messages then Inl TooManyMessages
          else and_then (sum_prompt 0 messages) (\<lambda>prompt_bytes.
            if max_prompt_bytes c < prompt_bytes then Inl PromptTooLarge
            else case field ''max_tokens'' request as_u64 of
              None \<Rightarrow> Inl InvalidMaxTokens
            | Some max_tokens \<Rightarrow>
                if max_tokens = 0 then Inl InvalidMaxTokens
                else if max_output_tokens c < max_tokens then Inl MaxOutputTokensExceeded
                else Inr ()))"

definition validate_input :: "(string \<Rightarrow> json option) \<Rightarrow> edge_config \<Rightarrow> string \<Rightarrow> (edge_rejection, unit) result" where
  "validate_input parse_json c body =
     (case parse_json body of
        None \<Rightarrow> Inl MalformedJson
      | Some v \<Rightarrow> (case as_object v of None \<Rightarrow> Inl InvalidMessages | Some request \<Rightarrow> validate_request c request))"

section \<open>Token buckets\<close>

record token_bucket =
  available_units :: nat
  last_elapsed_nanos :: nat

definition full_bucket :: "nat \<Rightarrow> token_bucket" where
  "full_bucket burst = \<lparr>available_units = burst * NANOS_PER_MINUTE, last_elapsed_nanos = 0\<rparr>"

definition u128_max :: nat where "u128_max = 2 ^ 128 - 1"

definition div_ceil :: "nat \<Rightarrow> nat \<Rightarrow> nat" where
  "div_ceil a b = (a + (b - 1)) div b"

text \<open>What the bucket holds at instant \<open>now\<close>, before a token is taken.\<close>

definition refilled :: "nat \<Rightarrow> nat \<Rightarrow> nat \<Rightarrow> token_bucket \<Rightarrow> nat" where
  "refilled elapsed_nanos rate burst b =
     (let delta = elapsed_nanos - last_elapsed_nanos b;
          capacity = burst * NANOS_PER_MINUTE;
          refill = min (delta * rate) u128_max
      in min (min (available_units b + refill) u128_max) capacity)"

definition retry_seconds :: "nat \<Rightarrow> nat \<Rightarrow> nat" where
  "retry_seconds missing rate = min (max (div_ceil (div_ceil missing rate) NANOS_PER_SECOND) 1) 60"

definition try_consume :: "nat \<Rightarrow> nat \<Rightarrow> nat \<Rightarrow> token_bucket \<Rightarrow> token_bucket \<times> (nat, unit) result" where
  "try_consume now rate burst b =
     (let elapsed_nanos = max now (last_elapsed_nanos b);
          available = refilled elapsed_nanos rate burst b
      in if NANOS_PER_MINUTE \<le> available
         then (b\<lparr>last_elapsed_nanos := elapsed_nanos, available_units := available - NANOS_PER_MINUTE\<rparr>, Inr ())
         else (b\<lparr>last_elapsed_nanos := elapsed_nanos, available_units := available\<rparr>, Inl (retry_seconds (NANOS_PER_MINUTE - available) rate)))"

section \<open>Controller\<close>

record edge_controller =
  edge_cfg :: edge_config
  credential_slots :: nat
  buckets :: "token_bucket list"
  rejections :: "nat list"

definition new_edge :: "edge_config \<Rightarrow> nat \<Rightarrow> (edge_error, edge_controller) result" where
  "new_edge c slots = and_then (validate_edge c) (\<lambda>_.
     if ec_mode c = Hosted \<and> slots = 0 then Inl NoCredentialSlot
     else if 16 < slots then Inl TooManySlots
     else Inr \<lparr>edge_cfg = c, credential_slots = slots, buckets = replicate slots (full_bucket (rate_burst c)),
               rejections = replicate 10 0\<rparr>)"

definition is_enforced :: "edge_controller \<Rightarrow> bool" where
  "is_enforced e = (ec_mode (edge_cfg e) = Hosted)"

definition try_consume_at :: "nat \<Rightarrow> nat \<Rightarrow> edge_controller \<Rightarrow> edge_controller \<times> (nat, unit) result" where
  "try_consume_at slot now e =
     (if length (buckets e) \<le> slot then (e, Inl 60)
      else let (b, r) = try_consume now (rate_requests_per_minute (edge_cfg e)) (rate_burst (edge_cfg e)) (buckets e ! slot)
           in (e\<lparr>buckets := (buckets e)[slot := b]\<rparr>, r))"

definition record_edge_rejection :: "edge_rejection \<Rightarrow> edge_controller \<Rightarrow> edge_controller" where
  "record_edge_rejection r e =
     e\<lparr>rejections := (rejections e)[rejection_index r := inc64 (rejections e ! rejection_index r)]\<rparr>"

record edge_status =
  es_mode :: edge_mode
  es_enforced :: bool
  es_max_request_bytes :: "nat option"
  es_max_messages :: "nat option"
  es_max_prompt_bytes :: "nat option"
  es_max_output_tokens :: "nat option"
  es_rate_requests_per_minute :: "nat option"
  es_rate_burst :: "nat option"
  es_credential_count :: "nat option"
  es_rejections :: "edge_rejection \<Rightarrow> nat"

definition edge_status_of :: "edge_controller \<Rightarrow> edge_status" where
  "edge_status_of e =
     (let enforced = (ec_mode (edge_cfg e) = Hosted); some = (\<lambda>v. if enforced then Some v else None)
      in \<lparr>es_mode = ec_mode (edge_cfg e), es_enforced = enforced, es_max_request_bytes = some MAX_PUBLIC_REQUEST_BYTES,
          es_max_messages = some (max_messages (edge_cfg e)), es_max_prompt_bytes = some (max_prompt_bytes (edge_cfg e)),
          es_max_output_tokens = some (max_output_tokens (edge_cfg e)),
          es_rate_requests_per_minute = some (rate_requests_per_minute (edge_cfg e)), es_rate_burst = some (rate_burst (edge_cfg e)),
          es_credential_count = some (credential_slots e), es_rejections = (\<lambda>r. rejections e ! rejection_index r)\<rparr>)"

section \<open>Facts\<close>

lemma validate_edgeD:
  assumes "validate_edge c = Inr ()"
  shows "0 < rate_requests_per_minute c" "rate_requests_per_minute c \<le> 60000" "0 < rate_burst c" "rate_burst c \<le> 1000"
    "0 < max_messages c" "max_prompt_bytes c \<le> 65536" "0 < max_output_tokens c"
  using assms
  by (auto simp: validate_edge_def and_then_Inr_iff validate_positive_bounded_def MAX_RATE_REQUESTS_PER_MINUTE_def MAX_RATE_BURST_def
      MAX_PUBLIC_REQUEST_BYTES_def split: if_splits)

text \<open>A run of one bucket: the instants at which a token is asked for, and how many are granted.\<close>

fun consume_run :: "nat \<Rightarrow> nat \<Rightarrow> token_bucket \<Rightarrow> nat list \<Rightarrow> token_bucket \<times> nat" where
  "consume_run rate burst b [] = (b, 0)"
| "consume_run rate burst b (t # ts) =
     (case try_consume t rate burst b of
        (b', r) \<Rightarrow> let (b'', n) = consume_run rate burst b' ts in (b'', n + (if is_ok r then 1 else 0)))"

lemma refilled_le:
  "refilled e rate burst b \<le> available_units b + (e - last_elapsed_nanos b) * rate"
  "refilled e rate burst b \<le> burst * NANOS_PER_MINUTE"
proof -
  show "refilled e rate burst b \<le> available_units b + (e - last_elapsed_nanos b) * rate"
    unfolding refilled_def Let_def by (intro min.coboundedI1 add_left_mono) simp
qed (simp add: refilled_def Let_def)

lemma try_consume_units:
  assumes "try_consume now rate burst b = (b', r)"
  shows "available_units b' + (if is_ok r then NANOS_PER_MINUTE else 0) = refilled (max now (last_elapsed_nanos b)) rate burst b"
    "last_elapsed_nanos b' = max now (last_elapsed_nanos b)"
  using assms unfolding try_consume_def Let_def by (auto split: if_splits)

lemma consume_run_units:
  assumes "consume_run rate burst b ts = (b', n)"
  shows "available_units b' + n * NANOS_PER_MINUTE \<le> available_units b + (last_elapsed_nanos b' - last_elapsed_nanos b) * rate \<and>
    last_elapsed_nanos b \<le> last_elapsed_nanos b' \<and> last_elapsed_nanos b' = foldl max (last_elapsed_nanos b) ts"
  using assms
proof (induction ts arbitrary: b b' n)
  case (Cons t ts)
  obtain b1 r where s: "try_consume t rate burst b = (b1, r)" by fastforce
  obtain m where m: "consume_run rate burst b1 ts = (b', m)" "n = m + (if is_ok r then 1 else 0)"
    using Cons.prems s by (auto split: prod.splits)
  note ih = Cons.IH[OF m(1)] and u = try_consume_units[OF s]
  have h: "available_units b' + m * NANOS_PER_MINUTE \<le> available_units b1 + (last_elapsed_nanos b' - last_elapsed_nanos b1) * rate"
    "last_elapsed_nanos b1 \<le> last_elapsed_nanos b'" "last_elapsed_nanos b \<le> last_elapsed_nanos b1"
    "available_units b1 + (if is_ok r then NANOS_PER_MINUTE else 0) \<le> available_units b + (last_elapsed_nanos b1 - last_elapsed_nanos b) * rate"
    using ih u refilled_le(1)[of "last_elapsed_nanos b1" rate burst b] by auto
  have "(last_elapsed_nanos b' - last_elapsed_nanos b1) * rate + (last_elapsed_nanos b1 - last_elapsed_nanos b) * rate
      = (last_elapsed_nanos b' - last_elapsed_nanos b) * rate"
    using h by (simp add: add_mult_distrib[symmetric])
  moreover have "n * NANOS_PER_MINUTE = m * NANOS_PER_MINUTE + (if is_ok r then NANOS_PER_MINUTE else 0)" using m(2) by simp
  ultimately have "available_units b' + n * NANOS_PER_MINUTE \<le> available_units b + (last_elapsed_nanos b' - last_elapsed_nanos b) * rate"
    using h by linarith
  then show ?case using h ih u by (simp add: max.commute)
qed simp

lemma consume_run_capacity:
  "available_units b \<le> burst * NANOS_PER_MINUTE \<Longrightarrow> available_units (fst (consume_run rate burst b ts)) \<le> burst * NANOS_PER_MINUTE"
proof (induction ts arbitrary: b)
  case (Cons t ts)
  obtain b1 r where s: "try_consume t rate burst b = (b1, r)" by fastforce
  have "available_units b1 \<le> burst * NANOS_PER_MINUTE"
    using try_consume_units(1)[OF s] refilled_le(2)[of "max t (last_elapsed_nanos b)" rate burst b] by linarith
  then show ?case using Cons.IH[of b1] s by (simp add: case_prod_beta Let_def)
qed simp

lemma foldl_max_le: "x \<le> (m::nat) \<Longrightarrow> \<forall>t\<in>set ts. t \<le> m \<Longrightarrow> foldl max x ts \<le> m"
  by (induction ts arbitrary: x) auto

lemma div_ceil_covers: "0 < b \<Longrightarrow> a \<le> div_ceil a b * b"
proof -
  assume b: "0 < b"
  have "a + (b - 1) = (a + (b - 1)) div b * b + (a + (b - 1)) mod b" by simp
  moreover have "(a + (b - 1)) mod b \<le> b - 1" using mod_less_divisor[OF b, of "a + (b - 1)"] by linarith
  ultimately show ?thesis unfolding div_ceil_def by linarith
qed

lemma div_ceil_le: "0 < b \<Longrightarrow> a \<le> c * b \<Longrightarrow> div_ceil a b \<le> c"
proof -
  assume "0 < b" "a \<le> c * b"
  then have "(a + (b - 1)) div b < Suc c" by (intro less_mult_imp_div_less) (simp add: algebra_simps)
  then show ?thesis by (simp add: div_ceil_def)
qed

text \<open>Waiting for the advertised number of seconds refills a whole token.\<close>

lemma retry_seconds_covers:
  assumes "0 < rate" "missing \<le> NANOS_PER_MINUTE"
  shows "missing \<le> retry_seconds missing rate * NANOS_PER_SECOND * rate"
proof -
  define w where "w = div_ceil missing rate"
  have nps: "0 < NANOS_PER_SECOND" by (simp add: NANOS_PER_SECOND_def)
  have "w \<le> missing" unfolding w_def by (rule div_ceil_le) (use assms(1) in auto)
  then have "div_ceil w NANOS_PER_SECOND \<le> 60"
    using assms(2) by (intro div_ceil_le nps) (simp add: NANOS_PER_MINUTE_def)
  then have "div_ceil w NANOS_PER_SECOND \<le> retry_seconds missing rate" by (simp add: retry_seconds_def w_def)
  then have "w \<le> retry_seconds missing rate * NANOS_PER_SECOND"
    using div_ceil_covers[OF nps, of w] by (meson mult_le_mono1 order_trans)
  then show ?thesis using div_ceil_covers[OF assms(1), of missing] unfolding w_def by (meson mult_le_mono1 order_trans)
qed

end
