(* ===== verification/Gateway_Requests.thy ===== *)
theory Gateway_Requests
  imports Routing_Accounting Admission Resilience Routing_Lease Public_Authentication Public_Edge "HOL-Library.Multiset"
begin

text \<open>
  The request path of \<open>gateway/src/lib.rs\<close>: the two middlewares and \<open>proxy_chat_completions\<close> with its retry loop,
  over the worker pools, the admission controller, the resilience controller, the routing lease and the
  public edge.  The handler is cut at its awaits: a request between two awaits is in a phase that says
  which lease, execution permit, waiting-room slot or retry reservation it owns, and each function below
  is the code from one await to the next, early returns and implicit drops included.  What the
  environment decides (the outcome of the upstream call, whether a sleep or a wait hit the deadline, the
  clock readings in the order they are taken) is an argument.

  Requests keep the pool they started with, so the gateway has a list of pools: the shared snapshot names one
  of them and a refresh appends another.
\<close>

section \<open>State\<close>

record routing_snapshot =
  rt_pool :: nat
  control_cluster_id :: "string option"
  control_signing_key_id :: "string option"
  control_revision :: "nat option"
  control_term :: "nat option"

definition static_workers :: "nat \<Rightarrow> routing_snapshot" where
  "static_workers k = \<lparr>rt_pool = k, control_cluster_id = None, control_signing_key_id = None, control_revision = None, control_term = None\<rparr>"

definition committed_authenticated :: "nat \<Rightarrow> string \<Rightarrow> string option \<Rightarrow> nat \<Rightarrow> nat \<Rightarrow> routing_snapshot" where
  "committed_authenticated k cluster_id signing_key_id revision term =
     \<lparr>rt_pool = k, control_cluster_id = Some cluster_id, control_signing_key_id = signing_key_id,
      control_revision = Some revision, control_term = Some term\<rparr>"

record 'f gateway =
  gw_pools :: "'f worker_pool list"
  gw_routing :: routing_snapshot
  gw_lease :: "routing_lease option"
  gw_keys :: "string list"
  gw_admission :: admission_controller
  gw_resilience :: resilience_controller
  gw_edge :: edge_controller

record http_reply =
  rp_status :: nat
  rp_kind :: string
  rp_attempts :: "nat option"
  rp_retry_after :: "nat option"

record request =
  rq_context :: request_context
  rq_routing :: routing_snapshot
  rq_key :: "string option"
  rq_attempted :: "string set"
  rq_retries :: nat
  rq_attempts :: nat

text \<open>A request waits for the rest of its own body, for an execution permit, for the response headers (with the
  timeout it set), for its backoff, or for the next chunk of the body it forwards (whether the first chunk
  is still to come, and whether its latency counts).\<close>

datatype phase =
    Reading
  | Queueing worker_lease
  | Sending worker_lease nat
  | Backing_off nat
  | Streaming worker_lease bool bool

datatype send_result = Response nat | SendError bool bool | AttemptTimedOut

datatype progress = Replied http_reply | Ongoing request phase

definition build_runtime ::
  "'f worker_pool \<Rightarrow> routing_snapshot \<Rightarrow> routing_lease option \<Rightarrow> string list \<Rightarrow> nat \<Rightarrow> resilience_config \<Rightarrow> edge_config
     \<Rightarrow> 'f gateway option" where
  "build_runtime p routing l keys queue_cap rc ec =
     (case (new_admission queue_cap (total_execution_capacity p), new_resilience rc, new_edge ec (length keys)) of
        (Inr a, Inr r, Inr e) \<Rightarrow>
          Some \<lparr>gw_pools = [p], gw_routing = routing\<lparr>rt_pool := 0\<rparr>, gw_lease = l, gw_keys = keys, gw_admission = a,
                gw_resilience = r, gw_edge = e\<rparr>
      | _ \<Rightarrow> None)"

section \<open>Replies\<close>

definition gateway_error_with_attempts :: "nat \<Rightarrow> string \<Rightarrow> nat \<Rightarrow> http_reply" where
  "gateway_error_with_attempts status kind attempts =
     \<lparr>rp_status = status, rp_kind = kind, rp_attempts = Some attempts, rp_retry_after = None\<rparr>"

definition gateway_error :: "nat \<Rightarrow> string \<Rightarrow> http_reply" where
  "gateway_error status kind = \<lparr>rp_status = status, rp_kind = kind, rp_attempts = None, rp_retry_after = None\<rparr>"

definition deadline_error :: "nat \<Rightarrow> http_reply" where
  "deadline_error attempts = gateway_error_with_attempts 504 ''request_deadline_exceeded'' attempts"

definition overload_error :: http_reply where
  "overload_error = \<lparr>rp_status = 429, rp_kind = ''gateway_overloaded'', rp_attempts = None, rp_retry_after = Some 1\<rparr>"

definition routing_lease_expired_error :: http_reply where
  "routing_lease_expired_error = \<lparr>rp_status = 503, rp_kind = ''routing_lease_expired'', rp_attempts = Some 0, rp_retry_after = Some 1\<rparr>"

definition no_available_workers_error :: "nat \<Rightarrow> http_reply" where
  "no_available_workers_error attempts = (gateway_error_with_attempts 503 ''no_available_workers'' attempts)\<lparr>rp_retry_after := Some 1\<rparr>"

definition public_api_authentication_error :: http_reply where
  "public_api_authentication_error = gateway_error 401 ''authentication_error''"

definition public_input_error :: "nat \<Rightarrow> http_reply" where
  "public_input_error status = gateway_error status ''invalid_request_error''"

definition insert_retry_after :: "nat \<Rightarrow> http_reply \<Rightarrow> http_reply" where
  "insert_retry_after seconds r = r\<lparr>rp_retry_after := Some (min (max seconds 1) 60)\<rparr>"

definition public_edge_rejection :: "edge_rejection \<Rightarrow> http_reply \<Rightarrow> 'f gateway \<Rightarrow> 'f gateway \<times> http_reply" where
  "public_edge_rejection reason r g =
     (g\<lparr>gw_edge := record_edge_rejection reason (gw_edge g)\<rparr>, r\<lparr>rp_attempts := Some 0\<rparr>)"

definition is_transient_status :: "nat \<Rightarrow> bool" where
  "is_transient_status status \<longleftrightarrow> status = 502 \<or> status = 503 \<or> status = 504"

definition is_success :: "nat \<Rightarrow> bool" where
  "is_success status \<longleftrightarrow> 200 \<le> status \<and> status < 300"

section \<open>Pieces of the handler\<close>

definition req_pool :: "request \<Rightarrow> 'f gateway \<Rightarrow> 'f worker_pool" where
  "req_pool q g = gw_pools g ! rt_pool (rq_routing q)"

definition set_pool :: "request \<Rightarrow> 'f worker_pool \<Rightarrow> 'f gateway \<Rightarrow> 'f gateway" where
  "set_pool q p g = g\<lparr>gw_pools := (gw_pools g)[rt_pool (rq_routing q) := p]\<rparr>"

definition on_resilience :: "(resilience_controller \<Rightarrow> resilience_controller) \<Rightarrow> 'f gateway \<Rightarrow> 'f gateway" where
  "on_resilience h g = g\<lparr>gw_resilience := h (gw_resilience g)\<rparr>"

definition on_admission :: "(admission_controller \<Rightarrow> admission_controller) \<Rightarrow> 'f gateway \<Rightarrow> 'f gateway" where
  "on_admission h g = g\<lparr>gw_admission := h (gw_admission g)\<rparr>"

text \<open>Dropping a lease, and dropping the execution guard, which returns the worker's permit.\<close>

definition drop_lease_of :: "request \<Rightarrow> worker_lease \<Rightarrow> 'f gateway \<Rightarrow> 'f gateway" where
  "drop_lease_of q l g = set_pool q (drop_lease l (req_pool q g)) g"

definition drop_guard_of :: "request \<Rightarrow> worker_lease \<Rightarrow> 'f gateway \<Rightarrow> 'f gateway" where
  "drop_guard_of q l g =
     (let g' = on_admission drop_execution_guard g in set_pool q (release_execution (lease_worker l) (req_pool q g')) g')"

text \<open>Returning a reply drops the request's admission permit.\<close>

definition return_reply :: "http_reply \<Rightarrow> 'f gateway \<Rightarrow> 'f gateway \<times> progress" where
  "return_reply r g = (on_admission drop_request_permit g, Replied r)"

definition return_deadline :: "request \<Rightarrow> 'f gateway \<Rightarrow> 'f gateway \<times> progress" where
  "return_deadline q g = return_reply (deadline_error (rq_attempts q)) g"

definition deadline_now :: "request \<Rightarrow> 'f gateway \<Rightarrow> 'f gateway \<times> progress" where
  "deadline_now q g = return_deadline q (on_resilience record_deadline_exceeded g)"

definition return_overload :: "'f gateway \<Rightarrow> 'f gateway \<times> progress" where
  "return_overload g =
     (if is_enforced (gw_edge g)
      then let (g', r) = public_edge_rejection AdmissionFull overload_error g in return_reply r g'
      else return_reply overload_error g)"

definition reserve_retry_plan :: "nat \<Rightarrow> resilience_controller \<Rightarrow> resilience_controller \<times> nat option" where
  "reserve_retry_plan retries_used c =
     (if max_retries (rs_config c) \<le> retries_used then (record_retry_limit_exhausted c, None) else reserve_retry retries_used c)"

section \<open>The handler\<close>

text \<open>From the execution permit to the upstream call.\<close>

definition attempt_send :: "nat \<Rightarrow> request \<Rightarrow> worker_lease \<Rightarrow> 'f gateway \<Rightarrow> 'f gateway \<times> progress" where
  "attempt_send now q l g =
     (case remaining now (rq_context q) of
        None \<Rightarrow> deadline_now q (drop_lease_of q l (drop_guard_of q l g))
      | Some left \<Rightarrow>
          (on_resilience record_attempt g,
           Ongoing (q\<lparr>rq_attempts := rq_attempts q + 1\<rparr>) (Sending l (min left (attempt_timeout (rs_config (gw_resilience g)))))))"

definition select_worker :: "('f::linorder) f64_ops \<Rightarrow> (nat \<Rightarrow> nat) \<Rightarrow> request \<Rightarrow> 'f gateway \<Rightarrow> 'f worker_pool \<times> worker_lease option" where
  "select_worker f clock q g =
     (if rq_retries q = 0
      then (case rq_key q of Some key \<Rightarrow> try_choose_for_key f clock key (req_pool q g) | None \<Rightarrow> try_choose f clock (req_pool q g))
      else try_choose_retry clock (rq_attempted q) (req_pool q g))"

text \<open>From the head of the loop to the wait for an execution permit; \<open>now\<close> are the two readings of the clock
  around the selection.\<close>

definition attempt_begin ::
  "('f::linorder) f64_ops \<Rightarrow> (nat \<Rightarrow> nat) \<Rightarrow> nat \<times> nat \<Rightarrow> request \<Rightarrow> 'f gateway \<Rightarrow> 'f gateway \<times> progress" where
  "attempt_begin f clock now q g =
     (if remaining (fst now) (rq_context q) = None then deadline_now q g
      else case select_worker f clock q g of
        (p, None) \<Rightarrow> return_reply (no_available_workers_error (rq_attempts q)) (set_pool q p g)
      | (p, Some l) \<Rightarrow>
          let q' = q\<lparr>rq_attempted := insert (wk_id (workers p ! lease_worker l)) (rq_attempted q)\<rparr>
          in case admit_worker_begin l p (gw_admission g) of
            (p', a, Executing) \<Rightarrow> attempt_send (snd now) q' l (set_pool q p' (g\<lparr>gw_admission := a\<rparr>))
          | (p', a, Waiting) \<Rightarrow> (set_pool q p' (g\<lparr>gw_admission := a\<rparr>), Ongoing q' (Queueing l))
          | (p', a, Overloaded) \<Rightarrow> return_overload (drop_lease_of q l (set_pool q p' (g\<lparr>gw_admission := a\<rparr>))))"

text \<open>\<open>new_request\<close> sets the handler's variables before the loop.  \<open>proxy_chat_completions\<close> up to its first await
  takes the clock readings of the lease check and of the first turn.\<close>

definition new_request :: "request_context \<Rightarrow> string option \<Rightarrow> 'f gateway \<Rightarrow> request" where
  "new_request ctx key g =
     \<lparr>rq_context = ctx, rq_routing = gw_routing g, rq_key = key, rq_attempted = {}, rq_retries = 0, rq_attempts = 0\<rparr>"

definition proxy_start ::
  "('f::linorder) f64_ops \<Rightarrow> (nat \<Rightarrow> nat) \<Rightarrow> nat \<Rightarrow> nat \<times> nat \<Rightarrow> request_context \<Rightarrow> string \<Rightarrow> 'f gateway \<Rightarrow> 'f gateway \<times> progress" where
  "proxy_start f clock lease_now now ctx affinity_key g =
     (case map_option (admit_new_at lease_now) (gw_lease g) of
        Some (l, Rejected) \<Rightarrow> return_reply routing_lease_expired_error (g\<lparr>gw_lease := Some l\<rparr>)
      | _ \<Rightarrow>
          let key = (if pool_policy (gw_pools g ! rt_pool (gw_routing g)) = ConsistentHash then Some affinity_key else None)
          in attempt_begin f clock now (new_request ctx key g) g)"

text \<open>The handler starts once the framework has read the request body; a body over the limit is refused by the
  framework while the request holds its admission permit.\<close>

definition body_read ::
  "('f::linorder) f64_ops \<Rightarrow> (string \<Rightarrow> string) \<Rightarrow> string option \<Rightarrow> (nat \<Rightarrow> nat) \<Rightarrow> nat \<Rightarrow> nat \<times> nat \<Rightarrow> request \<Rightarrow> 'f gateway
     \<Rightarrow> 'f gateway \<times> progress" where
  "body_read f affinity body clock lease_now now q g =
     (case body of
        None \<Rightarrow> return_reply (gateway_error 413 ''length_limit'') g
      | Some b \<Rightarrow> proxy_start f clock lease_now now (rq_context q) (affinity b) g)"

text \<open>\<open>header_ok\<close> says which strings the HTTP library accepts as header values.  The loop ends with a response that
  is forwarded, unless its head cannot be built.\<close>

definition respond_upstream :: "(string \<Rightarrow> bool) \<Rightarrow> nat \<Rightarrow> request \<Rightarrow> worker_lease \<Rightarrow> 'f gateway \<Rightarrow> 'f gateway \<times> progress" where
  "respond_upstream header_ok status q l g =
     (if header_ok (wk_id (workers (req_pool q g) ! lease_worker l)) \<and>
         pred_option header_ok (control_cluster_id (rq_routing q)) \<and> pred_option header_ok (control_signing_key_id (rq_routing q))
      then (g, Ongoing q (Streaming l True (is_success status)))
      else return_reply (gateway_error 500 ''response_build_failed'') (drop_lease_of q l (drop_guard_of q l g)))"

definition fail_attempt :: "nat \<Rightarrow> request \<Rightarrow> worker_lease \<Rightarrow> 'f gateway \<Rightarrow> 'f gateway \<times> worker_lease" where
  "fail_attempt now q l g =
     (let (p, l') = record_circuit_failure now l (req_pool q g)
      in (on_resilience record_transient_failure (set_pool q p g), l'))"

text \<open>\<open>schedule_retry\<close> after a failed call: back off, or answer with the given error.\<close>

definition retry_or_reply :: "http_reply \<Rightarrow> request \<Rightarrow> 'f gateway \<Rightarrow> 'f gateway \<times> progress" where
  "retry_or_reply r q g =
     (case reserve_retry_plan (rq_retries q) (gw_resilience g) of
        (c, Some delay) \<Rightarrow> (g\<lparr>gw_resilience := c\<rparr>, Ongoing q (Backing_off delay))
      | (c, None) \<Rightarrow> return_reply r (g\<lparr>gw_resilience := c\<rparr>))"

definition attempt_result ::
  "(string \<Rightarrow> bool) \<Rightarrow> nat \<times> nat \<Rightarrow> send_result \<Rightarrow> request \<Rightarrow> worker_lease \<Rightarrow> 'f gateway \<Rightarrow> 'f gateway \<times> progress" where
  "attempt_result header_ok now result q l g =
     (case result of
        Response status \<Rightarrow>
          if is_transient_status status then
            let (g1, l') = fail_attempt (fst now) q l g
            in case reserve_retry_plan (rq_retries q) (gw_resilience g1) of
                 (c, Some delay) \<Rightarrow>
                   (drop_lease_of q l' (drop_guard_of q l' (g1\<lparr>gw_resilience := c\<rparr>)), Ongoing q (Backing_off delay))
               | (c, None) \<Rightarrow> respond_upstream header_ok status q l' (g1\<lparr>gw_resilience := c\<rparr>)
          else
            let (p, l') = record_circuit_success (fst now) l (req_pool q g) in respond_upstream header_ok status q l' (set_pool q p g)
      | SendError connect timed_out \<Rightarrow>
          let retryable = (connect \<or> timed_out);
              (g1, l') = (if retryable then fail_attempt (fst now) q l g else (g, l));
              g2 = drop_lease_of q l' (drop_guard_of q l' g1);
              r = (if timed_out then gateway_error_with_attempts 504 ''upstream_timeout'' (rq_attempts q)
                   else gateway_error_with_attempts 503 ''worker_connection_failed'' (rq_attempts q))
          in if remaining (snd now) (rq_context q) = None then deadline_now q g2
             else if retryable then retry_or_reply r q g2
             else return_reply r g2
      | AttemptTimedOut \<Rightarrow>
          let (g1, l') = fail_attempt (fst now) q l g;
              g2 = drop_lease_of q l' (drop_guard_of q l' g1)
          in if remaining (snd now) (rq_context q) = None then deadline_now q g2
             else retry_or_reply (gateway_error_with_attempts 504 ''upstream_timeout'' (rq_attempts q)) q g2)"

text \<open>\<open>wait_for_reserved_retry\<close> after its sleep, and the next turn of the loop.\<close>

definition backoff_end ::
  "('f::linorder) f64_ops \<Rightarrow> (nat \<Rightarrow> nat) \<Rightarrow> bool \<Rightarrow> nat \<Rightarrow> nat \<times> nat \<Rightarrow> request \<Rightarrow> 'f gateway \<Rightarrow> 'f gateway \<times> progress" where
  "backoff_end f clock slept woke now q g =
     (if \<not> slept \<or> remaining woke (rq_context q) = None
      then return_deadline q (on_resilience drop_reservation (on_resilience record_deadline_exceeded g))
      else attempt_begin f clock now (q\<lparr>rq_retries := rq_retries q + 1\<rparr>) (on_resilience commit_reservation g))"

definition queue_end :: "bool \<Rightarrow> nat \<Rightarrow> request \<Rightarrow> worker_lease \<Rightarrow> 'f gateway \<Rightarrow> ('f gateway \<times> progress) option" where
  "queue_end granted now q l g =
     (if granted
      then (case admit_worker_resume l (req_pool q g) (gw_admission g) of
              Some (p, a) \<Rightarrow> Some (attempt_send now q l (set_pool q p (g\<lparr>gw_admission := a\<rparr>)))
            | None \<Rightarrow> None)
      else Some (deadline_now q (drop_lease_of q l (on_admission drop_queue_guard g))))"

section \<open>Streaming and cancellation\<close>

definition stream_chunk ::
  "'f f64_ops \<Rightarrow> bool \<Rightarrow> nat \<Rightarrow> request \<Rightarrow> worker_lease \<Rightarrow> bool \<Rightarrow> bool \<Rightarrow> 'f gateway \<Rightarrow> 'f gateway \<times> progress" where
  "stream_chunk f ok latency q l first observe_latency g =
     (if first \<and> observe_latency \<and> ok
      then let (p, l') = observe_duration f latency l (req_pool q g)
           in (set_pool q p g, Ongoing q (Streaming l' False observe_latency))
      else (g, Ongoing q (Streaming l False observe_latency)))"

text \<open>Whatever phase a request is in, dropping its future or its body drops what it owns.\<close>

definition release_phase :: "request \<Rightarrow> phase \<Rightarrow> 'f gateway \<Rightarrow> 'f gateway" where
  "release_phase q ph g =
     (case ph of
        Reading \<Rightarrow> g
      | Queueing l \<Rightarrow> drop_lease_of q l (on_admission drop_queue_guard g)
      | Sending l _ \<Rightarrow> drop_lease_of q l (drop_guard_of q l g)
      | Backing_off _ \<Rightarrow> on_resilience drop_reservation g
      | Streaming l _ _ \<Rightarrow> drop_lease_of q l (drop_guard_of q l g))"

definition cancel_request :: "request \<Rightarrow> phase \<Rightarrow> 'f gateway \<Rightarrow> 'f gateway" where
  "cancel_request q ph g = on_admission drop_request_permit (release_phase q ph g)"

definition stream_end :: "bool \<Rightarrow> request \<Rightarrow> phase \<Rightarrow> 'f gateway \<Rightarrow> 'f gateway" where
  "stream_end at_deadline q ph g =
     cancel_request q ph (if at_deadline then on_resilience record_deadline_exceeded g else g)"

section \<open>Middlewares\<close>

definition admission_middleware ::
  "(string \<Rightarrow> string option) \<Rightarrow> headers \<Rightarrow> nat \<Rightarrow> 'f gateway \<Rightarrow> 'f gateway \<times> progress" where
  "admission_middleware to_str h arrived g =
     (if \<not> authorizes to_str (gw_keys g) h then (g, Replied public_api_authentication_error)
      else case try_admit_request (gw_admission g) of
        (a, False) \<Rightarrow> (g\<lparr>gw_admission := a\<rparr>, Replied overload_error)
      | (a, True) \<Rightarrow>
          let (c, ctx) = start_request arrived (gw_resilience g); g' = g\<lparr>gw_admission := a, gw_resilience := c\<rparr>
          in (g', Ongoing (new_request ctx None g') Reading))"

definition input_rejection_status :: "edge_rejection \<Rightarrow> nat" where
  "input_rejection_status reason = (case reason of PromptTooLarge \<Rightarrow> 413 | _ \<Rightarrow> 400)"

text \<open>\<open>body\<close> is what reading the request body gave, \<open>None\<close> if it exceeded the limit; \<open>elapsed_nanos\<close> is the age of
  the edge controller.  The body is in memory afterwards, so the handler starts at once.\<close>

definition hosted_public_edge_middleware ::
  "('f::linorder) f64_ops \<Rightarrow> (string \<Rightarrow> string option) \<Rightarrow> (string \<Rightarrow> json option) \<Rightarrow> (string \<Rightarrow> string) \<Rightarrow> headers \<Rightarrow> string option
     \<Rightarrow> (nat \<Rightarrow> nat) \<Rightarrow> nat \<Rightarrow> nat \<Rightarrow> nat \<Rightarrow> nat \<times> nat \<Rightarrow> 'f gateway \<Rightarrow> 'f gateway \<times> progress" where
  "hosted_public_edge_middleware f to_str parse_json affinity h body clock elapsed_nanos arrived lease_now now g =
     (let reject = (\<lambda>reason r g. let (g', r') = public_edge_rejection reason r g in (g', Replied r')) in
      case authenticate to_str (gw_keys g) h of
        None \<Rightarrow> reject Authentication public_api_authentication_error g
      | Some None \<Rightarrow> reject Authentication public_api_authentication_error g
      | Some (Some slot) \<Rightarrow>
          (case body of
             None \<Rightarrow> reject BodyTooLarge (public_input_error 413) g
           | Some b \<Rightarrow>
               (case validate_input parse_json (edge_cfg (gw_edge g)) b of
                  Inl reason \<Rightarrow> reject reason (public_input_error (input_rejection_status reason)) g
                | Inr _ \<Rightarrow>
                    (case try_consume_at slot elapsed_nanos (gw_edge g) of
                       (e, Inl retry_after) \<Rightarrow>
                         reject RateLimited (insert_retry_after retry_after (public_input_error 429)) (g\<lparr>gw_edge := e\<rparr>)
                     | (e, Inr _) \<Rightarrow>
                         (case try_admit_request (gw_admission g) of
                            (a, False) \<Rightarrow> reject AdmissionFull overload_error (g\<lparr>gw_admission := a, gw_edge := e\<rparr>)
                          | (a, True) \<Rightarrow>
                              let (c, ctx) = start_request arrived (gw_resilience g)
                              in proxy_start f clock lease_now now ctx (affinity b)
                                   (g\<lparr>gw_admission := a, gw_edge := e, gw_resilience := c\<rparr>))))))"

text \<open>The key of a consistent-hash request: an explicit header, else the messages and model of the body in canonical
  JSON, else the body.\<close>

definition json_get :: "string \<Rightarrow> json \<Rightarrow> json option" where
  "json_get name v = (case as_object v of None \<Rightarrow> None | Some m \<Rightarrow> map_of m name)"

definition or_null :: "json option \<Rightarrow> json" where
  "or_null v = (case v of None \<Rightarrow> JNull | Some x \<Rightarrow> x)"

definition prompt_affinity_key :: "(string \<Rightarrow> json option) \<Rightarrow> (json \<Rightarrow> string option) \<Rightarrow> headers \<Rightarrow> string \<Rightarrow> string" where
  "prompt_affinity_key parse_json to_vec h body =
     (case map_of h ''x-inferlab-cache-key'' of
        Some (c # cs) \<Rightarrow> c # cs
      | _ \<Rightarrow>
          (case Option.bind (parse_json body) (\<lambda>request.
             to_vec (JObject [(''messages'', or_null (json_get ''messages'' request)), (''model'', or_null (json_get ''model'' request))])) of
             Some bytes \<Rightarrow> bytes
           | None \<Rightarrow> body))"

section \<open>Refresh and diagnostics\<close>

definition install_routing :: "'f worker_pool \<Rightarrow> routing_snapshot \<Rightarrow> 'f gateway \<Rightarrow> 'f gateway" where
  "install_routing p s g = g\<lparr>gw_pools := gw_pools g @ [p], gw_routing := s\<lparr>rt_pool := length (gw_pools g)\<rparr>\<rparr>"

definition rekey_routing :: "routing_snapshot \<Rightarrow> 'f gateway \<Rightarrow> 'f gateway" where
  "rekey_routing s g = g\<lparr>gw_routing := s\<lparr>rt_pool := rt_pool (gw_routing g)\<rparr>\<rparr>"

definition worker_status :: "nat \<Rightarrow> 'f gateway \<Rightarrow> 'f gateway \<times> 'f worker_snapshot list" where
  "worker_status now g =
     (let k = rt_pool (gw_routing g); (p, ws) = snapshots now (gw_pools g ! k)
      in (g\<lparr>gw_pools := (gw_pools g)[k := p]\<rparr>, ws))"

section \<open>All requests of a gateway\<close>

definition joined :: "progress \<Rightarrow> (request \<times> phase) multiset \<Rightarrow> (request \<times> phase) multiset" where
  "joined out M = (case out of Replied _ \<Rightarrow> M | Ongoing q ph \<Rightarrow> add_mset (q, ph) M)"

text \<open>\<open>gateway_reachable f n g M\<close>: after \<open>n\<close> arrivals, in any order of events, the gateway is in state \<open>g\<close> with the requests
  \<open>M\<close> under way.\<close>

inductive gateway_reachable :: "('f::linorder) f64_ops \<Rightarrow> nat \<Rightarrow> 'f gateway \<Rightarrow> (request \<times> phase) multiset \<Rightarrow> bool" for f where
  built: "from_config f ws rc cc = Inr p \<Longrightarrow> build_runtime p routing l keys qc rcfg ec = Some g \<Longrightarrow> gateway_reachable f 0 g {#}"
| arrived_local: "gateway_reachable f n g M \<Longrightarrow> admission_middleware to_str h arrived g = (g', out) \<Longrightarrow>
    gateway_reachable f (Suc n) g' (joined out M)"
| arrived_hosted: "gateway_reachable f n g M \<Longrightarrow>
    hosted_public_edge_middleware f to_str parse_json affinity h body clock elapsed_nanos arrived lease_now now g = (g', out) \<Longrightarrow>
    gateway_reachable f (Suc n) g' (joined out M)"
| body: "gateway_reachable f n g (add_mset (q, Reading) M) \<Longrightarrow> body_read f affinity body clock lease_now now q g = (g', out) \<Longrightarrow>
    gateway_reachable f n g' (joined out M)"
| queue: "gateway_reachable f n g (add_mset (q, Queueing l) M) \<Longrightarrow> queue_end granted now1 q l g = Some (g', out) \<Longrightarrow>
    gateway_reachable f n g' (joined out M)"
| result: "gateway_reachable f n g (add_mset (q, Sending l limit) M) \<Longrightarrow> attempt_result header_ok now res q l g = (g', out) \<Longrightarrow>
    gateway_reachable f n g' (joined out M)"
| backoff: "gateway_reachable f n g (add_mset (q, Backing_off delay) M) \<Longrightarrow> backoff_end f clock slept woke now q g = (g', out) \<Longrightarrow>
    gateway_reachable f n g' (joined out M)"
| chunk: "gateway_reachable f n g (add_mset (q, Streaming l first obs) M) \<Longrightarrow> stream_chunk f ok latency q l first obs g = (g', out) \<Longrightarrow>
    gateway_reachable f n g' (joined out M)"
| ended: "gateway_reachable f n g (add_mset (q, Streaming l first obs) M) \<Longrightarrow>
    gateway_reachable f n (stream_end at_deadline q (Streaming l first obs) g) M"
| cancelled: "gateway_reachable f n g (add_mset (q, ph) M) \<Longrightarrow> gateway_reachable f n (cancel_request q ph g) M"
| refreshed: "gateway_reachable f n g M \<Longrightarrow> from_config f ws rc cc = Inr p \<Longrightarrow> gateway_reachable f n (install_routing p s g) M"
| rekeyed: "gateway_reachable f n g M \<Longrightarrow> gateway_reachable f n (rekey_routing s g) M"
| renewed: "gateway_reachable f n g M \<Longrightarrow> gateway_reachable f n (g\<lparr>gw_lease := map_option (renew_at ms t) (gw_lease g)\<rparr>) M"
| viewed: "gateway_reachable f n g M \<Longrightarrow> gateway_reachable f n (fst (worker_status t g)) M"

end
