(* ===== verification/Control_Sync.thy ===== *)
theory Control_Sync
  imports Snapshot_Store Gateway_Requests
begin

text \<open>
  How a gateway follows its control plane (\<open>gateway/src/main.rs\<close>): fetching a configuration from the control nodes,
  starting from the live control plane or from the durable snapshot, and the polls of \<open>watch_control_plane\<close> that
  persist and apply new revisions.  Answers of the nodes, clock readings and failing calls are arguments.
\<close>

section \<open>Fetching\<close>

record cluster_mismatch =
  mm_source_url :: string
  mm_cluster_id :: string

record authentication_failure =
  af_source_url :: string
  af_key_id :: "string option"
  af_error :: snapshot_error

record verified_configuration =
  vc_source_url :: string
  vc_committed :: committed
  vc_signing_key_id :: "string option"

record fetch_result =
  fe_configuration :: "verified_configuration option"
  fe_mismatches :: "cluster_mismatch list"
  fe_failures :: "authentication_failure list"

definition empty_fetch :: fetch_result where
  "empty_fetch = \<lparr>fe_configuration = None, fe_mismatches = [], fe_failures = []\<rparr>"

text \<open>A node answers with a configuration, or with nothing usable: no connection, an error status, or an undecodable body.\<close>

fun fetch_from ::
  "('s, 'k) crypto \<Rightarrow> 'k control_authenticator \<Rightarrow> string \<Rightarrow> (string \<times> committed option) list \<Rightarrow> fetch_result \<Rightarrow> fetch_result" where
  "fetch_from cr a expected [] fetched = fetched"
| "fetch_from cr a expected ((url, None) # rest) fetched = fetch_from cr a expected rest fetched"
| "fetch_from cr a expected ((url, Some c) # rest) fetched =
     (case verify_committed cr a c of
        Inl e \<Rightarrow>
          fetch_from cr a expected rest
            (fetched\<lparr>fe_failures := fe_failures fetched @
               [\<lparr>af_source_url = url, af_key_id = map_option ca_key_id (cm_authentication c), af_error = e\<rparr>]\<rparr>)
      | Inr signing_key_id \<Rightarrow>
          if cm_cluster_id c = expected
          then fetched\<lparr>fe_configuration := Some \<lparr>vc_source_url = url, vc_committed = c, vc_signing_key_id = signing_key_id\<rparr>\<rparr>
          else fetch_from cr a expected rest
            (fetched\<lparr>fe_mismatches := fe_mismatches fetched @ [\<lparr>mm_source_url = url, mm_cluster_id = cm_cluster_id c\<rparr>]\<rparr>))"

definition fetch_control_configuration ::
  "('s, 'k) crypto \<Rightarrow> 'k control_authenticator \<Rightarrow> string \<Rightarrow> (string \<times> committed option) list \<Rightarrow> fetch_result" where
  "fetch_control_configuration cr a expected answers = fetch_from cr a expected answers empty_fetch"

definition last_or :: "'a option \<Rightarrow> 'a list \<Rightarrow> 'a option" where
  "last_or before xs = (if xs = [] then before else Some (last xs))"

record wait_error =
  we_mismatch :: "cluster_mismatch option"
  we_failure :: "authentication_failure option"

text \<open>One round is the answers of a fetch and the clock reading after it; \<open>None\<close> means that the loop still waits after these rounds.\<close>

fun wait_for_control_configuration ::
  "('s, 'k) crypto \<Rightarrow> 'k control_authenticator \<Rightarrow> string \<Rightarrow> nat \<Rightarrow> wait_error
     \<Rightarrow> ((string \<times> committed option) list \<times> nat) list \<Rightarrow> (wait_error, verified_configuration) result option" where
  "wait_for_control_configuration cr a expected deadline e [] = None"
| "wait_for_control_configuration cr a expected deadline e ((answers, now) # rounds) =
     (let fetched = fetch_control_configuration cr a expected answers;
          e = \<lparr>we_mismatch = last_or (we_mismatch e) (fe_mismatches fetched), we_failure = last_or (we_failure e) (fe_failures fetched)\<rparr>
      in case fe_configuration fetched of
           Some v \<Rightarrow> Some (Inr v)
         | None \<Rightarrow>
             if deadline \<le> now then Some (Inl e) else wait_for_control_configuration cr a expected deadline e rounds)"

section \<open>Starting\<close>

datatype bootstrap_source = Live | Disk

record initial_configuration =
  ic_source_url :: "string option"
  ic_committed :: committed
  ic_signing_key_id :: "string option"
  ic_source :: bootstrap_source
  ic_snapshot_age_ms :: "nat option"
  ic_persisted_at_ms :: "nat option"
  ic_persisted_expires_at_ms :: "nat option"

datatype start_error = LiveTimedOut | LiveInvalid snapshot_error | NotEligible snapshot_error | Disagreement | BadPoolInput | PoolInvalid routing_error
  | NotPersisted snapshot_error | RuntimeInvalid

definition initial_from_disk :: "persisted_snapshot \<Rightarrow> snapshot_freshness \<Rightarrow> string option \<Rightarrow> initial_configuration" where
  "initial_from_disk s fresh key =
     \<lparr>ic_source_url = None, ic_committed = ps_committed s, ic_signing_key_id = key, ic_source = Disk,
      ic_snapshot_age_ms = Some (observed_age_ms fresh), ic_persisted_at_ms = Some (ps_saved_at_ms s),
      ic_persisted_expires_at_ms = fr_expires_at_ms fresh\<rparr>"

definition snapshot_freshness_at :: "nat \<Rightarrow> freshness_policy \<Rightarrow> persisted_snapshot \<Rightarrow> (start_error, snapshot_freshness) result" where
  "snapshot_freshness_at now_ms fp s =
     (case validate_snapshot_freshness (ps_saved_at_ms s) now_ms fp of Inl e \<Rightarrow> Inl (NotEligible e) | Inr x \<Rightarrow> Inr x)"

definition bootstrap_from_disk ::
  "('s, 'k) crypto \<Rightarrow> 'k control_authenticator \<Rightarrow> string \<Rightarrow> freshness_policy \<Rightarrow> nat \<Rightarrow> persisted_snapshot option \<Rightarrow> start_error
     \<Rightarrow> (start_error, initial_configuration) result" where
  "bootstrap_from_disk cr a expected fp now_ms persisted live_error =
     (case persisted of
        None \<Rightarrow> Inl live_error
      | Some s \<Rightarrow>
          (case verify_committed cr a (ps_committed s) of
             Inl e \<Rightarrow> Inl (NotEligible e)
           | Inr key \<Rightarrow>
               (case validate_expected_control_cluster (ps_committed s) expected of
                  Inl e \<Rightarrow> Inl (NotEligible e)
                | Inr _ \<Rightarrow> and_then (snapshot_freshness_at now_ms fp s) (\<lambda>fresh. Inr (initial_from_disk s fresh key)))))"

text \<open>What the durable snapshot makes of a valid live configuration: start from the snapshot instead, fail, or go on (\<open>None\<close>).\<close>

definition disk_before_live ::
  "('s, 'k) crypto \<Rightarrow> 'k control_authenticator \<Rightarrow> string \<Rightarrow> freshness_policy \<Rightarrow> nat \<Rightarrow> persisted_snapshot \<Rightarrow> committed \<Rightarrow> string option
     \<Rightarrow> (start_error, initial_configuration) result option" where
  "disk_before_live cr a expected fp now_ms s c key =
     (let disk_key = (case verify_committed cr a (ps_committed s) of Inl _ \<Rightarrow> None | Inr k \<Rightarrow> Some k);
          fall_back = Some (and_then (snapshot_freshness_at now_ms fp s) (\<lambda>fresh. Inr (initial_from_disk s fresh (Option.bind disk_key id))));
          disagree = (if cm_cluster_id (ps_committed s) = expected \<and> cm_revision (ps_committed s) = cm_revision c \<and>
                         \<not> same_routing_payload (ps_committed s) c then Some (Inl Disagreement) else None)
      in if disk_key = None \<and> auth_required a then disagree
         else if cm_cluster_id (ps_committed s) \<noteq> expected then disagree
         else if key_transition a (Option.bind disk_key id) key = TrDowngrade then fall_back
         else if cm_revision c < cm_revision (ps_committed s) then fall_back
         else disagree)"

definition bootstrap_control_configuration ::
  "('s, 'k) crypto \<Rightarrow> 'k control_authenticator \<Rightarrow> string \<Rightarrow> freshness_policy \<Rightarrow> nat \<Rightarrow> persisted_snapshot option
     \<Rightarrow> (wait_error, verified_configuration) result \<Rightarrow> (start_error, initial_configuration) result" where
  "bootstrap_control_configuration cr a expected fp now_ms persisted live =
     (case live of
        Inl _ \<Rightarrow> bootstrap_from_disk cr a expected fp now_ms persisted LiveTimedOut
      | Inr v \<Rightarrow>
          (case validate_committed (vc_committed v) of
             Inl e \<Rightarrow> bootstrap_from_disk cr a expected fp now_ms persisted (LiveInvalid e)
           | Inr _ \<Rightarrow>
               (case Option.bind persisted (\<lambda>s. disk_before_live cr a expected fp now_ms s (vc_committed v) (vc_signing_key_id v)) of
                  Some r \<Rightarrow> r
                | None \<Rightarrow>
                    Inr \<lparr>ic_source_url = Some (vc_source_url v), ic_committed = vc_committed v, ic_signing_key_id = vc_signing_key_id v,
                         ic_source = Live, ic_snapshot_age_ms = None, ic_persisted_at_ms = None, ic_persisted_expires_at_ms = None\<rparr>)))"

record 'f pool_template =
  pt_ewma_alpha :: 'f
  pt_ewma_probe_interval :: nat
  pt_virtual_nodes :: nat
  pt_worker_concurrency_limit :: nat
  pt_circuit_breaker :: circuit_breaker_config

definition build_pool :: "('f::linorder) f64_ops \<Rightarrow> worker_registration list \<Rightarrow> routing_policy \<Rightarrow> 'f pool_template \<Rightarrow> (start_error, 'f worker_pool) result" where
  "build_pool f ws policy t =
     (case from_config f ws \<lparr>rc_policy = policy, rc_ewma_alpha = pt_ewma_alpha t, rc_ewma_probe_interval = pt_ewma_probe_interval t,
        rc_virtual_nodes = pt_virtual_nodes t, rc_worker_concurrency_limit = pt_worker_concurrency_limit t\<rparr> (pt_circuit_breaker t) of
        Inl e \<Rightarrow> Inl (PoolInvalid e)
      | Inr p \<Rightarrow> Inr p)"

definition committed_pool_input :: "committed \<Rightarrow> (start_error, worker_registration list \<times> routing_policy) result" where
  "committed_pool_input c =
     (case policy_from_str (st_routing_policy (cm_configuration c)) of
        Inl _ \<Rightarrow> Inl BadPoolInput
      | Inr policy \<Rightarrow>
          Inr (map (\<lambda>w. \<lparr>wr_id = sw_id w, wr_base_url = sw_base_url w, wr_weight = sw_weight w\<rparr>) (st_workers (cm_configuration c)), policy))"

text \<open>The fields of \<open>ControlPlaneStatus\<close> that change after the start.\<close>

record control_status =
  cp_source_url :: "string option"
  cp_last_rejected_cluster_id :: "string option"
  cp_cluster_mismatch_rejections :: nat
  cp_active_signing_key_id :: "string option"
  cp_last_rejected_signing_key_id :: "string option"
  cp_signature_verifications :: nat
  cp_signature_rejections :: nat
  cp_signing_key_downgrade_rejections :: nat
  cp_last_authentication_error :: "snapshot_error option"
  cp_revision :: "nat option"
  cp_term :: "nat option"
  cp_last_refresh_ms :: "nat option"
  cp_failing :: bool
  cp_persisted_revision :: "nat option"
  cp_persisted_at_ms :: "nat option"
  cp_persisted_expires_at_ms :: "nat option"

record ('f, 'k) watcher_config =
  wc_template :: "'f pool_template"
  wc_store :: bool
  wc_freshness :: freshness_policy
  wc_expected :: string
  wc_authenticator :: "'k control_authenticator"

record 'f control_state =
  cs_gateway :: "'f gateway"
  cs_status :: control_status
  cs_applied :: committed
  cs_disk :: snapshot_disk

definition initial_status :: "initial_configuration \<Rightarrow> nat \<Rightarrow> control_status" where
  "initial_status i now_ms =
     \<lparr>cp_source_url = ic_source_url i, cp_last_rejected_cluster_id = None, cp_cluster_mismatch_rejections = 0,
      cp_active_signing_key_id = ic_signing_key_id i, cp_last_rejected_signing_key_id = None,
      cp_signature_verifications = (if ic_signing_key_id i \<noteq> None then 1 else 0), cp_signature_rejections = 0,
      cp_signing_key_downgrade_rejections = 0, cp_last_authentication_error = None, cp_revision = Some (cm_revision (ic_committed i)),
      cp_term = Some (cm_term (ic_committed i)), cp_last_refresh_ms = (if ic_source i = Live then Some now_ms else None), cp_failing = False,
      cp_persisted_revision = map_option (\<lambda>_. cm_revision (ic_committed i)) (ic_persisted_at_ms i), cp_persisted_at_ms = ic_persisted_at_ms i,
      cp_persisted_expires_at_ms = ic_persisted_expires_at_ms i\<rparr>"

definition initial_lease :: "(nat \<times> expiry_action) option \<Rightarrow> initial_configuration \<Rightarrow> nat \<Rightarrow> nat \<Rightarrow> routing_lease option" where
  "initial_lease cfg i now_ms now =
     (case cfg of
        None \<Rightarrow> None
      | Some (lease_ms, action) \<Rightarrow>
          (case ic_source i of
             Live \<Rightarrow> lease_from_live (from_millis lease_ms) action now_ms now
           | Disk \<Rightarrow>
               (case (ic_persisted_at_ms i, ic_snapshot_age_ms i) of
                  (Some at, Some age) \<Rightarrow> lease_from_disk (from_millis lease_ms) action at (from_millis age) now
                | _ \<Rightarrow> None)))"

text \<open>\<open>main\<close> from the bootstrap to the start of the watcher.  It returns the disk too, since the live configuration is saved before
  anything is served.\<close>

definition start_gateway ::
  "('f::linorder) f64_ops \<Rightarrow> ('s, 'k) crypto \<Rightarrow> snapshot_codec \<Rightarrow> ('f, 'k) watcher_config \<Rightarrow> (nat \<times> expiry_action) option
     \<Rightarrow> string list \<Rightarrow> nat \<Rightarrow> resilience_config \<Rightarrow> edge_config \<Rightarrow> bool \<Rightarrow> (wait_error, verified_configuration) result
     \<Rightarrow> nat \<Rightarrow> nat \<Rightarrow> snapshot_save_outcome \<Rightarrow> bool \<Rightarrow> nat \<Rightarrow> nat \<Rightarrow> snapshot_disk \<Rightarrow> snapshot_disk \<times> (start_error, 'f control_state) result" where
  "start_gateway f cr codec w lease_cfg keys queue_cap rc ec readable live now_ms saved_ms outcome removed started_ms now d =
     (let persisted = (if wc_store w then (case load codec readable d of Inl _ \<Rightarrow> None | Inr s \<Rightarrow> Some s) else None)
      in case bootstrap_control_configuration cr (wc_authenticator w) (wc_expected w) (wc_freshness w) now_ms persisted live of
           Inl e \<Rightarrow> (d, Inl e)
         | Inr i \<Rightarrow>
           (case and_then (committed_pool_input (ic_committed i)) (\<lambda>(ws, policy). build_pool f ws policy (wc_template w)) of
              Inl e \<Rightarrow> (d, Inl e)
            | Inr p \<Rightarrow>
              let (d, saved) = (if ic_source i = Live \<and> wc_store w
                                then (let (d, r) = save codec saved_ms outcome removed (ic_committed i) d in (d, Some r)) else (d, None))
              in case saved of
                   Some (Inl e) \<Rightarrow> (d, Inl (NotPersisted e))
                 | _ \<Rightarrow>
                   let i = (case saved of
                              Some (Inr s) \<Rightarrow> i\<lparr>ic_persisted_at_ms := Some (ps_saved_at_ms s),
                                               ic_persisted_expires_at_ms := policy_expires_at_ms (wc_freshness w) (ps_saved_at_ms s)\<rparr>
                            | _ \<Rightarrow> i);
                       c = ic_committed i;
                       routing = committed_authenticated 0 (cm_cluster_id c) (ic_signing_key_id i) (cm_revision c) (cm_term c)
                   in case build_runtime p routing (initial_lease lease_cfg i started_ms now) keys queue_cap rc ec of
                        None \<Rightarrow> (d, Inl RuntimeInvalid)
                      | Some g \<Rightarrow> (d, Inr \<lparr>cs_gateway = g, cs_status = initial_status i started_ms, cs_applied = c, cs_disk = d\<rparr>)))"

section \<open>Watching\<close>

definition note_rejections :: "fetch_result \<Rightarrow> control_status \<Rightarrow> control_status" where
  "note_rejections fetched st =
     (let st = (if fe_mismatches fetched = [] then st
                else st\<lparr>cp_last_rejected_cluster_id := Some (mm_cluster_id (last (fe_mismatches fetched))),
                        cp_cluster_mismatch_rejections :=
                          sat_add64 (cp_cluster_mismatch_rejections st) (u64_of_len (length (fe_mismatches fetched)))\<rparr>)
      in if fe_failures fetched = [] then st
         else st\<lparr>cp_last_rejected_signing_key_id := af_key_id (last (fe_failures fetched)),
                 cp_signature_rejections := sat_add64 (cp_signature_rejections st) (u64_of_len (length (fe_failures fetched))),
                 cp_last_authentication_error := Some (af_error (last (fe_failures fetched)))\<rparr>)"

text \<open>The end of a poll that verified the configuration in force.\<close>

definition confirm :: "verified_configuration \<Rightarrow> nat \<Rightarrow> nat \<Rightarrow> 'f control_state \<Rightarrow> 'f control_state" where
  "confirm v verified_at_ms now s =
     (let c = vc_committed v; st = cs_status s
      in s\<lparr>cs_gateway := (cs_gateway s)\<lparr>gw_lease := map_option (renew_at verified_at_ms now) (gw_lease (cs_gateway s))\<rparr>,
           cs_status := st\<lparr>cp_source_url := Some (vc_source_url v), cp_revision := Some (cm_revision c), cp_term := Some (cm_term c),
             cp_active_signing_key_id := vc_signing_key_id v,
             cp_signature_verifications := (if vc_signing_key_id v \<noteq> None then sat_add64 (cp_signature_verifications st) 1
                                            else cp_signature_verifications st),
             cp_last_refresh_ms := Some verified_at_ms, cp_failing := False\<rparr>\<rparr>)"

text \<open>Persisting and applying a new revision, or a new signing key for the same revision; the pool of a new revision is built before, and \<open>None\<close>
  keeps the pool in use.  The result says whether the poll goes on.\<close>

definition apply_verified ::
  "snapshot_codec \<Rightarrow> ('f, 'k) watcher_config \<Rightarrow> verified_configuration \<Rightarrow> 'f worker_pool option \<Rightarrow> nat \<Rightarrow> snapshot_save_outcome \<Rightarrow> bool
     \<Rightarrow> 'f control_state \<Rightarrow> 'f control_state \<times> bool" where
  "apply_verified codec w v pool saved_ms outcome removed s =
     (let c = vc_committed v;
          (d, saved) = (if wc_store w then (let (d, r) = save codec saved_ms outcome removed c (cs_disk s) in (d, Some r)) else (cs_disk s, None))
      in case saved of
           Some (Inl e) \<Rightarrow> (s\<lparr>cs_disk := d, cs_status := (cs_status s)\<lparr>cp_failing := True\<rparr>\<rparr>, False)
         | _ \<Rightarrow>
           let routing = committed_authenticated 0 (cm_cluster_id c) (vc_signing_key_id v) (cm_revision c) (cm_term c);
               g = (case pool of Some p \<Rightarrow> install_routing p routing (cs_gateway s) | None \<Rightarrow> rekey_routing routing (cs_gateway s));
               st = (case saved of
                       Some (Inr x) \<Rightarrow> (cs_status s)\<lparr>cp_persisted_revision := Some (cm_revision (ps_committed x)),
                         cp_persisted_at_ms := Some (ps_saved_at_ms x),
                         cp_persisted_expires_at_ms := policy_expires_at_ms (wc_freshness w) (ps_saved_at_ms x)\<rparr>
                     | _ \<Rightarrow> cs_status s)
           in (s\<lparr>cs_gateway := g, cs_status := st, cs_applied := c, cs_disk := d\<rparr>, True))"

definition watch_poll ::
  "('f::linorder) f64_ops \<Rightarrow> ('s, 'k) crypto \<Rightarrow> snapshot_codec \<Rightarrow> ('f, 'k) watcher_config \<Rightarrow> (string \<times> committed option) list
     \<Rightarrow> nat \<Rightarrow> nat \<Rightarrow> snapshot_save_outcome \<Rightarrow> bool \<Rightarrow> nat \<Rightarrow> nat \<Rightarrow> 'f control_state \<Rightarrow> 'f control_state" where
  "watch_poll f cr codec w answers now_ms saved_ms outcome removed verified_at_ms now s =
     (let a = wc_authenticator w; fetched = fetch_control_configuration cr a (wc_expected w) answers;
          s = s\<lparr>cs_status := note_rejections fetched (cs_status s)\<rparr>; st = cs_status s
      in case fe_configuration fetched of
           None \<Rightarrow> s\<lparr>cs_status := st\<lparr>cp_failing := True\<rparr>\<rparr>
         | Some v \<Rightarrow>
           let c = vc_committed v; key = vc_signing_key_id v;
               seen = st\<lparr>cp_source_url := Some (vc_source_url v), cp_last_refresh_ms := Some now_ms, cp_failing := True\<rparr>;
               routing = gw_routing (cs_gateway s);
               current_revision = (case control_revision routing of None \<Rightarrow> 0 | Some r \<Rightarrow> r);
               transition = key_transition a (control_signing_key_id routing) key
           in case validate_committed c of
                Inl _ \<Rightarrow> s\<lparr>cs_status := seen\<rparr>
              | Inr _ \<Rightarrow>
                if transition = TrDowngrade then
                  s\<lparr>cs_status := st\<lparr>cp_source_url := Some (vc_source_url v),
                      cp_signing_key_downgrade_rejections := sat_add64 (cp_signing_key_downgrade_rejections st) 1,
                      cp_signature_verifications := sat_add64 (cp_signature_verifications st) 1, cp_failing := True\<rparr>\<rparr>
                else if cm_revision c < current_revision then s\<lparr>cs_status := seen\<rparr>
                else if cm_revision c = current_revision \<and> \<not> same_routing_payload c (cs_applied s) then s\<lparr>cs_status := seen\<rparr>
                else
                  let is_new = (current_revision < cm_revision c);
                      is_rotation = (transition = TrUpgrade \<and> cm_revision c = current_revision \<and> key \<noteq> control_signing_key_id routing)
                  in if is_new \<or> is_rotation then
                       case (if is_new then and_then (and_then (committed_pool_input c) (\<lambda>(ws, policy). build_pool f ws policy (wc_template w)))
                                                     (\<lambda>p. Inr (Some p))
                             else Inr None) of
                         Inl e \<Rightarrow> s\<lparr>cs_status := st\<lparr>cp_failing := True\<rparr>\<rparr>
                       | Inr pool \<Rightarrow>
                         let (s, applied) = apply_verified codec w v pool saved_ms outcome removed s
                         in if applied then confirm v verified_at_ms now s else s
                     else confirm v verified_at_ms now s)"

section \<open>Fetched configurations\<close>

lemma fetch_from_verified:
  "fe_configuration (fetch_from cr a expected answers fetched) = Some v \<Longrightarrow>
     fe_configuration fetched = Some v \<or>
     (verify_committed cr a (vc_committed v) = Inr (vc_signing_key_id v) \<and> cm_cluster_id (vc_committed v) = expected \<and>
      (vc_source_url v, Some (vc_committed v)) \<in> set answers)"
proof (induction cr a expected answers fetched rule: fetch_from.induct)
  case (3 cr a expected url c rest fetched)
  then show ?case by (cases "verify_committed cr a c") (auto split: if_splits)
qed auto

lemma fetch_verified:
  "fe_configuration (fetch_control_configuration cr a expected answers) = Some v \<Longrightarrow>
     verify_committed cr a (vc_committed v) = Inr (vc_signing_key_id v) \<and> cm_cluster_id (vc_committed v) = expected"
  using fetch_from_verified unfolding fetch_control_configuration_def empty_fetch_def by fastforce

lemma wait_verified:
  "wait_for_control_configuration cr a expected deadline e rounds = Some (Inr v) \<Longrightarrow>
     verify_committed cr a (vc_committed v) = Inr (vc_signing_key_id v) \<and> cm_cluster_id (vc_committed v) = expected"
  by (induction cr a expected deadline e rounds rule: wait_for_control_configuration.induct)
    (auto simp: Let_def split: option.splits if_splits dest: fetch_verified)

end
