(* ===== verification/Control_Life.thy ===== *)
theory Control_Life
  imports Control_Sync
begin

text \<open>
  The life of a gateway with a durable snapshot over restarts and crashes, and its invariant: the snapshot file
  is always at least as recent as the configuration the gateway last applied.
\<close>

datatype 'f site = Down snapshot_disk | Up "'f control_state"

definition no_wait_error :: wait_error where
  "no_wait_error = \<lparr>we_mismatch = None, we_failure = None\<rparr>"

text \<open>\<open>life h x\<close>: the gateway is in state \<open>x\<close> after applying the configurations \<open>h\<close>, one entry per start and per poll.  It can crash
  at any time, also while it starts or polls, which leaves the disk as the calls so far have left it.\<close>

inductive life ::
  "('f::linorder) f64_ops \<Rightarrow> ('s, 'k) crypto \<Rightarrow> snapshot_codec \<Rightarrow> ('f, 'k) watcher_config \<Rightarrow> committed list \<Rightarrow> 'f site \<Rightarrow> bool"
  for f cr codec w where
  born: "life f cr codec w [] (Down \<lparr>sd_target = None, sd_temporary = None\<rparr>)"
| started: "life f cr codec w h (Down d) \<Longrightarrow>
    wait_for_control_configuration cr (wc_authenticator w) (wc_expected w) deadline no_wait_error rounds = Some live \<Longrightarrow>
    start_gateway f cr codec w lease_cfg keys queue_cap rc ec True live now_ms saved_ms outcome removed started_ms now d = (d', Inr s) \<Longrightarrow>
    life f cr codec w (h @ [cs_applied s]) (Up s)"
| stopped: "life f cr codec w h (Down d) \<Longrightarrow>
    wait_for_control_configuration cr (wc_authenticator w) (wc_expected w) deadline no_wait_error rounds = Some live \<Longrightarrow>
    start_gateway f cr codec w lease_cfg keys queue_cap rc ec True live now_ms saved_ms outcome removed started_ms now d = (d', r) \<Longrightarrow>
    life f cr codec w h (Down d')"
| polled: "life f cr codec w h (Up s) \<Longrightarrow>
    watch_poll f cr codec w answers now_ms saved_ms outcome removed verified_at_ms now s = s' \<Longrightarrow>
    life f cr codec w (h @ [cs_applied s']) (Up s')"
| interrupted: "life f cr codec w h (Up s) \<Longrightarrow>
    watch_poll f cr codec w answers now_ms saved_ms outcome removed verified_at_ms now s = s' \<Longrightarrow>
    life f cr codec w h (Down (cs_disk s'))"
| served: "life f cr codec w h (Up s) \<Longrightarrow> gw_routing g = gw_routing (cs_gateway s) \<Longrightarrow> life f cr codec w h (Up (s\<lparr>cs_gateway := g\<rparr>))"
| crashed: "life f cr codec w h (Up s) \<Longrightarrow> life f cr codec w h (Down (cs_disk s))"

inductive_cases life_down: "life f cr codec w h (Down d)"

section \<open>The order on configurations\<close>

text \<open>A later configuration has a greater revision or the same content, and a signing key that is not less preferred.\<close>

definition ahead :: "('s, 'k) crypto \<Rightarrow> 'k control_authenticator \<Rightarrow> committed \<Rightarrow> committed \<Rightarrow> bool" where
  "ahead cr a c c' \<longleftrightarrow>
     (\<exists>k k'. verify_committed cr a c = Inr k \<and> verify_committed cr a c' = Inr k' \<and> key_le a k k') \<and>
     (cm_revision c < cm_revision c' \<or> same_routing_payload c c')"

lemma ahead_refl: "auth_ok a \<Longrightarrow> verify_committed cr a c = Inr k \<Longrightarrow> ahead cr a c c"
  by (auto simp: ahead_def intro: key_le_refl verified_key_known)

lemma ahead_trans:
  assumes a: "auth_ok a" and xy: "ahead cr a x y" and yz: "ahead cr a y z"
  shows "ahead cr a x z"
proof -
  obtain k l m where v: "verify_committed cr a x = Inr k" "verify_committed cr a y = Inr l" "verify_committed cr a z = Inr m" and le: "key_le a k l" "key_le a l m"
    using xy yz by (auto simp: ahead_def)
  have "key_le a k m" by (rule key_le_trans[OF verified_key_known[OF a v(1)] verified_key_known[OF a v(3)] le])
  moreover have "cm_revision x < cm_revision z \<or> same_routing_payload x z" using xy yz by (auto simp: ahead_def same_routing_payload_def)
  ultimately show ?thesis using v by (simp add: ahead_def)
qed

lemma aheadI:
  assumes "verify_committed cr a c = Inr k" "verify_committed cr a c' = Inr k'" "key_le a k k'"
    "cm_revision c < cm_revision c' \<or> same_routing_payload c c'"
  shows "ahead cr a c c'"
  using assms by (auto simp: ahead_def)

text \<open>What the disk covers: its snapshot is as recent as \<open>c\<close>.\<close>

definition covers :: "('s, 'k) crypto \<Rightarrow> snapshot_codec \<Rightarrow> ('f, 'k) watcher_config \<Rightarrow> snapshot_disk \<Rightarrow> committed \<Rightarrow> bool" where
  "covers cr codec w d c \<longleftrightarrow>
     (\<exists>s. load codec True d = Inr s \<and> cm_cluster_id (ps_committed s) = wc_expected w \<and> ahead cr (wc_authenticator w) c (ps_committed s))"

lemma covers_save:
  assumes laws: "codec_reads_back codec" "never_full codec" and a: "auth_ok (wc_authenticator w)"
    and save: "save codec ms outcome removed c d = (d', r)" and d: "covers cr codec w d x"
    and c: "cm_cluster_id c = wc_expected w" "ahead cr (wc_authenticator w) x c"
  shows "covers cr codec w d' x"
  using save_load[OF laws save, of True] d c unfolding covers_def by auto

lemma covers_saved:
  assumes laws: "codec_reads_back codec" "never_full codec" and a: "auth_ok (wc_authenticator w)"
    and save: "save codec ms outcome removed c d = (d', Inr s)"
    and c: "cm_cluster_id c = wc_expected w" "verify_committed cr (wc_authenticator w) c = Inr k"
  shows "covers cr codec w d' c"
  using save_load[OF laws save, of True] c ahead_refl[OF a c(2)] unfolding covers_def by auto

section \<open>Starting\<close>

lemma boot_verified:
  assumes boot: "bootstrap_control_configuration cr a expected fp now_ms persisted live = Inr i"
    and live: "\<And>v. live = Inr v \<Longrightarrow> verify_committed cr a (vc_committed v) = Inr (vc_signing_key_id v) \<and> cm_cluster_id (vc_committed v) = expected"
  shows "verify_committed cr a (ic_committed i) = Inr (ic_signing_key_id i) \<and> cm_cluster_id (ic_committed i) = expected \<and>
    (ic_source i = Disk \<longrightarrow> (\<exists>s. persisted = Some s \<and> ic_committed i = ps_committed s))"
proof -
  have disk: "verify_committed cr a (ic_committed i) = Inr (ic_signing_key_id i) \<and> cm_cluster_id (ic_committed i) = expected \<and>
      (\<exists>s. persisted = Some s \<and> ic_committed i = ps_committed s)"
    if "bootstrap_from_disk cr a expected fp now_ms persisted e = Inr i" for e
    using that by (auto simp: bootstrap_from_disk_def validate_expected_control_cluster_def initial_from_disk_def and_then_Inr_iff
        split: option.splits sum.splits if_splits)
  have before: "verify_committed cr a (ic_committed i) = Inr (ic_signing_key_id i) \<and> cm_cluster_id (ic_committed i) = expected \<and>
      ic_committed i = ps_committed s" if "disk_before_live cr a expected fp now_ms s c key = Some (Inr i)" for s c key
    using that by (cases a) (auto simp: disk_before_live_def Let_def and_then_Inr_iff initial_from_disk_def auth_required_def verify_committed_def
        split: option.splits sum.splits if_splits)
  show ?thesis
  proof (cases live)
    case (Inl e)
    then show ?thesis using boot disk by (auto simp: bootstrap_control_configuration_def)
  next
    case (Inr v)
    then show ?thesis using boot disk before live[OF Inr]
      by (auto simp: bootstrap_control_configuration_def bind_eq_Some_conv split: sum.splits option.splits)
  qed
qed

text \<open>With a durable snapshot that verifies, the start is never behind it.\<close>

lemma boot_ahead:
  assumes boot: "bootstrap_control_configuration cr a expected fp now_ms (Some s) live = Inr i" and a: "auth_ok a"
    and live: "\<And>v. live = Inr v \<Longrightarrow> verify_committed cr a (vc_committed v) = Inr (vc_signing_key_id v) \<and> cm_cluster_id (vc_committed v) = expected"
    and s: "verify_committed cr a (ps_committed s) = Inr k" "cm_cluster_id (ps_committed s) = expected"
  shows "ahead cr a (ps_committed s) (ic_committed i)"
proof (cases "ic_source i")
  case Disk
  then have "ic_committed i = ps_committed s" using boot_verified[OF boot live] by auto
  then show ?thesis using ahead_refl[OF a s(1)] by simp
next
  case Live
  have nd: "ic_source i \<noteq> Live" if "bootstrap_from_disk cr a expected fp now_ms (Some s) e = Inr i" for e
    using that by (auto simp: bootstrap_from_disk_def initial_from_disk_def and_then_Inr_iff split: option.splits sum.splits if_splits)
  have nb: "ic_source i \<noteq> Live" if "disk_before_live cr a expected fp now_ms s c key = Some (Inr i)" for c key
    using that by (auto simp: disk_before_live_def Let_def and_then_Inr_iff initial_from_disk_def split: sum.splits if_splits)
  obtain v where v: "live = Inr v" "ic_committed i = vc_committed v"
    "disk_before_live cr a expected fp now_ms s (vc_committed v) (vc_signing_key_id v) = None"
    using boot Live nd nb by (auto simp: bootstrap_control_configuration_def split: sum.splits option.splits)
  have k: "key_transition a k (vc_signing_key_id v) \<noteq> TrDowngrade" "\<not> cm_revision (vc_committed v) < cm_revision (ps_committed s)"
    "cm_revision (ps_committed s) = cm_revision (vc_committed v) \<longrightarrow> same_routing_payload (ps_committed s) (vc_committed v)"
    using v(3) s by (auto simp: disk_before_live_def Let_def split: if_splits)
  show ?thesis using aheadI[OF s(1)] live[OF v(1)] k v(2) by (auto simp: key_le_def)
qed

lemma built_routing: "build_runtime p routing l keys qc rc ec = Some g \<Longrightarrow> gw_routing g = routing\<lparr>rt_pool := 0\<rparr>"
  by (auto simp: build_runtime_def split: sum.splits)

lemma built_committed:
  "build_runtime p (committed_authenticated k cid key n term) l keys qc rc ec = Some g \<Longrightarrow>
     control_revision (gw_routing g) = Some n \<and> control_signing_key_id (gw_routing g) = key"
  by (auto simp: committed_authenticated_def dest!: built_routing)

definition start_effect where
  "start_effect codec w i saved_ms outcome removed d d' r \<longleftrightarrow>
     (d' = d \<and> (ic_source i = Live \<longrightarrow> (\<exists>e. r = Inl e)) \<or>
      (ic_source i = Live \<and> (\<exists>x. save codec saved_ms outcome removed (ic_committed i) d = (d', x) \<and> ((\<exists>e. x = Inl e) \<longrightarrow> (\<exists>e. r = Inl e))))) \<and>
     (\<forall>s. r = Inr s \<longrightarrow> cs_applied s = ic_committed i \<and> cs_disk s = d' \<and>
        control_revision (gw_routing (cs_gateway s)) = Some (cm_revision (ic_committed i)) \<and>
        control_signing_key_id (gw_routing (cs_gateway s)) = ic_signing_key_id i)"

lemma start_cases:
  assumes start: "start_gateway f cr codec w lease_cfg keys queue_cap rc ec True live now_ms saved_ms outcome removed started_ms now d = (d', r)"
    and store: "wc_store w"
  shows "d' = d \<and> (\<exists>e. r = Inl e) \<or>
    (\<exists>i. bootstrap_control_configuration cr (wc_authenticator w) (wc_expected w) (wc_freshness w) now_ms
           (case load codec True d of Inl _ \<Rightarrow> None | Inr s \<Rightarrow> Some s) live = Inr i \<and>
         start_effect codec w i saved_ms outcome removed d d' r)"
proof -
  define pers where "pers = (case load codec True d of Inl _ \<Rightarrow> None | Inr s \<Rightarrow> Some s)"
  define boot where "boot = bootstrap_control_configuration cr (wc_authenticator w) (wc_expected w) (wc_freshness w) now_ms pers live"
  note start' = start[unfolded start_gateway_def if_P[OF store] Let_def pers_def[symmetric] boot_def[symmetric]]
  show ?thesis
  proof (cases boot)
    case (Inl e)
    then show ?thesis using start' by auto
  next
    case (Inr i)
    define pool where "pool = and_then (committed_pool_input (ic_committed i)) (\<lambda>(ws, policy). build_pool f ws policy (wc_template w))"
    have "d' = d \<and> (\<exists>e. r = Inl e) \<or> start_effect codec w i saved_ms outcome removed d d' r"
    proof (cases pool)
      case (Inl e)
      then show ?thesis using start' Inr by (auto simp: pool_def[symmetric])
    next
      case p: (Inr p)
      obtain d1 x where x: "save codec saved_ms outcome removed (ic_committed i) d = (d1, x)" by (cases "save codec saved_ms outcome removed (ic_committed i) d")
      show ?thesis
        using start' Inr p x unfolding start_effect_def
        by (cases x; cases "ic_source i") (auto simp: pool_def[symmetric] store split: option.splits dest!: built_committed)
    qed
    then show ?thesis using Inr unfolding boot_def pers_def by blast
  qed
qed


section \<open>Polling\<close>

definition unchanged :: "'f control_state \<Rightarrow> 'f control_state \<Rightarrow> bool" where
  "unchanged s s' \<longleftrightarrow> cs_applied s' = cs_applied s \<and> cs_disk s' = cs_disk s \<and> gw_routing (cs_gateway s') = gw_routing (cs_gateway s)"

definition in_force :: "('s, 'k) crypto \<Rightarrow> ('f, 'k) watcher_config \<Rightarrow> 'f control_state \<Rightarrow> bool" where
  "in_force cr w s \<longleftrightarrow>
     control_revision (gw_routing (cs_gateway s)) = Some (cm_revision (cs_applied s)) \<and>
     verify_committed cr (wc_authenticator w) (cs_applied s) = Inr (control_signing_key_id (gw_routing (cs_gateway s))) \<and>
     cm_cluster_id (cs_applied s) = wc_expected w"

lemma unchanged_confirm [simp]: "unchanged s (confirm v ms t s)"
  by (simp add: unchanged_def confirm_def Let_def)

lemma unchanged_status [simp]: "unchanged s (s\<lparr>cs_status := st\<rparr>)"
  by (simp add: unchanged_def)

lemma unchanged_confirm_status [simp]: "unchanged s (confirm v ms t (s\<lparr>cs_status := st\<rparr>))"
  by (simp add: unchanged_def confirm_def Let_def)

text \<open>A poll leaves everything as it is, or tries to apply a configuration that is ahead of the one in force.\<close>

lemma apply_effect:
  assumes "apply_verified codec w v pool ms outcome removed s = (s', ok)" "wc_store w"
  shows "\<exists>d x. save codec ms outcome removed (vc_committed v) (cs_disk s) = (d, x) \<and> cs_disk s' = d \<and>
    (if ok then (\<exists>y. x = Inr y) \<and> cs_applied s' = vc_committed v \<and>
        control_revision (gw_routing (cs_gateway s')) = Some (cm_revision (vc_committed v)) \<and>
        control_signing_key_id (gw_routing (cs_gateway s')) = vc_signing_key_id v
     else cs_applied s' = cs_applied s \<and> cs_gateway s' = cs_gateway s)"
proof -
  obtain d x where x: "save codec ms outcome removed (vc_committed v) (cs_disk s) = (d, x)" by (cases "save codec ms outcome removed (vc_committed v) (cs_disk s)")
  then show ?thesis using assms
    by (cases x; cases pool) (auto simp: apply_verified_def Let_def install_routing_def rekey_routing_def committed_authenticated_def)
qed

definition acceptable where
  "acceptable cr codec w v s \<longleftrightarrow>
     verify_committed cr (wc_authenticator w) (vc_committed v) = Inr (vc_signing_key_id v) \<and> cm_cluster_id (vc_committed v) = wc_expected w \<and>
     key_transition (wc_authenticator w) (control_signing_key_id (gw_routing (cs_gateway s))) (vc_signing_key_id v) \<noteq> TrDowngrade \<and>
     (let r = (case control_revision (gw_routing (cs_gateway s)) of None \<Rightarrow> 0 | Some r \<Rightarrow> r)
      in r < cm_revision (vc_committed v) \<or> r = cm_revision (vc_committed v) \<and> same_routing_payload (vc_committed v) (cs_applied s))"

lemma poll_effect:
  fixes s :: "('f::linorder) control_state"
  assumes poll: "watch_poll f cr codec w answers now_ms saved_ms outcome removed verified_at_ms now s = s'"
  shows "(\<exists>st. s' = s\<lparr>cs_status := st\<rparr>) \<or> (\<exists>st v. s' = confirm v verified_at_ms now (s\<lparr>cs_status := st\<rparr>)) \<or>
    (\<exists>st v pool s1 ok. acceptable cr codec w v s \<and> (\<forall>p. pool = Some p \<longrightarrow> (\<exists>ws policy. build_pool f ws policy (wc_template w) = Inr p)) \<and>
       apply_verified codec w v pool saved_ms outcome removed (s\<lparr>cs_status := st\<rparr>) = (s1, ok) \<and>
       s' = (if ok then confirm v verified_at_ms now s1 else s1))"
proof -
  define fetched where "fetched = fetch_control_configuration cr (wc_authenticator w) (wc_expected w) answers"
  define s0 where "s0 = s\<lparr>cs_status := note_rejections fetched (cs_status s)\<rparr>"
  have st: "s0\<lparr>cs_status := st\<rparr> = s\<lparr>cs_status := st\<rparr>" for st by (simp add: s0_def)
  note poll' = poll[unfolded watch_poll_def Let_def fetched_def[symmetric] s0_def[symmetric]]
  show ?thesis
  proof (cases "fe_configuration fetched")
    case None
    then show ?thesis using poll' st by auto
  next
    case (Some v)
    define routing where "routing = gw_routing (cs_gateway s0)"
    define cur where "cur = (case control_revision routing of None \<Rightarrow> 0 | Some r \<Rightarrow> r)"
    define tr where "tr = key_transition (wc_authenticator w) (control_signing_key_id routing) (vc_signing_key_id v)"
    define pool where "pool = (if cur < cm_revision (vc_committed v) then
       and_then (and_then (committed_pool_input (vc_committed v)) (\<lambda>(ws, policy). build_pool f ws policy (wc_template w))) (\<lambda>p. Inr (Some p)) else Inr None)"
    have prov: "\<exists>ws policy. build_pool f ws policy (wc_template w) = Inr p" if "pool = Inr (Some p)" for p
      using that by (auto simp: pool_def and_then_Inr_iff split: if_splits)
    note v = fetch_verified[OF Some[unfolded fetched_def]]
    note poll'' = poll'[unfolded Some option.case routing_def[symmetric] cur_def[symmetric] tr_def[symmetric] pool_def[symmetric]]
    have same: "gw_routing (cs_gateway s) = routing" "cs_applied s = cs_applied s0" by (simp_all add: s0_def routing_def)
    consider st where "s' = s0\<lparr>cs_status := st\<rparr>" | "s' = confirm v verified_at_ms now s0"
      | q s1 ok where "tr \<noteq> TrDowngrade" "\<not> cm_revision (vc_committed v) < cur"
        "\<not> (cm_revision (vc_committed v) = cur \<and> \<not> same_routing_payload (vc_committed v) (cs_applied s0))" "pool = Inr q"
        "apply_verified codec w v q saved_ms outcome removed s0 = (s1, ok)" "s' = (if ok then confirm v verified_at_ms now s1 else s1)"
      using poll'' by (auto split: sum.splits if_splits prod.splits)
    then show ?thesis
    proof cases
      case 1
      then show ?thesis using st by blast
    next
      case 2
      then show ?thesis unfolding s0_def by blast
    next
      case 3
      have "acceptable cr codec w v s" using 3(1-3) v unfolding acceptable_def same cur_def[symmetric] tr_def[symmetric] Let_def by auto
      moreover have "\<forall>p. q = Some p \<longrightarrow> (\<exists>ws policy. build_pool f ws policy (wc_template w) = Inr p)" using prov 3(4) by blast
      ultimately show ?thesis using 3(5,6) unfolding s0_def by blast
    qed
  qed
qed

lemma acceptable_ahead:
  assumes "in_force cr w s" "acceptable cr codec w v s"
  shows "ahead cr (wc_authenticator w) (cs_applied s) (vc_committed v)"
  using assms by (auto simp: in_force_def acceptable_def ahead_def key_le_def Let_def intro: same_payload_sym)

section \<open>The invariant\<close>

fun settled_at :: "('s, 'k) crypto \<Rightarrow> snapshot_codec \<Rightarrow> ('f, 'k) watcher_config \<Rightarrow> committed list \<Rightarrow> 'f site \<Rightarrow> bool" where
  "settled_at cr codec w h (Down d) \<longleftrightarrow> sorted_wrt (ahead cr (wc_authenticator w)) h \<and> (h \<noteq> [] \<longrightarrow> covers cr codec w d (last h))"
| "settled_at cr codec w h (Up s) \<longleftrightarrow> sorted_wrt (ahead cr (wc_authenticator w)) h \<and> h \<noteq> [] \<and> last h = cs_applied s \<and>
     covers cr codec w (cs_disk s) (cs_applied s) \<and> in_force cr w s"

lemma sorted_ahead_snoc:
  assumes a: "auth_ok a" and h: "sorted_wrt (ahead cr a) h" and c: "h \<noteq> [] \<longrightarrow> ahead cr a (last h) c"
  shows "sorted_wrt (ahead cr a) (h @ [c])"
proof (cases h rule: rev_cases)
  case (snoc xs x)
  then have "\<forall>y\<in>set xs. ahead cr a y x" using h by (simp add: sorted_wrt_append)
  then have "\<forall>y\<in>set h. ahead cr a y c" using c snoc by (auto intro: ahead_trans[OF a])
  then show ?thesis using h by (simp add: sorted_wrt_append)
qed simp

lemma start_settled:
  assumes laws: "codec_reads_back codec" "never_full codec" and a: "auth_ok (wc_authenticator w)" and store: "wc_store w"
    and h: "settled_at cr codec w h (Down d)"
    and live: "wait_for_control_configuration cr (wc_authenticator w) (wc_expected w) deadline no_wait_error rounds = Some live"
    and start: "start_gateway f cr codec w lease_cfg keys queue_cap rc ec True live now_ms saved_ms outcome removed started_ms now d = (d', r)"
  shows "settled_at cr codec w h (Down d') \<and> (\<forall>s. r = Inr s \<longrightarrow> settled_at cr codec w (h @ [cs_applied s]) (Up s))"
  using start_cases[OF start store]
proof
  assume "d' = d \<and> (\<exists>e. r = Inl e)"
  then show ?thesis using h by auto
next
  assume "\<exists>i. bootstrap_control_configuration cr (wc_authenticator w) (wc_expected w) (wc_freshness w) now_ms
           (case load codec True d of Inl _ \<Rightarrow> None | Inr s \<Rightarrow> Some s) live = Inr i \<and>
         start_effect codec w i saved_ms outcome removed d d' r"
  then obtain i where boot: "bootstrap_control_configuration cr (wc_authenticator w) (wc_expected w) (wc_freshness w) now_ms
           (case load codec True d of Inl _ \<Rightarrow> None | Inr s \<Rightarrow> Some s) live = Inr i" and eff: "start_effect codec w i saved_ms outcome removed d d' r"
    by blast
  have lv: "verify_committed cr (wc_authenticator w) (vc_committed v) = Inr (vc_signing_key_id v) \<and> cm_cluster_id (vc_committed v) = wc_expected w"
    if "live = Inr v" for v using wait_verified live that by blast
  note i = boot_verified[OF boot lv]
  let ?c = "ic_committed i" and ?a = "wc_authenticator w"
  have ah: "ahead cr ?a (last h) ?c" if "h \<noteq> []"
  proof -
    obtain s where s: "load codec True d = Inr s" "cm_cluster_id (ps_committed s) = wc_expected w" "ahead cr ?a (last h) (ps_committed s)"
      using h \<open>h \<noteq> []\<close> by (auto simp: covers_def)
    then obtain k where k: "verify_committed cr ?a (ps_committed s) = Inr k" by (auto simp: ahead_def)
    have "bootstrap_control_configuration cr ?a (wc_expected w) (wc_freshness w) now_ms (Some s) live = Inr i" using boot s(1) by simp
    from boot_ahead[OF this a lv k s(2)] show ?thesis using ahead_trans[OF a s(3)] by blast
  qed
  have ii: "verify_committed cr ?a ?c = Inr (ic_signing_key_id i)" "cm_cluster_id ?c = wc_expected w" using i by auto
  have down: "settled_at cr codec w h (Down d')"
    using eff h covers_save[OF laws a _ _ ii(2) ah] by (cases "h = []") (auto simp: start_effect_def)
  have disk: "covers cr codec w d' ?c" if r: "r = Inr s" for s
  proof (cases "ic_source i")
    case Live
    then obtain y where y: "save codec saved_ms outcome removed ?c d = (d', y)" "\<nexists>e. y = Inl e" using eff r by (auto simp: start_effect_def)
    then obtain x where "save codec saved_ms outcome removed ?c d = (d', Inr x)" by (cases y) auto
    from covers_saved[OF laws a this ii(2,1)] show ?thesis .
  next
    case Disk
    then have "d' = d" using eff by (auto simp: start_effect_def)
    then show ?thesis using i Disk ahead_refl[OF a ii(1)] ii(2) by (auto simp: covers_def split: sum.splits)
  qed
  have "settled_at cr codec w (h @ [cs_applied s]) (Up s)" if r: "r = Inr s" for s
    using eff disk[OF r] ii sorted_ahead_snoc[OF a, of cr h ?c] ah h r by (auto simp: start_effect_def in_force_def)
  then show ?thesis using down by blast
qed

lemma applied_settled:
  fixes s :: "('f::linorder) control_state"
  assumes laws: "codec_reads_back codec" "never_full codec" and a: "auth_ok (wc_authenticator w)" and store: "wc_store w"
    and h: "settled_at cr codec w h (Up s)" and v: "acceptable cr codec w v s"
    and ap: "apply_verified codec w v pool saved_ms outcome removed (s\<lparr>cs_status := st\<rparr>) = (s1, ok)"
    and s': "s' = (if ok then confirm v verified_at_ms now s1 else s1)"
  shows "settled_at cr codec w (h @ [cs_applied s']) (Up s') \<and> covers cr codec w (cs_disk s') (last h)"
proof -
  have f: "in_force cr w s" "last h = cs_applied s" "h \<noteq> []" "covers cr codec w (cs_disk s) (last h)" using h by auto
  let ?c = "vc_committed v"
  obtain d x where x: "save codec saved_ms outcome removed ?c (cs_disk s) = (d, x)" "cs_disk s1 = d"
    "if ok then (\<exists>y. x = Inr y) \<and> cs_applied s1 = ?c \<and> control_revision (gw_routing (cs_gateway s1)) = Some (cm_revision ?c) \<and>
        control_signing_key_id (gw_routing (cs_gateway s1)) = vc_signing_key_id v
     else cs_applied s1 = cs_applied s \<and> cs_gateway s1 = cs_gateway s"
    using apply_effect[OF ap store] by (cases ok) auto
  have ah: "ahead cr (wc_authenticator w) (last h) ?c" using acceptable_ahead[OF f(1) v] f(2) by simp
  have c: "verify_committed cr (wc_authenticator w) ?c = Inr (vc_signing_key_id v)" "cm_cluster_id ?c = wc_expected w" using v by (auto simp: acceptable_def)
  have u: "unchanged s1 s'" using s' by (simp add: unchanged_def) (simp add: confirm_def Let_def)
  have cov: "covers cr codec w d (last h)" by (rule covers_save[OF laws a x(1) f(4) c(2) ah])
  show ?thesis
  proof (cases ok)
    case True
    then obtain y where "x = Inr y" using x(3) by auto
    from covers_saved[OF laws a x(1)[unfolded this] c(2,1)] have "covers cr codec w d ?c" .
    then show ?thesis using True x u c cov h sorted_ahead_snoc[OF a, of cr h ?c] ah by (simp add: unchanged_def in_force_def)
  next
    case False
    then show ?thesis using x u cov h f sorted_ahead_snoc[OF a, of cr h "cs_applied s"] ahead_refl[OF a] by (auto simp: unchanged_def in_force_def)
  qed
qed

lemma poll_settled:
  fixes s :: "('f::linorder) control_state"
  assumes laws: "codec_reads_back codec" "never_full codec" and a: "auth_ok (wc_authenticator w)" and store: "wc_store w"
    and h: "settled_at cr codec w h (Up s)"
    and poll: "watch_poll f cr codec w answers now_ms saved_ms outcome removed verified_at_ms now s = s'"
  shows "settled_at cr codec w (h @ [cs_applied s']) (Up s') \<and> covers cr codec w (cs_disk s') (last h)"
proof -
  have f: "in_force cr w s" "last h = cs_applied s" "h \<noteq> []" "covers cr codec w (cs_disk s) (last h)" using h by auto
  have same: ?thesis if "unchanged s s'"
    using that h sorted_ahead_snoc[OF a, of cr h "cs_applied s"] ahead_refl[OF a] f by (auto simp: unchanged_def in_force_def)
  consider "unchanged s s'"
    | st v pool s1 ok where "acceptable cr codec w v s" "apply_verified codec w v pool saved_ms outcome removed (s\<lparr>cs_status := st\<rparr>) = (s1, ok)"
        "s' = (if ok then confirm v verified_at_ms now s1 else s1)"
    using poll_effect[OF poll] by (auto split: if_splits)
  then show ?thesis
  proof cases
    case 1
    then show ?thesis by (rule same)
  next
    case (2 st v pool s1 ok)
    then show ?thesis by (rule applied_settled[OF laws a store h])
  qed
qed

lemma life_settled:
  assumes "life f cr codec w h x" and laws: "codec_reads_back codec" "never_full codec" and a: "auth_ok (wc_authenticator w)" and store: "wc_store w"
  shows "settled_at cr codec w h x"
  using assms(1)
proof (induction rule: life.induct)
  case (started h d deadline rounds live lease_cfg keys queue_cap rc ec now_ms saved_ms outcome removed started_ms now d' s)
  then show ?case using start_settled[OF laws a store started(4,2,3)] by blast
next
  case (stopped h d deadline rounds live lease_cfg keys queue_cap rc ec now_ms saved_ms outcome removed started_ms now d' r)
  then show ?case using start_settled[OF laws a store stopped(4,2,3)] by blast
next
  case (polled h s answers now_ms saved_ms outcome removed verified_at_ms now s')
  then show ?case using poll_settled[OF laws a store polled(3,2)] by blast
next
  case (interrupted h s answers now_ms saved_ms outcome removed verified_at_ms now s')
  then show ?case using poll_settled[OF laws a store interrupted(3,2)] by simp
next
  case (served h s g)
  then show ?case by (simp add: in_force_def)
qed auto

end
