(* ===== verification/Gateway_Accounting.thy ===== *)
theory Gateway_Accounting
  imports Gateway_Requests
begin

text \<open>
  The gateway's resources have one owner each.  \<open>holding\<close> describes a gateway while one request runs: the lease, permit,
  waiting-room slot and reservation that request owns, beside what the requests under way own in their
  phases.  Every piece of the handler is a triple on it, and every reachable gateway is at \<open>rest\<close>.
\<close>

section \<open>Pools up to the order of their holders\<close>

definition pool_at :: "('f::linorder) f64_ops \<Rightarrow> 'f worker_pool \<Rightarrow> worker_lease multiset \<Rightarrow> nat multiset \<Rightarrow> bool" where
  "pool_at f p L E \<longleftrightarrow> (\<exists>ls es. pool_reachable f (p, ls, es) \<and> mset ls = L \<and> mset es = E)"

lemma pool_at_fresh: "from_config f ws rc cc = Inr p \<Longrightarrow> pool_at f p {#} {#}"
  unfolding pool_at_def using pool_reachable.created by fastforce

lemma pool_at_choose:
  assumes "pool_at f p L E" "size L < u64_max"
    and "try_choose_for_key f clock key p = (p', r) \<or> try_choose_retry clock attempted p = (p', r)"
  shows "pool_at f p' (case r of None \<Rightarrow> L | Some l \<Rightarrow> add_mset l L) E"
proof -
  obtain ls es where s: "pool_reachable f (p, ls, es)" "mset ls = L" "mset es = E" using assms(1) by (auto simp: pool_at_def)
  then have n: "length ls < u64_max" using assms(2) by auto
  have "pool_reachable f (p', (case r of None \<Rightarrow> ls | Some l \<Rightarrow> l # ls), es)"
    using assms(3) pool_reachable.chosen[OF s(1) n] pool_reachable.retried[OF s(1) n] by blast
  then show ?thesis using s unfolding pool_at_def by (cases r) fastforce+
qed

lemma pool_at_reserve:
  assumes "pool_at f p (add_mset l L) E" "try_reserve_execution l p = (p', b)"
  shows "pool_at f p' (add_mset l L) (if b then add_mset (lease_worker l) E else E)"
proof -
  obtain ls es where s: "pool_reachable f (p, ls, es)" "mset ls = add_mset l L" "mset es = E" using assms(1) by (auto simp: pool_at_def)
  then have "l \<in> set ls" by (metis set_mset_mset union_single_eq_member)
  from pool_reachable.reserved[OF s(1) this assms(2)] show ?thesis using s unfolding pool_at_def by (cases b) fastforce+
qed

lemma pool_at_release:
  assumes "pool_at f p L (add_mset i E)"
  shows "pool_at f (release_execution i p) L E"
proof -
  obtain ls es where s: "pool_reachable f (p, ls, es)" "mset ls = L" "mset es = add_mset i E" using assms by (auto simp: pool_at_def)
  then have "i \<in> set es" by (metis set_mset_mset union_single_eq_member)
  from pool_reachable.released[OF s(1) this] show ?thesis using s unfolding pool_at_def by fastforce
qed

lemma pool_at_lease_call:
  assumes "pool_at f p (add_mset l L) E"
    "record_circuit_success now l p = (p', l') \<or> record_circuit_failure now l p = (p', l') \<or> observe_duration f latency l p = (p', l')"
  shows "pool_at f p' (add_mset l' L) E" "lease_worker l' = lease_worker l"
proof -
  obtain ls es where s: "pool_reachable f (p, ls, es)" "mset ls = add_mset l L" "mset es = E" using assms(1) by (auto simp: pool_at_def)
  then have l: "l \<in> set ls" by (metis set_mset_mset union_single_eq_member)
  have "pool_reachable f (p', l' # remove1 l ls, es)"
    using assms(2) pool_reachable.succeeded[OF s(1) l] pool_reachable.failed[OF s(1) l] pool_reachable.observed[OF s(1) l] by blast
  then show "pool_at f p' (add_mset l' L) E" using s unfolding pool_at_def by fastforce
  show "lease_worker l' = lease_worker l" using assms(2) lease_calls_quiet by blast
qed

lemma pool_at_drop:
  assumes "pool_at f p (add_mset l L) E"
  shows "pool_at f (drop_lease l p) L E"
proof -
  obtain ls es where s: "pool_reachable f (p, ls, es)" "mset ls = add_mset l L" "mset es = E" using assms by (auto simp: pool_at_def)
  then have "l \<in> set ls" by (metis set_mset_mset union_single_eq_member)
  from pool_reachable.dropped[OF s(1) this] show ?thesis using s unfolding pool_at_def by fastforce
qed

lemma pool_at_viewed: "pool_at f p L E \<Longrightarrow> pool_at f (fst (snapshots now p)) L E"
  unfolding pool_at_def using pool_reachable.viewed by blast

section \<open>What the requests own\<close>

definition ph_leases :: "phase \<Rightarrow> worker_lease multiset" where
  "ph_leases ph = (case ph of Queueing l \<Rightarrow> {#l#} | Sending l _ \<Rightarrow> {#l#} | Streaming l _ _ \<Rightarrow> {#l#} | _ \<Rightarrow> {#})"

definition ph_permits :: "phase \<Rightarrow> nat multiset" where
  "ph_permits ph = (case ph of Sending l _ \<Rightarrow> {#lease_worker l#} | Streaming l _ _ \<Rightarrow> {#lease_worker l#} | _ \<Rightarrow> {#})"

definition ph_waiting :: "phase \<Rightarrow> nat" where
  "ph_waiting ph = (case ph of Queueing _ \<Rightarrow> 1 | _ \<Rightarrow> 0)"

definition ph_executing :: "phase \<Rightarrow> nat" where
  "ph_executing ph = (case ph of Sending _ _ \<Rightarrow> 1 | Streaming _ _ _ \<Rightarrow> 1 | _ \<Rightarrow> 0)"

definition ph_reserved :: "phase \<Rightarrow> nat" where
  "ph_reserved ph = (case ph of Backing_off _ \<Rightarrow> 1 | _ \<Rightarrow> 0)"

definition at_pool :: "nat \<Rightarrow> request \<times> phase \<Rightarrow> bool" where
  "at_pool k x \<longleftrightarrow> rt_pool (rq_routing (fst x)) = k"

definition leases_at :: "nat \<Rightarrow> (request \<times> phase) multiset \<Rightarrow> worker_lease multiset" where
  "leases_at k M = (\<Sum>x\<in>#filter_mset (at_pool k) M. ph_leases (snd x))"

definition permits_at :: "nat \<Rightarrow> (request \<times> phase) multiset \<Rightarrow> nat multiset" where
  "permits_at k M = (\<Sum>x\<in>#filter_mset (at_pool k) M. ph_permits (snd x))"

definition waiting_in :: "(request \<times> phase) multiset \<Rightarrow> nat" where
  "waiting_in M = (\<Sum>x\<in>#M. ph_waiting (snd x))"

definition executing_in :: "(request \<times> phase) multiset \<Rightarrow> nat" where
  "executing_in M = (\<Sum>x\<in>#M. ph_executing (snd x))"

definition reserved_in :: "(request \<times> phase) multiset \<Rightarrow> nat" where
  "reserved_in M = (\<Sum>x\<in>#M. ph_reserved (snd x))"

lemmas ph_defs = ph_leases_def ph_permits_def ph_waiting_def ph_executing_def ph_reserved_def

lemma owned_empty [simp]:
  "leases_at k {#} = {#}" "permits_at k {#} = {#}" "waiting_in {#} = 0" "executing_in {#} = 0" "reserved_in {#} = 0"
  by (simp_all add: leases_at_def permits_at_def waiting_in_def executing_in_def reserved_in_def)

lemma owned_add [simp]:
  "leases_at k (add_mset x M) = (if at_pool k x then ph_leases (snd x) else {#}) + leases_at k M"
  "permits_at k (add_mset x M) = (if at_pool k x then ph_permits (snd x) else {#}) + permits_at k M"
  "waiting_in (add_mset x M) = ph_waiting (snd x) + waiting_in M"
  "executing_in (add_mset x M) = ph_executing (snd x) + executing_in M"
  "reserved_in (add_mset x M) = ph_reserved (snd x) + reserved_in M"
  by (simp_all add: leases_at_def permits_at_def waiting_in_def executing_in_def reserved_in_def)

lemma ph_bounds: "size (ph_leases ph) \<le> 1" "ph_waiting ph + ph_executing ph \<le> 1" "ph_waiting ph + ph_executing ph + ph_reserved ph \<le> 1"
  by (cases ph; simp add: ph_defs)+

lemma leases_at_size: "size (leases_at k M) \<le> size M"
proof (induction M)
  case (add x M)
  then show ?case using ph_bounds(1)[of "snd x"] by (simp split: if_splits)
qed simp

lemma owners_bound: "waiting_in M + executing_in M \<le> size M"
proof (induction M)
  case (add x M)
  then show ?case using ph_bounds(2)[of "snd x"] by simp
qed simp

section \<open>The invariant\<close>

definition rest :: "('f::linorder) f64_ops \<Rightarrow> nat \<Rightarrow> 'f gateway \<Rightarrow> (request \<times> phase) multiset \<Rightarrow> bool" where
  "rest f n g M \<longleftrightarrow>
     rt_pool (gw_routing g) < length (gw_pools g) \<and> (\<forall>x\<in>#M. rt_pool (rq_routing (fst x)) < length (gw_pools g)) \<and>
     (\<forall>j<length (gw_pools g). pool_at f (gw_pools g ! j) (leases_at j M) (permits_at j M)) \<and>
     admission_ok (size M) (waiting_in M) (executing_in M) (gw_admission g) \<and>
     (\<exists>m\<le>n. retry_reachable m (gw_resilience g, [], reserved_in M))"

definition holding ::
  "('f::linorder) f64_ops \<Rightarrow> nat \<Rightarrow> nat \<Rightarrow> worker_lease multiset \<Rightarrow> nat multiset \<Rightarrow> nat \<Rightarrow> nat \<Rightarrow> nat
     \<Rightarrow> (request \<times> phase) multiset \<Rightarrow> 'f gateway \<Rightarrow> bool" where
  "holding f n k L E w e b M g \<longleftrightarrow>
     rt_pool (gw_routing g) < length (gw_pools g) \<and> k < length (gw_pools g) \<and>
     (\<forall>x\<in>#M. rt_pool (rq_routing (fst x)) < length (gw_pools g)) \<and>
     (\<forall>j<length (gw_pools g). pool_at f (gw_pools g ! j) ((if j = k then L else {#}) + leases_at j M) ((if j = k then E else {#}) + permits_at j M)) \<and>
     admission_ok (Suc (size M)) (w + waiting_in M) (e + executing_in M) (gw_admission g) \<and>
     (\<exists>m\<le>n. retry_reachable m (gw_resilience g, [], b + reserved_in M))"

lemma rest_add:
  "rest f n g (add_mset (q, ph) M) \<longleftrightarrow>
   holding f n (rt_pool (rq_routing q)) (ph_leases ph) (ph_permits ph) (ph_waiting ph) (ph_executing ph) (ph_reserved ph) M g"
proof -
  have a: "at_pool j (q, ph) \<longleftrightarrow> j = rt_pool (rq_routing q)" for j by (auto simp: at_pool_def)
  show ?thesis unfolding rest_def holding_def owned_add a snd_conv by auto
qed

lemma rest_mono: "rest f n g M \<Longrightarrow> n \<le> n' \<Longrightarrow> rest f n' g M"
  unfolding rest_def by (meson order_trans)

lemma holding_mono: "holding f n k L E w e b M g \<Longrightarrow> n \<le> n' \<Longrightarrow> holding f n' k L E w e b M g"
  unfolding holding_def by (meson order_trans)

lemma holdingD:
  assumes "holding f n k L E w e b M g"
  shows "k < length (gw_pools g)" "pool_at f (gw_pools g ! k) (L + leases_at k M) (E + permits_at k M)"
    "admission_ok (Suc (size M)) (w + waiting_in M) (e + executing_in M) (gw_admission g)"
    "\<exists>m\<le>n. retry_reachable m (gw_resilience g, [], b + reserved_in M)"
  using assms by (auto simp: holding_def)

lemma holding_set_pool:
  assumes "holding f n k L E w e b M g" "rt_pool (rq_routing q) = k" "pool_at f p (L' + leases_at k M) (E' + permits_at k M)"
  shows "holding f n k L' E' w e b M (set_pool q p g)"
  using assms by (auto simp: holding_def set_pool_def nth_list_update)

lemma holding_admission:
  assumes "holding f n k L E w e b M g" "admission_ok (Suc (size M)) (w' + waiting_in M) (e' + executing_in M) a"
  shows "holding f n k L E w' e' b M (g\<lparr>gw_admission := a\<rparr>)"
  using assms by (simp add: holding_def)

lemma holding_resilience:
  assumes "holding f n k L E w e b M g" "\<exists>m\<le>n. retry_reachable m (c, [], b' + reserved_in M)"
  shows "holding f n k L E w e b' M (g\<lparr>gw_resilience := c\<rparr>)"
  using assms by (simp add: holding_def)

lemma holding_edge: "holding f n k L E w e b M g \<Longrightarrow> holding f n k L E w e b M (g\<lparr>gw_edge := x\<rparr>)"
  by (simp add: holding_def)

lemma holding_lease: "holding f n k L E w e b M g \<Longrightarrow> holding f n k L E w e b M (g\<lparr>gw_lease := x\<rparr>)"
  by (simp add: holding_def)

lemma req_pool_at:
  assumes "holding f n k L E w e b M g" "rt_pool (rq_routing q) = k"
  shows "pool_at f (req_pool q g) (L + leases_at k M) (E + permits_at k M)"
  using holdingD(2)[OF assms(1)] assms(2) by (simp add: req_pool_def)

section \<open>Triples\<close>

lemma hold_record:
  assumes "holding f n k L E w e b M g"
    "rec \<in> {record_attempt, record_transient_failure, record_retry_limit_exhausted, record_deadline_exceeded}"
  shows "holding f n k L E w e b M (on_resilience rec g)"
  unfolding on_resilience_def
proof (rule holding_resilience[OF assms(1)])
  show "\<exists>m\<le>n. retry_reachable m (rec (gw_resilience g), [], b + reserved_in M)"
    using holdingD(4)[OF assms(1)] retry_reachable.recorded[OF _ assms(2)] by blast
qed

lemma hold_commit:
  assumes "holding f n k L E w e (Suc b) M g"
  shows "holding f n k L E w e b M (on_resilience commit_reservation g)"
  unfolding on_resilience_def
proof (rule holding_resilience[OF assms])
  show "\<exists>m\<le>n. retry_reachable m (commit_reservation (gw_resilience g), [], b + reserved_in M)"
    using holdingD(4)[OF assms] retry_reachable.committed by fastforce
qed

lemma hold_abandon:
  assumes "holding f n k L E w e (Suc b) M g"
  shows "holding f n k L E w e b M (on_resilience drop_reservation g)"
  unfolding on_resilience_def
proof (rule holding_resilience[OF assms])
  show "\<exists>m\<le>n. retry_reachable m (drop_reservation (gw_resilience g), [], b + reserved_in M)"
    using holdingD(4)[OF assms] retry_reachable.abandoned by fastforce
qed

lemma reserve_retry_reachable:
  assumes "retry_reachable m (c, [], h)" "reserve_retry i c = (c', r)"
  shows "retry_reachable m (c', [], (if r = None then h else Suc h))"
proof -
  have s: "retry_reachable m (c, [reserve_begin i c], h)" by (rule retry_reachable.reserving[OF assms(1)])
  obtain c1 out where it: "reserve_iteration False (reserve_begin i c) c = (c1, out)" by fastforce
  have na: "out \<noteq> Again v" for v using it by (auto simp: reserve_iteration_def reserve_begin_def Let_def case_prod_beta split: if_splits)
  have "after_iteration out (reserve_begin i c) [reserve_begin i c] h = ([], if r = None then h else Suc h)" "c' = c1"
    using assms(2) it na by (auto simp: reserve_retry_def after_iteration_def split: reserve_outcome.splits)
  then show ?thesis using retry_reachable.iterated[OF s _ it] by simp
qed

lemma hold_plan:
  assumes "holding f n k L E w e 0 M g" "reserve_retry_plan i (gw_resilience g) = (c, r)"
  shows "holding f n k L E w e (if r = None then 0 else 1) M (g\<lparr>gw_resilience := c\<rparr>)"
proof (rule holding_resilience[OF assms(1)])
  obtain m where m: "m \<le> n" "retry_reachable m (gw_resilience g, [], reserved_in M)" using holdingD(4)[OF assms(1)] by auto
  show "\<exists>m\<le>n. retry_reachable m (c, [], (if r = None then 0 else 1) + reserved_in M)"
  proof (cases "max_retries (rs_config (gw_resilience g)) \<le> i")
    case True
    then show ?thesis using assms(2) m retry_reachable.recorded[OF m(2), of record_retry_limit_exhausted]
      by (auto simp: reserve_retry_plan_def)
  next
    case False
    then show ?thesis using assms(2) m reserve_retry_reachable[OF m(2), of i c r] by (auto simp: reserve_retry_plan_def)
  qed
qed

lemma hold_drop_lease:
  assumes "holding f n k {#l#} E w e b M g" "rt_pool (rq_routing q) = k"
  shows "holding f n k {#} E w e b M (drop_lease_of q l g)"
  unfolding drop_lease_of_def using pool_at_drop req_pool_at[OF assms] by (intro holding_set_pool[OF assms]) simp

lemma hold_drop_guard:
  assumes h: "holding f n k L {#lease_worker l#} w 1 b M g" and k: "rt_pool (rq_routing q) = k"
  shows "holding f n k L {#} w 0 b M (drop_guard_of q l g)"
proof -
  have "holding f n k L {#lease_worker l#} w 0 b M (on_admission drop_execution_guard g)"
    unfolding on_admission_def using holdingD(3)[OF h] by (intro holding_admission[OF h]) (simp add: end_execution_ok)
  then show ?thesis
    unfolding drop_guard_of_def Let_def using pool_at_release req_pool_at[OF _ k] k by (intro holding_set_pool) fastforce+
qed

lemma hold_leave_queue:
  assumes "holding f n k L E 1 e b M g"
  shows "holding f n k L E 0 e b M (on_admission drop_queue_guard g)"
  unfolding on_admission_def using holdingD(3)[OF assms] by (intro holding_admission[OF assms]) (simp add: leave_queue_ok)

lemma hold_fail:
  assumes h: "holding f n k {#l#} E w e b M g" and k: "rt_pool (rq_routing q) = k" and r: "fail_attempt now q l g = (g', l')"
  shows "holding f n k {#l'#} E w e b M g'" "lease_worker l' = lease_worker l"
proof -
  obtain p where p: "record_circuit_failure now l (req_pool q g) = (p, l')" "g' = on_resilience record_transient_failure (set_pool q p g)"
    using r by (auto simp: fail_attempt_def split: prod.splits)
  have at: "pool_at f (req_pool q g) (add_mset l (leases_at k M)) (E + permits_at k M)" using req_pool_at[OF h k] by simp
  have "pool_at f p (add_mset l' (leases_at k M)) (E + permits_at k M)" "lease_worker l' = lease_worker l"
    using pool_at_lease_call[OF at] p(1) by blast+
  then show "holding f n k {#l'#} E w e b M g'" "lease_worker l' = lease_worker l"
    unfolding p(2) using holding_set_pool[OF h k, of p "{#l'#}" E] by (auto intro: hold_record)
qed

lemma hold_reply:
  assumes "holding f n k {#} {#} 0 0 0 M g"
  shows "rest f n (on_admission drop_request_permit g) M"
proof -
  have "admission_ok (size M) (waiting_in M) (executing_in M) (drop_request_permit (gw_admission g))"
    using holdingD(3)[OF assms] owners_bound[of M] by (intro drop_request_ok) auto
  then show ?thesis using assms unfolding holding_def rest_def on_admission_def by simp
qed

section \<open>The handler settles\<close>

definition settled :: "('f::linorder) f64_ops \<Rightarrow> nat \<Rightarrow> (request \<times> phase) multiset \<Rightarrow> 'f gateway \<times> progress \<Rightarrow> bool" where
  "settled f n M r \<longleftrightarrow> rest f n (fst r) (joined (snd r) M)"

lemma settled_reply: "holding f n k {#} {#} 0 0 0 M g \<Longrightarrow> settled f n M (return_reply r g)"
  by (simp add: settled_def return_reply_def joined_def hold_reply)

lemma settled_ongoing:
  "holding f n (rt_pool (rq_routing q)) (ph_leases ph) (ph_permits ph) (ph_waiting ph) (ph_executing ph) (ph_reserved ph) M g \<Longrightarrow>
   settled f n M (g, Ongoing q ph)"
  by (simp add: settled_def joined_def rest_add)

lemma settled_deadline: "holding f n k {#} {#} 0 0 0 M g \<Longrightarrow> settled f n M (deadline_now q g)"
  unfolding deadline_now_def return_deadline_def by (rule settled_reply) (rule hold_record, auto)

lemma settled_overload: "holding f n k {#} {#} 0 0 0 M g \<Longrightarrow> settled f n M (return_overload g)"
  unfolding return_overload_def public_edge_rejection_def by (auto intro: settled_reply holding_edge)

lemma hold_release:
  assumes "holding f n k {#l#} {#lease_worker l#} 0 1 b M g" "rt_pool (rq_routing q) = k"
  shows "holding f n k {#} {#} 0 0 b M (drop_lease_of q l (drop_guard_of q l g))"
  by (rule hold_drop_lease[OF hold_drop_guard[OF assms] assms(2)])

lemma settled_send:
  assumes h: "holding f n k {#l#} {#lease_worker l#} 0 1 0 M g" and k: "rt_pool (rq_routing q) = k"
  shows "settled f n M (attempt_send now q l g)"
proof (cases "remaining now (rq_context q)")
  case None
  then show ?thesis unfolding attempt_send_def using settled_deadline[OF hold_release[OF h k]] by simp
next
  case (Some left)
  have "holding f n k {#l#} {#lease_worker l#} 0 1 0 M (on_resilience record_attempt g)" by (rule hold_record[OF h]) simp
  then show ?thesis unfolding attempt_send_def using Some k by (auto simp: ph_defs intro!: settled_ongoing)
qed

lemma try_choose_key: "try_choose f clock p = try_choose_for_key f clock [] p"
  by (simp add: try_choose_for_key_def try_choose_def split: routing_policy.splits)

lemma hold_select:
  assumes h: "holding f n k {#} {#} 0 0 0 M g" and k: "rt_pool (rq_routing q) = k" and s: "select_worker f clock q g = (p, r)"
  shows "holding f n k (case r of None \<Rightarrow> {#} | Some l \<Rightarrow> {#l#}) {#} 0 0 0 M (set_pool q p g)"
proof (rule holding_set_pool[OF h k])
  have at: "pool_at f (req_pool q g) (leases_at k M) (permits_at k M)" using req_pool_at[OF h k] by simp
  have "Suc (size M) \<le> u64_max" using holdingD(3)[OF h] by (auto simp: admission_ok_def)
  then have n: "size (leases_at k M) < u64_max" using leases_at_size[of k M] by linarith
  obtain key where "try_choose_for_key f clock key (req_pool q g) = (p, r) \<or> try_choose_retry clock (rq_attempted q) (req_pool q g) = (p, r)"
    using s unfolding select_worker_def try_choose_key by (auto split: if_splits option.splits)
  from pool_at_choose[OF at n this]
  show "pool_at f p ((case r of None \<Rightarrow> {#} | Some l \<Rightarrow> {#l#}) + leases_at k M) ({#} + permits_at k M)" by (cases r) simp_all
qed

lemma hold_admit:
  assumes h: "holding f n k {#l#} {#} 0 0 0 M g" and k: "rt_pool (rq_routing q) = k"
    and a: "admit_worker_begin l (req_pool q g) (gw_admission g) = (p, a, out)"
  shows "holding f n k {#l#} (if out = Executing then {#lease_worker l#} else {#}) (if out = Waiting then 1 else 0)
     (if out = Executing then 1 else 0) 0 M (set_pool q p (g\<lparr>gw_admission := a\<rparr>))"
proof -
  obtain b where r: "try_reserve_execution l (req_pool q g) = (p, b)"
    using a by (auto simp: admit_worker_begin_def split: prod.splits bool.splits)
  have at: "pool_at f (req_pool q g) (add_mset l (leases_at k M)) (permits_at k M)" using req_pool_at[OF h k] by simp
  note p = pool_at_reserve[OF at r]
  note ok = holdingD(3)[OF h]
  have room: "waiting_in M + executing_in M < Suc (size M)" using owners_bound[of M] by simp
  show ?thesis
  proof (cases b)
    case True
    then have "out = Executing" "a = begin_execution (gw_admission g)" using a r by (auto simp: admit_worker_begin_def)
    moreover have "admission_ok (Suc (size M)) (waiting_in M) (Suc (executing_in M)) (begin_execution (gw_admission g))"
      using ok room by (intro begin_execution_ok) simp_all
    ultimately show ?thesis
      using p True by (auto intro!: holding_set_pool[OF holding_admission[OF h] k])
  next
    case False
    obtain q2 where e: "enter_queue (gw_admission g) = (a, q2)" "out = (if q2 then Waiting else Overloaded)"
      using a r False by (auto simp: admit_worker_begin_def split: prod.splits bool.splits)
    have "admission_ok (Suc (size M)) (if q2 then Suc (waiting_in M) else waiting_in M) (executing_in M) a"
      using ok room by (intro enter_queue_ok(1)[OF _ _ e(1)]) simp_all
    then show ?thesis
      using p False e(2) by (cases q2) (auto intro!: holding_set_pool[OF holding_admission[OF h] k])
  qed
qed

lemma req_pool_set [simp]: "rt_pool (rq_routing q) < length (gw_pools g) \<Longrightarrow> req_pool q (set_pool q p g) = p"
  by (simp add: req_pool_def set_pool_def)

lemma set_pool_set [simp]: "set_pool q p' ((set_pool q p g)\<lparr>gw_admission := a\<rparr>) = set_pool q p' (g\<lparr>gw_admission := a\<rparr>)"
  by (simp add: set_pool_def)

lemma settled_begin:
  assumes h: "holding f n k {#} {#} 0 0 0 M g" and k: "rt_pool (rq_routing q) = k"
  shows "settled f n M (attempt_begin f clock now q g)"
proof (cases "remaining (fst now) (rq_context q) = None")
  case True
  then show ?thesis using settled_deadline[OF h] by (simp add: attempt_begin_def)
next
  case left: False
  obtain p r where s: "select_worker f clock q g = (p, r)" by fastforce
  note sel = hold_select[OF h k s] and ab = attempt_begin_def[of f clock now q g, unfolded if_not_P[OF left] s]
  show ?thesis
  proof (cases r)
    case None
    then show ?thesis unfolding ab using settled_reply sel by simp
  next
    case (Some l)
    let ?g = "set_pool q p g" and ?q = "q\<lparr>rq_attempted := insert (wk_id (workers p ! lease_worker l)) (rq_attempted q)\<rparr>"
    have hl: "holding f n k {#l#} {#} 0 0 0 M ?g" using sel Some by simp
    have same: "req_pool q ?g = p" "gw_admission ?g = gw_admission g"
      using holdingD(1)[OF h] k by (simp, simp add: set_pool_def)
    obtain p' a out where ad: "admit_worker_begin l p (gw_admission g) = (p', a, out)" by (metis prod_cases3)
    have adm: "holding f n k {#l#} (if out = Executing then {#lease_worker l#} else {#}) (if out = Waiting then 1 else 0)
       (if out = Executing then 1 else 0) 0 M (set_pool q p' (g\<lparr>gw_admission := a\<rparr>))"
      using hold_admit[OF hl k, unfolded same, OF ad] by simp
    have kq: "rt_pool (rq_routing ?q) = k" using k by simp
    show ?thesis
    proof (cases out)
      case Executing
      then have "holding f n k {#l#} {#lease_worker l#} 0 1 0 M (set_pool q p' (g\<lparr>gw_admission := a\<rparr>))" using adm by simp
      from settled_send[OF this kq] show ?thesis unfolding ab using Some ad Executing by (simp add: Let_def)
    next
      case Waiting
      then have "holding f n k {#l#} {#} 1 0 0 M (set_pool q p' (g\<lparr>gw_admission := a\<rparr>))" using adm by simp
      then show ?thesis unfolding ab using Some ad Waiting kq by (auto simp: Let_def ph_defs intro!: settled_ongoing)
    next
      case Overloaded
      then have "holding f n k {#l#} {#} 0 0 0 M (set_pool q p' (g\<lparr>gw_admission := a\<rparr>))" using adm by simp
      from settled_overload[OF hold_drop_lease[OF this k]] show ?thesis
        unfolding ab using Some ad Overloaded by (simp add: Let_def)
    qed
  qed
qed

lemma settled_start:
  assumes h: "holding f n (rt_pool (gw_routing g)) {#} {#} 0 0 0 M g"
  shows "settled f n M (proxy_start f clock lease_now now ctx key g)"
proof -
  have b: "settled f n M (attempt_begin f clock now (new_request ctx k g) g)" for k
    by (rule settled_begin[OF h]) (simp add: new_request_def)
  define lr where "lr = map_option (admit_new_at lease_now) (gw_lease g)"
  have r: "settled f n M (return_reply routing_lease_expired_error (g\<lparr>gw_lease := Some l\<rparr>))" for l
    by (rule settled_reply[OF holding_lease[OF h]])
  show ?thesis unfolding proxy_start_def lr_def[symmetric] Let_def
    using b r by (cases lr) (auto split: lease_admission.splits prod.splits)
qed

lemma settled_respond:
  assumes h: "holding f n k {#l#} {#lease_worker l#} 0 1 0 M g" and k: "rt_pool (rq_routing q) = k"
  shows "settled f n M (respond_upstream header_ok status q l g)"
  unfolding respond_upstream_def
  using settled_reply[OF hold_release[OF h k]] h k by (auto simp: ph_defs intro!: settled_ongoing)

lemma settled_retry:
  assumes h: "holding f n k {#} {#} 0 0 0 M g" and k: "rt_pool (rq_routing q) = k"
  shows "settled f n M (retry_or_reply r q g)"
proof -
  obtain c d where p: "reserve_retry_plan (rq_retries q) (gw_resilience g) = (c, d)" by fastforce
  note hp = hold_plan[OF h p]
  show ?thesis
  proof (cases d)
    case None
    then show ?thesis using hp p settled_reply by (simp add: retry_or_reply_def)
  next
    case (Some delay)
    then have "holding f n k {#} {#} 0 0 1 M (g\<lparr>gw_resilience := c\<rparr>)" using hp by simp
    then show ?thesis using p Some k by (auto simp: retry_or_reply_def ph_defs intro!: settled_ongoing)
  qed
qed

lemma settled_response:
  assumes h: "holding f n k {#l#} {#lease_worker l#} 0 1 0 M g" and k: "rt_pool (rq_routing q) = k"
  shows "settled f n M (attempt_result header_ok now (Response status) q l g)"
proof (cases "is_transient_status status")
  case True
  obtain g1 l' where fa: "fail_attempt (fst now) q l g = (g1, l')" by fastforce
  note h1 = hold_fail[OF h k fa]
  have h1': "holding f n k {#l'#} {#lease_worker l'#} 0 1 0 M g1" using h1 by simp
  obtain c d where p: "reserve_retry_plan (rq_retries q) (gw_resilience g1) = (c, d)" by fastforce
  note hp = hold_plan[OF h1' p]
  show ?thesis
  proof (cases d)
    case None
    then have "holding f n k {#l'#} {#lease_worker l'#} 0 1 0 M (g1\<lparr>gw_resilience := c\<rparr>)" using hp by simp
    from settled_respond[OF this k] show ?thesis using True fa p None by (simp add: attempt_result_def)
  next
    case (Some delay)
    then have "holding f n k {#l'#} {#lease_worker l'#} 0 1 1 M (g1\<lparr>gw_resilience := c\<rparr>)" using hp by simp
    from hold_release[OF this k] show ?thesis
      using True fa p Some k by (auto simp: attempt_result_def ph_defs intro!: settled_ongoing)
  qed
next
  case False
  obtain p l' where r: "record_circuit_success (fst now) l (req_pool q g) = (p, l')" by fastforce
  have at: "pool_at f (req_pool q g) (add_mset l (leases_at k M)) ({#lease_worker l#} + permits_at k M)"
    using req_pool_at[OF h k] by simp
  have "pool_at f p (add_mset l' (leases_at k M)) ({#lease_worker l#} + permits_at k M)" "lease_worker l' = lease_worker l"
    using pool_at_lease_call[OF at] r by blast+
  then have "holding f n k {#l'#} {#lease_worker l'#} 0 1 0 M (set_pool q p g)" by (intro holding_set_pool[OF h k]) simp
  from settled_respond[OF this k] show ?thesis using False r by (simp add: attempt_result_def)
qed

lemma settled_failed_call:
  assumes h: "holding f n k {#l#} {#lease_worker l#} 0 1 0 M g" and k: "rt_pool (rq_routing q) = k"
    and res: "res = SendError connect timed_out \<or> res = AttemptTimedOut"
  shows "settled f n M (attempt_result header_ok now res q l g)"
proof -
  have fin: "settled f n M (if remaining (snd now) (rq_context q) = None then deadline_now q (drop_lease_of q l' (drop_guard_of q l' g'))
      else if again then retry_or_reply r q (drop_lease_of q l' (drop_guard_of q l' g'))
      else return_reply r (drop_lease_of q l' (drop_guard_of q l' g')))"
    if "holding f n k {#l'#} {#lease_worker l'#} 0 1 0 M g'" for l' g' again r
    using hold_release[OF that k] settled_deadline settled_retry[OF _ k] settled_reply by auto
  obtain g1 l' where fa: "fail_attempt (fst now) q l g = (g1, l')" by fastforce
  have h1: "holding f n k {#l'#} {#lease_worker l'#} 0 1 0 M g1" using hold_fail[OF h k fa] by simp
  show ?thesis
    using res fin[OF h1, of True] fin[OF h, of False] fa
    by (auto simp: attempt_result_def Let_def)
qed

lemma settled_result:
  assumes "holding f n k {#l#} {#lease_worker l#} 0 1 0 M g" "rt_pool (rq_routing q) = k"
  shows "settled f n M (attempt_result header_ok now res q l g)"
  using settled_response[OF assms] settled_failed_call[OF assms] by (cases res) auto

lemma settled_backoff:
  assumes h: "holding f n k {#} {#} 0 0 1 M g" and k: "rt_pool (rq_routing q) = k"
  shows "settled f n M (backoff_end f clock slept woke now q g)"
proof (cases "\<not> slept \<or> remaining woke (rq_context q) = None")
  case True
  have "holding f n k {#} {#} 0 0 (Suc 0) M (on_resilience record_deadline_exceeded g)" using h by (intro hold_record) simp_all
  from settled_reply[OF hold_abandon[OF this]] show ?thesis
    unfolding backoff_end_def return_deadline_def if_P[OF True] .
next
  case False
  have c: "holding f n k {#} {#} 0 0 0 M (on_resilience commit_reservation g)" using h by (intro hold_commit) simp
  show ?thesis unfolding backoff_end_def if_not_P[OF False] by (rule settled_begin[OF c]) (simp add: k)
qed

lemma settled_queue:
  assumes h: "holding f n k {#l#} {#} 1 0 0 M g" and k: "rt_pool (rq_routing q) = k" and r: "queue_end granted now q l g = Some r"
  shows "settled f n M r"
proof (cases granted)
  case False
  then show ?thesis using r settled_deadline[OF hold_drop_lease[OF hold_leave_queue[OF h] k]] by (auto simp: queue_end_def)
next
  case True
  obtain p a where a: "admit_worker_resume l (req_pool q g) (gw_admission g) = Some (p, a)"
    "r = attempt_send now q l (set_pool q p (g\<lparr>gw_admission := a\<rparr>))"
    using r True by (auto simp: queue_end_def split: option.splits)
  have t: "try_reserve_execution l (req_pool q g) = (p, True)" "a = begin_execution (drop_queue_guard (gw_admission g))"
    using a(1) by (auto simp: admit_worker_resume_def split: prod.splits bool.splits)
  have "pool_at f (req_pool q g) (add_mset l (leases_at k M)) (permits_at k M)" using req_pool_at[OF h k] by simp
  from pool_at_reserve[OF this t(1)] have p: "pool_at f p (add_mset l (leases_at k M)) (add_mset (lease_worker l) (permits_at k M))" by simp
  have "admission_ok (Suc (size M)) (waiting_in M) (Suc (executing_in M)) a"
    unfolding t(2) using holdingD(3)[OF h] owners_bound[of M] by (intro begin_execution_ok leave_queue_ok) simp_all
  then have "holding f n k {#l#} {#lease_worker l#} 0 1 0 M (set_pool q p (g\<lparr>gw_admission := a\<rparr>))"
    using p by (intro holding_set_pool[OF holding_admission[OF h] k]) simp_all
  from settled_send[OF this k] show ?thesis unfolding a(2) .
qed

lemma settled_chunk:
  assumes h: "holding f n k {#l#} {#lease_worker l#} 0 1 0 M g" and k: "rt_pool (rq_routing q) = k"
  shows "settled f n M (stream_chunk f ok latency q l first obs g)"
proof (cases "first \<and> obs \<and> ok")
  case True
  obtain p l' where r: "observe_duration f latency l (req_pool q g) = (p, l')" by fastforce
  have at: "pool_at f (req_pool q g) (add_mset l (leases_at k M)) ({#lease_worker l#} + permits_at k M)"
    using req_pool_at[OF h k] by simp
  have "pool_at f p (add_mset l' (leases_at k M)) ({#lease_worker l#} + permits_at k M)" "lease_worker l' = lease_worker l"
    using pool_at_lease_call[OF at] r by blast+
  then have "holding f n k {#l'#} {#lease_worker l'#} 0 1 0 M (set_pool q p g)" by (intro holding_set_pool[OF h k]) simp
  then show ?thesis unfolding stream_chunk_def if_P[OF True] using r k by (auto simp: ph_defs intro!: settled_ongoing)
next
  case False
  show ?thesis unfolding stream_chunk_def if_not_P[OF False] using h k by (auto simp: ph_defs intro!: settled_ongoing)
qed

lemma rest_cancel:
  assumes "rest f n g (add_mset (q, ph) M)"
  shows "rest f n (cancel_request q ph g) M"
proof -
  let ?k = "rt_pool (rq_routing q)"
  have h: "holding f n ?k (ph_leases ph) (ph_permits ph) (ph_waiting ph) (ph_executing ph) (ph_reserved ph) M g"
    using assms by (simp only: rest_add)
  have "holding f n ?k {#} {#} 0 0 0 M (release_phase q ph g)"
  proof (cases ph)
    case (Queueing l)
    then show ?thesis using h hold_drop_lease[OF hold_leave_queue refl] by (simp add: release_phase_def ph_defs)
  next
    case (Backing_off d)
    then show ?thesis using h hold_abandon by (simp add: release_phase_def ph_defs)
  qed (use h hold_release[OF _ refl] in \<open>simp_all add: release_phase_def ph_defs\<close>)
  then show ?thesis unfolding cancel_request_def by (rule hold_reply)
qed

section \<open>Arrivals and refreshes\<close>

lemma hold_arrival:
  assumes r: "rest f n g M" and a: "try_admit_request (gw_admission g) = (a, True)" and c: "start_request t (gw_resilience g) = (c, ctx)"
    and k: "k = rt_pool (gw_routing g)"
  shows "holding f (Suc n) k {#} {#} 0 0 0 M (g\<lparr>gw_admission := a, gw_resilience := c\<rparr>)"
proof -
  have "admission_ok (Suc (size M)) (waiting_in M) (executing_in M) a" using try_admit_ok(1)[OF _ a] r by (simp add: rest_def)
  moreover obtain m where "m \<le> n" "retry_reachable m (gw_resilience g, [], reserved_in M)" using r by (auto simp: rest_def)
  then have "\<exists>m\<le>Suc n. retry_reachable m (c, [], reserved_in M)"
    using retry_reachable.started[of m "gw_resilience g" "[]" "reserved_in M" t] c by (intro exI[of _ "Suc m"]) simp
  ultimately show ?thesis using r k by (simp add: rest_def holding_def)
qed

lemma rest_refused:
  assumes "rest f n g M" "try_admit_request (gw_admission g) = (a, False)"
  shows "rest f n (g\<lparr>gw_admission := a\<rparr>) M"
  using assms try_admit_ok(1)[OF _ assms(2)] by (simp add: rest_def)

lemma settled_local:
  assumes r: "rest f n g M"
  shows "settled f (Suc n) M (admission_middleware to_str h t g)"
proof (cases "authorizes to_str (gw_keys g) h")
  case False
  then show ?thesis using rest_mono[OF r, of "Suc n"] by (simp add: admission_middleware_def settled_def joined_def)
next
  case True
  obtain a b where a: "try_admit_request (gw_admission g) = (a, b)" by fastforce
  obtain c ctx where c: "start_request t (gw_resilience g) = (c, ctx)" by fastforce
  show ?thesis
  proof (cases b)
    case False
    then show ?thesis
      using rest_mono[OF rest_refused[OF r], of a "Suc n"] a True by (simp add: admission_middleware_def settled_def joined_def)
  next
    case b: True
    let ?g = "g\<lparr>gw_admission := a, gw_resilience := c\<rparr>"
    have "holding f (Suc n) (rt_pool (rq_routing (new_request ctx None ?g))) {#} {#} 0 0 0 M ?g"
      using hold_arrival[OF r _ c] a b by (simp add: new_request_def)
    then show ?thesis using True a b c by (auto simp: admission_middleware_def ph_defs Let_def intro!: settled_ongoing)
  qed
qed

lemma rest_edge: "rest f n g M \<Longrightarrow> rest f n (g\<lparr>gw_edge := x\<rparr>) M"
  by (simp add: rest_def)

lemma settled_edge_reply:
  assumes "rest f n g M" "public_edge_rejection reason r g = (g', r')"
  shows "settled f (Suc n) M (g', Replied r')"
  using rest_edge[OF rest_mono[OF assms(1), of "Suc n"]] assms(2) by (auto simp: public_edge_rejection_def settled_def joined_def)

lemma settled_hosted:
  assumes r: "rest f n g M"
  shows "settled f (Suc n) M (hosted_public_edge_middleware f to_str parse_json affinity h body clock el t lease_now now g)"
proof -
  obtain a b where a: "try_admit_request (gw_admission g) = (a, b)" by fastforce
  obtain c ctx where c: "start_request t (gw_resilience g) = (c, ctx)" by fastforce
  have reject: "settled f (Suc n) M (g', Replied r')" if "public_edge_rejection reason rp (g\<lparr>gw_edge := e\<rparr>) = (g', r')" for reason rp e g' r'
    by (rule settled_edge_reply[OF rest_edge[OF r] that])
  have full: "settled f (Suc n) M (g', Replied r')"
    if "\<not> b" "public_edge_rejection reason rp (g\<lparr>gw_admission := a, gw_edge := e\<rparr>) = (g', r')" for reason rp e g' r'
    using settled_edge_reply[OF rest_edge[OF rest_refused[OF r]]] a that by simp
  have start: "settled f (Suc n) M (proxy_start f clock lease_now now ctx key (g\<lparr>gw_admission := a, gw_edge := e, gw_resilience := c\<rparr>))"
    if "b" for key e
  proof (rule settled_start)
    have "holding f (Suc n) (rt_pool (gw_routing g)) {#} {#} 0 0 0 M ((g\<lparr>gw_admission := a, gw_resilience := c\<rparr>)\<lparr>gw_edge := e\<rparr>)"
      using holding_edge[OF hold_arrival[OF r _ c refl]] a that by simp
    then show "holding f (Suc n) (rt_pool (gw_routing (g\<lparr>gw_admission := a, gw_edge := e, gw_resilience := c\<rparr>))) {#} {#} 0 0 0 M
        (g\<lparr>gw_admission := a, gw_edge := e, gw_resilience := c\<rparr>)" by (simp add: holding_def)
  qed
  have plain: "settled f (Suc n) M (g', Replied r')" if "public_edge_rejection reason rp g = (g', r')" for reason rp g' r'
    by (rule settled_edge_reply[OF r that])
  show ?thesis
    unfolding hosted_public_edge_middleware_def Let_def a c prod.case
    using plain reject full start by (auto split: option.split sum.split prod.split bool.split)
qed

lemma rest_refresh:
  assumes r: "rest f n g M" and p: "from_config f ws rc cc = Inr p"
  shows "rest f n (install_routing p s g) M"
proof -
  have "filter_mset (at_pool (length (gw_pools g))) M = {#}" using r by (fastforce simp: filter_mset_eq_conv at_pool_def rest_def)
  then have "leases_at (length (gw_pools g)) M = {#}" "permits_at (length (gw_pools g)) M = {#}"
    by (simp_all only: leases_at_def permits_at_def image_mset_empty sum_mset.empty)
  moreover have "\<forall>x\<in>#M. rt_pool (rq_routing (fst x)) < Suc (length (gw_pools g))" using r by (auto simp: rest_def less_Suc_eq)
  ultimately show ?thesis
    using r pool_at_fresh[OF p] by (auto simp: rest_def install_routing_def nth_append less_Suc_eq)
qed

lemma rest_built:
  assumes "from_config f ws rc cc = Inr p" "build_runtime p routing l keys qc rcfg ec = Some g"
  shows "rest f 0 g {#}"
proof -
  obtain a r e where b: "new_admission qc (total_execution_capacity p) = Inr a" "new_resilience rcfg = Inr r"
    "g = \<lparr>gw_pools = [p], gw_routing = routing\<lparr>rt_pool := 0\<rparr>, gw_lease = l, gw_keys = keys, gw_admission = a, gw_resilience = r, gw_edge = e\<rparr>"
    using assms(2) by (auto simp: build_runtime_def split: sum.splits)
  then show ?thesis
    using pool_at_fresh[OF assms(1)] new_admission_ok[OF b(1)] retry_reachable.built[OF b(2)] by (auto simp: rest_def)
qed

lemma gateway_at_rest: "gateway_reachable f n g M \<Longrightarrow> rest f n g M"
proof (induction rule: gateway_reachable.induct)
  case (built ws rc cc p routing l keys qc rcfg ec g)
  then show ?case by (rule rest_built)
next
  case (arrived_local n g M to_str h arrived g' out)
  then show ?case using settled_local[OF arrived_local.IH, of to_str h arrived] by (simp add: settled_def)
next
  case (arrived_hosted n g M to_str parse_json affinity h body clock el arrived lease_now now g' out)
  then show ?case
    using settled_hosted[OF arrived_hosted.IH, of to_str parse_json affinity h body clock el arrived lease_now now] by (simp add: settled_def)
next
  case (body n g q M affinity body clock lease_now now g' out)
  have h: "holding f n (rt_pool (rq_routing q)) {#} {#} 0 0 0 M g" using body.IH by (simp add: rest_add ph_defs)
  have "holding f n (rt_pool (gw_routing g)) {#} {#} 0 0 0 M g" using h by (auto simp: holding_def)
  from settled_start[OF this, of clock lease_now now] settled_reply[OF h]
  have "settled f n M (body_read f affinity body clock lease_now now q g)"
    by (auto simp: body_read_def split: option.split)
  then show ?case using body.hyps by (simp add: settled_def)
next
  case (queue n g q l M granted now1 g' out)
  then show ?case using settled_queue[of f n "rt_pool (rq_routing q)" l M g q granted now1 "(g', out)"]
    by (simp add: rest_add ph_defs settled_def)
next
  case (result n g q l limit M header_ok now res g' out)
  then show ?case using settled_result[of f n "rt_pool (rq_routing q)" l M g q header_ok now res]
    by (simp add: rest_add ph_defs settled_def)
next
  case (backoff n g q delay M clock slept woke now g' out)
  then show ?case using settled_backoff[of f n "rt_pool (rq_routing q)" M g q clock slept woke now]
    by (simp add: rest_add ph_defs settled_def)
next
  case (chunk n g q l first obs M ok latency g' out)
  then show ?case using settled_chunk[of f n "rt_pool (rq_routing q)" l M g q ok latency first obs]
    by (simp add: rest_add ph_defs settled_def)
next
  case (ended n g q l first obs M at_deadline)
  have "rest f n (if at_deadline then on_resilience record_deadline_exceeded g else g) (add_mset (q, Streaming l first obs) M)"
    using ended.IH hold_record[of f n _ _ _ _ _ _ M g record_deadline_exceeded] by (simp add: rest_add)
  then show ?case unfolding stream_end_def by (rule rest_cancel)
next
  case (cancelled n g q ph M)
  then show ?case using rest_cancel by blast
next
  case (refreshed n g M ws rc cc p s)
  then show ?case using rest_refresh by blast
next
  case (rekeyed n g M s)
  then show ?case by (simp add: rest_def rekey_routing_def)
next
  case (renewed n g M ms t)
  then show ?case by (simp add: rest_def)
next
  case (viewed n g M t)
  then show ?case by (auto simp: rest_def worker_status_def Let_def case_prod_beta nth_list_update intro: pool_at_viewed)
qed

end
