(* ===== verification/Edge_Props.thy ===== *)
theory Edge_Props
  imports Resilience Routing_Lease Public_Authentication Public_Edge
begin

text \<open>
  What the gateway's edge guarantees: the retry budget and the backoff bounds, the lease that fences new
  requests, exact bearer authentication, and the rate limit with its advertised waiting time.
\<close>

section \<open>Retries\<close>

definition demo_resilience_config :: resilience_config where
  "demo_resilience_config = \<lparr>request_deadline = 1000000000, attempt_timeout = 200000000, max_retries = 2,
     retry_budget_percent = 100, retry_base_delay = 10000000, retry_max_delay = 25000000, jitter_seed = 7\<rparr>"

definition demo_resilience :: resilience_controller where
  "demo_resilience = \<lparr>rs_config = demo_resilience_config, rs_jitter = with_seed 7, original_requests = 0, rs_attempts = 0,
     transient_failures = 0, retry_slots_used = 0, retries_granted = 0, retries_denied_budget = 0, retry_limit_exhausted = 0,
     deadline_exceeded = 0\<rparr>"

definition demo_one_request :: resilience_controller where
  "demo_one_request = demo_resilience\<lparr>original_requests := 1\<rparr>"

lemma demo_resilience_valid: "validate_resilience demo_resilience_config = Inr ()"
  by (simp add: validate_resilience_def demo_resilience_config_def from_secs_def Let_def)

lemma demo_resilience_new: "new_resilience demo_resilience_config = Inr demo_resilience"
proof -
  have "jitter_seed demo_resilience_config = 7" by (simp add: demo_resilience_config_def)
  then show ?thesis by (simp add: new_resilience_def demo_resilience_valid demo_resilience_def)
qed

lemma demo_resilience_started: "fst (start_request 5 demo_resilience) = demo_one_request"
  by (simp add: start_request_def demo_one_request_def demo_resilience_def inc64_def wrap64_def)

lemma demo_one_request_allowance: "retry_allowance demo_one_request = 1"
  by (simp add: retry_allowance_def demo_one_request_def demo_resilience_def demo_resilience_config_def sat_mul64_def u64_max_def)

lemma demo_one_request_reserves: "\<exists>c d. reserve_iteration False (reserve_begin 1 demo_one_request) demo_one_request = (c, Reserved d)"
  using demo_one_request_allowance
  by (simp add: reserve_iteration_def reserve_begin_def Let_def case_prod_beta demo_one_request_def demo_resilience_def)

lemma demo_reservation_reachable:
  "\<exists>c. retry_reachable 1 (c, [], 1) \<and> rs_config c = demo_resilience_config"
proof -
  have "retry_reachable (Suc 0) (fst (start_request 5 demo_resilience), [], 0)"
    by (rule retry_reachable.started[OF retry_reachable.built[OF demo_resilience_new]])
  then have s: "retry_reachable (Suc 0) (demo_one_request, [reserve_begin 1 demo_one_request], 0)"
    unfolding demo_resilience_started by (rule retry_reachable.reserving)
  obtain c d where it: "reserve_iteration False (reserve_begin 1 demo_one_request) demo_one_request = (c, Reserved d)"
    using demo_one_request_reserves by blast
  have af: "after_iteration (Reserved d) (reserve_begin 1 demo_one_request) [reserve_begin 1 demo_one_request] 0 = ([], 1)"
    by (simp add: after_iteration_def)
  have "retry_reachable (Suc 0) (c, [], 1)" by (rule retry_reachable.iterated[OF s _ it af]) simp
  moreover have "rs_config c = demo_resilience_config"
    using it by (auto simp: reserve_iteration_def demo_one_request_def demo_resilience_def Let_def case_prod_beta split: if_splits)
  ultimately show ?thesis by auto
qed

text \<open>C22.  The retry budget.  Whatever the interleaving of requests that race in the compare-and-swap loop of
  \<open>reserve_retry\<close>, commit or abandon their reservation, the retries granted and those still reserved are
  together at most the configured percentage of the requests ever started; and a reservation that is
  abandoned returns its slot, so the slots in use are exactly those two.\<close>

theorem retry_budget_respected:
  assumes "retry_reachable n (c, vs, held)" "n \<le> u64_max"
  shows "100 * (retries_granted c + held) \<le> n * retry_budget_percent (rs_config c) \<and>
    retry_slots_used c = retries_granted c + held"
proof -
  have inv: "retry_inv n (c, vs, held)" by (rule retry_reachable_inv[OF assms])
  then have "retries_granted c + held \<le> n * retry_budget_percent (rs_config c) div 100"
    by (simp add: retry_inv_def budget_def)
  then have "(retries_granted c + held) * 100 \<le> n * retry_budget_percent (rs_config c)"
    by (meson div_times_less_eq_dividend mult_le_mono1 order_trans)
  then show ?thesis using inv by (simp add: retry_inv_def)
qed

theorem retry_budget_respected_witness:
  "\<exists>c :: resilience_controller. rs_config c = demo_resilience_config \<and> 100 * (retries_granted c + 1) \<le> 1 * retry_budget_percent (rs_config c)"
proof -
  obtain c where "retry_reachable 1 (c, [], 1)" "rs_config c = demo_resilience_config"
    using demo_reservation_reachable by blast
  then show ?thesis using retry_budget_respected[of 1 c "[]" 1] by - (rule exI[of _ c], auto simp: u64_max_def)
qed

text \<open>Backoff.  Under a valid configuration the delay of the \<open>i\<close>-th retry is at most the base delay doubled
  \<open>i\<close> times and at most the configured maximum, neither shift nor product overflowing; and a retry is
  refused exactly when the slots in use have reached the allowance, which leaves the slots as they were.\<close>

theorem backoff_within_cap:
  assumes "validate_resilience (rs_config c) = Inr ()" "i \<le> max_retries (rs_config c)" "reserve_retry i c = (c', r)"
  shows "(\<forall>d. r = Some d \<longrightarrow> d \<le> min (retry_base_delay (rs_config c) * 2 ^ i) (retry_max_delay (rs_config c)) \<and>
        retry_slots_used c' = Suc (retry_slots_used c)) \<and>
    (r = None \<longleftrightarrow> retry_allowance c \<le> retry_slots_used c) \<and> (r = None \<longrightarrow> retry_slots_used c' = retry_slots_used c)"
proof -
  note v = validate_resilienceD[OF assms(1)]
  let ?cap = "exponential_cap (retry_base_delay (rs_config c)) (retry_max_delay (rs_config c)) i"
  have cap: "?cap = min (retry_base_delay (rs_config c) * 2 ^ i) (retry_max_delay (rs_config c))"
    by (rule exponential_cap_exact) (use v assms(2) in auto)
  show ?thesis
  proof (cases "retry_allowance c \<le> retry_slots_used c")
    case True
    then have "r = None" "retry_slots_used c' = retry_slots_used c"
      using assms(3) by (auto simp: reserve_retry_def reserve_iteration_def reserve_begin_def)
    then show ?thesis using True by simp
  next
    case False
    then have "r = Some (snd (jitter_delay ?cap (rs_jitter c)))" "retry_slots_used c' = Suc (retry_slots_used c)"
      using assms(3) by (auto simp: reserve_retry_def reserve_iteration_def reserve_begin_def Let_def case_prod_beta)
    then show ?thesis using False jitter_delay_le[of ?cap "rs_jitter c"] cap by simp
  qed
qed

theorem backoff_within_cap_witness:
  "\<exists>d. snd (reserve_retry 1 demo_one_request) = Some d \<and> d \<le> 20000000"
proof -
  have "validate_resilience (rs_config demo_one_request) = Inr ()"
    using demo_resilience_valid by (simp add: demo_one_request_def demo_resilience_def)
  moreover have "1 \<le> max_retries (rs_config demo_one_request)"
    by (simp add: demo_one_request_def demo_resilience_def demo_resilience_config_def)
  ultimately have t: "(\<forall>d. snd (reserve_retry 1 demo_one_request) = Some d \<longrightarrow>
        d \<le> min (retry_base_delay (rs_config demo_one_request) * 2 ^ 1) (retry_max_delay (rs_config demo_one_request))) \<and>
      (snd (reserve_retry 1 demo_one_request) = None \<longleftrightarrow> retry_allowance demo_one_request \<le> retry_slots_used demo_one_request)"
    using backoff_within_cap[OF _ _ prod.collapse[symmetric]] by blast
  have "retry_slots_used demo_one_request = 0" "retry_base_delay (rs_config demo_one_request) = 10000000"
    "retry_max_delay (rs_config demo_one_request) = 25000000"
    by (simp_all add: demo_one_request_def demo_resilience_def demo_resilience_config_def)
  then show ?thesis using t demo_one_request_allowance by (cases "snd (reserve_retry 1 demo_one_request)") auto
qed

section \<open>The routing lease\<close>

text \<open>C23.  The lease is a fence on new requests only.  After any run of renewals and admissions since it was taken
  from live control, a request at \<open>now\<close> is refused exactly when refusing is configured and a whole lease has
  passed since the last verification; it is fresh exactly when less than a lease has passed, and the
  readiness endpoint answers 503 at the very instants at which requests are refused.\<close>

theorem lease_fences_new_requests:
  assumes "lease_from_live duration action verified_ms t0 = Some l0"
  shows "(let l = foldl lease_event_step l0 es; outcome = snd (admit_new_at now l) in
      (outcome = Rejected \<longleftrightarrow> action = RejectNew \<and> last_verified t0 es + duration \<le> now) \<and>
      (outcome = Fresh \<longleftrightarrow> now < last_verified t0 es + duration) \<and>
      (readiness now (Some l) = 503 \<longleftrightarrow> outcome = Rejected) \<and>
      (accepting_new_requests_at now l \<longleftrightarrow> outcome \<noteq> Rejected))"
proof -
  have l0: "rl_deadline l0 = t0 + rl_duration l0" "rl_duration l0 = duration" "rl_action l0 = action"
    using assms by (auto simp: lease_from_live_def from_verified_age_at_def split: if_splits)
  note r = lease_run[OF l0(1), of es]
  define l where "l = foldl lease_event_step l0 es"
  have l: "rl_deadline l = last_verified t0 es + duration" "rl_action l = action"
    using r l0 by (simp_all add: l_def)
  show ?thesis
    unfolding l_def[symmetric] Let_def
    using l by (cases action) (auto simp: admit_new_at_def readiness_def snapshot_lease_at_def accepting_new_requests_at_def Let_def)
qed

theorem lease_fences_new_requests_witness:
  "\<exists>l0. lease_from_live 10 RejectNew 1000 5 = Some l0 \<and>
     snd (admit_new_at 25 (foldl lease_event_step l0 [Admit 7, Renew 1009 14])) = Rejected \<and>
     snd (admit_new_at 23 (foldl lease_event_step l0 [Admit 7, Renew 1009 14])) = Fresh"
proof -
  obtain l0 where l0: "lease_from_live 10 RejectNew 1000 5 = Some l0"
    by (simp add: lease_from_live_def from_verified_age_at_def)
  then show ?thesis
    using lease_fences_new_requests[OF l0, of "[Admit 7, Renew 1009 14]" 25]
      lease_fences_new_requests[OF l0, of "[Admit 7, Renew 1009 14]" 23] by (simp add: Let_def)
qed

section \<open>Bearer keys\<close>

definition authorization_values :: "headers \<Rightarrow> string list" where
  "authorization_values h = map snd (filter (\<lambda>e. fst e = ''authorization'') h)"

definition demo_to_str :: "string \<Rightarrow> string option" where
  "demo_to_str s = (if list_all (\<lambda>c. is_ascii_graphic c \<or> c = CHR '' '') s then Some s else None)"

definition demo_key :: string where "demo_key = ''interview-demo-key-0001''"

lemma bearer_graphic: "map to_ascii_lower scheme = ''bearer'' \<Longrightarrow> list_all is_ascii_graphic scheme"
proof -
  assume m: "map to_ascii_lower scheme = ''bearer''"
  have "is_ascii_graphic c" if "c \<in> set scheme" for c
  proof -
    have "to_ascii_lower c \<in> set (map to_ascii_lower scheme)" using that by simp
    then have l: "to_ascii_lower c \<in> set ''bearer''" unfolding m .
    show ?thesis
    proof (cases "65 \<le> (of_char c :: nat) \<and> (of_char c :: nat) \<le> 90")
      case False
      then have "c \<in> set ''bearer''" using l by (auto simp: to_ascii_lower_def Let_def)
      then show ?thesis by (auto simp: is_ascii_graphic_def)
    qed (simp add: is_ascii_graphic_def)
  qed
  then show ?thesis by (simp add: list_all_iff)
qed

lemma demo_key_configured: "public_from_configuration (Some demo_key) = Inr [demo_key]"
proof -
  have "split_on (CHR '','') demo_key = [demo_key]" by (simp add: demo_key_def)
  moreover have "trim demo_key = demo_key" by (rule trim_alnum) (simp_all add: demo_key_def is_ascii_alphanumeric_def)
  moreover have "length demo_key = 23" "list_all is_visible_non_whitespace_ascii demo_key" "demo_key \<noteq> []"
    by (simp_all add: demo_key_def is_visible_non_whitespace_ascii_def is_ascii_graphic_def)
  ultimately show ?thesis
    by (simp add: public_from_configuration_def MAXIMUM_CONFIGURATION_BYTES_def MAXIMUM_API_KEY_COUNT_def MINIMUM_API_KEY_BYTES_def
        MAXIMUM_API_KEY_BYTES_def)
qed

text \<open>C24.  Bearer authentication is exact.  With configured keys, and a header conversion that returns visible ASCII text
  unchanged, a request is authenticated for slot \<open>j\<close> exactly when it carries one \<open>Authorization\<close> header made of a
  scheme that reads \<open>bearer\<close> in any case, one space and the \<open>j\<close>-th key; no request is authenticated
  without a slot.  So the comparison that visits every byte of every key decides equality, and no prefix,
  padding or extension of a key passes.\<close>

theorem bearer_authentication_exact:
  assumes cfg: "public_from_configuration (Some conf) = Inr keys"
    and same: "\<And>s t. to_str s = Some t \<Longrightarrow> t = s"
    and visible: "\<And>s. list_all (\<lambda>c. is_ascii_graphic c \<or> c = CHR '' '') s \<Longrightarrow> to_str s = Some s"
  shows "(authenticate to_str keys h = Some (Some j) \<longleftrightarrow>
      (\<exists>scheme. authorization_values h = [scheme @ CHR '' '' # keys ! j] \<and> map to_ascii_lower scheme = ''bearer'') \<and> j < length keys) \<and>
    authenticate to_str keys h \<noteq> Some None"
proof -
  have k: "distinct keys" "list_all key_ok keys" "length keys \<le> MAXIMUM_API_KEY_COUNT" "keys \<noteq> []"
    using public_keys_ok[OF cfg] by auto
  define named where "named scheme = (map to_ascii_lower scheme = ''bearer'')" for scheme
  have ok: "bearer_token (scheme @ CHR '' '' # keys ! j) = Some (keys ! j) \<and> length (keys ! j) \<le> MAXIMUM_API_KEY_BYTES \<and>
      to_str (scheme @ CHR '' '' # keys ! j) = Some (scheme @ CHR '' '' # keys ! j)"
    if n: "named scheme" and j: "j < length keys" for scheme
  proof -
    have kj: "key_ok (keys ! j)" using k(2) j by (simp add: list_all_length)
    have "list_all is_ascii_graphic scheme" using n bearer_graphic by (simp add: named_def)
    moreover have "list_all is_ascii_graphic (keys ! j)"
      using kj by (auto simp: key_ok_def list_all_iff is_visible_non_whitespace_ascii_def)
    ultimately have "to_str (scheme @ CHR '' '' # keys ! j) = Some (scheme @ CHR '' '' # keys ! j)"
      by (intro visible) (auto simp: list_all_iff)
    moreover have "keys ! j \<noteq> []" using kj by (auto simp: key_ok_def MINIMUM_API_KEY_BYTES_def)
    ultimately show ?thesis
      using n kj unfolding bearer_token_iff named_def by (auto simp: key_ok_def)
  qed
  have authed: "authenticate to_str keys h = Some r \<longleftrightarrow>
      (\<exists>v t j. authorization_values h = [v] \<and> to_str v = Some v \<and> bearer_token v = Some t \<and> length t \<le> MAXIMUM_API_KEY_BYTES \<and>
         r = Some j \<and> matched_slot keys t = Some j)" for r
    using k(4) same unfolding authenticate_def authorization_values_def Let_def
    by (cases "map snd (filter (\<lambda>e. fst e = ''authorization'') h)")
      (auto split: option.splits if_splits dest: same)
  show ?thesis
    unfolding authed matched_slot_iff[OF k(1-3)] named_def[symmetric]
    using ok by (auto simp: bearer_token_iff named_def[symmetric])
qed

theorem bearer_authentication_exact_witness:
  "authenticate demo_to_str [demo_key] [(''authorization'', ''Bearer '' @ demo_key)] = Some (Some 0)"
proof -
  let ?h = "[(''authorization'', ''Bearer '' @ demo_key)]"
  have r: "(authenticate demo_to_str [demo_key] ?h = Some (Some 0) \<longleftrightarrow>
      (\<exists>scheme. authorization_values ?h = [scheme @ CHR '' '' # [demo_key] ! 0] \<and> map to_ascii_lower scheme = ''bearer'') \<and>
      0 < length [demo_key]) \<and> authenticate demo_to_str [demo_key] ?h \<noteq> Some None"
    by (rule bearer_authentication_exact[OF demo_key_configured]) (simp_all add: demo_to_str_def split: if_splits)
  have "authorization_values ?h = [''Bearer'' @ CHR '' '' # [demo_key] ! 0]"
    by (simp add: authorization_values_def)
  moreover have "map to_ascii_lower ''Bearer'' = ''bearer''" by code_simp
  moreover have "0 < length [demo_key]" by simp
  ultimately show ?thesis by (intro iffD2[OF conjunct1[OF r]] conjI exI)
qed

section \<open>The rate limit\<close>

text \<open>C25.  The rate limit.  From any state a bucket can be in, the tokens granted while the clock advances from the bucket's
  last instant to \<open>t1\<close> cost at most a full burst plus what the configured rate refills in that time; clock
  readings that go backwards add nothing.\<close>

theorem token_bucket_rate_bound:
  assumes "fst (consume_run rate burst (full_bucket burst) past) = b" "consume_run rate burst b ts = (b', n)"
    "last_elapsed_nanos b \<le> t1" "\<forall>t\<in>set ts. t \<le> t1"
  shows "n * NANOS_PER_MINUTE \<le> burst * NANOS_PER_MINUTE + (t1 - last_elapsed_nanos b) * rate"
proof -
  have "available_units b \<le> burst * NANOS_PER_MINUTE"
    using consume_run_capacity[of "full_bucket burst" burst rate past] assms(1) by (simp add: full_bucket_def)
  moreover note u = consume_run_units[OF assms(2)]
  moreover have "last_elapsed_nanos b' \<le> t1" using u foldl_max_le[OF assms(3,4)] by simp
  then have "(last_elapsed_nanos b' - last_elapsed_nanos b) * rate \<le> (t1 - last_elapsed_nanos b) * rate"
    by (intro mult_le_mono1 diff_le_mono)
  ultimately show ?thesis by linarith
qed

theorem token_bucket_rate_bound_witness:
  "\<exists>b' n. consume_run 60 4 (full_bucket 4) [0, 0, 5] = (b', n) \<and> n * NANOS_PER_MINUTE \<le> 4 * NANOS_PER_MINUTE + 5 * 60"
proof -
  obtain b' n where r: "consume_run 60 4 (full_bucket 4) [0, 0, 5] = (b', n)" by fastforce
  have "n * NANOS_PER_MINUTE \<le> 4 * NANOS_PER_MINUTE + (5 - last_elapsed_nanos (full_bucket 4)) * 60"
    by (rule token_bucket_rate_bound[where past = "[]", OF _ r]) (simp_all add: full_bucket_def)
  then show ?thesis using r by (simp add: full_bucket_def)
qed

text \<open>C26.  The advertised waiting time is enough.  When a hosted edge refuses a credential for its rate and says to retry
  after \<open>s\<close> seconds, \<open>s\<close> is between 1 and 60, and a request of the same credential \<open>s\<close> seconds later is
  granted provided none of its other requests came in between.\<close>

theorem retry_after_suffices:
  assumes "validate_edge (edge_cfg e) = Inr ()" "slot < length (buckets e)"
    "last_elapsed_nanos (buckets e ! slot) \<le> now" "try_consume_at slot now e = (e', Inl s)"
    "later = now + s * NANOS_PER_SECOND"
  shows "1 \<le> s \<and> s \<le> 60 \<and> snd (try_consume_at slot later e') = Inr ()"
proof -
  define rate burst b where "rate = rate_requests_per_minute (edge_cfg e)" and "burst = rate_burst (edge_cfg e)" and "b = buckets e ! slot"
  define av where "av = refilled now rate burst b"
  have r: "0 < rate" "rate \<le> 60000" "0 < burst" "burst \<le> 1000" using validate_edgeD[OF assms(1)] by (simp_all add: rate_def burst_def)
  have nb: "max now (last_elapsed_nanos b) = now" using assms(3) by (simp add: b_def)
  have d: "av < NANOS_PER_MINUTE" "s = retry_seconds (NANOS_PER_MINUTE - av) rate"
    "e' = e\<lparr>buckets := (buckets e)[slot := b\<lparr>last_elapsed_nanos := now, available_units := av\<rparr>]\<rparr>"
    using assms(2,4) nb
    by (auto simp: try_consume_at_def try_consume_def Let_def av_def rate_def burst_def b_def split: if_splits)
  have s: "1 \<le> s" "s \<le> 60" by (simp_all add: d(2) retry_seconds_def)
  have "NANOS_PER_MINUTE - av \<le> s * NANOS_PER_SECOND * rate"
    unfolding d(2) by (rule retry_seconds_covers) (use r in simp_all)
  then have enough: "NANOS_PER_MINUTE \<le> av + s * NANOS_PER_SECOND * rate" by linarith
  have "s * NANOS_PER_SECOND * rate \<le> 60 * NANOS_PER_SECOND * 60000" using s r by (intro mult_le_mono) auto
  also have "\<dots> \<le> 3600000000000000" by (simp add: NANOS_PER_SECOND_def)
  finally have small: "s * NANOS_PER_SECOND * rate \<le> 3600000000000000" .
  have m: "NANOS_PER_MINUTE = 60000000000" by (simp add: NANOS_PER_MINUTE_def NANOS_PER_SECOND_def)
  have "NANOS_PER_MINUTE \<le> min (min (av + min (s * NANOS_PER_SECOND * rate) u128_max) u128_max) (burst * NANOS_PER_MINUTE)"
    using enough small d(1) r(3) unfolding m u128_max_def by simp
  then have "NANOS_PER_MINUTE \<le> refilled later rate burst (b\<lparr>last_elapsed_nanos := now, available_units := av\<rparr>)"
    using assms(5) by (simp add: refilled_def Let_def)
  moreover have "max later now = later" using assms(5) by simp
  ultimately have "snd (try_consume_at slot later e') = Inr ()"
    using assms(2) d(3) by (simp add: try_consume_at_def try_consume_def Let_def rate_def burst_def)
  then show ?thesis using s by simp
qed

definition demo_edge :: edge_controller where
  "demo_edge = \<lparr>edge_cfg = edge_local\<lparr>ec_mode := Hosted\<rparr>, credential_slots = 1,
     buckets = [\<lparr>available_units = 0, last_elapsed_nanos = 7\<rparr>], rejections = replicate 10 0\<rparr>"

theorem retry_after_suffices_witness:
  "\<exists>e'. try_consume_at 0 7 demo_edge = (e', Inl 1) \<and> snd (try_consume_at 0 (7 + 1 * NANOS_PER_SECOND) e') = Inr ()"
proof -
  have v: "validate_edge (edge_cfg demo_edge) = Inr ()"
    by (simp add: validate_edge_def validate_positive_bounded_def demo_edge_def edge_local_def MAX_MAX_MESSAGES_def MAX_PUBLIC_REQUEST_BYTES_def
        MAX_MAX_OUTPUT_TOKENS_def MAX_RATE_REQUESTS_PER_MINUTE_def MAX_RATE_BURST_def)
  have "retry_seconds NANOS_PER_MINUTE 60 = 1"
    by (simp add: retry_seconds_def div_ceil_def NANOS_PER_MINUTE_def NANOS_PER_SECOND_def)
  then obtain e' where e: "try_consume_at 0 7 demo_edge = (e', Inl 1)"
    by (simp add: try_consume_at_def try_consume_def Let_def refilled_def demo_edge_def edge_local_def NANOS_PER_MINUTE_def NANOS_PER_SECOND_def)
  have "snd (try_consume_at 0 (7 + 1 * NANOS_PER_SECOND) e') = Inr ()"
    using retry_after_suffices[OF v _ _ e refl] by (simp add: demo_edge_def)
  then show ?thesis using e by blast
qed

end
