(* ===== verification/Gateway_Props.thy ===== *)
theory Gateway_Props
  imports Gateway_Accounting Edge_Props Routing_Props
begin

text \<open>
  End-to-end guarantees of the request path: the gateway's counters are exactly what the requests under way own,
  admission refuses only a full gateway, and the retry loop ends.
\<close>

section \<open>Counting owners\<close>

definition phase_lease :: "phase \<Rightarrow> worker_lease option" where
  "phase_lease ph = (case ph of Queueing l \<Rightarrow> Some l | Sending l _ \<Rightarrow> Some l | Streaming l _ _ \<Rightarrow> Some l | _ \<Rightarrow> None)"

definition is_queueing :: "phase \<Rightarrow> bool" where
  "is_queueing ph = (case ph of Queueing _ \<Rightarrow> True | _ \<Rightarrow> False)"

definition is_executing :: "phase \<Rightarrow> bool" where
  "is_executing ph = (case ph of Sending _ _ \<Rightarrow> True | Streaming _ _ _ \<Rightarrow> True | _ \<Rightarrow> False)"

definition is_backing_off :: "phase \<Rightarrow> bool" where
  "is_backing_off ph = (case ph of Backing_off _ \<Rightarrow> True | _ \<Rightarrow> False)"

definition on_worker :: "nat \<Rightarrow> phase \<Rightarrow> bool" where
  "on_worker i ph \<longleftrightarrow> map_option lease_worker (phase_lease ph) = Some i"

lemma ph_leases_count: "size (filter_mset (\<lambda>l. lease_worker l = i) (ph_leases ph)) = (if on_worker i ph then 1 else 0)"
  by (cases ph) (simp_all add: ph_leases_def on_worker_def phase_lease_def)

lemma ph_permits_count: "count (ph_permits ph) i = (if on_worker i ph \<and> is_executing ph then 1 else 0)"
  by (cases ph) (simp_all add: ph_permits_def on_worker_def phase_lease_def is_executing_def)

lemma leases_at_count:
  "size (filter_mset (\<lambda>l. lease_worker l = i) (leases_at k M)) = size {#x \<in># M. at_pool k x \<and> on_worker i (snd x)#}"
proof (induction M)
  case (add x M)
  then show ?case using ph_leases_count[of i "snd x"] by (simp split: if_splits)
qed simp

lemma permits_at_count: "count (permits_at k M) i = size {#x \<in># M. at_pool k x \<and> on_worker i (snd x) \<and> is_executing (snd x)#}"
  by (induction M) (simp_all add: ph_permits_count)

lemma phases_count:
  "waiting_in M = size {#x \<in># M. is_queueing (snd x)#}"
  "executing_in M = size {#x \<in># M. is_executing (snd x)#}"
  "reserved_in M = size {#x \<in># M. is_backing_off (snd x)#}"
  by (induction M; simp add: ph_waiting_def ph_executing_def ph_reserved_def is_queueing_def is_executing_def is_backing_off_def split: phase.splits)+

lemma pool_at_counts:
  assumes "pool_at f p L E" "i < length (workers p)"
  shows "in_flight (workers p ! i) = size (filter_mset (\<lambda>l. lease_worker l = i) L)"
    "free_slots (workers p ! i) + count E i = concurrency_limit (workers p ! i)"
proof -
  obtain ls es where s: "pool_reachable f (p, ls, es)" "mset ls = L" "mset es = E" using assms(1) by (auto simp: pool_at_def)
  note ok = pool_reachable_ok[OF s(1)]
  have "leases_of ls i = size (filter_mset (\<lambda>l. lease_worker l = i) L)"
    unfolding s(2)[symmetric] leases_of_def by (metis mset_filter size_mset)
  then show "in_flight (workers p ! i) = size (filter_mset (\<lambda>l. lease_worker l = i) L)" using ok assms(2) by (simp add: system_ok_def)
  have "count_list es i = count E i" unfolding s(3)[symmetric] by (simp add: count_mset)
  moreover have "free_slots (workers p ! i) + count_list es i = concurrency_limit (workers p ! i)" using ok assms(2) by (simp add: system_ok_def)
  ultimately show "free_slots (workers p ! i) + count E i = concurrency_limit (workers p ! i)" by simp
qed

section \<open>A gateway with one request\<close>

definition demo_gateway :: "enat gateway" where
  "demo_gateway = \<lparr>gw_pools = [demo_pool RoundRobin], gw_routing = static_workers 0, gw_lease = None, gw_keys = [],
     gw_admission = \<lparr>outstanding_slots = 3, queue_slots = 1, queue_capacity = 1, worker_execution_capacity = 2, outstanding = 0,
       executing = 0, queued = 0, rejected_total = 0, max_observed_outstanding = 0, max_observed_executing = 0, max_observed_queued = 0\<rparr>,
     gw_resilience = demo_resilience,
     gw_edge = \<lparr>edge_cfg = edge_local, credential_slots = 0, buckets = [], rejections = replicate 10 0\<rparr>\<rparr>"

definition demo_context :: request_context where
  "demo_context = \<lparr>request_number = 1, req_started_at = 5, req_deadline = 1000000005\<rparr>"

lemma edge_local_valid: "validate_edge edge_local = Inr ()"
  by (simp add: validate_edge_def validate_positive_bounded_def edge_local_def MAX_MAX_MESSAGES_def MAX_PUBLIC_REQUEST_BYTES_def
      MAX_MAX_OUTPUT_TOKENS_def MAX_RATE_REQUESTS_PER_MINUTE_def MAX_RATE_BURST_def)

lemma demo_gateway_built:
  "build_runtime (demo_pool RoundRobin) (static_workers 0) None [] 1 demo_resilience_config edge_local = Some demo_gateway"
proof -
  have "total_execution_capacity (demo_pool RoundRobin) = 2" by (simp add: demo_pool_def)
  moreover have "new_edge edge_local 0 = Inr \<lparr>edge_cfg = edge_local, credential_slots = 0, buckets = [], rejections = replicate 10 0\<rparr>"
    by (simp add: new_edge_def edge_local_valid) (simp add: edge_local_def)
  ultimately show ?thesis
    using demo_resilience_new by (simp add: build_runtime_def new_admission_def u64_max_def demo_gateway_def static_workers_def)
qed

lemma demo_gateway_reachable: "gateway_reachable demo_ops 0 demo_gateway {#}"
  by (rule gateway_reachable.built[OF demo_pool_config demo_gateway_built])

lemma demo_arrival:
  obtains g q where "admission_middleware (\<lambda>s. None) [] 5 demo_gateway = (g, Ongoing q Reading)" "rq_context q = demo_context"
    "gateway_reachable demo_ops 1 g {#(q, Reading)#}"
proof -
  define r where "r = admission_middleware (\<lambda>s. None) [] 5 demo_gateway"
  obtain g q where r: "r = (g, Ongoing q Reading)" "rq_context q = demo_context"
    by (auto simp: r_def admission_middleware_def authorizes_def authenticate_def demo_gateway_def try_admit_request_def start_request_def
        increment_with_peak_def new_request_def demo_resilience_def demo_resilience_config_def demo_context_def inc64_def wrap64_def)
  have "gateway_reachable demo_ops (Suc 0) g (joined (Ongoing q Reading) {#})"
    by (rule gateway_reachable.arrived_local[OF demo_gateway_reachable]) (use r in \<open>simp add: r_def\<close>)
  then show ?thesis using that r by (simp add: r_def joined_def)
qed

section \<open>The steps of one request\<close>

text \<open>A step takes the request from one await to the next.  Other requests and refreshes act in between, so each step may
  find any gateway at all, as long as its retry limit is the configured \<open>m\<close>.\<close>

inductive handler_step :: "('f::linorder) f64_ops \<Rightarrow> nat \<Rightarrow> request \<times> phase \<Rightarrow> request \<times> phase \<Rightarrow> bool" for f m where
  of_body: "max_retries (rs_config (gw_resilience (g :: 'f gateway))) = m \<Longrightarrow> body_read f affinity body clock lease_now now q g = (g', Ongoing q' ph) \<Longrightarrow>
    handler_step f m (q, Reading) (q', ph)"
| of_queue: "max_retries (rs_config (gw_resilience (g :: 'f gateway))) = m \<Longrightarrow> queue_end granted now1 q l g = Some (g', Ongoing q' ph) \<Longrightarrow>
    handler_step f m (q, Queueing l) (q', ph)"
| of_result: "max_retries (rs_config (gw_resilience (g :: 'f gateway))) = m \<Longrightarrow> attempt_result header_ok now res q l g = (g', Ongoing q' ph) \<Longrightarrow>
    handler_step f m (q, Sending l limit) (q', ph)"
| of_backoff: "max_retries (rs_config (gw_resilience (g :: 'f gateway))) = m \<Longrightarrow> backoff_end f clock slept woke now q g = (g', Ongoing q' ph) \<Longrightarrow>
    handler_step f m (q, Backing_off delay) (q', ph)"

inductive handler_run :: "('f::linorder) f64_ops \<Rightarrow> nat \<Rightarrow> nat \<Rightarrow> request \<times> phase \<Rightarrow> request \<times> phase \<Rightarrow> bool" for f m where
  none: "handler_run f m 0 x x"
| more: "handler_run f m k x y \<Longrightarrow> handler_step f m y z \<Longrightarrow> handler_run f m (Suc k) x z"

definition sent_now :: "phase \<Rightarrow> nat" where
  "sent_now ph = (case ph of Reading \<Rightarrow> 0 | Queueing _ \<Rightarrow> 0 | _ \<Rightarrow> 1)"

definition request_inv :: "nat \<Rightarrow> request \<times> phase \<Rightarrow> bool" where
  "request_inv m x \<longleftrightarrow> rq_retries (fst x) \<le> m \<and> rq_attempts (fst x) = rq_retries (fst x) + sent_now (snd x) \<and>
     (is_backing_off (snd x) \<longrightarrow> rq_retries (fst x) < m) \<and> (snd x = Reading \<longrightarrow> rq_retries (fst x) = 0)"

definition rank :: "nat \<Rightarrow> request \<times> phase \<Rightarrow> nat" where
  "rank m x = 3 * (m - rq_retries (fst x)) + (case snd x of Reading \<Rightarrow> 3 | Queueing _ \<Rightarrow> 2 | Sending _ _ \<Rightarrow> 1 | _ \<Rightarrow> 0)"

lemma attempt_send_next:
  "attempt_send now q l g = (g', Ongoing q' ph) \<Longrightarrow>
   q' = q\<lparr>rq_attempts := Suc (rq_attempts q)\<rparr> \<and> (\<exists>t. ph = Sending l t)"
  by (auto simp: attempt_send_def deadline_now_def return_deadline_def return_reply_def split: option.splits)

lemma attempt_begin_next:
  assumes "attempt_begin f clock now q g = (g', Ongoing q' ph)"
  shows "rq_retries q' = rq_retries q \<and>
    ((\<exists>l. ph = Queueing l \<and> rq_attempts q' = rq_attempts q) \<or> (\<exists>l t. ph = Sending l t \<and> rq_attempts q' = Suc (rq_attempts q)))"
  using assms
  by (auto simp: attempt_begin_def Let_def deadline_now_def return_deadline_def return_reply_def return_overload_def
      public_edge_rejection_def split: if_splits option.splits prod.splits admit_outcome.splits dest!: attempt_send_next)

lemma proxy_start_next:
  assumes "proxy_start f clock lease_now now ctx key g = (g', Ongoing q' ph)"
  shows "rq_retries q' = 0 \<and> ((\<exists>l. ph = Queueing l \<and> rq_attempts q' = 0) \<or> (\<exists>l t. ph = Sending l t \<and> rq_attempts q' = 1))"
proof -
  obtain k where "attempt_begin f clock now (new_request ctx k g) g = (g', Ongoing q' ph)"
    using assms by (auto simp: proxy_start_def Let_def return_reply_def split: option.splits prod.splits lease_admission.splits if_splits)
  from attempt_begin_next[OF this] show ?thesis by (simp add: new_request_def)
qed

lemma plan_granted: "reserve_retry_plan i c = (c', Some d) \<Longrightarrow> i < max_retries (rs_config c)"
  by (auto simp: reserve_retry_plan_def split: if_splits)

lemma retry_or_reply_next:
  "retry_or_reply r q g = (g', Ongoing q' ph) \<Longrightarrow>
   q' = q \<and> (\<exists>d. ph = Backing_off d) \<and> rq_retries q < max_retries (rs_config (gw_resilience g))"
  by (auto simp: retry_or_reply_def return_reply_def split: prod.splits option.splits dest: plan_granted)

lemma respond_next: "respond_upstream header_ok status q l g = (g', Ongoing q' ph) \<Longrightarrow> q' = q \<and> (\<exists>l b o'. ph = Streaming l b o')"
  by (auto simp: respond_upstream_def return_reply_def split: if_splits)

lemma resilience_config_kept [simp]:
  "rs_config (record_transient_failure c) = rs_config c"
  "gw_resilience (drop_lease_of q l g) = gw_resilience g" "gw_resilience (drop_guard_of q l g) = gw_resilience g"
  "fail_attempt now q l g = (g', l') \<Longrightarrow> rs_config (gw_resilience g') = rs_config (gw_resilience g)"
  by (auto simp: record_transient_failure_def drop_lease_of_def drop_guard_of_def set_pool_def on_admission_def on_resilience_def
      fail_attempt_def Let_def split: prod.splits)

lemma attempt_result_next:
  assumes "attempt_result header_ok now res q l g = (g', Ongoing q' ph)"
  shows "q' = q \<and> ((\<exists>l b o'. ph = Streaming l b o') \<or> (\<exists>d. ph = Backing_off d) \<and> rq_retries q < max_retries (rs_config (gw_resilience g)))"
proof (cases res)
  case (Response status)
  then show ?thesis
    using assms by (auto simp: attempt_result_def split: if_splits prod.splits option.splits dest!: respond_next plan_granted)
next
  case (SendError c t)
  then show ?thesis
    using assms by (auto simp: attempt_result_def Let_def deadline_now_def return_deadline_def return_reply_def
        split: if_splits prod.splits dest!: retry_or_reply_next)
next
  case AttemptTimedOut
  then show ?thesis
    using assms by (auto simp: attempt_result_def Let_def deadline_now_def return_deadline_def return_reply_def
        split: if_splits prod.splits dest!: retry_or_reply_next)
qed

lemma backoff_next:
  assumes "backoff_end f clock slept woke now q g = (g', Ongoing q' ph)"
  shows "rq_retries q' = Suc (rq_retries q) \<and>
    ((\<exists>l. ph = Queueing l \<and> rq_attempts q' = rq_attempts q) \<or> (\<exists>l t. ph = Sending l t \<and> rq_attempts q' = Suc (rq_attempts q)))"
  using assms by (auto simp: backoff_end_def return_deadline_def return_reply_def split: if_splits dest!: attempt_begin_next)

lemma queue_next: "queue_end granted now1 q l g = Some (g', Ongoing q' ph) \<Longrightarrow>
   q' = q\<lparr>rq_attempts := Suc (rq_attempts q)\<rparr> \<and> (\<exists>t. ph = Sending l t)"
  by (auto simp: queue_end_def deadline_now_def return_deadline_def return_reply_def split: if_splits option.splits dest!: attempt_send_next)

lemma body_next:
  assumes "body_read f affinity body clock lease_now now q g = (g', Ongoing q' ph)"
  shows "rq_retries q' = 0 \<and> ((\<exists>l. ph = Queueing l \<and> rq_attempts q' = 0) \<or> (\<exists>l t. ph = Sending l t \<and> rq_attempts q' = 1))"
proof (cases body)
  case (Some b)
  then have "proxy_start f clock lease_now now (rq_context q) (affinity b) g = (g', Ongoing q' ph)"
    using assms by (simp add: body_read_def)
  then show ?thesis by (rule proxy_start_next)
qed (use assms in \<open>simp add: body_read_def return_reply_def\<close>)

lemma request_inv_simps:
  "request_inv m (q, Reading) \<longleftrightarrow> rq_retries q = 0 \<and> rq_attempts q = 0"
  "request_inv m (q, Queueing l) \<longleftrightarrow> rq_retries q \<le> m \<and> rq_attempts q = rq_retries q"
  "request_inv m (q, Sending l t) \<longleftrightarrow> rq_retries q \<le> m \<and> rq_attempts q = Suc (rq_retries q)"
  "request_inv m (q, Backing_off d) \<longleftrightarrow> rq_retries q < m \<and> rq_attempts q = Suc (rq_retries q)"
  "request_inv m (q, Streaming l b o') \<longleftrightarrow> rq_retries q \<le> m \<and> rq_attempts q = Suc (rq_retries q)"
  by (auto simp: request_inv_def sent_now_def is_backing_off_def)

lemma rank_simps:
  "rank m (q, Reading) = 3 * (m - rq_retries q) + 3" "rank m (q, Queueing l) = 3 * (m - rq_retries q) + 2"
  "rank m (q, Sending l t) = 3 * (m - rq_retries q) + 1" "rank m (q, Backing_off d) = 3 * (m - rq_retries q)"
  "rank m (q, Streaming l b o') = 3 * (m - rq_retries q)"
  by (simp_all add: rank_def)

lemma handler_step_progress:
  assumes "handler_step f m x y" "request_inv m x"
  shows "request_inv m y \<and> rank m y < rank m x"
  using assms
proof (induction rule: handler_step.induct)
  case (of_body g affinity body clock lease_now now q g' q' ph)
  then show ?case using body_next[OF of_body.hyps(2)] by (auto simp: request_inv_simps rank_simps)
next
  case (of_queue g granted now1 q l g' q' ph)
  then show ?case using queue_next[OF of_queue.hyps(2)] by (auto simp: request_inv_simps rank_simps)
next
  case (of_result g header_ok now res q l g' q' ph limit)
  then show ?case using attempt_result_next[OF of_result.hyps(2)] by (auto simp: request_inv_simps rank_simps)
next
  case (of_backoff g clock slept woke now q g' q' ph delay)
  then show ?case using backoff_next[OF of_backoff.hyps(2)] by (auto simp: request_inv_simps rank_simps)
qed

lemma handler_run_progress:
  "handler_run f m k x y \<Longrightarrow> request_inv m x \<Longrightarrow> request_inv m y \<and> k + rank m y \<le> rank m x"
proof (induction rule: handler_run.induct)
  case (more k x y z)
  then show ?case using handler_step_progress[OF more.hyps(2)] by auto
qed simp

definition demo_request :: request where
  "demo_request = new_request demo_context None demo_gateway"

lemma demo_handler_step: "\<exists>q' l t. handler_step demo_ops 2 (demo_request, Reading) (q', Sending l t)"
proof -
  have sel: "\<exists>p l. select_worker demo_ops (\<lambda>_. 7) demo_request demo_gateway = (p, Some l) \<and> lease_worker l = 0 \<and> free_slots (workers p ! 0) = 1 \<and>
      length (workers p) = 2"
    by (simp add: select_worker_def demo_request_def new_request_def req_pool_def demo_gateway_def static_workers_def try_choose_def
        demo_pool_def demo_pair_def try_choose_round_robin_def fetch_next_def rotated_indices_def drop_index_def new_worker_def new_circuit_def
        try_acquire_at_def refresh_open_state_def lease_def update_worker_def upt_rec case_prod_beta Let_def)
  then obtain p l where s: "select_worker demo_ops (\<lambda>_. 7) demo_request demo_gateway = (p, Some l)" "lease_worker l = 0"
    "free_slots (workers p ! 0) = 1" by blast
  have "\<exists>g' q' t. body_read demo_ops (\<lambda>b. b) (Some []) (\<lambda>_. 7) 7 (7, 8) demo_request demo_gateway = (g', Ongoing q' (Sending l t))"
  proof -
    have "body_read demo_ops (\<lambda>b. b) (Some []) (\<lambda>_. 7) 7 (7, 8) demo_request demo_gateway =
        attempt_begin demo_ops (\<lambda>_. 7) (7, 8) demo_request demo_gateway"
      by (simp add: body_read_def proxy_start_def demo_request_def) (simp add: demo_gateway_def new_request_def static_workers_def demo_pool_def)
    moreover have "remaining 7 (rq_context demo_request) = Some 999999998" "remaining 8 (rq_context demo_request) = Some 999999997"
      by (simp_all add: remaining_def demo_request_def new_request_def demo_context_def)
    ultimately show ?thesis
      using s by (simp add: attempt_begin_def Let_def admit_worker_begin_def try_reserve_execution_def attempt_send_def)
  qed
  then obtain g' q' t where "body_read demo_ops (\<lambda>b. b) (Some []) (\<lambda>_. 7) 7 (7, 8) demo_request demo_gateway = (g', Ongoing q' (Sending l t))"
    by blast
  moreover have "max_retries (rs_config (gw_resilience demo_gateway)) = 2"
    by (simp add: demo_gateway_def demo_resilience_def demo_resilience_config_def)
  ultimately show ?thesis using handler_step.of_body by blast
qed

section \<open>Guarantees\<close>

text \<open>C27.  Nothing leaks.  In every gateway reachable by any interleaving of arrivals, upstream outcomes, backoffs, stream
  chunks, client cancellations, deadlines and routing refreshes, the outstanding, queued and executing numbers
  are those of the requests under way in the corresponding phases and stay within the configured
  capacities; the retry slots in use are the retries granted plus the requests backing off; and in every
  pool, the old ones included, a worker's in-flight number counts the requests that hold a lease on it
  and its free permits are its limit minus the requests executing on it.  So with no request under
  way everything has been returned.\<close>

theorem gateway_accounts_for_requests:
  assumes "gateway_reachable f n g M" "n \<le> u64_max"
  shows "(let a = gw_admission g; c = gw_resilience g in
      outstanding a = size M \<and> size M \<le> worker_execution_capacity a + queue_capacity a \<and>
      queued a = size {#x \<in># M. is_queueing (snd x)#} \<and> queued a \<le> queue_capacity a \<and>
      executing a = size {#x \<in># M. is_executing (snd x)#} \<and>
      retry_slots_used c = retries_granted c + size {#x \<in># M. is_backing_off (snd x)#} \<and>
      (\<forall>k<length (gw_pools g). \<forall>i<length (workers (gw_pools g ! k)). let w = workers (gw_pools g ! k) ! i in
         in_flight w = size {#x \<in># M. at_pool k x \<and> on_worker i (snd x)#} \<and>
         free_slots w + size {#x \<in># M. at_pool k x \<and> on_worker i (snd x) \<and> is_executing (snd x)#} = concurrency_limit w))"
proof -
  have r: "rest f n g M" by (rule gateway_at_rest[OF assms(1)])
  obtain m where m: "m \<le> n" "retry_reachable m (gw_resilience g, [], reserved_in M)" using r by (auto simp: rest_def)
  then have inv: "retry_inv m (gw_resilience g, [], reserved_in M)" using assms(2) by (intro retry_reachable_inv) auto
  have "pool_at f (gw_pools g ! k) (leases_at k M) (permits_at k M)" if "k < length (gw_pools g)" for k
    using r that by (simp add: rest_def)
  then have "in_flight (workers (gw_pools g ! k) ! i) = size {#x \<in># M. at_pool k x \<and> on_worker i (snd x)#} \<and>
      free_slots (workers (gw_pools g ! k) ! i) + size {#x \<in># M. at_pool k x \<and> on_worker i (snd x) \<and> is_executing (snd x)#}
        = concurrency_limit (workers (gw_pools g ! k) ! i)"
    if "k < length (gw_pools g)" "i < length (workers (gw_pools g ! k))" for k i
    using pool_at_counts[of f "gw_pools g ! k" "leases_at k M" "permits_at k M" i] that leases_at_count permits_at_count by simp
  then show ?thesis using r inv by (auto simp: rest_def admission_ok_def retry_inv_def Let_def phases_count)
qed

theorem gateway_accounts_for_requests_witness:
  "\<exists>g q. gateway_reachable demo_ops 1 g {#(q, Reading)#} \<and> outstanding (gw_admission g) = 1 \<and> queued (gw_admission g) = 0"
proof -
  obtain g q where "gateway_reachable demo_ops 1 g {#(q, Reading)#}" using demo_arrival by blast
  then show ?thesis
    using gateway_accounts_for_requests[of demo_ops 1 g "{#(q, Reading)#}"]
    by - (rule exI[of _ g], rule exI[of _ q], auto simp: Let_def u64_max_def is_queueing_def)
qed



text \<open>C28.  The retry loop ends.  Whatever the other requests do at its awaits, a request takes at most three handler steps
  per permitted attempt before it replies or streams: a run of \<open>k\<close> steps from reading the body has
  \<open>k\<close> at most three times one more than the retry limit, it never starts more attempts than one more
  than the limit, and the attempt number it reports is its retries plus the one under way.\<close>

theorem retry_loop_terminates:
  assumes "handler_run f m k (q, Reading) (q', ph)" "rq_retries q = 0" "rq_attempts q = 0"
  shows "k \<le> 3 * (m + 1) \<and> rq_attempts q' \<le> m + 1 \<and> rq_attempts q' = rq_retries q' + sent_now ph"
proof -
  have "request_inv m (q, Reading)" using assms(2,3) by (simp add: request_inv_simps)
  from handler_run_progress[OF assms(1) this] have "request_inv m (q', ph)" "k \<le> rank m (q, Reading)" by auto
  then show ?thesis using assms(2) by (auto simp: request_inv_def rank_simps sent_now_def split: phase.splits)
qed

theorem retry_loop_terminates_witness:
  "\<exists>q' l t. handler_run demo_ops 2 1 (demo_request, Reading) (q', Sending l t) \<and> rq_attempts q' \<le> 3"
proof -
  obtain q' l t where "handler_step demo_ops 2 (demo_request, Reading) (q', Sending l t)" using demo_handler_step by blast
  from handler_run.more[OF handler_run.none this] have r: "handler_run demo_ops 2 1 (demo_request, Reading) (q', Sending l t)" by simp
  have "rq_retries demo_request = 0" "rq_attempts demo_request = 0" by (simp_all add: demo_request_def new_request_def)
  then have "rq_attempts q' \<le> 2 + 1" using retry_loop_terminates[OF r] by blast
  then show ?thesis using r by (intro exI[of _ q'] exI[of _ l] exI[of _ t]) simp
qed

end
