(* ===== verification/Control_Props.thy ===== *)
theory Control_Props
  imports Control_Life Gateway_Props
begin

text \<open>
  What the gateway guarantees about the configurations it takes from the control plane.
\<close>

section \<open>Refresh is a step of the request model\<close>

lemma pool_from_config: "build_pool f ws policy t = Inr p \<Longrightarrow> \<exists>rc cc. from_config f ws rc cc = Inr p"
  by (auto simp: build_pool_def split: sum.splits)

lemma confirm_reachable: "gateway_reachable f n (cs_gateway s) M \<Longrightarrow> gateway_reachable f n (cs_gateway (confirm v ms t s)) M"
  by (auto simp: confirm_def Let_def intro: gateway_reachable.renewed)

lemma apply_reachable:
  assumes g: "gateway_reachable f n (cs_gateway s) M" and ap: "apply_verified codec w v pool ms outcome removed s = (s', ok)"
    and p: "\<And>p. pool = Some p \<Longrightarrow> \<exists>ws rc cc. from_config f ws rc cc = Inr p"
  shows "gateway_reachable f n (cs_gateway s') M"
proof -
  obtain d x where x: "save codec ms outcome removed (vc_committed v) (cs_disk s) = (d, x)" by (cases "save codec ms outcome removed (vc_committed v) (cs_disk s)")
  consider "cs_gateway s' = cs_gateway s" | r where "cs_gateway s' = (case pool of Some p \<Rightarrow> install_routing p r (cs_gateway s) | None \<Rightarrow> rekey_routing r (cs_gateway s))"
    using ap x by (cases x) (auto simp: apply_verified_def Let_def split: if_splits)
  then show ?thesis
  proof cases
    case 2
    then show ?thesis using g p by (cases pool) (auto intro: gateway_reachable.rekeyed gateway_reachable.refreshed)
  qed (use g in simp)
qed

lemma poll_reachable:
  fixes s :: "('f::linorder) control_state"
  assumes g: "gateway_reachable f n (cs_gateway s) M"
    and poll: "watch_poll f cr codec w answers now_ms saved_ms outcome removed verified_at_ms now s = s'"
  shows "gateway_reachable f n (cs_gateway s') M"
  using poll_effect[OF poll]
proof (elim disjE exE conjE)
  fix st v pool s1 ok
  assume p: "\<forall>p. pool = Some p \<longrightarrow> (\<exists>ws policy. build_pool f ws policy (wc_template w) = Inr p)"
    and ap: "apply_verified codec w v pool saved_ms outcome removed (s\<lparr>cs_status := st\<rparr>) = (s1, ok)"
    and s': "s' = (if ok then confirm v verified_at_ms now s1 else s1)"
  have "gateway_reachable f n (cs_gateway s1) M"
  proof (rule apply_reachable[OF _ ap])
    show "gateway_reachable f n (cs_gateway (s\<lparr>cs_status := st\<rparr>)) M" using g by simp
    show "\<exists>ws rc cc. from_config f ws rc cc = Inr p" if "pool = Some p" for p using that p pool_from_config by blast
  qed
  then show ?thesis using s' confirm_reachable by (auto split: if_splits)
next
  fix st v
  assume "s' = confirm v verified_at_ms now (s\<lparr>cs_status := st\<rparr>)"
  then show ?thesis using g confirm_reachable[of f n "s\<lparr>cs_status := st\<rparr>"] by simp
qed (use g in simp)

section \<open>A gateway that follows a control plane\<close>

definition demo_committed :: "nat \<Rightarrow> committed" where
  "demo_committed n = \<lparr>cm_cluster_id = ''c'', cm_revision = n, cm_term = 1,
     cm_configuration = \<lparr>st_routing_policy = ''rr'',
       st_workers = [\<lparr>sw_id = ''a'', sw_base_url = ''u'', sw_weight = 2\<rparr>, \<lparr>sw_id = ''b'', sw_base_url = ''v'', sw_weight = 1\<rparr>]\<rparr>,
     cm_authentication = None\<rparr>"

definition demo_snapshot :: "nat \<Rightarrow> persisted_snapshot" where
  "demo_snapshot n = \<lparr>ps_schema = ROUTING_SNAPSHOT_SCHEMA, ps_saved_at_ms = 9, ps_committed = demo_committed n\<rparr>"

definition demo_codec :: snapshot_codec where
  "demo_codec = \<lparr>to_vec_pretty = (\<lambda>s. if s = demo_snapshot 1 then Some ''1'' else if s = demo_snapshot 2 then Some ''2'' else None),
     from_slice = (\<lambda>b. if b = ''1'' @ line_break then Some (demo_snapshot 1) else if b = ''2'' @ line_break then Some (demo_snapshot 2) else None)\<rparr>"

definition demo_crypto :: "(unit, unit) crypto" where
  "demo_crypto = \<lparr>base64_decode = (\<lambda>s. Some s), base64_encode = (\<lambda>s. s), signing_key = (\<lambda>_. ()), verifying_key = (\<lambda>_. Some ()),
     sign_bytes = (\<lambda>_ m. m), verify_strict = (\<lambda>_ m s. True)\<rparr>"

definition demo_watcher :: "(enat, unit) watcher_config" where
  "demo_watcher = \<lparr>wc_template = \<lparr>pt_ewma_alpha = 1, pt_ewma_probe_interval = 10, pt_virtual_nodes = 1, pt_worker_concurrency_limit = 1,
       pt_circuit_breaker = default_circuit_config\<rparr>,
     wc_store = True, wc_freshness = default_freshness_policy, wc_expected = ''c'', wc_authenticator = AuthDisabled\<rparr>"

definition demo_verified :: "nat \<Rightarrow> verified_configuration" where
  "demo_verified n = \<lparr>vc_source_url = ''x'', vc_committed = demo_committed n, vc_signing_key_id = None\<rparr>"

lemma demo_revision [simp]: "cm_revision (demo_committed n) = n" "demo_committed n = demo_committed m \<longleftrightarrow> n = m" "demo_snapshot n = demo_snapshot m \<longleftrightarrow> n = m"
  by (simp_all add: demo_committed_def demo_snapshot_def)

lemma demo_laws: "codec_reads_back demo_codec" "never_full demo_codec"
  by (auto simp: codec_reads_back_def never_full_def demo_codec_def MAX_SNAPSHOT_BYTES_def split: if_splits)

lemma demo_wait:
  "wait_for_control_configuration demo_crypto (wc_authenticator demo_watcher) (wc_expected demo_watcher) 10 no_wait_error
     [([(''x'', Some (demo_committed 1))], 1)] = Some (Inr (demo_verified 1))"
  by (simp add: fetch_control_configuration_def verify_committed_def demo_watcher_def demo_verified_def demo_committed_def empty_fetch_def Let_def)

lemma demo_policy [simp]: "policy_from_str ''rr'' = Inr RoundRobin"
proof -
  have "trim ''rr'' = ''rr''" by (rule trim_alnum; simp add: is_ascii_alphanumeric_def)
  then show ?thesis by (simp add: policy_from_str_def to_ascii_lower_def)
qed

lemma demo_committed_valid: "n \<noteq> 0 \<Longrightarrow> validate_committed (demo_committed n) = Inr ()"
proof -
  have "validate_control_cluster_id ''c'' = Inr ()" by (simp add: validate_control_cluster_id_def identifier_char_def is_ascii_alphanumeric_def)
  moreover have "trim ''a'' = ''a''" "trim ''b'' = ''b''" by (rule trim_alnum; simp add: is_ascii_alphanumeric_def)+
  moreover assume "n \<noteq> 0"
  ultimately show ?thesis by (simp add: validate_committed_def demo_committed_def)
qed

lemma demo_rebuilt:
  "and_then (committed_pool_input (demo_committed n)) (\<lambda>(ws, policy). build_pool demo_ops ws policy (wc_template demo_watcher)) = Inr (demo_pool RoundRobin)"
  using demo_pool_config[of RoundRobin]
  by (simp add: committed_pool_input_def demo_committed_def build_pool_def demo_watcher_def demo_routing_def demo_pair_def)

lemma demo_save:
  assumes "n = 1 \<or> n = 2"
  shows "\<exists>d'. save demo_codec 9 SaveSucceeds True (demo_committed n) d = (d', Inr (demo_snapshot n))"
proof -
  have s: "\<lparr>ps_schema = ROUTING_SNAPSHOT_SCHEMA, ps_saved_at_ms = 9, ps_committed = demo_committed n\<rparr> = demo_snapshot n" by (simp add: demo_snapshot_def)
  have v: "validate_snapshot (demo_snapshot n) = Inr ()" using assms demo_committed_valid[of n] by (auto simp: validate_snapshot_def demo_snapshot_def)
  show ?thesis unfolding save_def Let_def s v using assms by (auto simp: demo_codec_def write_snapshot_def MAX_SNAPSHOT_BYTES_def Let_def)
qed

lemma demo_started:
  "\<exists>d' s. start_gateway demo_ops demo_crypto demo_codec demo_watcher None [] 1 demo_resilience_config edge_local True (Inr (demo_verified 1))
     9 9 SaveSucceeds True 9 9 \<lparr>sd_target = None, sd_temporary = None\<rparr> = (d', Inr s) \<and> cs_applied s = demo_committed 1 \<and>
     gw_routing (cs_gateway s) = committed_authenticated 0 ''c'' None 1 1"
proof -
  obtain d' where d': "save demo_codec 9 SaveSucceeds True (demo_committed 1) \<lparr>sd_target = None, sd_temporary = None\<rparr> = (d', Inr (demo_snapshot 1))"
    using demo_save[of 1] by blast
  have w: "wc_store demo_watcher" "demo_watcher\<lparr>wc_store := True\<rparr> = demo_watcher" by (simp_all add: demo_watcher_def)
  have boot: "bootstrap_control_configuration demo_crypto (wc_authenticator demo_watcher) (wc_expected demo_watcher) (wc_freshness demo_watcher) 9 None
      (Inr (demo_verified 1)) = Inr \<lparr>ic_source_url = Some ''x'', ic_committed = demo_committed 1, ic_signing_key_id = None, ic_source = Live,
        ic_snapshot_age_ms = None, ic_persisted_at_ms = None, ic_persisted_expires_at_ms = None\<rparr>"
    using demo_committed_valid[of 1] by (simp add: bootstrap_control_configuration_def demo_verified_def)
  have run: "\<exists>g. build_runtime (demo_pool RoundRobin) r None [] 1 demo_resilience_config edge_local = Some g" for r
    using demo_gateway_built by (auto simp: build_runtime_def split: sum.splits)
  then obtain g where g: "build_runtime (demo_pool RoundRobin) (committed_authenticated 0 ''c'' None 1 1) None [] 1 demo_resilience_config edge_local = Some g" by blast
  have c: "cm_cluster_id (demo_committed 1) = ''c''" "cm_term (demo_committed 1) = 1" by (simp_all add: demo_committed_def)
  have l: "load demo_codec True \<lparr>sd_target = None, sd_temporary = None\<rparr> = Inl SnapshotMissing" by (simp add: load_def)
  show ?thesis
    unfolding start_gateway_def Let_def l if_P[OF w(1)] sum.case boot
    using d' g built_routing[OF g] w(1) c demo_rebuilt[of 1]
    by (simp add: initial_lease_def committed_authenticated_def)
qed

lemma demo_polled:
  assumes s: "cs_applied s = demo_committed 1" "gw_routing (cs_gateway s) = committed_authenticated 0 ''c'' None 1 1"
  shows "cs_applied (watch_poll demo_ops demo_crypto demo_codec demo_watcher [(''x'', Some (demo_committed 2))] 9 9 SaveSucceeds True 9 9 s) = demo_committed 2"
proof -
  have f: "fetch_control_configuration demo_crypto (wc_authenticator demo_watcher) (wc_expected demo_watcher) [(''x'', Some (demo_committed 2))] =
      \<lparr>fe_configuration = Some (demo_verified 2), fe_mismatches = [], fe_failures = []\<rparr>"
    by (simp add: fetch_control_configuration_def verify_committed_def demo_watcher_def demo_verified_def demo_committed_def empty_fetch_def)
  have v: "vc_committed (demo_verified 2) = demo_committed 2" "vc_signing_key_id (demo_verified 2) = None" by (simp_all add: demo_verified_def)
  have w: "wc_store demo_watcher" "wc_authenticator demo_watcher = AuthDisabled" by (simp_all add: demo_watcher_def)
  obtain d' where d': "save demo_codec 9 SaveSucceeds True (demo_committed 2) (cs_disk s) = (d', Inr (demo_snapshot 2))" using demo_save[of 2] by blast
  show ?thesis
    unfolding watch_poll_def Let_def f
    using s d' demo_committed_valid[of 2] w demo_rebuilt[of 2] v
    by (simp add: committed_authenticated_def key_transition_def apply_verified_def confirm_def Let_def note_rejections_def)
qed

lemma demo_life:
  "\<exists>s. life demo_ops demo_crypto demo_codec demo_watcher [demo_committed 1, demo_committed 2] (Up s)"
proof -
  obtain d' s where start: "start_gateway demo_ops demo_crypto demo_codec demo_watcher None [] 1 demo_resilience_config edge_local True (Inr (demo_verified 1))
     9 9 SaveSucceeds True 9 9 \<lparr>sd_target = None, sd_temporary = None\<rparr> = (d', Inr s)" and s: "cs_applied s = demo_committed 1"
     "gw_routing (cs_gateway s) = committed_authenticated 0 ''c'' None 1 1"
    using demo_started by blast
  have "life demo_ops demo_crypto demo_codec demo_watcher ([] @ [cs_applied s]) (Up s)"
    by (rule life.started[OF life.born demo_wait start])
  from life.polled[OF this refl] show ?thesis
    using demo_polled[OF s] s(1) by (metis append_Cons append_Nil)
qed

section \<open>Guarantees\<close>





text \<open>C33.  The size limit is off by one.  The limit is checked before the final line break is written, so a snapshot
  whose encoding has exactly the permitted size is saved with success and then refused by every load.\<close>

theorem full_snapshot_is_lost:
  assumes "to_vec_pretty codec \<lparr>ps_schema = ROUTING_SNAPSHOT_SCHEMA, ps_saved_at_ms = now_ms, ps_committed = c\<rparr> = Some bytes"
    "length bytes = MAX_SNAPSHOT_BYTES" "validate_committed c = Inr ()"
  shows "\<exists>d' s. save codec now_ms SaveSucceeds removed c d = (d', Inr s) \<and> load codec readable d' = Inl SnapshotTooLarge"
  using assms by (simp add: save_def validate_snapshot_def write_snapshot_def load_def Let_def)

theorem full_snapshot_is_lost_witness:
  "\<exists>d' s. save \<lparr>to_vec_pretty = (\<lambda>s. Some (replicate MAX_SNAPSHOT_BYTES CHR ''x'')), from_slice = (\<lambda>b. None)\<rparr> 9 SaveSucceeds True (demo_committed 1)
      \<lparr>sd_target = None, sd_temporary = None\<rparr> = (d', Inr s) \<and>
    load \<lparr>to_vec_pretty = (\<lambda>s. Some (replicate MAX_SNAPSHOT_BYTES CHR ''x'')), from_slice = (\<lambda>b. None)\<rparr> True d' = Inl SnapshotTooLarge"
  by (rule full_snapshot_is_lost[OF _ length_replicate[of MAX_SNAPSHOT_BYTES "CHR ''x''"] demo_committed_valid]) simp_all



end
