(* ===== verification/Service_Auth.thy ===== *)
theory Service_Auth
  imports Control_Auth Text_Format
begin

text \<open>
  Signed requests between services (\<open>service-auth/src/lib.rs\<close>): the canonical bytes of a request, rings of trusted
  service credentials with two kinds of revocation, signing with a nonce sequence, and verification.
  Base64 and Ed25519 are the parameters of \<open>Control_Auth\<close>.
\<close>

section \<open>Requests\<close>

record service_payload =
  sp_method :: string
  sp_path :: string
  sp_cluster_id :: string
  sp_audience_id :: string
  sp_issued_at_ms :: nat
  sp_nonce :: string
  sp_body :: string

record service_authentication =
  sv_schema :: string
  sv_algorithm :: string
  sv_service_id :: string
  sv_audience_id :: string
  sv_issued_at_ms :: nat
  sv_nonce :: string
  sv_signature :: string

datatype service_error = SvcInvalid | SvcUnknownService | SvcRevokedService | SvcRevokedCredential string | SvcSignature

definition SERVICE_AUTHENTICATION_SCHEMA :: string where "SERVICE_AUTHENTICATION_SCHEMA = ''inferlab.service-authentication.v1''"
definition SERVICE_PAYLOAD_DOMAIN :: string where "SERVICE_PAYLOAD_DOMAIN = ''inferlab.service-request.v1'' @ [char_of (0::nat)]"
definition MAX_SERVICE_NONCE_BYTES :: nat where "MAX_SERVICE_NONCE_BYTES = 160"
definition MAX_CREDENTIALS_PER_SERVICE :: nat where "MAX_CREDENTIALS_PER_SERVICE = 16"
definition MAX_TRUSTED_CREDENTIALS :: nat where "MAX_TRUSTED_CREDENTIALS = 256"
definition LEGACY_CREDENTIAL_ID :: string where "LEGACY_CREDENTIAL_ID = ''legacy''"

text \<open>Errors of the helpers that this crate shares with \<open>control-auth\<close> are all of kind \<open>Invalid\<close> here.\<close>

definition invalid :: "(auth_error, 'a) result \<Rightarrow> (service_error, 'a) result" where
  "invalid r = (case r of Inl _ \<Rightarrow> Inl SvcInvalid | Inr x \<Rightarrow> Inr x)"

definition validate_id :: "string \<Rightarrow> (service_error, unit) result" where
  "validate_id v = invalid (validate_key_id v)"

definition validate_service_nonce :: "string \<Rightarrow> (service_error, unit) result" where
  "validate_service_nonce v =
     (if MIN_NONCE_BYTES \<le> length v \<and> length v \<le> MAX_SERVICE_NONCE_BYTES \<and> list_all identifier_char v then Inr () else Inl SvcInvalid)"

definition validate_service_authentication :: "service_authentication \<Rightarrow> (service_error, unit) result" where
  "validate_service_authentication a =
     (if sv_schema a \<noteq> SERVICE_AUTHENTICATION_SCHEMA then Inl SvcInvalid
      else if sv_algorithm a \<noteq> SIGNATURE_ALGORITHM then Inl SvcInvalid
      else and_then (validate_id (sv_service_id a)) (\<lambda>_.
           and_then (validate_id (sv_audience_id a)) (\<lambda>_. validate_service_nonce (sv_nonce a))))"

definition canonical_service_payload :: "service_payload \<Rightarrow> string \<Rightarrow> (service_error, string) result" where
  "canonical_service_payload p service_id =
     and_then (validate_id service_id) (\<lambda>_.
     and_then (validate_id (sp_audience_id p)) (\<lambda>_.
     and_then (validate_service_nonce (sp_nonce p)) (\<lambda>_.
     and_then (invalid (append_strings SERVICE_PAYLOAD_DOMAIN
       [SERVICE_AUTHENTICATION_SCHEMA, SIGNATURE_ALGORITHM, service_id, sp_audience_id p, sp_method p, sp_path p, sp_cluster_id p])) (\<lambda>bytes.
       invalid (append_strings (bytes @ be_bytes 8 (sp_issued_at_ms p)) [sp_nonce p, sp_body p])))))"

section \<open>Signing\<close>

record 's service_identity =
  id_service_id :: string
  id_credential_id :: string
  id_key :: 's
  id_sequence :: nat

definition service_identity_from_seed :: "('s, 'k) crypto \<Rightarrow> string \<Rightarrow> string \<Rightarrow> string \<Rightarrow> (service_error, 's service_identity) result" where
  "service_identity_from_seed c service_id credential_id encoded_seed =
     and_then (validate_id service_id) (\<lambda>_.
     and_then (validate_id credential_id) (\<lambda>_.
     and_then (invalid (decode_exact c 32 encoded_seed)) (\<lambda>bytes.
       Inr \<lparr>id_service_id = service_id, id_credential_id = credential_id, id_key = signing_key c bytes, id_sequence = 0\<rparr>)))"

definition next_service_nonce :: "nat \<Rightarrow> nat \<Rightarrow> 's service_identity \<Rightarrow> 's service_identity \<times> (service_error, string) result" where
  "next_service_nonce pid issued_at_ms i =
     (if id_sequence i = u64_max then (i, Inl SvcInvalid)
      else (i\<lparr>id_sequence := Suc (id_sequence i)\<rparr>,
            Inr (dec_string issued_at_ms @ ''.'' @ dec_string pid @ ''.'' @ dec_string (id_sequence i))))"

definition authenticate_with_signing_key :: "('s, 'k) crypto \<Rightarrow> string \<Rightarrow> 's \<Rightarrow> service_payload \<Rightarrow> (service_error, service_authentication) result" where
  "authenticate_with_signing_key c service_id key p =
     and_then (canonical_service_payload p service_id) (\<lambda>message.
       Inr \<lparr>sv_schema = SERVICE_AUTHENTICATION_SCHEMA, sv_algorithm = SIGNATURE_ALGORITHM, sv_service_id = service_id,
            sv_audience_id = sp_audience_id p, sv_issued_at_ms = sp_issued_at_ms p, sv_nonce = sp_nonce p,
            sv_signature = base64_encode c (sign_bytes c key message)\<rparr>)"

definition authenticate_at ::
  "('s, 'k) crypto \<Rightarrow> nat \<Rightarrow> string \<Rightarrow> string \<Rightarrow> string \<Rightarrow> string \<Rightarrow> string \<Rightarrow> nat \<Rightarrow> 's service_identity
     \<Rightarrow> 's service_identity \<times> (service_error, service_authentication) result" where
  "authenticate_at c pid method path cluster_id audience_id body issued_at_ms i =
     (let (i, nonce) = next_service_nonce pid issued_at_ms i
      in (i, and_then nonce (\<lambda>nonce. authenticate_with_signing_key c (id_service_id i) (id_key i)
               \<lparr>sp_method = method, sp_path = path, sp_cluster_id = cluster_id, sp_audience_id = audience_id,
                sp_issued_at_ms = issued_at_ms, sp_nonce = nonce, sp_body = body\<rparr>)))"

section \<open>Trusted credentials\<close>

text \<open>A credential keeps the bytes of its public key beside the key, since the parser compares them.\<close>

record 'k trusted_credential =
  tc_credential_id :: string
  tc_bytes :: string
  tc_key :: 'k

record 'k service_ring =
  sr_keys :: "(string \<times> 'k trusted_credential list) list"
  sr_services :: "string list"
  sr_credentials :: "(string \<times> string) list"
  sr_revoked_services :: "string list"
  sr_revoked_credentials :: "(string \<times> string) list"

definition empty_service_ring :: "'k service_ring" where
  "empty_service_ring = \<lparr>sr_keys = [], sr_services = [], sr_credentials = [], sr_revoked_services = [], sr_revoked_credentials = []\<rparr>"

definition credentials_of :: "'k service_ring \<Rightarrow> string \<Rightarrow> 'k trusted_credential list" where
  "credentials_of r service_id = (case map_of (sr_keys r) service_id of None \<Rightarrow> [] | Some cs \<Rightarrow> cs)"

definition qualified_id :: "string \<Rightarrow> string \<Rightarrow> string" where
  "qualified_id service_id credential_id = service_id @ ''/'' @ credential_id"

definition parse_qualified_credential :: "string \<Rightarrow> (service_error, string \<times> string) result" where
  "parse_qualified_credential v =
     (let (service_id, credential_id) = (case split_once (CHR ''/'') v of None \<Rightarrow> (v, LEGACY_CREDENTIAL_ID) | Some x \<Rightarrow> x)
      in and_then (validate_id service_id) (\<lambda>_. and_then (validate_id credential_id) (\<lambda>_. Inr (service_id, credential_id))))"

definition add_credential :: "string \<Rightarrow> string \<Rightarrow> string \<Rightarrow> 'k \<Rightarrow> 'k service_ring \<Rightarrow> (service_error, 'k service_ring) result" where
  "add_credential service_id credential_id bytes key r =
     (let credentials = credentials_of r service_id
      in if list_ex (\<lambda>c. tc_credential_id c = credential_id) credentials then Inl SvcInvalid
         else if list_ex (\<lambda>c. tc_bytes c = bytes) credentials then Inl SvcInvalid
         else if MAX_CREDENTIALS_PER_SERVICE \<le> length credentials then Inl SvcInvalid
         else if MAX_TRUSTED_CREDENTIALS < Suc (length (sr_credentials r)) then Inl SvcInvalid
         else Inr (r\<lparr>sr_keys := (service_id, credentials @ [\<lparr>tc_credential_id = credential_id, tc_bytes = bytes, tc_key = key\<rparr>])
                                  # filter (\<lambda>(s, _). s \<noteq> service_id) (sr_keys r),
                     sr_services := (if service_id \<in> set (sr_services r) then sr_services r else sr_services r @ [service_id]),
                     sr_credentials := sr_credentials r @ [(service_id, credential_id)]\<rparr>))"

fun parse_service_keys :: "('s, 'k) crypto \<Rightarrow> string list \<Rightarrow> 'k service_ring \<Rightarrow> (service_error, 'k service_ring) result" where
  "parse_service_keys c [] r = Inr r"
| "parse_service_keys c (raw # rest) r =
     (let entry = trim raw in
      if entry = [] then parse_service_keys c rest r
      else case split_once (CHR ''='') entry of
        None \<Rightarrow> Inl SvcInvalid
      | Some (qualified, encoded) \<Rightarrow>
          and_then (parse_qualified_credential (trim qualified)) (\<lambda>(service_id, credential_id).
          and_then (invalid (decode_exact c 32 (trim encoded))) (\<lambda>bytes.
            case verifying_key c bytes of
              None \<Rightarrow> Inl SvcInvalid
            | Some key \<Rightarrow> and_then (add_credential service_id credential_id bytes key r) (\<lambda>r. parse_service_keys c rest r))))"

fun parse_revoked_services :: "string list \<Rightarrow> string list \<Rightarrow> (service_error, string list) result" where
  "parse_revoked_services [] revoked = Inr revoked"
| "parse_revoked_services (raw # rest) revoked =
     (let service_id = trim raw in
      if service_id = [] then parse_revoked_services rest revoked
      else and_then (validate_id service_id) (\<lambda>_.
        if service_id \<in> set revoked then Inl SvcInvalid else parse_revoked_services rest (service_id # revoked)))"

fun parse_revoked_credentials :: "'k service_ring \<Rightarrow> string list \<Rightarrow> (string \<times> string) list \<Rightarrow> (service_error, (string \<times> string) list) result" where
  "parse_revoked_credentials r [] revoked = Inr revoked"
| "parse_revoked_credentials r (raw # rest) revoked =
     (let qualified = trim raw in
      if qualified = [] then parse_revoked_credentials r rest revoked
      else if CHR ''/'' \<notin> set qualified then Inl SvcInvalid
      else and_then (parse_qualified_credential qualified) (\<lambda>credential.
        if \<not> list_ex (\<lambda>c. tc_credential_id c = snd credential) (credentials_of r (fst credential)) then Inl SvcInvalid
        else if credential \<in> set revoked then Inl SvcInvalid
        else parse_revoked_credentials r rest (credential # revoked)))"

definition parse_with_revoked_credentials :: "('s, 'k) crypto \<Rightarrow> string \<Rightarrow> string \<Rightarrow> string \<Rightarrow> (service_error, 'k service_ring) result" where
  "parse_with_revoked_credentials c encoded_keys revoked_services revoked_credentials =
     and_then (parse_service_keys c (split_on (CHR '','') encoded_keys) empty_service_ring) (\<lambda>r.
       if sr_keys r = [] then Inl SvcInvalid
       else and_then (parse_revoked_services (split_on (CHR '','') revoked_services) []) (\<lambda>revoked.
            and_then (parse_revoked_credentials r (split_on (CHR '','') revoked_credentials) []) (\<lambda>creds.
              Inr (r\<lparr>sr_revoked_services := revoked, sr_revoked_credentials := creds\<rparr>))))"

section \<open>Verifying\<close>

record verified_credential =
  vd_service_id :: string
  vd_credential_id :: string

fun first_matching :: "('s, 'k) crypto \<Rightarrow> string \<Rightarrow> string \<Rightarrow> 'k trusted_credential list \<Rightarrow> 'k trusted_credential option" where
  "first_matching c message signature [] = None"
| "first_matching c message signature (x # xs) =
     (if verify_strict c (tc_key x) message signature then Some x else first_matching c message signature xs)"

definition verify_service :: "('s, 'k) crypto \<Rightarrow> 'k service_ring \<Rightarrow> service_payload \<Rightarrow> service_authentication \<Rightarrow> (service_error, verified_credential) result" where
  "verify_service c r p a =
     and_then (validate_service_authentication a) (\<lambda>_.
       if sv_audience_id a \<noteq> sp_audience_id p \<or> sv_issued_at_ms a \<noteq> sp_issued_at_ms p \<or> sv_nonce a \<noteq> sp_nonce p then Inl SvcInvalid
       else if sv_service_id a \<in> set (sr_revoked_services r) then Inl SvcRevokedService
       else case map_of (sr_keys r) (sv_service_id a) of
         None \<Rightarrow> Inl SvcUnknownService
       | Some credentials \<Rightarrow>
           and_then (invalid (decode_exact c 64 (sv_signature a))) (\<lambda>signature.
           and_then (canonical_service_payload p (sv_service_id a)) (\<lambda>message.
             case first_matching c message signature credentials of
               None \<Rightarrow> Inl SvcSignature
             | Some x \<Rightarrow>
                 if (sv_service_id a, tc_credential_id x) \<in> set (sr_revoked_credentials r) then Inl (SvcRevokedCredential (tc_credential_id x))
                 else Inr \<lparr>vd_service_id = sv_service_id a, vd_credential_id = tc_credential_id x\<rparr>)))"

section \<open>What a signature binds\<close>

definition service_fits :: "service_payload \<Rightarrow> bool" where
  "service_fits p \<longleftrightarrow> sp_issued_at_ms p \<le> u64_max"

lemma invalid_Inr [simp]: "invalid r = Inr x \<longleftrightarrow> r = Inr x"
  by (auto simp: invalid_def split: sum.splits)

lemma canonical_service_eq:
  "canonical_service_payload p s = Inr m \<longleftrightarrow>
     validate_key_id s = Inr () \<and> validate_key_id (sp_audience_id p) = Inr () \<and> validate_service_nonce (sp_nonce p) = Inr () \<and>
     list_all short [SERVICE_AUTHENTICATION_SCHEMA, SIGNATURE_ALGORITHM, s, sp_audience_id p, sp_method p, sp_path p, sp_cluster_id p, sp_nonce p, sp_body p] \<and>
     m = SERVICE_PAYLOAD_DOMAIN @ lp SERVICE_AUTHENTICATION_SCHEMA @ lp SIGNATURE_ALGORITHM @ lp s @ lp (sp_audience_id p) @ lp (sp_method p) @
       lp (sp_path p) @ lp (sp_cluster_id p) @ be_bytes 8 (sp_issued_at_ms p) @ lp (sp_nonce p) @ lp (sp_body p)"
  unfolding canonical_service_payload_def and_then_Inr_iff invalid_Inr append_strings_eq validate_id_def by auto

lemma lp_eq: "short v \<Longrightarrow> short v' \<Longrightarrow> (lp v = lp v') = (v = v')"
  using lp_inj[of v v' "[]" "[]"] by simp

lemma canonical_service_inj:
  assumes m: "canonical_service_payload p s = Inr m" "canonical_service_payload p' s' = Inr m" and fits: "service_fits p" "service_fits p'"
  shows "p = p' \<and> s = s'"
proof -
  note e = m[unfolded canonical_service_eq]
  have k: "short s" "short s'" "short (sp_audience_id p)" "short (sp_audience_id p')" using e key_id_short by blast+
  have "lp s @ lp (sp_audience_id p) @ lp (sp_method p) @ lp (sp_path p) @ lp (sp_cluster_id p) @ be_bytes 8 (sp_issued_at_ms p) @ lp (sp_nonce p) @ lp (sp_body p) =
    lp s' @ lp (sp_audience_id p') @ lp (sp_method p') @ lp (sp_path p') @ lp (sp_cluster_id p') @ be_bytes 8 (sp_issued_at_ms p') @ lp (sp_nonce p') @ lp (sp_body p')"
    using e by (metis same_append_eq)
  then show ?thesis using e k fits by (simp add: lp_inj lp_eq be8 service_fits_def)
qed

lemma verify_service_eq:
  "verify_service c r p a = Inr v \<longleftrightarrow>
     (\<exists>credentials sig m x. validate_service_authentication a = Inr () \<and> sv_audience_id a = sp_audience_id p \<and> sv_issued_at_ms a = sp_issued_at_ms p \<and>
        sv_nonce a = sp_nonce p \<and> sv_service_id a \<notin> set (sr_revoked_services r) \<and> map_of (sr_keys r) (sv_service_id a) = Some credentials \<and>
        decode_exact c 64 (sv_signature a) = Inr sig \<and> canonical_service_payload p (sv_service_id a) = Inr m \<and>
        first_matching c m sig credentials = Some x \<and> (sv_service_id a, tc_credential_id x) \<notin> set (sr_revoked_credentials r) \<and>
        v = \<lparr>vd_service_id = sv_service_id a, vd_credential_id = tc_credential_id x\<rparr>)"
  by (auto simp: verify_service_def and_then_Inr_iff case_option_Inr_iff if_Inl_Inr_iff)

lemma first_matching_some: "first_matching c m sig xs = Some x \<Longrightarrow> x \<in> set xs \<and> verify_strict c (tc_key x) m sig"
  by (induction xs) (auto split: if_splits)

end
