(* ===== verification/Service_Trust_Policy.thy ===== *)
theory Service_Trust_Policy
  imports Service_Auth
begin

text \<open>
  Signed service-trust policies (\<open>service-auth/src/trust_snapshot.rs\<close>): which service credentials a control plane trusts, with a
  generation and, in version 2, an expiry; their shape, canonical bytes, root keys, compilation to a ring of credentials
  and the validity a receiver requires.
\<close>

datatype policy_version = PolicyV1 | PolicyV2

definition policy_schema :: "policy_version \<Rightarrow> string" where
  "policy_schema v = (case v of PolicyV1 \<Rightarrow> ''inferlab.service-trust-policy.v1'' | PolicyV2 \<Rightarrow> ''inferlab.service-trust-policy.v2'')"

definition policy_authentication_schema :: "policy_version \<Rightarrow> string" where
  "policy_authentication_schema v =
     (case v of PolicyV1 \<Rightarrow> ''inferlab.service-trust-authentication.v1'' | PolicyV2 \<Rightarrow> ''inferlab.service-trust-authentication.v2'')"

definition policy_payload_domain :: "policy_version \<Rightarrow> string" where
  "policy_payload_domain v = policy_schema v @ [char_of (0::nat)]"

definition MAX_ROOT_KEYS :: nat where "MAX_ROOT_KEYS = 16"
definition MAX_POLICY_CREDENTIALS :: nat where "MAX_POLICY_CREDENTIALS = 256"
definition MAX_POLICY_SERVICE_IDS :: nat where "MAX_POLICY_SERVICE_IDS = 256"

record policy_credential =
  pc_service_id :: string
  pc_credential_id :: string
  pc_public_key_base64 :: string

record policy_payload =
  pp_schema :: string
  pp_cluster_id :: string
  pp_generation :: nat
  pp_issued_at_ms :: nat
  pp_expires_at_ms :: "nat option"
  pp_trusted_credentials :: "policy_credential list"
  pp_revoked_service_ids :: "string list"
  pp_revoked_credentials :: "(string \<times> string) list"
  pp_gateway_service_ids :: "string list"

record policy_authentication =
  pa_schema :: string
  pa_algorithm :: string
  pa_key_id :: string
  pa_signature :: string

record trust_snapshot =
  tr_policy :: policy_payload
  tr_authentication :: policy_authentication

datatype trust_error = TrustInvalid | TrustRootRevoked | TrustRootUnknown | TrustSignature

definition trust_invalid :: "('e, 'a) result \<Rightarrow> (trust_error, 'a) result" where
  "trust_invalid r = (case r of Inl _ \<Rightarrow> Inl TrustInvalid | Inr x \<Rightarrow> Inr x)"

definition version_of_schema :: "string \<Rightarrow> (trust_error, policy_version) result" where
  "version_of_schema s = (if s = policy_schema PolicyV1 then Inr PolicyV1 else if s = policy_schema PolicyV2 then Inr PolicyV2 else Inl TrustInvalid)"

definition authentication_version :: "string \<Rightarrow> (trust_error, policy_version) result" where
  "authentication_version s =
     (if s = policy_authentication_schema PolicyV1 then Inr PolicyV1
      else if s = policy_authentication_schema PolicyV2 then Inr PolicyV2 else Inl TrustInvalid)"

definition trust_id :: "string \<Rightarrow> bool" where
  "trust_id v \<longleftrightarrow> validate_key_id v = Inr ()"

definition validate_policy_shape :: "policy_payload \<Rightarrow> (trust_error, unit) result" where
  "validate_policy_shape p =
     and_then (version_of_schema (pp_schema p)) (\<lambda>version.
       if \<not> trust_id (pp_cluster_id p) then Inl TrustInvalid
       else if pp_generation p = 0 then Inl TrustInvalid
       else if pp_issued_at_ms p = 0 then Inl TrustInvalid
       else and_then (case (version, pp_expires_at_ms p) of
           (PolicyV1, None) \<Rightarrow> Inr ()
         | (PolicyV1, Some _) \<Rightarrow> Inl TrustInvalid
         | (PolicyV2, None) \<Rightarrow> Inl TrustInvalid
         | (PolicyV2, Some e) \<Rightarrow> if e \<le> pp_issued_at_ms p then Inl TrustInvalid else Inr ()) (\<lambda>_.
       if MAX_POLICY_CREDENTIALS < length (pp_trusted_credentials p) then Inl TrustInvalid
       else if MAX_POLICY_SERVICE_IDS < length (pp_revoked_service_ids p) \<or> MAX_POLICY_CREDENTIALS < length (pp_revoked_credentials p) \<or>
         MAX_POLICY_SERVICE_IDS < length (pp_gateway_service_ids p) then Inl TrustInvalid
       else if \<not> list_all (\<lambda>c. trust_id (pc_service_id c) \<and> trust_id (pc_credential_id c) \<and> length (pc_public_key_base64 c) \<le> 128)
         (pp_trusted_credentials p) then Inl TrustInvalid
       else if \<not> list_all trust_id (pp_revoked_service_ids p) then Inl TrustInvalid
       else if \<not> list_all (\<lambda>(s, c). trust_id s \<and> trust_id c) (pp_revoked_credentials p) then Inl TrustInvalid
       else if \<not> list_all trust_id (pp_gateway_service_ids p) then Inl TrustInvalid
       else Inr ()))"

definition validate_policy_authentication :: "policy_authentication \<Rightarrow> (trust_error, policy_version) result" where
  "validate_policy_authentication a =
     and_then (authentication_version (pa_schema a)) (\<lambda>version.
       if pa_algorithm a \<noteq> SIGNATURE_ALGORITHM then Inl TrustInvalid
       else if \<not> trust_id (pa_key_id a) then Inl TrustInvalid
       else Inr version)"

section \<open>Canonical bytes\<close>

definition append_count :: "string \<Rightarrow> nat \<Rightarrow> (trust_error, string) result" where
  "append_count bytes n = (if u32_max < n then Inl TrustInvalid else Inr (bytes @ be_bytes 4 n))"

definition append_counted :: "('a \<Rightarrow> string list) \<Rightarrow> string \<Rightarrow> 'a list \<Rightarrow> (trust_error, string) result" where
  "append_counted parts bytes xs =
     and_then (append_count bytes (length xs)) (\<lambda>bytes. trust_invalid (append_strings bytes (concat (map parts xs))))"

definition canonical_policy :: "policy_payload \<Rightarrow> policy_authentication \<Rightarrow> (trust_error, string) result" where
  "canonical_policy p a =
     and_then (validate_policy_shape p) (\<lambda>_.
     and_then (version_of_schema (pp_schema p)) (\<lambda>version.
     and_then (validate_policy_authentication a) (\<lambda>authentication_version.
       if version \<noteq> authentication_version then Inl TrustInvalid
       else
         and_then (trust_invalid (append_strings (policy_payload_domain version) [pp_schema p, pp_cluster_id p])) (\<lambda>bytes.
         and_then (case version of
             PolicyV1 \<Rightarrow> Inr (bytes @ be_bytes 8 (pp_generation p) @ be_bytes 8 (pp_issued_at_ms p))
           | PolicyV2 \<Rightarrow> (case pp_expires_at_ms p of None \<Rightarrow> Inl TrustInvalid
               | Some e \<Rightarrow> Inr (bytes @ be_bytes 8 (pp_generation p) @ be_bytes 8 (pp_issued_at_ms p) @ be_bytes 8 e))) (\<lambda>bytes.
         and_then (append_counted (\<lambda>c. [pc_service_id c, pc_credential_id c, pc_public_key_base64 c]) bytes (pp_trusted_credentials p)) (\<lambda>bytes.
         and_then (append_counted (\<lambda>s. [s]) bytes (pp_revoked_service_ids p)) (\<lambda>bytes.
         and_then (append_counted (\<lambda>(s, c). [s, c]) bytes (pp_revoked_credentials p)) (\<lambda>bytes.
         and_then (append_counted (\<lambda>s. [s]) bytes (pp_gateway_service_ids p)) (\<lambda>bytes.
           trust_invalid (append_strings bytes [pa_schema a, pa_algorithm a, pa_key_id a]))))))))))"

section \<open>Compilation\<close>

fun join_with :: "string \<Rightarrow> string list \<Rightarrow> string" where
  "join_with sep [] = []"
| "join_with sep [x] = x"
| "join_with sep (x # y # ys) = x @ sep @ join_with sep (y # ys)"

record 'k compiled_policy =
  co_keys :: "'k service_ring"
  co_gateway_service_ids :: "string list"

fun check_gateways :: "string list \<Rightarrow> string list \<Rightarrow> string list \<Rightarrow> (trust_error, string list) result" where
  "check_gateways trusted seen [] = Inr seen"
| "check_gateways trusted seen (g # gs) =
     (if \<not> trust_id g then Inl TrustInvalid
      else if g \<notin> set trusted then Inl TrustInvalid
      else if g \<in> set seen then Inl TrustInvalid
      else check_gateways trusted (g # seen) gs)"

definition policy_key_text :: "policy_payload \<Rightarrow> string" where
  "policy_key_text p = join_with '','' (map (\<lambda>c. qualified_id (pc_service_id c) (pc_credential_id c) @ ''='' @ pc_public_key_base64 c) (pp_trusted_credentials p))"

definition compile_policy :: "('s, 'k) crypto \<Rightarrow> policy_payload \<Rightarrow> (trust_error, 'k compiled_policy) result" where
  "compile_policy c p =
     and_then (validate_policy_shape p) (\<lambda>_.
     and_then (trust_invalid (parse_with_revoked_credentials c (policy_key_text p) (join_with '','' (pp_revoked_service_ids p))
         (join_with '','' (map (\<lambda>(s, c). qualified_id s c) (pp_revoked_credentials p))))) (\<lambda>keys.
     and_then (check_gateways (sr_services keys) [] (pp_gateway_service_ids p)) (\<lambda>gateways.
       if gateways = [] then Inl TrustInvalid
       else Inr \<lparr>co_keys = keys, co_gateway_service_ids = pp_gateway_service_ids p\<rparr>)))"

section \<open>Root keys\<close>

text \<open>\<open>TrustedServiceTrustRootKeyRing::parse\<close>: as the control key ring, with a bound on the keys, checked before the key is
  decoded, and revocations of configured keys only.\<close>

fun parse_root_keys :: "('s, 'k) crypto \<Rightarrow> string list \<Rightarrow> (string \<times> 'k) list \<Rightarrow> string list \<Rightarrow> (trust_error, (string \<times> 'k) list \<times> string list) result" where
  "parse_root_keys c [] keys ordered = Inr (keys, ordered)"
| "parse_root_keys c (raw # rest) keys ordered =
     (let entry = trim raw in
      if entry = [] then parse_root_keys c rest keys ordered
      else case split_once (CHR ''='') entry of
        None \<Rightarrow> Inl TrustInvalid
      | Some (raw_id, encoded) \<Rightarrow>
          let key_id = trim raw_id in
          if \<not> trust_id key_id then Inl TrustInvalid
          else if MAX_ROOT_KEYS \<le> length keys then Inl TrustInvalid
          else and_then (trust_invalid (decode_exact c 32 (trim encoded))) (\<lambda>bytes.
            case verifying_key c bytes of
              None \<Rightarrow> Inl TrustInvalid
            | Some k \<Rightarrow>
                if map_of keys key_id \<noteq> None then Inl TrustInvalid
                else parse_root_keys c rest ((key_id, k) # keys) (ordered @ [key_id])))"

fun parse_revoked_roots :: "(string \<times> 'k) list \<Rightarrow> string list \<Rightarrow> string list \<Rightarrow> (trust_error, string list) result" where
  "parse_revoked_roots keys [] revoked = Inr revoked"
| "parse_revoked_roots keys (raw # rest) revoked =
     (let key_id = trim raw in
      if key_id = [] then parse_revoked_roots keys rest revoked
      else if \<not> trust_id key_id then Inl TrustInvalid
      else if map_of keys key_id = None then Inl TrustInvalid
      else if key_id \<in> set revoked then Inl TrustInvalid
      else parse_revoked_roots keys rest (key_id # revoked))"

record 'k root_ring =
  rr_keys :: "(string \<times> 'k) list"
  rr_ordered :: "string list"
  rr_revoked :: "string list"

definition parse_roots :: "('s, 'k) crypto \<Rightarrow> string \<Rightarrow> string \<Rightarrow> (trust_error, 'k root_ring) result" where
  "parse_roots c encoded revoked =
     and_then (parse_root_keys c (split_on (CHR '','') encoded) [] []) (\<lambda>(keys, ordered).
       if keys = [] then Inl TrustInvalid
       else and_then (parse_revoked_roots keys (split_on (CHR '','') revoked) []) (\<lambda>r.
         Inr \<lparr>rr_keys = keys, rr_ordered = ordered, rr_revoked = r\<rparr>))"

record 'k verified_trust =
  vt_policy :: policy_payload
  vt_signing_key_id :: string
  vt_signature :: string
  vt_compiled :: "'k compiled_policy"

definition sign_policy :: "('s, 'k) crypto \<Rightarrow> 's signing_identity \<Rightarrow> policy_payload \<Rightarrow> (trust_error, trust_snapshot) result" where
  "sign_policy c i p =
     and_then (compile_policy c p) (\<lambda>_.
     and_then (version_of_schema (pp_schema p)) (\<lambda>version.
       let a = \<lparr>pa_schema = policy_authentication_schema version, pa_algorithm = SIGNATURE_ALGORITHM, pa_key_id = si_key_id i, pa_signature = []\<rparr>
       in and_then (canonical_policy p a) (\<lambda>message.
            Inr \<lparr>tr_policy = p, tr_authentication = a\<lparr>pa_signature := base64_encode c (sign_bytes c (si_key i) message)\<rparr>\<rparr>)))"

definition verify_trust :: "('s, 'k) crypto \<Rightarrow> 'k root_ring \<Rightarrow> trust_snapshot \<Rightarrow> (trust_error, 'k verified_trust) result" where
  "verify_trust c r s =
     (let a = tr_authentication s in
      and_then (validate_policy_authentication a) (\<lambda>_.
        if pa_key_id a \<in> set (rr_revoked r) then Inl TrustRootRevoked
        else case map_of (rr_keys r) (pa_key_id a) of
          None \<Rightarrow> Inl TrustRootUnknown
        | Some k \<Rightarrow>
            and_then (canonical_policy (tr_policy s) a) (\<lambda>message.
            and_then (trust_invalid (decode_exact c 64 (pa_signature a))) (\<lambda>signature.
              if \<not> verify_strict c k message signature then Inl TrustSignature
              else and_then (compile_policy c (tr_policy s)) (\<lambda>compiled.
                Inr \<lparr>vt_policy = tr_policy s, vt_signing_key_id = pa_key_id a, vt_signature = pa_signature a, vt_compiled = compiled\<rparr>)))))"

section \<open>Validity\<close>

datatype validity_error = InvalidConfiguration | LegacyV1Disallowed | IssuedInFuture | LifetimeExceeded | PolicyExpired

record validity_config =
  vf_allow_v1 :: bool
  vf_max_future_skew_ms :: nat
  vf_max_lifetime_ms :: nat

definition new_validity_config :: "bool \<Rightarrow> nat \<Rightarrow> nat \<Rightarrow> (validity_error, validity_config) result" where
  "new_validity_config allow_v1 skew lifetime =
     (if lifetime = 0 then Inl InvalidConfiguration
      else Inr \<lparr>vf_allow_v1 = allow_v1, vf_max_future_skew_ms = skew, vf_max_lifetime_ms = lifetime\<rparr>)"

record receiver_validity =
  rv_version :: policy_version
  rv_expires_at_ms :: "nat option"

definition validate_receiver_validity :: "policy_payload \<Rightarrow> nat \<Rightarrow> validity_config \<Rightarrow> (validity_error, receiver_validity) result" where
  "validate_receiver_validity p now_ms cfg =
     (case and_then (validate_policy_shape p) (\<lambda>_. version_of_schema (pp_schema p)) of
        Inl _ \<Rightarrow> Inl InvalidConfiguration
      | Inr PolicyV1 \<Rightarrow> if \<not> vf_allow_v1 cfg then Inl LegacyV1Disallowed else Inr \<lparr>rv_version = PolicyV1, rv_expires_at_ms = None\<rparr>
      | Inr PolicyV2 \<Rightarrow>
          (case pp_expires_at_ms p of
             None \<Rightarrow> Inl InvalidConfiguration
           | Some expires_at_ms \<Rightarrow>
               if sat_add64 now_ms (vf_max_future_skew_ms cfg) < pp_issued_at_ms p then Inl IssuedInFuture
               else if expires_at_ms < pp_issued_at_ms p then Inl InvalidConfiguration
               else if vf_max_lifetime_ms cfg < expires_at_ms - pp_issued_at_ms p then Inl LifetimeExceeded
               else if expires_at_ms \<le> now_ms then Inl PolicyExpired
               else Inr \<lparr>rv_version = PolicyV2, rv_expires_at_ms = Some expires_at_ms\<rparr>))"

section \<open>The canonical bytes determine the policy\<close>

definition policy_fits :: "policy_payload \<Rightarrow> bool" where
  "policy_fits p \<longleftrightarrow> pp_generation p \<le> u64_max \<and> pp_issued_at_ms p \<le> u64_max \<and> (\<forall>e. pp_expires_at_ms p = Some e \<longrightarrow> e \<le> u64_max)"

definition counted :: "('a \<Rightarrow> string list) \<Rightarrow> 'a list \<Rightarrow> string" where
  "counted parts xs = be_bytes 4 (length xs) @ concat (map lp (concat (map parts xs)))"

lemma trust_invalid_Inr [simp]: "trust_invalid r = Inr x \<longleftrightarrow> r = Inr x"
  by (auto simp: trust_invalid_def split: sum.splits)

lemma append_counted_eq:
  "append_counted parts b xs = Inr x \<longleftrightarrow> (length xs \<le> u32_max \<and> list_all short (concat (map parts xs))) \<and> x = b @ counted parts xs"
  by (auto simp: append_counted_def append_count_def and_then_Inr_iff append_strings_eq counted_def)

lemma lps_inj:
  "length us = length vs \<Longrightarrow> list_all short us \<Longrightarrow> list_all short vs \<Longrightarrow>
     (concat (map lp us) @ r = concat (map lp vs) @ r') = (us = vs \<and> r = r')"
  by (induction us vs rule: list_induct2) (auto simp: lp_inj)

lemma length_concat_const: "\<forall>x. length (parts x) = n \<Longrightarrow> length (concat (map parts xs)) = n * length xs"
  by (induction xs) auto

lemma counted_inj:
  assumes ok: "length xs \<le> u32_max \<and> list_all short (concat (map parts xs))" "length ys \<le> u32_max \<and> list_all short (concat (map parts ys))"
    and parts: "\<forall>x. length (parts x) = n" "inj parts" and eq: "counted parts xs @ r = counted parts ys @ r'"
  shows "xs = ys \<and> r = r'"
proof -
  have "be_bytes 4 (length xs) @ concat (map lp (concat (map parts xs))) @ r = be_bytes 4 (length ys) @ concat (map lp (concat (map parts ys))) @ r'"
    using eq by (simp add: counted_def)
  then have l: "length xs = length ys" and e: "concat (map lp (concat (map parts xs))) @ r = concat (map lp (concat (map parts ys))) @ r'"
    using be_inj[OF u_bounds(1) u_bounds(1), of "length xs" "length ys"] ok by blast+
  have "length (concat (map parts xs)) = length (concat (map parts ys))" using l length_concat_const[OF parts(1)] by simp
  then have "concat (map parts xs) = concat (map parts ys)" "r = r'" using e lps_inj[of "concat (map parts xs)" "concat (map parts ys)"] ok by blast+
  moreover have "(concat (map parts xs) = concat (map parts ys)) = (map parts xs = map parts ys)"
    by (rule concat_eq_concat_iff) (use l parts(1) in \<open>auto simp: set_zip\<close>)
  ultimately show ?thesis using parts(2) by (simp add: inj_map_eq_map)
qed

lemma schema_inj [simp]:
  "policy_schema v = policy_schema w \<longleftrightarrow> v = w" "policy_authentication_schema v = policy_authentication_schema w \<longleftrightarrow> v = w"
  by (cases v; cases w; simp add: policy_schema_def policy_authentication_schema_def)+

lemma schema_versions [simp]:
  "version_of_schema s = Inr v \<longleftrightarrow> s = policy_schema v" "authentication_version s = Inr v \<longleftrightarrow> s = policy_authentication_schema v"
  by (cases v; auto simp: version_of_schema_def authentication_version_def policy_schema_def policy_authentication_schema_def)+

definition credential_parts :: "policy_credential \<Rightarrow> string list" where
  "credential_parts c = [pc_service_id c, pc_credential_id c, pc_public_key_base64 c]"

definition pair_parts :: "string \<times> string \<Rightarrow> string list" where
  "pair_parts x = [fst x, snd x]"

definition time_bytes :: "policy_payload \<Rightarrow> string" where
  "time_bytes p = be_bytes 8 (pp_generation p) @ be_bytes 8 (pp_issued_at_ms p) @ (case pp_expires_at_ms p of None \<Rightarrow> [] | Some e \<Rightarrow> be_bytes 8 e)"

definition countable_lists :: "policy_payload \<Rightarrow> bool" where
  "countable_lists p \<longleftrightarrow>
     (length (pp_trusted_credentials p) \<le> u32_max \<and> list_all short (concat (map credential_parts (pp_trusted_credentials p)))) \<and>
     (length (pp_revoked_service_ids p) \<le> u32_max \<and> list_all short (concat (map (\<lambda>s. [s]) (pp_revoked_service_ids p)))) \<and>
     (length (pp_revoked_credentials p) \<le> u32_max \<and> list_all short (concat (map pair_parts (pp_revoked_credentials p)))) \<and>
     (length (pp_gateway_service_ids p) \<le> u32_max \<and> list_all short (concat (map (\<lambda>s. [s]) (pp_gateway_service_ids p))))"

definition list_bytes :: "policy_payload \<Rightarrow> string" where
  "list_bytes p = counted credential_parts (pp_trusted_credentials p) @ counted (\<lambda>s. [s]) (pp_revoked_service_ids p) @
     counted pair_parts (pp_revoked_credentials p) @ counted (\<lambda>s. [s]) (pp_gateway_service_ids p)"

lemma shape_expiry:
  assumes "validate_policy_shape p = Inr ()" "pp_schema p = policy_schema v"
  shows "pp_expires_at_ms p = None \<longleftrightarrow> v = PolicyV1"
proof -
  have "version_of_schema (pp_schema p) = Inr v" using assms(2) by simp
  then show ?thesis using assms(1) by (cases v) (auto simp: validate_policy_shape_def and_then_Inr_iff split: option.splits if_splits)
qed

lemma canonical_policyD:
  assumes "canonical_policy p a = Inr m"
  obtains v where "pp_schema p = policy_schema v" "pa_schema a = policy_authentication_schema v" "pa_algorithm a = SIGNATURE_ALGORITHM"
    "pp_expires_at_ms p = None \<longleftrightarrow> v = PolicyV1" "short (pp_schema p)" "short (pp_cluster_id p)" "countable_lists p"
    "short (pa_schema a)" "short (pa_algorithm a)" "short (pa_key_id a)"
    "m = policy_payload_domain v @ lp (pp_schema p) @ lp (pp_cluster_id p) @ time_bytes p @ list_bytes p @
       lp (pa_schema a) @ lp (pa_algorithm a) @ lp (pa_key_id a)"
proof -
  have c: "(\<lambda>c. [pc_service_id c, pc_credential_id c, pc_public_key_base64 c]) = credential_parts" "(\<lambda>(s, c). [s, c]) = pair_parts"
    by (auto simp: credential_parts_def pair_parts_def)
  obtain v where v: "validate_policy_shape p = Inr ()" "pp_schema p = policy_schema v" "validate_policy_authentication a = Inr v"
    using assms by (auto simp: canonical_policy_def and_then_Inr_iff if_Inl_Inr_iff)
  have a: "pa_schema a = policy_authentication_schema v" "pa_algorithm a = SIGNATURE_ALGORITHM"
    using v(3) by (auto simp: validate_policy_authentication_def and_then_Inr_iff if_Inl_Inr_iff)
  note x = shape_expiry[OF v(1,2)]
  have h: "short (pp_schema p) \<and> short (pp_cluster_id p) \<and> countable_lists p \<and> short (pa_schema a) \<and> short (pa_algorithm a) \<and> short (pa_key_id a) \<and>
      m = policy_payload_domain v @ lp (pp_schema p) @ lp (pp_cluster_id p) @ time_bytes p @ list_bytes p @
       lp (pa_schema a) @ lp (pa_algorithm a) @ lp (pa_key_id a)"
    using assms v x unfolding canonical_policy_def c and_then_Inr_iff if_Inl_Inr_iff trust_invalid_Inr append_strings_eq append_counted_eq
    by (cases v) (auto simp: countable_lists_def list_bytes_def time_bytes_def)
  show ?thesis by (rule that[OF v(2) a x]) (insert h, elim conjE, assumption)+
qed

lemma time_bytes_inj:
  assumes "policy_fits p" "policy_fits q" "pp_expires_at_ms p = None \<longleftrightarrow> pp_expires_at_ms q = None" "time_bytes p @ r = time_bytes q @ r'"
  shows "pp_generation p = pp_generation q \<and> pp_issued_at_ms p = pp_issued_at_ms q \<and> pp_expires_at_ms p = pp_expires_at_ms q \<and> r = r'"
  using assms by (cases "pp_expires_at_ms p"; cases "pp_expires_at_ms q") (simp_all add: time_bytes_def policy_fits_def be8)

lemma list_bytes_inj:
  assumes "countable_lists p" "countable_lists q" "list_bytes p @ r = list_bytes q @ r'"
  shows "pp_trusted_credentials p = pp_trusted_credentials q \<and> pp_revoked_service_ids p = pp_revoked_service_ids q \<and>
    pp_revoked_credentials p = pp_revoked_credentials q \<and> pp_gateway_service_ids p = pp_gateway_service_ids q \<and> r = r'"
proof -
  have i: "inj credential_parts" "inj pair_parts" "inj (\<lambda>s :: string. [s])" by (auto simp: inj_on_def credential_parts_def pair_parts_def)
  have n: "\<forall>x. length (credential_parts x) = 3" "\<forall>x. length (pair_parts x) = 2" "\<forall>s. length [s :: string] = 1" by (auto simp: credential_parts_def pair_parts_def)
  note ok = assms(1,2)[unfolded countable_lists_def]
  have 1: "pp_trusted_credentials p = pp_trusted_credentials q \<and> counted (\<lambda>s. [s]) (pp_revoked_service_ids p) @
     counted pair_parts (pp_revoked_credentials p) @ counted (\<lambda>s. [s]) (pp_gateway_service_ids p) @ r = counted (\<lambda>s. [s]) (pp_revoked_service_ids q) @
     counted pair_parts (pp_revoked_credentials q) @ counted (\<lambda>s. [s]) (pp_gateway_service_ids q) @ r'"
    by (rule counted_inj[OF _ _ n(1) i(1)]) (use ok assms(3) in \<open>simp_all add: list_bytes_def\<close>)
  have 2: "pp_revoked_service_ids p = pp_revoked_service_ids q \<and> counted pair_parts (pp_revoked_credentials p) @ counted (\<lambda>s. [s]) (pp_gateway_service_ids p) @ r =
     counted pair_parts (pp_revoked_credentials q) @ counted (\<lambda>s. [s]) (pp_gateway_service_ids q) @ r'"
    by (rule counted_inj[OF _ _ n(3) i(3)]) (use ok 1 in \<open>simp_all\<close>)
  have 3: "pp_revoked_credentials p = pp_revoked_credentials q \<and> counted (\<lambda>s. [s]) (pp_gateway_service_ids p) @ r = counted (\<lambda>s. [s]) (pp_gateway_service_ids q) @ r'"
    by (rule counted_inj[OF _ _ n(2) i(2)]) (use ok 2 in \<open>simp_all\<close>)
  have 4: "pp_gateway_service_ids p = pp_gateway_service_ids q \<and> r = r'"
    by (rule counted_inj[OF _ _ n(3) i(3)]) (use ok 3 in \<open>simp_all\<close>)
  show ?thesis using 1 2 3 4 by blast
qed

lemma domains_by_version: "policy_payload_domain v @ r = policy_payload_domain v' @ r' \<longleftrightarrow> v = v' \<and> r = r'"
  by (cases v; cases v') (auto simp: policy_payload_domain_def policy_schema_def)

lemma canonical_policy_inj:
  assumes m: "canonical_policy p a = Inr m" "canonical_policy q b = Inr m" and fits: "policy_fits p" "policy_fits q"
  shows "p = q \<and> pa_key_id a = pa_key_id b"
proof -
  obtain v where v: "pp_schema p = policy_schema v" "pp_expires_at_ms p = None \<longleftrightarrow> v = PolicyV1" "short (pp_schema p)" "short (pp_cluster_id p)"
    "countable_lists p" "short (pa_schema a)" "short (pa_algorithm a)" "short (pa_key_id a)" "pa_schema a = policy_authentication_schema v" "pa_algorithm a = SIGNATURE_ALGORITHM"
    "m = policy_payload_domain v @ lp (pp_schema p) @ lp (pp_cluster_id p) @ time_bytes p @ list_bytes p @
       lp (pa_schema a) @ lp (pa_algorithm a) @ lp (pa_key_id a)"
    by (rule canonical_policyD[OF m(1)])
  obtain w where w: "pp_schema q = policy_schema w" "pp_expires_at_ms q = None \<longleftrightarrow> w = PolicyV1" "short (pp_schema q)" "short (pp_cluster_id q)"
    "countable_lists q" "short (pa_schema b)" "short (pa_algorithm b)" "short (pa_key_id b)" "pa_schema b = policy_authentication_schema w" "pa_algorithm b = SIGNATURE_ALGORITHM"
    "m = policy_payload_domain w @ lp (pp_schema q) @ lp (pp_cluster_id q) @ time_bytes q @ list_bytes q @
       lp (pa_schema b) @ lp (pa_algorithm b) @ lp (pa_key_id b)"
    by (rule canonical_policyD[OF m(2)])
  have same: "v = w" using v(11) w(11) domains_by_version by metis
  then have "lp (pp_cluster_id p) @ time_bytes p @ list_bytes p @ lp (pa_schema a) @ lp (pa_algorithm a) @ lp (pa_key_id a) =
      lp (pp_cluster_id q) @ time_bytes q @ list_bytes q @ lp (pa_schema b) @ lp (pa_algorithm b) @ lp (pa_key_id b)"
    using v(1,11) w(1,11) by (metis same_append_eq)
  then have c: "pp_cluster_id p = pp_cluster_id q" and t: "time_bytes p @ list_bytes p @ lp (pa_schema a) @ lp (pa_algorithm a) @ lp (pa_key_id a) =
      time_bytes q @ list_bytes q @ lp (pa_schema b) @ lp (pa_algorithm b) @ lp (pa_key_id b)"
    using lp_inj[OF v(4) w(4)] by blast+
  have g: "pp_generation p = pp_generation q \<and> pp_issued_at_ms p = pp_issued_at_ms q \<and> pp_expires_at_ms p = pp_expires_at_ms q \<and>
      list_bytes p @ lp (pa_schema a) @ lp (pa_algorithm a) @ lp (pa_key_id a) = list_bytes q @ lp (pa_schema b) @ lp (pa_algorithm b) @ lp (pa_key_id b)"
    by (rule time_bytes_inj[OF fits _ t]) (use v(2) w(2) same in simp)
  note l = list_bytes_inj[OF v(5) w(5), of "lp (pa_schema a) @ lp (pa_algorithm a) @ lp (pa_key_id a)" "lp (pa_schema b) @ lp (pa_algorithm b) @ lp (pa_key_id b)"]
  have "lp (pa_key_id a) = lp (pa_key_id b)" using l g v(9,10) w(9,10) same by simp
  then show ?thesis using l g c v(1,8) w(1,8) same lp_eq by auto
qed

section \<open>Compilation is exact\<close>

text \<open>The policy is printed as text and parsed again.  Nothing is trimmed from visible text, and pieces without a comma come back.\<close>

lemma trim_graphic:
  assumes "is_ascii_graphic (hd s)" "is_ascii_graphic (last s)"
  shows "trim s = s"
proof -
  have none: "strip_any ws s = None" if "list_all (\<lambda>w. w \<noteq> [] \<and> \<not> is_ascii_graphic (hd w)) ws" "s = [] \<or> is_ascii_graphic (hd s)" for ws s
    using that
  proof (induction ws)
    case (Cons w ws)
    then show ?case by (cases w; cases s) auto
  qed simp
  have "list_all (\<lambda>w. w \<noteq> [] \<and> \<not> is_ascii_graphic (hd w)) ws_encodings" "list_all (\<lambda>w. w \<noteq> [] \<and> \<not> is_ascii_graphic (hd w)) (map rev ws_encodings)"
    by (simp_all add: ws_encodings_def is_ascii_graphic_def upt_rec)
  from this[THEN none] assms have "strip_all ws_encodings s = s" "strip_all (map rev ws_encodings) (rev s) = rev s"
    by (cases s rule: rev_cases; simp add: strip_all.simps)+
  then show ?thesis by (simp add: trim_def trim_start_def trim_end_def)
qed

lemma split_join: "xs \<noteq> [] \<Longrightarrow> \<forall>x\<in>set xs. d \<notin> set x \<Longrightarrow> split_on d (join_with [d] xs) = xs"
proof (induction "[d]" xs rule: join_with.induct)
  case (2 x)
  have "d \<notin> set x \<Longrightarrow> split_on d x = [x]" by (induction x) auto
  then show ?case using 2 by simp
next
  case (3 x y ys)
  have "d \<notin> set x \<Longrightarrow> split_on d (x @ d # r) = x # split_on d r" for r by (induction x) auto
  then show ?case using 3 by simp
qed simp

lemma identifier_chars:
  "identifier_char c \<Longrightarrow> is_ascii_graphic c \<and> c \<noteq> CHR '','' \<and> c \<noteq> CHR ''/'' \<and> c \<noteq> CHR ''=''"
  by (auto simp: identifier_char_def is_ascii_graphic_def is_ascii_alphanumeric_def Let_def)

lemma trust_idD:
  assumes "trust_id v"
  shows "v \<noteq> []" "CHR '','' \<notin> set v" "CHR ''/'' \<notin> set v" "CHR ''='' \<notin> set v" "trim v = v" "is_ascii_graphic (hd v)" "is_ascii_graphic (last v)"
    "validate_id v = Inr ()"
proof -
  have v: "v \<noteq> []" "\<forall>c\<in>set v. identifier_char c" using assms by (auto simp: trust_id_def validate_key_id_def list_all_iff split: if_splits)
  then show "v \<noteq> []" "CHR '','' \<notin> set v" "CHR ''/'' \<notin> set v" "CHR ''='' \<notin> set v" using identifier_chars by blast+
  show h: "is_ascii_graphic (hd v)" "is_ascii_graphic (last v)" using v identifier_chars by simp_all
  show "trim v = v" by (rule trim_graphic[OF h])
  show "validate_id v = Inr ()" using assms by (simp add: validate_id_def invalid_def trust_id_def)
qed

lemma qualified_parses:
  assumes "trust_id s" "trust_id c"
  shows "parse_qualified_credential (qualified_id s c) = Inr (s, c)" "trim (qualified_id s c) = qualified_id s c"
    "CHR '','' \<notin> set (qualified_id s c)" "CHR ''='' \<notin> set (qualified_id s c)" "qualified_id s c \<noteq> []" "CHR ''/'' \<in> set (qualified_id s c)"
proof -
  note a = trust_idD[OF assms(1)] and b = trust_idD[OF assms(2)]
  have "split_once (CHR ''/'') (qualified_id s c) = Some (s, c)" unfolding split_once_iff using a(3) by (simp add: qualified_id_def)
  then show "parse_qualified_credential (qualified_id s c) = Inr (s, c)" using a(8) b(8) by (simp add: parse_qualified_credential_def)
  show "trim (qualified_id s c) = qualified_id s c"
    by (rule trim_graphic) (use a b in \<open>auto simp: qualified_id_def\<close>)
  show "CHR '','' \<notin> set (qualified_id s c)" "CHR ''='' \<notin> set (qualified_id s c)" "qualified_id s c \<noteq> []" "CHR ''/'' \<in> set (qualified_id s c)"
    using a b by (auto simp: qualified_id_def)
qed

definition entry_text :: "policy_credential \<Rightarrow> string" where
  "entry_text x = qualified_id (pc_service_id x) (pc_credential_id x) @ ''='' @ pc_public_key_base64 x"

definition listed_ok :: "policy_credential \<Rightarrow> bool" where
  "listed_ok x \<longleftrightarrow> trust_id (pc_service_id x) \<and> trust_id (pc_credential_id x) \<and> list_all is_visible_non_whitespace_ascii (pc_public_key_base64 x)"

lemma entry_parses:
  assumes "listed_ok x"
  shows "trim (entry_text x) = entry_text x" "entry_text x \<noteq> []" "CHR '','' \<notin> set (entry_text x)"
    "split_once (CHR ''='') (entry_text x) = Some (qualified_id (pc_service_id x) (pc_credential_id x), pc_public_key_base64 x)"
    "trim (pc_public_key_base64 x) = pc_public_key_base64 x"
proof -
  note q = qualified_parses[of "pc_service_id x" "pc_credential_id x"]
  have ids: "trust_id (pc_service_id x)" "trust_id (pc_credential_id x)" and vis: "\<forall>c\<in>set (pc_public_key_base64 x). is_ascii_graphic c \<and> c \<noteq> CHR '',''"
    using assms by (auto simp: listed_ok_def is_visible_non_whitespace_ascii_def list_all_iff)
  have eq: "is_ascii_graphic (CHR ''='')" by (simp add: is_ascii_graphic_def)
  show "trim (entry_text x) = entry_text x"
    by (rule trim_graphic) (use trust_idD[OF ids(1)] vis eq in \<open>auto simp: entry_text_def qualified_id_def\<close>)
  show "entry_text x \<noteq> []" "CHR '','' \<notin> set (entry_text x)" using q[OF ids] vis by (auto simp: entry_text_def)
  show "split_once (CHR ''='') (entry_text x) = Some (qualified_id (pc_service_id x) (pc_credential_id x), pc_public_key_base64 x)"
    unfolding split_once_iff using q[OF ids] by (simp add: entry_text_def)
  show "trim (pc_public_key_base64 x) = pc_public_key_base64 x"
  proof (cases "pc_public_key_base64 x")
    case Nil
    have "strip_any ws [] = None" for ws by (induction ws) auto
    then show ?thesis using Nil by (simp add: trim_def trim_start_def trim_end_def strip_all.simps)
  next
    case (Cons c cs)
    then show ?thesis by (intro trim_graphic) (use vis in auto)
  qed
qed

definition trusts :: "'k service_ring \<Rightarrow> string \<Rightarrow> string \<Rightarrow> string \<Rightarrow> 'k \<Rightarrow> bool" where
  "trusts r s i bytes key \<longleftrightarrow> \<lparr>tc_credential_id = i, tc_bytes = bytes, tc_key = key\<rparr> \<in> set (credentials_of r s)"

lemma map_of_filter_other: "map_of (filter (\<lambda>(s, _). s \<noteq> k) xs) s = (if s = k then None else map_of xs s)"
  by (induction xs) auto

lemma add_credential_trusts:
  "add_credential s i b k r = Inr r' \<Longrightarrow>
     trusts r' s' i' b' k' \<longleftrightarrow> trusts r s' i' b' k' \<or> (s' = s \<and> i' = i \<and> b' = b \<and> k' = k)"
  by (auto simp: add_credential_def trusts_def credentials_of_def map_of_filter_other Let_def split: if_splits option.splits)

lemma parse_listed:
  assumes "parse_service_keys c (map entry_text xs) r = Inr r'" "list_all listed_ok xs"
  shows "trusts r' s i b k \<longleftrightarrow> trusts r s i b k \<or> (\<exists>x\<in>set xs. pc_service_id x = s \<and> pc_credential_id x = i \<and>
      decode_exact c 32 (pc_public_key_base64 x) = Inr b \<and> verifying_key c b = Some k)"
  using assms
proof (induction xs arbitrary: r)
  case (Cons x xs)
  have ok: "listed_ok x" "list_all listed_ok xs" using Cons.prems(2) by auto
  note e = entry_parses[OF ok(1)] and q = qualified_parses[of "pc_service_id x" "pc_credential_id x"]
  have ids: "trust_id (pc_service_id x)" "trust_id (pc_credential_id x)" using ok(1) by (auto simp: listed_ok_def)
  obtain b0 k0 r1 where s: "decode_exact c 32 (pc_public_key_base64 x) = Inr b0" "verifying_key c b0 = Some k0"
    "add_credential (pc_service_id x) (pc_credential_id x) b0 k0 r = Inr r1" "parse_service_keys c (map entry_text xs) r1 = Inr r'"
    using Cons.prems(1) e q(1,2)[OF ids] by (auto simp: Let_def and_then_Inr_iff case_option_Inr_iff)
  then show ?case using Cons.IH[OF s(4) ok(2)] add_credential_trusts[OF s(3)] by auto
qed simp

lemma parse_revoked_listed:
  assumes "parse_revoked_services ss acc = Inr r" "list_all trust_id ss"
  shows "set r = set acc \<union> set ss"
  using assms by (induction ss acc rule: parse_revoked_services.induct) (auto simp: trust_idD Let_def and_then_Inr_iff split: if_splits)

lemma parse_revoked_credentials_listed:
  assumes "parse_revoked_credentials ring (map (\<lambda>(s, c). qualified_id s c) xs) acc = Inr r" "list_all (\<lambda>(s, c). trust_id s \<and> trust_id c) xs"
  shows "set r = set acc \<union> set xs"
  using assms
proof (induction xs arbitrary: acc)
  case (Cons x xs)
  obtain s c where x: "x = (s, c)" by (cases x)
  note q = qualified_parses[of s c]
  have ids: "trust_id s" "trust_id c" using Cons.prems(2) x by auto
  have "parse_revoked_credentials ring (map (\<lambda>(s, c). qualified_id s c) xs) ((s, c) # acc) = Inr r"
    using Cons.prems(1) q[OF ids] x by (auto simp: Let_def and_then_Inr_iff split: if_splits)
  then show ?case using Cons.IH[of "(s, c) # acc"] Cons.prems(2) x by auto
qed simp

lemma trim_Nil [simp]: "trim [] = []"
proof -
  have "strip_any ws [] = None" for ws by (induction ws) auto
  then show ?thesis by (simp add: trim_def trim_start_def trim_end_def strip_all.simps)
qed

lemma compile_exact:
  assumes compiled: "compile_policy c p = Inr r" and vis: "list_all (\<lambda>x. list_all is_visible_non_whitespace_ascii (pc_public_key_base64 x)) (pp_trusted_credentials p)"
  shows "trusts (co_keys r) s i b k \<longleftrightarrow> (\<exists>x\<in>set (pp_trusted_credentials p). pc_service_id x = s \<and> pc_credential_id x = i \<and>
      decode_exact c 32 (pc_public_key_base64 x) = Inr b \<and> verifying_key c b = Some k)"
    and "set (sr_revoked_services (co_keys r)) = set (pp_revoked_service_ids p)"
    and "set (sr_revoked_credentials (co_keys r)) = set (pp_revoked_credentials p)"
proof -
  obtain keys where shape: "validate_policy_shape p = Inr ()" and keys: "co_keys r = keys"
    "parse_with_revoked_credentials c (policy_key_text p) (join_with '','' (pp_revoked_service_ids p))
         (join_with '','' (map (\<lambda>(s, c). qualified_id s c) (pp_revoked_credentials p))) = Inr keys"
    using compiled by (auto simp: compile_policy_def and_then_Inr_iff split: if_splits)
  have ids: "list_all listed_ok (pp_trusted_credentials p)" "list_all trust_id (pp_revoked_service_ids p)"
    "list_all (\<lambda>(s, c). trust_id s \<and> trust_id c) (pp_revoked_credentials p)"
    using shape vis by (auto simp: validate_policy_shape_def and_then_Inr_iff listed_ok_def list_all_iff split: if_splits)
  obtain ring revoked creds where ring: "parse_service_keys c (split_on (CHR '','') (policy_key_text p)) empty_service_ring = Inr ring" "sr_keys ring \<noteq> []"
    and rev: "parse_revoked_services (split_on (CHR '','') (join_with '','' (pp_revoked_service_ids p))) [] = Inr revoked"
      "parse_revoked_credentials ring (split_on (CHR '','') (join_with '','' (map (\<lambda>(s, c). qualified_id s c) (pp_revoked_credentials p)))) [] = Inr creds"
    and k: "keys = ring\<lparr>sr_revoked_services := revoked, sr_revoked_credentials := creds\<rparr>"
    using keys(2) by (auto simp: parse_with_revoked_credentials_def and_then_Inr_iff split: if_splits)
  have kt: "policy_key_text p = join_with '','' (map entry_text (pp_trusted_credentials p))"
    by (simp add: policy_key_text_def entry_text_def[abs_def])
  have "pp_trusted_credentials p \<noteq> []"
  proof
    assume "pp_trusted_credentials p = []"
    then have "policy_key_text p = []" by (simp add: kt)
    then show False using ring by (auto simp: empty_service_ring_def)
  qed
  then have "parse_service_keys c (map entry_text (pp_trusted_credentials p)) empty_service_ring = Inr ring"
    using ring(1) split_join[of "map entry_text (pp_trusted_credentials p)" "CHR '',''"] entry_parses(3) ids(1) kt by (auto simp: list_all_iff)
  from parse_listed[OF this ids(1)] show "trusts (co_keys r) s i b k \<longleftrightarrow> (\<exists>x\<in>set (pp_trusted_credentials p). pc_service_id x = s \<and> pc_credential_id x = i \<and>
      decode_exact c 32 (pc_public_key_base64 x) = Inr b \<and> verifying_key c b = Some k)"
    using keys(1) k by (simp add: trusts_def credentials_of_def empty_service_ring_def)
  show "set (sr_revoked_services (co_keys r)) = set (pp_revoked_service_ids p)"
  proof (cases "pp_revoked_service_ids p = []")
    case False
    then show ?thesis using rev(1) split_join[of "pp_revoked_service_ids p" "CHR '',''"] trust_idD(2) ids(2) keys(1) k parse_revoked_listed[OF _ ids(2)]
      by (auto simp: list_all_iff)
  qed (use rev(1) keys(1) k in simp)
  show "set (sr_revoked_credentials (co_keys r)) = set (pp_revoked_credentials p)"
  proof (cases "pp_revoked_credentials p = []")
    case False
    then have "split_on (CHR '','') (join_with '','' (map (\<lambda>(s, c). qualified_id s c) (pp_revoked_credentials p))) = map (\<lambda>(s, c). qualified_id s c) (pp_revoked_credentials p)"
      by (intro split_join) (use qualified_parses(3) ids(3) in \<open>auto simp: list_all_iff\<close>)
    then show ?thesis using rev(2) keys(1) k parse_revoked_credentials_listed[OF _ ids(3)] by auto
  qed (use rev(2) keys(1) k in simp)
qed

end
