(* ===== verification/Service_Authorizer.thy ===== *)
theory Service_Authorizer
  imports Service_Trust_Policy
begin

text \<open>
  The service authorizer of a control node (\<open>control-plane/src/service_authentication.rs\<close>): signature, freshness and replay checks of
  every request, authorisation of gateways, and the trust policy it works under, with its expiry and its reloads.
  Clock readings are arguments.
\<close>

section \<open>State\<close>

datatype rejection_kind = RejAuthentication | RejFreshness | RejReplay | RejAuthorization

datatype rejection_reason = PolicyIsExpired | NotConfigured | AuthenticationRequired | NotVerified service_error | FutureRequest | StaleRequest
  | NonceSeen | ReplayCacheFull | NotAGateway | WrongPeer | BadHeaders

record request_origin =
  ro_method :: string
  ro_path :: string
  ro_cluster_id :: string
  ro_audience_id :: string
  ro_body :: string
  ro_now_ms :: nat

definition MAX_REPLAY_ENTRIES :: nat where "MAX_REPLAY_ENTRIES = 10000"

record trust_provenance =
  tv_source :: string
  tv_generation :: "nat option"
  tv_issued_at_ms :: "nat option"
  tv_signing_key_id :: "string option"
  tv_loaded_at_ms :: "nat option"
  tv_trusted_signing_key_ids :: "string list"
  tv_revoked_signing_key_ids :: "string list"
  tv_validity :: "receiver_validity option"
  tv_validity_config :: "validity_config option"

record 'k required_mode =
  rm_keys :: "'k service_ring"
  rm_gateway_service_ids :: "string list"
  rm_max_age_ms :: nat
  rm_max_future_skew_ms :: nat
  rm_trust_policy :: trust_provenance

record trust_distribution =
  td_mode :: string
  td_bootstrap_source :: "string option"
  td_transport_mode :: string
  td_server_authentication :: bool
  td_client_authentication :: bool
  td_remote_configured :: bool
  td_cache_configured :: bool
  td_etag_present :: bool
  td_last_fetch_outcome :: "string option"
  td_last_fetch_at_ms :: "nat option"
  td_consecutive_fetch_failures :: nat
  td_receipts_posted :: nat
  td_receipt_failures :: nat
  td_last_receipt_generation :: "nat option"
  td_last_receipt_at_ms :: "nat option"
  td_last_receipt_failed :: bool
  td_last_fetch_tls_generation :: "nat option"
  td_last_receipt_tls_generation :: "nat option"

text \<open>The mode is \<open>None\<close> when authentication is disabled.  The replay cache lists its keys with their expiry.\<close>

record 'k service_authorizer =
  sz_mode :: "'k required_mode option"
  sz_replay :: "((string \<times> string) \<times> nat) list"
  sz_verifications :: nat
  sz_authentication_rejections :: nat
  sz_freshness_rejections :: nat
  sz_replay_rejections :: nat
  sz_authorization_rejections :: nat
  sz_credential_revocation_rejections :: nat
  sz_authorized_peer_rpcs :: nat
  sz_authorized_gateway_reads :: nat
  sz_by_credential :: "string \<rightharpoonup> nat"
  sz_last_verified_service :: "string option"
  sz_last_verified_credential :: "string option"
  sz_last_rejected_service :: "string option"
  sz_last_rejected_credential :: "string option"
  sz_last_error :: "rejection_reason option"
  sz_reloads :: nat
  sz_policy_rejections :: nat
  sz_expiration_rejections :: nat
  sz_max_observed_ms :: nat
  sz_policy_failing :: bool
  sz_distribution :: trust_distribution

definition default_distribution :: "string \<Rightarrow> trust_distribution" where
  "default_distribution mode =
     \<lparr>td_mode = mode, td_bootstrap_source = None, td_transport_mode = ''not-applicable'', td_server_authentication = False,
      td_client_authentication = False, td_remote_configured = False, td_cache_configured = False, td_etag_present = False,
      td_last_fetch_outcome = None, td_last_fetch_at_ms = None, td_consecutive_fetch_failures = 0, td_receipts_posted = 0,
      td_receipt_failures = 0, td_last_receipt_generation = None, td_last_receipt_at_ms = None, td_last_receipt_failed = False,
      td_last_fetch_tls_generation = None, td_last_receipt_tls_generation = None\<rparr>"

definition new_authorizer :: "'k required_mode option \<Rightarrow> 'k service_authorizer" where
  "new_authorizer mode =
     \<lparr>sz_mode = mode, sz_replay = [], sz_verifications = 0, sz_authentication_rejections = 0, sz_freshness_rejections = 0,
      sz_replay_rejections = 0, sz_authorization_rejections = 0, sz_credential_revocation_rejections = 0,
      sz_authorized_peer_rpcs = 0, sz_authorized_gateway_reads = 0, sz_by_credential = Map.empty, sz_last_verified_service = None,
      sz_last_verified_credential = None, sz_last_rejected_service = None, sz_last_rejected_credential = None, sz_last_error = None,
      sz_reloads = 0, sz_policy_rejections = 0, sz_expiration_rejections = 0,
      sz_max_observed_ms = (case mode of None \<Rightarrow> 0 | Some m \<Rightarrow> (case tv_loaded_at_ms (rm_trust_policy m) of None \<Rightarrow> 0 | Some t \<Rightarrow> t)),
      sz_policy_failing = False,
      sz_distribution = default_distribution (case mode of None \<Rightarrow> ''disabled'' | Some m \<Rightarrow> tv_source (rm_trust_policy m))\<rparr>"

definition disabled_authorizer :: "'k service_authorizer" where
  "disabled_authorizer = new_authorizer None"

datatype mode_error = ZeroAge | NoGateways | UntrustedGateway | BadValidity validity_error | ModeDisabled | ModeStatic | NoValidityConfig | OlderGeneration

definition validate_required_policy :: "'k service_ring \<Rightarrow> string list \<Rightarrow> nat \<Rightarrow> (mode_error, unit) result" where
  "validate_required_policy keys gateways max_age_ms =
     (if max_age_ms = 0 then Inl ZeroAge
      else if gateways = [] then Inl NoGateways
      else if \<not> list_all (\<lambda>g. g \<in> set (sr_services keys)) gateways then Inl UntrustedGateway
      else Inr ())"

text \<open>\<open>required\<close> writes the same checks out again.\<close>

definition required_authorizer :: "'k service_ring \<Rightarrow> string list \<Rightarrow> nat \<Rightarrow> nat \<Rightarrow> (mode_error, 'k service_authorizer) result" where
  "required_authorizer keys gateways max_age_ms skew =
     and_then (validate_required_policy keys gateways max_age_ms) (\<lambda>_.
       Inr (new_authorizer (Some
         \<lparr>rm_keys = keys, rm_gateway_service_ids = gateways, rm_max_age_ms = max_age_ms, rm_max_future_skew_ms = skew,
          rm_trust_policy = \<lparr>tv_source = ''static-environment'', tv_generation = None, tv_issued_at_ms = None, tv_signing_key_id = None,
            tv_loaded_at_ms = None, tv_trusted_signing_key_ids = [], tv_revoked_signing_key_ids = [], tv_validity = None, tv_validity_config = None\<rparr>\<rparr>)))"

definition signed_mode :: "'k verified_trust \<Rightarrow> string list \<Rightarrow> string list \<Rightarrow> receiver_validity \<Rightarrow> validity_config \<Rightarrow> nat \<Rightarrow> nat \<Rightarrow> nat \<Rightarrow> 'k required_mode" where
  "signed_mode s trusted revoked validity cfg max_age_ms skew loaded_at_ms =
     \<lparr>rm_keys = co_keys (vt_compiled s), rm_gateway_service_ids = co_gateway_service_ids (vt_compiled s), rm_max_age_ms = max_age_ms,
      rm_max_future_skew_ms = skew,
      rm_trust_policy = \<lparr>tv_source = ''signed-snapshot'', tv_generation = Some (pp_generation (vt_policy s)),
        tv_issued_at_ms = Some (pp_issued_at_ms (vt_policy s)), tv_signing_key_id = Some (vt_signing_key_id s), tv_loaded_at_ms = Some loaded_at_ms,
        tv_trusted_signing_key_ids = trusted, tv_revoked_signing_key_ids = revoked, tv_validity = Some validity, tv_validity_config = Some cfg\<rparr>\<rparr>"

definition required_from_signed_snapshot ::
  "'k verified_trust \<Rightarrow> string list \<Rightarrow> string list \<Rightarrow> validity_config \<Rightarrow> nat \<Rightarrow> nat \<Rightarrow> nat \<Rightarrow> (mode_error, 'k service_authorizer) result" where
  "required_from_signed_snapshot s trusted revoked cfg max_age_ms skew loaded_at_ms =
     (case validate_receiver_validity (vt_policy s) loaded_at_ms cfg of
        Inl e \<Rightarrow> Inl (BadValidity e)
      | Inr validity \<Rightarrow>
          and_then (validate_required_policy (co_keys (vt_compiled s)) (co_gateway_service_ids (vt_compiled s)) max_age_ms) (\<lambda>_.
            Inr (new_authorizer (Some (signed_mode s trusted revoked validity cfg max_age_ms skew loaded_at_ms)))))"

section \<open>Rejections and the clock\<close>

definition observe_wall_clock :: "nat \<Rightarrow> 'k service_authorizer \<Rightarrow> 'k service_authorizer \<times> nat" where
  "observe_wall_clock t z = (let m = max (sz_max_observed_ms z) t in (z\<lparr>sz_max_observed_ms := m\<rparr>, m))"

definition reject :: "rejection_kind \<Rightarrow> string option \<Rightarrow> rejection_reason \<Rightarrow> 'k service_authorizer \<Rightarrow> 'k service_authorizer" where
  "reject kind service_id reason z =
     (let z = (case kind of
         RejAuthentication \<Rightarrow> z\<lparr>sz_authentication_rejections := inc64 (sz_authentication_rejections z)\<rparr>
       | RejFreshness \<Rightarrow> z\<lparr>sz_freshness_rejections := inc64 (sz_freshness_rejections z)\<rparr>
       | RejReplay \<Rightarrow> z\<lparr>sz_replay_rejections := inc64 (sz_replay_rejections z)\<rparr>
       | RejAuthorization \<Rightarrow> z\<lparr>sz_authorization_rejections := inc64 (sz_authorization_rejections z)\<rparr>)
      in z\<lparr>sz_last_rejected_service := service_id, sz_last_error := Some reason\<rparr>)"

definition reject_expired_policy :: "string option \<Rightarrow> 'k service_authorizer \<Rightarrow> 'k service_authorizer" where
  "reject_expired_policy service_id z =
     reject RejAuthentication service_id PolicyIsExpired (z\<lparr>sz_expiration_rejections := inc64 (sz_expiration_rejections z)\<rparr>)"

definition trust_policy_is_expired :: "trust_provenance \<Rightarrow> nat \<Rightarrow> bool" where
  "trust_policy_is_expired t effective_now_ms =
     (if tv_source t \<noteq> ''signed-snapshot'' then False
      else case tv_validity t of
        None \<Rightarrow> True
      | Some v \<Rightarrow>
          (case (rv_version v, rv_expires_at_ms v) of
             (PolicyV1, None) \<Rightarrow> False
           | (PolicyV2, Some e) \<Rightarrow> e \<le> effective_now_ms
           | _ \<Rightarrow> True))"

definition preflight_signed_policy_validity :: "nat \<Rightarrow> 'k service_authorizer \<Rightarrow> 'k service_authorizer \<times> (rejection_reason, nat) result" where
  "preflight_signed_policy_validity now_ms z =
     (case sz_mode z of
        None \<Rightarrow> (z, Inr now_ms)
      | Some m \<Rightarrow>
          let (z, effective) = observe_wall_clock now_ms z
          in if trust_policy_is_expired (rm_trust_policy m) effective then (reject_expired_policy None z, Inl PolicyIsExpired)
             else (z, Inr effective))"

section \<open>Authentication\<close>

definition retain_fresh :: "nat \<Rightarrow> ((string \<times> string) \<times> nat) list \<Rightarrow> ((string \<times> string) \<times> nat) list" where
  "retain_fresh now_ms cache = filter (\<lambda>(_, expiry). now_ms \<le> expiry) cache"

definition admit_nonce :: "nat \<Rightarrow> nat \<Rightarrow> nat \<Rightarrow> service_authentication \<Rightarrow> verified_credential \<Rightarrow> 'k service_authorizer
     \<Rightarrow> 'k service_authorizer \<times> (rejection_reason, verified_credential option) result" where
  "admit_nonce now_ms max_age_ms skew a verified z =
     (let expires_at_ms = sat_add64 (sat_add64 (sv_issued_at_ms a) max_age_ms) skew;
          cache = retain_fresh now_ms (sz_replay z); key = (sv_service_id a, sv_nonce a); z = z\<lparr>sz_replay := cache\<rparr>
      in if map_of cache key \<noteq> None then (reject RejReplay (Some (sv_service_id a)) NonceSeen z, Inl NonceSeen)
         else if MAX_REPLAY_ENTRIES \<le> length cache then (reject RejReplay (Some (sv_service_id a)) ReplayCacheFull z, Inl ReplayCacheFull)
         else let credential = qualified_id (vd_service_id verified) (vd_credential_id verified)
              in (z\<lparr>sz_replay := (key, expires_at_ms) # cache, sz_verifications := inc64 (sz_verifications z),
                    sz_by_credential := (sz_by_credential z)(credential \<mapsto> inc64 (case sz_by_credential z credential of None \<Rightarrow> 0 | Some n \<Rightarrow> n)),
                    sz_last_verified_service := Some (sv_service_id a), sz_last_verified_credential := Some credential, sz_last_error := None\<rparr>,
                  Inr (Some verified)))"

definition authenticate_required ::
  "('s, 'k) crypto \<Rightarrow> 'k required_mode \<Rightarrow> service_authentication \<Rightarrow> request_origin \<Rightarrow> 'k service_authorizer
     \<Rightarrow> 'k service_authorizer \<times> (rejection_reason, verified_credential option) result" where
  "authenticate_required c m a origin z =
     (let service_id = sv_service_id a; now_ms = ro_now_ms origin;
          payload = \<lparr>sp_method = ro_method origin, sp_path = ro_path origin, sp_cluster_id = ro_cluster_id origin,
            sp_audience_id = ro_audience_id origin, sp_issued_at_ms = sv_issued_at_ms a, sp_nonce = sv_nonce a, sp_body = ro_body origin\<rparr>
      in case verify_service c (rm_keys m) payload a of
           Inl e \<Rightarrow>
             let credential = (case e of SvcRevokedCredential i \<Rightarrow> Some (qualified_id service_id i) | _ \<Rightarrow> None);
                 z = (case e of SvcRevokedCredential _ \<Rightarrow> z\<lparr>sz_credential_revocation_rejections := inc64 (sz_credential_revocation_rejections z)\<rparr> | _ \<Rightarrow> z);
                 z = z\<lparr>sz_last_rejected_credential := credential\<rparr>
             in (reject RejAuthentication (Some service_id) (NotVerified e) z, Inl (NotVerified e))
         | Inr verified \<Rightarrow>
             if sat_add64 now_ms (rm_max_future_skew_ms m) < sv_issued_at_ms a
             then (reject RejFreshness (Some service_id) FutureRequest z, Inl FutureRequest)
             else if rm_max_age_ms m < now_ms - sv_issued_at_ms a
             then (reject RejFreshness (Some service_id) StaleRequest z, Inl StaleRequest)
             else admit_nonce now_ms (rm_max_age_ms m) (rm_max_future_skew_ms m) a verified z)"

definition service_authenticate ::
  "('s, 'k) crypto \<Rightarrow> service_authentication option \<Rightarrow> request_origin \<Rightarrow> 'k service_authorizer
     \<Rightarrow> 'k service_authorizer \<times> (rejection_reason, verified_credential option) result" where
  "service_authenticate c authentication origin z =
     (case sz_mode z of
        None \<Rightarrow>
          (case authentication of
             None \<Rightarrow> (z, Inr None)
           | Some a \<Rightarrow> (reject RejAuthentication (Some (sv_service_id a)) NotConfigured z, Inl NotConfigured))
      | Some m \<Rightarrow>
          let (z, effective) = observe_wall_clock (ro_now_ms origin) z
          in if trust_policy_is_expired (rm_trust_policy m) effective
             then (reject_expired_policy (map_option sv_service_id authentication) z, Inl PolicyIsExpired)
             else case authentication of
               None \<Rightarrow> (reject RejAuthentication None AuthenticationRequired z, Inl AuthenticationRequired)
             | Some a \<Rightarrow> authenticate_required c m a origin z)"

section \<open>Authorisation and records\<close>

definition authorize_gateway :: "string option \<Rightarrow> 'k service_authorizer \<Rightarrow> 'k service_authorizer \<times> (rejection_reason, unit) result" where
  "authorize_gateway service_id z =
     (case sz_mode z of
        None \<Rightarrow> (z, Inr ())
      | Some m \<Rightarrow>
          if (case service_id of None \<Rightarrow> False | Some s \<Rightarrow> s \<in> set (rm_gateway_service_ids m)) then (z, Inr ())
          else (reject RejAuthorization service_id NotAGateway z, Inl NotAGateway))"

definition record_peer_authorization_rejection :: "string option \<Rightarrow> 'k service_authorizer \<Rightarrow> 'k service_authorizer" where
  "record_peer_authorization_rejection service_id z = reject RejAuthorization service_id WrongPeer z"

definition record_header_rejection :: "'k service_authorizer \<Rightarrow> 'k service_authorizer" where
  "record_header_rejection z = reject RejAuthentication None BadHeaders z"

definition record_authorized_peer_rpc :: "string option \<Rightarrow> 'k service_authorizer \<Rightarrow> 'k service_authorizer" where
  "record_authorized_peer_rpc service_id z =
     (if service_id \<noteq> None then z\<lparr>sz_authorized_peer_rpcs := inc64 (sz_authorized_peer_rpcs z)\<rparr> else z)"

definition record_authorized_gateway_read :: "string option \<Rightarrow> 'k service_authorizer \<Rightarrow> 'k service_authorizer" where
  "record_authorized_gateway_read service_id z =
     (if service_id \<noteq> None then z\<lparr>sz_authorized_gateway_reads := inc64 (sz_authorized_gateway_reads z)\<rparr> else z)"

definition required_mode_on :: "'k service_authorizer \<Rightarrow> bool" where
  "required_mode_on z \<longleftrightarrow> sz_mode z \<noteq> None"

section \<open>Reloading the policy\<close>

definition apply_signed_snapshot :: "'k verified_trust \<Rightarrow> nat \<Rightarrow> 'k service_authorizer \<Rightarrow> 'k service_authorizer \<times> (mode_error, nat option) result" where
  "apply_signed_snapshot s now_ms z =
     (let (z, activated) = observe_wall_clock now_ms z
      in case sz_mode z of
           None \<Rightarrow> (z, Inl ModeDisabled)
         | Some m \<Rightarrow>
             let t = rm_trust_policy m
             in if tv_source t \<noteq> ''signed-snapshot'' then (z, Inl ModeStatic)
                else case tv_validity_config t of
                  None \<Rightarrow> (z, Inl NoValidityConfig)
                | Some cfg \<Rightarrow>
                    let current = (case tv_generation t of None \<Rightarrow> 0 | Some g \<Rightarrow> g)
                    in case validate_receiver_validity (vt_policy s) activated cfg of
                         Inl e \<Rightarrow> (z, Inl (BadValidity e))
                       | Inr validity \<Rightarrow>
                           if pp_generation (vt_policy s) < current then (z, Inl OlderGeneration)
                           else if pp_generation (vt_policy s) = current then (z, Inr None)
                           else case validate_required_policy (co_keys (vt_compiled s)) (co_gateway_service_ids (vt_compiled s)) (rm_max_age_ms m) of
                             Inl e \<Rightarrow> (z, Inl e)
                           | Inr _ \<Rightarrow>
                               (z\<lparr>sz_mode := Some (signed_mode s (tv_trusted_signing_key_ids t) (tv_revoked_signing_key_ids t) validity cfg (rm_max_age_ms m)
                                    (rm_max_future_skew_ms m) activated),
                                  sz_reloads := inc64 (sz_reloads z), sz_policy_failing := False\<rparr>, Inr (Some activated)))"

definition trust_policy_generation :: "'k service_authorizer \<Rightarrow> nat option" where
  "trust_policy_generation z = (case sz_mode z of None \<Rightarrow> None | Some m \<Rightarrow> tv_generation (rm_trust_policy m))"

definition record_trust_policy_rejection :: "'k service_authorizer \<Rightarrow> 'k service_authorizer" where
  "record_trust_policy_rejection z = z\<lparr>sz_policy_rejections := inc64 (sz_policy_rejections z), sz_policy_failing := True\<rparr>"

datatype transport_mode = NotApplicable | InsecureHttp | MutualTls

definition transport_status :: "transport_mode \<Rightarrow> string \<times> bool \<times> bool" where
  "transport_status t = (case t of
       NotApplicable \<Rightarrow> (''not-applicable'', False, False)
     | InsecureHttp \<Rightarrow> (''insecure-http'', False, False)
     | MutualTls \<Rightarrow> (''mutual-tls'', True, True))"

definition configure_trust_distribution :: "string \<Rightarrow> string \<Rightarrow> transport_mode \<Rightarrow> bool \<Rightarrow> bool \<Rightarrow> bool \<Rightarrow> 'k service_authorizer \<Rightarrow> 'k service_authorizer" where
  "configure_trust_distribution mode source transport remote cache etag z =
     (let (t, server, client) = transport_status transport
      in z\<lparr>sz_distribution := (sz_distribution z)\<lparr>td_mode := mode, td_bootstrap_source := Some source, td_transport_mode := t,
             td_server_authentication := server, td_client_authentication := client, td_remote_configured := remote,
             td_cache_configured := cache, td_etag_present := etag\<rparr>\<rparr>)"

definition record_trust_fetch_success :: "string \<Rightarrow> bool \<Rightarrow> nat \<Rightarrow> 'k service_authorizer \<Rightarrow> 'k service_authorizer" where
  "record_trust_fetch_success outcome etag now_ms z =
     (let (z, _) = observe_wall_clock now_ms z
      in z\<lparr>sz_distribution := (sz_distribution z)\<lparr>td_etag_present := etag, td_last_fetch_outcome := Some outcome,
             td_last_fetch_at_ms := Some now_ms, td_consecutive_fetch_failures := 0\<rparr>, sz_policy_failing := False\<rparr>)"

definition record_trust_fetch_failure :: "nat \<Rightarrow> 'k service_authorizer \<Rightarrow> 'k service_authorizer \<times> nat" where
  "record_trust_fetch_failure now_ms z =
     (let (z, _) = observe_wall_clock now_ms z; n = sat_add64 (td_consecutive_fetch_failures (sz_distribution z)) 1
      in (z\<lparr>sz_distribution := (sz_distribution z)\<lparr>td_last_fetch_outcome := Some ''error'', td_last_fetch_at_ms := Some now_ms,
              td_consecutive_fetch_failures := n\<rparr>\<rparr>, n))"

definition record_trust_receipt_success :: "nat \<Rightarrow> nat \<Rightarrow> 'k service_authorizer \<Rightarrow> 'k service_authorizer" where
  "record_trust_receipt_success gen now_ms z =
     (let (z, _) = observe_wall_clock now_ms z; d = sz_distribution z
      in z\<lparr>sz_distribution := d\<lparr>td_receipts_posted := sat_add64 (td_receipts_posted d) 1, td_last_receipt_generation := Some gen,
             td_last_receipt_at_ms := Some now_ms, td_last_receipt_failed := False\<rparr>\<rparr>)"

definition record_trust_receipt_failure :: "'k service_authorizer \<Rightarrow> 'k service_authorizer" where
  "record_trust_receipt_failure z =
     (let d = sz_distribution z in z\<lparr>sz_distribution := d\<lparr>td_receipt_failures := sat_add64 (td_receipt_failures d) 1, td_last_receipt_failed := True\<rparr>\<rparr>)"

definition record_trust_fetch_tls_generation :: "nat option \<Rightarrow> 'k service_authorizer \<Rightarrow> 'k service_authorizer" where
  "record_trust_fetch_tls_generation g z = z\<lparr>sz_distribution := (sz_distribution z)\<lparr>td_last_fetch_tls_generation := g\<rparr>\<rparr>"

definition record_trust_receipt_tls_generation :: "nat option \<Rightarrow> 'k service_authorizer \<Rightarrow> 'k service_authorizer" where
  "record_trust_receipt_tls_generation g z = z\<lparr>sz_distribution := (sz_distribution z)\<lparr>td_last_receipt_tls_generation := g\<rparr>\<rparr>"

text \<open>The policy validity that \<open>status_at\<close> reports.\<close>

definition status_validity :: "nat \<Rightarrow> 'k service_authorizer \<Rightarrow> 'k service_authorizer \<times> string" where
  "status_validity now_ms z =
     (let (z, effective) = observe_wall_clock now_ms z
      in (z, case sz_mode z of
               None \<Rightarrow> ''not-applicable''
             | Some m \<Rightarrow>
                 (case tv_validity (rm_trust_policy m) of
                    None \<Rightarrow> if tv_source (rm_trust_policy m) = ''signed-snapshot'' then ''expired'' else ''not-applicable''
                  | Some v \<Rightarrow>
                      (case (rv_version v, rv_expires_at_ms v) of
                         (PolicyV1, None) \<Rightarrow> ''legacy-unbounded''
                       | (PolicyV2, Some e) \<Rightarrow> if effective < e then ''valid'' else ''expired''
                       | _ \<Rightarrow> ''expired''))))"

definition service_signer_is_eligible ::
  "('s, 'k) crypto \<Rightarrow> nat \<Rightarrow> nat \<Rightarrow> nat \<Rightarrow> string \<Rightarrow> 's service_identity \<Rightarrow> 'k service_authorizer \<Rightarrow> ('k service_authorizer \<times> 's service_identity) \<times> bool" where
  "service_signer_is_eligible c pid now_ms issued_ms cluster_id i z =
     (case sz_mode z of
        None \<Rightarrow> ((z, i), True)
      | Some m \<Rightarrow>
          let (z, effective) = observe_wall_clock now_ms z
          in if trust_policy_is_expired (rm_trust_policy m) effective then ((z, i), False)
             else let path = ''/_inferlab/service-signer-eligibility''; audience = id_service_id i;
                      (i', signed) = authenticate_at c pid ''GET'' path cluster_id audience [] issued_ms i
                  in ((z, i'), case signed of
                       Inl _ \<Rightarrow> False
                     | Inr a \<Rightarrow>
                         (case verify_service c (rm_keys m)
                            \<lparr>sp_method = ''GET'', sp_path = path, sp_cluster_id = cluster_id, sp_audience_id = audience,
                             sp_issued_at_ms = sv_issued_at_ms a, sp_nonce = sv_nonce a, sp_body = []\<rparr> a of
                            Inl _ \<Rightarrow> False
                          | Inr v \<Rightarrow> vd_service_id v = id_service_id i \<and> vd_credential_id v = id_credential_id i)))"

end
