(* ===== verification/Control_Service.thy ===== *)
theory Control_Service
  imports Service_Authorizer Raft_Node
begin

text \<open>
  The HTTP service of a control node (\<open>control-plane/src/lib.rs\<close>) and the authorizer of configuration writes
  (\<open>write_authorization.rs\<close>), over the Raft node and the service authorizer.  A write is cut where it waits for
  replication.  The clock reading is \<open>None\<close> before the epoch; JSON bodies are what the library makes of a request.
\<close>

section \<open>Authorised writes\<close>

record authorized_write =
  aw_expected_revision :: nat
  aw_configuration :: routing_configuration
  aw_authorization :: write_authorization

datatype write_request = AuthorizedRequest authorized_write | LegacyRequest routing_configuration

datatype write_rejection = WriteNotConfigured | WriteRequired | WriteNotVerified auth_error | WriteInFuture | WriteStale | WriteConflict

record authorized_proposal =
  apr_configuration :: routing_configuration
  apr_expected_revision :: "nat option"
  apr_writer :: "committed_write_provenance option"

record 'k write_policy =
  wl_keys :: "'k key_ring"
  wl_max_age_ms :: nat
  wl_max_future_skew_ms :: nat

record 'k write_authorizer =
  wz_mode :: "'k write_policy option"
  wz_verified_intents :: nat
  wz_committed_writes :: nat
  wz_authentication_rejections :: nat
  wz_freshness_rejections :: nat
  wz_revision_conflicts :: nat
  wz_last_authorized :: "string option"
  wz_last_rejected :: "string option"
  wz_last_error :: "write_rejection option"

definition new_write_authorizer :: "'k write_policy option \<Rightarrow> 'k write_authorizer" where
  "new_write_authorizer mode =
     \<lparr>wz_mode = mode, wz_verified_intents = 0, wz_committed_writes = 0, wz_authentication_rejections = 0, wz_freshness_rejections = 0,
      wz_revision_conflicts = 0, wz_last_authorized = None, wz_last_rejected = None, wz_last_error = None\<rparr>"

definition reject_write :: "bool \<Rightarrow> string option \<Rightarrow> write_rejection \<Rightarrow> 'k write_authorizer \<Rightarrow> 'k write_authorizer" where
  "reject_write fresh_kind writer reason z =
     (let z = (if fresh_kind then z\<lparr>wz_freshness_rejections := inc64 (wz_freshness_rejections z)\<rparr>
               else z\<lparr>wz_authentication_rejections := inc64 (wz_authentication_rejections z)\<rparr>)
      in z\<lparr>wz_last_rejected := writer, wz_last_error := Some reason\<rparr>)"

definition routing_workers :: "routing_configuration \<Rightarrow> routing_worker list" where
  "routing_workers c = map (\<lambda>w. \<lparr>cw_id = wc_id w, cw_base_url = wc_base_url w, cw_weight = wc_weight w\<rparr>) (Raft_Types.workers c)"

definition write_payload_of :: "string \<Rightarrow> authorized_write \<Rightarrow> write_payload" where
  "write_payload_of cluster r =
     \<lparr>wp_cluster_id = cluster, wp_expected_revision = aw_expected_revision r, wp_issued_at_ms = wa_issued_at_ms (aw_authorization r),
      wp_nonce = wa_nonce (aw_authorization r), wp_routing_policy = routing_policy (aw_configuration r),
      wp_workers = routing_workers (aw_configuration r)\<rparr>"

definition authorize_write ::
  "('s, 'k) crypto \<Rightarrow> write_request \<Rightarrow> string \<Rightarrow> nat \<Rightarrow> 'k write_authorizer \<Rightarrow> 'k write_authorizer \<times> (write_rejection, authorized_proposal) result" where
  "authorize_write c request cluster now_ms z =
     (case (wz_mode z, request) of
        (None, LegacyRequest configuration) \<Rightarrow>
          (z, Inr \<lparr>apr_configuration = configuration, apr_expected_revision = None, apr_writer = None\<rparr>)
      | (None, AuthorizedRequest r) \<Rightarrow>
          (reject_write False (Some (wa_writer_id (aw_authorization r))) WriteNotConfigured z, Inl WriteNotConfigured)
      | (Some _, LegacyRequest _) \<Rightarrow> (reject_write False None WriteRequired z, Inl WriteRequired)
      | (Some m, AuthorizedRequest r) \<Rightarrow>
          let a = aw_authorization r; writer = wa_writer_id a
          in case ring_verify_write c (wl_keys m) (write_payload_of cluster r) a of
               Inl e \<Rightarrow> (reject_write False (Some writer) (WriteNotVerified e) z, Inl (WriteNotVerified e))
             | Inr _ \<Rightarrow>
                 let z = z\<lparr>wz_verified_intents := inc64 (wz_verified_intents z)\<rparr>
                 in if sat_add64 now_ms (wl_max_future_skew_ms m) < wa_issued_at_ms a
                    then (reject_write True (Some writer) WriteInFuture z, Inl WriteInFuture)
                    else if wl_max_age_ms m < now_ms - wa_issued_at_ms a
                    then (reject_write True (Some writer) WriteStale z, Inl WriteStale)
                    else (z, Inr \<lparr>apr_configuration = aw_configuration r, apr_expected_revision = Some (aw_expected_revision r),
                                  apr_writer = Some \<lparr>writer_id = writer, issued_at_ms = wa_issued_at_ms a, nonce = wa_nonce a\<rparr>\<rparr>))"

definition record_committed :: "string option \<Rightarrow> 'k write_authorizer \<Rightarrow> 'k write_authorizer" where
  "record_committed writer z =
     (let z = z\<lparr>wz_committed_writes := inc64 (wz_committed_writes z)\<rparr>;
          z = (if writer \<noteq> None then z\<lparr>wz_last_authorized := writer\<rparr> else z)
      in z\<lparr>wz_last_error := None\<rparr>)"

definition record_revision_conflict :: "string option \<Rightarrow> 'k write_authorizer \<Rightarrow> 'k write_authorizer" where
  "record_revision_conflict writer z =
     z\<lparr>wz_revision_conflicts := inc64 (wz_revision_conflicts z), wz_last_rejected := writer, wz_last_error := Some WriteConflict\<rparr>"

section \<open>The service\<close>

record ('s, 'k) control_app =
  ap_node :: raft_node
  ap_signer :: "'s signing_identity option"
  ap_writers :: "'k write_authorizer"
  ap_services :: "'k service_authorizer"

text \<open>A header is absent, or present with a value that is text or not.\<close>

type_synonym header_map = "string \<Rightarrow> string option option"

definition header_names :: "string list" where
  "header_names = [''x-inferlab-service-auth-schema'', ''x-inferlab-service-auth-algorithm'', ''x-inferlab-service-id'',
     ''x-inferlab-service-audience'', ''x-inferlab-service-issued-at-ms'', ''x-inferlab-service-nonce'', ''x-inferlab-service-signature'']"

definition header_text :: "header_map \<Rightarrow> nat \<Rightarrow> string option" where
  "header_text h i = (case h (header_names ! i) of None \<Rightarrow> None | Some v \<Rightarrow> v)"

definition authentication_from_headers :: "header_map \<Rightarrow> (unit, service_authentication option) result" where
  "authentication_from_headers h =
     (let present = length (filter (\<lambda>n. h n \<noteq> None) header_names)
      in if present = 0 then Inr None
         else if present \<noteq> length header_names then Inl ()
         else case (header_text h 0, header_text h 1, header_text h 2, header_text h 3, Option.bind (header_text h 4) parse_u64, header_text h 5, header_text h 6) of
           (Some schema, Some algorithm, Some service, Some audience, Some issued, Some non, Some signature) \<Rightarrow>
             Inr (Some \<lparr>sv_schema = schema, sv_algorithm = algorithm, sv_service_id = service, sv_audience_id = audience,
                        sv_issued_at_ms = issued, sv_nonce = non, sv_signature = signature\<rparr>)
         | _ \<Rightarrow> Inl ())"

definition authenticate_service_request ::
  "('s, 'k) crypto \<Rightarrow> nat option \<Rightarrow> header_map \<Rightarrow> string \<Rightarrow> string \<Rightarrow> string \<Rightarrow> ('s, 'k) control_app
     \<Rightarrow> ('s, 'k) control_app \<times> (raft_error, verified_credential option) result" where
  "authenticate_service_request c clock headers method path body app =
     (case clock of
        None \<Rightarrow> (app, Inl Unavailable)
      | Some now_ms \<Rightarrow>
          let (z, fresh) = preflight_signed_policy_validity now_ms (ap_services app)
          in case fresh of
               Inl _ \<Rightarrow> (app\<lparr>ap_services := z\<rparr>, Inl Unauthorized)
             | Inr _ \<Rightarrow>
                 (case authentication_from_headers headers of
                    Inl _ \<Rightarrow> (app\<lparr>ap_services := record_header_rejection z\<rparr>, Inl Unauthorized)
                  | Inr authentication \<Rightarrow>
                      let (z, r) = service_authenticate c authentication
                            \<lparr>ro_method = method, ro_path = path, ro_cluster_id = cluster_id (config (ap_node app)),
                             ro_audience_id = node_id (config (ap_node app)), ro_body = body, ro_now_ms = now_ms\<rparr> z
                      in (app\<lparr>ap_services := z\<rparr>, case r of Inl _ \<Rightarrow> Inl Unauthorized | Inr v \<Rightarrow> Inr v)))"

definition is_peer_id :: "raft_node \<Rightarrow> string \<Rightarrow> bool" where
  "is_peer_id n i = list_ex (\<lambda>p. peer_id p = i) (peers (config n))"

definition authorize_peer_identity :: "string option \<Rightarrow> string \<Rightarrow> ('s, 'k) control_app \<Rightarrow> ('s, 'k) control_app \<times> (raft_error, unit) result" where
  "authorize_peer_identity service claimed app =
     (if \<not> required_mode_on (ap_services app) then (app, Inr ())
      else if service = Some claimed \<and> is_peer_id (ap_node app) claimed
      then (app\<lparr>ap_services := record_authorized_peer_rpc service (ap_services app)\<rparr>, Inr ())
      else (app\<lparr>ap_services := record_peer_authorization_rejection service (ap_services app)\<rparr>, Inl Forbidden))"

definition and_app :: "('a \<times> (raft_error, 'b) result) \<Rightarrow> ('a \<Rightarrow> 'b \<Rightarrow> 'a \<times> (raft_error, 'd) result) \<Rightarrow> 'a \<times> (raft_error, 'd) result" where
  "and_app m f = (case m of (app, Inl e) \<Rightarrow> (app, Inl e) | (app, Inr x) \<Rightarrow> f app x)"

definition request_vote_endpoint ::
  "('s, 'k) crypto \<Rightarrow> host_env \<Rightarrow> nat option \<Rightarrow> header_map \<Rightarrow> (request_vote_request \<Rightarrow> string option) \<Rightarrow> request_vote_request \<Rightarrow> ('s, 'k) control_app
     \<Rightarrow> ('s, 'k) control_app \<times> (raft_error, request_vote_response) result" where
  "request_vote_endpoint c env clock headers json request app =
     (case json request of
        None \<Rightarrow> (app, Inl Invalid)
      | Some body \<Rightarrow>
          and_app (authenticate_service_request c clock headers ''POST'' ''/raft/request-vote'' body app) (\<lambda>app credential.
          and_app (authorize_peer_identity (map_option vd_service_id credential) (rv_candidate_id request) app) (\<lambda>app _.
            let (n, r) = handle_request_vote env request (ap_node app) in (app\<lparr>ap_node := n\<rparr>, r))))"

definition append_entries_endpoint ::
  "('s, 'k) crypto \<Rightarrow> host_env \<Rightarrow> nat option \<Rightarrow> header_map \<Rightarrow> (append_entries_request \<Rightarrow> string option) \<Rightarrow> append_entries_request \<Rightarrow> ('s, 'k) control_app
     \<Rightarrow> ('s, 'k) control_app \<times> (raft_error, append_entries_response) result" where
  "append_entries_endpoint c env clock headers json request app =
     (case json request of
        None \<Rightarrow> (app, Inl Invalid)
      | Some body \<Rightarrow>
          and_app (authenticate_service_request c clock headers ''POST'' ''/raft/append-entries'' body app) (\<lambda>app credential.
          and_app (authorize_peer_identity (map_option vd_service_id credential) (ae_leader_id request) app) (\<lambda>app _.
            let (n, r) = handle_append_entries env request (ap_node app) in (app\<lparr>ap_node := n\<rparr>, r))))"

definition control_routing_payload :: "committed_configuration \<Rightarrow> routing_payload" where
  "control_routing_payload x =
     \<lparr>pl_cluster_id = cc_cluster_id x, pl_revision = cc_revision x, pl_term = cc_term x,
      pl_routing_policy = routing_policy (cc_configuration x), pl_workers = routing_workers (cc_configuration x)\<rparr>"

definition authenticate_configuration ::
  "('s, 'k) crypto \<Rightarrow> 's signing_identity option \<Rightarrow> committed_configuration
     \<Rightarrow> (raft_error, committed_configuration \<times> control_authentication option) result" where
  "authenticate_configuration c signer x =
     (case signer of
        None \<Rightarrow> Inr (x, None)
      | Some i \<Rightarrow> (case sign_routing c i (control_routing_payload x) of Inl _ \<Rightarrow> Inl Invalid | Inr a \<Rightarrow> Inr (x, Some a)))"

definition committed_configuration_of :: "raft_node \<Rightarrow> (raft_error, committed_configuration) result" where
  "committed_configuration_of n = (case Raft_Node.committed (vstate n) of None \<Rightarrow> Inl Unavailable | Some x \<Rightarrow> Inr x)"

definition get_configuration ::
  "('s, 'k) crypto \<Rightarrow> nat option \<Rightarrow> header_map \<Rightarrow> ('s, 'k) control_app
     \<Rightarrow> ('s, 'k) control_app \<times> (raft_error, committed_configuration \<times> control_authentication option) result" where
  "get_configuration c clock headers app =
     and_app (authenticate_service_request c clock headers ''GET'' ''/v1/control/config'' [] app) (\<lambda>app credential.
       let service = map_option vd_service_id credential; (z, r) = authorize_gateway service (ap_services app)
       in case r of
            Inl _ \<Rightarrow> (app\<lparr>ap_services := z\<rparr>, Inl Forbidden)
          | Inr _ \<Rightarrow>
              (app\<lparr>ap_services := record_authorized_gateway_read service z\<rparr>,
               and_then (committed_configuration_of (ap_node app)) (authenticate_configuration c (ap_signer app))))"

text \<open>A write up to its first wait: the entry's index and term, and the writer.\<close>

definition set_configuration_begin ::
  "('s, 'k) crypto \<Rightarrow> host_env \<Rightarrow> nat option \<Rightarrow> write_request \<Rightarrow> ('s, 'k) control_app
     \<Rightarrow> ('s, 'k) control_app \<times> (raft_error, (nat \<times> nat) \<times> string option) result" where
  "set_configuration_begin c env clock request app =
     (case clock of
        None \<Rightarrow> (app, Inl Unavailable)
      | Some now_ms \<Rightarrow>
          let (z, r) = authorize_write c request (cluster_id (config (ap_node app))) now_ms (ap_writers app);
              app = app\<lparr>ap_writers := z\<rparr>
          in case r of
               Inl _ \<Rightarrow> (app, Inl Unauthorized)
             | Inr p \<Rightarrow>
                 let writer = map_option writer_id (apr_writer p);
                     (n, w) = write_begin env (apr_configuration p) (apr_expected_revision p) (apr_writer p) (ap_node app);
                     app = app\<lparr>ap_node := n\<rparr>
                 in case w of
                      Inl Conflict \<Rightarrow> (app\<lparr>ap_writers := record_revision_conflict writer (ap_writers app)\<rparr>, Inl Conflict)
                    | Inl e \<Rightarrow> (app, Inl e)
                    | Inr x \<Rightarrow> (app, Inr (x, writer)))"

text \<open>The end of a write, when its wait is over with the given outcome.\<close>

definition set_configuration_end ::
  "('s, 'k) crypto \<Rightarrow> string option \<Rightarrow> (raft_error, committed_configuration) result \<Rightarrow> ('s, 'k) control_app
     \<Rightarrow> ('s, 'k) control_app \<times> (raft_error, committed_configuration \<times> control_authentication option) result" where
  "set_configuration_end c writer outcome app =
     (case outcome of
        Inl Conflict \<Rightarrow> (app\<lparr>ap_writers := record_revision_conflict writer (ap_writers app)\<rparr>, Inl Conflict)
      | Inl e \<Rightarrow> (app, Inl e)
      | Inr x \<Rightarrow> (app\<lparr>ap_writers := record_committed writer (ap_writers app)\<rparr>, authenticate_configuration c (ap_signer app) x))"

definition health_endpoint :: "('s, 'k) control_app \<Rightarrow> (raft_error, unit) result" where
  "health_endpoint app = (if storage_error (vstate (ap_node app)) = None then Inr () else Inl Storage)"

section \<open>Requests\<close>

text \<open>The canonical JSON of the two messages between nodes, where the library can write it.\<close>

record canonical_json =
  cj_vote :: "request_vote_request \<Rightarrow> string option"
  cj_append :: "append_entries_request \<Rightarrow> string option"

datatype control_request =
    VoteRpc header_map request_vote_request
  | AppendRpc header_map append_entries_request
  | ReadConfiguration header_map
  | StartWrite write_request
  | EndWrite "string option" "(raft_error, committed_configuration) result"
  | CheckHealth

definition control_exec ::
  "('s, 'k) crypto \<Rightarrow> canonical_json \<Rightarrow> host_env \<Rightarrow> nat option \<Rightarrow> control_request \<Rightarrow> ('s, 'k) control_app \<Rightarrow> ('s, 'k) control_app" where
  "control_exec c json env clock q app =
     (case q of
        VoteRpc headers request \<Rightarrow> fst (request_vote_endpoint c env clock headers (cj_vote json) request app)
      | AppendRpc headers request \<Rightarrow> fst (append_entries_endpoint c env clock headers (cj_append json) request app)
      | ReadConfiguration headers \<Rightarrow> fst (get_configuration c clock headers app)
      | StartWrite request \<Rightarrow> fst (set_configuration_begin c env clock request app)
      | EndWrite writer outcome \<Rightarrow> fst (set_configuration_end c writer outcome app)
      | CheckHealth \<Rightarrow> app)"

end
