(* ===== verification/Service_Safety.thy ===== *)
theory Service_Safety
  imports Control_Service
begin

text \<open>
  Runs of the service authorizer of a control node: any sequence of its operations.  No signed request is accepted
  twice while the clock is steady up to the configured skew, and a policy that was seen expired is not used again.
\<close>

section \<open>Runs\<close>

datatype 'k service_event =
    Authenticate "service_authentication option" request_origin
  | Preflight nat
  | CheckGateway "string option"
  | GatewayRead "string option"
  | PeerRpc "string option"
  | PeerRejected "string option"
  | BadHeader
  | Reload "'k verified_trust" nat
  | PolicyRejected
  | Fetched string bool nat
  | FetchFailed nat
  | ReceiptPosted nat nat
  | ReceiptFailed
  | ReadStatus nat

text \<open>What an operation does to the authorizer, and the service, nonce and issue time of the request that it accepts.\<close>

definition service_exec :: "('s, 'k) crypto \<Rightarrow> 'k service_event \<Rightarrow> 'k service_authorizer \<Rightarrow> 'k service_authorizer \<times> (string \<times> string \<times> nat) list" where
  "service_exec c e z =
     (case e of
        Authenticate x origin \<Rightarrow>
          (case (service_authenticate c x origin z, x) of
             ((z', Inr (Some _)), Some a) \<Rightarrow> (z', [(sv_service_id a, sv_nonce a, sv_issued_at_ms a)])
           | ((z', _), _) \<Rightarrow> (z', []))
      | Preflight t \<Rightarrow> (fst (preflight_signed_policy_validity t z), [])
      | CheckGateway s \<Rightarrow> (fst (authorize_gateway s z), [])
      | GatewayRead s \<Rightarrow> (record_authorized_gateway_read s z, [])
      | PeerRpc s \<Rightarrow> (record_authorized_peer_rpc s z, [])
      | PeerRejected s \<Rightarrow> (record_peer_authorization_rejection s z, [])
      | BadHeader \<Rightarrow> (record_header_rejection z, [])
      | Reload v t \<Rightarrow> (fst (apply_signed_snapshot v t z), [])
      | PolicyRejected \<Rightarrow> (record_trust_policy_rejection z, [])
      | Fetched outcome etag t \<Rightarrow> (record_trust_fetch_success outcome etag t z, [])
      | FetchFailed t \<Rightarrow> (fst (record_trust_fetch_failure t z), [])
      | ReceiptPosted g t \<Rightarrow> (record_trust_receipt_success g t z, [])
      | ReceiptFailed \<Rightarrow> (record_trust_receipt_failure z, [])
      | ReadStatus t \<Rightarrow> (fst (status_validity t z), []))"

fun service_run :: "('s, 'k) crypto \<Rightarrow> 'k service_event list \<Rightarrow> 'k service_authorizer \<Rightarrow> 'k service_authorizer \<times> (string \<times> string \<times> nat) list" where
  "service_run c [] z = (z, [])"
| "service_run c (e # es) z = (let (z, x) = service_exec c e z; (z, xs) = service_run c es z in (z, x @ xs))"

definition allowed_skew :: "'k service_authorizer \<Rightarrow> nat" where
  "allowed_skew z = (case sz_mode z of None \<Rightarrow> 0 | Some m \<Rightarrow> rm_max_future_skew_ms m)"

definition allowed_age :: "'k service_authorizer \<Rightarrow> nat" where
  "allowed_age z = (case sz_mode z of None \<Rightarrow> 0 | Some m \<Rightarrow> rm_max_age_ms m)"

text \<open>Readings have 64 bits, and those of authentications never fall behind an earlier reading by more than the skew.\<close>

fun steady_clock :: "('s, 'k) crypto \<Rightarrow> 'k service_event list \<Rightarrow> 'k service_authorizer \<Rightarrow> bool" where
  "steady_clock c [] z \<longleftrightarrow> True"
| "steady_clock c (e # es) z \<longleftrightarrow>
     (case e of Authenticate _ origin \<Rightarrow> max (sz_max_observed_ms z) (ro_now_ms origin) \<le> u64_max \<and> sz_max_observed_ms z \<le> ro_now_ms origin + allowed_skew z | _ \<Rightarrow> True) \<and>
     steady_clock c es (fst (service_exec c e z))"

definition generation_of :: "'k service_authorizer \<Rightarrow> nat" where
  "generation_of z = (case trust_policy_generation z of None \<Rightarrow> 0 | Some g \<Rightarrow> g)"

section \<open>What an operation keeps\<close>

text \<open>Everything but the replay cache, the mode and the greatest clock reading is bookkeeping.\<close>

definition core :: "'k service_authorizer \<Rightarrow> 'k required_mode option \<times> ((string \<times> string) \<times> nat) list \<times> nat" where
  "core z = (sz_mode z, sz_replay z, sz_max_observed_ms z)"

lemma core_updates [simp]:
  "core (reject k s r z) = core z" "core (reject_expired_policy s z) = core z"
  "core (record_authorized_gateway_read s z) = core z" "core (record_authorized_peer_rpc s z) = core z"
  "core (record_peer_authorization_rejection s z) = core z" "core (record_header_rejection z) = core z"
  "core (record_trust_policy_rejection z) = core z" "core (record_trust_receipt_failure z) = core z"
  "core (fst (authorize_gateway s z)) = core z"
  by (simp_all add: core_def reject_def reject_expired_policy_def record_authorized_gateway_read_def record_authorized_peer_rpc_def
      record_peer_authorization_rejection_def record_header_rejection_def record_trust_policy_rejection_def record_trust_receipt_failure_def
      authorize_gateway_def Let_def split: rejection_kind.split option.split)

lemma core_clock [simp]:
  "core (fst (observe_wall_clock t z)) = (sz_mode z, sz_replay z, max (sz_max_observed_ms z) t)"
  "core (fst (preflight_signed_policy_validity t z)) = (if sz_mode z = None then core z else (sz_mode z, sz_replay z, max (sz_max_observed_ms z) t))"
  "core (record_trust_fetch_success x e t z) = (sz_mode z, sz_replay z, max (sz_max_observed_ms z) t)"
  "core (fst (record_trust_fetch_failure t z)) = (sz_mode z, sz_replay z, max (sz_max_observed_ms z) t)"
  "core (record_trust_receipt_success g t z) = (sz_mode z, sz_replay z, max (sz_max_observed_ms z) t)"
  "core (fst (status_validity t z)) = (sz_mode z, sz_replay z, max (sz_max_observed_ms z) t)"
  by (simp_all add: observe_wall_clock_def preflight_signed_policy_validity_def record_trust_fetch_success_def record_trust_fetch_failure_def
      record_trust_receipt_success_def status_validity_def Let_def reject_expired_policy_def reject_def core_def split: option.split)

lemma reload_core:
  "core (fst (apply_signed_snapshot v t z)) = (sz_mode z, sz_replay z, max (sz_max_observed_ms z) t) \<or>
   generation_of z < generation_of (fst (apply_signed_snapshot v t z)) \<and> sz_replay (fst (apply_signed_snapshot v t z)) = sz_replay z \<and>
   sz_max_observed_ms (fst (apply_signed_snapshot v t z)) = max (sz_max_observed_ms z) t \<and>
   allowed_age (fst (apply_signed_snapshot v t z)) = allowed_age z \<and> allowed_skew (fst (apply_signed_snapshot v t z)) = allowed_skew z"
  by (auto simp: apply_signed_snapshot_def observe_wall_clock_def Let_def core_def generation_of_def trust_policy_generation_def signed_mode_def
      allowed_age_def allowed_skew_def split: option.split sum.split if_splits)

section \<open>Authentication\<close>

lemma authenticate_accepts:
  assumes "service_authenticate c (Some a) origin z = (z', Inr (Some v))"
  obtains m where "sz_mode z = Some m" "ro_now_ms origin - sv_issued_at_ms a \<le> rm_max_age_ms m"
    "sv_issued_at_ms a \<le> sat_add64 (ro_now_ms origin) (rm_max_future_skew_ms m)"
    "\<not> trust_policy_is_expired (rm_trust_policy m) (max (sz_max_observed_ms z) (ro_now_ms origin))"
    "verify_service c (rm_keys m) \<lparr>sp_method = ro_method origin, sp_path = ro_path origin, sp_cluster_id = ro_cluster_id origin,
       sp_audience_id = ro_audience_id origin, sp_issued_at_ms = sv_issued_at_ms a, sp_nonce = sv_nonce a, sp_body = ro_body origin\<rparr> a = Inr v"
    "map_of (retain_fresh (ro_now_ms origin) (sz_replay z)) (sv_service_id a, sv_nonce a) = None"
    "core z' = (sz_mode z, ((sv_service_id a, sv_nonce a), sat_add64 (sat_add64 (sv_issued_at_ms a) (rm_max_age_ms m)) (rm_max_future_skew_ms m))
       # retain_fresh (ro_now_ms origin) (sz_replay z), max (sz_max_observed_ms z) (ro_now_ms origin))"
  using assms
  by (auto simp: service_authenticate_def authenticate_required_def admit_nonce_def observe_wall_clock_def Let_def core_def
      split: option.splits sum.splits if_splits service_error.splits)

lemma authenticate_none: "service_authenticate c None origin z \<noteq> (z', Inr (Some v))"
  by (auto simp: service_authenticate_def Let_def split: option.splits prod.splits if_splits)

lemma core_fields: "core z' = (m, r, t) \<longleftrightarrow> sz_mode z' = m \<and> sz_replay z' = r \<and> sz_max_observed_ms z' = t"
  by (simp add: core_def)

lemma admit_rejects_core:
  assumes "admit_nonce now age skew a v z = (z', r)" "\<nexists>v. r = Inr (Some v)"
  shows "core z' = (sz_mode z, retain_fresh now (sz_replay z), sz_max_observed_ms z)"
proof -
  have "core (z\<lparr>sz_replay := l\<rparr>) = (sz_mode z, l, sz_max_observed_ms z)" for l by (simp add: core_def)
  then show ?thesis using assms by (auto simp: admit_nonce_def Let_def split: if_splits)
qed

lemma required_rejects_core:
  assumes "authenticate_required c m a origin z = (z', r)" "\<nexists>v. r = Inr (Some v)"
  shows "core z' = core z \<or> core z' = (sz_mode z, retain_fresh (ro_now_ms origin) (sz_replay z), sz_max_observed_ms z)"
proof (cases "verify_service c (rm_keys m) \<lparr>sp_method = ro_method origin, sp_path = ro_path origin, sp_cluster_id = ro_cluster_id origin,
            sp_audience_id = ro_audience_id origin, sp_issued_at_ms = sv_issued_at_ms a, sp_nonce = sv_nonce a, sp_body = ro_body origin\<rparr> a")
  case (Inl e)
  have "core (z\<lparr>sz_credential_revocation_rejections := k, sz_last_rejected_credential := l\<rparr>) = core z" "core (z\<lparr>sz_last_rejected_credential := l\<rparr>) = core z" for k l
    by (simp_all add: core_def)
  then show ?thesis using Inl assms(1) by (cases e) (auto simp: authenticate_required_def Let_def)
next
  case (Inr v)
  then show ?thesis using assms admit_rejects_core[of "ro_now_ms origin" "rm_max_age_ms m" "rm_max_future_skew_ms m" a v z z' r]
    by (auto simp: authenticate_required_def Let_def split: if_splits)
qed

lemma authenticate_rejects_core:
  assumes "service_authenticate c x origin z = (z', r)" "\<nexists>v. r = Inr (Some v)"
  shows "core z' = core z \<and> sz_mode z = None \<or> core z' = (sz_mode z, sz_replay z, max (sz_max_observed_ms z) (ro_now_ms origin)) \<or>
    core z' = (sz_mode z, retain_fresh (ro_now_ms origin) (sz_replay z), max (sz_max_observed_ms z) (ro_now_ms origin))"
proof (cases "sz_mode z")
  case None
  then show ?thesis using assms by (auto simp: service_authenticate_def split: option.splits)
next
  case (Some m)
  obtain w where o: "observe_wall_clock (ro_now_ms origin) z = (w, max (sz_max_observed_ms z) (ro_now_ms origin))"
    and f: "sz_mode w = sz_mode z" "sz_replay w = sz_replay z" "sz_max_observed_ms w = max (sz_max_observed_ms z) (ro_now_ms origin)"
    by (simp add: observe_wall_clock_def Let_def)
  have "core z' = core w \<or> core z' = (sz_mode w, retain_fresh (ro_now_ms origin) (sz_replay w), sz_max_observed_ms w)"
  proof (cases "trust_policy_is_expired (rm_trust_policy m) (max (sz_max_observed_ms z) (ro_now_ms origin))")
    case True
    then show ?thesis using assms(1) Some o by (auto simp: service_authenticate_def)
  next
    case False
    show ?thesis
    proof (cases x)
      case None
      then show ?thesis using assms(1) Some o False by (auto simp: service_authenticate_def)
    next
      case (Some a)
      then have "authenticate_required c m a origin w = (z', r)" using assms(1) \<open>sz_mode z = Some m\<close> o False by (simp add: service_authenticate_def)
      from required_rejects_core[OF this assms(2)] show ?thesis .
    qed
  qed
  then show ?thesis by (simp add: f core_fields) (simp add: core_def f)
qed

section \<open>No replay\<close>

definition expiry :: "'k service_authorizer \<Rightarrow> nat \<Rightarrow> nat" where
  "expiry z issued = sat_add64 (sat_add64 issued (allowed_age z)) (allowed_skew z)"

text \<open>Every accepted request is still in the cache, or its expiry has been passed by the clock.\<close>

definition remembers :: "'k service_authorizer \<Rightarrow> (string \<times> string \<times> nat) set \<Rightarrow> bool" where
  "remembers z A \<longleftrightarrow> (\<forall>(s, n, i)\<in>A. map_of (sz_replay z) (s, n) = Some (expiry z i) \<or> expiry z i < sz_max_observed_ms z)"

lemma map_of_retain: "map_of xs k = Some e \<Longrightarrow> now \<le> e \<Longrightarrow> map_of (retain_fresh now xs) k = Some e"
  by (induction xs) (auto simp: retain_fresh_def split: if_splits)

lemma map_of_retain_None: "map_of (retain_fresh now xs) k = None \<Longrightarrow> map_of xs k = Some e \<Longrightarrow> e < now"
  using map_of_retain[of xs k e now] by (cases "e < now") auto

lemma remembers_mono:
  assumes "remembers z A" "allowed_age z' = allowed_age z" "allowed_skew z' = allowed_skew z" "sz_max_observed_ms z \<le> sz_max_observed_ms z'"
    "sz_replay z' = sz_replay z \<or> (\<exists>now. sz_replay z' = retain_fresh now (sz_replay z) \<and> now \<le> sz_max_observed_ms z')"
  shows "remembers z' A"
proof -
  have e: "expiry z' i = expiry z i" for i using assms(2,3) by (simp add: expiry_def)
  show ?thesis unfolding remembers_def
  proof (clarify)
    fix s n i
    assume "(s, n, i) \<in> A" and old: "\<not> expiry z' i < sz_max_observed_ms z'"
    then have m: "map_of (sz_replay z) (s, n) = Some (expiry z i)" using assms(1,4) e by (fastforce simp: remembers_def)
    then show "map_of (sz_replay z') (s, n) = Some (expiry z' i)"
      using assms(5) old map_of_retain[OF m] by (auto simp: e)
  qed
qed

lemma accept_new:
  assumes acc: "service_authenticate c (Some a) origin z = (z', Inr (Some v))" and rem: "remembers z A"
    and clock: "max (sz_max_observed_ms z) (ro_now_ms origin) \<le> u64_max" "sz_max_observed_ms z \<le> ro_now_ms origin + allowed_skew z"
  shows "(sv_service_id a, sv_nonce a, sv_issued_at_ms a) \<notin> A" "remembers z' (insert (sv_service_id a, sv_nonce a, sv_issued_at_ms a) A)"
proof -
  let ?k = "(sv_service_id a, sv_nonce a)" and ?i = "sv_issued_at_ms a" and ?now = "ro_now_ms origin"
  obtain m where m: "sz_mode z = Some m" "?now - ?i \<le> rm_max_age_ms m" "map_of (retain_fresh ?now (sz_replay z)) ?k = None"
    "core z' = (sz_mode z, (?k, sat_add64 (sat_add64 ?i (rm_max_age_ms m)) (rm_max_future_skew_ms m)) # retain_fresh ?now (sz_replay z),
       max (sz_max_observed_ms z) ?now)"
    by (rule authenticate_accepts[OF acc])
  note s = m(4)[unfolded core_fields]
  have ex: "expiry z ?i = sat_add64 (sat_add64 ?i (rm_max_age_ms m)) (rm_max_future_skew_ms m)" "expiry z' i = expiry z i" for i
    using m(1) s by (auto simp: expiry_def allowed_age_def allowed_skew_def)
  show "(sv_service_id a, sv_nonce a, ?i) \<notin> A"
  proof
    assume "(sv_service_id a, sv_nonce a, ?i) \<in> A"
    then have "map_of (sz_replay z) ?k = Some (expiry z ?i) \<or> expiry z ?i < sz_max_observed_ms z" using rem by (auto simp: remembers_def)
    then have "expiry z ?i < ?now \<or> expiry z ?i < sz_max_observed_ms z" using map_of_retain_None[OF m(3)] by blast
    then show False using m(1,2) clock unfolding ex(1) by (auto simp: sat_add64_def allowed_skew_def split: if_splits)
  qed
  show "remembers z' (insert (sv_service_id a, sv_nonce a, ?i) A)" unfolding remembers_def
  proof (clarify)
    fix t n i
    assume "(t, n, i) \<in> insert (sv_service_id a, sv_nonce a, ?i) A" and old: "\<not> expiry z' i < sz_max_observed_ms z'"
    moreover have "map_of (sz_replay z') (t, n) = Some (expiry z' i)" if "(t, n, i) \<in> A"
    proof -
      have "map_of (sz_replay z) (t, n) = Some (expiry z i)" using rem that old s ex(2) by (fastforce simp: remembers_def)
      then have "map_of (retain_fresh ?now (sz_replay z)) (t, n) = Some (expiry z i)" using old s ex(2) by (intro map_of_retain) auto
      then show ?thesis using m(3) s ex(2) by auto
    qed
    ultimately show "map_of (sz_replay z') (t, n) = Some (expiry z' i)" using s ex by auto
  qed
qed

definition quiet :: "'k service_authorizer \<Rightarrow> 'k service_authorizer \<Rightarrow> bool" where
  "quiet z z' \<longleftrightarrow> (\<exists>l t. core z' = (sz_mode z, l, t) \<and> sz_max_observed_ms z \<le> t \<and>
     (l = sz_replay z \<or> (\<exists>now. l = retain_fresh now (sz_replay z) \<and> now \<le> t)))"

definition reloaded :: "'k service_authorizer \<Rightarrow> 'k service_authorizer \<Rightarrow> bool" where
  "reloaded z z' \<longleftrightarrow> generation_of z < generation_of z' \<and> sz_replay z' = sz_replay z \<and> sz_max_observed_ms z \<le> sz_max_observed_ms z' \<and>
     allowed_age z' = allowed_age z \<and> allowed_skew z' = allowed_skew z"

lemma quiet_core: "core z' = core z \<Longrightarrow> quiet z z'" "core z' = (sz_mode z, sz_replay z, max (sz_max_observed_ms z) t) \<Longrightarrow> quiet z z'"
  "core z' = (sz_mode z, retain_fresh n (sz_replay z), max (sz_max_observed_ms z) n) \<Longrightarrow> quiet z z'"
  by (auto simp: quiet_def) (simp add: core_def)

lemma exec_cases:
  assumes "service_exec c e z = (z', x)"
  obtains (accepted) a origin v where "e = Authenticate (Some a) origin" "service_authenticate c (Some a) origin z = (z', Inr (Some v))"
      "x = [(sv_service_id a, sv_nonce a, sv_issued_at_ms a)]"
    | (quiet) "x = []" "quiet z z'"
    | (reloaded) "x = []" "reloaded z z'"
proof (cases "\<exists>y origin. e = Authenticate y origin")
  case True
  then obtain y origin where e: "e = Authenticate y origin" by blast
  obtain w r where r: "service_authenticate c y origin z = (w, r)" by fastforce
  show thesis
  proof (cases "\<exists>v. r = Inr (Some v)")
    case True
    then obtain v where v: "r = Inr (Some v)" by blast
    then obtain a where a: "y = Some a" using r authenticate_none[of c origin z w v] by (cases y) auto
    show thesis by (rule accepted[of a origin v]) (use e a r v assms in \<open>auto simp: service_exec_def\<close>)
  next
    case False
    have w: "w = z'" "x = []" using assms e r False by (auto simp: service_exec_def split: sum.splits option.splits)
    show thesis
      by (rule quiet[OF w(2)]) (use authenticate_rejects_core[OF r] False w(1) quiet_core in blast)
  qed
next
  case False
  show thesis
  proof (cases "\<exists>v t. e = Reload v t")
    case True
    then obtain v t where e: "e = Reload v t" by blast
    then have z: "z' = fst (apply_signed_snapshot v t z)" "x = []" using assms by (simp_all add: service_exec_def)
    show thesis using reload_core[of v t z] quiet[OF z(2)] reloaded[OF z(2)] quiet_core(2)[of z' z t] unfolding z(1)[symmetric] reloaded_def
      by (metis max.cobounded1)
  next
    case no_reload: False
    have "core z' = core z \<or> (\<exists>t. core z' = (sz_mode z, sz_replay z, max (sz_max_observed_ms z) t))" "x = []"
      using assms False no_reload by (cases e; force simp: service_exec_def)+
    then show thesis using quiet quiet_core by blast
  qed
qed

lemma exec_keeps:
  assumes "service_exec c e z = (z', x)"
  shows "sz_max_observed_ms z \<le> sz_max_observed_ms z' \<and> allowed_age z' = allowed_age z \<and> allowed_skew z' = allowed_skew z \<and>
    (sz_mode z' = sz_mode z \<or> generation_of z < generation_of z')"
  using assms
proof (cases rule: exec_cases)
  case (accepted a origin v)
  then show ?thesis by (elim authenticate_accepts) (simp add: core_fields allowed_age_def allowed_skew_def)
qed (auto simp: quiet_def reloaded_def core_fields allowed_age_def allowed_skew_def)

lemma run_remembers:
  assumes "service_run c es z = (z', xs)" "remembers z A" "steady_clock c es z"
  shows "distinct xs \<and> set xs \<inter> A = {}"
  using assms
proof (induction es arbitrary: z A xs)
  case (Cons e es)
  obtain w x ys where s: "service_exec c e z = (w, x)" "service_run c es w = (z', ys)" "xs = x @ ys"
    using Cons.prems(1) by (auto simp: Let_def split: prod.splits)
  have clock: "steady_clock c es w" using Cons.prems(3) s(1) by simp
  note k = exec_keeps[OF s(1)]
  from s(1) show ?case
  proof (cases rule: exec_cases)
    case (accepted a origin v)
    have now: "max (sz_max_observed_ms z) (ro_now_ms origin) \<le> u64_max" "sz_max_observed_ms z \<le> ro_now_ms origin + allowed_skew z"
      using Cons.prems(3) accepted(1) by simp_all
    note n = accept_new[OF accepted(2) Cons.prems(2) now]
    show ?thesis using Cons.IH[OF s(2) n(2) clock] n(1) accepted(3) s(3) by auto
  next
    case quiet
    have "remembers w A" by (rule remembers_mono[OF Cons.prems(2)]) (use quiet k in \<open>auto simp: quiet_def core_fields\<close>)
    then show ?thesis using Cons.IH[OF s(2) _ clock] quiet(1) s(3) by simp
  next
    case reloaded
    have "remembers w A" by (rule remembers_mono[OF Cons.prems(2)]) (use reloaded k in \<open>auto simp: reloaded_def\<close>)
    then show ?thesis using Cons.IH[OF s(2) _ clock] reloaded(1) s(3) by simp
  qed
qed simp

section \<open>Expired policies\<close>

definition seen_expired :: "'k service_authorizer \<Rightarrow> bool" where
  "seen_expired z = (case sz_mode z of None \<Rightarrow> False | Some m \<Rightarrow> trust_policy_is_expired (rm_trust_policy m) (sz_max_observed_ms z))"

lemma expired_later: "trust_policy_is_expired p t \<Longrightarrow> t \<le> t' \<Longrightarrow> trust_policy_is_expired p t'"
  by (auto simp: trust_policy_is_expired_def split: option.splits if_splits policy_version.splits)

lemma exec_expired:
  assumes "service_exec c e z = (z', x)" "seen_expired z"
  shows "x = [] \<and> (seen_expired z' \<or> generation_of z < generation_of z')"
proof
  show "x = []" using assms(1)
  proof (cases rule: exec_cases)
    case (accepted a origin v)
    obtain m where "sz_mode z = Some m" "\<not> trust_policy_is_expired (rm_trust_policy m) (max (sz_max_observed_ms z) (ro_now_ms origin))"
      by (rule authenticate_accepts[OF accepted(2)])
    then show ?thesis using assms(2) expired_later[OF _ max.cobounded1] by (simp add: seen_expired_def)
  qed auto
  show "seen_expired z' \<or> generation_of z < generation_of z'"
    using exec_keeps[OF assms(1)] assms(2) expired_later by (auto simp: seen_expired_def split: option.splits)
qed

lemma run_generation:
  "service_run c es z = (z', xs) \<Longrightarrow> generation_of z \<le> generation_of z'"
proof (induction es arbitrary: z xs)
  case (Cons e es)
  obtain w x ys where s: "service_exec c e z = (w, x)" "service_run c es w = (z', ys)"
    using Cons.prems by (auto simp: Let_def split: prod.splits)
  have "generation_of z \<le> generation_of w"
    using exec_keeps[OF s(1)] by (auto simp: generation_of_def trust_policy_generation_def)
  then show ?case using Cons.IH[OF s(2)] by simp
qed simp

lemma run_expired:
  "service_run c es z = (z', xs) \<Longrightarrow> seen_expired z \<Longrightarrow> xs \<noteq> [] \<Longrightarrow> generation_of z < generation_of z'"
proof (induction es arbitrary: z xs)
  case (Cons e es)
  obtain w x ys where s: "service_exec c e z = (w, x)" "service_run c es w = (z', ys)" "xs = x @ ys"
    using Cons.prems(1) by (auto simp: Let_def split: prod.splits)
  note e = exec_expired[OF s(1) Cons.prems(2)] and g = run_generation[OF s(2)]
  have "generation_of z \<le> generation_of w"
    using exec_keeps[OF s(1)] by (auto simp: generation_of_def trust_policy_generation_def)
  then show ?case using e g Cons.IH[OF s(2)] Cons.prems(3) s(3) by auto
qed simp

end
