(* ===== verification/Service_Receipts.thy ===== *)
theory Service_Receipts
  imports Service_Trust_Policy
begin

text \<open>
  Receipts for applied trust policies (\<open>service-auth/src/trust_receipt.rs\<close>): a service attests, with the credential it names, which
  signed snapshot it activated and when.
\<close>

definition SERVICE_TRUST_RECEIPT_SCHEMA :: string where "SERVICE_TRUST_RECEIPT_SCHEMA = ''inferlab.service-trust-receipt.v1''"
definition SERVICE_TRUST_RECEIPT_AUTHENTICATION_SCHEMA :: string where
  "SERVICE_TRUST_RECEIPT_AUTHENTICATION_SCHEMA = ''inferlab.service-trust-receipt-authentication.v1''"
definition RECEIPT_DOMAIN :: string where "RECEIPT_DOMAIN = SERVICE_TRUST_RECEIPT_SCHEMA @ [char_of (0::nat)]"

record receipt_payload =
  rc_schema :: string
  rc_cluster_id :: string
  rc_generation :: nat
  rc_root_key_id :: string
  rc_snapshot_signature :: string
  rc_receiver_service_id :: string
  rc_receiver_credential_id :: string
  rc_applied_at_ms :: nat

record trust_receipt =
  re_payload :: receipt_payload
  re_schema :: string
  re_algorithm :: string
  re_signature :: string

definition validate_receipt :: "('s, 'k) crypto \<Rightarrow> receipt_payload \<Rightarrow> string \<Rightarrow> string \<Rightarrow> (service_error, unit) result" where
  "validate_receipt c p schema algorithm =
     (if rc_schema p \<noteq> SERVICE_TRUST_RECEIPT_SCHEMA then Inl SvcInvalid
      else and_then (validate_id (rc_cluster_id p)) (\<lambda>_.
        if rc_generation p = 0 then Inl SvcInvalid
        else and_then (validate_id (rc_root_key_id p)) (\<lambda>_.
             and_then (invalid (decode_exact c 64 (rc_snapshot_signature p))) (\<lambda>_.
             and_then (validate_id (rc_receiver_service_id p)) (\<lambda>_.
             and_then (validate_id (rc_receiver_credential_id p)) (\<lambda>_.
               if rc_applied_at_ms p = 0 then Inl SvcInvalid
               else if schema \<noteq> SERVICE_TRUST_RECEIPT_AUTHENTICATION_SCHEMA then Inl SvcInvalid
               else if algorithm \<noteq> SIGNATURE_ALGORITHM then Inl SvcInvalid
               else Inr ()))))))"

definition canonical_receipt :: "('s, 'k) crypto \<Rightarrow> receipt_payload \<Rightarrow> string \<Rightarrow> string \<Rightarrow> (service_error, string) result" where
  "canonical_receipt c p schema algorithm =
     and_then (validate_receipt c p schema algorithm) (\<lambda>_.
     and_then (invalid (append_strings RECEIPT_DOMAIN [rc_schema p, rc_cluster_id p])) (\<lambda>bytes.
     and_then (invalid (append_strings (bytes @ be_bytes 8 (rc_generation p))
       [rc_root_key_id p, rc_snapshot_signature p, rc_receiver_service_id p, rc_receiver_credential_id p])) (\<lambda>bytes.
       invalid (append_strings (bytes @ be_bytes 8 (rc_applied_at_ms p)) [schema, algorithm]))))"

definition sign_trust_receipt :: "('s, 'k) crypto \<Rightarrow> 's service_identity \<Rightarrow> 'k verified_trust \<Rightarrow> nat \<Rightarrow> (service_error, trust_receipt) result" where
  "sign_trust_receipt c i s applied_at_ms =
     (let p = \<lparr>rc_schema = SERVICE_TRUST_RECEIPT_SCHEMA, rc_cluster_id = pp_cluster_id (vt_policy s), rc_generation = pp_generation (vt_policy s),
            rc_root_key_id = vt_signing_key_id s, rc_snapshot_signature = vt_signature s, rc_receiver_service_id = id_service_id i,
            rc_receiver_credential_id = id_credential_id i, rc_applied_at_ms = applied_at_ms\<rparr>
      in and_then (canonical_receipt c p SERVICE_TRUST_RECEIPT_AUTHENTICATION_SCHEMA SIGNATURE_ALGORITHM) (\<lambda>message.
           Inr \<lparr>re_payload = p, re_schema = SERVICE_TRUST_RECEIPT_AUTHENTICATION_SCHEMA, re_algorithm = SIGNATURE_ALGORITHM,
                re_signature = base64_encode c (sign_bytes c (id_key i) message)\<rparr>))"

definition verify_trust_receipt :: "('s, 'k) crypto \<Rightarrow> 'k service_ring \<Rightarrow> trust_receipt \<Rightarrow> (service_error, receipt_payload) result" where
  "verify_trust_receipt c r x =
     (let p = re_payload x; service_id = rc_receiver_service_id p; credential_id = rc_receiver_credential_id p in
      and_then (validate_receipt c p (re_schema x) (re_algorithm x)) (\<lambda>_.
        if service_id \<in> set (sr_revoked_services r) then Inl SvcRevokedService
        else case map_of (sr_keys r) service_id of
          None \<Rightarrow> Inl SvcUnknownService
        | Some credentials \<Rightarrow>
            (case find (\<lambda>y. tc_credential_id y = credential_id) credentials of
               None \<Rightarrow> Inl SvcUnknownService
             | Some credential \<Rightarrow>
                 if (service_id, credential_id) \<in> set (sr_revoked_credentials r) then Inl (SvcRevokedCredential credential_id)
                 else and_then (canonical_receipt c p (re_schema x) (re_algorithm x)) (\<lambda>message.
                      and_then (invalid (decode_exact c 64 (re_signature x))) (\<lambda>signature.
                        if verify_strict c (tc_key credential) message signature then Inr p else Inl SvcSignature)))))"

section \<open>What a receipt binds\<close>

definition receipt_fits :: "receipt_payload \<Rightarrow> bool" where
  "receipt_fits p \<longleftrightarrow> rc_generation p \<le> u64_max \<and> rc_applied_at_ms p \<le> u64_max"

lemma canonical_receipt_eq:
  "canonical_receipt c p schema algorithm = Inr m \<longleftrightarrow>
     validate_receipt c p schema algorithm = Inr () \<and>
     list_all short [rc_schema p, rc_cluster_id p, rc_root_key_id p, rc_snapshot_signature p, rc_receiver_service_id p, rc_receiver_credential_id p, schema, algorithm] \<and>
     m = RECEIPT_DOMAIN @ lp (rc_schema p) @ lp (rc_cluster_id p) @ be_bytes 8 (rc_generation p) @ lp (rc_root_key_id p) @ lp (rc_snapshot_signature p) @
       lp (rc_receiver_service_id p) @ lp (rc_receiver_credential_id p) @ be_bytes 8 (rc_applied_at_ms p) @ lp schema @ lp algorithm"
  unfolding canonical_receipt_def and_then_Inr_iff invalid_Inr append_strings_eq by auto

lemma canonical_receipt_inj:
  assumes m: "canonical_receipt c p s a = Inr m" "canonical_receipt c p' s' a' = Inr m" and fits: "receipt_fits p" "receipt_fits p'"
  shows "p = p'"
proof -
  note e = m[unfolded canonical_receipt_eq]
  have "lp (rc_schema p) @ lp (rc_cluster_id p) @ be_bytes 8 (rc_generation p) @ lp (rc_root_key_id p) @ lp (rc_snapshot_signature p) @
       lp (rc_receiver_service_id p) @ lp (rc_receiver_credential_id p) @ be_bytes 8 (rc_applied_at_ms p) @ lp s @ lp a =
     lp (rc_schema p') @ lp (rc_cluster_id p') @ be_bytes 8 (rc_generation p') @ lp (rc_root_key_id p') @ lp (rc_snapshot_signature p') @
       lp (rc_receiver_service_id p') @ lp (rc_receiver_credential_id p') @ be_bytes 8 (rc_applied_at_ms p') @ lp s' @ lp a'"
    using e by (metis same_append_eq)
  then show ?thesis using e fits by (simp add: lp_inj be8 receipt_fits_def)
qed

lemma verify_trust_receipt_eq:
  "verify_trust_receipt c r x = Inr p \<longleftrightarrow>
     (\<exists>credentials credential m sig. p = re_payload x \<and> validate_receipt c p (re_schema x) (re_algorithm x) = Inr () \<and>
        rc_receiver_service_id p \<notin> set (sr_revoked_services r) \<and> map_of (sr_keys r) (rc_receiver_service_id p) = Some credentials \<and>
        find (\<lambda>y. tc_credential_id y = rc_receiver_credential_id p) credentials = Some credential \<and>
        (rc_receiver_service_id p, rc_receiver_credential_id p) \<notin> set (sr_revoked_credentials r) \<and>
        canonical_receipt c p (re_schema x) (re_algorithm x) = Inr m \<and> decode_exact c 64 (re_signature x) = Inr sig \<and>
        verify_strict c (tc_key credential) m sig)"
  unfolding verify_trust_receipt_def Let_def and_then_Inr_iff case_option_Inr_iff if_Inl_Inr_iff invalid_Inr by auto

section \<open>Kinds of signed messages\<close>

text \<open>No byte string is the canonical form of two kinds of message: the domain prefixes differ.\<close>

lemma domain_prefixes:
  "take 21 (PAYLOAD_DOMAIN @ r1) = ''inferlab.control-rout''" "take 21 (WRITE_PAYLOAD_DOMAIN @ r2) = ''inferlab.control-writ''"
  "take 21 (SERVICE_PAYLOAD_DOMAIN @ r3) = ''inferlab.service-requ''" "take 21 (policy_payload_domain v @ r4) = ''inferlab.service-trus''"
  "take 21 (RECEIPT_DOMAIN @ r5) = ''inferlab.service-trus''"
  "take 25 (policy_payload_domain v @ r4) = ''inferlab.service-trust-po''" "take 25 (RECEIPT_DOMAIN @ r5) = ''inferlab.service-trust-re''"
  by (cases v; simp add: PAYLOAD_DOMAIN_def WRITE_PAYLOAD_DOMAIN_def SERVICE_PAYLOAD_DOMAIN_def policy_payload_domain_def policy_schema_def RECEIPT_DOMAIN_def
      SERVICE_TRUST_RECEIPT_SCHEMA_def)+

datatype signed_message =
    RoutingMessage string routing_payload
  | WriteMessage string write_payload
  | ServiceMessage string service_payload
  | PolicyMessage string policy_payload
  | ReceiptMessage receipt_payload

text \<open>The bytes that are signed for a message; the policy version fixes the authentication schema.\<close>

definition message_bytes :: "('s, 'k) crypto \<Rightarrow> signed_message \<Rightarrow> string \<Rightarrow> bool" where
  "message_bytes c x m =
     (case x of
        RoutingMessage k p \<Rightarrow> canonical_payload p k = Inr m
      | WriteMessage k p \<Rightarrow> canonical_write_payload p k = Inr m
      | ServiceMessage k p \<Rightarrow> canonical_service_payload p k = Inr m
      | PolicyMessage k p \<Rightarrow> (\<exists>a. pa_key_id a = k \<and> canonical_policy p a = Inr m)
      | ReceiptMessage p \<Rightarrow> (\<exists>s a. canonical_receipt c p s a = Inr m))"

definition message_fits :: "signed_message \<Rightarrow> bool" where
  "message_fits x =
     (case x of RoutingMessage _ p \<Rightarrow> payload_fits p | WriteMessage _ p \<Rightarrow> write_fits p | ServiceMessage _ p \<Rightarrow> service_fits p
      | PolicyMessage _ p \<Rightarrow> policy_fits p | ReceiptMessage p \<Rightarrow> receipt_fits p)"

definition message_prefix :: "signed_message \<Rightarrow> string \<Rightarrow> bool" where
  "message_prefix x m =
     (case x of
        RoutingMessage _ _ \<Rightarrow> take 21 m = ''inferlab.control-rout''
      | WriteMessage _ _ \<Rightarrow> take 21 m = ''inferlab.control-writ''
      | ServiceMessage _ _ \<Rightarrow> take 21 m = ''inferlab.service-requ''
      | PolicyMessage _ _ \<Rightarrow> take 25 m = ''inferlab.service-trust-po'' \<and> take 21 m = ''inferlab.service-trus''
      | ReceiptMessage _ \<Rightarrow> take 25 m = ''inferlab.service-trust-re'' \<and> take 21 m = ''inferlab.service-trus'')"

lemma message_prefix: "message_bytes c x m \<Longrightarrow> message_prefix x m"
proof (cases x)
  case (RoutingMessage k p)
  assume "message_bytes c x m"
  then obtain r where "m = PAYLOAD_DOMAIN @ r" using RoutingMessage by (auto simp: message_bytes_def canonical_payload_eq)
  then show ?thesis using RoutingMessage by (simp only: message_prefix_def signed_message.case domain_prefixes)
next
  case (WriteMessage k p)
  assume "message_bytes c x m"
  then obtain r where "m = WRITE_PAYLOAD_DOMAIN @ r" using WriteMessage by (auto simp: message_bytes_def canonical_write_payload_eq)
  then show ?thesis using WriteMessage by (simp only: message_prefix_def signed_message.case domain_prefixes)
next
  case (ServiceMessage k p)
  assume "message_bytes c x m"
  then obtain r where "m = SERVICE_PAYLOAD_DOMAIN @ r" using ServiceMessage by (auto simp: message_bytes_def canonical_service_eq)
  then show ?thesis using ServiceMessage by (simp only: message_prefix_def signed_message.case domain_prefixes)
next
  case (PolicyMessage k p)
  assume "message_bytes c x m"
  then obtain a where "canonical_policy p a = Inr m" using PolicyMessage by (auto simp: message_bytes_def)
  then obtain v r where "m = policy_payload_domain v @ r" by (rule canonical_policyD)
  then show ?thesis using PolicyMessage by (simp only: message_prefix_def signed_message.case domain_prefixes simp_thms)
next
  case (ReceiptMessage p)
  assume "message_bytes c x m"
  then obtain r where "m = RECEIPT_DOMAIN @ r" using ReceiptMessage by (auto simp: message_bytes_def canonical_receipt_eq)
  then show ?thesis using ReceiptMessage by (simp only: message_prefix_def signed_message.case domain_prefixes simp_thms)
qed

lemma message_bytes_inj:
  assumes m: "message_bytes c x m" "message_bytes c y m" and fits: "message_fits x" "message_fits y"
  shows "x = y"
proof -
  note p = message_prefix[OF m(1)] message_prefix[OF m(2)]
  show ?thesis
  proof (cases x; cases y)
    fix k1 p1 k2 p2
    assume x: "x = RoutingMessage k1 p1" "y = RoutingMessage k2 p2"
    then show ?thesis using m fits canonical_payload_inj[of p1 k1 m p2 k2] by (simp add: message_bytes_def message_fits_def)
  next
    fix k1 p1 k2 p2
    assume "x = WriteMessage k1 p1" "y = WriteMessage k2 p2"
    then show ?thesis using m fits canonical_write_payload_inj[of p1 k1 m p2 k2] by (simp add: message_bytes_def message_fits_def)
  next
    fix k1 p1 k2 p2
    assume "x = ServiceMessage k1 p1" "y = ServiceMessage k2 p2"
    then show ?thesis using m fits canonical_service_inj[of p1 k1 m p2 k2] by (simp add: message_bytes_def message_fits_def)
  next
    fix k1 p1 k2 p2
    assume "x = PolicyMessage k1 p1" "y = PolicyMessage k2 p2"
    then show ?thesis using m fits canonical_policy_inj[of p1 _ m p2] by (auto simp: message_bytes_def message_fits_def)
  next
    fix p1 p2
    assume "x = ReceiptMessage p1" "y = ReceiptMessage p2"
    then show ?thesis using m fits canonical_receipt_inj[of c p1 _ _ m p2] by (auto simp: message_bytes_def message_fits_def)
  qed (use p in \<open>simp_all add: message_prefix_def\<close>)
qed

end
