(* ===== verification/Service_Props.thy ===== *)
theory Service_Props
  imports Service_Safety Service_Receipts Control_Props Raft_Safety
begin

text \<open>
  Properties of the signed messages between the services and of the control node that accepts them.
\<close>

section \<open>Only issued messages are accepted\<close>

text \<open>The signatures that verify under a key are those its holder made, over messages it issued.\<close>

definition unforgeable :: "('s, 'k) crypto \<Rightarrow> ('k \<Rightarrow> signed_message \<Rightarrow> bool) \<Rightarrow> bool" where
  "unforgeable c issued \<longleftrightarrow> (\<forall>k m sig. verify_strict c k m sig \<longrightarrow> (\<exists>x. issued k x \<and> message_fits x \<and> message_bytes c x m))"

lemma issued_message:
  assumes "unforgeable c issued" "verify_strict c k m sig" "message_bytes c x m" "message_fits x"
  shows "issued k x"
proof -
  obtain y where "issued k y" "message_fits y" "message_bytes c y m" using assms(1,2) unfolding unforgeable_def by blast
  then show ?thesis using message_bytes_inj[OF assms(3) _ assms(4)] by blast
qed

lemma routing_issued:
  assumes "unforgeable c issued" "payload_fits p" "ring_verify c r p a = Inr ()"
  shows "ca_key_id a \<notin> set (kr_revoked r) \<and> (\<exists>k. map_of (kr_keys r) (ca_key_id a) = Some k \<and> issued k (RoutingMessage (ca_key_id a) p))"
  using assms issued_message[OF assms(1), of _ _ _ "RoutingMessage (ca_key_id a) p"]
  by (auto simp: ring_verify_eq message_bytes_def message_fits_def)

lemma write_issued:
  assumes "unforgeable c issued" "write_fits p" "ring_verify_write c r p a = Inr ()"
  shows "wa_writer_id a \<notin> set (kr_revoked r) \<and> (\<exists>k. map_of (kr_keys r) (wa_writer_id a) = Some k \<and> issued k (WriteMessage (wa_writer_id a) p))"
  using assms issued_message[OF assms(1), of _ _ _ "WriteMessage (wa_writer_id a) p"]
  by (auto simp: ring_verify_write_eq message_bytes_def message_fits_def)

definition live_credential :: "'k service_ring \<Rightarrow> string \<Rightarrow> string \<Rightarrow> 'k \<Rightarrow> bool" where
  "live_credential r service credential k \<longleftrightarrow> (\<exists>x\<in>set (credentials_of r service). tc_credential_id x = credential \<and> tc_key x = k) \<and>
     service \<notin> set (sr_revoked_services r) \<and> (service, credential) \<notin> set (sr_revoked_credentials r)"

lemma service_issued:
  assumes "unforgeable c issued" "service_fits p" "verify_service c r p a = Inr v"
  shows "vd_service_id v = sv_service_id a \<and> (\<exists>k. live_credential r (sv_service_id a) (vd_credential_id v) k \<and> issued k (ServiceMessage (sv_service_id a) p))"
  using assms(2,3) issued_message[OF assms(1), of _ _ _ "ServiceMessage (sv_service_id a) p"]
  by (fastforce simp: verify_service_eq message_bytes_def message_fits_def live_credential_def credentials_of_def dest!: first_matching_some)

lemma policy_issued:
  assumes "unforgeable c issued" "policy_fits (tr_policy s)" "verify_trust c r s = Inr t"
  shows "vt_policy t = tr_policy s \<and> pa_key_id (tr_authentication s) \<notin> set (rr_revoked r) \<and>
    (\<exists>k. map_of (rr_keys r) (pa_key_id (tr_authentication s)) = Some k \<and> issued k (PolicyMessage (pa_key_id (tr_authentication s)) (tr_policy s)))"
  using assms(2,3) issued_message[OF assms(1), of _ _ _ "PolicyMessage (pa_key_id (tr_authentication s)) (tr_policy s)"]
  by (fastforce simp: verify_trust_def Let_def and_then_Inr_iff case_option_Inr_iff if_Inl_Inr_iff message_bytes_def message_fits_def)

lemma receipt_issued:
  assumes "unforgeable c issued" "receipt_fits (re_payload x)" "verify_trust_receipt c r x = Inr p"
  shows "p = re_payload x \<and> (\<exists>k. live_credential r (rc_receiver_service_id p) (rc_receiver_credential_id p) k \<and> issued k (ReceiptMessage p))"
proof -
  obtain credentials credential m sig where v: "p = re_payload x" "rc_receiver_service_id p \<notin> set (sr_revoked_services r)"
    "map_of (sr_keys r) (rc_receiver_service_id p) = Some credentials"
    "find (\<lambda>y. tc_credential_id y = rc_receiver_credential_id p) credentials = Some credential"
    "(rc_receiver_service_id p, rc_receiver_credential_id p) \<notin> set (sr_revoked_credentials r)"
    "canonical_receipt c p (re_schema x) (re_algorithm x) = Inr m" "verify_strict c (tc_key credential) m sig"
    using assms(3) unfolding verify_trust_receipt_eq by blast
  have f: "credential \<in> set credentials" "tc_credential_id credential = rc_receiver_credential_id p"
    using v(4) by (auto simp: find_Some_iff in_set_conv_nth)
  have "issued (tc_key credential) (ReceiptMessage p)"
    by (rule issued_message[OF assms(1) v(7)]) (use v(1,6) assms(2) in \<open>auto simp: message_bytes_def message_fits_def\<close>)
  then show ?thesis using v f by (auto simp: live_credential_def credentials_of_def)
qed

section \<open>The endpoints\<close>

lemma authenticate_mode: "sz_mode (fst (service_authenticate c x origin z)) = sz_mode z"
proof -
  obtain z' r where r: "service_authenticate c x origin z = (z', r)" by fastforce
  show ?thesis
  proof (cases "\<exists>v. r = Inr (Some v)")
    case True
    then obtain v a where "r = Inr (Some v)" "x = Some a" using r authenticate_none[of c origin z z'] by (cases x) auto
    then show ?thesis using r by (auto elim: authenticate_accepts simp: core_fields)
  next
    case False
    then show ?thesis using authenticate_rejects_core[OF r] r by (auto simp: core_fields) (simp add: core_def)
  qed
qed

lemma authenticate_some:
  assumes "service_authenticate c x origin z = (z', Inr r)" "sz_mode z = Some m"
  obtains a v where "x = Some a" "r = Some v"
  using assms
  by (cases x) (auto simp: service_authenticate_def authenticate_required_def admit_nonce_def observe_wall_clock_def Let_def
      split: option.splits sum.splits if_splits service_error.splits)

lemma preflight_core:
  assumes "preflight_signed_policy_validity now z = (z', r)" "sz_mode z = Some m"
  shows "core z' = (Some m, sz_replay z, max (sz_max_observed_ms z) now)"
  using core_clock(2)[of now z] assms by simp

lemma request_keeps:
  "ap_node (fst (authenticate_service_request c clock h meth path body app)) = ap_node app"
  "sz_mode (ap_services (fst (authenticate_service_request c clock h meth path body app))) = sz_mode (ap_services app)"
proof -
  have p: "preflight_signed_policy_validity t z = (z', r) \<Longrightarrow> sz_mode z' = sz_mode z" for t r and z z' :: "'b service_authorizer"
    using core_clock(2)[of t z] by (auto simp: core_def split: if_splits)
  have q: "service_authenticate c x origin z = (z', r) \<Longrightarrow> sz_mode z' = sz_mode z" for x origin z z' r
    using authenticate_mode[of c x origin z] by simp
  have h: "sz_mode (record_header_rejection z) = sz_mode z" for z :: "'b service_authorizer"
    using core_updates(6)[of z] by (simp add: core_def)
  show "ap_node (fst (authenticate_service_request c clock h meth path body app)) = ap_node app"
    by (auto simp: authenticate_service_request_def Let_def split: option.splits sum.splits prod.splits)
  show "sz_mode (ap_services (fst (authenticate_service_request c clock h meth path body app))) = sz_mode (ap_services app)"
    by (auto simp: authenticate_service_request_def Let_def h split: option.splits sum.splits prod.splits dest!: p q)
qed

lemma authenticated_request:
  assumes "authenticate_service_request c (Some now) h meth path body app = (app', Inr r)" "sz_mode (ap_services app) = Some m"
  obtains a v z where "authentication_from_headers h = Inr (Some a)" "r = Some v" "core z = (Some m, sz_replay (ap_services app), max (sz_max_observed_ms (ap_services app)) now)"
    "service_authenticate c (Some a) \<lparr>ro_method = meth, ro_path = path, ro_cluster_id = cluster_id (config (ap_node app)),
       ro_audience_id = node_id (config (ap_node app)), ro_body = body, ro_now_ms = now\<rparr> z = (ap_services app', Inr (Some v))"
proof -
  obtain z f where z: "preflight_signed_policy_validity now (ap_services app) = (z, f)" by fastforce
  note k = preflight_core[OF z assms(2)]
  obtain x z' where x: "authentication_from_headers h = Inr x" "service_authenticate c x \<lparr>ro_method = meth, ro_path = path, ro_cluster_id = cluster_id (config (ap_node app)),
       ro_audience_id = node_id (config (ap_node app)), ro_body = body, ro_now_ms = now\<rparr> z = (z', Inr r)" "app' = app\<lparr>ap_services := z'\<rparr>"
    using assms(1) z by (auto simp: authenticate_service_request_def Let_def split: sum.splits prod.splits)
  have mode: "sz_mode z = Some m" using k by (simp add: core_fields)
  obtain a v where "x = Some a" "r = Some v" by (rule authenticate_some[OF x(2) mode])
  then show thesis using that[of a v z] x k by simp
qed

text \<open>What entitles a service to an exchange between nodes: a fresh request that it issued with a credential the
  policy trusts, made for this node, this operation and this body, and not seen before.\<close>

definition entitled_peer ::
  "('k \<Rightarrow> signed_message \<Rightarrow> bool) \<Rightarrow> 'k required_mode \<Rightarrow> nat \<Rightarrow> string \<Rightarrow> string \<Rightarrow> string \<Rightarrow> ('s, 'k) control_app \<Rightarrow> bool" where
  "entitled_peer issued m now path body service app \<longleftrightarrow> is_peer_id (ap_node app) service \<and>
     (\<exists>p credential k. live_credential (rm_keys m) service credential k \<and> issued k (ServiceMessage service p) \<and>
        sp_method p = ''POST'' \<and> sp_path p = path \<and> sp_cluster_id p = cluster_id (config (ap_node app)) \<and>
        sp_audience_id p = node_id (config (ap_node app)) \<and> sp_body p = body \<and>
        sp_issued_at_ms p \<le> now + rm_max_future_skew_ms m \<and> now \<le> sp_issued_at_ms p + rm_max_age_ms m \<and>
        map_of (retain_fresh now (sz_replay (ap_services app))) (service, sp_nonce p) = None)"

definition entitled_writer :: "('k \<Rightarrow> signed_message \<Rightarrow> bool) \<Rightarrow> 'k write_policy \<Rightarrow> nat \<Rightarrow> authorized_write \<Rightarrow> raft_node \<Rightarrow> bool" where
  "entitled_writer issued w now r n \<longleftrightarrow>
     (let writer = wa_writer_id (aw_authorization r); time = wa_issued_at_ms (aw_authorization r)
      in writer \<notin> set (kr_revoked (wl_keys w)) \<and>
         (\<exists>k. map_of (kr_keys (wl_keys w)) writer = Some k \<and> issued k (WriteMessage writer (write_payload_of (cluster_id (config n)) r))) \<and>
         time \<le> now + wl_max_future_skew_ms w \<and> now \<le> time + wl_max_age_ms w \<and> aw_expected_revision r = current_revision n)"

lemma header_issue_time:
  "authentication_from_headers h = Inr (Some a) \<Longrightarrow> sv_issued_at_ms a \<le> u64_max"
  by (auto simp: authentication_from_headers_def Let_def parse_u64_def bind_eq_Some_conv split: if_splits option.splits list.splits)

lemma sat_add_le: "sat_add64 a b \<le> a + b"
  by (simp add: sat_add64_def)

lemma entitled_request:
  assumes auth: "authenticate_service_request c (Some now) h ''POST'' path body app = (app', Inr r)" and mode: "sz_mode (ap_services app) = Some m"
    and uf: "unforgeable c issued" and peer: "authorize_peer_identity (map_option vd_service_id r) service app' = (app'', Inr ())"
  shows "entitled_peer issued m now path body service app"
proof -
  obtain a v z where a: "authentication_from_headers h = Inr (Some a)" "r = Some v"
    "core z = (Some m, sz_replay (ap_services app), max (sz_max_observed_ms (ap_services app)) now)"
    "service_authenticate c (Some a) \<lparr>ro_method = ''POST'', ro_path = path, ro_cluster_id = cluster_id (config (ap_node app)),
       ro_audience_id = node_id (config (ap_node app)), ro_body = body, ro_now_ms = now\<rparr> z = (ap_services app', Inr (Some v))"
    by (rule authenticated_request[OF auth mode])
  let ?p = "\<lparr>sp_method = ''POST'', sp_path = path, sp_cluster_id = cluster_id (config (ap_node app)), sp_audience_id = node_id (config (ap_node app)),
    sp_issued_at_ms = sv_issued_at_ms a, sp_nonce = sv_nonce a, sp_body = body\<rparr>"
  note z = a(3)[unfolded core_fields]
  have ok: "now - sv_issued_at_ms a \<le> rm_max_age_ms m" "sv_issued_at_ms a \<le> sat_add64 now (rm_max_future_skew_ms m)" "verify_service c (rm_keys m) ?p a = Inr v"
    "map_of (retain_fresh now (sz_replay (ap_services app))) (sv_service_id a, sv_nonce a) = None"
    using z by (auto intro: authenticate_accepts[OF a(4)])
  have f: "service_fits ?p" using header_issue_time[OF a(1)] by (simp add: service_fits_def)
  obtain k where k: "vd_service_id v = sv_service_id a" "live_credential (rm_keys m) (sv_service_id a) (vd_credential_id v) k" "issued k (ServiceMessage (sv_service_id a) ?p)"
    using service_issued[OF uf f ok(3)] by blast
  have s: "service = sv_service_id a" "is_peer_id (ap_node app) service"
    using peer a(2) k(1) mode request_keeps[of c "Some now" h "''POST''" path body app] auth
    by (auto simp: authorize_peer_identity_def required_mode_on_def split: if_splits)
  show ?thesis unfolding entitled_peer_def s(1)[symmetric]
    using s k ok sat_add_le[of now "rm_max_future_skew_ms m"]
    by (intro conjI exI[of _ ?p] exI[of _ "vd_credential_id v"] exI[of _ k]) auto
qed

lemma and_app_node:
  assumes "ap_node (fst (and_app m f)) \<noteq> n" "ap_node (fst m) = n"
  obtains app x where "m = (app, Inr x)" "ap_node (fst (f app x)) \<noteq> n"
  using assms by (cases m; cases "snd m") (auto simp: and_app_def)

lemma peer_identity_node: "ap_node (fst (authorize_peer_identity s p app)) = ap_node app"
  by (simp add: authorize_peer_identity_def)

lemma vote_entitled:
  assumes changed: "ap_node (fst (request_vote_endpoint c env (Some now) h json q app)) \<noteq> ap_node app"
    and mode: "sz_mode (ap_services app) = Some m" and uf: "unforgeable c issued"
  shows "\<exists>body. json q = Some body \<and> entitled_peer issued m now ''/raft/request-vote'' body (rv_candidate_id q) app"
proof -
  obtain body where b: "json q = Some body" using changed by (auto simp: request_vote_endpoint_def split: option.splits)
  note ch = changed[unfolded request_vote_endpoint_def b option.case]
  obtain app1 r where 1: "authenticate_service_request c (Some now) h ''POST'' ''/raft/request-vote'' body app = (app1, Inr r)"
    "ap_node (fst (and_app (authorize_peer_identity (map_option vd_service_id r) (rv_candidate_id q) app1) (\<lambda>app _.
            let (n, r) = handle_request_vote env q (ap_node app) in (app\<lparr>ap_node := n\<rparr>, r)))) \<noteq> ap_node app"
    by (rule and_app_node[OF ch]) (simp_all add: request_keeps)
  have n: "ap_node app1 = ap_node app" using request_keeps(1)[of c "Some now" h "''POST''" "''/raft/request-vote''" body app] 1(1) by simp
  obtain app2 where 2: "authorize_peer_identity (map_option vd_service_id r) (rv_candidate_id q) app1 = (app2, Inr ())"
    by (rule and_app_node[OF 1(2)]) (simp_all add: peer_identity_node n)
  show ?thesis using entitled_request[OF 1(1) mode uf 2] b by blast
qed

lemma append_entitled:
  assumes changed: "ap_node (fst (append_entries_endpoint c env (Some now) h json q app)) \<noteq> ap_node app"
    and mode: "sz_mode (ap_services app) = Some m" and uf: "unforgeable c issued"
  shows "\<exists>body. json q = Some body \<and> entitled_peer issued m now ''/raft/append-entries'' body (ae_leader_id q) app"
proof -
  obtain body where b: "json q = Some body" using changed by (auto simp: append_entries_endpoint_def split: option.splits)
  note ch = changed[unfolded append_entries_endpoint_def b option.case]
  obtain app1 r where 1: "authenticate_service_request c (Some now) h ''POST'' ''/raft/append-entries'' body app = (app1, Inr r)"
    "ap_node (fst (and_app (authorize_peer_identity (map_option vd_service_id r) (ae_leader_id q) app1) (\<lambda>app _.
            let (n, r) = handle_append_entries env q (ap_node app) in (app\<lparr>ap_node := n\<rparr>, r)))) \<noteq> ap_node app"
    by (rule and_app_node[OF ch]) (simp_all add: request_keeps)
  have n: "ap_node app1 = ap_node app" using request_keeps(1)[of c "Some now" h "''POST''" "''/raft/append-entries''" body app] 1(1) by simp
  obtain app2 where 2: "authorize_peer_identity (map_option vd_service_id r) (ae_leader_id q) app1 = (app2, Inr ())"
    by (rule and_app_node[OF 1(2)]) (simp_all add: peer_identity_node n)
  show ?thesis using entitled_request[OF 1(1) mode uf 2] b by blast
qed

lemma write_fence:
  assumes "fst (write_begin env cf (Some r) w n) \<noteq> n"
  shows "r = current_revision n"
  using assms by (auto simp: write_begin_def require_storage_def bind_step_def split: sum.splits if_splits option.splits)

lemma authorize_write_accepts:
  assumes "authorize_write c q cluster now z = (z', Inr p)" "wz_mode z = Some w"
  obtains r where "q = AuthorizedRequest r" "ring_verify_write c (wl_keys w) (write_payload_of cluster r) (aw_authorization r) = Inr ()"
    "wa_issued_at_ms (aw_authorization r) \<le> sat_add64 now (wl_max_future_skew_ms w)" "now - wa_issued_at_ms (aw_authorization r) \<le> wl_max_age_ms w"
    "apr_expected_revision p = Some (aw_expected_revision r)"
  using assms by (cases q) (auto simp: authorize_write_def Let_def split: sum.splits if_splits)

lemma write_entitled:
  assumes changed: "ap_node (fst (set_configuration_begin c env (Some now) q app)) \<noteq> ap_node app"
    and mode: "wz_mode (ap_writers app) = Some w" and uf: "unforgeable c issued"
    and fits: "\<And>r. q = AuthorizedRequest r \<Longrightarrow> write_fits (write_payload_of (cluster_id (config (ap_node app))) r)"
  shows "\<exists>r. q = AuthorizedRequest r \<and> entitled_writer issued w now r (ap_node app)"
proof -
  obtain z p where z: "authorize_write c q (cluster_id (config (ap_node app))) now (ap_writers app) = (z, Inr p)"
    using changed by (cases "authorize_write c q (cluster_id (config (ap_node app))) now (ap_writers app)")
      (auto simp: set_configuration_begin_def Let_def split: sum.splits)
  obtain r where r: "q = AuthorizedRequest r" "ring_verify_write c (wl_keys w) (write_payload_of (cluster_id (config (ap_node app))) r) (aw_authorization r) = Inr ()"
    "wa_issued_at_ms (aw_authorization r) \<le> sat_add64 now (wl_max_future_skew_ms w)" "now - wa_issued_at_ms (aw_authorization r) \<le> wl_max_age_ms w"
    "apr_expected_revision p = Some (aw_expected_revision r)"
    by (rule authorize_write_accepts[OF z mode])
  have "fst (write_begin env (apr_configuration p) (Some (aw_expected_revision r)) (apr_writer p) (ap_node app)) \<noteq> ap_node app"
    using changed z r(5) by (auto simp: set_configuration_begin_def Let_def split: sum.splits prod.splits raft_error.splits)
  from write_fence[OF this] have "aw_expected_revision r = current_revision (ap_node app)" .
  then show ?thesis using r write_issued[OF uf fits[OF r(1)] r(2)] sat_add_le[of now "wl_max_future_skew_ms w"]
    by (auto simp: entitled_writer_def Let_def)
qed

section \<open>A peer, a gateway and their credentials\<close>

definition demo_service_request :: service_payload where
  "demo_service_request = \<lparr>sp_method = ''POST'', sp_path = ''/raft/request-vote'', sp_cluster_id = ''demo'', sp_audience_id = ''a'', sp_issued_at_ms = 5,
     sp_nonce = ''0123456789abcdef'', sp_body = ''{}''\<rparr>"

definition demo_signed :: "(unit, unit) crypto" where
  "demo_signed = demo_crypto\<lparr>verify_strict := (\<lambda>_ m _. canonical_service_payload demo_service_request ''b'' = Inr m)\<rparr>"

definition demo_service_ring :: "unit service_ring" where
  "demo_service_ring = \<lparr>sr_keys = [(''b'', [\<lparr>tc_credential_id = ''k1'', tc_bytes = [], tc_key = ()\<rparr>])], sr_services = [''b''],
     sr_credentials = [(''b'', ''k1'')], sr_revoked_services = [''z''], sr_revoked_credentials = []\<rparr>"

definition demo_origin :: "nat \<Rightarrow> request_origin" where
  "demo_origin now = \<lparr>ro_method = ''POST'', ro_path = ''/raft/request-vote'', ro_cluster_id = ''demo'', ro_audience_id = ''a'', ro_body = ''{}'', ro_now_ms = now\<rparr>"

definition demo_service_auth :: service_authentication where
  "demo_service_auth = \<lparr>sv_schema = SERVICE_AUTHENTICATION_SCHEMA, sv_algorithm = SIGNATURE_ALGORITHM, sv_service_id = ''b'', sv_audience_id = ''a'',
     sv_issued_at_ms = 5, sv_nonce = ''0123456789abcdef'', sv_signature = replicate 64 CHR ''s''\<rparr>"

definition demo_policy_version :: "nat \<Rightarrow> nat \<Rightarrow> policy_payload" where
  "demo_policy_version g e = \<lparr>pp_schema = policy_schema PolicyV2, pp_cluster_id = ''demo'', pp_generation = g, pp_issued_at_ms = 1, pp_expires_at_ms = Some e,
     pp_trusted_credentials = [], pp_revoked_service_ids = [], pp_revoked_credentials = [], pp_gateway_service_ids = []\<rparr>"

definition demo_trust :: "nat \<Rightarrow> nat \<Rightarrow> unit verified_trust" where
  "demo_trust g e = \<lparr>vt_policy = demo_policy_version g e, vt_signing_key_id = ''root'', vt_signature = [],
     vt_compiled = \<lparr>co_keys = demo_service_ring, co_gateway_service_ids = [''b'']\<rparr>\<rparr>"

definition demo_mode :: "nat \<Rightarrow> unit required_mode" where
  "demo_mode e = signed_mode (demo_trust 1 e) [] [] \<lparr>rv_version = PolicyV2, rv_expires_at_ms = Some e\<rparr>
     \<lparr>vf_allow_v1 = False, vf_max_future_skew_ms = 9, vf_max_lifetime_ms = 100\<rparr> 50 3 1"

lemma demo_ids_ok [simp]:
  "validate_key_id ''a'' = Inr ()" "validate_key_id ''b'' = Inr ()" "validate_key_id ''demo'' = Inr ()"
  "validate_service_nonce ''0123456789abcdef'' = Inr ()"
  by (simp_all add: validate_key_id_def validate_service_nonce_def MAX_KEY_ID_BYTES_def MIN_NONCE_BYTES_def MAX_SERVICE_NONCE_BYTES_def
      identifier_char_def is_ascii_alphanumeric_def)

lemma demo_canonical_request: "\<exists>m. canonical_service_payload demo_service_request ''b'' = Inr m"
  by (simp add: canonical_service_eq demo_service_request_def short_def u32_max_def SERVICE_AUTHENTICATION_SCHEMA_def SIGNATURE_ALGORITHM_def)

lemma demo_service_verified:
  "verify_service demo_signed demo_service_ring demo_service_request demo_service_auth = Inr \<lparr>vd_service_id = ''b'', vd_credential_id = ''k1''\<rparr>"
proof -
  obtain m where m: "canonical_service_payload demo_service_request ''b'' = Inr m" using demo_canonical_request by blast
  have "validate_service_authentication demo_service_auth = Inr ()"
    by (simp add: validate_service_authentication_def demo_service_auth_def validate_id_def invalid_def)
  then show ?thesis unfolding verify_service_eq using m
    by (simp add: demo_service_auth_def demo_service_ring_def demo_signed_def demo_crypto_def decode_exact_def) (simp add: demo_service_request_def)
qed

lemma demo_unforgeable: "unforgeable demo_signed (\<lambda>_ x. x = ServiceMessage ''b'' demo_service_request)"
  by (auto simp: unforgeable_def demo_signed_def message_bytes_def message_fits_def service_fits_def demo_service_request_def u64_max_def)

section \<open>Properties\<close>

text \<open>C34.  Nothing but an authorised request changes the Raft state of a control node that requires credentials of services and
  writers.  A vote request or an append of entries takes effect only if the peer it speaks for issued it, under a
  trusted and unrevoked credential of that peer, for this node, cluster, operation and body, recently and with a
  nonce not seen before; a write only if an unrevoked writer issued it recently against the revision that is committed.\<close>

theorem only_authorised_requests_change_a_node:
  assumes "unforgeable c issued" "sz_mode (ap_services app) = Some m" "wz_mode (ap_writers app) = Some w"
    and "\<And>r. q = StartWrite (AuthorizedRequest r) \<Longrightarrow> write_fits (write_payload_of (cluster_id (config (ap_node app))) r)"
    and "ap_node (control_exec c json env (Some now) q app) \<noteq> ap_node app"
  shows "(\<exists>h r body. q = VoteRpc h r \<and> cj_vote json r = Some body \<and> entitled_peer issued m now ''/raft/request-vote'' body (rv_candidate_id r) app) \<or>
    (\<exists>h r body. q = AppendRpc h r \<and> cj_append json r = Some body \<and> entitled_peer issued m now ''/raft/append-entries'' body (ae_leader_id r) app) \<or>
    (\<exists>r. q = StartWrite (AuthorizedRequest r) \<and> entitled_writer issued w now r (ap_node app))"
proof (cases q)
  case (VoteRpc h r)
  then show ?thesis using assms vote_entitled[OF _ assms(2,1)] by (auto simp: control_exec_def)
next
  case (AppendRpc h r)
  then show ?thesis using assms append_entitled[OF _ assms(2,1)] by (auto simp: control_exec_def)
next
  case (ReadConfiguration h)
  have "ap_node (fst (get_configuration c (Some now) h app)) = ap_node app"
    using request_keeps(1)[of c "Some now" h "''GET''" "''/v1/control/config''" "[]" app]
    by (auto simp: get_configuration_def and_app_def Let_def split: prod.splits sum.splits)
  then show ?thesis using assms ReadConfiguration by (simp add: control_exec_def)
next
  case (StartWrite r)
  then show ?thesis using assms write_entitled[OF _ assms(3,1), of env now r] by (auto simp: control_exec_def)
next
  case (EndWrite writer outcome)
  then show ?thesis using assms by (auto simp: control_exec_def set_configuration_end_def split: sum.splits raft_error.splits)
qed (use assms in \<open>simp add: control_exec_def\<close>)

definition demo_header_values :: "string list" where
  "demo_header_values = (let a = demo_service_auth in [sv_schema a, sv_algorithm a, sv_service_id a, sv_audience_id a, ''5'', sv_nonce a, sv_signature a])"

definition demo_headers :: header_map where
  "demo_headers = map_of (zip header_names (map Some demo_header_values))"

definition demo_app :: "(unit, unit) control_app" where
  "demo_app = \<lparr>ap_node = down_node (demo_config ''a''), ap_signer = None,
     ap_writers = new_write_authorizer (Some \<lparr>wl_keys = empty_ring, wl_max_age_ms = 1, wl_max_future_skew_ms = 1\<rparr>),
     ap_services = new_authorizer (Some (demo_mode 100))\<rparr>"

definition demo_candidate :: request_vote_request where
  "demo_candidate = \<lparr>rv_cluster_id = ''demo'', rv_term = 1, rv_candidate_id = ''b'', rv_last_log_index = 0, rv_last_log_term = 0\<rparr>"

lemma demo_headers_parse: "authentication_from_headers demo_headers = Inr (Some demo_service_auth)"
proof -
  have "parse_u64 ''5'' = Some 5" by (simp add: parse_u64_def is_ascii_digit_def dec_value_def digit_value_def u64_max_def)
  moreover have l: "length header_names = 7" "length demo_header_values = 7" by (simp_all add: header_names_def demo_header_values_def Let_def)
  moreover have "header_text demo_headers i = Some (demo_header_values ! i)" if "i < 7" for i
    using that l map_of_zip_nth[of header_names "map Some demo_header_values" i] by (simp add: header_text_def demo_headers_def header_names_def)
  moreover have "filter (\<lambda>n. demo_headers n \<noteq> None) header_names = header_names"
    using l by (simp add: filter_id_conv demo_headers_def map_of_eq_None_iff flip: set_map)
  ultimately show ?thesis
    by (simp add: authentication_from_headers_def demo_header_values_def Let_def demo_service_auth_def)
qed

lemma demo_accepted:
  assumes "sz_mode z = Some m" "rm_keys m = demo_service_ring" "rm_max_age_ms m = 50" "rm_max_future_skew_ms m = 3"
    "\<not> trust_policy_is_expired (rm_trust_policy m) (max (sz_max_observed_ms z) now)" "sz_replay z = []" "5 \<le> now" "now \<le> 55"
  shows "\<exists>z'. service_authenticate demo_signed (Some demo_service_auth) (demo_origin now) z = (z', Inr (Some \<lparr>vd_service_id = ''b'', vd_credential_id = ''k1''\<rparr>))"
proof -
  have "\<lparr>sp_method = ''POST'', sp_path = ''/raft/request-vote'', sp_cluster_id = ''demo'', sp_audience_id = ''a'', sp_issued_at_ms = sv_issued_at_ms demo_service_auth,
      sp_nonce = sv_nonce demo_service_auth, sp_body = ''{}''\<rparr> = demo_service_request" "sv_issued_at_ms demo_service_auth = 5"
    by (simp_all add: demo_service_request_def demo_service_auth_def)
  then show ?thesis using assms demo_service_verified
    by (simp add: service_authenticate_def observe_wall_clock_def authenticate_required_def demo_origin_def admit_nonce_def retain_fresh_def MAX_REPLAY_ENTRIES_def
        sat_add64_def u64_max_def Let_def)
qed

lemma demo_mode_fields:
  "rm_keys (demo_mode e) = demo_service_ring" "rm_max_age_ms (demo_mode e) = 50" "rm_max_future_skew_ms (demo_mode e) = 3"
  "trust_policy_is_expired (rm_trust_policy (demo_mode e)) t \<longleftrightarrow> e \<le> t"
  by (simp_all add: demo_mode_def signed_mode_def demo_trust_def trust_policy_is_expired_def)

lemma demo_vote_changes:
  "ap_node (control_exec demo_signed \<lparr>cj_vote = (\<lambda>_. Some ''{}''), cj_append = (\<lambda>_. None)\<rparr> demo_env (Some 7) (VoteRpc demo_headers demo_candidate) demo_app) \<noteq> ap_node demo_app"
proof -
  let ?z = "ap_services demo_app" and ?c = "\<lparr>vd_service_id = ''b'', vd_credential_id = ''k1''\<rparr>"
  have n: "cluster_id (config (ap_node demo_app)) = ''demo''" "node_id (config (ap_node demo_app)) = ''a''" by (simp_all add: demo_app_def down_node_def)
  have z: "sz_mode ?z = Some (demo_mode 100)" "sz_replay ?z = []" "sz_max_observed_ms ?z = 1"
    by (simp_all add: demo_app_def new_authorizer_def demo_mode_def signed_mode_def)
  obtain z1 where p: "preflight_signed_policy_validity 7 ?z = (z1, Inr 7)" "core z1 = (Some (demo_mode 100), [], 7)"
    using z by (auto simp: preflight_signed_policy_validity_def observe_wall_clock_def trust_policy_is_expired_def demo_mode_def signed_mode_def demo_trust_def core_def Let_def max_def)
  obtain z2 where a: "service_authenticate demo_signed (Some demo_service_auth) (demo_origin 7) z1 = (z2, Inr (Some ?c))"
    using demo_accepted[of z1 "demo_mode 100" 7] p(2) by (auto simp: core_fields demo_mode_fields)
  have m: "required_mode_on z2" using authenticate_mode[of demo_signed "Some demo_service_auth" "demo_origin 7" z1] a p(2) by (auto simp: core_fields required_mode_on_def)
  have 1: "authenticate_service_request demo_signed (Some 7) demo_headers ''POST'' ''/raft/request-vote'' ''{}'' demo_app = (demo_app\<lparr>ap_services := z2\<rparr>, Inr (Some ?c))"
    using p a n by (simp add: authenticate_service_request_def demo_headers_parse demo_origin_def)
  have "is_peer_id (ap_node demo_app) ''b''" by (simp add: is_peer_id_def demo_app_def down_node_def)
  then obtain app where 2: "authorize_peer_identity (Some ''b'') ''b'' (demo_app\<lparr>ap_services := z2\<rparr>) = (app, Inr ())" "ap_node app = ap_node demo_app"
    using m by (simp add: authorize_peer_identity_def)
  have "current_term (pstate (fst (handle_request_vote demo_env demo_candidate (down_node (demo_config ''a''))))) = 1"
    by (simp add: run_defs demo_candidate_def)
  moreover have "current_term (pstate (down_node (demo_config ''a''))) = 0" by (simp add: down_node_def initial_volatile_def default_persistent_state_def)
  ultimately have "fst (handle_request_vote demo_env demo_candidate (ap_node demo_app)) \<noteq> ap_node demo_app" by (auto simp: demo_app_def)
  then show ?thesis using 1 2 by (auto simp: control_exec_def request_vote_endpoint_def and_app_def demo_candidate_def Let_def split: prod.split)
qed

theorem only_authorised_requests_change_a_node_witness:
  "entitled_peer (\<lambda>_ x. x = ServiceMessage ''b'' demo_service_request) (demo_mode 100) 7 ''/raft/request-vote'' ''{}'' ''b'' demo_app"
proof -
  have m: "sz_mode (ap_services demo_app) = Some (demo_mode 100)" "wz_mode (ap_writers demo_app) = Some \<lparr>wl_keys = empty_ring, wl_max_age_ms = 1, wl_max_future_skew_ms = 1\<rparr>"
    by (simp_all add: demo_app_def new_authorizer_def new_write_authorizer_def)
  show ?thesis using only_authorised_requests_change_a_node[OF demo_unforgeable m _ demo_vote_changes] by (simp add: demo_candidate_def)
qed

text \<open>C35.  No signed request is accepted twice.  Whatever a control node does between (other requests, reloads of its policy, readings
  of its status), it accepts a service, nonce and issue time once, if no clock reading falls behind an earlier one by
  more than the skew it tolerates.\<close>

theorem no_request_is_replayed:
  assumes "steady_clock c es (new_authorizer (Some m))"
  shows "distinct (snd (service_run c es (new_authorizer (Some m))))"
proof -
  have "remembers (new_authorizer (Some m)) {}" by (simp add: remembers_def)
  then show ?thesis using run_remembers[OF _ _ assms] by (metis prod.collapse)
qed

lemma demo_first:
  obtains z where "service_exec demo_signed (Authenticate (Some demo_service_auth) (demo_origin 7)) (new_authorizer (Some (demo_mode 100))) = (z, [(''b'', ''0123456789abcdef'', 5)])"
    "sz_max_observed_ms z = 7" "map_of (sz_replay z) (''b'', ''0123456789abcdef'') = Some 58"
proof -
  let ?z = "new_authorizer (Some (demo_mode 100))"
  have z: "sz_mode ?z = Some (demo_mode 100)" "sz_replay ?z = []" "sz_max_observed_ms ?z = 1"
    by (simp_all add: new_authorizer_def demo_mode_def signed_mode_def)
  obtain z1 where a: "service_authenticate demo_signed (Some demo_service_auth) (demo_origin 7) ?z = (z1, Inr (Some \<lparr>vd_service_id = ''b'', vd_credential_id = ''k1''\<rparr>))"
    using demo_accepted[of ?z "demo_mode 100" 7] z by (auto simp: demo_mode_fields)
  obtain m where m: "sz_mode ?z = Some m" "core z1 = (sz_mode ?z, ((sv_service_id demo_service_auth, sv_nonce demo_service_auth),
      sat_add64 (sat_add64 (sv_issued_at_ms demo_service_auth) (rm_max_age_ms m)) (rm_max_future_skew_ms m)) # retain_fresh (ro_now_ms (demo_origin 7)) (sz_replay ?z),
      max (sz_max_observed_ms ?z) (ro_now_ms (demo_origin 7)))"
    by (rule authenticate_accepts[OF a])
  have r: "sz_max_observed_ms z1 = 7" "map_of (sz_replay z1) (''b'', ''0123456789abcdef'') = Some 58"
    using m z by (auto simp: core_fields demo_service_auth_def demo_origin_def demo_mode_def signed_mode_def sat_add64_def u64_max_def)
  show thesis by (rule that[of z1]) (use a r in \<open>simp_all add: service_exec_def\<close>, simp add: demo_service_auth_def)
qed

theorem no_request_is_replayed_witness:
  "distinct (snd (service_run demo_signed [Authenticate (Some demo_service_auth) (demo_origin 7), Authenticate (Some demo_service_auth) (demo_origin 4)] (new_authorizer (Some (demo_mode 100))))) \<and>
   snd (service_run demo_signed [Authenticate (Some demo_service_auth) (demo_origin 7), Authenticate (Some demo_service_auth) (demo_origin 4)] (new_authorizer (Some (demo_mode 100)))) \<noteq> []"
proof -
  let ?z = "new_authorizer (Some (demo_mode 100))" and ?e = "Authenticate (Some demo_service_auth) (demo_origin 7)"
  obtain z where z: "service_exec demo_signed ?e ?z = (z, [(''b'', ''0123456789abcdef'', 5)])" "sz_max_observed_ms z = 7" by (rule demo_first)
  have s: "sz_max_observed_ms ?z = 1" "allowed_skew ?z = 3" by (simp_all add: new_authorizer_def demo_mode_def signed_mode_def allowed_skew_def)
  have k: "allowed_skew z = 3" using exec_keeps[OF z(1)] s(2) by simp
  have "steady_clock demo_signed [?e, Authenticate (Some demo_service_auth) (demo_origin 4)] ?z"
    using z k s by (simp add: demo_origin_def u64_max_def)
  from no_request_is_replayed[OF this] show ?thesis using z(1) by (simp add: Let_def split: prod.splits)
qed

text \<open>C36.  A policy that was seen expired is not used again: nothing is accepted after that before a snapshot of a higher
  generation is installed, whatever the clock does, and the generation never decreases.\<close>

theorem expired_policy_needs_a_newer_one:
  assumes "service_run c es z = (z', accepted)"
  shows "generation_of z \<le> generation_of z' \<and> (seen_expired z \<and> accepted \<noteq> [] \<longrightarrow> generation_of z < generation_of z')"
  using run_generation[OF assms] run_expired[OF assms] by blast

definition demo_expired :: "unit service_authorizer" where
  "demo_expired = (new_authorizer (Some (demo_mode 30)))\<lparr>sz_max_observed_ms := 40\<rparr>"

lemma demo_reload:
  "apply_signed_snapshot (demo_trust 2 90) 41 demo_expired =
    (demo_expired\<lparr>sz_mode := Some (signed_mode (demo_trust 2 90) [] [] \<lparr>rv_version = PolicyV2, rv_expires_at_ms = Some 90\<rparr>
       \<lparr>vf_allow_v1 = False, vf_max_future_skew_ms = 9, vf_max_lifetime_ms = 100\<rparr> 50 3 41), sz_max_observed_ms := 41, sz_reloads := 1, sz_policy_failing := False\<rparr>, Inr (Some 41))"
proof -
  have "validate_policy_shape (demo_policy_version 2 90) = Inr ()"
    by (simp add: validate_policy_shape_def version_of_schema_def policy_schema_def demo_policy_version_def trust_id_def MAX_POLICY_CREDENTIALS_def MAX_POLICY_SERVICE_IDS_def)
  then have "validate_receiver_validity (demo_policy_version 2 90) 41 \<lparr>vf_allow_v1 = False, vf_max_future_skew_ms = 9, vf_max_lifetime_ms = 100\<rparr> =
      Inr \<lparr>rv_version = PolicyV2, rv_expires_at_ms = Some 90\<rparr>"
    by (simp add: validate_receiver_validity_def) (simp add: demo_policy_version_def version_of_schema_def policy_schema_def sat_add64_def u64_max_def)
  then show ?thesis
    by (simp add: apply_signed_snapshot_def observe_wall_clock_def demo_expired_def new_authorizer_def demo_mode_def signed_mode_def demo_trust_def Let_def
        validate_required_policy_def demo_service_ring_def demo_policy_version_def inc64_def wrap64_def max_def)
qed

theorem expired_policy_needs_a_newer_one_witness:
  "\<exists>z'. service_run demo_signed [Reload (demo_trust 2 90) 41, Authenticate (Some demo_service_auth) (demo_origin 45)] demo_expired = (z', [(''b'', ''0123456789abcdef'', 5)]) \<and>
     seen_expired demo_expired \<and> generation_of demo_expired < generation_of z'"
proof -
  let ?z = "fst (apply_signed_snapshot (demo_trust 2 90) 41 demo_expired)"
  have "\<exists>z'. service_authenticate demo_signed (Some demo_service_auth) (demo_origin 45) ?z = (z', Inr (Some \<lparr>vd_service_id = ''b'', vd_credential_id = ''k1''\<rparr>))"
    unfolding demo_reload fst_conv by (rule demo_accepted, simp)
      (simp_all add: signed_mode_def demo_trust_def trust_policy_is_expired_def demo_expired_def new_authorizer_def max_def)
  then obtain z' where "service_authenticate demo_signed (Some demo_service_auth) (demo_origin 45) ?z = (z', Inr (Some \<lparr>vd_service_id = ''b'', vd_credential_id = ''k1''\<rparr>))" ..
  then have r: "service_run demo_signed [Reload (demo_trust 2 90) 41, Authenticate (Some demo_service_auth) (demo_origin 45)] demo_expired = (z', [(''b'', ''0123456789abcdef'', 5)])"
    by (simp add: service_exec_def) (simp add: demo_service_auth_def)
  have "seen_expired demo_expired" by (simp add: seen_expired_def demo_expired_def new_authorizer_def demo_mode_fields)
  then show ?thesis using expired_policy_needs_a_newer_one[OF r] r by auto
qed


definition demo_full_policy :: policy_payload where
  "demo_full_policy = (demo_policy_version 1 9)\<lparr>pp_trusted_credentials := [\<lparr>pc_service_id = ''a'', pc_credential_id = ''k1'', pc_public_key_base64 = replicate 32 CHR ''x''\<rparr>],
     pp_revoked_credentials := [(''a'', ''k1'')], pp_gateway_service_ids := [''a'']\<rparr>"

lemma demo_compiles: "\<exists>r. compile_policy demo_crypto demo_full_policy = Inr r"
proof -
  let ?x = "\<lparr>pc_service_id = ''a'', pc_credential_id = ''k1'', pc_public_key_base64 = replicate 32 CHR ''x''\<rparr>"
  have k: "trust_id ''a''" "trust_id ''k1''"
    by (simp_all add: trust_id_def validate_key_id_def MAX_KEY_ID_BYTES_def identifier_char_def is_ascii_alphanumeric_def)
  have ok: "listed_ok ?x" using k by (simp add: listed_ok_def list_all_iff is_visible_non_whitespace_ascii_def is_ascii_graphic_def)
  note e = entry_parses[OF ok] and q = qualified_parses[OF k]
  have shape: "validate_policy_shape demo_full_policy = Inr ()"
    using k by (simp add: validate_policy_shape_def version_of_schema_def policy_schema_def demo_full_policy_def demo_policy_version_def trust_id_def MAX_POLICY_CREDENTIALS_def MAX_POLICY_SERVICE_IDS_def)
  have printed: "policy_key_text demo_full_policy = join_with '','' [entry_text ?x]"
    by (simp add: policy_key_text_def demo_full_policy_def entry_text_def demo_policy_version_def)
  have "split_on (CHR '','') (policy_key_text demo_full_policy) = [entry_text ?x]"
    unfolding printed by (rule split_join) (use e(3) in simp_all)
  moreover have "split_on (CHR '','') (join_with '','' [qualified_id ''a'' ''k1'']) = [qualified_id ''a'' ''k1'']" by (rule split_join) (use q(3) in simp_all)
  ultimately have "\<exists>ring. parse_with_revoked_credentials demo_crypto (policy_key_text demo_full_policy) (join_with '','' []) (join_with '','' [qualified_id ''a'' ''k1'']) = Inr ring \<and> sr_services ring = [''a'']"
    using e q by (simp add: parse_with_revoked_credentials_def Let_def decode_exact_def demo_crypto_def add_credential_def empty_service_ring_def credentials_of_def invalid_def
        MAX_CREDENTIALS_PER_SERVICE_def MAX_TRUSTED_CREDENTIALS_def)
  then show ?thesis using shape k by (auto simp: compile_policy_def demo_full_policy_def demo_policy_version_def trust_invalid_def)
qed


text \<open>C38.  Only what the holder of a key issued is accepted, for each of the five kinds of signed message: configurations, writes,
  requests between services, trust policies and receipts.  What passes a ring was issued field by field under the key that the ring
  gives for the identifier named in the message, which is not revoked; no kind of message can be taken for another.\<close>

theorem accepted_messages_were_issued:
  assumes "unforgeable c issued"
  shows "(payload_fits p \<and> ring_verify c r p a = Inr () \<longrightarrow>
      ca_key_id a \<notin> set (kr_revoked r) \<and> (\<exists>k. map_of (kr_keys r) (ca_key_id a) = Some k \<and> issued k (RoutingMessage (ca_key_id a) p))) \<and>
    (write_fits w \<and> ring_verify_write c r w wa = Inr () \<longrightarrow>
      wa_writer_id wa \<notin> set (kr_revoked r) \<and> (\<exists>k. map_of (kr_keys r) (wa_writer_id wa) = Some k \<and> issued k (WriteMessage (wa_writer_id wa) w))) \<and>
    (service_fits q \<and> verify_service c s q sa = Inr v \<longrightarrow>
      (\<exists>k. live_credential s (sv_service_id sa) (vd_credential_id v) k \<and> issued k (ServiceMessage (sv_service_id sa) q))) \<and>
    (policy_fits (tr_policy x) \<and> verify_trust c roots x = Inr t \<longrightarrow> vt_policy t = tr_policy x \<and> pa_key_id (tr_authentication x) \<notin> set (rr_revoked roots) \<and>
      (\<exists>k. map_of (rr_keys roots) (pa_key_id (tr_authentication x)) = Some k \<and> issued k (PolicyMessage (pa_key_id (tr_authentication x)) (tr_policy x)))) \<and>
    (receipt_fits (re_payload y) \<and> verify_trust_receipt c s y = Inr z \<longrightarrow> z = re_payload y \<and>
      (\<exists>k. live_credential s (rc_receiver_service_id z) (rc_receiver_credential_id z) k \<and> issued k (ReceiptMessage z)))"
  using routing_issued[OF assms, of p r a] write_issued[OF assms, of w r wa] service_issued[OF assms, of q s sa v] policy_issued[OF assms, of x roots t]
    receipt_issued[OF assms, of y s z] by blast

theorem accepted_messages_were_issued_witness:
  "verify_service demo_signed demo_service_ring demo_service_request demo_service_auth = Inr \<lparr>vd_service_id = ''b'', vd_credential_id = ''k1''\<rparr> \<and>
   (\<exists>k. live_credential demo_service_ring ''b'' ''k1'' k)"
proof -
  have "service_fits demo_service_request" by (simp add: service_fits_def demo_service_request_def u64_max_def)
  then show ?thesis using accepted_messages_were_issued[OF demo_unforgeable, where s = demo_service_ring and q = demo_service_request and sa = demo_service_auth and v = "\<lparr>vd_service_id = ''b'', vd_credential_id = ''k1''\<rparr>"] demo_service_verified
    by (auto simp: demo_service_auth_def)
qed

end
