(* ===== verification/Worker_Attention.thy ===== *)
theory Worker_Attention
  imports InferLab_Prelude "HOL-Library.Word"
begin

unbundle bit_operations_syntax

text \<open>
  The worker's CPU attention kernel (\<open>kernels/attention_cpu.cpp\<close>): the FP16 and BF16 storage
  roundings on bit patterns, the materialised and the online tiled kernels, and
  \<open>attention_forward\<close> with its checks.

  The \<open>float\<close> type is a type parameter, and its operations are the fields of a record the
  definitions take as an argument: every theorem about the kernels holds whatever the rounding of
  the machine's arithmetic is, because it only compares sequences of operations.  A flat vector
  of \<open>rows * columns\<close> values is the list of its rows.
\<close>

section \<open>Arithmetic\<close>

record 'f fops =
  f_zero :: 'f
  f_neg_inf :: 'f
  f_lit :: "int \<Rightarrow> nat \<Rightarrow> 'f"
  f_of_nat :: "nat \<Rightarrow> 'f"
  f_add :: "'f \<Rightarrow> 'f \<Rightarrow> 'f"
  f_sub :: "'f \<Rightarrow> 'f \<Rightarrow> 'f"
  f_mul :: "'f \<Rightarrow> 'f \<Rightarrow> 'f"
  f_div :: "'f \<Rightarrow> 'f \<Rightarrow> 'f"
  f_less :: "'f \<Rightarrow> 'f \<Rightarrow> bool"
  f_eq :: "'f \<Rightarrow> 'f \<Rightarrow> bool"
  f_abs :: "'f \<Rightarrow> 'f"
  f_exp :: "'f \<Rightarrow> 'f"
  f_log :: "'f \<Rightarrow> 'f"
  f_sqrt :: "'f \<Rightarrow> 'f"
  f_tanh :: "'f \<Rightarrow> 'f"
  f_isfinite :: "'f \<Rightarrow> bool"
  f_isinf :: "'f \<Rightarrow> bool"
  f_lround :: "'f \<Rightarrow> int"
  f_of_int :: "int \<Rightarrow> 'f"
  f_bits :: "'f \<Rightarrow> 32 word"
  f_from_bits :: "32 word \<Rightarrow> 'f"

text \<open>\<open>f_lit n k\<close> is the literal \<open>n / 10 ^ k\<close>; \<open>std::max(a, b)\<close> is \<open>a < b ? b : a\<close>.\<close>

definition f_max :: "'f fops \<Rightarrow> 'f \<Rightarrow> 'f \<Rightarrow> 'f" where
  "f_max ops a b = (if f_less ops a b then b else a)"

definition f_min :: "'f fops \<Rightarrow> 'f \<Rightarrow> 'f \<Rightarrow> 'f" where
  "f_min ops a b = (if f_less ops b a then b else a)"

section \<open>Loops that may throw\<close>

fun mapR :: "('a \<Rightarrow> ('e, 'b) result) \<Rightarrow> 'a list \<Rightarrow> ('e, 'b list) result" where
  "mapR f [] = Inr []"
| "mapR f (x # xs) = and_then (f x) (\<lambda>y. and_then (mapR f xs) (\<lambda>ys. Inr (y # ys)))"

fun foldR :: "('a \<Rightarrow> 's \<Rightarrow> ('e, 's) result) \<Rightarrow> 'a list \<Rightarrow> 's \<Rightarrow> ('e, 's) result" where
  "foldR f [] s = Inr s"
| "foldR f (x # xs) s = and_then (f x s) (foldR f xs)"

lemma mapR_Inr_iff:
  "mapR f xs = Inr ys \<longleftrightarrow> length ys = length xs \<and> (\<forall>i<length xs. f (xs ! i) = Inr (ys ! i))"
proof (induction xs arbitrary: ys)
  case (Cons x xs)
  show ?case
  proof
    assume "mapR f (x # xs) = Inr ys"
    then obtain y zs where "f x = Inr y" "mapR f xs = Inr zs" "ys = y # zs"
      by (auto simp: and_then_Inr_iff)
    then show "length ys = length (x # xs) \<and> (\<forall>i<length (x # xs). f ((x # xs) ! i) = Inr (ys ! i))"
      using Cons.IH[of zs] by (auto simp: less_Suc_eq_0_disj)
  next
    assume a: "length ys = length (x # xs) \<and> (\<forall>i<length (x # xs). f ((x # xs) ! i) = Inr (ys ! i))"
    then obtain y zs where ys: "ys = y # zs" by (cases ys) auto
    have "f x = Inr y" using a ys by (metis length_Cons nth_Cons_0 zero_less_Suc)
    moreover have "mapR f xs = Inr zs"
      using a ys Cons.IH[of zs] by auto
    ultimately show "mapR f (x # xs) = Inr ys" using ys by simp
  qed
qed auto

lemma mapR_length: "mapR f xs = Inr ys \<Longrightarrow> length ys = length xs"
  by (simp add: mapR_Inr_iff)

lemma mapR_nth: "mapR f xs = Inr ys \<Longrightarrow> i < length xs \<Longrightarrow> f (xs ! i) = Inr (ys ! i)"
  by (simp add: mapR_Inr_iff)

lemma mapR_take: "mapR f xs = Inr ys \<Longrightarrow> mapR f (take n xs) = Inr (take n ys)"
  by (auto simp: mapR_Inr_iff)

lemma mapR_append:
  "mapR f (xs @ zs) = and_then (mapR f xs) (\<lambda>ys. and_then (mapR f zs) (\<lambda>ws. Inr (ys @ ws)))"
  by (induction xs) (auto simp: and_then_def split: sum.splits)

lemma mapR_Inr_map: "mapR (\<lambda>x. Inr (g x)) xs = Inr (map g xs)"
  by (induction xs) simp_all

section \<open>FP16 and BF16 storage\<close>

text \<open>\<open>float_to_half_bits\<close> and \<open>half_bits_to_float\<close> on the bit pattern of the \<open>float\<close>; the
  \<open>int\<close> exponent arithmetic is in \<^typ>\<open>int\<close>.\<close>

definition float_to_half_bits :: "32 word \<Rightarrow> 16 word" where
  "float_to_half_bits bits =
     (let sign = drop_bit 16 bits AND 0x8000;
          exponent = drop_bit 23 bits AND 0xFF;
          mantissa = bits AND 0x7FFFFF
      in if exponent = 0xFF
         then ucast (sign OR 0x7C00 OR (if mantissa = 0 then 0 else 0x0200))
         else
           let half_exponent = uint exponent - 127 + 15 in
           if 31 \<le> half_exponent then ucast (sign OR 0x7C00)
           else if half_exponent \<le> 0 then
             (if half_exponent < -10 then ucast sign
              else
                let mantissa = mantissa OR 0x800000;
                    shift = nat (14 - half_exponent);
                    half_mantissa = drop_bit shift mantissa;
                    remainder_mask = push_bit shift 1 - 1;
                    remainder = mantissa AND remainder_mask;
                    halfway = push_bit (shift - 1) 1;
                    half_mantissa =
                      (if halfway < remainder \<or> remainder = halfway \<and> half_mantissa AND 1 \<noteq> 0
                       then half_mantissa + 1 else half_mantissa)
                in ucast (sign OR half_mantissa))
           else
             let half_mantissa = drop_bit 13 mantissa;
                 remainder = mantissa AND 0x1FFF
             in if 0x1000 < remainder \<or> remainder = 0x1000 \<and> half_mantissa AND 1 \<noteq> 0
                then let half_mantissa = half_mantissa + 1 in
                     if half_mantissa = 0x400
                     then let exponent = (word_of_int (half_exponent + 1) :: 32 word) in
                          if 31 \<le> exponent then ucast (sign OR 0x7C00)
                          else ucast (sign OR push_bit 10 exponent OR 0)
                     else ucast (sign OR push_bit 10 (word_of_int half_exponent) OR half_mantissa)
                else ucast (sign OR push_bit 10 (word_of_int half_exponent) OR half_mantissa))"

text \<open>The normalisation loop of a subnormal half runs at most ten times, the position of the
  mantissa's top bit; \<open>n\<close> bounds it.\<close>

fun normalize_half :: "nat \<Rightarrow> 32 word \<Rightarrow> nat \<Rightarrow> 32 word \<times> nat" where
  "normalize_half 0 mantissa shift = (mantissa, shift)"
| "normalize_half (Suc n) mantissa shift =
     (if mantissa AND 0x0400 = 0 then normalize_half n (push_bit 1 mantissa) (shift + 1)
      else (mantissa, shift))"

definition half_bits_to_float :: "16 word \<Rightarrow> 32 word" where
  "half_bits_to_float half =
     (let sign = push_bit 16 (ucast half AND 0x8000);
          exponent = drop_bit 10 (ucast half) AND (0x1F :: 32 word);
          mantissa = ucast half AND (0x03FF :: 32 word)
      in if exponent = 0 then
           (if mantissa = 0 then sign
            else
              let (mantissa, shift) = normalize_half 10 mantissa 0;
                  mantissa = mantissa AND 0x03FF;
                  float_exponent = word_of_int (127 - 15 - int shift)
              in sign OR push_bit 23 float_exponent OR push_bit 13 mantissa)
         else if exponent = 0x1F then sign OR 0x7F800000 OR push_bit 13 mantissa
         else sign OR push_bit 23 (exponent + (127 - 15)) OR push_bit 13 mantissa)"

datatype attention_algorithm = Materialized | OnlineTiled

datatype attention_precision = Fp32 | Fp16 | Bf16

record attention_config =
  ac_algorithm :: attention_algorithm
  ac_precision :: attention_precision
  ac_tile_tokens :: nat
  ac_causal :: bool

definition bf16_round :: "32 word \<Rightarrow> 32 word" where
  "bf16_round bits =
     (let rounding = 0x7FFF + (drop_bit 16 bits AND 1);
          bfloat = (ucast (drop_bit 16 (bits + rounding)) :: 16 word)
      in push_bit 16 (ucast bfloat))"

definition round_attention_value :: "'f fops \<Rightarrow> 'f \<Rightarrow> attention_precision \<Rightarrow> 'f" where
  "round_attention_value ops v precision =
     (case precision of
        Fp32 \<Rightarrow> v
      | Fp16 \<Rightarrow> f_from_bits ops (half_bits_to_float (float_to_half_bits (f_bits ops v)))
      | Bf16 \<Rightarrow> f_from_bits ops (bf16_round (f_bits ops v)))"

section \<open>The kernels\<close>

datatype runtime_error =
    ShapeOverflow | AttentionNotFinite | AttentionDimensions | AttentionTile
  | AttentionPositions | NormalizerInvalid
  | WeightIndex | WeightShape | ContextLength | TokenId | CacheBounds | CacheLength
  | PoolDimensions | RowDimension | EmptyTable | TailInconsistent | NotWritable | TableLength | PastValidRows
  | IncompletePrefix | IncompleteTable | InvalidPage | Underflow | CapacityExhausted
  | LiveFreePage | CacheExceedsContext | CacheInconsistent
  | NoLogits | BadTemperature | BadTopP | BadPenalty | BadTopK | LogitsNotFinite
  | HistoryRange | BannedRange | AllowedRange | AllMasked
  | SpeculationDisabled | SpeculationConstrained | SpeculationRoom | SpeculationConfig
  | TextBuffer | SpeculationLimit | SpeculationModels | MaxTokensRange | CacheModeUnknown

definition checked_product :: "nat \<Rightarrow> nat \<Rightarrow> (runtime_error, nat) result" where
  "checked_product l r = (if l * r > u64_max then Inl ShapeOverflow else Inr (l * r))"

definition legal_sources :: "nat \<Rightarrow> nat \<Rightarrow> nat \<Rightarrow> bool \<Rightarrow> nat" where
  "legal_sources query key_value_tokens query_start_position causal =
     (if \<not> causal then key_value_tokens
      else min key_value_tokens (query_start_position + query + 1))"

definition prepare_row ::
  "'f fops \<Rightarrow> attention_precision \<Rightarrow> 'f list \<Rightarrow> (runtime_error, 'f list) result" where
  "prepare_row ops precision =
     mapR (\<lambda>v. if \<not> f_isfinite ops v then Inl AttentionNotFinite
               else Inr (round_attention_value ops v precision))"

definition prepare ::
  "'f fops \<Rightarrow> attention_precision \<Rightarrow> 'f list list \<Rightarrow> (runtime_error, 'f list list) result" where
  "prepare ops precision = mapR (prepare_row ops precision)"

text \<open>One score: the dot product of a query and a key over the columns of a head, scaled.\<close>

definition attention_scale :: "'f fops \<Rightarrow> nat \<Rightarrow> 'f" where
  "attention_scale ops head_dimension =
     f_div ops (f_of_nat ops 1) (f_sqrt ops (f_of_nat ops head_dimension))"

definition attention_score :: "'f fops \<Rightarrow> nat \<Rightarrow> nat \<Rightarrow> 'f list \<Rightarrow> 'f list \<Rightarrow> 'f" where
  "attention_score ops head_dimension head query key =
     f_mul ops
       (fold (\<lambda>column score.
          f_add ops score
            (f_mul ops (query ! (head * head_dimension + column))
                       (key ! (head * head_dimension + column))))
          [0..<head_dimension] (f_zero ops))
       (attention_scale ops head_dimension)"

text \<open>The three passes of \<open>materialized_attention\<close>; the entries past \<open>sources\<close> of a score row
  are written by none of them and read by none.\<close>

definition score_pass ::
  "'f fops \<Rightarrow> nat \<Rightarrow> nat \<Rightarrow> 'f list \<Rightarrow> 'f list list \<Rightarrow> nat \<Rightarrow> 'f list" where
  "score_pass ops head_dimension head query keys sources =
     map (\<lambda>source. attention_score ops head_dimension head query (keys ! source)) [0..<sources]"

definition softmax_pass :: "'f fops \<Rightarrow> 'f list \<Rightarrow> 'f list" where
  "softmax_pass ops scores =
     (let maximum = fold (\<lambda>s m. f_max ops m s) scores (f_neg_inf ops);
          exps = map (\<lambda>s. f_exp ops (f_sub ops s maximum)) scores;
          denominator = fold (\<lambda>p d. f_add ops d p) exps (f_zero ops)
      in map (\<lambda>p. f_div ops p denominator) exps)"

definition value_pass ::
  "'f fops \<Rightarrow> nat \<Rightarrow> nat \<Rightarrow> 'f list list \<Rightarrow> nat \<Rightarrow> 'f list \<Rightarrow> 'f list" where
  "value_pass ops head_dimension head vals sources probabilities =
     map (\<lambda>column.
            fold (\<lambda>source accumulated.
              f_add ops accumulated
                (f_mul ops (probabilities ! source)
                           (vals ! source ! (head * head_dimension + column))))
              [0..<sources] (f_zero ops))
       [0..<head_dimension]"

definition materialized_attention ::
  "'f fops \<Rightarrow> 'f list list \<Rightarrow> 'f list list \<Rightarrow> 'f list list \<Rightarrow> nat \<Rightarrow> nat \<Rightarrow> nat \<Rightarrow> nat \<Rightarrow> nat \<Rightarrow>
   bool \<Rightarrow> 'f list list" where
  "materialized_attention ops queries keys vals query_tokens key_value_tokens heads
     head_dimension query_start_position causal =
     (let sources = (\<lambda>query. legal_sources query key_value_tokens query_start_position causal);
          scores = map (\<lambda>query. map (\<lambda>head.
                     score_pass ops head_dimension head (queries ! query) keys (sources query))
                     [0..<heads]) [0..<query_tokens];
          probabilities = map (map (softmax_pass ops)) scores
      in map (\<lambda>query. concat (map (\<lambda>head.
           value_pass ops head_dimension head vals (sources query) (probabilities ! query ! head))
           [0..<heads])) [0..<query_tokens])"

text \<open>\<open>online_tiled_attention\<close>: the running maximum, denominator and numerator of one query and
  head over the tiles of its sources.\<close>

record 'f online =
  on_numerator :: "'f list"
  on_maximum :: 'f
  on_denominator :: 'f

definition online_tile ::
  "'f fops \<Rightarrow> nat \<Rightarrow> nat \<Rightarrow> 'f list \<Rightarrow> 'f list list \<Rightarrow> 'f list list \<Rightarrow> nat \<Rightarrow> nat \<Rightarrow>
   'f online \<Rightarrow> 'f online" where
  "online_tile ops head_dimension head query keys vals tile_begin tile_end st =
     (let tile_scores = map (\<lambda>source. attention_score ops head_dimension head query (keys ! source))
                          [tile_begin..<tile_end];
          tile_maximum = fold (\<lambda>s m. f_max ops m s) tile_scores (f_neg_inf ops);
          new_maximum = f_max ops (on_maximum st) tile_maximum;
          previous_scale = (if f_isinf ops (on_maximum st) then f_zero ops
                            else f_exp ops (f_sub ops (on_maximum st) new_maximum));
          start = (map (\<lambda>c. f_mul ops c previous_scale) (on_numerator st),
                   f_mul ops (on_denominator st) previous_scale);
          (numerator, denominator) =
            fold (\<lambda>index (numerator, denominator).
              let probability = f_exp ops (f_sub ops (tile_scores ! index) new_maximum) in
              (map (\<lambda>column. f_add ops (numerator ! column)
                     (f_mul ops probability
                       (vals ! (tile_begin + index) ! (head * head_dimension + column))))
                 [0..<head_dimension],
               f_add ops denominator probability))
              [0..<tile_end - tile_begin] start
      in \<lparr> on_numerator = numerator, on_maximum = new_maximum, on_denominator = denominator \<rparr>)"

text \<open>\<open>attention_forward\<close> rejects a tile of no tokens, on which the loops would not end.\<close>

function online_tiles ::
  "'f fops \<Rightarrow> nat \<Rightarrow> nat \<Rightarrow> 'f list \<Rightarrow> 'f list list \<Rightarrow> 'f list list \<Rightarrow> nat \<Rightarrow> nat \<Rightarrow> nat \<Rightarrow>
   'f online \<Rightarrow> 'f online" where
  "online_tiles ops head_dimension head query keys vals tile_tokens sources tile_begin st =
     (if tile_begin < sources \<and> 0 < tile_tokens then
        online_tiles ops head_dimension head query keys vals tile_tokens sources
          (tile_begin + tile_tokens)
          (online_tile ops head_dimension head query keys vals tile_begin
             (min sources (tile_begin + tile_tokens)) st)
      else st)"
  by pat_completeness auto
termination
  by (relation "measure (\<lambda>(_, _, _, _, _, _, tile, sources, tile_begin, _). sources - tile_begin)")
     auto

declare online_tiles.simps [simp del]

definition online_head ::
  "'f fops \<Rightarrow> nat \<Rightarrow> nat \<Rightarrow> 'f list \<Rightarrow> 'f list list \<Rightarrow> 'f list list \<Rightarrow> nat \<Rightarrow> nat \<Rightarrow>
   (runtime_error, 'f list) result" where
  "online_head ops head_dimension head query keys vals tile_tokens sources =
     (let st = online_tiles ops head_dimension head query keys vals tile_tokens sources 0
                 \<lparr> on_numerator = replicate head_dimension (f_zero ops),
                   on_maximum = f_neg_inf ops, on_denominator = f_zero ops \<rparr>
      in if \<not> f_isfinite ops (on_denominator st) \<or> \<not> f_less ops (f_zero ops) (on_denominator st)
         then Inl NormalizerInvalid
         else Inr (map (\<lambda>n. f_div ops n (on_denominator st)) (on_numerator st)))"

function query_tiles :: "nat \<Rightarrow> nat \<Rightarrow> nat \<Rightarrow> nat list" where
  "query_tiles tile_tokens query_tokens query_tile_begin =
     (if query_tile_begin < query_tokens \<and> 0 < tile_tokens then
        [query_tile_begin..<min query_tokens (query_tile_begin + tile_tokens)]
        @ query_tiles tile_tokens query_tokens (query_tile_begin + tile_tokens)
      else [])"
  by pat_completeness auto
termination
  by (relation "measure (\<lambda>(_, query_tokens, query_tile_begin). query_tokens - query_tile_begin)") auto

declare query_tiles.simps [simp del]

definition online_tiled_attention ::
  "'f fops \<Rightarrow> 'f list list \<Rightarrow> 'f list list \<Rightarrow> 'f list list \<Rightarrow> nat \<Rightarrow> nat \<Rightarrow> nat \<Rightarrow> nat \<Rightarrow> nat \<Rightarrow>
   attention_config \<Rightarrow> (runtime_error, 'f list list) result" where
  "online_tiled_attention ops queries keys vals query_tokens key_value_tokens heads
     head_dimension query_start_position config =
     mapR (\<lambda>query.
       and_then (mapR (\<lambda>head.
         online_head ops head_dimension head (queries ! query) keys vals (ac_tile_tokens config)
           (legal_sources query key_value_tokens query_start_position (ac_causal config)))
         [0..<heads]) (\<lambda>rows. Inr (concat rows)))
       (query_tiles (ac_tile_tokens config) query_tokens 0)"

definition attention_forward ::
  "'f fops \<Rightarrow> 'f list list \<Rightarrow> 'f list list \<Rightarrow> 'f list list \<Rightarrow> nat \<Rightarrow> nat \<Rightarrow> nat \<Rightarrow> nat \<Rightarrow> nat \<Rightarrow>
   attention_config \<Rightarrow> (runtime_error, 'f list list) result" where
  "attention_forward ops queries keys vals query_tokens key_value_tokens heads head_dimension
     query_start_position config =
     (if query_tokens = 0 \<or> key_value_tokens = 0 \<or> heads = 0 \<or> head_dimension = 0
      then Inl AttentionDimensions
      else if ac_tile_tokens config = 0 \<or> 4096 < ac_tile_tokens config then Inl AttentionTile
      else if ac_causal config \<and>
              (key_value_tokens \<le> query_start_position \<or>
               key_value_tokens - query_start_position < query_tokens)
      then Inl AttentionPositions
      else
        and_then (checked_product query_tokens heads) (\<lambda>q.
        and_then (checked_product q head_dimension) (\<lambda>_.
        and_then (checked_product key_value_tokens heads) (\<lambda>k.
        and_then (checked_product k head_dimension) (\<lambda>_.
        and_then (prepare ops (ac_precision config) queries) (\<lambda>prepared_queries.
        and_then (prepare ops (ac_precision config) keys) (\<lambda>prepared_keys.
        and_then (prepare ops (ac_precision config) vals) (\<lambda>prepared_values.
        case ac_algorithm config of
          Materialized \<Rightarrow>
            and_then (checked_product query_tokens heads) (\<lambda>rows.
            and_then (checked_product rows key_value_tokens) (\<lambda>_.
            Inr (materialized_attention ops prepared_queries prepared_keys prepared_values
                   query_tokens key_value_tokens heads head_dimension query_start_position
                   (ac_causal config))))
        | OnlineTiled \<Rightarrow>
            online_tiled_attention ops prepared_queries prepared_keys prepared_values
              query_tokens key_value_tokens heads head_dimension query_start_position config))))))))"


section \<open>Rows of the attention output\<close>

text \<open>What either kernel computes for one query, as a function of the keys and values the query
  may attend to.\<close>

definition attend_row ::
  "'f fops \<Rightarrow> attention_config \<Rightarrow> nat \<Rightarrow> nat \<Rightarrow> 'f list \<Rightarrow> 'f list list \<Rightarrow> 'f list list \<Rightarrow> nat \<Rightarrow>
   (runtime_error, 'f list) result" where
  "attend_row ops config heads head_dimension query keys vals sources =
     (case ac_algorithm config of
        Materialized \<Rightarrow>
          Inr (concat (map (\<lambda>head. value_pass ops head_dimension head vals sources
            (softmax_pass ops (score_pass ops head_dimension head query keys sources))) [0..<heads]))
      | OnlineTiled \<Rightarrow>
          and_then (mapR (\<lambda>head. online_head ops head_dimension head query keys vals
            (ac_tile_tokens config) sources) [0..<heads]) (\<lambda>rows. Inr (concat rows)))"

lemma query_tiles_upt:
  assumes "0 < tile"
  shows "query_tiles tile n b = [b..<n]"
  using assms
proof (induction tile n b rule: query_tiles.induct)
  case (1 tile n b)
  show ?case
  proof (cases "b < n")
    case True
    have "query_tiles tile n b = [b..<min n (b + tile)] @ [b + tile..<n]"
      using 1 True by (subst query_tiles.simps) simp
    also have "\<dots> = [b..<n]"
    proof (cases "b + tile \<le> n")
      case True
      then show ?thesis using upt_add_eq_append[of b "b + tile" "n - (b + tile)"] by simp
    qed simp
    finally show ?thesis .
  qed (subst query_tiles.simps, simp)
qed

lemma materialized_rows:
  "i < n \<Longrightarrow> materialized_attention ops q k v n kv heads hdim start causal ! i =
     concat (map (\<lambda>head. value_pass ops hdim head v (legal_sources i kv start causal)
       (softmax_pass ops (score_pass ops hdim head (q ! i) k (legal_sources i kv start causal)))) [0..<heads])"
  by (simp add: materialized_attention_def Let_def)
     (intro arg_cong[where f = concat] map_cong refl, simp)

lemma materialized_length: "length (materialized_attention ops q k v n kv heads hdim start causal) = n"
  by (simp add: materialized_attention_def Let_def)

definition attention_checks ::
  "nat \<Rightarrow> nat \<Rightarrow> nat \<Rightarrow> nat \<Rightarrow> nat \<Rightarrow> attention_config \<Rightarrow> bool" where
  "attention_checks n kv heads hdim start config \<longleftrightarrow>
     0 < n \<and> 0 < kv \<and> 0 < heads \<and> 0 < hdim \<and>
     0 < ac_tile_tokens config \<and> ac_tile_tokens config \<le> 4096 \<and>
     (ac_causal config \<longrightarrow> start < kv \<and> n \<le> kv - start) \<and>
     n * heads * hdim \<le> u64_max \<and> kv * heads * hdim \<le> u64_max \<and> n * heads \<le> u64_max \<and>
     kv * heads \<le> u64_max \<and>
     (ac_algorithm config = Materialized \<longrightarrow> n * heads * kv \<le> u64_max)"

lemma checked_product_Inr [simp]: "checked_product a b = Inr c \<longleftrightarrow> a * b \<le> u64_max \<and> c = a * b"
  by (auto simp: checked_product_def)

lemma attention_forward_iff:
  "attention_forward ops q k v n kv heads hdim start config = Inr out \<longleftrightarrow>
   attention_checks n kv heads hdim start config \<and>
   (\<exists>pq pk pv. prepare ops (ac_precision config) q = Inr pq \<and>
      prepare ops (ac_precision config) k = Inr pk \<and> prepare ops (ac_precision config) v = Inr pv \<and>
      length out = n \<and>
      (\<forall>i<n. attend_row ops config heads hdim (pq ! i) pk pv
               (legal_sources i kv start (ac_causal config)) = Inr (out ! i)))"
proof (cases "ac_algorithm config")
  case Materialized
  have "materialized_attention ops pq pk pv n kv heads hdim start c = out \<longleftrightarrow>
        length out = n \<and> (\<forall>i<n. concat (map (\<lambda>head. value_pass ops hdim head pv (legal_sources i kv start c)
       (softmax_pass ops (score_pass ops hdim head (pq ! i) pk (legal_sources i kv start c)))) [0..<heads]) = out ! i)"
    for pq pk pv c
    by (auto simp: list_eq_iff_nth_eq materialized_length materialized_rows)
  then show ?thesis
    using Materialized
    by (auto simp: attention_forward_def attention_checks_def attend_row_def and_then_Inr_iff not_le not_less)
next
  case OnlineTiled
  then show ?thesis
    by (auto simp: attention_forward_def attention_checks_def attend_row_def and_then_Inr_iff
        online_tiled_attention_def query_tiles_upt mapR_Inr_iff not_le not_less)
qed

subsection \<open>A row depends on its own sources only\<close>

lemma score_pass_take:
  "sources \<le> m \<Longrightarrow> score_pass ops hdim head q (take m keys) sources = score_pass ops hdim head q keys sources"
  by (simp add: score_pass_def)

lemma fold_upt_cong:
  "(\<And>i s. a \<le> i \<Longrightarrow> i < b \<Longrightarrow> f i s = g i s) \<Longrightarrow> fold f [a..<b] s = fold g [a..<b] s"
  by (rule fold_cong) auto

lemma value_pass_take:
  "sources \<le> m \<Longrightarrow> value_pass ops hdim head (take m vals) sources p = value_pass ops hdim head vals sources p"
  by (auto simp: value_pass_def intro!: fold_upt_cong)

lemma online_tile_take:
  assumes "e \<le> m"
  shows "online_tile ops hdim head q (take m keys) (take m vals) b e st =
         online_tile ops hdim head q keys vals b e st"
proof -
  have s: "map (\<lambda>source. attention_score ops hdim head q (take m keys ! source)) [b..<e] =
        map (\<lambda>source. attention_score ops hdim head q (keys ! source)) [b..<e]"
    using assms by simp
  have v: "fold (\<lambda>index (numerator, denominator).
              (map (\<lambda>column. f_add ops (numerator ! column)
                     (f_mul ops (pr index) (take m vals ! (b + index) ! (head * hdim + column)))) [0..<hdim],
               f_add ops denominator (pr index))) [0..<e - b] start =
           fold (\<lambda>index (numerator, denominator).
              (map (\<lambda>column. f_add ops (numerator ! column)
                     (f_mul ops (pr index) (vals ! (b + index) ! (head * hdim + column)))) [0..<hdim],
               f_add ops denominator (pr index))) [0..<e - b] start" for pr start
    using assms by (intro fold_upt_cong) (auto split: prod.splits)
  show ?thesis
    unfolding online_tile_def s Let_def v ..
qed

lemma online_tiles_take:
  assumes "sources \<le> m"
  shows "online_tiles ops hdim head q (take m keys) (take m vals) tile sources b st =
         online_tiles ops hdim head q keys vals tile sources b st"
  using assms
proof (induction ops hdim head q keys vals tile sources b st rule: online_tiles.induct)
  case (1 ops hdim head q keys vals tile sources b st)
  then show ?case
    by (subst (1 2) online_tiles.simps) (auto simp: online_tile_take)
qed

lemma attend_row_take:
  assumes "sources \<le> m"
  shows "attend_row ops config heads hdim q (take m keys) (take m vals) sources =
         attend_row ops config heads hdim q keys vals sources"
  using assms
  by (auto simp: attend_row_def online_head_def score_pass_take value_pass_take online_tiles_take
      split: attention_algorithm.splits)

lemma prepare_take: "prepare ops p xs = Inr ys \<Longrightarrow> prepare ops p (take n xs) = Inr (take n ys)"
  by (simp add: prepare_def mapR_take)

lemma attention_checks_mono:
  assumes c: "attention_checks n kv heads hdim start config"
    and le: "0 < m" "m \<le> n" "0 < kv'" "kv' \<le> kv" and s: "start' < kv'" "m \<le> kv' - start'"
  shows "attention_checks m kv' heads hdim start' config"
proof -
  have "m * heads * hdim \<le> n * heads * hdim" "m * heads \<le> n * heads" "m * heads * kv' \<le> n * heads * kv"
    "kv' * heads * hdim \<le> kv * heads * hdim" "kv' * heads \<le> kv * heads"
    using le by (intro mult_le_mono le_refl; simp)+
  then have "m * heads * hdim \<le> u64_max" "m * heads \<le> u64_max" "kv' * heads * hdim \<le> u64_max"
    "kv' * heads \<le> u64_max" "ac_algorithm config = Materialized \<longrightarrow> m * heads * kv' \<le> u64_max"
    using c unfolding attention_checks_def by (meson order_trans)+
  then show ?thesis
    using c le s unfolding attention_checks_def by blast
qed

text \<open>Causal attention over the first \<open>m\<close> tokens is the first \<open>m\<close> rows of attention over all of
  them, and a row alone is what the kernel computes for that query with its cached keys and
  values.\<close>

lemma attention_prefix:
  assumes a: "attention_forward ops q k v n n heads hdim 0 config = Inr out"
    and c: "ac_causal config" and m: "0 < m" "m \<le> n"
    and "length q = n" "length k = n" "length v = n"
  shows "attention_forward ops (take m q) (take m k) (take m v) m m heads hdim 0 config = Inr (take m out)"
proof -
  from a obtain pq pk pv where p: "attention_checks n n heads hdim 0 config"
    "prepare ops (ac_precision config) q = Inr pq" "prepare ops (ac_precision config) k = Inr pk"
    "prepare ops (ac_precision config) v = Inr pv" "length out = n"
    "\<And>i. i < n \<Longrightarrow> attend_row ops config heads hdim (pq ! i) pk pv (legal_sources i n 0 True) = Inr (out ! i)"
    using c unfolding attention_forward_iff by auto
  have "attention_checks m m heads hdim 0 config"
    using attention_checks_mono[OF p(1)] m by simp
  moreover have "attend_row ops config heads hdim (take m pq ! i) (take m pk) (take m pv)
      (legal_sources i m 0 True) = Inr (take m out ! i)" if "i < m" for i
  proof -
    have "legal_sources i m 0 True = legal_sources i n 0 True"
      using that m by (simp add: legal_sources_def)
    moreover have "legal_sources i n 0 True \<le> m"
      using that m by (simp add: legal_sources_def)
    ultimately show ?thesis
      using that p(6)[of i] m by (simp add: attend_row_take)
  qed
  ultimately show ?thesis
    using p(2-5) c m unfolding attention_forward_iff by (auto simp: prepare_take)
qed

lemma attention_row:
  assumes a: "attention_forward ops q k v n n heads hdim 0 config = Inr out"
    and c: "ac_causal config" and i: "i < n"
    and l: "length q = n" "length k = n" "length v = n"
  shows "attention_forward ops [q ! i] (take (Suc i) k) (take (Suc i) v) 1 (Suc i) heads hdim i config =
         Inr [out ! i]"
proof -
  from a obtain pq pk pv where p: "attention_checks n n heads hdim 0 config"
    "prepare ops (ac_precision config) q = Inr pq" "prepare ops (ac_precision config) k = Inr pk"
    "prepare ops (ac_precision config) v = Inr pv" "length out = n"
    "\<And>i. i < n \<Longrightarrow> attend_row ops config heads hdim (pq ! i) pk pv (legal_sources i n 0 True) = Inr (out ! i)"
    using c unfolding attention_forward_iff by auto
  have "attention_checks 1 (Suc i) heads hdim i config"
    using attention_checks_mono[OF p(1)] i by simp
  moreover have "prepare ops (ac_precision config) [q ! i] = Inr [pq ! i]"
    using p(2) i l by (simp add: prepare_def mapR_nth)
  moreover have "attend_row ops config heads hdim (pq ! i) (take (Suc i) pk) (take (Suc i) pv)
      (legal_sources 0 (Suc i) i True) = Inr (out ! i)"
  proof -
    have "legal_sources 0 (Suc i) i True = Suc i" "legal_sources i n 0 True = Suc i"
      using i by (simp_all add: legal_sources_def)
    then show ?thesis using p(6)[OF i] by (simp add: attend_row_take)
  qed
  ultimately show ?thesis
    using p(3,4) c unfolding attention_forward_iff by (auto simp: prepare_take)
qed

end
