(* ===== verification/Worker_Model.thy ===== *)
theory Worker_Model
  imports Worker_Attention
begin

text \<open>
  The decoder-only model of the worker's C++ runtime (\<open>worker/cpp/inferlab_runtime.cpp\<close>):
  quantised weight matrices, layer normalisation, the linear layers, the forward pass over a
  whole context, the key and value rows of one position and the forward pass over cached rows,
  and the tokeniser.

  A tensor of the source is a flat vector; here a matrix of activations is the list of its rows,
  and a weight matrix keeps the flat storage of \<open>LinearWeight\<close>.
\<close>

section \<open>Weights\<close>

datatype quantization_mode = QFp32 | QInt8 | QInt4

record 'f linear_weight =
  lw_rows :: nat
  lw_columns :: nat
  lw_mode :: quantization_mode
  lw_fp32 :: "'f list"
  lw_int8 :: "int list"
  lw_int4 :: "8 word list"
  lw_scales :: "'f list"
  lw_zero_points :: "8 word list"

definition int4_group_size :: nat where "int4_group_size = 8"

definition clamp_int :: "int \<Rightarrow> int \<Rightarrow> int \<Rightarrow> int" where
  "clamp_int v lo hi = (if v < lo then lo else if hi < v then hi else v)"

definition int8_scale :: "'f fops \<Rightarrow> 'f list \<Rightarrow> nat \<Rightarrow> nat \<Rightarrow> 'f" where
  "int8_scale ops vals columns row =
     (let maximum = fold (\<lambda>column m. f_max ops m (f_abs ops (vals ! (row * columns + column))))
                      [0..<columns] (f_zero ops)
      in if f_eq ops maximum (f_zero ops) then f_of_nat ops 1 else f_div ops maximum (f_of_nat ops 127))"

definition int8_quantized :: "'f fops \<Rightarrow> 'f \<Rightarrow> 'f \<Rightarrow> int" where
  "int8_quantized ops scale v = clamp_int (f_lround ops (f_div ops v scale)) (- 127) 127"

definition groups_per_row :: "nat \<Rightarrow> nat" where
  "groups_per_row columns = (columns + int4_group_size - 1) div int4_group_size"

text \<open>Scale and zero point of one group of eight columns.\<close>

definition int4_group :: "'f fops \<Rightarrow> 'f list \<Rightarrow> nat \<Rightarrow> nat \<Rightarrow> nat \<Rightarrow> 'f \<times> 8 word" where
  "int4_group ops vals columns row grp =
     (let first = grp * int4_group_size;
          stop = min columns (first + int4_group_size);
          minimum = fold (\<lambda>column m. f_min ops m (vals ! (row * columns + column)))
                      [first..<stop] (f_zero ops);
          maximum = fold (\<lambda>column m. f_max ops m (vals ! (row * columns + column)))
                      [first..<stop] (f_zero ops);
          span = f_sub ops maximum minimum;
          scale = (if f_eq ops span (f_zero ops) then f_of_nat ops 1 else f_div ops span (f_of_nat ops 15));
          zero = clamp_int (f_lround ops (f_div ops (f_sub ops (f_zero ops) minimum) scale)) 0 15
      in (scale, word_of_int zero))"

definition int4_quantized :: "'f fops \<Rightarrow> 'f \<Rightarrow> 8 word \<Rightarrow> 'f \<Rightarrow> 8 word" where
  "int4_quantized ops scale zero v =
     word_of_int (clamp_int (f_lround ops (f_div ops v scale) + uint zero) 0 15)"

text \<open>Two values share a byte: an even index overwrites it, an odd one sets its high half.\<close>

definition int4_store :: "nat \<Rightarrow> 8 word \<Rightarrow> 8 word list \<Rightarrow> 8 word list" where
  "int4_store index quantized packed =
     (if even index then packed[index div 2 := quantized]
      else packed[index div 2 := (packed ! (index div 2)) OR push_bit 4 quantized])"

definition from_fp32 ::
  "'f fops \<Rightarrow> 'f list \<Rightarrow> nat \<Rightarrow> nat \<Rightarrow> quantization_mode \<Rightarrow>
   (runtime_error, 'f linear_weight) result" where
  "from_fp32 ops vals rows columns mode =
     and_then (checked_product rows columns) (\<lambda>size.
     if length vals \<noteq> size \<or> rows = 0 \<or> columns = 0 then Inl WeightShape
     else
       let blank = \<lparr> lw_rows = rows, lw_columns = columns, lw_mode = mode, lw_fp32 = [],
                     lw_int8 = [], lw_int4 = [], lw_scales = [], lw_zero_points = [] \<rparr>
       in case mode of
            QFp32 \<Rightarrow> Inr (blank \<lparr> lw_fp32 := vals \<rparr>)
          | QInt8 \<Rightarrow>
              let scales = map (int8_scale ops vals columns) [0..<rows] in
              Inr (blank \<lparr> lw_scales := scales,
                           lw_int8 := concat (map (\<lambda>row. map (\<lambda>column.
                             int8_quantized ops (scales ! row) (vals ! (row * columns + column)))
                             [0..<columns]) [0..<rows]) \<rparr>)
          | QInt4 \<Rightarrow>
              and_then (checked_product rows (groups_per_row columns)) (\<lambda>groups.
              let gpr = groups_per_row columns;
                  metadata = map (\<lambda>g. int4_group ops vals columns (g div gpr) (g mod gpr)) [0..<groups];
                  packed = fold (\<lambda>index.
                    let (scale, zero) = metadata ! (index div columns * gpr
                                          + index mod columns div int4_group_size)
                    in int4_store index (int4_quantized ops scale zero (vals ! index)))
                    [0..<rows * columns] (replicate ((length vals + 1) div 2) 0)
              in Inr (blank \<lparr> lw_int4 := packed, lw_scales := map fst metadata,
                              lw_zero_points := map snd metadata \<rparr>)))"

definition weight_at ::
  "'f fops \<Rightarrow> 'f linear_weight \<Rightarrow> nat \<Rightarrow> nat \<Rightarrow> (runtime_error, 'f) result" where
  "weight_at ops w row column =
     (if lw_rows w \<le> row \<or> lw_columns w \<le> column then Inl WeightIndex
      else
        let index = row * lw_columns w + column in
        case lw_mode w of
          QFp32 \<Rightarrow> Inr (lw_fp32 w ! index)
        | QInt8 \<Rightarrow> Inr (f_mul ops (f_of_int ops (lw_int8 w ! index)) (lw_scales w ! row))
        | QInt4 \<Rightarrow>
            let packed = lw_int4 w ! (index div 2);
                v = (if even index then packed AND 0x0F else drop_bit 4 packed);
                metadata = row * groups_per_row (lw_columns w) + column div int4_group_size
            in Inr (f_mul ops (f_sub ops (f_of_int ops (uint v))
                                         (f_of_int ops (uint (lw_zero_points w ! metadata))))
                              (lw_scales w ! metadata)))"

section \<open>Layers\<close>

definition layer_norm_row :: "'f fops \<Rightarrow> nat \<Rightarrow> 'f list \<Rightarrow> 'f list \<Rightarrow> 'f list \<Rightarrow> 'f list" where
  "layer_norm_row ops columns weight bias row =
     (let n = f_of_nat ops columns;
          mean = f_div ops (fold (\<lambda>c m. f_add ops m (row ! c)) [0..<columns] (f_zero ops)) n;
          variance = f_div ops (fold (\<lambda>c v. let centered = f_sub ops (row ! c) mean in
                       f_add ops v (f_mul ops centered centered)) [0..<columns] (f_zero ops)) n;
          inverse_deviation = f_div ops (f_of_nat ops 1) (f_sqrt ops (f_add ops variance (f_lit ops 1 5)))
      in map (\<lambda>c. f_add ops (f_mul ops (f_mul ops (f_sub ops (row ! c) mean) inverse_deviation)
                                          (weight ! c)) (bias ! c)) [0..<columns])"

definition layer_norm ::
  "'f fops \<Rightarrow> nat \<Rightarrow> 'f list \<Rightarrow> 'f list \<Rightarrow> 'f list list \<Rightarrow> 'f list list" where
  "layer_norm ops columns weight bias = map (layer_norm_row ops columns weight bias)"

definition linear_row ::
  "'f fops \<Rightarrow> nat \<Rightarrow> 'f linear_weight \<Rightarrow> nat \<Rightarrow> 'f list option \<Rightarrow> 'f list \<Rightarrow>
   (runtime_error, 'f list) result" where
  "linear_row ops input_columns weight output_columns bias row =
     mapR (\<lambda>out. foldR (\<lambda>i v. and_then (weight_at ops weight out i)
                               (\<lambda>w. Inr (f_add ops v (f_mul ops (row ! i) w))))
                   [0..<input_columns] (case bias of None \<Rightarrow> f_zero ops | Some b \<Rightarrow> b ! out))
       [0..<output_columns]"

definition linear ::
  "'f fops \<Rightarrow> nat \<Rightarrow> 'f linear_weight \<Rightarrow> nat \<Rightarrow> 'f list option \<Rightarrow> 'f list list \<Rightarrow>
   (runtime_error, 'f list list) result" where
  "linear ops input_columns weight output_columns bias =
     mapR (linear_row ops input_columns weight output_columns bias)"

definition gelu :: "'f fops \<Rightarrow> 'f \<Rightarrow> 'f" where
  "gelu ops v =
     f_mul ops (f_mul ops (f_lit ops 5 1) v)
       (f_add ops (f_of_nat ops 1)
         (f_tanh ops (f_mul ops (f_lit ops 7978845608028654 16)
            (f_add ops v (f_mul ops (f_mul ops (f_mul ops (f_lit ops 44715 6) v) v) v)))))"

section \<open>The model\<close>

record 'f model =
  vocab_size :: nat
  context_length :: nat
  dimension :: nat
  m_heads :: nat
  feed_forward_dimension :: nat
  vocabulary :: "string list"
  token_lookup :: "(string \<times> nat) list"
  m_quantization :: quantization_mode
  m_attention :: attention_config
  token_embedding :: "'f list list"
  position_embedding :: "'f list list"
  ln1_weight :: "'f list"
  ln1_bias :: "'f list"
  query_weight :: "'f linear_weight"
  key_weight :: "'f linear_weight"
  value_weight :: "'f linear_weight"
  attention_output_weight :: "'f linear_weight"
  ln2_weight :: "'f list"
  ln2_bias :: "'f list"
  feed_forward_in_weight :: "'f linear_weight"
  feed_forward_in_bias :: "'f list"
  feed_forward_out_weight :: "'f linear_weight"
  feed_forward_out_bias :: "'f list"
  final_norm_weight :: "'f list"
  final_norm_bias :: "'f list"
  lm_head_weight :: "'f linear_weight"
  lm_head_bias :: "'f list"

definition embed :: "'f fops \<Rightarrow> 'f model \<Rightarrow> nat \<Rightarrow> nat \<Rightarrow> 'f list" where
  "embed ops m token position =
     map (\<lambda>c. f_add ops (token_embedding m ! token ! c) (position_embedding m ! position ! c))
       [0..<dimension m]"

definition add_rows :: "'f fops \<Rightarrow> 'f list list \<Rightarrow> 'f list list \<Rightarrow> 'f list list" where
  "add_rows ops = map2 (map2 (f_add ops))"

text \<open>The residual, feed-forward and output layers, which \<open>forward_all\<close> and \<open>forward_cached\<close>
  both end with.\<close>

definition finish_forward ::
  "'f fops \<Rightarrow> 'f model \<Rightarrow> 'f list list \<Rightarrow> 'f list list \<Rightarrow> (runtime_error, 'f list list) result" where
  "finish_forward ops m hidden attention_context =
     and_then (linear ops (dimension m) (attention_output_weight m) (dimension m) None
                 attention_context) (\<lambda>attention_output.
     let hidden = add_rows ops hidden attention_output;
         feed_forward_input = layer_norm ops (dimension m) (ln2_weight m) (ln2_bias m) hidden
     in and_then (linear ops (dimension m) (feed_forward_in_weight m) (feed_forward_dimension m)
                    (Some (feed_forward_in_bias m)) feed_forward_input) (\<lambda>expanded.
        and_then (linear ops (feed_forward_dimension m) (feed_forward_out_weight m) (dimension m)
                    (Some (feed_forward_out_bias m)) (map (map (gelu ops)) expanded)) (\<lambda>contracted.
        let hidden = add_rows ops hidden contracted;
            final_hidden = layer_norm ops (dimension m) (final_norm_weight m) (final_norm_bias m) hidden
        in linear ops (dimension m) (lm_head_weight m) (vocab_size m) (Some (lm_head_bias m))
             final_hidden)))"

definition forward_all ::
  "'f fops \<Rightarrow> 'f model \<Rightarrow> nat list \<Rightarrow> (runtime_error, 'f list list) result" where
  "forward_all ops m token_ids =
     (if token_ids = [] \<or> context_length m < length token_ids then Inl ContextLength
      else
        let tokens = length token_ids; d = dimension m in
        and_then (mapR (\<lambda>token. if vocab_size m \<le> token_ids ! token then Inl TokenId
                                else Inr (embed ops m (token_ids ! token) token)) [0..<tokens])
          (\<lambda>hidden.
        let normalized = layer_norm ops d (ln1_weight m) (ln1_bias m) hidden in
        and_then (linear ops d (query_weight m) d None normalized) (\<lambda>queries.
        and_then (linear ops d (key_weight m) d None normalized) (\<lambda>keys.
        and_then (linear ops d (value_weight m) d None normalized) (\<lambda>vals.
        and_then (attention_forward ops queries keys vals tokens tokens (m_heads m)
                    (d div m_heads m) 0 (m_attention m)) (\<lambda>attention_context.
        finish_forward ops m hidden attention_context))))))"

definition forward :: "'f fops \<Rightarrow> 'f model \<Rightarrow> nat list \<Rightarrow> (runtime_error, 'f list) result" where
  "forward ops m token_ids =
     and_then (forward_all ops m token_ids) (\<lambda>rows. Inr (last rows))"

text \<open>\<open>append_key_value\<close> appends the key and the value row this returns.\<close>

definition append_key_value ::
  "'f fops \<Rightarrow> 'f model \<Rightarrow> nat \<Rightarrow> nat \<Rightarrow> (runtime_error, 'f list \<times> 'f list) result" where
  "append_key_value ops m token_id position =
     (if vocab_size m \<le> token_id \<or> context_length m \<le> position then Inl CacheBounds
      else
        let normalized = layer_norm ops (dimension m) (ln1_weight m) (ln1_bias m)
                           [embed ops m token_id position] in
        and_then (linear ops (dimension m) (key_weight m) (dimension m) None normalized) (\<lambda>key.
        and_then (linear ops (dimension m) (value_weight m) (dimension m) None normalized) (\<lambda>v.
        Inr (hd key, hd v))))"

definition forward_cached ::
  "'f fops \<Rightarrow> 'f model \<Rightarrow> nat list \<Rightarrow> 'f list list \<Rightarrow> 'f list list \<Rightarrow>
   (runtime_error, 'f list) result" where
  "forward_cached ops m token_ids key_cache value_cache =
     (if token_ids = [] \<or> context_length m < length token_ids then Inl ContextLength
      else
        let tokens = length token_ids; d = dimension m in
        if length (concat key_cache) \<noteq> tokens * d \<or> length (concat value_cache) \<noteq> tokens * d
        then Inl CacheLength
        else if vocab_size m \<le> last token_ids then Inl TokenId
        else
          let position = tokens - 1;
              hidden = [embed ops m (last token_ids) position];
              normalized = layer_norm ops d (ln1_weight m) (ln1_bias m) hidden
          in and_then (linear ops d (query_weight m) d None normalized) (\<lambda>query.
             and_then (attention_forward ops query key_cache value_cache 1 tokens (m_heads m)
                         (d div m_heads m) position (m_attention m)) (\<lambda>attention_context.
             and_then (finish_forward ops m hidden attention_context) (\<lambda>rows. Inr (hd rows)))))"

section \<open>Row by row\<close>

lemma mapR_single [simp]: "mapR f [x] = Inr ys \<longleftrightarrow> (\<exists>y. f x = Inr y \<and> ys = [y])"
  by (auto simp: and_then_Inr_iff)

lemma linear_take: "linear ops ic w oc b rows = Inr out \<Longrightarrow> linear ops ic w oc b (take n rows) = Inr (take n out)"
  by (simp add: linear_def mapR_take)

lemma linear_length: "linear ops ic w oc b rows = Inr out \<Longrightarrow> length out = length rows"
  by (simp add: linear_def mapR_length)

lemma linear_nth:
  "linear ops ic w oc b rows = Inr out \<Longrightarrow> i < length rows \<Longrightarrow> linear ops ic w oc b [rows ! i] = Inr [out ! i]"
  by (simp add: linear_def mapR_nth del: mapR.simps)

lemma linear_columns:
  "linear ops ic w oc b rows = Inr out \<Longrightarrow> i < length rows \<Longrightarrow> length (out ! i) = oc"
  unfolding linear_def by (drule (1) mapR_nth) (auto simp: linear_row_def dest!: mapR_length)

lemma layer_norm_take: "take n (layer_norm ops c w b rows) = layer_norm ops c w b (take n rows)"
  by (simp add: layer_norm_def take_map)

lemma layer_norm_nth: "i < length rows \<Longrightarrow> layer_norm ops c w b rows ! i = layer_norm_row ops c w b (rows ! i)"
  by (simp add: layer_norm_def)

lemma layer_norm_length [simp]: "length (layer_norm ops c w b rows) = length rows"
  by (simp add: layer_norm_def)

lemma layer_norm_single: "i < length rows \<Longrightarrow> layer_norm ops c w b [rows ! i] = [layer_norm ops c w b rows ! i]"
  by (simp add: layer_norm_def)

lemma add_rows_take: "take n (add_rows ops xs ys) = add_rows ops (take n xs) (take n ys)"
  by (simp add: add_rows_def take_map take_zip)

lemma add_rows_single:
  "i < length xs \<Longrightarrow> i < length ys \<Longrightarrow> add_rows ops [xs ! i] [ys ! i] = [add_rows ops xs ys ! i]"
  by (simp add: add_rows_def)

lemma add_rows_length [simp]: "length (add_rows ops xs ys) = min (length xs) (length ys)"
  by (simp add: add_rows_def)

lemma finish_take:
  assumes "finish_forward ops m hidden ctx = Inr out"
  shows "finish_forward ops m (take n hidden) (take n ctx) = Inr (take n out)"
  using assms
  by (auto simp: finish_forward_def and_then_Inr_iff Let_def linear_take
      add_rows_take [symmetric] layer_norm_take [symmetric] take_map [symmetric])

lemma finish_length:
  "finish_forward ops m hidden ctx = Inr out \<Longrightarrow> length out = min (length hidden) (length ctx)"
  by (auto simp: finish_forward_def and_then_Inr_iff Let_def dest!: linear_length)

lemma finish_nth:
  assumes "finish_forward ops m hidden ctx = Inr out" "i < length hidden" "length ctx = length hidden"
  shows "finish_forward ops m [hidden ! i] [ctx ! i] = Inr [out ! i]"
proof -
  from assms obtain ao ex co where s:
    "linear ops (dimension m) (attention_output_weight m) (dimension m) None ctx = Inr ao"
    "linear ops (dimension m) (feed_forward_in_weight m) (feed_forward_dimension m)
       (Some (feed_forward_in_bias m))
       (layer_norm ops (dimension m) (ln2_weight m) (ln2_bias m) (add_rows ops hidden ao)) = Inr ex"
    "linear ops (feed_forward_dimension m) (feed_forward_out_weight m) (dimension m)
       (Some (feed_forward_out_bias m)) (map (map (gelu ops)) ex) = Inr co"
    "linear ops (dimension m) (lm_head_weight m) (vocab_size m) (Some (lm_head_bias m))
       (layer_norm ops (dimension m) (final_norm_weight m) (final_norm_bias m)
         (add_rows ops (add_rows ops hidden ao) co)) = Inr out"
    by (auto simp: finish_forward_def and_then_Inr_iff Let_def)
  note l = s[THEN linear_length]
  have b: "i < length ctx" "i < length ao" "i < length ex" "i < length co"
    "i < length (add_rows ops hidden ao)" "i < length (add_rows ops (add_rows ops hidden ao) co)"
    using l assms(2,3) by simp_all
  have g: "map (map (gelu ops)) [ex ! i] = [map (map (gelu ops)) ex ! i]"
    using b by simp
  show ?thesis
    unfolding finish_forward_def Let_def linear_nth[OF s(1) b(1)] and_then_simps
      add_rows_single[OF assms(2) b(2)] layer_norm_single[OF b(5)]
    by (subst linear_nth[OF s(2)], use b in simp, unfold and_then_simps g,
        subst linear_nth[OF s(3)], use b in simp, unfold and_then_simps
        add_rows_single[OF b(5) b(4)] layer_norm_single[OF b(6)], rule linear_nth[OF s(4)], use b in simp)
qed


section \<open>Causality and cached rows\<close>

text \<open>The stages of a successful pass.\<close>

lemma forward_all_stages:
  assumes "forward_all ops m xs = Inr out"
  obtains hidden queries keys vals ctx where
    "xs \<noteq> []" "length xs \<le> context_length m" "\<forall>i<length xs. xs ! i < vocab_size m"
    "hidden = map (\<lambda>i. embed ops m (xs ! i) i) [0..<length xs]"
    "linear ops (dimension m) (query_weight m) (dimension m) None
       (layer_norm ops (dimension m) (ln1_weight m) (ln1_bias m) hidden) = Inr queries"
    "linear ops (dimension m) (key_weight m) (dimension m) None
       (layer_norm ops (dimension m) (ln1_weight m) (ln1_bias m) hidden) = Inr keys"
    "linear ops (dimension m) (value_weight m) (dimension m) None
       (layer_norm ops (dimension m) (ln1_weight m) (ln1_bias m) hidden) = Inr vals"
    "attention_forward ops queries keys vals (length xs) (length xs) (m_heads m)
       (dimension m div m_heads m) 0 (m_attention m) = Inr ctx"
    "finish_forward ops m hidden ctx = Inr out"
proof -
  have h: "hidden = map (\<lambda>i. embed ops m (xs ! i) i) [0..<length xs] \<and> (\<forall>i<length xs. xs ! i < vocab_size m)"
    if "mapR (\<lambda>token. if vocab_size m \<le> xs ! token then Inl TokenId
          else Inr (embed ops m (xs ! token) token)) [0..<length xs] = Inr hidden" for hidden
  proof -
    from that have l: "length hidden = length xs" by (simp add: mapR_Inr_iff)
    have "\<not> vocab_size m \<le> xs ! i \<and> hidden ! i = embed ops m (xs ! i) i" if "i < length xs" for i
      using mapR_nth[OF \<open>mapR _ _ = Inr hidden\<close>, of i] that by (auto split: if_splits)
    then show ?thesis using l by (auto intro!: nth_equalityI simp: not_le)
  qed
  from assms show thesis
    by (auto simp: forward_all_def and_then_Inr_iff Let_def split: if_splits dest!: h intro!: that)
qed

lemma forward_all_length: "forward_all ops m xs = Inr out \<Longrightarrow> length out = length xs"
  by (elim forward_all_stages) (auto dest!: finish_length simp: attention_forward_iff)

text \<open>Row \<open>i\<close> of a pass over a context depends on the first \<open>i + 1\<close> tokens only.\<close>

lemma forward_all_prefix:
  assumes f: "forward_all ops m xs = Inr out" and c: "ac_causal (m_attention m)"
    and n: "0 < n" "n \<le> length xs"
  shows "forward_all ops m (take n xs) = Inr (take n out)"
proof -
  from f obtain hidden queries keys vals ctx where s:
    "xs \<noteq> []" "length xs \<le> context_length m" "\<forall>i<length xs. xs ! i < vocab_size m"
    "hidden = map (\<lambda>i. embed ops m (xs ! i) i) [0..<length xs]"
    "linear ops (dimension m) (query_weight m) (dimension m) None
       (layer_norm ops (dimension m) (ln1_weight m) (ln1_bias m) hidden) = Inr queries"
    "linear ops (dimension m) (key_weight m) (dimension m) None
       (layer_norm ops (dimension m) (ln1_weight m) (ln1_bias m) hidden) = Inr keys"
    "linear ops (dimension m) (value_weight m) (dimension m) None
       (layer_norm ops (dimension m) (ln1_weight m) (ln1_bias m) hidden) = Inr vals"
    "attention_forward ops queries keys vals (length xs) (length xs) (m_heads m)
       (dimension m div m_heads m) 0 (m_attention m) = Inr ctx"
    "finish_forward ops m hidden ctx = Inr out"
    by (rule forward_all_stages)
  have l: "length queries = length xs" "length keys = length xs" "length vals = length xs"
    using s(4-7) by (auto dest!: linear_length)
  have h: "mapR (\<lambda>token. if vocab_size m \<le> take n xs ! token then Inl TokenId
          else Inr (embed ops m (take n xs ! token) token)) [0..<length (take n xs)] = Inr (take n hidden)"
  proof -
    have "\<not> vocab_size m \<le> xs ! j" if "j < n" for j
      using s(3) n that by (simp add: not_le)
    then show ?thesis using n s(4) by (auto simp: mapR_Inr_iff)
  qed
  have "forward_all ops m (take n xs) = finish_forward ops m (take n hidden) (take n ctx)"
    unfolding forward_all_def Let_def h
    using n s(1,2) linear_take[OF s(5), of n] linear_take[OF s(6), of n] linear_take[OF s(7), of n]
      attention_prefix[OF s(8) c n l]
    by (simp add: layer_norm_take min_def)
  then show ?thesis using finish_take[OF s(9)] by simp
qed

lemma length_concat_uniform:
  "(\<And>i. i < length xs \<Longrightarrow> length (xs ! i) = d) \<Longrightarrow> length (concat xs) = length xs * d"
proof (induction xs)
  case (Cons x xs)
  have "length (xs ! i) = d" if "i < length xs" for i
    using Cons.prems[of "Suc i"] that by simp
  then show ?case using Cons.IH Cons.prems[of 0] by simp
qed simp

text \<open>The rows \<open>append_key_value\<close> produces for the positions of a context, and the pass over
  them, which equals the last row of the whole pass.\<close>

definition context_rows ::
  "'f fops \<Rightarrow> 'f model \<Rightarrow> nat list \<Rightarrow> (runtime_error, ('f list \<times> 'f list) list) result" where
  "context_rows ops m xs = mapR (\<lambda>i. append_key_value ops m (xs ! i) i) [0..<length xs]"

lemma forward_cached_eq:
  assumes f: "forward_all ops m xs = Inr out" and c: "ac_causal (m_attention m)"
  obtains rows where "context_rows ops m xs = Inr rows"
    "forward_cached ops m xs (map fst rows) (map snd rows) = Inr (last out)"
proof -
  from f obtain hidden queries keys vals ctx where s:
    "xs \<noteq> []" "length xs \<le> context_length m" "\<forall>i<length xs. xs ! i < vocab_size m"
    "hidden = map (\<lambda>i. embed ops m (xs ! i) i) [0..<length xs]"
    "linear ops (dimension m) (query_weight m) (dimension m) None
       (layer_norm ops (dimension m) (ln1_weight m) (ln1_bias m) hidden) = Inr queries"
    "linear ops (dimension m) (key_weight m) (dimension m) None
       (layer_norm ops (dimension m) (ln1_weight m) (ln1_bias m) hidden) = Inr keys"
    "linear ops (dimension m) (value_weight m) (dimension m) None
       (layer_norm ops (dimension m) (ln1_weight m) (ln1_bias m) hidden) = Inr vals"
    "attention_forward ops queries keys vals (length xs) (length xs) (m_heads m)
       (dimension m div m_heads m) 0 (m_attention m) = Inr ctx"
    "finish_forward ops m hidden ctx = Inr out"
    by (rule forward_all_stages)
  define i where "i = length xs - 1"
  have i: "i < length xs" "Suc i = length xs" using s(1) by (simp_all add: i_def Suc_le_eq)
  have lh: "length hidden = length xs" using s(4) by simp
  have l: "length queries = length xs" "length keys = length xs" "length vals = length xs"
    using s(5-7) lh by (auto dest!: linear_length)
  have lc: "length ctx = length xs" using s(8) unfolding attention_forward_iff by auto
  have lo: "length out = length xs" using forward_all_length[OF f] .
  have rows: "context_rows ops m xs = Inr (zip keys vals)"
    unfolding context_rows_def mapR_Inr_iff
  proof (intro conjI allI impI)
    fix j assume j: "j < length [0..<length xs]"
    have e: "hidden ! j = embed ops m (xs ! j) j" using j s(4) by simp
    show "append_key_value ops m (xs ! ([0..<length xs] ! j)) ([0..<length xs] ! j) = Inr (zip keys vals ! j)"
      using j s(2,3) l lh linear_nth[OF s(6), of j] linear_nth[OF s(7), of j]
        layer_norm_single[of j hidden ops "dimension m" "ln1_weight m" "ln1_bias m"] e
      by (simp add: append_key_value_def Let_def not_le)
  qed (use l in simp)
  have dims: "length (concat keys) = length xs * dimension m" "length (concat vals) = length xs * dimension m"
    using linear_columns[OF s(6)] linear_columns[OF s(7)] l lh
    by (simp_all add: length_concat_uniform)
  have e: "embed ops m (last xs) i = hidden ! i"
    using i s(1,4) by (simp add: last_conv_nth i_def)
  have "attention_forward ops [queries ! i] keys vals 1 (length xs) (m_heads m)
      (dimension m div m_heads m) i (m_attention m) = Inr [ctx ! i]"
    using attention_row[OF s(8) c i(1) l] i l by simp
  moreover have "linear ops (dimension m) (query_weight m) (dimension m) None
      (layer_norm ops (dimension m) (ln1_weight m) (ln1_bias m) [hidden ! i]) = Inr [queries ! i]"
    using linear_nth[OF s(5), of i] layer_norm_single[of i hidden] i lh by simp
  moreover have "finish_forward ops m [hidden ! i] [ctx ! i] = Inr [out ! i]"
    using finish_nth[OF s(9)] i lh lc by simp
  moreover have "length xs - 1 = i" "last xs < vocab_size m"
    using s(1,3) i by (simp_all add: last_conv_nth)
  ultimately have "forward_cached ops m xs keys vals = Inr (out ! i)"
    using s(1,2) dims e by (simp add: forward_cached_def Let_def not_le)
  moreover have "out ! i = last out" using lo s(1) last_conv_nth[of out] by (cases out) (auto simp: i_def)
  ultimately show thesis using that[OF rows] l by simp
qed

end
