(* ===== verification/Worker_Pages.thy ===== *)
theory Worker_Pages
  imports Worker_Attention "HOL-Library.Multiset"
begin

text \<open>
  The paged key/value cache of the worker's runtime (\<open>PagedKvPool\<close> in
  \<open>worker/cpp/inferlab_runtime.cpp\<close>): reference-counted pages of a fixed number of rows, block
  tables of the sessions, a bounded prefix cache with least-recently-used eviction, and
  copy-on-write when a session appends to a page that others share.

  Every operation runs under the pool's mutex, so it is one step here; it returns the pool it
  leaves behind together with the value or the exception, since an exception keeps the changes
  made before it.  The \<open>keys\<close> and \<open>values\<close> of a page, cut every \<open>dimension_\<close> values, are its
  rows.  The vector of free pages is kept with its back first.  Reference counts never exceed the
  number of table entries and prefix entries in memory, so \<open>++references\<close> does not wrap.
\<close>

section \<open>State\<close>

type_synonym 'f row = "'f list \<times> 'f list"

record 'f page =
  pg_rows :: "'f row list"
  pg_used :: nat
  pg_references :: nat
  pg_last_used :: nat
  pg_allocated :: bool

record prefix_entry =
  pe_pages :: "nat list"
  pe_last_used :: nat

record 'f kv_pool =
  kp_dimension :: nat
  kp_page_tokens :: nat
  kp_prefix_capacity :: nat
  kp_clock :: nat
  kp_pages :: "'f page list"
  kp_free :: "nat list"
  kp_prefixes :: "(nat list \<times> prefix_entry) list"
  kp_prefix_hits :: nat
  kp_prefix_misses :: nat
  kp_prefix_tokens_reused :: nat
  kp_copy_on_write_copies :: nat
  kp_evictions :: nat
  kp_allocation_failures :: nat

text \<open>What a session keeps of the pool: its block table, how many of its tokens are cached, and
  its own count of copies.\<close>

record block_table =
  bt_pages :: "nat list"
  bt_cached :: nat
  bt_copies :: nat

definition new_pool ::
  "'f fops \<Rightarrow> nat \<Rightarrow> nat \<Rightarrow> nat \<Rightarrow> nat \<Rightarrow> (runtime_error, 'f kv_pool) result" where
  "new_pool ops dim page_tokens page_count prefix_capacity =
     (if dim = 0 \<or> page_tokens = 0 \<or> page_count = 0 then Inl PoolDimensions
      else and_then (checked_product page_tokens dim) (\<lambda>_.
        Inr \<lparr> kp_dimension = dim, kp_page_tokens = page_tokens,
              kp_prefix_capacity = prefix_capacity, kp_clock = 0,
              kp_pages = replicate page_count
                \<lparr> pg_rows = replicate page_tokens
                    (replicate dim (f_zero ops), replicate dim (f_zero ops)),
                  pg_used = 0, pg_references = 0, pg_last_used = 0, pg_allocated = False \<rparr>,
              kp_free = [0..<page_count], kp_prefixes = [],
              kp_prefix_hits = 0, kp_prefix_misses = 0, kp_prefix_tokens_reused = 0,
              kp_copy_on_write_copies = 0, kp_evictions = 0, kp_allocation_failures = 0 \<rparr>))"

section \<open>References\<close>

definition next_clock :: "'f kv_pool \<Rightarrow> 'f kv_pool" where
  "next_clock p = p \<lparr> kp_clock := inc64 (kp_clock p) \<rparr>"

definition checked_page :: "'f kv_pool \<Rightarrow> nat \<Rightarrow> (runtime_error, 'f page) result" where
  "checked_page p page_id =
     (if length (kp_pages p) \<le> page_id \<or> \<not> pg_allocated (kp_pages p ! page_id)
      then Inl InvalidPage else Inr (kp_pages p ! page_id))"

definition set_page :: "nat \<Rightarrow> 'f page \<Rightarrow> 'f kv_pool \<Rightarrow> 'f kv_pool" where
  "set_page page_id page p = p \<lparr> kp_pages := (kp_pages p)[page_id := page] \<rparr>"

definition retain :: "nat \<Rightarrow> 'f kv_pool \<Rightarrow> 'f kv_pool \<times> (runtime_error, unit) result" where
  "retain page_id p =
     (case checked_page p page_id of
        Inl e \<Rightarrow> (p, Inl e)
      | Inr page \<Rightarrow>
          let p = next_clock p in
          (set_page page_id (page \<lparr> pg_references := pg_references page + 1,
                                    pg_last_used := kp_clock p \<rparr>) p, Inr ()))"

definition release :: "nat \<Rightarrow> 'f kv_pool \<Rightarrow> 'f kv_pool \<times> (runtime_error, unit) result" where
  "release page_id p =
     (case checked_page p page_id of
        Inl e \<Rightarrow> (p, Inl e)
      | Inr page \<Rightarrow>
          if pg_references page = 0 then (p, Inl Underflow)
          else if pg_references page - 1 = 0
          then (set_page page_id (page \<lparr> pg_references := 0, pg_allocated := False, pg_used := 0,
                                         pg_last_used := 0 \<rparr>) p
                  \<lparr> kp_free := page_id # kp_free p \<rparr>, Inr ())
          else (set_page page_id (page \<lparr> pg_references := pg_references page - 1 \<rparr>) p, Inr ()))"

text \<open>A loop over page ids that stops at the first exception.\<close>

fun for_pages ::
  "(nat \<Rightarrow> 'f kv_pool \<Rightarrow> 'f kv_pool \<times> (runtime_error, unit) result) \<Rightarrow> nat list \<Rightarrow> 'f kv_pool \<Rightarrow>
   'f kv_pool \<times> (runtime_error, unit) result" where
  "for_pages f [] p = (p, Inr ())"
| "for_pages f (page_id # ids) p =
     (case f page_id p of (p, Inl e) \<Rightarrow> (p, Inl e) | (p, Inr _) \<Rightarrow> for_pages f ids p)"

text \<open>\<open>std::min_element\<close>: the first entry, in the order of the keys, with the least stamp.\<close>

fun oldest_prefix ::
  "(nat list \<times> prefix_entry) \<Rightarrow> (nat list \<times> prefix_entry) list \<Rightarrow> nat list \<times> prefix_entry" where
  "oldest_prefix best [] = best"
| "oldest_prefix best (x # xs) =
     oldest_prefix (if pe_last_used (snd x) < pe_last_used (snd best) then x else best) xs"

definition evict_oldest :: "'f kv_pool \<Rightarrow> 'f kv_pool \<times> (runtime_error, unit) result" where
  "evict_oldest p =
     (case kp_prefixes p of
        [] \<Rightarrow> (p, Inr ())
      | x # xs \<Rightarrow>
          let oldest = oldest_prefix x xs in
          case for_pages release (pe_pages (snd oldest)) p of
            (p, Inl e) \<Rightarrow> (p, Inl e)
          | (p, Inr _) \<Rightarrow>
              (p \<lparr> kp_prefixes := filter (\<lambda>y. fst y \<noteq> fst oldest) (kp_prefixes p),
                   kp_evictions := inc64 (kp_evictions p) \<rparr>, Inr ()))"

lemma release_keeps_prefixes: "kp_prefixes (fst (release i p)) = kp_prefixes p"
  by (auto simp: release_def set_page_def split: sum.splits)

lemma for_release_keeps_prefixes: "kp_prefixes (fst (for_pages release ids p)) = kp_prefixes p"
proof (induction ids arbitrary: p)
  case (Cons i ids)
  obtain p1 r where r: "release i p = (p1, r)" by (cases "release i p")
  then have "kp_prefixes p1 = kp_prefixes p" using release_keeps_prefixes[of i p] by simp
  then show ?case using Cons.IH[of p1] r by (cases r) simp_all
qed simp

lemma oldest_prefix_in: "oldest_prefix x xs \<in> set (x # xs)"
proof (induction xs arbitrary: x)
  case (Cons y ys)
  then show ?case by (cases "pe_last_used (snd y) < pe_last_used (snd x)") fastforce+
qed simp

lemma evict_shrinks:
  assumes "evict_oldest p = (p', Inr ())" "kp_prefixes p \<noteq> []"
  shows "length (kp_prefixes p') < length (kp_prefixes p)"
proof -
  obtain x xs where p: "kp_prefixes p = x # xs" using assms(2) by (cases "kp_prefixes p") auto
  define z where "z = oldest_prefix x xs"
  have "z \<in> set (kp_prefixes p)" using oldest_prefix_in[of x xs] by (simp add: z_def p)
  moreover have "kp_prefixes p' = filter (\<lambda>y. fst y \<noteq> fst z) (kp_prefixes p)"
    using assms(1) p for_release_keeps_prefixes[of "pe_pages (snd z)" p]
    by (auto simp: evict_oldest_def Let_def z_def split: prod.splits sum.splits)
  ultimately show ?thesis
    using length_filter_less[of z "kp_prefixes p" "\<lambda>y. fst y \<noteq> fst z"] by simp
qed

text \<open>The loop at the head of \<open>allocate_locked\<close>, and the one of \<open>append\<close>, which also stops when
  eviction made the tail page private.\<close>

function evict_until :: "('f kv_pool \<Rightarrow> bool) \<Rightarrow> 'f kv_pool \<Rightarrow> 'f kv_pool \<times> (runtime_error, unit) result" where
  "evict_until enough p =
     (if kp_prefixes p = [] \<or> enough p then (p, Inr ())
      else case evict_oldest p of (p, Inl e) \<Rightarrow> (p, Inl e) | (p, Inr _) \<Rightarrow> evict_until enough p)"
  by pat_completeness auto
termination
  by (relation "measure (\<lambda>(_, p). length (kp_prefixes p))") (auto dest: evict_shrinks[OF sym])

declare evict_until.simps [simp del]

definition allocate :: "'f kv_pool \<Rightarrow> 'f kv_pool \<times> (runtime_error, nat) result" where
  "allocate p =
     (case evict_until (\<lambda>p. kp_free p \<noteq> []) p of
        (p, Inl e) \<Rightarrow> (p, Inl e)
      | (p, Inr _) \<Rightarrow>
          case kp_free p of
            [] \<Rightarrow> (p \<lparr> kp_allocation_failures := inc64 (kp_allocation_failures p) \<rparr>,
                   Inl CapacityExhausted)
          | page_id # rest_free \<Rightarrow>
              let p = p \<lparr> kp_free := rest_free \<rparr>; page = kp_pages p ! page_id in
              if pg_allocated page \<or> pg_references page \<noteq> 0 then (p, Inl LiveFreePage)
              else let p = next_clock p in
                   (set_page page_id (page \<lparr> pg_allocated := True, pg_used := 0,
                                             pg_references := 1, pg_last_used := kp_clock p \<rparr>) p,
                    Inr page_id))"

section \<open>Operations\<close>

text \<open>\<open>acquire_longest_prefix\<close>: the scan keeps a candidate unless a later one is longer.\<close>

fun longest_prefix ::
  "nat list \<Rightarrow> (nat list \<times> prefix_entry) option \<Rightarrow> (nat list \<times> prefix_entry) list \<Rightarrow>
   (nat list \<times> prefix_entry) option" where
  "longest_prefix tokens selected [] = selected"
| "longest_prefix tokens selected (x # xs) =
     (if length tokens < length (fst x) \<or>
         (case selected of None \<Rightarrow> False | Some s \<Rightarrow> length (fst x) \<le> length (fst s))
      then longest_prefix tokens selected xs
      else if take (length (fst x)) tokens = fst x then longest_prefix tokens (Some x) xs
      else longest_prefix tokens selected xs)"

definition update_prefix ::
  "nat list \<Rightarrow> prefix_entry \<Rightarrow> (nat list \<times> prefix_entry) list \<Rightarrow> (nat list \<times> prefix_entry) list" where
  "update_prefix k e = map (\<lambda>y. if fst y = k then (k, e) else y)"

definition acquire_longest_prefix ::
  "nat list \<Rightarrow> 'f kv_pool \<Rightarrow> 'f kv_pool \<times> (runtime_error, nat list \<times> nat \<times> bool) result" where
  "acquire_longest_prefix tokens p =
     (case longest_prefix tokens None (kp_prefixes p) of
        None \<Rightarrow> (p \<lparr> kp_prefix_misses := inc64 (kp_prefix_misses p) \<rparr>, Inr ([], 0, False))
      | Some (k, e) \<Rightarrow>
          case for_pages retain (pe_pages e) p of
            (p, Inl err) \<Rightarrow> (p, Inl err)
          | (p, Inr _) \<Rightarrow>
              let p = next_clock p in
              (p \<lparr> kp_prefixes := update_prefix k (e \<lparr> pe_last_used := kp_clock p \<rparr>) (kp_prefixes p),
                   kp_prefix_hits := inc64 (kp_prefix_hits p),
                   kp_prefix_tokens_reused := wrap64 (kp_prefix_tokens_reused p + length k) \<rparr>,
               Inr (pe_pages e, length k, True)))"

definition append_page ::
  "'f row \<Rightarrow> nat \<Rightarrow> nat \<Rightarrow> block_table \<Rightarrow> 'f kv_pool \<Rightarrow>
   ('f kv_pool \<times> block_table) \<times> (runtime_error, unit) result" where
  "append_page row slot page_id t p =
     (case checked_page p page_id of
        Inl e \<Rightarrow> ((p, t), Inl e)
      | Inr page \<Rightarrow>
          if pg_references page \<noteq> 1 \<or> pg_used page \<noteq> slot then ((p, t), Inl NotWritable)
          else let p = next_clock p in
               ((set_page page_id (page \<lparr> pg_rows := (pg_rows page)[slot := row],
                                          pg_used := slot + 1, pg_last_used := kp_clock p \<rparr>) p,
                 t \<lparr> bt_cached := bt_cached t + 1 \<rparr>), Inr ()))"

definition append_row ::
  "'f row \<Rightarrow> block_table \<Rightarrow> 'f kv_pool \<Rightarrow>
   ('f kv_pool \<times> block_table) \<times> (runtime_error, unit) result" where
  "append_row row t p =
     (if length (fst row) \<noteq> kp_dimension p \<or> length (snd row) \<noteq> kp_dimension p
      then ((p, t), Inl RowDimension)
      else
        let slot = bt_cached t mod kp_page_tokens p in
        if slot = 0 then
          (case allocate p of
             (p, Inl e) \<Rightarrow> ((p, t), Inl e)
           | (p, Inr page_id) \<Rightarrow> append_page row slot page_id (t \<lparr> bt_pages := bt_pages t @ [page_id] \<rparr>) p)
        else if bt_pages t = [] then ((p, t), Inl EmptyTable)
        else
          let page_id = last (bt_pages t) in
          case checked_page p page_id of
            Inl e \<Rightarrow> ((p, t), Inl e)
          | Inr page \<Rightarrow>
              if pg_used page \<noteq> slot then ((p, t), Inl TailInconsistent)
              else
                case evict_until (\<lambda>p. kp_free p \<noteq> [] \<or> pg_references (kp_pages p ! page_id) \<le> 1) p of
                  (p, Inl e) \<Rightarrow> ((p, t), Inl e)
                | (p, Inr _) \<Rightarrow>
                    if 1 < pg_references (kp_pages p ! page_id) then
                      (case allocate p of
                         (p, Inl e) \<Rightarrow> ((p, t), Inl e)
                       | (p, Inr replacement) \<Rightarrow>
                           case checked_page p replacement of
                             Inl e \<Rightarrow> ((p, t), Inl e)
                           | Inr copy \<Rightarrow>
                               let page = kp_pages p ! page_id;
                                   p = set_page replacement
                                         (copy \<lparr> pg_rows := take slot (pg_rows page) @ drop slot (pg_rows copy),
                                                 pg_used := slot \<rparr>) p;
                                   t = t \<lparr> bt_pages := butlast (bt_pages t) @ [replacement] \<rparr>
                               in case release page_id p of
                                    (p, Inl e) \<Rightarrow> ((p, t), Inl e)
                                  | (p, Inr _) \<Rightarrow>
                                      append_page row slot replacement
                                        (t \<lparr> bt_copies := inc64 (bt_copies t) \<rparr>)
                                        (p \<lparr> kp_copy_on_write_copies := inc64 (kp_copy_on_write_copies p) \<rparr>))
                    else append_page row slot page_id t p)"

definition pages_for :: "nat \<Rightarrow> nat \<Rightarrow> nat" where
  "pages_for page_tokens tokens = (tokens + page_tokens - 1) div page_tokens"

definition materialize ::
  "nat list \<Rightarrow> nat \<Rightarrow> 'f kv_pool \<Rightarrow> (runtime_error, 'f row list) result" where
  "materialize block_table cached_tokens p =
     (if length block_table \<noteq> pages_for (kp_page_tokens p) cached_tokens then Inl TableLength
      else mapR (\<lambda>token.
        and_then (checked_page p (block_table ! (token div kp_page_tokens p))) (\<lambda>page.
        let slot = token mod kp_page_tokens p in
        if pg_used page \<le> slot then Inl PastValidRows else Inr (pg_rows page ! slot)))
        [0..<cached_tokens])"

text \<open>\<open>std::map\<close> keeps the prefixes in the lexicographic order of their tokens.\<close>

fun vector_less :: "nat list \<Rightarrow> nat list \<Rightarrow> bool" where
  "vector_less [] ys = (ys \<noteq> [])"
| "vector_less (x # xs) [] = False"
| "vector_less (x # xs) (y # ys) = (x < y \<or> x = y \<and> vector_less xs ys)"

fun emplace_prefix ::
  "nat list \<Rightarrow> prefix_entry \<Rightarrow> (nat list \<times> prefix_entry) list \<Rightarrow> (nat list \<times> prefix_entry) list" where
  "emplace_prefix k e [] = [(k, e)]"
| "emplace_prefix k e (x # xs) =
     (if vector_less k (fst x) then (k, e) # x # xs else x # emplace_prefix k e xs)"

definition publish_prefix ::
  "nat list \<Rightarrow> nat list \<Rightarrow> nat \<Rightarrow> 'f kv_pool \<Rightarrow> 'f kv_pool \<times> (runtime_error, unit) result" where
  "publish_prefix tokens block_table cached_tokens p =
     (if kp_prefix_capacity p = 0 \<or> tokens = [] then (p, Inr ())
      else if cached_tokens < length tokens then (p, Inl IncompletePrefix)
      else
        let required_pages = pages_for (kp_page_tokens p) (length tokens) in
        if length block_table < required_pages then (p, Inl IncompleteTable)
        else
          let pages = take required_pages block_table in
          case map_of (kp_prefixes p) tokens of
            Some existing \<Rightarrow>
              (case for_pages retain pages p of
                 (p, Inl e) \<Rightarrow> (p, Inl e)
               | (p, Inr _) \<Rightarrow>
                   case for_pages release (pe_pages existing) p of
                     (p, Inl e) \<Rightarrow> (p, Inl e)
                   | (p, Inr _) \<Rightarrow>
                       let p = next_clock p in
                       (p \<lparr> kp_prefixes := update_prefix tokens
                              \<lparr> pe_pages = pages, pe_last_used = kp_clock p \<rparr> (kp_prefixes p) \<rparr>, Inr ()))
          | None \<Rightarrow>
              case evict_until (\<lambda>p. length (kp_prefixes p) < kp_prefix_capacity p) p of
                (p, Inl e) \<Rightarrow> (p, Inl e)
              | (p, Inr _) \<Rightarrow>
                  case for_pages retain pages p of
                    (p, Inl e) \<Rightarrow> (p, Inl e)
                  | (p, Inr _) \<Rightarrow>
                      let p = next_clock p in
                      (p \<lparr> kp_prefixes := emplace_prefix tokens
                             \<lparr> pe_pages = pages, pe_last_used = kp_clock p \<rparr> (kp_prefixes p) \<rparr>, Inr ()))"

text \<open>An exception in the middle leaves the table as it was.\<close>

definition release_table ::
  "block_table \<Rightarrow> 'f kv_pool \<Rightarrow> ('f kv_pool \<times> block_table) \<times> (runtime_error, unit) result" where
  "release_table t p =
     (case for_pages release (bt_pages t) p of
        (p, Inl e) \<Rightarrow> ((p, t), Inl e)
      | (p, Inr _) \<Rightarrow> ((p, t \<lparr> bt_pages := [] \<rparr>), Inr ()))"

definition shared_pages :: "nat list \<Rightarrow> 'f kv_pool \<Rightarrow> (runtime_error, nat) result" where
  "shared_pages block_table p =
     foldR (\<lambda>page_id shared. and_then (checked_page p page_id) (\<lambda>page.
       Inr (if 1 < pg_references page then shared + 1 else shared))) block_table 0"

record paged_stats =
  ps_allocated_pages :: nat
  ps_free_pages :: nat
  ps_used_token_slots :: nat
  ps_allocated_token_slots :: nat
  ps_live_references :: nat
  ps_maximum_refcount :: nat
  ps_shared_pages :: nat
  ps_physical_used_bytes :: nat
  ps_logical_referenced_bytes :: nat
  ps_internal_fragmentation_bytes :: nat
  ps_bytes_saved_by_sharing :: nat
  ps_prefix_entries :: nat

definition pool_stats :: "'f kv_pool \<Rightarrow> paged_stats" where
  "pool_stats p =
     (let row_bytes = kp_dimension p * 2 * 4;
          live = filter pg_allocated (kp_pages p);
          allocated = length live;
          used = sum_list (map pg_used live);
          physical = sum_list (map (\<lambda>g. pg_used g * row_bytes) live);
          logical = sum_list (map (\<lambda>g. pg_used g * row_bytes * pg_references g) live)
      in \<lparr> ps_allocated_pages = allocated, ps_free_pages = length (kp_pages p) - allocated,
           ps_used_token_slots = used, ps_allocated_token_slots = allocated * kp_page_tokens p,
           ps_live_references = sum_list (map pg_references live),
           ps_maximum_refcount = fold (\<lambda>g m. max m (pg_references g)) live 0,
           ps_shared_pages = length (filter (\<lambda>g. 1 < pg_references g) live),
           ps_physical_used_bytes = physical, ps_logical_referenced_bytes = logical,
           ps_internal_fragmentation_bytes = (allocated * kp_page_tokens p - used) * row_bytes,
           ps_bytes_saved_by_sharing = logical - physical,
           ps_prefix_entries = length (kp_prefixes p) \<rparr>)"

end
