(* ===== verification/Worker_Page_Safety.thy ===== *)
theory Worker_Page_Safety
  imports Worker_Pages
begin

text \<open>
  The invariant of the paged cache and what every operation keeps: reference counts are exactly
  the references held by block tables and prefix entries, the free list is exactly the pages with
  none, and the rows another holder sees are never changed.
\<close>

section \<open>The invariant\<close>

text \<open>\<open>R\<close> is the multiset of all references to pages.\<close>

definition refs_exact :: "nat multiset \<Rightarrow> 'f kv_pool \<Rightarrow> bool" where
  "refs_exact R p \<longleftrightarrow>
     (\<forall>i<length (kp_pages p).
        pg_references (kp_pages p ! i) = count R i \<and>
        pg_allocated (kp_pages p ! i) = (0 < count R i) \<and>
        length (pg_rows (kp_pages p ! i)) = kp_page_tokens p) \<and>
     (\<forall>i. i \<in># R \<longrightarrow> i < length (kp_pages p)) \<and>
     distinct (kp_free p) \<and>
     (\<forall>i. i \<in> set (kp_free p) \<longleftrightarrow> i < length (kp_pages p) \<and> count R i = 0) \<and>
     0 < kp_page_tokens p"

definition prefix_refs :: "'f kv_pool \<Rightarrow> nat multiset" where
  "prefix_refs p = mset (concat (map (\<lambda>x. pe_pages (snd x)) (kp_prefixes p)))"

definition static :: "'f kv_pool \<Rightarrow> 'f kv_pool \<Rightarrow> bool" where
  "static p p' \<longleftrightarrow>
     kp_dimension p' = kp_dimension p \<and> kp_page_tokens p' = kp_page_tokens p \<and>
     kp_prefix_capacity p' = kp_prefix_capacity p \<and> length (kp_pages p') = length (kp_pages p)"

text \<open>The pages of \<open>R\<close> hold the same rows.\<close>

definition frame :: "nat multiset \<Rightarrow> 'f kv_pool \<Rightarrow> 'f kv_pool \<Rightarrow> bool" where
  "frame R p p' \<longleftrightarrow> static p p' \<and>
     (\<forall>i. i \<in># R \<longrightarrow> pg_rows (kp_pages p' ! i) = pg_rows (kp_pages p ! i) \<and>
                    pg_used (kp_pages p' ! i) = pg_used (kp_pages p ! i))"

lemma static_refl [simp]: "static p p" by (simp add: static_def)

lemma frame_refl [simp]: "frame R p p" by (simp add: frame_def)

lemma frame_trans: "frame R p q \<Longrightarrow> frame R' q r \<Longrightarrow> set_mset R' \<subseteq> set_mset R \<Longrightarrow> frame R' p r"
  by (auto simp: frame_def static_def)

lemma frame_mono: "frame R p q \<Longrightarrow> set_mset R' \<subseteq> set_mset R \<Longrightarrow> frame R' p q"
  by (auto simp: frame_def)

section \<open>References are exact\<close>

lemma retain_exact:
  assumes "refs_exact R p" "i \<in># R"
  obtains p' where "retain i p = (p', Inr ())" "refs_exact (add_mset i R) p'" "frame R p p'"
    "kp_prefixes p' = kp_prefixes p"
proof -
  have i: "i < length (kp_pages p)" "pg_allocated (kp_pages p ! i)" "0 < count R i"
    using assms by (auto simp: refs_exact_def)
  define p' where "p' = fst (retain i p)"
  have r: "retain i p = (p', Inr ())"
    using i by (simp add: p'_def retain_def checked_page_def Let_def)
  have k: "kp_pages p' = (kp_pages p)[i := (kp_pages p ! i) \<lparr> pg_references := pg_references (kp_pages p ! i) + 1,
      pg_last_used := inc64 (kp_clock p) \<rparr>]" "kp_free p' = kp_free p" "kp_page_tokens p' = kp_page_tokens p"
    "kp_dimension p' = kp_dimension p" "kp_prefix_capacity p' = kp_prefix_capacity p" "kp_prefixes p' = kp_prefixes p"
    using i by (simp_all add: p'_def retain_def checked_page_def Let_def set_page_def next_clock_def)
  have "refs_exact (add_mset i R) p'"
    using assms i unfolding refs_exact_def k by (auto simp: nth_list_update)
  moreover have "frame R p p'"
    using i by (auto simp: frame_def static_def k nth_list_update)
  ultimately show thesis using r k that by blast
qed

lemma release_exact:
  assumes "refs_exact (add_mset i R) p"
  obtains p' where "release i p = (p', Inr ())" "refs_exact R p'" "frame R p p'"
    "kp_prefixes p' = kp_prefixes p"
proof -
  have i: "i < length (kp_pages p)" "pg_allocated (kp_pages p ! i)"
    "pg_references (kp_pages p ! i) = Suc (count R i)" "i \<notin> set (kp_free p)"
    using assms by (auto simp: refs_exact_def)
  define p' where "p' = fst (release i p)"
  have r: "release i p = (p', Inr ())"
    using i by (simp add: p'_def release_def checked_page_def Let_def)
  have k: "kp_page_tokens p' = kp_page_tokens p" "kp_dimension p' = kp_dimension p"
    "kp_prefix_capacity p' = kp_prefix_capacity p" "kp_prefixes p' = kp_prefixes p"
    using i by (simp_all add: p'_def release_def checked_page_def Let_def set_page_def)
  show thesis
  proof (cases "count R i = 0")
    case True
    then have u: "kp_pages p' = (kp_pages p)[i := (kp_pages p ! i) \<lparr> pg_references := 0, pg_allocated := False,
        pg_used := 0, pg_last_used := 0 \<rparr>]" "kp_free p' = i # kp_free p"
      using i by (simp_all add: p'_def release_def checked_page_def Let_def set_page_def)
    have "refs_exact R p'"
      using assms i True unfolding refs_exact_def k u by (auto simp: nth_list_update not_in_iff[symmetric])
    moreover have "frame R p p'"
      using i True by (auto simp: frame_def static_def k u nth_list_update count_eq_zero_iff)
    ultimately show thesis using r k that by blast
  next
    case False
    then obtain n where n: "count R i = Suc n" by (cases "count R i") auto
    then have in_R: "i \<in># R" by (metis count_greater_zero_iff zero_less_Suc)
    from n have u: "kp_pages p' = (kp_pages p)[i := (kp_pages p ! i) \<lparr> pg_references := count R i \<rparr>]"
      "kp_free p' = kp_free p"
      using i by (simp_all add: p'_def release_def checked_page_def Let_def set_page_def)
    have "refs_exact R p'"
      using assms i n in_R unfolding refs_exact_def k u by (auto simp: nth_list_update)
    moreover have "frame R p p'"
      using i by (auto simp: frame_def static_def k u nth_list_update)
    ultimately show thesis using r k that by blast
  qed
qed

lemma retain_all_exact:
  assumes "refs_exact R p" "set ids \<subseteq> set_mset R"
  obtains p' where "for_pages retain ids p = (p', Inr ())" "refs_exact (mset ids + R) p'" "frame R p p'"
    "kp_prefixes p' = kp_prefixes p"
  using assms
proof (induction ids arbitrary: p R thesis)
  case (Cons i ids)
  obtain p1 where p1: "retain i p = (p1, Inr ())" "refs_exact (add_mset i R) p1" "frame R p p1"
    "kp_prefixes p1 = kp_prefixes p"
    using retain_exact[OF Cons.prems(2), of i] Cons.prems(3) by auto
  obtain p2 where p2: "for_pages retain ids p1 = (p2, Inr ())" "refs_exact (mset ids + add_mset i R) p2"
    "frame (add_mset i R) p1 p2" "kp_prefixes p2 = kp_prefixes p1"
    using Cons.IH[OF _ p1(2)] Cons.prems(3) by auto
  show ?case
  proof (rule Cons.prems(1))
    show "for_pages retain (i # ids) p = (p2, Inr ())" using p1 p2 by simp
    show "refs_exact (mset (i # ids) + R) p2" using p2(2) by simp
    show "frame R p p2" using frame_trans[OF p1(3), of R p2] frame_mono[OF p2(3), of R] by auto
    show "kp_prefixes p2 = kp_prefixes p" using p1 p2 by simp
  qed
qed simp

lemma release_all_exact:
  assumes "refs_exact (mset ids + R) p"
  obtains p' where "for_pages release ids p = (p', Inr ())" "refs_exact R p'" "frame R p p'"
    "kp_prefixes p' = kp_prefixes p"
  using assms
proof (induction ids arbitrary: p thesis)
  case (Cons i ids)
  obtain p1 where p1: "release i p = (p1, Inr ())" "refs_exact (mset ids + R) p1"
    "frame (mset ids + R) p p1" "kp_prefixes p1 = kp_prefixes p"
    using release_exact[of i "mset ids + R" p] Cons.prems(2) by auto
  obtain p2 where p2: "for_pages release ids p1 = (p2, Inr ())" "refs_exact R p2"
    "frame R p1 p2" "kp_prefixes p2 = kp_prefixes p1"
    using Cons.IH[OF _ p1(2)] by auto
  show ?case
  proof (rule Cons.prems(1))
    show "for_pages release (i # ids) p = (p2, Inr ())" using p1 p2 by simp
    show "frame R p p2" using frame_trans[OF p1(3) p2(3)] by auto
  qed (use p1 p2 in simp_all)
qed simp

section \<open>Eviction and allocation\<close>

text \<open>Holders of pages: the sessions' references are \<open>S\<close>, and the entries of the prefix cache
  hold the rest.  A holder of \<open>n\<close> rows has the pages for them, filled that far.\<close>

definition holds :: "'f kv_pool \<Rightarrow> nat list \<Rightarrow> nat \<Rightarrow> bool" where
  "holds p pages n \<longleftrightarrow>
     length pages = pages_for (kp_page_tokens p) n \<and>
     (\<forall>t<n. t mod kp_page_tokens p < pg_used (kp_pages p ! (pages ! (t div kp_page_tokens p))))"

definition view :: "'f kv_pool \<Rightarrow> nat list \<Rightarrow> nat \<Rightarrow> 'f row list" where
  "view p pages n =
     map (\<lambda>t. pg_rows (kp_pages p ! (pages ! (t div kp_page_tokens p))) ! (t mod kp_page_tokens p)) [0..<n]"

definition pool_ok :: "nat multiset \<Rightarrow> 'f kv_pool \<Rightarrow> bool" where
  "pool_ok S p \<longleftrightarrow> refs_exact (S + prefix_refs p) p \<and> distinct (map fst (kp_prefixes p)) \<and>
     (\<forall>(k, e) \<in> set (kp_prefixes p). holds p (pe_pages e) (length k))"

text \<open>\<open>p'\<close> keeps what the remaining prefix entries and the references \<open>S\<close> see in \<open>p\<close>.\<close>

definition keeps :: "nat multiset \<Rightarrow> 'f kv_pool \<Rightarrow> 'f kv_pool \<Rightarrow> bool" where
  "keeps S p p' \<longleftrightarrow> frame (S + prefix_refs p') p p' \<and> set (kp_prefixes p') \<subseteq> set (kp_prefixes p)"

lemma prefix_refs_in: "x \<in> set (kp_prefixes p) \<Longrightarrow> i \<in> set (pe_pages (snd x)) \<Longrightarrow> i \<in># prefix_refs p"
  by (auto simp: prefix_refs_def)

lemma prefix_refs_mono: "set (kp_prefixes p') \<subseteq> set (kp_prefixes p) \<Longrightarrow> set_mset (prefix_refs p') \<subseteq> set_mset (prefix_refs p)"
  by (auto simp: prefix_refs_def)

lemma keeps_refl [simp]: "keeps S p p" by (simp add: keeps_def)

lemma keeps_trans: "keeps S p q \<Longrightarrow> keeps S q r \<Longrightarrow> keeps S p r"
  using prefix_refs_mono[of r q] by (auto simp: keeps_def intro!: frame_trans[of "S + prefix_refs q" p q])

lemma pages_div:
  assumes "t < n" "0 < c"
  shows "t div c < pages_for c n"
proof -
  have "(t + c) div c \<le> (n + c - 1) div c" using assms by (intro div_le_mono) simp
  moreover have "(t + c) div c = Suc (t div c)" using assms by (simp add: div_add_self2)
  ultimately show ?thesis by (simp add: pages_for_def)
qed

lemma holds_frame:
  assumes "holds p pages n" "frame R p p'" "set pages \<subseteq> set_mset R" "0 < kp_page_tokens p"
  shows "holds p' pages n" "view p' pages n = view p pages n"
proof -
  have "pages ! (t div kp_page_tokens p) \<in># R" if "t < n" for t
    using assms(1,3,4) pages_div[OF that assms(4)] unfolding holds_def by (metis nth_mem subsetD)
  then show "holds p' pages n" "view p' pages n = view p pages n"
    using assms(1,2) by (auto simp: holds_def view_def frame_def static_def)
qed

lemma filter_distinct_fst:
  "distinct (map fst xs) \<Longrightarrow> x \<in> set xs \<Longrightarrow> filter (\<lambda>y. fst y \<noteq> fst x) xs = remove1 x xs"
proof (induction xs)
  case (Cons y ys)
  show ?case
  proof (cases "x = y")
    case True
    then have "fst z \<noteq> fst x" if "z \<in> set ys" for z
      using Cons.prems that by (metis distinct.simps(2) image_eqI list.map(2) list.set_map)
    then show ?thesis using True by (simp add: filter_id_conv)
  next
    case False
    then have "x \<in> set ys" using Cons.prems by simp
    then have "fst y \<noteq> fst x" using Cons.prems by (metis distinct.simps(2) image_eqI list.map(2) list.set_map)
    then show ?thesis using Cons False by simp
  qed
qed simp

lemma mset_concat_remove1:
  "z \<in> set xs \<Longrightarrow> mset (concat (map f xs)) = mset (f z) + mset (concat (map f (remove1 z xs)))"
  by (induction xs) (auto simp: ac_simps)

lemma evict_ok:
  assumes "pool_ok S p" "kp_prefixes p \<noteq> []"
  obtains p' where "evict_oldest p = (p', Inr ())" "pool_ok S p'" "keeps S p p'"
proof -
  obtain x xs where px: "kp_prefixes p = x # xs" using assms(2) by (cases "kp_prefixes p") auto
  define z where "z = oldest_prefix x xs"
  have z: "z \<in> set (kp_prefixes p)" using oldest_prefix_in[of x xs] by (simp add: z_def px)
  define ys where "ys = filter (\<lambda>y. fst y \<noteq> fst z) (kp_prefixes p)"
  have ys: "ys = remove1 z (kp_prefixes p)"
    using filter_distinct_fst[OF _ z] assms(1) by (simp add: ys_def pool_ok_def)
  have split: "prefix_refs p = mset (pe_pages (snd z)) + mset (concat (map (\<lambda>x. pe_pages (snd x)) ys))"
    unfolding prefix_refs_def ys by (rule mset_concat_remove1[OF z])
  define R where "R = S + mset (concat (map (\<lambda>x. pe_pages (snd x)) ys))"
  have "refs_exact (mset (pe_pages (snd z)) + R) p"
    using assms(1) split by (simp add: pool_ok_def R_def ac_simps)
  then obtain p1 where p1: "for_pages release (pe_pages (snd z)) p = (p1, Inr ())" "refs_exact R p1"
    "frame R p p1" "kp_prefixes p1 = kp_prefixes p"
    by (rule release_all_exact)
  define p' where "p' = p1 \<lparr> kp_prefixes := ys, kp_evictions := inc64 (kp_evictions p1) \<rparr>"
  have e: "evict_oldest p = (p', Inr ())"
    using p1 px by (simp add: evict_oldest_def Let_def z_def [symmetric] p'_def ys_def)
  have R: "S + prefix_refs p' = R" by (simp add: R_def prefix_refs_def p'_def)
  have f: "frame R p p'" using p1(3) by (simp add: frame_def static_def p'_def)
  have sub: "set ys \<subseteq> set (kp_prefixes p)" by (auto simp: ys_def)
  have k: "keeps S p p'" using f R sub by (simp add: keeps_def p'_def)
  have "refs_exact (S + prefix_refs p') p'"
    using p1(2) R by (simp add: refs_exact_def p'_def)
  moreover have "holds p' (pe_pages e) (length k)" if "(k, e) \<in> set ys" for k e
  proof (rule holds_frame(1)[OF _ f])
    show "holds p (pe_pages e) (length k)" using that sub assms(1) by (auto simp: pool_ok_def)
    show "set (pe_pages e) \<subseteq> set_mset R" using that by (auto simp: R_def)
    show "0 < kp_page_tokens p" using assms(1) by (simp add: pool_ok_def refs_exact_def)
  qed
  moreover have "distinct (map fst ys)"
    using assms(1) unfolding ys_def by (simp add: pool_ok_def distinct_map_filter)
  ultimately have "pool_ok S p'" by (auto simp: pool_ok_def p'_def)
  then show thesis using e k that by blast
qed

lemma evict_until_ok:
  assumes "pool_ok S p"
  obtains p' where "evict_until enough p = (p', Inr ())" "pool_ok S p'" "keeps S p p'"
    "kp_prefixes p' = [] \<or> enough p'"
  using assms
proof (induction enough p arbitrary: thesis rule: evict_until.induct)
  case (1 enough p)
  show ?case
  proof (cases "kp_prefixes p = [] \<or> enough p")
    case True
    then show ?thesis using 1(2)[of p] 1(3) by (simp add: evict_until.simps)
  next
    case False
    obtain p1 where p1: "evict_oldest p = (p1, Inr ())" "pool_ok S p1" "keeps S p p1"
      using evict_ok[OF 1(3)] False by blast
    obtain p2 where p2: "evict_until enough p1 = (p2, Inr ())" "pool_ok S p2" "keeps S p1 p2"
      "kp_prefixes p2 = [] \<or> enough p2"
      using 1(1)[OF False p1(1)[symmetric] refl _ p1(2)] by blast
    show ?thesis
      by (rule 1(2)[of p2])
         (use False p1 p2 keeps_trans in \<open>auto simp: evict_until.simps[of enough p]\<close>)
  qed
qed


lemma refs_exact_fields:
  assumes "refs_exact R p" "kp_pages p' = kp_pages p" "kp_free p' = kp_free p"
    "kp_page_tokens p' = kp_page_tokens p"
  shows "refs_exact R p'"
  using assms by (simp add: refs_exact_def)

lemma pool_ok_fields:
  assumes "pool_ok S p" "kp_pages p' = kp_pages p" "kp_free p' = kp_free p"
    "kp_page_tokens p' = kp_page_tokens p" "kp_prefixes p' = kp_prefixes p"
  shows "pool_ok S p'"
  using assms refs_exact_fields[OF _ assms(2,3,4)]
  by (auto simp: pool_ok_def prefix_refs_def holds_def)

text \<open>A pool whose kept pages and prefixes are those of a correct one is correct again.\<close>

lemma pool_ok_frame:
  assumes "pool_ok S p" "refs_exact (S' + prefix_refs p) p'" "frame (prefix_refs p) p p'"
    "kp_prefixes p' = kp_prefixes p"
  shows "pool_ok S' p'"
proof -
  have "holds p' (pe_pages e) (length k)" if "(k, e) \<in> set (kp_prefixes p)" for k e
  proof (rule holds_frame(1)[OF _ assms(3)])
    show "holds p (pe_pages e) (length k)" "0 < kp_page_tokens p"
      using that assms(1) by (auto simp: pool_ok_def refs_exact_def)
    show "set (pe_pages e) \<subseteq> set_mset (prefix_refs p)" using that by (auto simp: prefix_refs_def)
  qed
  moreover have "prefix_refs p' = prefix_refs p" using assms(4) by (simp add: prefix_refs_def)
  ultimately show ?thesis using assms by (auto simp: pool_ok_def)
qed

lemma keeps_same_prefixes:
  "frame (S + prefix_refs p) p p' \<Longrightarrow> kp_prefixes p' = kp_prefixes p \<Longrightarrow> keeps S p p'"
  by (simp add: keeps_def prefix_refs_def)

lemma allocate_ok:
  assumes "pool_ok S p"
  obtains (full) p' where "allocate p = (p', Inl CapacityExhausted)" "pool_ok S p'" "keeps S p p'"
      "kp_prefixes p' = []" "kp_free p' = []"
  | (fresh) p' i where "allocate p = (p', Inr i)" "pool_ok (add_mset i S) p'" "keeps S p p'"
      "i \<notin># S + prefix_refs p'" "pg_used (kp_pages p' ! i) = 0"
proof -
  obtain q where q: "evict_until (\<lambda>p. kp_free p \<noteq> []) p = (q, Inr ())" "pool_ok S q" "keeps S p q"
    "kp_prefixes q = [] \<or> kp_free q \<noteq> []"
    using evict_until_ok[OF assms, of "\<lambda>p. kp_free p \<noteq> []"] by blast
  show thesis
  proof (cases "kp_free q")
    case Nil
    define p' where "p' = q \<lparr> kp_allocation_failures := inc64 (kp_allocation_failures q) \<rparr>"
    have "allocate p = (p', Inl CapacityExhausted)" using q Nil by (simp add: allocate_def p'_def)
    moreover have "pool_ok S p'" by (rule pool_ok_fields[OF q(2)]) (simp_all add: p'_def)
    moreover have "keeps S q p'"
      by (rule keeps_same_prefixes) (simp_all add: frame_def static_def p'_def)
    ultimately show thesis using full[of p'] q Nil keeps_trans[OF q(3), of p'] by (simp add: p'_def)
  next
    case (Cons i fs)
    define R where "R = S + prefix_refs q"
    have x: "refs_exact R q" using q(2) by (simp add: pool_ok_def R_def)
    have "i \<in> set (kp_free q)" using Cons by simp
    then have z: "i < length (kp_pages q)" "count R i = 0" using x unfolding refs_exact_def by blast+
    then have i: "i < length (kp_pages q)" "count R i = 0" "\<not> pg_allocated (kp_pages q ! i)"
      "pg_references (kp_pages q ! i) = 0" "i \<notin> set fs"
      using x Cons unfolding refs_exact_def by (metis less_irrefl, metis, metis less_irrefl, metis, metis distinct.simps(2))
    then have notin: "i \<notin># R" by (simp add: not_in_iff)
    define p' where "p' = fst (allocate p)"
    have a: "allocate p = (p', Inr i)" using q Cons i by (simp add: p'_def allocate_def Let_def)
    have k: "kp_pages p' = (kp_pages q)[i := (kp_pages q ! i) \<lparr> pg_allocated := True, pg_used := 0,
        pg_references := 1, pg_last_used := inc64 (kp_clock q) \<rparr>]" "kp_free p' = fs"
      "kp_page_tokens p' = kp_page_tokens q" "kp_dimension p' = kp_dimension q"
      "kp_prefix_capacity p' = kp_prefix_capacity q" "kp_prefixes p' = kp_prefixes q"
      using q Cons i by (simp_all add: p'_def allocate_def Let_def set_page_def next_clock_def)
    have "refs_exact (add_mset i R) p'"
      using x i notin Cons unfolding refs_exact_def k by (auto simp: nth_list_update)
    moreover have f: "frame R q p'" using notin i(1) by (auto simp: frame_def static_def k nth_list_update)
    ultimately have "pool_ok (add_mset i S) p'"
      using pool_ok_frame[OF q(2), of "add_mset i S" p'] k(6) frame_mono[OF f] by (simp add: R_def)
    moreover have "keeps S q p'" using keeps_same_prefixes[of S q p'] f k(6) by (simp add: R_def)
    moreover have "i \<notin># S + prefix_refs p'" using notin k(6) by (simp add: R_def prefix_refs_def)
    ultimately show thesis using fresh[OF a] keeps_trans[OF q(3), of p'] i by (simp add: k)
  qed
qed

section \<open>Appending a row\<close>

lemma pages_for_Suc: "0 < c \<Longrightarrow> pages_for c (Suc n) = Suc (n div c)"
  by (simp add: pages_for_def div_add_self2)

lemma pages_for_full:
  assumes "n mod c = 0" "0 < c"
  shows "pages_for c n = n div c"
proof -
  obtain k where n: "n = c * k" using assms by (metis mod_0_imp_dvd dvdE)
  have "(c * k + (c - 1)) div c = k" using assms(2) by (subst div_mult_self4) simp_all
  moreover have "n + c - 1 = c * k + (c - 1)" using n assms(2) by simp
  ultimately show ?thesis using n assms(2) by (simp add: pages_for_def)
qed

lemma pages_for_partial:
  assumes "n mod c \<noteq> 0" "0 < c"
  shows "pages_for c n = Suc (n div c)"
proof -
  obtain m where m: "n = Suc m" using assms(1) by (cases n) auto
  have "m div c = n div c" using assms m by (metis div_Suc)
  then show ?thesis using pages_for_Suc[OF assms(2), of m] m by simp
qed

text \<open>A table with a page for the next row.\<close>

definition has_tail :: "'f kv_pool \<Rightarrow> nat list \<Rightarrow> nat \<Rightarrow> bool" where
  "has_tail p pages n \<longleftrightarrow>
     length pages = Suc (n div kp_page_tokens p) \<and>
     (\<forall>t<n. t mod kp_page_tokens p < pg_used (kp_pages p ! (pages ! (t div kp_page_tokens p)))) \<and>
     pg_used (kp_pages p ! last pages) = n mod kp_page_tokens p"

lemma append_page_ok:
  assumes ok: "pool_ok (S + mset (bt_pages t)) p" and tail: "has_tail p (bt_pages t) (bt_cached t)"
    and one: "count (S + mset (bt_pages t) + prefix_refs p) (last (bt_pages t)) = 1"
  obtains p' where
    "append_page row (bt_cached t mod kp_page_tokens p) (last (bt_pages t)) t p =
       ((p', t \<lparr> bt_cached := Suc (bt_cached t) \<rparr>), Inr ())"
    "pool_ok (S + mset (bt_pages t)) p'" "keeps S p p'" "holds p' (bt_pages t) (Suc (bt_cached t))"
    "view p' (bt_pages t) (Suc (bt_cached t)) = view p (bt_pages t) (bt_cached t) @ [row]"
proof -
  define c pages n where d: "c = kp_page_tokens p" "pages = bt_pages t" "n = bt_cached t"
  define i where "i = last pages"
  define R where "R = S + mset pages + prefix_refs p"
  have x: "refs_exact R p" using ok by (simp add: pool_ok_def R_def d)
  have c: "0 < c" using x by (simp add: refs_exact_def d)
  have len: "length pages = Suc (n div c)" and ne: "pages \<noteq> []"
    using tail by (auto simp: has_tail_def d)
  then have last: "i = pages ! (n div c)" by (simp add: i_def last_conv_nth)
  have one': "count R i = 1" using one by (simp add: R_def i_def d)
  have "mset pages = mset (butlast pages @ [i])" using ne by (simp add: i_def)
  then have split: "mset pages = add_mset i (mset (butlast pages))" by simp
  have others: "i \<notin># S + prefix_refs p" "i \<notin> set (butlast pages)"
  proof -
    have "count S i = 0 \<and> count (prefix_refs p) i = 0 \<and> count (mset (butlast pages)) i = 0"
      using one' unfolding R_def split by simp
    then show "i \<notin># S + prefix_refs p" "i \<notin> set (butlast pages)"
      by (simp_all add: count_eq_zero_iff)
  qed
  have in_R: "i \<in># R" using one' by (metis count_inI zero_neq_one)
  have i: "i < length (kp_pages p)" "pg_references (kp_pages p ! i) = 1" "pg_allocated (kp_pages p ! i)"
    "length (pg_rows (kp_pages p ! i)) = c"
    using x one' in_R by (auto simp: refs_exact_def d)
  have used: "pg_used (kp_pages p ! i) = n mod c" using tail by (simp add: has_tail_def d i_def)
  define p' where "p' = fst (fst (append_page row (n mod c) i t p))"
  have a: "append_page row (n mod c) i t p = ((p', t \<lparr> bt_cached := Suc n \<rparr>), Inr ())"
    using i used by (simp add: p'_def append_page_def checked_page_def Let_def d)
  have k: "kp_pages p' = (kp_pages p)[i := (kp_pages p ! i) \<lparr> pg_rows := (pg_rows (kp_pages p ! i))[n mod c := row],
      pg_used := n mod c + 1, pg_last_used := inc64 (kp_clock p) \<rparr>]" "kp_free p' = kp_free p"
    "kp_page_tokens p' = c" "kp_dimension p' = kp_dimension p"
    "kp_prefix_capacity p' = kp_prefix_capacity p" "kp_prefixes p' = kp_prefixes p"
    using i used by (simp_all add: p'_def append_page_def checked_page_def Let_def set_page_def next_clock_def d)
  have x': "refs_exact R p'"
    using x i one' unfolding refs_exact_def k by (auto simp: nth_list_update d)
  have f: "frame (S + prefix_refs p) p p'"
    using others(1) i(1) by (auto simp: frame_def static_def k nth_list_update d)
  have "pool_ok (S + mset pages) p'"
    using pool_ok_frame[OF ok _ _ k(6), of "S + mset pages"] x' frame_mono[OF f] by (simp add: R_def d)
  moreover have "keeps S p p'" by (rule keeps_same_prefixes[OF f k(6)])
  moreover have page: "kp_pages p' ! (pages ! (u div c)) =
      (if u div c = n div c then kp_pages p' ! i else kp_pages p ! (pages ! (u div c)))" if "u \<le> n" for u
  proof (cases "u div c = n div c")
    case False
    then have "u div c < n div c" using div_le_mono[OF that, of c] by simp
    then have "pages ! (u div c) \<in> set (butlast pages)"
      using len by (metis diff_Suc_1 length_butlast nth_butlast nth_mem)
    then show ?thesis using False others(2) k(1) by (metis nth_list_update_neq)
  qed (simp add: last)
  moreover have pi: "pg_used (kp_pages p' ! i) = Suc (n mod c)"
      "pg_rows (kp_pages p' ! i) = (pg_rows (kp_pages p ! i))[n mod c := row]"
    using i k(1) by simp_all
  have mod_less: "u mod c < n mod c" if "u < n" "u div c = n div c" for u
    using that by (metis div_mult_mod_eq nat_add_left_cancel_less)
  have "holds p' pages (Suc n)"
    unfolding holds_def k(3)
  proof (intro conjI allI impI)
    fix u assume u: "u < Suc n"
    show "u mod c < pg_used (kp_pages p' ! (pages ! (u div c)))"
    proof (cases "u div c = n div c")
      case True
      then show ?thesis using page[of u] pi u mod_less[of u] by (cases "u = n") auto
    next
      case False
      then have "u < n" using u by (cases "u = n") auto
      then show ?thesis using page[of u] False tail by (simp add: has_tail_def d)
    qed
  qed (use len pages_for_Suc[OF c] in simp)
  moreover have "view p' pages (Suc n) = view p pages n @ [row]"
  proof -
    have "pg_rows (kp_pages p' ! (pages ! (u div c))) ! (u mod c) =
        pg_rows (kp_pages p ! (pages ! (u div c))) ! (u mod c)" if "u < n" for u
      using page[of u] pi last that mod_less[of u] by auto
    moreover have "pg_rows (kp_pages p' ! (pages ! (n div c))) ! (n mod c) = row"
      using page[of n] pi i c by simp
    ultimately show ?thesis by (simp add: view_def k(3) d)
  qed
  ultimately show thesis using a that by (simp add: d i_def)
qed


lemma keeps_mono: "keeps S p p' \<Longrightarrow> set_mset S' \<subseteq> set_mset S \<Longrightarrow> keeps S' p p'"
  by (auto simp: keeps_def intro!: frame_mono[of "S + prefix_refs p'"])

lemma keeps_holds:
  assumes "keeps S p p'" "holds p pages n" "set pages \<subseteq> set_mset S" "0 < kp_page_tokens p"
  shows "holds p' pages n" "view p' pages n = view p pages n"
  using holds_frame[OF assms(2) _ _ assms(4), of "S + prefix_refs p'"] assms(1,3)
  by (auto simp: keeps_def)

lemma keeps_page_tokens: "keeps S p p' \<Longrightarrow> kp_page_tokens p' = kp_page_tokens p"
  by (simp add: keeps_def frame_def static_def)

lemma keeps_used:
  "keeps S p p' \<Longrightarrow> i \<in># S \<Longrightarrow> pg_used (kp_pages p' ! i) = pg_used (kp_pages p ! i)"
  by (simp add: keeps_def frame_def)

lemma pool_ok_tokens: "pool_ok S p \<Longrightarrow> 0 < kp_page_tokens p"
  by (simp add: pool_ok_def refs_exact_def)

lemma pool_ok_page:
  assumes "pool_ok S p" "i \<in># S"
  shows "checked_page p i = Inr (kp_pages p ! i)" "i < length (kp_pages p)"
    "pg_references (kp_pages p ! i) = count (S + prefix_refs p) i"
    "length (pg_rows (kp_pages p ! i)) = kp_page_tokens p"
proof -
  have i: "i \<in># S + prefix_refs p" using assms(2) by simp
  have x: "refs_exact (S + prefix_refs p) p" using assms(1) by (simp add: pool_ok_def)
  show l: "i < length (kp_pages p)" using x i unfolding refs_exact_def by blast
  show "pg_references (kp_pages p ! i) = count (S + prefix_refs p) i"
    "length (pg_rows (kp_pages p ! i)) = kp_page_tokens p"
    using x l unfolding refs_exact_def by blast+
  have "pg_allocated (kp_pages p ! i)"
    using x l i unfolding refs_exact_def by (metis count_greater_zero_iff)
  then show "checked_page p i = Inr (kp_pages p ! i)" using l by (simp add: checked_page_def)
qed

text \<open>What \<open>append\<close> leaves behind, for the table it was called on and for every other holder.\<close>

definition appended ::
  "nat multiset \<Rightarrow> 'f row \<Rightarrow> block_table \<Rightarrow> 'f kv_pool \<Rightarrow>
   ('f kv_pool \<times> block_table) \<times> (runtime_error, unit) result \<Rightarrow> bool" where
  "appended S row t p out \<longleftrightarrow>
     (case out of ((p', t'), r) \<Rightarrow>
        pool_ok (S + mset (bt_pages t')) p' \<and> keeps S p p' \<and>
        holds p' (bt_pages t') (bt_cached t') \<and>
        (case r of
           Inr _ \<Rightarrow> bt_cached t' = Suc (bt_cached t) \<and>
             view p' (bt_pages t') (bt_cached t') = view p (bt_pages t) (bt_cached t) @ [row]
         | Inl e \<Rightarrow> t' = t \<and> e \<in> {RowDimension, TailInconsistent, CapacityExhausted} \<and>
             view p' (bt_pages t) (bt_cached t) = view p (bt_pages t) (bt_cached t)))"

lemma appended_page:
  assumes "pool_ok (S + mset (bt_pages t)) p" "has_tail p (bt_pages t) (bt_cached t)"
    "count (S + mset (bt_pages t) + prefix_refs p) (last (bt_pages t)) = 1"
    and "keeps S p0 p" "bt_cached t = bt_cached t0"
    "view p (bt_pages t) (bt_cached t) = view p0 (bt_pages t0) (bt_cached t0)"
  shows "appended S row t0 p0 (append_page row (bt_cached t mod kp_page_tokens p) (last (bt_pages t)) t p)"
proof -
  obtain p' where
    "append_page row (bt_cached t mod kp_page_tokens p) (last (bt_pages t)) t p =
       ((p', t \<lparr> bt_cached := Suc (bt_cached t) \<rparr>), Inr ())"
    "pool_ok (S + mset (bt_pages t)) p'" "keeps S p p'" "holds p' (bt_pages t) (Suc (bt_cached t))"
    "view p' (bt_pages t) (Suc (bt_cached t)) = view p (bt_pages t) (bt_cached t) @ [row]"
    using append_page_ok[OF assms(1-3)] by blast
  then show ?thesis using assms(4-6) keeps_trans[of S p0 p p'] by (simp add: appended_def)
qed

lemma appended_error:
  assumes "pool_ok (S + mset (bt_pages t)) p'" "keeps (S + mset (bt_pages t)) p p'"
    "holds p (bt_pages t) (bt_cached t)" "0 < kp_page_tokens p"
    "e \<in> {RowDimension, TailInconsistent, CapacityExhausted}"
  shows "appended S row t p ((p', t), Inl e)"
  using assms keeps_holds[OF assms(2,3) _ assms(4)] keeps_mono[OF assms(2), of S]
  by (auto simp: appended_def)

lemma appended_fresh:
  assumes ok: "pool_ok (S + mset (bt_pages t)) p" and h: "holds p (bt_pages t) (bt_cached t)"
    and z: "bt_cached t mod kp_page_tokens p = 0"
    and a: "allocate p = (p1, Inr i)" "pool_ok (add_mset i (S + mset (bt_pages t))) p1"
      "keeps (S + mset (bt_pages t)) p p1" "i \<notin># S + mset (bt_pages t) + prefix_refs p1"
      "pg_used (kp_pages p1 ! i) = 0"
  shows "appended S row t p (append_page row 0 i (t \<lparr> bt_pages := bt_pages t @ [i] \<rparr>) p1)"
proof -
  let ?pages = "bt_pages t" let ?n = "bt_cached t" let ?c = "kp_page_tokens p"
  let ?t = "t \<lparr> bt_pages := ?pages @ [i] \<rparr>"
  have c: "0 < ?c" "kp_page_tokens p1 = ?c" using ok a(3) by (simp_all add: pool_ok_tokens keeps_page_tokens)
  have h1: "holds p1 ?pages ?n" "view p1 ?pages ?n = view p ?pages ?n"
    using keeps_holds[OF a(3) h _ c(1)] by auto
  have len: "length ?pages = ?n div ?c" using h pages_for_full[OF z c(1)] by (simp add: holds_def)
  have nth: "(?pages @ [i]) ! (u div ?c) = ?pages ! (u div ?c)" if "u < ?n" for u
    using pages_div[OF that c(1)] h by (simp add: nth_append holds_def)
  have "has_tail p1 (?pages @ [i]) ?n"
    using h1(1) nth len z a(5) c by (simp add: has_tail_def holds_def)
  moreover have "view p1 (?pages @ [i]) ?n = view p1 ?pages ?n"
    using nth c by (simp add: view_def)
  moreover have "count (S + mset (?pages @ [i]) + prefix_refs p1) i = 1"
    using a(4) by (simp add: not_in_iff)
  ultimately show ?thesis
    using appended_page[of S ?t p1 p t row] a(2) keeps_mono[OF a(3), of S] z c h1(2) by simp
qed

lemma set_page_exact:
  assumes "refs_exact R p" "i < length (kp_pages p)" "length rows = kp_page_tokens p"
  shows "refs_exact R (set_page i ((kp_pages p ! i) \<lparr> pg_rows := rows, pg_used := u \<rparr>) p)"
  using assms by (auto simp: refs_exact_def set_page_def nth_list_update)

lemma appended_copy:
  assumes ok: "pool_ok (S + mset (bt_pages t)) p" and h: "holds p (bt_pages t) (bt_cached t)"
    and nz: "bt_cached t mod kp_page_tokens p \<noteq> 0"
    and used: "pg_used (kp_pages p ! last (bt_pages t)) = bt_cached t mod kp_page_tokens p"
    and a: "pool_ok (add_mset i (S + mset (bt_pages t))) p2"
      "keeps (S + mset (bt_pages t)) p p2" "i \<notin># S + mset (bt_pages t) + prefix_refs p2"
    and p3: "p3 = set_page i ((kp_pages p2 ! i)
        \<lparr> pg_rows := take (bt_cached t mod kp_page_tokens p) (pg_rows (kp_pages p2 ! last (bt_pages t)))
            @ drop (bt_cached t mod kp_page_tokens p) (pg_rows (kp_pages p2 ! i)),
          pg_used := bt_cached t mod kp_page_tokens p \<rparr>) p2"
  obtains p4 where "release (last (bt_pages t)) p3 = (p4, Inr ())"
    "appended S row t p (append_page row (bt_cached t mod kp_page_tokens p) i
       (t \<lparr> bt_pages := butlast (bt_pages t) @ [i], bt_copies := inc64 (bt_copies t) \<rparr>)
       (p4 \<lparr> kp_copy_on_write_copies := inc64 (kp_copy_on_write_copies p4) \<rparr>))"
proof -
  define c pages n where d: "c = kp_page_tokens p" "pages = bt_pages t" "n = bt_cached t"
  define j where "j = last pages"
  define slot where "slot = n mod c"
  have c: "0 < c" "kp_page_tokens p2 = c" using ok a(2) by (simp_all add: pool_ok_tokens keeps_page_tokens d)
  have len: "length pages = Suc (n div c)"
    using h pages_for_partial[of n c] nz c by (simp add: holds_def d)
  then have ne: "pages \<noteq> []" by auto
  have jl: "pages ! (n div c) = j" using len ne by (simp add: j_def last_conv_nth)
  have "mset pages = mset (butlast pages @ [j])" using ne by (simp add: j_def)
  then have split: "mset pages = add_mset j (mset (butlast pages))" by simp
  have jin: "j \<in># S + mset pages" unfolding split by simp
  have i2: "i < length (kp_pages p2)" "length (pg_rows (kp_pages p2 ! i)) = c"
    using pool_ok_page[OF a(1), of i] c by simp_all
  have j2: "length (pg_rows (kp_pages p2 ! j)) = c" "j \<noteq> i"
    using pool_ok_page[OF a(1), of j] jin c a(3) by (auto simp: d)
  define R where "R = S + mset (butlast pages @ [i]) + prefix_refs p2"
  have sl: "slot \<le> c" "slot < c" using c by (simp_all add: slot_def)
  have "refs_exact (add_mset j R) p2"
    using a(1) unfolding pool_ok_def R_def by (simp add: d(2)[symmetric] split ac_simps add_mset_commute)
  then have "refs_exact (add_mset j R) p3"
    unfolding p3 d[symmetric] j_def[symmetric] slot_def[symmetric]
    using i2 j2 c sl by (intro set_page_exact) simp_all
  then obtain p4 where p4: "release j p3 = (p4, Inr ())" "refs_exact R p4" "frame R p3 p4"
    "kp_prefixes p4 = kp_prefixes p3"
    by (rule release_exact)
  define p5 where "p5 = p4 \<lparr> kp_copy_on_write_copies := inc64 (kp_copy_on_write_copies p4) \<rparr>"
  define t1 where "t1 = t \<lparr> bt_pages := butlast pages @ [i], bt_copies := inc64 (bt_copies t) \<rparr>"
  have pre: "kp_prefixes p5 = kp_prefixes p2" using p4(4) by (simp add: p5_def p3 set_page_def)
  have f35: "frame R p3 p5" using p4(3) by (simp add: frame_def static_def p5_def)
  have f23: "frame (S + mset pages + prefix_refs p2) p2 p3"
    using a(3) i2 unfolding p3 d[symmetric] by (auto simp: frame_def static_def set_page_def nth_list_update)
  let ?Q = "S + mset (butlast pages) + prefix_refs p2"
  have "frame ?Q p2 p3" by (rule frame_mono[OF f23]) (auto simp: split)
  moreover have "frame ?Q p3 p5" by (rule frame_mono[OF f35]) (auto simp: R_def)
  ultimately have f25: "frame ?Q p2 p5" by (rule frame_trans) simp
  have "refs_exact (S + mset (butlast pages @ [i]) + prefix_refs p2) p5"
    using p4(2) refs_exact_fields[of R p4 p5] by (simp add: p5_def R_def)
  then have ok5: "pool_ok (S + mset (butlast pages @ [i])) p5"
    using pool_ok_frame[OF a(1), of "S + mset (butlast pages @ [i])" p5] pre frame_mono[OF f25] by simp
  have k25: "keeps (S + mset (butlast pages)) p2 p5"
    using f25 pre by (intro keeps_same_prefixes) (simp_all add: ac_simps)
  have k5: "keeps S p p5"
    using keeps_trans[OF keeps_mono[OF a(2), of S] keeps_mono[OF k25, of S]] by auto
  have c5: "kp_page_tokens p5 = c" using keeps_page_tokens[OF k25] c by simp
  have pi: "pg_used (kp_pages p5 ! i) = slot"
    "\<And>s. s < slot \<Longrightarrow> pg_rows (kp_pages p5 ! i) ! s = pg_rows (kp_pages p2 ! j) ! s"
  proof -
    have "i \<in># R" by (simp add: R_def)
    then have "pg_used (kp_pages p5 ! i) = pg_used (kp_pages p3 ! i)"
      "pg_rows (kp_pages p5 ! i) = pg_rows (kp_pages p3 ! i)"
      using f35 by (simp_all add: frame_def)
    then show "pg_used (kp_pages p5 ! i) = slot"
      "\<And>s. s < slot \<Longrightarrow> pg_rows (kp_pages p5 ! i) ! s = pg_rows (kp_pages p2 ! j) ! s"
      using i2 j2 sl unfolding p3 d[symmetric] j_def[symmetric] slot_def[symmetric]
      by (simp_all add: set_page_def nth_append)
  qed
  have h2: "holds p2 pages n" "view p2 pages n = view p pages n"
    using keeps_holds[OF a(2), of pages n] h c by (auto simp: d)
  have mod_less: "u mod c < slot" if "u < n" "u div c = n div c" for u
    using that unfolding slot_def by (metis div_mult_mod_eq nat_add_left_cancel_less)
  have page: "pg_used (kp_pages p5 ! ((butlast pages @ [i]) ! (u div c))) > u mod c \<and>
      pg_rows (kp_pages p5 ! ((butlast pages @ [i]) ! (u div c))) ! (u mod c) =
      pg_rows (kp_pages p2 ! (pages ! (u div c))) ! (u mod c)" if u: "u < n" for u
  proof (cases "u div c = n div c")
    case True
    then have "(butlast pages @ [i]) ! (u div c) = i" using len by (simp add: nth_append)
    then show ?thesis using pi mod_less[OF u True] True jl by simp
  next
    case False
    then have lt: "u div c < n div c" using div_le_mono[of u n c] u by simp
    then have e: "(butlast pages @ [i]) ! (u div c) = pages ! (u div c)"
      and m: "pages ! (u div c) \<in> set (butlast pages)"
      using len by (simp_all add: nth_append nth_butlast) (metis diff_Suc_1 length_butlast nth_butlast nth_mem)
    have "u mod c < pg_used (kp_pages p2 ! (pages ! (u div c)))"
      using h2(1) u c by (simp add: holds_def)
    then show ?thesis using e m f25 by (simp add: frame_def)
  qed
  have "has_tail p5 (butlast pages @ [i]) n"
    using page pi(1) len c5 by (simp add: has_tail_def slot_def)
  moreover have "view p5 (butlast pages @ [i]) n = view p2 pages n"
    using page c5 c by (simp add: view_def)
  moreover have "count (S + mset (butlast pages @ [i]) + prefix_refs p5) i = 1"
    using a(3) pre unfolding d(2)[symmetric] split by (simp add: not_in_iff prefix_refs_def)
  ultimately have "appended S row t p (append_page row slot i t1 p5)"
    using appended_page[of S t1 p5 p t row] ok5 k5 c5 h2(2) by (simp add: t1_def d slot_def)
  then show thesis using that p4(1) by (simp add: p5_def t1_def d j_def slot_def)
qed


lemma append_row_ok:
  assumes ok: "pool_ok (S + mset (bt_pages t)) p" and h: "holds p (bt_pages t) (bt_cached t)"
  shows "appended S row t p (append_row row t p)"
proof -
  let ?pages = "bt_pages t" let ?S = "S + mset (bt_pages t)"
  let ?slot = "bt_cached t mod kp_page_tokens p"
  have c: "0 < kp_page_tokens p" by (rule pool_ok_tokens[OF ok])
  have err: "appended S row t p ((p, t), Inl e)" if "e \<in> {RowDimension, TailInconsistent}" for e
    by (rule appended_error[OF ok keeps_refl h c]) (use that in auto)
  show ?thesis
  proof (cases "length (fst row) \<noteq> kp_dimension p \<or> length (snd row) \<noteq> kp_dimension p")
    case True
    then show ?thesis using err by (auto simp: append_row_def)
  next
    case dim: False
    show ?thesis
    proof (cases "?slot = 0")
      case z: True
      show ?thesis
        using ok
      proof (cases rule: allocate_ok)
        case (full p')
        then show ?thesis
          using dim z appended_error[OF full(2,3) h c, of CapacityExhausted row] by (auto simp: append_row_def Let_def)
      next
        case (fresh p' i)
        then show ?thesis
          using dim z appended_fresh[OF ok h z fresh] by (simp add: append_row_def Let_def)
      qed
    next
      case nz: False
      have ne: "?pages \<noteq> []" using h pages_for_partial[OF nz c] by (auto simp: holds_def)
      define j where "j = last ?pages"
      have j: "j \<in># ?S" using ne by (simp add: j_def)
      note pj = pool_ok_page[OF ok j]
      show ?thesis
      proof (cases "pg_used (kp_pages p ! j) = ?slot")
        case False
        then show ?thesis
          using dim nz ne pj(1) err by (simp add: append_row_def Let_def j_def)
      next
        case used: True
        obtain p1 where p1: "evict_until (\<lambda>p. kp_free p \<noteq> [] \<or> pg_references (kp_pages p ! j) \<le> 1) p = (p1, Inr ())"
          "pool_ok ?S p1" "keeps ?S p p1"
          using evict_until_ok[OF ok, of "\<lambda>p. kp_free p \<noteq> [] \<or> pg_references (kp_pages p ! j) \<le> 1"] by blast
        have h1: "holds p1 ?pages (bt_cached t)" "view p1 ?pages (bt_cached t) = view p ?pages (bt_cached t)"
          using keeps_holds[OF p1(3) h _ c] by auto
        have c1: "kp_page_tokens p1 = kp_page_tokens p" by (rule keeps_page_tokens[OF p1(3)])
        have u1: "pg_used (kp_pages p1 ! j) = ?slot" using keeps_used[OF p1(3) j] used by simp
        note pj1 = pool_ok_page[OF p1(2) j]
        show ?thesis
        proof (cases "1 < pg_references (kp_pages p1 ! j)")
          case False
          have "0 < count (?S + prefix_refs p1) j" using j by simp
          then have "count (?S + prefix_refs p1) j = 1" using False pj1(3) by linarith
          moreover have "has_tail p1 ?pages (bt_cached t)"
            using h1(1) u1 c1 pages_for_partial[OF nz c] by (simp add: has_tail_def holds_def j_def)
          ultimately have "appended S row t p (append_page row ?slot j t p1)"
            using appended_page[OF p1(2), of p t row] keeps_mono[OF p1(3), of S] h1(2) c1
            by (simp add: j_def)
          then show ?thesis
            using dim nz ne pj(1) used p1(1) False by (simp add: append_row_def Let_def j_def)
        next
          case shared: True
          show ?thesis
            using p1(2)
          proof (cases rule: allocate_ok)
            case (full p2)
            have "keeps ?S p p2" by (rule keeps_trans[OF p1(3) full(3)])
            then show ?thesis
              using dim nz ne pj(1) used p1(1) shared full appended_error[OF full(2) _ h c, of CapacityExhausted row]
              by (simp add: append_row_def Let_def j_def)
          next
            case (fresh p2 i)
            define p3 where "p3 = set_page i ((kp_pages p2 ! i)
              \<lparr> pg_rows := take ?slot (pg_rows (kp_pages p2 ! last ?pages)) @ drop ?slot (pg_rows (kp_pages p2 ! i)),
                pg_used := ?slot \<rparr>) p2"
            have k2: "keeps ?S p p2" by (rule keeps_trans[OF p1(3) fresh(3)])
            obtain p4 where "release (last ?pages) p3 = (p4, Inr ())"
              "appended S row t p (append_page row ?slot i
                 (t \<lparr> bt_pages := butlast ?pages @ [i], bt_copies := inc64 (bt_copies t) \<rparr>)
                 (p4 \<lparr> kp_copy_on_write_copies := inc64 (kp_copy_on_write_copies p4) \<rparr>))"
              using appended_copy[OF ok h nz _ fresh(2) k2 fresh(4) p3_def, of row] used
              by (auto simp: j_def)
            moreover have "checked_page p2 i = Inr (kp_pages p2 ! i)"
              using pool_ok_page(1)[OF fresh(2), of i] by simp
            ultimately show ?thesis
              using dim nz ne pj(1) used p1(1) shared fresh(1)
              by (simp add: append_row_def Let_def j_def p3_def)
          qed
        qed
      qed
    qed
  qed
qed

section \<open>Sharing prefixes\<close>

text \<open>What the prefix cache offers: for each cached token sequence, the rows behind it.\<close>

definition prefix_views :: "'f kv_pool \<Rightarrow> (nat list \<times> 'f row list) set" where
  "prefix_views p = (\<lambda>(k, e). (k, view p (pe_pages e) (length k))) ` set (kp_prefixes p)"

lemma keeps_prefix_views:
  assumes "pool_ok S p" "keeps S' p p'"
  shows "prefix_views p' \<subseteq> prefix_views p"
proof
  fix x assume "x \<in> prefix_views p'"
  then obtain k e where x: "x = (k, view p' (pe_pages e) (length k))" and e: "(k, e) \<in> set (kp_prefixes p')"
    by (auto simp: prefix_views_def)
  have e': "(k, e) \<in> set (kp_prefixes p)" using e assms(2) by (auto simp: keeps_def)
  then have "holds p (pe_pages e) (length k)" using assms(1) by (auto simp: pool_ok_def)
  moreover have "frame (S' + prefix_refs p') p p'" using assms(2) by (simp add: keeps_def)
  moreover have "set (pe_pages e) \<subseteq> set_mset (S' + prefix_refs p')"
    using prefix_refs_in[OF e] by auto
  ultimately have "view p' (pe_pages e) (length k) = view p (pe_pages e) (length k)"
    using holds_frame(2) pool_ok_tokens[OF assms(1)] by blast
  then show "x \<in> prefix_views p" using x e' by (force simp: prefix_views_def)
qed

lemma longest_prefix_sound:
  assumes "longest_prefix tokens sel xs = Some x"
  shows "sel = Some x \<or> x \<in> set xs \<and> length (fst x) \<le> length tokens \<and> take (length (fst x)) tokens = fst x"
  using assms
proof (induction tokens sel xs rule: longest_prefix.induct)
  case (2 tokens sel y ys)
  then show ?case by (auto split: if_splits option.splits)
qed simp

lemma update_prefix_pages:
  assumes "distinct (map fst xs)" "(k, e) \<in> set xs" "pe_pages e' = pe_pages e"
  shows "map (\<lambda>x. (fst x, pe_pages (snd x))) (update_prefix k e' xs) = map (\<lambda>x. (fst x, pe_pages (snd x))) xs"
proof -
  have "pe_pages (snd y) = pe_pages e" if "y \<in> set xs" "fst y = k" for y
    using eq_key_imp_eq_value[OF assms(1,2)] that by (metis prod.collapse)
  then show ?thesis using assms(3) by (auto simp: update_prefix_def)
qed

lemma prefixes_by_pages:
  assumes "map (\<lambda>x. (fst x, pe_pages (snd x))) (kp_prefixes p') = map (\<lambda>x. (fst x, pe_pages (snd x))) (kp_prefixes p)"
  shows "prefix_refs p' = prefix_refs p" "map fst (kp_prefixes p') = map fst (kp_prefixes p)"
    "(k, e') \<in> set (kp_prefixes p') \<Longrightarrow> \<exists>e. (k, e) \<in> set (kp_prefixes p) \<and> pe_pages e = pe_pages e'"
proof -
  have "map snd (map (\<lambda>x. (fst x, pe_pages (snd x))) (kp_prefixes p')) =
      map snd (map (\<lambda>x. (fst x, pe_pages (snd x))) (kp_prefixes p))" using assms by simp
  then show "prefix_refs p' = prefix_refs p" by (simp add: prefix_refs_def comp_def)
  have "map fst (map (\<lambda>x. (fst x, pe_pages (snd x))) (kp_prefixes p')) =
      map fst (map (\<lambda>x. (fst x, pe_pages (snd x))) (kp_prefixes p))" using assms by simp
  then show "map fst (kp_prefixes p') = map fst (kp_prefixes p)" by (simp add: comp_def)
  assume "(k, e') \<in> set (kp_prefixes p')"
  then have "(k, pe_pages e') \<in> set (map (\<lambda>x. (fst x, pe_pages (snd x))) (kp_prefixes p'))" by force
  then show "\<exists>e. (k, e) \<in> set (kp_prefixes p) \<and> pe_pages e = pe_pages e'"
    unfolding assms by force
qed

lemma acquire_prefix_ok:
  assumes ok: "pool_ok S p"
  obtains p' pages n hit where "acquire_longest_prefix tokens p = (p', Inr (pages, n, hit))"
    "pool_ok (S + mset pages) p'" "frame S p p'" "prefix_views p' \<subseteq> prefix_views p"
    "holds p' pages n" "n \<le> length tokens"
    "n = 0 \<and> pages = [] \<or> (take n tokens, view p' pages n) \<in> prefix_views p"
proof (cases "longest_prefix tokens None (kp_prefixes p)")
  case None
  define p' where "p' = p \<lparr> kp_prefix_misses := inc64 (kp_prefix_misses p) \<rparr>"
  have "acquire_longest_prefix tokens p = (p', Inr ([], 0, False))"
    using None by (simp add: acquire_longest_prefix_def p'_def)
  moreover have "pool_ok S p'" by (rule pool_ok_fields[OF ok]) (simp_all add: p'_def)
  moreover have "frame S p p'" by (simp add: frame_def static_def p'_def)
  moreover have "prefix_views p' \<subseteq> prefix_views p" by (auto simp: prefix_views_def view_def p'_def)
  moreover have "holds p' [] 0"
    using pool_ok_tokens[OF ok] by (simp add: holds_def pages_for_def p'_def)
  ultimately show thesis using that[of p' "[]" 0 False] by simp
next
  case (Some x)
  obtain k e where x: "x = (k, e)" by (cases x)
  have ke: "(k, e) \<in> set (kp_prefixes p)" "length k \<le> length tokens" "take (length k) tokens = k"
    using longest_prefix_sound[OF Some] x by auto
  have hold: "holds p (pe_pages e) (length k)" and dist: "distinct (map fst (kp_prefixes p))"
    and ex: "refs_exact (S + prefix_refs p) p"
    using ok ke(1) by (auto simp: pool_ok_def)
  have sub: "set (pe_pages e) \<subseteq> set_mset (S + prefix_refs p)" using prefix_refs_in[OF ke(1)] by auto
  obtain p1 where p1: "for_pages retain (pe_pages e) p = (p1, Inr ())"
    "refs_exact (mset (pe_pages e) + (S + prefix_refs p)) p1" "frame (S + prefix_refs p) p p1"
    "kp_prefixes p1 = kp_prefixes p"
    using retain_all_exact[OF ex sub] by blast
  define q where "q = next_clock p1"
  define p' where "p' = q \<lparr> kp_prefixes := update_prefix k (e \<lparr> pe_last_used := kp_clock q \<rparr>) (kp_prefixes q),
       kp_prefix_hits := inc64 (kp_prefix_hits q),
       kp_prefix_tokens_reused := wrap64 (kp_prefix_tokens_reused q + length k) \<rparr>"
  have a: "acquire_longest_prefix tokens p = (p', Inr (pe_pages e, length k, True))"
    using Some x p1(1) by (simp add: acquire_longest_prefix_def Let_def p'_def q_def)
  have m: "map (\<lambda>x. (fst x, pe_pages (snd x))) (kp_prefixes p') = map (\<lambda>x. (fst x, pe_pages (snd x))) (kp_prefixes p)"
    using update_prefix_pages[OF dist ke(1)] p1(4) by (simp add: p'_def q_def next_clock_def)
  note pp = prefixes_by_pages[OF m]
  have f: "frame (S + prefix_refs p) p p'"
    using p1(3) by (simp add: frame_def static_def p'_def q_def next_clock_def)
  have c: "0 < kp_page_tokens p" by (rule pool_ok_tokens[OF ok])
  have keep: "holds p' (pe_pages e') (length k') \<and> view p' (pe_pages e') (length k') = view p (pe_pages e') (length k')"
    if "(k', e') \<in> set (kp_prefixes p)" for k' e'
    using holds_frame[OF _ f _ c, of "pe_pages e'" "length k'"] prefix_refs_in[OF that] that ok
    by (auto simp: pool_ok_def)
  have "refs_exact (S + mset (pe_pages e) + prefix_refs p') p'"
    using refs_exact_fields[OF p1(2), of p'] pp(1) by (simp add: p'_def q_def next_clock_def ac_simps)
  moreover have "holds p' (pe_pages e') (length k')" if "(k', e') \<in> set (kp_prefixes p')" for k' e'
    using pp(3)[OF that] keep by metis
  ultimately have "pool_ok (S + mset (pe_pages e)) p'"
    using pp(2) dist by (auto simp: pool_ok_def)
  moreover have "prefix_views p' \<subseteq> prefix_views p"
  proof
    fix y assume "y \<in> prefix_views p'"
    then obtain k' e' where y: "(k', e') \<in> set (kp_prefixes p')" "y = (k', view p' (pe_pages e') (length k'))"
      by (auto simp: prefix_views_def)
    obtain e0 where "(k', e0) \<in> set (kp_prefixes p)" "pe_pages e0 = pe_pages e'" using pp(3)[OF y(1)] by blast
    then show "y \<in> prefix_views p" using keep[of k' e0] y(2) by (force simp: prefix_views_def)
  qed
  moreover have "(take (length k) tokens, view p' (pe_pages e) (length k)) \<in> prefix_views p"
    using ke keep[OF ke(1)] by (force simp: prefix_views_def)
  ultimately show thesis
    using that[OF a] frame_mono[OF f, of S] keep[OF ke(1)] ke(2) by simp
qed


lemma pages_for_mono: "m \<le> n \<Longrightarrow> pages_for c m \<le> pages_for c n"
  unfolding pages_for_def by (intro div_le_mono) simp

lemma holds_take:
  assumes "holds p pages n" "m \<le> n" "0 < kp_page_tokens p"
  shows "holds p (take (pages_for (kp_page_tokens p) m) pages) m"
    "view p (take (pages_for (kp_page_tokens p) m) pages) m = take m (view p pages n)"
proof -
  let ?c = "kp_page_tokens p"
  have e: "take (pages_for ?c m) pages ! (t div ?c) = pages ! (t div ?c)" if "t < m" for t
    using pages_div[OF that assms(3)] by simp
  show "holds p (take (pages_for ?c m) pages) m"
    using assms e pages_for_mono[OF assms(2), of ?c] by (simp add: holds_def)
  show "view p (take (pages_for ?c m) pages) m = take m (view p pages n)"
    using assms(2) e by (simp add: view_def take_map)
qed

lemma emplace_prefix_mset: "mset (emplace_prefix k e xs) = add_mset (k, e) (mset xs)"
  by (induction k e xs rule: emplace_prefix.induct) auto

lemma prefix_refs_sum:
  "prefix_refs p = \<Sum>\<^sub># (image_mset (\<lambda>x. mset (pe_pages (snd x))) (mset (kp_prefixes p)))"
  by (simp add: prefix_refs_def mset_concat comp_def sum_mset_sum_list [symmetric])

text \<open>Installing \<open>pages\<close>, which the pool already refers to, as the entry of \<open>tokens\<close>.\<close>

lemma installed_ok:
  assumes ok: "pool_ok S p" and h: "holds p pages (length tokens)" "set pages \<subseteq> set_mset Q"
    and f: "frame Q p p'"
    and x: "refs_exact (S + prefix_refs p') p'" and dist: "distinct (map fst (kp_prefixes p'))"
    and pre: "\<And>k e. (k, e) \<in> set (kp_prefixes p') \<Longrightarrow>
        (k, e) \<in> set (kp_prefixes p) \<and> set (pe_pages e) \<subseteq> set_mset Q \<or> k = tokens \<and> pe_pages e = pages"
  shows "pool_ok S p'" "prefix_views p' \<subseteq> insert (tokens, view p pages (length tokens)) (prefix_views p)"
proof -
  have c: "0 < kp_page_tokens p" by (rule pool_ok_tokens[OF ok])
  have *: "holds p' (pe_pages e) (length k) \<and>
      (k, view p' (pe_pages e) (length k)) \<in> insert (tokens, view p pages (length tokens)) (prefix_views p)"
    if "(k, e) \<in> set (kp_prefixes p')" for k e
    using pre[OF that]
  proof
    assume a: "(k, e) \<in> set (kp_prefixes p) \<and> set (pe_pages e) \<subseteq> set_mset Q"
    then have "holds p (pe_pages e) (length k)" using ok by (auto simp: pool_ok_def)
    then show ?thesis
      using holds_frame[OF _ f _ c, of "pe_pages e" "length k"] a
      by (force simp: prefix_views_def)
  next
    assume "k = tokens \<and> pe_pages e = pages"
    then show ?thesis using holds_frame[OF h(1) f h(2) c] by auto
  qed
  then show "pool_ok S p'" using x dist by (auto simp: pool_ok_def)
  show "prefix_views p' \<subseteq> insert (tokens, view p pages (length tokens)) (prefix_views p)"
    using * by (auto simp: prefix_views_def)
qed

lemma publish_new_ok:
  assumes ok: "pool_ok S p" and h: "holds p pages (length tokens)" "set pages \<subseteq> set_mset S"
    and new: "tokens \<notin> fst ` set (kp_prefixes p)"
  obtains p1 where "for_pages retain pages p = (p1, Inr ())"
    "\<And>p'. p' = next_clock p1 \<lparr> kp_prefixes := emplace_prefix tokens
          \<lparr> pe_pages = pages, pe_last_used = kp_clock (next_clock p1) \<rparr> (kp_prefixes (next_clock p1)) \<rparr> \<Longrightarrow>
       pool_ok S p' \<and> frame S p p' \<and>
       prefix_views p' \<subseteq> insert (tokens, view p pages (length tokens)) (prefix_views p)"
proof -
  let ?R = "S + prefix_refs p"
  obtain p1 where p1: "for_pages retain pages p = (p1, Inr ())" "refs_exact (mset pages + ?R) p1"
    "frame ?R p p1" "kp_prefixes p1 = kp_prefixes p"
    using retain_all_exact[of ?R p pages] ok h(2) by (auto simp: pool_ok_def)
  show thesis
  proof (rule that[OF p1(1)])
    fix p' assume p': "p' = next_clock p1 \<lparr> kp_prefixes := emplace_prefix tokens
          \<lparr> pe_pages = pages, pe_last_used = kp_clock (next_clock p1) \<rparr> (kp_prefixes (next_clock p1)) \<rparr>"
    have ms: "mset (kp_prefixes p') = add_mset (tokens, \<lparr> pe_pages = pages, pe_last_used = kp_clock (next_clock p1) \<rparr>)
        (mset (kp_prefixes p))"
      using p1(4) by (simp add: p' emplace_prefix_mset next_clock_def)
    have f: "frame ?R p p'" using p1(3) by (simp add: frame_def static_def p' next_clock_def)
    have "prefix_refs p' = mset pages + prefix_refs p" by (simp add: prefix_refs_sum ms)
    then have x: "refs_exact (S + prefix_refs p') p'"
      using refs_exact_fields[OF p1(2), of p'] by (simp add: p' next_clock_def ac_simps)
    have "mset (map fst (kp_prefixes p')) = add_mset tokens (mset (map fst (kp_prefixes p)))"
      by (simp only: mset_map ms) simp
    then have "distinct (map fst (kp_prefixes p'))"
      using new ok by (metis distinct.simps(2) list.set_map mset.simps(2) mset_eq_imp_distinct_iff pool_ok_def)
    moreover have "(k, e) \<in> set (kp_prefixes p) \<and> set (pe_pages e) \<subseteq> set_mset ?R \<or>
        k = tokens \<and> pe_pages e = pages"
      if "(k, e) \<in> set (kp_prefixes p')" for k e
      using that arg_cong[OF ms, of set_mset] by (auto dest: prefix_refs_in)
    ultimately show "pool_ok S p' \<and> frame S p p' \<and>
       prefix_views p' \<subseteq> insert (tokens, view p pages (length tokens)) (prefix_views p)"
      using installed_ok[OF ok h(1) _ f x] le_supI1[OF h(2)] frame_mono[OF f, of S] by auto
  qed
qed

lemma update_prefix_mset:
  assumes "distinct (map fst xs)" "(k, e) \<in> set xs"
  shows "mset (update_prefix k e' xs) = add_mset (k, e') (mset xs - {#(k, e)#})"
  using assms
proof (induction xs)
  case (Cons y ys)
  show ?case
  proof (cases "fst y = k")
    case True
    then have n: "k \<notin> fst ` set ys" using Cons.prems(1) by simp
    then have "(k, e) \<notin> set ys" by force
    then have y: "y = (k, e)" using Cons.prems(2) by simp
    have "update_prefix k e' ys = ys" unfolding update_prefix_def using n by (intro map_idI) auto
    then show ?thesis using y by (simp add: update_prefix_def)
  next
    case False
    then have "(k, e) \<in> set ys" using Cons.prems by auto
    then show ?thesis using Cons False
      by (auto simp: update_prefix_def add_mset_commute)
  qed
qed simp

lemma publish_existing_ok:
  assumes ok: "pool_ok S p" and h: "holds p pages (length tokens)" "set pages \<subseteq> set_mset S"
    and old: "(tokens, e) \<in> set (kp_prefixes p)"
  obtains p1 p2 where "for_pages retain pages p = (p1, Inr ())"
    "for_pages release (pe_pages e) p1 = (p2, Inr ())"
    "\<And>p'. p' = next_clock p2 \<lparr> kp_prefixes := update_prefix tokens
          \<lparr> pe_pages = pages, pe_last_used = kp_clock (next_clock p2) \<rparr> (kp_prefixes (next_clock p2)) \<rparr> \<Longrightarrow>
       pool_ok S p' \<and> frame S p p' \<and>
       prefix_views p' \<subseteq> insert (tokens, view p pages (length tokens)) (prefix_views p)"
proof -
  let ?R = "S + prefix_refs p"
  define M where "M = mset (kp_prefixes p) - {#(tokens, e)#}"
  have M: "mset (kp_prefixes p) = add_mset (tokens, e) M" using old by (simp add: M_def)
  define T where "T = \<Sum>\<^sub># (image_mset (\<lambda>x. mset (pe_pages (snd x))) M)"
  have T: "prefix_refs p = mset (pe_pages e) + T" by (simp add: prefix_refs_sum M T_def)
  obtain p1 where p1: "for_pages retain pages p = (p1, Inr ())" "refs_exact (mset pages + ?R) p1"
    "frame ?R p p1" "kp_prefixes p1 = kp_prefixes p"
    using retain_all_exact[of ?R p pages] ok h(2) by (auto simp: pool_ok_def)
  have "refs_exact (mset (pe_pages e) + (mset pages + S + T)) p1"
    using p1(2) by (simp add: T ac_simps)
  then obtain p2 where p2: "for_pages release (pe_pages e) p1 = (p2, Inr ())" "refs_exact (mset pages + S + T) p2"
    "frame (mset pages + S + T) p1 p2" "kp_prefixes p2 = kp_prefixes p1"
    by (rule release_all_exact)
  show thesis
  proof (rule that[OF p1(1) p2(1)])
    fix p' assume p': "p' = next_clock p2 \<lparr> kp_prefixes := update_prefix tokens
          \<lparr> pe_pages = pages, pe_last_used = kp_clock (next_clock p2) \<rparr> (kp_prefixes (next_clock p2)) \<rparr>"
    let ?e = "\<lparr> pe_pages = pages, pe_last_used = kp_clock (next_clock p2) \<rparr>"
    have dist: "distinct (map fst (kp_prefixes p))" using ok by (simp add: pool_ok_def)
    have pre: "kp_prefixes p' = update_prefix tokens ?e (kp_prefixes p)"
      using p1(4) p2(4) by (simp add: p' next_clock_def)
    have "prefix_refs p' = mset pages + T"
      unfolding prefix_refs_sum pre update_prefix_mset[OF dist old] T_def M_def[symmetric] by simp
    then have x: "refs_exact (S + prefix_refs p') p'"
      using refs_exact_fields[OF p2(2), of p'] by (simp add: p' next_clock_def ac_simps)
    have f2: "frame (S + T) p p'"
    proof -
      have "frame (S + T) p p1" by (rule frame_mono[OF p1(3)]) (auto simp: T)
      moreover have "frame (S + T) p1 p2" by (rule frame_mono[OF p2(3)]) auto
      ultimately have "frame (S + T) p p2" by (rule frame_trans) simp
      then show ?thesis by (simp add: frame_def static_def p' next_clock_def)
    qed
    have d': "map fst (kp_prefixes p') = map fst (kp_prefixes p)"
      unfolding pre by (auto simp: update_prefix_def)
    have others: "set (pe_pages e') \<subseteq> set_mset (S + T) \<and> (k, e') \<in> set (kp_prefixes p)"
      if "(k, e') \<in> set (kp_prefixes p')" "k \<noteq> tokens" for k e'
    proof -
      have "(k, e') \<in># M"
        using that unfolding pre set_mset_mset[symmetric] update_prefix_mset[OF dist old] M_def[symmetric]
        by auto
      moreover from this have "(k, e') \<in> set (kp_prefixes p)"
        unfolding M_def by (metis in_diffD set_mset_mset)
      ultimately show ?thesis by (force simp: T_def)
    qed
    have own: "pe_pages e' = pages" if "(tokens, e') \<in> set (kp_prefixes p')" for e'
      using that unfolding pre update_prefix_def by (auto split: if_splits)
    have "pool_ok S p'" "prefix_views p' \<subseteq> insert (tokens, view p pages (length tokens)) (prefix_views p)"
    proof -
      have pre': "(k, e') \<in> set (kp_prefixes p) \<and> set (pe_pages e') \<subseteq> set_mset (S + T) \<or>
          k = tokens \<and> pe_pages e' = pages" if "(k, e') \<in> set (kp_prefixes p')" for k e'
        using that others[OF that] own by (cases "k = tokens") auto
      have "set pages \<subseteq> set_mset (S + T)" using h(2) by auto
      then show "pool_ok S p'" "prefix_views p' \<subseteq> insert (tokens, view p pages (length tokens)) (prefix_views p)"
        using installed_ok[OF ok h(1) _ f2 x _ pre'] d' dist by simp_all
    qed
    then show "pool_ok S p' \<and> frame S p p' \<and>
       prefix_views p' \<subseteq> insert (tokens, view p pages (length tokens)) (prefix_views p)"
      using frame_mono[OF f2, of S] by auto
  qed
qed


lemma publish_ok:
  assumes ok: "pool_ok (S + mset table) p" and h: "holds p table n" and le: "length tokens \<le> n"
  obtains p' where "publish_prefix tokens table n p = (p', Inr ())" "pool_ok (S + mset table) p'"
    "frame (S + mset table) p p'"
    "prefix_views p' \<subseteq> insert (tokens, take (length tokens) (view p table n)) (prefix_views p)"
proof (cases "kp_prefix_capacity p = 0 \<or> tokens = []")
  case True
  then show thesis using that[of p] ok by (auto simp: publish_prefix_def)
next
  case nontrivial: False
  let ?S = "S + mset table"
  have c: "0 < kp_page_tokens p" by (rule pool_ok_tokens[OF ok])
  define req where "req = pages_for (kp_page_tokens p) (length tokens)"
  define pages where "pages = take req table"
  have len: "req \<le> length table"
    using h pages_for_mono[OF le, of "kp_page_tokens p"] by (simp add: holds_def req_def)
  have hp: "holds p pages (length tokens)" "view p pages (length tokens) = take (length tokens) (view p table n)"
    using holds_take[OF h le c] by (simp_all add: pages_def req_def)
  have sub: "set pages \<subseteq> set_mset ?S" by (auto simp: pages_def dest: in_set_takeD)
  show thesis
  proof (cases "map_of (kp_prefixes p) tokens")
    case (Some e)
    then have "(tokens, e) \<in> set (kp_prefixes p)" by (rule map_of_SomeD)
    from publish_existing_ok[OF ok hp(1) sub this] obtain p1 p2 where
      "for_pages retain pages p = (p1, Inr ())" "for_pages release (pe_pages e) p1 = (p2, Inr ())"
      and q: "\<And>p'. p' = next_clock p2 \<lparr> kp_prefixes := update_prefix tokens
          \<lparr> pe_pages = pages, pe_last_used = kp_clock (next_clock p2) \<rparr> (kp_prefixes (next_clock p2)) \<rparr> \<Longrightarrow>
       pool_ok ?S p' \<and> frame ?S p p' \<and>
       prefix_views p' \<subseteq> insert (tokens, view p pages (length tokens)) (prefix_views p)"
      by metis
    then show thesis
      using that q[OF refl] nontrivial le len Some hp(2)
      by (simp add: publish_prefix_def Let_def req_def[symmetric] pages_def[symmetric])
  next
    case None
    obtain p0 where p0: "evict_until (\<lambda>p. length (kp_prefixes p) < kp_prefix_capacity p) p = (p0, Inr ())"
      "pool_ok ?S p0" "keeps ?S p p0"
      using evict_until_ok[OF ok, of "\<lambda>p. length (kp_prefixes p) < kp_prefix_capacity p"] by blast
    have "tokens \<notin> fst ` set (kp_prefixes p)" using None by (simp add: map_of_eq_None_iff)
    then have new: "tokens \<notin> fst ` set (kp_prefixes p0)" using p0(3) by (auto simp: keeps_def)
    have hp0: "holds p0 pages (length tokens)" "view p0 pages (length tokens) = view p pages (length tokens)"
      using keeps_holds[OF p0(3) hp(1) sub c] by simp_all
    from publish_new_ok[OF p0(2) hp0(1) sub new] obtain p1 where
      "for_pages retain pages p0 = (p1, Inr ())"
      and q: "\<And>p'. p' = next_clock p1 \<lparr> kp_prefixes := emplace_prefix tokens
          \<lparr> pe_pages = pages, pe_last_used = kp_clock (next_clock p1) \<rparr> (kp_prefixes (next_clock p1)) \<rparr> \<Longrightarrow>
       pool_ok ?S p' \<and> frame ?S p0 p' \<and>
       prefix_views p' \<subseteq> insert (tokens, view p0 pages (length tokens)) (prefix_views p0)"
      by metis
    moreover have "frame ?S p p0" using p0(3) by (auto simp: keeps_def intro: frame_mono)
    ultimately show thesis
      using that q[OF refl] frame_trans[of ?S p p0 ?S] nontrivial le len None hp(2) hp0(2) p0(1)
        keeps_prefix_views[OF ok p0(3)]
      by (simp add: publish_prefix_def Let_def req_def[symmetric] pages_def[symmetric]) blast
  qed
qed

section \<open>Releasing and reading\<close>

lemma release_table_ok:
  assumes "pool_ok (S + mset (bt_pages t)) p"
  obtains p' where "release_table t p = ((p', t \<lparr> bt_pages := [] \<rparr>), Inr ())" "pool_ok S p'" "keeps S p p'"
proof -
  have "refs_exact (mset (bt_pages t) + (S + prefix_refs p)) p"
    using assms by (simp add: pool_ok_def ac_simps)
  then obtain p' where p': "for_pages release (bt_pages t) p = (p', Inr ())" "refs_exact (S + prefix_refs p) p'"
    "frame (S + prefix_refs p) p p'" "kp_prefixes p' = kp_prefixes p"
    by (rule release_all_exact)
  have "pool_ok S p'" using pool_ok_frame[OF assms p'(2) _ p'(4)] frame_mono[OF p'(3)] by simp
  moreover have "keeps S p p'" by (rule keeps_same_prefixes[OF p'(3,4)])
  ultimately show thesis using that p'(1) by (simp add: release_table_def)
qed

lemma materialize_ok:
  assumes "pool_ok (S + mset pages) p" "holds p pages n"
  shows "materialize pages n p = Inr (view p pages n)"
proof -
  have c: "0 < kp_page_tokens p" by (rule pool_ok_tokens[OF assms(1)])
  have "and_then (checked_page p (pages ! (t div kp_page_tokens p))) (\<lambda>page.
        let slot = t mod kp_page_tokens p in
        if pg_used page \<le> slot then Inl PastValidRows else Inr (pg_rows page ! slot)) =
      Inr (view p pages n ! t)" if t: "t < n" for t
  proof -
    have "pages ! (t div kp_page_tokens p) \<in># S + mset pages"
      using pages_div[OF t c] assms(2) by (simp add: holds_def)
    from pool_ok_page(1)[OF assms(1) this] show ?thesis
      using t assms(2) by (simp add: holds_def view_def Let_def not_le)
  qed
  then have "mapR (\<lambda>t. and_then (checked_page p (pages ! (t div kp_page_tokens p))) (\<lambda>page.
        let slot = t mod kp_page_tokens p in
        if pg_used page \<le> slot then Inl PastValidRows else Inr (pg_rows page ! slot))) [0..<n] =
      Inr (view p pages n)"
    by (simp add: mapR_Inr_iff view_def)
  then show ?thesis using assms(2) by (simp add: materialize_def holds_def)
qed

lemma new_pool_ok:
  assumes "new_pool ops dim page_tokens page_count capacity = Inr p"
  shows "pool_ok {#} p" "prefix_views p = {}"
  using assms
  by (auto simp: new_pool_def pool_ok_def refs_exact_def prefix_refs_def prefix_views_def and_then_Inr_iff
      split: if_splits)

end
