(* ===== verification/Worker_Sampling.thy ===== *)
theory Worker_Sampling
  imports Worker_Attention
begin

unbundle bit_operations_syntax

text \<open>
  Token selection of the worker's runtime (\<open>build_distribution\<close>, \<open>select_from_distribution\<close>,
  \<open>select_token\<close>, \<open>probability_of\<close> and \<open>sample_residual\<close> in
  \<open>worker/cpp/inferlab_runtime.cpp\<close>): repetition penalty, banned and allowed tokens,
  temperature, top-k, top-p and the draw from the distribution.

  Probabilities are \<open>double\<close>s, a second type with operations of its own; the two casts between
  the types are fields of the record below.  The checks of null pointers have no counterpart.
\<close>

record ('f, 'd) arith =
  ar_f :: "'f fops"
  ar_d :: "'d fops"
  ar_widen :: "'f \<Rightarrow> 'd"
  ar_narrow :: "'d \<Rightarrow> 'f"
  ar_epsilon :: 'd

record 'f sampling_config =
  sc_temperature :: 'f
  sc_top_k :: nat
  sc_top_p :: 'f
  sc_repetition_penalty :: 'f

record sampling_inputs =
  si_banned :: "nat list"
  si_allowed :: "nat list"

record 'f sampling_result =
  sr_token_id :: nat
  sr_candidate_count :: nat
  sr_selected_probability :: 'f
  sr_entropy :: 'f

record 'd distribution =
  pd_tokens :: "nat list"
  pd_probabilities :: "'d list"
  pd_entropy :: 'd

text \<open>\<open>next_uniform\<close>: one step of SplitMix64 and its top 53 bits as a fraction.\<close>

definition next_uniform :: "'d fops \<Rightarrow> 64 word \<Rightarrow> 64 word \<times> 'd" where
  "next_uniform d s =
     (let s = s + 0x9E3779B97F4A7C15;
          v = (s XOR drop_bit 30 s) * 0xBF58476D1CE4E5B9;
          v = (v XOR drop_bit 27 v) * 0x94D049BB133111EB;
          v = v XOR drop_bit 31 v
      in (s, f_mul d (f_of_nat d (unat (drop_bit 11 v)))
                     (f_div d (f_of_nat d 1) (f_of_nat d 9007199254740992))))"

definition f_le :: "'f fops \<Rightarrow> 'f \<Rightarrow> 'f \<Rightarrow> bool" where
  "f_le ops a b = (f_less ops a b \<or> f_eq ops a b)"

definition check_config ::
  "'f fops \<Rightarrow> 'f sampling_config \<Rightarrow> nat \<Rightarrow> (runtime_error, unit) result" where
  "check_config ops config vocabulary =
     (let one = f_of_nat ops 1; hundred = f_of_nat ops 100 in
      if vocabulary = 0 then Inl NoLogits
      else if \<not> f_isfinite ops (sc_temperature config) \<or> f_less ops (sc_temperature config) (f_zero ops) \<or>
              f_less ops hundred (sc_temperature config) then Inl BadTemperature
      else if \<not> f_isfinite ops (sc_top_p config) \<or> f_le ops (sc_top_p config) (f_zero ops) \<or>
              f_less ops one (sc_top_p config) then Inl BadTopP
      else if \<not> f_isfinite ops (sc_repetition_penalty config) \<or>
              f_less ops (sc_repetition_penalty config) one \<or>
              f_less ops hundred (sc_repetition_penalty config) then Inl BadPenalty
      else if vocabulary < sc_top_k config then Inl BadTopK
      else Inr ())"

definition penalize ::
  "'f fops \<Rightarrow> 'f \<Rightarrow> nat list \<Rightarrow> 'f list \<Rightarrow> (runtime_error, 'f list) result" where
  "penalize ops penalty history logits =
     and_then
       (foldR (\<lambda>token (processed, seen).
          if length logits \<le> token then Inl HistoryRange
          else if token \<in> set seen then Inr (processed, seen)
          else Inr (processed[token :=
                 (if f_less ops (processed ! token) (f_zero ops)
                  then f_mul ops (processed ! token) penalty
                  else f_div ops (processed ! token) penalty)], token # seen))
          history (logits, []))
       (\<lambda>(processed, _). Inr processed)"

definition mask_banned ::
  "'f fops \<Rightarrow> nat list \<Rightarrow> 'f list \<Rightarrow> (runtime_error, 'f list) result" where
  "mask_banned ops =
     foldR (\<lambda>token processed.
       if length processed \<le> token then Inl BannedRange
       else Inr (processed[token := f_neg_inf ops]))"

definition mask_allowed ::
  "'f fops \<Rightarrow> nat list \<Rightarrow> 'f list \<Rightarrow> (runtime_error, 'f list) result" where
  "mask_allowed ops allowed processed =
     (if allowed = [] then Inr processed
      else if list_ex (\<lambda>token. length processed \<le> token) allowed then Inl AllowedRange
      else Inr (map (\<lambda>token. if token \<in> set allowed then processed ! token else f_neg_inf ops)
                  [0..<length processed]))"

definition temper :: "'f fops \<Rightarrow> 'f \<Rightarrow> 'f list \<Rightarrow> 'f list" where
  "temper ops temperature processed =
     (if f_less ops (f_zero ops) temperature \<and> \<not> f_eq ops temperature (f_of_nat ops 1)
      then map (\<lambda>v. if f_isfinite ops v then f_div ops v temperature else v) processed
      else processed)"

text \<open>\<open>std::sort\<close> with the comparison of \<open>ranked_tokens\<close>: a higher logit first, and the lower
  token of two equal logits first.  On distinct tokens the order is total, so the sorted sequence
  is unique.\<close>

definition ranks_before :: "'f fops \<Rightarrow> 'f list \<Rightarrow> nat \<Rightarrow> nat \<Rightarrow> bool" where
  "ranks_before ops processed l r =
     (if f_eq ops (processed ! l) (processed ! r) then l < r
      else f_less ops (processed ! r) (processed ! l))"

fun rank_insert :: "'f fops \<Rightarrow> 'f list \<Rightarrow> nat \<Rightarrow> nat list \<Rightarrow> nat list" where
  "rank_insert ops processed t [] = [t]"
| "rank_insert ops processed t (x # xs) =
     (if ranks_before ops processed x t then x # rank_insert ops processed t xs else t # x # xs)"

definition ranked_tokens :: "'f fops \<Rightarrow> 'f list \<Rightarrow> nat list" where
  "ranked_tokens ops processed =
     foldr (rank_insert ops processed)
       (filter (\<lambda>token. f_isfinite ops (processed ! token)) [0..<length processed]) []"

definition probabilities_for :: "('f, 'd) arith \<Rightarrow> 'f list \<Rightarrow> nat list \<Rightarrow> 'd list" where
  "probabilities_for ar processed tokens =
     (let maximum = processed ! hd tokens;
          exps = map (\<lambda>t. f_exp (ar_d ar) (ar_widen ar (f_sub (ar_f ar) (processed ! t) maximum))) tokens;
          denominator = fold (\<lambda>p d. f_add (ar_d ar) d p) exps (f_zero (ar_d ar))
      in map (\<lambda>p. f_div (ar_d ar) p denominator) exps)"

text \<open>The \<open>do\<close>-\<open>while\<close> of top-p: how many candidates are retained.\<close>

fun top_p_retained :: "('f, 'd) arith \<Rightarrow> 'f \<Rightarrow> 'd list \<Rightarrow> 'd \<Rightarrow> nat" where
  "top_p_retained ar top_p [] cumulative = 0"
| "top_p_retained ar top_p (x # xs) cumulative =
     (let cumulative = f_add (ar_d ar) cumulative x in
      if xs \<noteq> [] \<and> f_less (ar_d ar) cumulative (ar_widen ar top_p)
      then Suc (top_p_retained ar top_p xs cumulative) else 1)"

definition distribution_entropy :: "'d fops \<Rightarrow> 'd list \<Rightarrow> 'd" where
  "distribution_entropy d probabilities =
     fold (\<lambda>p e. if f_less d (f_zero d) p then f_sub d e (f_mul d p (f_log d p)) else e)
       probabilities (f_zero d)"

text \<open>The candidates of the processed logits: temperature, ranking, top-k and top-p.\<close>

definition rank_candidates ::
  "('f, 'd) arith \<Rightarrow> 'f sampling_config \<Rightarrow> 'f list \<Rightarrow> (runtime_error, 'd distribution) result" where
  "rank_candidates ar config processed =
     (let ops = ar_f ar;
          processed = temper ops (sc_temperature config) processed;
          ranked = ranked_tokens ops processed
      in if ranked = [] then Inl AllMasked
         else
           let ranked = (if 0 < sc_top_k config \<and> sc_top_k config < length ranked
                         then take (sc_top_k config) ranked else ranked);
               ranked = (if f_less ops (sc_top_p config) (f_of_nat ops 1)
                         then take (top_p_retained ar (sc_top_p config)
                                      (probabilities_for ar processed ranked) (f_zero (ar_d ar))) ranked
                         else ranked);
               probabilities = probabilities_for ar processed ranked
           in Inr \<lparr> pd_tokens = ranked, pd_probabilities = probabilities,
                    pd_entropy = distribution_entropy (ar_d ar) probabilities \<rparr>)"

definition build_distribution ::
  "('f, 'd) arith \<Rightarrow> 'f list \<Rightarrow> nat list \<Rightarrow> 'f sampling_config \<Rightarrow> sampling_inputs \<Rightarrow>
   (runtime_error, 'd distribution) result" where
  "build_distribution ar logits history config inputs =
     (let ops = ar_f ar in
      and_then (check_config ops config (length logits)) (\<lambda>_.
      if list_ex (\<lambda>v. \<not> f_isfinite ops v) logits then Inl LogitsNotFinite
      else
        and_then (if \<not> f_eq ops (sc_repetition_penalty config) (f_of_nat ops 1)
                  then penalize ops (sc_repetition_penalty config) history logits
                  else Inr logits) (\<lambda>processed.
        and_then (mask_banned ops (si_banned inputs) processed) (\<lambda>processed.
        and_then (mask_allowed ops (si_allowed inputs) processed) (\<lambda>processed.
        rank_candidates ar config processed)))))"

text \<open>The index the draw selects: the first whose cumulative probability exceeds it, else the
  last.\<close>

fun draw_index :: "'d fops \<Rightarrow> 'd \<Rightarrow> 'd list \<Rightarrow> 'd \<Rightarrow> nat option" where
  "draw_index d draw [] cumulative = None"
| "draw_index d draw (p # ps) cumulative =
     (let cumulative = f_add d cumulative p in
      if f_less d draw cumulative then Some 0
      else map_option Suc (draw_index d draw ps cumulative))"

definition select_from_distribution ::
  "('f, 'd) arith \<Rightarrow> 'd distribution \<Rightarrow> bool \<Rightarrow> 64 word \<Rightarrow> 'f sampling_result \<times> 64 word" where
  "select_from_distribution ar dist greedy random_state =
     (if greedy
      then (\<lparr> sr_token_id = hd (pd_tokens dist), sr_candidate_count = length (pd_tokens dist),
              sr_selected_probability = f_of_nat (ar_f ar) 1, sr_entropy = f_zero (ar_f ar) \<rparr>,
            random_state)
      else
        let (random_state, draw) = next_uniform (ar_d ar) random_state;
            i = (case draw_index (ar_d ar) draw (pd_probabilities dist) (f_zero (ar_d ar)) of
                   None \<Rightarrow> length (pd_tokens dist) - 1 | Some i \<Rightarrow> i)
        in (\<lparr> sr_token_id = pd_tokens dist ! i, sr_candidate_count = length (pd_tokens dist),
              sr_selected_probability = ar_narrow ar (pd_probabilities dist ! i),
              sr_entropy = ar_narrow ar (pd_entropy dist) \<rparr>, random_state))"

definition is_greedy :: "'f fops \<Rightarrow> 'f sampling_config \<Rightarrow> bool" where
  "is_greedy ops config = f_eq ops (sc_temperature config) (f_zero ops)"

definition select_token ::
  "('f, 'd) arith \<Rightarrow> 'f list \<Rightarrow> nat list \<Rightarrow> 'f sampling_config \<Rightarrow> sampling_inputs \<Rightarrow> 64 word \<Rightarrow>
   (runtime_error, 'f sampling_result \<times> 64 word) result" where
  "select_token ar logits history config inputs random_state =
     and_then (build_distribution ar logits history config inputs) (\<lambda>dist.
       Inr (select_from_distribution ar dist (is_greedy (ar_f ar) config) random_state))"

definition probability_of :: "'d fops \<Rightarrow> 'd distribution \<Rightarrow> nat \<Rightarrow> 'd" where
  "probability_of d dist token =
     (case map_of (zip (pd_tokens dist) (pd_probabilities dist)) token of
        None \<Rightarrow> f_zero d | Some p \<Rightarrow> p)"

definition sample_residual ::
  "('f, 'd) arith \<Rightarrow> 'd distribution \<Rightarrow> 'd distribution \<Rightarrow> 64 word \<Rightarrow> 'f sampling_result \<times> 64 word" where
  "sample_residual ar target draft random_state =
     (let d = ar_d ar;
          residual = filter (\<lambda>(_, p). f_less d (f_zero d) p)
            (map (\<lambda>(t, p). (t, f_max d (f_zero d) (f_sub d p (probability_of d draft t))))
               (zip (pd_tokens target) (pd_probabilities target)));
          total = fold (\<lambda>(_, p) s. f_add d s p) residual (f_zero d)
      in if f_le d total (ar_epsilon ar) then select_from_distribution ar target False random_state
         else
           let probabilities = map (\<lambda>(_, p). f_div d p total) residual in
           select_from_distribution ar
             \<lparr> pd_tokens = map fst residual, pd_probabilities = probabilities,
               pd_entropy = fold (\<lambda>p e. f_sub d e (f_mul d p (f_log d p))) probabilities (f_zero d) \<rparr>
             False random_state)"

section \<open>What can be selected\<close>

lemma set_rank_insert: "set (rank_insert ops processed t xs) = insert t (set xs)"
  by (induction xs) auto

lemma set_ranked_tokens:
  "set (ranked_tokens ops processed) = {t. t < length processed \<and> f_isfinite ops (processed ! t)}"
proof -
  have "set (foldr (rank_insert ops processed) xs []) = set xs" for xs
    by (induction xs) (simp_all add: set_rank_insert)
  then show ?thesis by (auto simp: ranked_tokens_def)
qed

lemma penalize_length:
  "penalize ops penalty history logits = Inr processed \<Longrightarrow> length processed = length logits"
proof -
  have "foldR (\<lambda>token (processed, seen).
          if length logits \<le> token then Inl HistoryRange
          else if token \<in> set seen then Inr (processed, seen)
          else Inr (processed[token := (if f_less ops (processed ! token) (f_zero ops)
                  then f_mul ops (processed ! token) penalty
                  else f_div ops (processed ! token) penalty)], token # seen)) history (xs, seen)
       = Inr (ys, seen') \<Longrightarrow> length ys = length xs" for xs ys :: "'a list" and seen seen'
  proof (induction history arbitrary: xs seen)
    case (Cons t history)
    then show ?case by (fastforce split: if_splits)
  qed simp
  then show "penalize ops penalty history logits = Inr processed \<Longrightarrow> length processed = length logits"
    by (auto simp: penalize_def and_then_Inr_iff)
qed

lemma mask_banned_sound:
  assumes "mask_banned ops banned processed = Inr out"
  shows "length out = length processed \<and>
    (\<forall>t. if t \<in> set banned then t < length processed \<and> out ! t = f_neg_inf ops
         else out ! t = processed ! t)"
  using assms
proof (induction banned arbitrary: processed)
  case (Cons b banned)
  from Cons.prems have b: "b < length processed"
    and r: "mask_banned ops banned (processed[b := f_neg_inf ops]) = Inr out"
    by (auto simp: mask_banned_def split: if_splits)
  show ?case
  proof (intro conjI allI)
    show "length out = length processed" using Cons.IH[OF r] by simp
    fix t
    have "if t \<in> set banned then t < length processed \<and> out ! t = f_neg_inf ops
        else out ! t = processed[b := f_neg_inf ops] ! t"
      using Cons.IH[OF r] unfolding length_list_update by blast
    then show "if t \<in> set (b # banned) then t < length processed \<and> out ! t = f_neg_inf ops
        else out ! t = processed ! t" using b by (auto split: if_splits)
  qed
qed (simp add: mask_banned_def)

lemma mask_allowed_sound:
  assumes "mask_allowed ops allowed processed = Inr out"
  shows "length out = length processed"
    "allowed \<noteq> [] \<Longrightarrow> t \<notin> set allowed \<Longrightarrow> t < length processed \<Longrightarrow> out ! t = f_neg_inf ops"
    "t < length processed \<Longrightarrow> processed ! t = f_neg_inf ops \<Longrightarrow> out ! t = f_neg_inf ops"
  using assms by (auto simp: mask_allowed_def split: if_splits)

lemma temper_sound:
  "length (temper ops temperature processed) = length processed"
  "\<not> f_isfinite ops (f_neg_inf ops) \<Longrightarrow> t < length processed \<Longrightarrow> processed ! t = f_neg_inf ops \<Longrightarrow>
   \<not> f_isfinite ops (temper ops temperature processed ! t)"
  by (auto simp: temper_def)

lemma top_p_retained_pos: "xs \<noteq> [] \<Longrightarrow> 0 < top_p_retained ar top_p xs c"
  by (cases xs) (simp_all add: Let_def)

lemma rank_candidates_tokens:
  assumes d: "rank_candidates ar config p = Inr dist"
  shows "pd_tokens dist \<noteq> []" "length (pd_probabilities dist) = length (pd_tokens dist)"
    "set (pd_tokens dist) \<subseteq> set (ranked_tokens (ar_f ar) (temper (ar_f ar) (sc_temperature config) p))"
proof -
  define q where "q = temper (ar_f ar) (sc_temperature config) p"
  define r where "r = ranked_tokens (ar_f ar) q"
  define r1 where "r1 = (if 0 < sc_top_k config \<and> sc_top_k config < length r then take (sc_top_k config) r else r)"
  define r2 where "r2 = (if f_less (ar_f ar) (sc_top_p config) (f_of_nat (ar_f ar) 1)
      then take (top_p_retained ar (sc_top_p config) (probabilities_for ar q r1) (f_zero (ar_d ar))) r1 else r1)"
  have r: "r \<noteq> []" and dist: "dist = \<lparr> pd_tokens = r2, pd_probabilities = probabilities_for ar q r2,
      pd_entropy = distribution_entropy (ar_d ar) (probabilities_for ar q r2) \<rparr>"
    using d unfolding rank_candidates_def Let_def q_def[symmetric] r_def[symmetric] r1_def[symmetric]
      r2_def[symmetric] by (auto split: if_splits)
  have r1: "r1 \<noteq> []" "set r1 \<subseteq> set r" using r by (auto simp: r1_def dest: in_set_takeD)
  have "probabilities_for ar q r1 \<noteq> []" using r1 by (simp add: probabilities_for_def Let_def)
  then have r2: "r2 \<noteq> []" "set r2 \<subseteq> set r1"
    using r1 top_p_retained_pos[of "probabilities_for ar q r1"] by (auto simp: r2_def dest: in_set_takeD)
  then show "pd_tokens dist \<noteq> []" "length (pd_probabilities dist) = length (pd_tokens dist)"
    "set (pd_tokens dist) \<subseteq> set (ranked_tokens (ar_f ar) (temper (ar_f ar) (sc_temperature config) p))"
    using r1(2) by (auto simp: dist probabilities_for_def Let_def r_def q_def)
qed

text \<open>Every candidate is in the vocabulary, none is banned, and when a grammar allows some tokens
  only those are candidates; there is at least one.\<close>

lemma build_distribution_tokens:
  assumes b: "build_distribution ar logits history config inputs = Inr dist"
    and inf: "\<not> f_isfinite (ar_f ar) (f_neg_inf (ar_f ar))"
  shows "pd_tokens dist \<noteq> []" "length (pd_probabilities dist) = length (pd_tokens dist)"
    "set (pd_tokens dist) \<subseteq> {t. t < length logits \<and> t \<notin> set (si_banned inputs) \<and>
        (si_allowed inputs \<noteq> [] \<longrightarrow> t \<in> set (si_allowed inputs))}"
proof -
  from b obtain p1 p2 p3 where
    p1: "(if \<not> f_eq (ar_f ar) (sc_repetition_penalty config) (f_of_nat (ar_f ar) 1)
          then penalize (ar_f ar) (sc_repetition_penalty config) history logits else Inr logits) = Inr p1"
    and p2: "mask_banned (ar_f ar) (si_banned inputs) p1 = Inr p2"
    and p3: "mask_allowed (ar_f ar) (si_allowed inputs) p2 = Inr p3"
    and d: "rank_candidates ar config p3 = Inr dist"
    unfolding build_distribution_def Let_def and_then_Inr_iff if_Inl_Inr_iff by auto
  note rk = rank_candidates_tokens[OF d]
  show "pd_tokens dist \<noteq> []" "length (pd_probabilities dist) = length (pd_tokens dist)"
    by (fact rk)+
  have l: "length p1 = length logits" using p1 penalize_length by (auto split: if_splits)
  have "t < length logits \<and> t \<notin> set (si_banned inputs) \<and>
        (si_allowed inputs \<noteq> [] \<longrightarrow> t \<in> set (si_allowed inputs))"
    if "t \<in> set (ranked_tokens (ar_f ar) (temper (ar_f ar) (sc_temperature config) p3))" for t
  proof -
    have t: "t < length p3" "f_isfinite (ar_f ar) (temper (ar_f ar) (sc_temperature config) p3 ! t)"
      using that by (simp_all add: set_ranked_tokens temper_sound(1))
    then have "p3 ! t \<noteq> f_neg_inf (ar_f ar)" using temper_sound(2)[OF inf] by blast
    moreover have "t \<in> set (si_banned inputs) \<Longrightarrow> p2 ! t = f_neg_inf (ar_f ar)"
      using mask_banned_sound[OF p2] by presburger
    moreover have "length p2 = length logits" using l mask_banned_sound[OF p2] by simp
    ultimately show ?thesis using t mask_allowed_sound[OF p3] by metis
  qed
  then show "set (pd_tokens dist) \<subseteq> {t. t < length logits \<and> t \<notin> set (si_banned inputs) \<and>
        (si_allowed inputs \<noteq> [] \<longrightarrow> t \<in> set (si_allowed inputs))}"
    using rk(3) by auto
qed

lemma draw_index_bound: "draw_index d draw ps c = Some i \<Longrightarrow> i < length ps"
  by (induction ps arbitrary: c i) (auto simp: Let_def split: if_splits)

lemma select_from_distribution_in:
  assumes "pd_tokens dist \<noteq> []" "length (pd_probabilities dist) = length (pd_tokens dist)"
  shows "sr_token_id (fst (select_from_distribution ar dist greedy s)) \<in> set (pd_tokens dist)"
  using assms
  by (auto simp: select_from_distribution_def Let_def split: prod.splits option.splits
      dest!: draw_index_bound)

lemma select_token_sound:
  assumes "select_token ar logits history config inputs s = Inr (r, s')"
    and "\<not> f_isfinite (ar_f ar) (f_neg_inf (ar_f ar))"
  shows "sr_token_id r < length logits" "sr_token_id r \<notin> set (si_banned inputs)"
    "si_allowed inputs \<noteq> [] \<Longrightarrow> sr_token_id r \<in> set (si_allowed inputs)"
proof -
  from assms(1) obtain dist where d: "build_distribution ar logits history config inputs = Inr dist"
    and r: "select_from_distribution ar dist (is_greedy (ar_f ar) config) s = (r, s')"
    by (auto simp: select_token_def and_then_Inr_iff)
  note b = build_distribution_tokens[OF d assms(2)]
  have "sr_token_id r \<in> set (pd_tokens dist)"
    using select_from_distribution_in[OF b(1,2), of ar "is_greedy (ar_f ar) config" s] r by simp
  then show "sr_token_id r < length logits" "sr_token_id r \<notin> set (si_banned inputs)"
    "si_allowed inputs \<noteq> [] \<Longrightarrow> sr_token_id r \<in> set (si_allowed inputs)"
    using b(3) by auto
qed

lemma select_token_greedy:
  assumes "is_greedy (ar_f ar) config" "select_token ar logits history config inputs s = Inr (r, s')"
  shows "s' = s" "select_token ar logits history config inputs u = Inr (r, u)"
  using assms by (auto simp: select_token_def and_then_Inr_iff select_from_distribution_def)

end
