(* ===== verification/Worker_Session.thy ===== *)
theory Worker_Session
  imports Worker_Model Worker_Page_Safety Worker_Sampling
begin

unbundle bit_operations_syntax

text \<open>
  Decoding sessions of the worker's runtime (\<open>Session\<close>, \<open>inferlab_session_create\<close>,
  \<open>inferlab_session_next\<close>, \<open>inferlab_session_free\<close> and the tokeniser in
  \<open>worker/cpp/inferlab_runtime.cpp\<close>): the three cache modes, the growth and truncation of the
  context, speculative decoding with a draft model, and the steps a client takes.

  A session and the pool it shares with the other sessions of its model are passed together; an
  exception keeps what was changed before it.  The key and value caches of the contiguous mode are
  one list of rows.
\<close>

section \<open>Tokens\<close>

definition bos_token :: nat where "bos_token = 1"

definition eos_token :: nat where "eos_token = 2"

definition unknown_token :: nat where "unknown_token = 3"

definition lowercase_ascii :: "string \<Rightarrow> string" where
  "lowercase_ascii = map to_ascii_lower"

definition flush_word :: "string \<Rightarrow> string list" where
  "flush_word current = (if current = [] then [] else [lowercase_ascii current])"

fun split_words :: "string \<Rightarrow> string \<Rightarrow> string list" where
  "split_words [] current = flush_word current"
| "split_words (c # cs) current =
     (if is_ascii_alphanumeric c \<or> of_char c = (39 :: nat) then split_words cs (current @ [c])
      else flush_word current @ (if c = CHR ''.'' then [''.''] else []) @ split_words cs [])"

definition tokenize :: "'f model \<Rightarrow> string \<Rightarrow> nat list" where
  "tokenize m prompt =
     (let token_ids = bos_token # map (\<lambda>word. case map_of (token_lookup m) word of
                        None \<Rightarrow> unknown_token | Some t \<Rightarrow> t) (split_words prompt [])
      in if context_length m < length token_ids
         then hd token_ids # drop (length token_ids - (context_length m - 1)) token_ids
         else token_ids)"

section \<open>State\<close>

datatype cache_mode = Recompute | Contiguous | Paged

record 'f speculative_step =
  sp_selection :: "'f sampling_result"
  sp_target_logits :: "'f list"

record 'f session =
  s_context :: "nat list"
  s_prompt_context :: "nat list"
  s_cache :: "'f row list"
  s_table :: block_table
  s_max_tokens :: nat
  s_generated :: nat
  s_prompt_tokens :: nat
  s_cache_mode :: cache_mode
  s_prompt_published :: bool
  s_prefix_cache_hit :: bool
  s_emitted_visible_token :: bool
  s_finished :: bool
  s_query_tokens :: nat
  s_kv_tokens :: nat
  s_attention_score_elements :: nat
  s_peak_cache_bytes :: nat
  s_cache_rebuilds :: nat
  s_prefix_tokens_reused :: nat
  s_random_state :: "64 word"
  s_draft_random_state :: "64 word"
  s_draft_model :: "'f model option"
  s_speculative_tokens :: nat
  s_speculative_buffer :: "'f speculative_step list"
  s_target_forward_calls :: nat
  s_draft_forward_calls :: nat
  s_speculative_cycles :: nat
  s_draft_tokens_proposed :: nat
  s_draft_tokens_accepted :: nat
  s_draft_tokens_rejected :: nat
  s_correction_tokens :: nat
  s_extra_target_tokens :: nat

definition add64 :: "nat \<Rightarrow> nat \<Rightarrow> nat" where
  "add64 a b = wrap64 (a + b)"

definition new_session ::
  "'f model \<Rightarrow> 'f model option \<Rightarrow> string \<Rightarrow> nat \<Rightarrow> cache_mode \<Rightarrow> 64 word \<Rightarrow> nat \<Rightarrow> 'f session" where
  "new_session m draft prompt maximum mode seed draft_limit =
     (let ctx = tokenize m prompt in
      \<lparr> s_context = ctx, s_prompt_context = ctx, s_cache = [],
        s_table = \<lparr> bt_pages = [], bt_cached = 0, bt_copies = 0 \<rparr>,
        s_max_tokens = maximum, s_generated = 0, s_prompt_tokens = length ctx - 1,
        s_cache_mode = mode, s_prompt_published = False, s_prefix_cache_hit = False,
        s_emitted_visible_token = False, s_finished = False, s_query_tokens = 0, s_kv_tokens = 0,
        s_attention_score_elements = 0, s_peak_cache_bytes = 0, s_cache_rebuilds = 0,
        s_prefix_tokens_reused = 0, s_random_state = seed,
        s_draft_random_state = seed XOR 0xD1B54A32D192ED03, s_draft_model = draft,
        s_speculative_tokens = draft_limit, s_speculative_buffer = [],
        s_target_forward_calls = 0, s_draft_forward_calls = 0, s_speculative_cycles = 0,
        s_draft_tokens_proposed = 0, s_draft_tokens_accepted = 0, s_draft_tokens_rejected = 0,
        s_correction_tokens = 0, s_extra_target_tokens = 0 \<rparr>)"

definition session_create ::
  "'f model \<Rightarrow> 'f model option \<Rightarrow> string \<Rightarrow> nat \<Rightarrow> nat \<Rightarrow> 64 word \<Rightarrow> nat \<Rightarrow> 'f kv_pool \<Rightarrow>
   'f kv_pool \<times> (runtime_error, 'f session) result" where
  "session_create m draft prompt max_tokens mode seed speculative_tokens p =
     (if max_tokens = 0 \<or> context_length m < max_tokens then (p, Inl MaxTokensRange)
      else if 2 < mode then (p, Inl CacheModeUnknown)
      else if (draft = None) \<noteq> (speculative_tokens = 0) then (p, Inl SpeculationConfig)
      else if 8 < speculative_tokens then (p, Inl SpeculationLimit)
      else if (case draft of None \<Rightarrow> False
               | Some d \<Rightarrow> vocab_size d \<noteq> vocab_size m \<or> context_length d \<noteq> context_length m \<or>
                           vocabulary d \<noteq> vocabulary m) then (p, Inl SpeculationModels)
      else
        let s = new_session m draft prompt max_tokens
                  (if mode = 0 then Recompute else if mode = 1 then Contiguous else Paged)
                  seed speculative_tokens
        in if s_cache_mode s = Paged then
             (case acquire_longest_prefix (s_context s) p of
                (p, Inl e) \<Rightarrow> (p, Inl e)
              | (p, Inr (pages, tokens, hit)) \<Rightarrow>
                  (p, Inr (s \<lparr> s_table := \<lparr> bt_pages = pages, bt_cached = tokens, bt_copies = 0 \<rparr>,
                               s_prefix_cache_hit := hit, s_prefix_tokens_reused := tokens,
                               s_prompt_published := (hit \<and> tokens = length (s_prompt_context s)) \<rparr>)))
           else (p, Inr s))"

text \<open>The destructor swallows an exception of \<open>release_table\<close>.\<close>

definition session_free :: "'f session \<Rightarrow> 'f kv_pool \<Rightarrow> 'f kv_pool" where
  "session_free s p =
     (if s_cache_mode s = Paged then fst (fst (release_table (s_table s) p)) else p)"

definition cache_bytes :: "'f model \<Rightarrow> 'f session \<Rightarrow> nat" where
  "cache_bytes m s =
     (if s_cache_mode s = Paged then wrap64 (bt_cached (s_table s) * dimension m * 2 * 4)
      else (length (concat (map fst (s_cache s))) + length (concat (map snd (s_cache s)))) * 4)"

section \<open>The caches\<close>

definition note_peak :: "'f model \<Rightarrow> 'f session \<Rightarrow> 'f session" where
  "note_peak m s = s \<lparr> s_peak_cache_bytes := max (s_peak_cache_bytes s) (cache_bytes m s) \<rparr>"

text \<open>The loops of \<open>ensure_cache\<close> over the positions that are not cached yet.\<close>

fun fill_pages ::
  "'f fops \<Rightarrow> 'f model \<Rightarrow> nat list \<Rightarrow> 'f session \<times> 'f kv_pool \<Rightarrow>
   ('f session \<times> 'f kv_pool) \<times> (runtime_error, unit) result" where
  "fill_pages ops m [] (s, p) = ((s, p), Inr ())"
| "fill_pages ops m (position # positions) (s, p) =
     (case append_key_value ops m (s_context s ! position) position of
        Inl e \<Rightarrow> ((s, p), Inl e)
      | Inr row \<Rightarrow>
          case append_row row (s_table s) p of
            ((p, t), Inl e) \<Rightarrow> ((s \<lparr> s_table := t \<rparr>, p), Inl e)
          | ((p, t), Inr _) \<Rightarrow>
              fill_pages ops m positions
                (s \<lparr> s_table := t, s_kv_tokens := inc64 (s_kv_tokens s) \<rparr>, p))"

fun fill_rows ::
  "'f fops \<Rightarrow> 'f model \<Rightarrow> nat list \<Rightarrow> 'f session \<Rightarrow> 'f session \<times> (runtime_error, unit) result" where
  "fill_rows ops m [] s = (s, Inr ())"
| "fill_rows ops m (position # positions) s =
     (case append_key_value ops m (s_context s ! position) position of
        Inl e \<Rightarrow> (s, Inl e)
      | Inr row \<Rightarrow>
          fill_rows ops m positions
            (s \<lparr> s_cache := s_cache s @ [row], s_kv_tokens := inc64 (s_kv_tokens s) \<rparr>))"

definition ensure_cache ::
  "'f fops \<Rightarrow> 'f model \<Rightarrow> 'f session \<times> 'f kv_pool \<Rightarrow>
   ('f session \<times> 'f kv_pool) \<times> (runtime_error, unit) result" where
  "ensure_cache ops m = (\<lambda>(s, p).
     if s_cache_mode s = Paged then
       if length (s_context s) < bt_cached (s_table s) then ((s, p), Inl CacheExceedsContext)
       else
         (case fill_pages ops m [bt_cached (s_table s)..<length (s_context s)] (s, p) of
            ((s, p), Inl e) \<Rightarrow> ((s, p), Inl e)
          | ((s, p), Inr _) \<Rightarrow>
              if \<not> s_prompt_published s \<and> length (s_prompt_context s) \<le> bt_cached (s_table s) then
                (case publish_prefix (s_prompt_context s) (bt_pages (s_table s)) (bt_cached (s_table s)) p of
                   (p, Inl e) \<Rightarrow> ((s, p), Inl e)
                 | (p, Inr _) \<Rightarrow> ((note_peak m (s \<lparr> s_prompt_published := True \<rparr>), p), Inr ()))
              else ((note_peak m s, p), Inr ()))
     else
       let keys = length (concat (map fst (s_cache s))); vals = length (concat (map snd (s_cache s)));
           cached_tokens = keys div dimension m
       in if keys \<noteq> vals \<or> keys mod dimension m \<noteq> 0 \<or> length (s_context s) < cached_tokens
          then ((s, p), Inl CacheInconsistent)
          else
            (case fill_rows ops m [cached_tokens..<length (s_context s)] s of
               (s, Inl e) \<Rightarrow> ((s, p), Inl e)
             | (s, Inr _) \<Rightarrow> ((note_peak m s, p), Inr ())))"

text \<open>The context keeps its first token when it slides.\<close>

definition slide :: "'f model \<Rightarrow> nat list \<Rightarrow> nat \<Rightarrow> nat list" where
  "slide m ctx token =
     (let ctx = ctx @ [token] in
      if length ctx \<le> context_length m then ctx else take 1 ctx @ drop 2 ctx)"

definition append_context ::
  "'f model \<Rightarrow> nat \<Rightarrow> 'f session \<times> 'f kv_pool \<Rightarrow>
   ('f session \<times> 'f kv_pool) \<times> (runtime_error, unit) result" where
  "append_context m token = (\<lambda>(s, p).
     let over = (context_length m < length (s_context s) + 1);
         s = s \<lparr> s_context := slide m (s_context s) token \<rparr>
     in if \<not> over then ((s, p), Inr ())
        else case s_cache_mode s of
               Recompute \<Rightarrow> ((s, p), Inr ())
             | Contiguous \<Rightarrow>
                 ((s \<lparr> s_cache := [], s_cache_rebuilds := inc64 (s_cache_rebuilds s) \<rparr>, p), Inr ())
             | Paged \<Rightarrow>
                 (case release_table (s_table s) p of
                    ((p, t), Inl e) \<Rightarrow> ((s \<lparr> s_table := t \<rparr>, p), Inl e)
                  | ((p, t), Inr _) \<Rightarrow>
                      ((s \<lparr> s_table := t \<lparr> bt_cached := 0 \<rparr>, s_prompt_published := True,
                           s_cache_rebuilds := inc64 (s_cache_rebuilds s) \<rparr>, p), Inr ())))"

section \<open>Speculation\<close>

definition speculation_enabled :: "'f session \<Rightarrow> bool" where
  "speculation_enabled s = (s_draft_model s \<noteq> None \<and> 0 < s_speculative_tokens s)"

text \<open>The proposals of the draft model, each with the distribution it was drawn from.\<close>

fun propose ::
  "('f, 'd) arith \<Rightarrow> 'f model \<Rightarrow> 'f sampling_config \<Rightarrow> sampling_inputs \<Rightarrow> nat \<Rightarrow> nat list \<Rightarrow>
   'f session \<Rightarrow> 'f session \<times> (runtime_error, (nat \<times> 'd distribution) list) result" where
  "propose ar draft config inputs 0 draft_context s = (s, Inr [])"
| "propose ar draft config inputs (Suc n) draft_context s =
     (case forward (ar_f ar) draft draft_context of
        Inl e \<Rightarrow> (s, Inl e)
      | Inr logits \<Rightarrow>
          let s = s \<lparr> s_draft_forward_calls := inc64 (s_draft_forward_calls s) \<rparr> in
          case build_distribution ar logits draft_context config inputs of
            Inl e \<Rightarrow> (s, Inl e)
          | Inr dist \<Rightarrow>
              let (selected, state) = select_from_distribution ar dist (is_greedy (ar_f ar) config)
                                        (s_draft_random_state s);
                  s = s \<lparr> s_draft_random_state := state \<rparr>;
                  token = sr_token_id selected
              in if token = eos_token then (s, Inr [(token, dist)])
                 else case propose ar draft config inputs n (draft_context @ [token]) s of
                        (s, Inl e) \<Rightarrow> (s, Inl e)
                      | (s, Inr proposals) \<Rightarrow> (s, Inr ((token, dist) # proposals)))"

text \<open>The target's verdict on one proposal: its output, and whether the proposal is rejected.\<close>

definition judge ::
  "('f, 'd) arith \<Rightarrow> 'f sampling_config \<Rightarrow> 'd distribution \<Rightarrow> nat \<times> 'd distribution \<Rightarrow> 'f session \<Rightarrow>
   'f session \<times> 'f sampling_result \<times> bool" where
  "judge ar config target proposal s =
     (let d = ar_d ar; (token, draft) = proposal;
          reject = (\<lambda>s. s \<lparr> s_draft_tokens_rejected := inc64 (s_draft_tokens_rejected s),
                            s_correction_tokens := inc64 (s_correction_tokens s) \<rparr>);
          accept = (\<lambda>s. s \<lparr> s_draft_tokens_accepted := inc64 (s_draft_tokens_accepted s) \<rparr>)
      in if is_greedy (ar_f ar) config then
           let (output, state) = select_from_distribution ar target True (s_random_state s);
               s = s \<lparr> s_random_state := state \<rparr>
           in if sr_token_id output \<noteq> token then (reject s, output, True) else (accept s, output, False)
         else
           let target_probability = probability_of d target token;
               draft_probability = probability_of d draft token;
               acceptance = (if f_eq d draft_probability (f_zero d) then f_of_nat d 1
                             else f_min d (f_of_nat d 1) (f_div d target_probability draft_probability));
               (state, uniform) = next_uniform d (s_random_state s);
               s = s \<lparr> s_random_state := state \<rparr>
           in if f_less d uniform acceptance
              then (accept s, \<lparr> sr_token_id = token, sr_candidate_count = length (pd_tokens target),
                                sr_selected_probability = ar_narrow ar target_probability,
                                sr_entropy = ar_narrow ar (pd_entropy target) \<rparr>, False)
              else
                let (output, state) = sample_residual ar target draft (s_random_state s) in
                (reject (s \<lparr> s_random_state := state \<rparr>), output, True))"

fun verify ::
  "('f, 'd) arith \<Rightarrow> 'f sampling_config \<Rightarrow> sampling_inputs \<Rightarrow> nat list \<Rightarrow> 'f list list \<Rightarrow> nat \<Rightarrow>
   (nat \<times> 'd distribution) list \<Rightarrow> 'f session \<Rightarrow> 'f session \<times> (runtime_error, bool) result" where
  "verify ar config inputs vctx rows history [] s = (s, Inr False)"
| "verify ar config inputs vctx rows history (proposal # proposals) s =
     (let target_logits = rows ! (history - 1) in
      case build_distribution ar target_logits (take history vctx) config inputs of
        Inl e \<Rightarrow> (s, Inl e)
      | Inr target \<Rightarrow>
          let (s, output, rejected) = judge ar config target proposal s;
              s = s \<lparr> s_speculative_buffer := s_speculative_buffer s @
                        [\<lparr> sp_selection = output, sp_target_logits = target_logits \<rparr>] \<rparr>
          in if rejected \<or> sr_token_id output = eos_token then (s, Inr rejected)
             else verify ar config inputs vctx rows (history + 1) proposals s)"

definition sp_token :: "'f speculative_step \<Rightarrow> nat" where
  "sp_token step = sr_token_id (sp_selection step)"

text \<open>The token the target adds when it accepted every proposal.\<close>

definition extra_target ::
  "('f, 'd) arith \<Rightarrow> 'f sampling_config \<Rightarrow> sampling_inputs \<Rightarrow> nat list \<Rightarrow> 'f list list \<Rightarrow> bool \<Rightarrow> nat \<Rightarrow>
   'f session \<Rightarrow> 'f session \<times> (runtime_error, unit) result" where
  "extra_target ar config inputs vctx rows rejected remaining s =
     (let buffer = s_speculative_buffer s in
      if \<not> rejected \<and> buffer \<noteq> [] \<and> sp_token (last buffer) \<noteq> eos_token \<and> length buffer < remaining
      then
        let target_logits = rows ! (length vctx - 1) in
        case build_distribution ar target_logits vctx config inputs of
          Inl e \<Rightarrow> (s, Inl e)
        | Inr target \<Rightarrow>
            let (output, state) = select_from_distribution ar target (is_greedy (ar_f ar) config)
                                    (s_random_state s)
            in (s \<lparr> s_random_state := state,
                    s_speculative_buffer := buffer @
                      [\<lparr> sp_selection = output, sp_target_logits = target_logits \<rparr>],
                    s_extra_target_tokens := inc64 (s_extra_target_tokens s) \<rparr>, Inr ())
      else (s, Inr ()))"

fun append_buffer ::
  "'f model \<Rightarrow> 'f speculative_step list \<Rightarrow> 'f session \<times> 'f kv_pool \<Rightarrow>
   ('f session \<times> 'f kv_pool) \<times> (runtime_error, unit) result" where
  "append_buffer m [] sp = (sp, Inr ())"
| "append_buffer m (step # steps) sp =
     (case append_context m (sp_token step) sp of
        (sp, Inl e) \<Rightarrow> (sp, Inl e)
      | (sp, Inr _) \<Rightarrow> if sp_token step = eos_token then (sp, Inr ()) else append_buffer m steps sp)"

definition proposal_limit :: "'f model \<Rightarrow> 'f session \<Rightarrow> nat" where
  "proposal_limit m s =
     min (s_speculative_tokens s)
       (min (s_max_tokens s - s_generated s - 1) (context_length m - length (s_context s)))"

definition plan_speculative ::
  "('f, 'd) arith \<Rightarrow> 'f model \<Rightarrow> 'f sampling_config \<Rightarrow> sampling_inputs \<Rightarrow> 'f session \<times> 'f kv_pool \<Rightarrow>
   ('f session \<times> 'f kv_pool) \<times> (runtime_error, unit) result" where
  "plan_speculative ar m config inputs = (\<lambda>(s, p).
     if s_speculative_buffer s \<noteq> [] then ((s, p), Inr ())
     else case s_draft_model s of
       None \<Rightarrow> ((s, p), Inl SpeculationDisabled)
     | Some draft \<Rightarrow>
         if s_speculative_tokens s = 0 then ((s, p), Inl SpeculationDisabled)
         else if si_allowed inputs \<noteq> [] then ((s, p), Inl SpeculationConstrained)
         else if proposal_limit m s = 0 then ((s, p), Inl SpeculationRoom)
         else
           let remaining = s_max_tokens s - s_generated s; ctx = s_context s in
           case propose ar draft config inputs (proposal_limit m s) ctx s of
             (s, Inl e) \<Rightarrow> ((s, p), Inl e)
           | (s, Inr proposals) \<Rightarrow>
               let vctx = ctx @ map fst proposals in
               case forward_all (ar_f ar) m vctx of
                 Inl e \<Rightarrow> ((s, p), Inl e)
               | Inr rows \<Rightarrow>
                   let n = length vctx;
                       s = s \<lparr> s_target_forward_calls := inc64 (s_target_forward_calls s),
                               s_speculative_cycles := inc64 (s_speculative_cycles s),
                               s_draft_tokens_proposed := add64 (s_draft_tokens_proposed s) (length proposals),
                               s_query_tokens := add64 (s_query_tokens s) n,
                               s_kv_tokens := add64 (s_kv_tokens s) n,
                               s_attention_score_elements :=
                                 add64 (s_attention_score_elements s) (wrap64 (m_heads m * n * (n + 1)) div 2) \<rparr>
                   in case verify ar config inputs vctx rows (length ctx) proposals s of
                        (s, Inl e) \<Rightarrow> ((s, p), Inl e)
                      | (s, Inr rejected) \<Rightarrow>
                          case extra_target ar config inputs vctx rows rejected remaining s of
                            (s, Inl e) \<Rightarrow> ((s, p), Inl e)
                          | (s, Inr _) \<Rightarrow> append_buffer m (s_speculative_buffer s) (s, p))"

section \<open>One step\<close>

text \<open>The scores of the plain path, in each cache mode.\<close>

definition plain_scores ::
  "'f fops \<Rightarrow> 'f model \<Rightarrow> 'f session \<times> 'f kv_pool \<Rightarrow>
   ('f session \<times> 'f kv_pool) \<times> (runtime_error, 'f list) result" where
  "plain_scores ops m = (\<lambda>(s, p).
     let tokens = length (s_context s); heads = m_heads m in
     if s_cache_mode s \<noteq> Recompute then
       (case ensure_cache ops m (s, p) of
          ((s, p), Inl e) \<Rightarrow> ((s, p), Inl e)
        | ((s, p), Inr _) \<Rightarrow>
            let s = s \<lparr> s_query_tokens := inc64 (s_query_tokens s),
                        s_attention_score_elements := add64 (s_attention_score_elements s) (heads * tokens) \<rparr>
            in ((s, p),
                if s_cache_mode s = Paged then
                  and_then (materialize (bt_pages (s_table s)) (bt_cached (s_table s)) p)
                    (\<lambda>rows. forward_cached ops m (s_context s) (map fst rows) (map snd rows))
                else forward_cached ops m (s_context s) (map fst (s_cache s)) (map snd (s_cache s))))
     else
       ((s \<lparr> s_query_tokens := add64 (s_query_tokens s) tokens,
             s_kv_tokens := add64 (s_kv_tokens s) tokens,
             s_attention_score_elements :=
               add64 (s_attention_score_elements s) (wrap64 (heads * tokens * (tokens + 1)) div 2) \<rparr>, p),
        forward ops m (s_context s)))"

record 'f step_output =
  so_result :: nat
  so_selected :: "'f sampling_result option"
  so_piece :: string
  so_logits :: "'f list"

definition render_piece :: "bool \<Rightarrow> string \<Rightarrow> string" where
  "render_piece emitted token =
     (let punctuation = token \<in> {''.'', '','', ''!'', ''?''} in
      if emitted \<and> \<not> punctuation then '' '' @ token else token)"

text \<open>The end of \<open>inferlab_session_next\<close>, once a token is selected: \<open>capacity\<close> is the size of the
  caller's text buffer.\<close>

definition emit_token ::
  "'f model \<Rightarrow> nat \<Rightarrow> 'f sampling_result \<Rightarrow> 'f list \<Rightarrow> 'f session \<Rightarrow>
   'f session \<times> (runtime_error, 'f step_output) result" where
  "emit_token m capacity selected scores s =
     (if sr_token_id selected = eos_token
      then (s \<lparr> s_finished := True \<rparr>,
            Inr \<lparr> so_result = 2, so_selected = Some selected, so_piece = [], so_logits = scores \<rparr>)
      else
        let rendered = render_piece (s_emitted_visible_token s) (vocabulary m ! sr_token_id selected) in
        if capacity \<le> length rendered then (s, Inl TextBuffer)
        else (s \<lparr> s_emitted_visible_token := True \<rparr>,
              Inr \<lparr> so_result = 1, so_selected = Some selected, so_piece = rendered,
                    so_logits = scores \<rparr>))"

definition session_next ::
  "('f, 'd) arith \<Rightarrow> 'f model \<Rightarrow> nat \<Rightarrow> 'f sampling_config \<Rightarrow> sampling_inputs \<Rightarrow>
   'f session \<times> 'f kv_pool \<Rightarrow>
   ('f session \<times> 'f kv_pool) \<times> (runtime_error, 'f step_output) result" where
  "session_next ar m capacity config inputs = (\<lambda>(s, p).
     if s_finished s \<or> s_max_tokens s \<le> s_generated s
     then ((s, p), Inr \<lparr> so_result = 0, so_selected = None, so_piece = [], so_logits = [] \<rparr>)
     else
       let can_plan = (speculation_enabled s \<and> 2 \<le> s_max_tokens s - s_generated s \<and>
                       length (s_context s) < context_length m)
       in if can_plan \<or> s_speculative_buffer s \<noteq> [] then
            (case plan_speculative ar m config inputs (s, p) of
               ((s, p), Inl e) \<Rightarrow> ((s, p), Inl e)
             | ((s, p), Inr _) \<Rightarrow>
                 let step = hd (s_speculative_buffer s);
                     s = s \<lparr> s_speculative_buffer := tl (s_speculative_buffer s),
                             s_generated := s_generated s + 1 \<rparr>;
                     (s, r) = emit_token m capacity (sp_selection step) (sp_target_logits step) s
                 in ((s, p), r))
          else
            case plain_scores (ar_f ar) m (s, p) of
              ((s, p), Inl e) \<Rightarrow> ((s, p), Inl e)
            | ((s, p), Inr scores) \<Rightarrow>
                let s = s \<lparr> s_target_forward_calls := inc64 (s_target_forward_calls s) \<rparr> in
                case select_token ar scores (s_context s) config inputs (s_random_state s) of
                  Inl e \<Rightarrow> ((s, p), Inl e)
                | Inr (selected, state) \<Rightarrow>
                    let s = s \<lparr> s_random_state := state, s_generated := s_generated s + 1 \<rparr> in
                    case append_context m (sr_token_id selected) (s, p) of
                      ((s, p), Inl e) \<Rightarrow> ((s, p), Inl e)
                    | ((s, p), Inr _) \<Rightarrow>
                        let (s, r) = emit_token m capacity selected scores s in ((s, p), r))"

end
