(* ===== verification/Worker_Decoding_Safety.thy ===== *)
theory Worker_Decoding_Safety
  imports Worker_Session
begin

text \<open>
  What a session computes does not depend on its cache mode, on the other sessions it shares pages
  with, or on a draft model: every step is compared with a session that recomputes the whole
  context, alone and without speculation.
\<close>

section \<open>Cached rows describe the context\<close>

definition describes :: "'f fops \<Rightarrow> 'f model \<Rightarrow> nat list \<Rightarrow> 'f row list \<Rightarrow> bool" where
  "describes ops m ctx rows \<longleftrightarrow> length rows \<le> length ctx \<and>
     (\<forall>i<length rows. append_key_value ops m (ctx ! i) i = Inr (rows ! i))"

lemma describes_snoc:
  "describes ops m ctx rows \<Longrightarrow> length rows < length ctx \<Longrightarrow>
   append_key_value ops m (ctx ! length rows) (length rows) = Inr row \<Longrightarrow> describes ops m ctx (rows @ [row])"
  by (auto simp: describes_def nth_append less_Suc_eq)

lemma describes_extend: "describes ops m ctx rows \<Longrightarrow> describes ops m (ctx @ ys) rows"
  by (auto simp: describes_def nth_append)

lemma describes_take: "describes ops m ctx rows \<Longrightarrow> describes ops m (take n ctx) (take n rows)"
  by (auto simp: describes_def)

lemma describes_prefix: "describes ops m (take n ctx) rows \<Longrightarrow> describes ops m ctx rows"
  by (auto simp: describes_def)

lemma describes_full:
  "describes ops m ctx rows \<Longrightarrow> length rows = length ctx \<Longrightarrow> context_rows ops m ctx = Inr rows"
  by (simp add: describes_def context_rows_def mapR_Inr_iff)

lemma append_key_value_dims:
  assumes "append_key_value ops m t i = Inr row"
  shows "length (fst row) = dimension m" "length (snd row) = dimension m"
proof -
  have first: "length (hd out) = dimension m"
    if "linear ops (dimension m) w (dimension m) None [x] = Inr out" for w x out
    using linear_columns[OF that, of 0] linear_length[OF that] by (cases out) auto
  show "length (fst row) = dimension m" "length (snd row) = dimension m"
    using assms by (auto simp: append_key_value_def layer_norm_def Let_def and_then_Inr_iff
        split: if_splits dest: first)
qed

definition prefixes_ok :: "'f fops \<Rightarrow> 'f model \<Rightarrow> 'f kv_pool \<Rightarrow> bool" where
  "prefixes_ok ops m p \<longleftrightarrow>
     (\<forall>(k, rows) \<in> prefix_views p. length rows = length k \<and> describes ops m k rows)"

lemma prefixes_ok_mono: "prefixes_ok ops m p \<Longrightarrow> prefix_views p' \<subseteq> prefix_views p \<Longrightarrow> prefixes_ok ops m p'"
  by (auto simp: prefixes_ok_def)

definition cache_ok :: "'f fops \<Rightarrow> 'f model \<Rightarrow> 'f session \<Rightarrow> 'f kv_pool \<Rightarrow> bool" where
  "cache_ok ops m s p \<longleftrightarrow>
     (case s_cache_mode s of
        Recompute \<Rightarrow> bt_pages (s_table s) = []
      | Contiguous \<Rightarrow> bt_pages (s_table s) = [] \<and> describes ops m (s_context s) (s_cache s)
      | Paged \<Rightarrow>
          holds p (bt_pages (s_table s)) (bt_cached (s_table s)) \<and>
          describes ops m (s_context s) (view p (bt_pages (s_table s)) (bt_cached (s_table s))) \<and>
          (\<not> s_prompt_published s \<longrightarrow>
             take (length (s_prompt_context s)) (s_context s) = s_prompt_context s))"

text \<open>A session and the pool, given the references \<open>S\<close> of the other sessions.\<close>

definition session_ok ::
  "'f fops \<Rightarrow> 'f model \<Rightarrow> nat multiset \<Rightarrow> 'f session \<times> 'f kv_pool \<Rightarrow> bool" where
  "session_ok ops m S = (\<lambda>(s, p).
     pool_ok (S + mset (bt_pages (s_table s))) p \<and> prefixes_ok ops m p \<and> cache_ok ops m s p)"

definition same_core :: "'f session \<Rightarrow> 'f session \<Rightarrow> bool" where
  "same_core s s' \<longleftrightarrow>
     s_context s' = s_context s \<and> s_prompt_context s' = s_prompt_context s \<and>
     s_max_tokens s' = s_max_tokens s \<and> s_generated s' = s_generated s \<and>
     s_cache_mode s' = s_cache_mode s \<and> s_emitted_visible_token s' = s_emitted_visible_token s \<and>
     s_finished s' = s_finished s \<and> s_random_state s' = s_random_state s \<and>
     s_draft_model s' = s_draft_model s \<and> s_speculative_tokens s' = s_speculative_tokens s \<and>
     s_speculative_buffer s' = s_speculative_buffer s"

lemma same_core_refl [simp]: "same_core s s" by (simp add: same_core_def)

lemma same_core_trans: "same_core s s' \<Longrightarrow> same_core s' s'' \<Longrightarrow> same_core s s''"
  by (simp add: same_core_def)

lemma view_length [simp]: "length (view p pages n) = n"
  by (simp add: view_def)

lemma keeps_frame: "keeps S p p' \<Longrightarrow> frame S p p'"
  by (auto simp: keeps_def intro: frame_mono)

section \<open>Filling the cache\<close>

lemma fill_pages_ok:
  assumes "session_ok ops m S (s, p)" "s_cache_mode s = Paged"
    "fill_pages ops m [bt_cached (s_table s)..<length (s_context s)] (s, p) = ((s', p'), r)"
  shows "session_ok ops m S (s', p') \<and> frame S p p' \<and> same_core s s' \<and>
    s_prompt_published s' = s_prompt_published s \<and>
    (r = Inr () \<longrightarrow> bt_cached (s_table s') = length (s_context s))"
  using assms
proof (induction "length (s_context s) - bt_cached (s_table s)" arbitrary: s p)
  case 0
  have "bt_cached (s_table s) \<le> length (s_context s)"
    using 0(2,3) by (auto simp: session_ok_def cache_ok_def describes_def)
  then have "bt_cached (s_table s) = length (s_context s)" using 0(1) by simp
  then show ?case using 0 by simp
next
  case (Suc n)
  let ?c = "bt_cached (s_table s)"
  from Suc.hyps(2) have lt: "?c < length (s_context s)" by simp
  have upt: "[?c..<length (s_context s)] = ?c # [Suc ?c..<length (s_context s)]"
    using lt by (rule upt_conv_Cons)
  show ?case
  proof (cases "append_key_value ops m (s_context s ! ?c) ?c")
    case (Inl e)
    then show ?thesis using Suc.prems upt by (auto simp: same_core_def)
  next
    case (Inr row)
    obtain p1 t r1 where a: "append_row row (s_table s) p = ((p1, t), r1)" by (metis surj_pair)
    have ok: "pool_ok (S + mset (bt_pages (s_table s))) p" "holds p (bt_pages (s_table s)) ?c"
      and pre: "prefixes_ok ops m p"
      and desc: "describes ops m (s_context s) (view p (bt_pages (s_table s)) ?c)"
      using Suc.prems(1,2) by (auto simp: session_ok_def cache_ok_def)
    from append_row_ok[OF ok, of row] have ap: "pool_ok (S + mset (bt_pages t)) p1" "keeps S p p1"
      "holds p1 (bt_pages t) (bt_cached t)"
      and res: "case r1 of
           Inr _ \<Rightarrow> bt_cached t = Suc ?c \<and>
             view p1 (bt_pages t) (bt_cached t) = view p (bt_pages (s_table s)) ?c @ [row]
         | Inl e \<Rightarrow> t = s_table s \<and> e \<in> {RowDimension, TailInconsistent, CapacityExhausted} \<and>
             view p1 (bt_pages (s_table s)) ?c = view p (bt_pages (s_table s)) ?c"
      by (auto simp: appended_def a)
    have pre1: "prefixes_ok ops m p1"
      using prefixes_ok_mono[OF pre keeps_prefix_views[OF ok(1) ap(2)]] .
    show ?thesis
    proof (cases r1)
      case (Inl e)
      then have "s' = s \<lparr> s_table := t \<rparr>" "p' = p1" "r = Inl e"
        using Suc.prems(3) upt Inr a by auto
      then show ?thesis
        using Inl res ap pre1 desc Suc.prems(1,2) keeps_frame[OF ap(2)]
        by (auto simp: session_ok_def cache_ok_def same_core_def)
    next
      case (Inr u)
      let ?s = "s \<lparr> s_table := t, s_kv_tokens := inc64 (s_kv_tokens s) \<rparr>"
      have t: "bt_cached t = Suc ?c" "view p1 (bt_pages t) (Suc ?c) = view p (bt_pages (s_table s)) ?c @ [row]"
        using res Inr by auto
      have "describes ops m (s_context s) (view p1 (bt_pages t) (Suc ?c))"
        unfolding t(2) using describes_snoc[OF desc] lt \<open>append_key_value ops m _ _ = Inr row\<close> by simp
      then have s1: "session_ok ops m S (?s, p1)"
        using ap pre1 t Suc.prems(1,2) by (auto simp: session_ok_def cache_ok_def)
      have "fill_pages ops m [bt_cached (s_table ?s)..<length (s_context ?s)] (?s, p1) = ((s', p'), r)"
        using Suc.prems(3) upt \<open>append_key_value ops m _ _ = Inr row\<close> a Inr t by simp
      from Suc.hyps(1)[OF _ s1 _ this] have ih: "session_ok ops m S (s', p') \<and> frame S p1 p' \<and> same_core ?s s' \<and>
          s_prompt_published s' = s_prompt_published s \<and>
          (r = Inr () \<longrightarrow> bt_cached (s_table s') = length (s_context s))"
        using Suc.hyps(2) t Suc.prems(2) by auto
      moreover have "same_core s ?s" by (simp add: same_core_def)
      ultimately show ?thesis
        using frame_trans[OF keeps_frame[OF ap(2)], of S p'] same_core_trans by blast
    qed
  qed
qed

lemma fill_rows_ok:
  assumes "describes ops m (s_context s) (s_cache s)"
    "fill_rows ops m [length (s_cache s)..<length (s_context s)] s = (s', r)"
  shows "describes ops m (s_context s) (s_cache s') \<and> same_core s s' \<and> s_table s' = s_table s \<and>
    (r = Inr () \<longrightarrow> length (s_cache s') = length (s_context s))"
  using assms
proof (induction "length (s_context s) - length (s_cache s)" arbitrary: s)
  case 0
  then have "length (s_cache s) = length (s_context s)" by (simp add: describes_def)
  then show ?case using 0 by simp
next
  case (Suc n)
  let ?c = "length (s_cache s)"
  from Suc.hyps(2) have lt: "?c < length (s_context s)" by simp
  have upt: "[?c..<length (s_context s)] = ?c # [Suc ?c..<length (s_context s)]"
    using lt by (rule upt_conv_Cons)
  show ?case
  proof (cases "append_key_value ops m (s_context s ! ?c) ?c")
    case (Inl e)
    then show ?thesis using Suc.prems upt by auto
  next
    case (Inr row)
    let ?s = "s \<lparr> s_cache := s_cache s @ [row], s_kv_tokens := inc64 (s_kv_tokens s) \<rparr>"
    have "describes ops m (s_context ?s) (s_cache ?s)"
      using describes_snoc[OF Suc.prems(1) lt Inr] by simp
    moreover have "fill_rows ops m [length (s_cache ?s)..<length (s_context ?s)] ?s = (s', r)"
      using Suc.prems(2) upt Inr by simp
    ultimately have "describes ops m (s_context ?s) (s_cache s') \<and> same_core ?s s' \<and> s_table s' = s_table ?s \<and>
        (r = Inr () \<longrightarrow> length (s_cache s') = length (s_context ?s))"
      using Suc.hyps(1)[of ?s] Suc.hyps(2) by auto
    moreover have "same_core s ?s" by (simp add: same_core_def)
    ultimately show ?thesis using same_core_trans by auto
  qed
qed

lemma describes_dims:
  assumes "describes ops m ctx rows"
  shows "length (concat (map fst rows)) = length rows * dimension m"
    "length (concat (map snd rows)) = length rows * dimension m"
proof -
  have "length (fst (rows ! i)) = dimension m \<and> length (snd (rows ! i)) = dimension m"
    if "i < length rows" for i
    using assms that append_key_value_dims[of ops m "ctx ! i" i "rows ! i"] by (simp add: describes_def)
  then show "length (concat (map fst rows)) = length rows * dimension m"
    "length (concat (map snd rows)) = length rows * dimension m"
    using length_concat_uniform[of "map fst rows" "dimension m"]
      length_concat_uniform[of "map snd rows" "dimension m"] by simp_all
qed

lemma note_peak_simps [simp]:
  "s_table (note_peak m s) = s_table s" "s_cache (note_peak m s) = s_cache s"
  "s_prompt_published (note_peak m s) = s_prompt_published s" "same_core s' (note_peak m s) = same_core s' s"
  "s_cache_mode (note_peak m s) = s_cache_mode s" "s_context (note_peak m s) = s_context s"
  "s_prompt_context (note_peak m s) = s_prompt_context s"
  by (simp_all add: note_peak_def same_core_def)

lemma session_ok_note_peak [simp]: "session_ok ops m S (note_peak m' s, p) = session_ok ops m S (s, p)"
  by (simp add: session_ok_def cache_ok_def split: cache_mode.splits)

text \<open>The rows a plain step reads.\<close>

definition cached_rows :: "'f session \<Rightarrow> 'f kv_pool \<Rightarrow> 'f row list" where
  "cached_rows s p =
     (if s_cache_mode s = Paged then view p (bt_pages (s_table s)) (bt_cached (s_table s)) else s_cache s)"

lemma ensure_cache_ok:
  assumes ok: "session_ok ops m S (s, p)" and mode: "s_cache_mode s \<noteq> Recompute" and d: "0 < dimension m"
    and e: "ensure_cache ops m (s, p) = ((s', p'), r)"
  shows "session_ok ops m S (s', p') \<and> frame S p p' \<and> same_core s s' \<and>
    (r = Inr () \<longrightarrow> context_rows ops m (s_context s) = Inr (cached_rows s' p'))"
proof (cases "s_cache_mode s = Paged")
  case True
  let ?c = "bt_cached (s_table s)"
  have le: "?c \<le> length (s_context s)"
    using ok True by (auto simp: session_ok_def cache_ok_def describes_def)
  obtain s1 p1 r1 where f: "fill_pages ops m [?c..<length (s_context s)] (s, p) = ((s1, p1), r1)"
    by (metis surj_pair)
  note fp = fill_pages_ok[OF ok True f]
  have mode1: "s_cache_mode s1 = Paged" and ctx1: "s_context s1 = s_context s"
    using fp True by (auto simp: same_core_def)
  show ?thesis
  proof (cases r1)
    case (Inl err)
    then have "s' = s1" "p' = p1" "r = Inl err" using e True le f by (auto simp: ensure_cache_def)
    then show ?thesis using fp by simp
  next
    case (Inr u)
    then have full: "bt_cached (s_table s1) = length (s_context s)" using fp by simp
    have rows: "context_rows ops m (s_context s) = Inr (view p1 (bt_pages (s_table s1)) (length (s_context s)))"
      using fp mode1 full ctx1 by (intro describes_full) (auto simp: session_ok_def cache_ok_def)
    show ?thesis
    proof (cases "\<not> s_prompt_published s1 \<and> length (s_prompt_context s1) \<le> bt_cached (s_table s1)")
      case False
      then have "s' = note_peak m s1" "p' = p1" "r = Inr ()"
        using e True le f Inr by (auto simp: ensure_cache_def)
      then show ?thesis using fp rows mode1 full by (simp add: cached_rows_def)
    next
      case pub: True
      have ok1: "pool_ok (S + mset (bt_pages (s_table s1))) p1"
        "holds p1 (bt_pages (s_table s1)) (bt_cached (s_table s1))" "prefixes_ok ops m p1"
        "describes ops m (s_context s1) (view p1 (bt_pages (s_table s1)) (bt_cached (s_table s1)))"
        "take (length (s_prompt_context s1)) (s_context s1) = s_prompt_context s1"
        using fp mode1 pub by (auto simp: session_ok_def cache_ok_def)
      obtain p2 where p2: "publish_prefix (s_prompt_context s1) (bt_pages (s_table s1)) (bt_cached (s_table s1)) p1 = (p2, Inr ())"
        "pool_ok (S + mset (bt_pages (s_table s1))) p2" "frame (S + mset (bt_pages (s_table s1))) p1 p2"
        "prefix_views p2 \<subseteq> insert (s_prompt_context s1, take (length (s_prompt_context s1))
           (view p1 (bt_pages (s_table s1)) (bt_cached (s_table s1)))) (prefix_views p1)"
        using publish_ok[OF ok1(1,2), of "s_prompt_context s1"] pub by blast
      have st: "s' = note_peak m (s1 \<lparr> s_prompt_published := True \<rparr>)" "p' = p2" "r = Inr ()"
        using e True le f Inr pub p2(1) by (auto simp: ensure_cache_def)
      have "describes ops m (s_prompt_context s1) (take (length (s_prompt_context s1))
           (view p1 (bt_pages (s_table s1)) (bt_cached (s_table s1))))"
        using describes_take[OF ok1(4), of "length (s_prompt_context s1)"] ok1(5) by simp
      then have "prefixes_ok ops m p2" using p2(4) ok1(3) pub by (fastforce simp: prefixes_ok_def)
      moreover have hv: "holds p2 (bt_pages (s_table s1)) (bt_cached (s_table s1))"
        "view p2 (bt_pages (s_table s1)) (bt_cached (s_table s1)) = view p1 (bt_pages (s_table s1)) (bt_cached (s_table s1))"
        using holds_frame[OF ok1(2) p2(3) _ pool_ok_tokens[OF ok1(1)]] by auto
      ultimately have "session_ok ops m S (s', p')"
        using p2(2) ok1(4) mode1 st by (auto simp: session_ok_def cache_ok_def)
      moreover have "frame S p p'"
        using frame_trans[of S p p1 S p2] fp frame_mono[OF p2(3), of S] st by auto
      moreover have "same_core s s'" using fp st by (simp add: same_core_def note_peak_def)
      ultimately show ?thesis using st rows mode1 full hv(2) by (simp add: cached_rows_def)
    qed
  qed
next
  case False
  with mode have c: "s_cache_mode s = Contiguous" by (cases "s_cache_mode s") auto
  have desc: "describes ops m (s_context s) (s_cache s)" and t: "bt_pages (s_table s) = []"
    using ok c by (auto simp: session_ok_def cache_ok_def)
  have cached: "length (concat (map fst (s_cache s))) div dimension m = length (s_cache s)"
    using describes_dims[OF desc] d by simp
  have le: "length (s_cache s) \<le> length (s_context s)" using desc by (simp add: describes_def)
  obtain s1 r1 where f: "fill_rows ops m [length (s_cache s)..<length (s_context s)] s = (s1, r1)"
    by (cases "fill_rows ops m [length (s_cache s)..<length (s_context s)] s")
  note fr = fill_rows_ok[OF desc f]
  have st: "p' = p" "r = r1" "s' = (if r1 = Inr () then note_peak m s1 else s1)"
    using e c le f cached describes_dims[OF desc]
    by (auto simp: ensure_cache_def Let_def split: sum.splits)
  have "session_ok ops m S (s1, p)"
    using ok fr c by (auto simp: session_ok_def cache_ok_def same_core_def)
  moreover have "r1 = Inr () \<Longrightarrow> context_rows ops m (s_context s) = Inr (s_cache s1)"
    using fr by (intro describes_full) auto
  moreover have "s_cache_mode s1 = Contiguous" using fr c by (simp add: same_core_def)
  ultimately show ?thesis using st fr by (auto simp: cached_rows_def)
qed


section \<open>The plain path\<close>

text \<open>The scores of a plain step are those of the whole forward pass, whenever that succeeds.\<close>

lemma plain_scores_ok:
  assumes ok: "session_ok ops m S (s, p)" and d: "0 < dimension m" and causal: "ac_causal (m_attention m)"
    and e: "plain_scores ops m (s, p) = ((s', p'), r)"
  shows "session_ok ops m S (s', p') \<and> frame S p p' \<and> same_core s s' \<and>
    (\<forall>scores scores'. r = Inr scores \<longrightarrow> forward ops m (s_context s) = Inr scores' \<longrightarrow> scores = scores')"
proof (cases "s_cache_mode s = Recompute")
  case True
  then have "p' = p" "r = forward ops m (s_context s)" "same_core s s'" "s_table s' = s_table s"
    using e by (auto simp: plain_scores_def Let_def same_core_def)
  then show ?thesis using ok True by (auto simp: session_ok_def cache_ok_def same_core_def)
next
  case False
  obtain s1 p1 r1 where en: "ensure_cache ops m (s, p) = ((s1, p1), r1)" by (metis surj_pair)
  note ec = ensure_cache_ok[OF ok False d en]
  show ?thesis
  proof (cases r1)
    case (Inl err)
    then have "s' = s1" "p' = p1" "r = Inl err" using e en False by (auto simp: plain_scores_def Let_def)
    then show ?thesis using ec by auto
  next
    case (Inr u)
    have ctx1: "s_context s1 = s_context s" "s_cache_mode s1 = s_cache_mode s"
      using ec by (auto simp: same_core_def)
    have read: "materialize (bt_pages (s_table s1)) (bt_cached (s_table s1)) p1 = Inr (cached_rows s1 p1)"
      if "s_cache_mode s1 = Paged"
      using materialize_ok[of S "bt_pages (s_table s1)" p1 "bt_cached (s_table s1)"] ec that
      by (auto simp: session_ok_def cache_ok_def cached_rows_def)
    have st: "p' = p1" "s' = s1 \<lparr> s_query_tokens := inc64 (s_query_tokens s1),
        s_attention_score_elements := add64 (s_attention_score_elements s1) (m_heads m * length (s_context s)) \<rparr>"
      "r = forward_cached ops m (s_context s) (map fst (cached_rows s1 p1)) (map snd (cached_rows s1 p1))"
      using e en False Inr read ctx1 by (auto simp: plain_scores_def Let_def cached_rows_def split: if_splits)
    have "scores = scores'" if "r = Inr scores" "forward ops m (s_context s) = Inr scores'" for scores scores'
    proof -
      from that(2) obtain out where out: "forward_all ops m (s_context s) = Inr out" "scores' = last out"
        by (auto simp: forward_def and_then_Inr_iff)
      obtain rows where "context_rows ops m (s_context s) = Inr rows"
        "forward_cached ops m (s_context s) (map fst rows) (map snd rows) = Inr (last out)"
        by (rule forward_cached_eq[OF out(1) causal])
      then show ?thesis using ec Inr st(3) that(1) out(2) by auto
    qed
    then show ?thesis
      using st ec by (auto simp: session_ok_def cache_ok_def same_core_def split: cache_mode.splits)
  qed
qed

lemma take_prefix_length: "take (length q) xs = q \<Longrightarrow> length q \<le> length xs"
  by (metis length_take min.cobounded1)

lemma slide_short: "length ctx < context_length m \<Longrightarrow> slide m ctx t = ctx @ [t]"
  by (simp add: slide_def)

lemma append_context_ok:
  assumes ok: "session_ok ops m S (s, p)"
    and e: "append_context m token (s, p) = ((s', p'), r)"
  shows "session_ok ops m S (s', p') \<and> frame S p p' \<and> r = Inr () \<and>
    same_core (s \<lparr> s_context := slide m (s_context s) token \<rparr>) s'"
proof (cases "context_length m < length (s_context s) + 1")
  case False
  then have sl: "slide m (s_context s) token = s_context s @ [token]" by (simp add: slide_short)
  have st: "s' = s \<lparr> s_context := s_context s @ [token] \<rparr>" "p' = p" "r = Inr ()"
    using e False sl by (auto simp: append_context_def Let_def)
  have "cache_ok ops m (s \<lparr> s_context := s_context s @ [token] \<rparr>) p"
    using ok by (auto simp: session_ok_def cache_ok_def describes_extend dest: take_prefix_length split: cache_mode.splits)
  then show ?thesis using ok st sl by (auto simp: session_ok_def)
next
  case True
  show ?thesis
  proof (cases "s_cache_mode s")
    case Recompute
    then show ?thesis
      using ok e True by (auto simp: append_context_def Let_def session_ok_def cache_ok_def)
  next
    case Contiguous
    then show ?thesis
      using ok e True
      by (auto simp: append_context_def Let_def session_ok_def cache_ok_def describes_def same_core_def)
  next
    case Paged
    have "pool_ok (S + mset (bt_pages (s_table s))) p" using ok by (simp add: session_ok_def)
    then obtain p1 where p1: "release_table (s_table s) p = ((p1, s_table s \<lparr> bt_pages := [] \<rparr>), Inr ())"
      "pool_ok S p1" "keeps S p p1"
      by (rule release_table_ok)
    have st: "p' = p1" "r = Inr ()" "s_table s' = s_table s \<lparr> bt_pages := [], bt_cached := 0 \<rparr>"
      "s_prompt_published s'" "same_core (s \<lparr> s_context := slide m (s_context s) token \<rparr>) s'"
      using e True Paged p1(1) by (auto simp: append_context_def Let_def same_core_def)
    have "prefixes_ok ops m p1"
      using ok keeps_prefix_views[OF _ p1(3)] prefixes_ok_mono by (fastforce simp: session_ok_def)
    moreover have "holds p1 [] 0" using pool_ok_tokens[OF p1(2)] by (simp add: holds_def pages_for_def)
    moreover have "view p1 [] 0 = []" by (simp add: view_def)
    ultimately have "session_ok ops m S (s', p')"
      using st p1(2) Paged by (auto simp: session_ok_def cache_ok_def describes_def same_core_def)
    then show ?thesis using st keeps_frame[OF p1(3)] by simp
  qed
qed


section \<open>Speculation\<close>

text \<open>A buffer of steps is what plain greedy decoding gives from a context: the logits of the whole
  pass, their greedy selection, and nothing after the end-of-sequence token.\<close>

fun plan_ok ::
  "('f, 'd) arith \<Rightarrow> 'f model \<Rightarrow> 'f sampling_config \<Rightarrow> sampling_inputs \<Rightarrow> nat list \<Rightarrow>
   'f speculative_step list \<Rightarrow> bool" where
  "plan_ok ar m config inputs ctx [] = True"
| "plan_ok ar m config inputs ctx (st # sts) =
     (forward (ar_f ar) m ctx = Inr (sp_target_logits st) \<and>
      (\<forall>u. select_token ar (sp_target_logits st) ctx config inputs u = Inr (sp_selection st, u)) \<and>
      (sp_token st = eos_token \<longrightarrow> sts = []) \<and>
      plan_ok ar m config inputs (slide m ctx (sp_token st)) sts)"

definition end_context :: "'f model \<Rightarrow> nat list \<Rightarrow> 'f speculative_step list \<Rightarrow> nat list" where
  "end_context m ctx sts = foldl (slide m) ctx (map sp_token sts)"

lemma plan_ok_snoc:
  assumes "plan_ok ar m config inputs ctx sts" "sts \<noteq> [] \<Longrightarrow> sp_token (last sts) \<noteq> eos_token"
    "forward (ar_f ar) m (end_context m ctx sts) = Inr (sp_target_logits st)"
    "\<And>u. select_token ar (sp_target_logits st) (end_context m ctx sts) config inputs u = Inr (sp_selection st, u)"
  shows "plan_ok ar m config inputs ctx (sts @ [st])"
  using assms
proof (induction sts arbitrary: ctx)
  case (Cons x sts)
  have "sp_token x \<noteq> eos_token" using Cons.prems(1,2) by (cases sts) auto
  moreover have "plan_ok ar m config inputs (slide m ctx (sp_token x)) (sts @ [st])"
    by (rule Cons.IH) (use Cons.prems in \<open>simp_all add: end_context_def\<close>)
  ultimately show ?case using Cons.prems(1) by simp
qed (simp add: end_context_def)

text \<open>What a stage of planning leaves alone.\<close>

definition planning :: "'f session \<Rightarrow> 'f session \<Rightarrow> bool" where
  "planning s s' \<longleftrightarrow>
     same_core (s \<lparr> s_speculative_buffer := s_speculative_buffer s', s_random_state := s_random_state s' \<rparr>) s' \<and>
     s_table s' = s_table s \<and> s_cache s' = s_cache s \<and> s_prompt_published s' = s_prompt_published s"

lemma planning_refl [simp]: "planning s s"
  by (simp add: planning_def same_core_def)

lemma planning_trans: "planning s s' \<Longrightarrow> planning s' s'' \<Longrightarrow> planning s s''"
  by (simp add: planning_def same_core_def)

lemma planning_session_ok: "planning s s' \<Longrightarrow> session_ok ops m S (s, p) \<Longrightarrow> session_ok ops m S (s', p)"
  by (auto simp: planning_def same_core_def session_ok_def cache_ok_def split: cache_mode.splits)

lemma propose_ok:
  assumes "propose ar draft config inputs n ctx s = (s', r)"
  shows "planning s s' \<and> s_speculative_buffer s' = s_speculative_buffer s \<and>
    s_random_state s' = s_random_state s \<and>
    (\<forall>ps. r = Inr ps \<longrightarrow> length ps \<le> n \<and> (0 < n \<longrightarrow> ps \<noteq> []))"
  using assms
proof (induction ar draft config inputs n ctx s arbitrary: s' r rule: propose.induct)
  case (2 ar draft config inputs n ctx s)
  show ?case
  proof (cases "forward (ar_f ar) draft ctx")
    case (Inl e)
    then show ?thesis using 2(2) by auto
  next
    case (Inr logits)
    define s1 where "s1 = s \<lparr> s_draft_forward_calls := inc64 (s_draft_forward_calls s) \<rparr>"
    have p1: "planning s s1" "s_speculative_buffer s1 = s_speculative_buffer s" "s_random_state s1 = s_random_state s"
      by (simp_all add: planning_def same_core_def s1_def)
    show ?thesis
    proof (cases "build_distribution ar logits ctx config inputs")
      case (Inl e)
      then show ?thesis using 2(2) Inr p1 by (auto simp: Let_def s1_def)
    next
      case dist: (Inr dist)
      obtain sel st where sel: "select_from_distribution ar dist (is_greedy (ar_f ar) config)
          (s_draft_random_state s1) = (sel, st)" by (metis surj_pair)
      define s2 where "s2 = s1 \<lparr> s_draft_random_state := st \<rparr>"
      have p2: "planning s s2" "s_speculative_buffer s2 = s_speculative_buffer s" "s_random_state s2 = s_random_state s"
        using p1 by (simp_all add: planning_def same_core_def s2_def)
      show ?thesis
      proof (cases "sr_token_id sel = eos_token")
        case True
        then show ?thesis
          using 2(2) Inr dist sel p2 by (auto simp: Let_def s1_def s2_def)
      next
        case False
        obtain s3 r3 where rec: "propose ar draft config inputs n (ctx @ [sr_token_id sel]) s2 = (s3, r3)"
          by (metis surj_pair)
        have "planning s2 s3 \<and> s_speculative_buffer s3 = s_speculative_buffer s2 \<and>
            s_random_state s3 = s_random_state s2 \<and>
            (\<forall>ps. r3 = Inr ps \<longrightarrow> length ps \<le> n \<and> (0 < n \<longrightarrow> ps \<noteq> []))"
          using 2(1)[OF Inr s1_def dist sel[symmetric] refl s2_def refl False rec] by simp
        moreover have "s' = s3" "\<And>ps. r = Inr ps \<Longrightarrow> \<exists>qs q. r3 = Inr qs \<and> ps = q # qs"
          using 2(2) Inr dist sel False rec by (auto simp: Let_def s1_def s2_def split: sum.splits)
        ultimately show ?thesis using p2 planning_trans by fastforce
      qed
    qed
  qed
qed auto

lemma judge_planning:
  "judge ar config target pr s = (s', out, rejected) \<Longrightarrow>
   planning s s' \<and> s_speculative_buffer s' = s_speculative_buffer s"
  by (auto simp: judge_def Let_def planning_def same_core_def split: if_splits prod.splits)

lemma verify_planning: "verify ar config inputs vctx rows h ps s = (s', r) \<Longrightarrow> planning s s'"
proof (induction ps arbitrary: h s)
  case (Cons pr ps)
  show ?case
  proof (cases "build_distribution ar (rows ! (h - 1)) (take h vctx) config inputs")
    case (Inr target)
    obtain s1 out rej where j: "judge ar config target pr s = (s1, out, rej)" by (metis prod_cases3)
    define s2 where "s2 = s1 \<lparr> s_speculative_buffer := s_speculative_buffer s1 @
        [\<lparr> sp_selection = out, sp_target_logits = rows ! (h - 1) \<rparr>] \<rparr>"
    have p2: "planning s s2" using judge_planning[OF j] by (simp add: planning_def same_core_def s2_def)
    have "s' = s2 \<or> verify ar config inputs vctx rows (Suc h) ps s2 = (s', r)"
      using Cons.prems Inr j by (auto simp: Let_def s2_def split: if_splits)
    then show ?thesis using p2 Cons.IH[of "Suc h" s2] planning_trans by blast
  qed (use Cons.prems in \<open>auto simp: Let_def\<close>)
qed simp

lemma judge_greedy:
  assumes "judge ar config target (token, draft) s = (s', out, rejected)" "is_greedy (ar_f ar) config"
  shows "planning s s' \<and> s_speculative_buffer s' = s_speculative_buffer s \<and>
    s_random_state s' = s_random_state s \<and>
    rejected = (sr_token_id out \<noteq> token) \<and> (\<forall>u. select_from_distribution ar target True u = (out, u))"
  using assms
  by (auto simp: judge_def Let_def select_from_distribution_def planning_def same_core_def split: if_splits)

lemma greedy_selection:
  "is_greedy (ar_f ar) config \<Longrightarrow> build_distribution ar logits ctx config inputs = Inr dist \<Longrightarrow>
   (\<And>u. select_from_distribution ar dist True u = (out, u)) \<Longrightarrow>
   select_token ar logits ctx config inputs u = Inr (out, u)"
  by (simp add: select_token_def)

lemma forward_prefix:
  assumes "forward_all ops m xs = Inr rows" "ac_causal (m_attention m)" "0 < n" "n \<le> length xs"
  shows "forward ops m (take n xs) = Inr (rows ! (n - 1))"
proof -
  have l: "length rows = length xs" by (rule forward_all_length[OF assms(1)])
  then have ne: "take n rows \<noteq> []" using assms(3,4) by auto
  have "last (take n rows) = rows ! (n - 1)"
    using assms(3,4) l by (subst last_conv_nth[OF ne]) (simp add: min_def)
  then show ?thesis using forward_all_prefix[OF assms] by (simp add: forward_def)
qed

lemma verify_ok:
  assumes "verify ar config inputs vctx rows h ps s = (s', Inr rejected)"
    and g: "is_greedy (ar_f ar) config" and f: "forward_all (ar_f ar) m vctx = Inr rows"
    and c: "ac_causal (m_attention m)" and len: "length vctx \<le> context_length m"
    and "0 < h" "map fst ps = drop h vctx" "h \<le> length vctx"
  shows "\<exists>B. s_speculative_buffer s' = s_speculative_buffer s @ B \<and> planning s s' \<and>
    s_random_state s' = s_random_state s \<and>
    plan_ok ar m config inputs (take h vctx) B \<and> (ps \<noteq> [] \<longrightarrow> B \<noteq> []) \<and>
    (\<not> rejected \<longrightarrow> (B \<noteq> [] \<longrightarrow> sp_token (last B) \<noteq> eos_token) \<longrightarrow> end_context m (take h vctx) B = vctx)"
  using assms(1,6-8)
proof (induction ps arbitrary: h s)
  case Nil
  then show ?case by (auto simp: end_context_def)
next
  case (Cons pr ps)
  obtain token draft where pr: "pr = (token, draft)" by (cases pr)
  have hl: "h < length vctx" using Cons.prems(3,4) by (cases "h = length vctx") auto
  have tok: "vctx ! h = token" and tl: "map fst ps = drop (Suc h) vctx"
    using Cons.prems(3) pr hl by (auto simp: Cons_nth_drop_Suc[symmetric])
  obtain target where t: "build_distribution ar (rows ! (h - 1)) (take h vctx) config inputs = Inr target"
    using Cons.prems(1) by (cases "build_distribution ar (rows ! (h - 1)) (take h vctx) config inputs")
      (auto simp: Let_def)
  obtain s1 out rej where j: "judge ar config target (token, draft) s = (s1, out, rej)" by (metis prod_cases3)
  note jg = judge_greedy[OF j g]
  define st where "st = \<lparr> sp_selection = out, sp_target_logits = rows ! (h - 1) \<rparr>"
  define s2 where "s2 = s1 \<lparr> s_speculative_buffer := s_speculative_buffer s1 @ [st] \<rparr>"
  have p2: "planning s s2" using jg by (simp add: planning_def same_core_def s2_def)
  have b2: "s_speculative_buffer s2 = s_speculative_buffer s @ [st]" "s_random_state s2 = s_random_state s"
    using jg by (simp_all add: s2_def)
  have fw: "forward (ar_f ar) m (take h vctx) = Inr (rows ! (h - 1))"
    using forward_prefix[OF f c Cons.prems(2,4)] .
  have sel: "select_token ar (rows ! (h - 1)) (take h vctx) config inputs u = Inr (out, u)" for u
    using greedy_selection[OF g t] jg by blast
  have sl: "slide m (take h vctx) x = take h vctx @ [x]" for x
    using hl len by (intro slide_short) simp
  show ?case
  proof (cases "rej \<or> sr_token_id out = eos_token")
    case True
    then have "s' = s2" "rejected = rej"
      using Cons.prems(1) t j by (auto simp: pr Let_def s2_def st_def)
    then show ?thesis
      using True b2 p2 fw sel jg tok
      by (intro exI[of _ "[st]"]) (auto simp: st_def sp_token_def)
  next
    case False
    then have r: "verify ar config inputs vctx rows (Suc h) ps s2 = (s', Inr rejected)"
      using Cons.prems(1) t j by (auto simp: pr Let_def s2_def st_def)
    have acc: "sp_token st = token" "sp_token st \<noteq> eos_token"
      using False jg by (auto simp: st_def sp_token_def)
    have next_ctx: "slide m (take h vctx) (sp_token st) = take (Suc h) vctx"
      using sl acc tok hl by (simp add: take_Suc_conv_app_nth)
    obtain B where B: "s_speculative_buffer s' = s_speculative_buffer s2 @ B" "planning s2 s'"
      "s_random_state s' = s_random_state s2"
      "plan_ok ar m config inputs (take (Suc h) vctx) B"
      "\<not> rejected \<longrightarrow> (B \<noteq> [] \<longrightarrow> sp_token (last B) \<noteq> eos_token) \<longrightarrow> end_context m (take (Suc h) vctx) B = vctx"
      using Cons.IH[OF r _ tl] hl by auto
    have "plan_ok ar m config inputs (take h vctx) (st # B)"
      using fw sel acc next_ctx B(4) by (simp add: st_def)
    moreover have "end_context m (take h vctx) (st # B) = end_context m (take (Suc h) vctx) B"
      using next_ctx by (simp add: end_context_def)
    ultimately show ?thesis
      using B b2 planning_trans[OF p2 B(2)] acc
      by (intro exI[of _ "st # B"]) auto
  qed
qed


lemma extra_target_planning:
  "extra_target ar config inputs vctx rows rejected remaining s = (s', r) \<Longrightarrow> planning s s'"
  by (auto simp: extra_target_def Let_def planning_def same_core_def
      split: if_splits sum.splits prod.splits)

lemma plan_ok_ends: "plan_ok ar m config inputs ctx sts \<Longrightarrow> \<forall>st\<in>set (butlast sts). sp_token st \<noteq> eos_token"
  by (induction sts arbitrary: ctx) auto

lemma slide_nonempty: "ctx \<noteq> [] \<Longrightarrow> 2 \<le> context_length m \<Longrightarrow> slide m ctx t \<noteq> []"
  by (auto simp: slide_def Let_def)

lemma append_buffer_ok:
  assumes "session_ok ops m S (s, p)" "append_buffer m sts (s, p) = ((s', p'), r)"
  shows "session_ok ops m S (s', p') \<and> frame S p p' \<and> r = Inr () \<and>
    same_core (s \<lparr> s_context := s_context s' \<rparr>) s' \<and>
    (2 \<le> context_length m \<longrightarrow> s_context s \<noteq> [] \<longrightarrow> s_context s' \<noteq> []) \<and>
    ((\<forall>st\<in>set (butlast sts). sp_token st \<noteq> eos_token) \<longrightarrow> s_context s' = end_context m (s_context s) sts)"
  using assms
proof (induction sts arbitrary: s p)
  case Nil
  then show ?case by (auto simp: same_core_def end_context_def)
next
  case (Cons st sts)
  obtain s1 p1 r1 where a: "append_context m (sp_token st) (s, p) = ((s1, p1), r1)" by (metis surj_pair)
  note ac = append_context_ok[OF Cons.prems(1) a]
  show ?case
  proof (cases "sp_token st = eos_token")
    case True
    then have "s' = s1" "p' = p1" "r = Inr ()" using Cons.prems(2) a ac by auto
    then show ?thesis using ac True slide_nonempty by (auto simp: same_core_def end_context_def)
  next
    case False
    then have "append_buffer m sts (s1, p1) = ((s', p'), r)" using Cons.prems(2) a ac by auto
    from Cons.IH[OF _ this] have ih: "session_ok ops m S (s', p') \<and> frame S p1 p' \<and> r = Inr () \<and>
        same_core (s1 \<lparr> s_context := s_context s' \<rparr>) s' \<and>
        (2 \<le> context_length m \<longrightarrow> s_context s1 \<noteq> [] \<longrightarrow> s_context s' \<noteq> []) \<and>
        ((\<forall>st\<in>set (butlast sts). sp_token st \<noteq> eos_token) \<longrightarrow> s_context s' = end_context m (s_context s1) sts)"
      using ac by blast
    have "frame S p p'" using frame_trans[of S p p1 S p'] ac ih by blast
    moreover have "s_context s' = end_context m (s_context s) (st # sts)"
      if "\<forall>x\<in>set (butlast (st # sts)). sp_token x \<noteq> eos_token"
    proof -
      have "\<forall>x\<in>set (butlast sts). sp_token x \<noteq> eos_token" using that by (cases sts) auto
      then show ?thesis using ih ac by (simp add: same_core_def end_context_def)
    qed
    moreover have "2 \<le> context_length m \<longrightarrow> s_context s \<noteq> [] \<longrightarrow> s_context s' \<noteq> []"
      using ih ac slide_nonempty[of "s_context s" m] by (auto simp: same_core_def)
    ultimately show ?thesis using ih ac by (auto simp: same_core_def)
  qed
qed

lemma extra_target_plan:
  assumes ex: "extra_target ar config inputs vctx rows rejected remaining s = (s', Inr u)"
    and g: "is_greedy (ar_f ar) config" and rows: "forward_all (ar_f ar) m vctx = Inr rows"
    and c: "ac_causal (m_attention m)" and vl: "0 < length vctx"
    and B: "s_speculative_buffer s = B" "B \<noteq> []" "plan_ok ar m config inputs ctx B"
    and ec: "\<not> rejected \<Longrightarrow> sp_token (last B) \<noteq> eos_token \<Longrightarrow> end_context m ctx B = vctx"
  shows "s_speculative_buffer s' \<noteq> [] \<and> s_random_state s' = s_random_state s \<and>
    plan_ok ar m config inputs ctx (s_speculative_buffer s')"
proof (cases "\<not> rejected \<and> sp_token (last B) \<noteq> eos_token \<and> length B < remaining")
  case False
  then have "s' = s" using ex B(1,2) by (auto simp: extra_target_def Let_def split: if_splits)
  then show ?thesis using B by simp
next
  case True
  let ?logits = "rows ! (length vctx - 1)"
  obtain target where t: "build_distribution ar ?logits vctx config inputs = Inr target"
    using ex True B(1,2)
    by (cases "build_distribution ar ?logits vctx config inputs") (auto simp: extra_target_def Let_def)
  obtain out where out: "\<And>u. select_from_distribution ar target True u = (out, u)"
    by (auto simp: select_from_distribution_def)
  have s': "s_speculative_buffer s' = B @ [\<lparr> sp_selection = out, sp_target_logits = ?logits \<rparr>]"
    "s_random_state s' = s_random_state s"
    using ex True B(1,2) t out g by (auto simp: extra_target_def Let_def)
  have e: "end_context m ctx B = vctx" using ec True by blast
  have "forward (ar_f ar) m vctx = Inr ?logits"
    using forward_prefix[OF rows c vl] by simp
  then have "plan_ok ar m config inputs ctx (B @ [\<lparr> sp_selection = out, sp_target_logits = ?logits \<rparr>])"
    using True e greedy_selection[OF g t out] by (intro plan_ok_snoc[OF B(3)]) simp_all
  then show ?thesis using s' by simp
qed

text \<open>Planning a cycle keeps the caches and the pool correct; a greedy cycle plans what plain
  greedy decoding gives.\<close>

lemma plan_speculative_ok:
  assumes ok: "session_ok (ar_f ar) m S (s, p)" and b: "s_speculative_buffer s = []"
    and c: "ac_causal (m_attention m)" and ctx: "s_context s \<noteq> []"
    and e: "plan_speculative ar m config inputs (s, p) = ((s', p'), r)"
  shows "session_ok (ar_f ar) m S (s', p') \<and> frame S p p' \<and>
    same_core (s \<lparr> s_context := s_context s', s_speculative_buffer := s_speculative_buffer s',
                  s_random_state := s_random_state s' \<rparr>) s' \<and>
    (2 \<le> context_length m \<longrightarrow> s_context s' \<noteq> []) \<and>
    (r = Inr () \<longrightarrow> is_greedy (ar_f ar) config \<longrightarrow>
       s_speculative_buffer s' \<noteq> [] \<and> s_random_state s' = s_random_state s \<and>
       plan_ok ar m config inputs (s_context s) (s_speculative_buffer s') \<and>
       s_context s' = end_context m (s_context s) (s_speculative_buffer s'))"
    (is "?G")
proof -
  have err: ?G if "s' = s1" "p' = p" "r = Inl x" "planning s s1" for s1 x
    using that ctx planning_session_ok[OF that(4) ok] by (auto simp: planning_def same_core_def)
  show ?G
  proof (cases "s_draft_model s")
    case None
    then show ?thesis using err[of s] e b by (auto simp: plan_speculative_def)
  next
    case (Some draft)
    show ?thesis
    proof (cases "s_speculative_tokens s = 0 \<or> si_allowed inputs \<noteq> [] \<or> proposal_limit m s = 0")
      case True
      then show ?thesis using err[of s] e b Some by (auto simp: plan_speculative_def split: if_splits)
    next
      case room: False
      obtain s1 r1 where pr: "propose ar draft config inputs (proposal_limit m s) (s_context s) s = (s1, r1)"
        by (metis surj_pair)
      note po = propose_ok[OF pr]
      show ?thesis
      proof (cases r1)
        case (Inl x)
        then show ?thesis using err[of s1] e b Some room pr po by (auto simp: plan_speculative_def Let_def)
      next
        case (Inr ps)
        define vctx where "vctx = s_context s @ map fst ps"
        have ps: "ps \<noteq> []" "length ps \<le> proposal_limit m s" using po Inr room by auto
        have len: "length vctx \<le> context_length m"
          using ps room by (auto simp: vctx_def proposal_limit_def)
        show ?thesis
        proof (cases "forward_all (ar_f ar) m vctx")
          case (Inl x)
          then show ?thesis
            using err[of s1] e b Some room pr po Inr by (auto simp: plan_speculative_def Let_def vctx_def)
        next
          case rows: (Inr rows)
          define n where "n = length vctx"
          define s2 where "s2 = s1 \<lparr> s_target_forward_calls := inc64 (s_target_forward_calls s1),
              s_speculative_cycles := inc64 (s_speculative_cycles s1),
              s_draft_tokens_proposed := add64 (s_draft_tokens_proposed s1) (length ps),
              s_query_tokens := add64 (s_query_tokens s1) n,
              s_kv_tokens := add64 (s_kv_tokens s1) n,
              s_attention_score_elements :=
                add64 (s_attention_score_elements s1) (wrap64 (m_heads m * n * (n + 1)) div 2) \<rparr>"
          have p2: "planning s s2" "s_speculative_buffer s2 = []" "s_random_state s2 = s_random_state s"
            using po b by (simp_all add: planning_def same_core_def s2_def)
          obtain s3 r3 where ve: "verify ar config inputs vctx rows (length (s_context s)) ps s2 = (s3, r3)"
            by (metis surj_pair)
          have p3: "planning s s3" using planning_trans[OF p2(1) verify_planning[OF ve]] .
          show ?thesis
          proof (cases r3)
            case (Inl x)
            then show ?thesis
              using err[of s3] e b Some room pr \<open>r1 = Inr ps\<close> rows ve p3
              by (auto simp: plan_speculative_def Let_def vctx_def s2_def n_def)
          next
            case rej: (Inr rejected)
            obtain s4 r4 where ex: "extra_target ar config inputs vctx rows rejected
                (s_max_tokens s - s_generated s) s3 = (s4, r4)" by (metis surj_pair)
            have p4: "planning s s4" using planning_trans[OF p3 extra_target_planning[OF ex]] .
            show ?thesis
            proof (cases r4)
              case (Inl x)
              then show ?thesis
                using err[of s4] e b Some room pr \<open>r1 = Inr ps\<close> rows ve rej ex p4
                by (auto simp: plan_speculative_def Let_def vctx_def s2_def n_def)
            next
              case fin: (Inr u)
              have ab: "append_buffer m (s_speculative_buffer s4) (s4, p) = ((s', p'), r)"
                using e b Some room pr \<open>r1 = Inr ps\<close> rows ve rej ex fin
                by (auto simp: plan_speculative_def Let_def vctx_def s2_def n_def)
              note abo = append_buffer_ok[OF planning_session_ok[OF p4 ok] ab]
              have core: "same_core (s \<lparr> s_context := s_context s', s_speculative_buffer := s_speculative_buffer s',
                  s_random_state := s_random_state s' \<rparr>) s'"
                using abo p4 by (simp add: planning_def same_core_def)
              have greedy: "s_speculative_buffer s4 \<noteq> [] \<and> s_random_state s4 = s_random_state s \<and>
                  plan_ok ar m config inputs (s_context s) (s_speculative_buffer s4)"
                if g: "is_greedy (ar_f ar) config"
              proof -
                have ve': "verify ar config inputs vctx rows (length (s_context s)) ps s2 = (s3, Inr rejected)"
                  using ve rej by simp
                obtain B where B: "s_speculative_buffer s3 = B" "s_random_state s3 = s_random_state s"
                  "plan_ok ar m config inputs (s_context s) B" "B \<noteq> []"
                  "\<not> rejected \<longrightarrow> sp_token (last B) \<noteq> eos_token \<longrightarrow> end_context m (s_context s) B = vctx"
                  using verify_ok[OF ve' g rows c len] ctx ps p2 by (auto simp: vctx_def)
                show ?thesis
                  using extra_target_plan[OF ex[unfolded fin] g rows c _ B(1,4,3) B(5)[rule_format]] B(2) ctx
                  by (simp add: vctx_def)
              qed
              have "s_speculative_buffer s' = s_speculative_buffer s4" "s_random_state s' = s_random_state s4"
                "s_context s4 = s_context s"
                using abo p4 by (simp_all add: planning_def same_core_def)
              then show ?thesis
                using abo core greedy ctx plan_ok_ends[of ar m config inputs "s_context s" "s_speculative_buffer s4"]
                by auto
            qed
          qed
        qed
      qed
    qed
  qed
qed


section \<open>One step against the reference\<close>

text \<open>The reference: no cache, no draft model, nothing planned.\<close>

definition plain_session :: "'f session \<Rightarrow> bool" where
  "plain_session r \<longleftrightarrow> s_cache_mode r = Recompute \<and> s_draft_model r = None \<and> s_speculative_buffer r = []"

text \<open>A session agrees with a reference session, with the steps it has planned ahead of it.\<close>

definition agrees ::
  "('f, 'd) arith \<Rightarrow> 'f model \<Rightarrow> ('f sampling_config \<times> sampling_inputs) option \<Rightarrow> 'f session \<Rightarrow> 'f session \<Rightarrow> bool" where
  "agrees ar m call s r \<longleftrightarrow>
     plain_session r \<and> s_max_tokens r = s_max_tokens s \<and> s_generated r = s_generated s \<and>
     s_finished r = s_finished s \<and> s_emitted_visible_token r = s_emitted_visible_token s \<and>
     s_random_state r = s_random_state s \<and>
     s_context s = end_context m (s_context r) (s_speculative_buffer s) \<and>
     (s_speculative_buffer s \<noteq> [] \<longrightarrow>
        (\<exists>config inputs. call = Some (config, inputs) \<and> is_greedy (ar_f ar) config \<and>
           plan_ok ar m config inputs (s_context r) (s_speculative_buffer s)))"

lemma end_context_Nil [simp]: "end_context m ctx [] = ctx"
  by (simp add: end_context_def)

lemma plain_session_next:
  assumes "plain_session r" "\<not> s_finished r" "s_generated r < s_max_tokens r"
    "forward (ar_f ar) m (s_context r) = Inr scores"
    "select_token ar scores (s_context r) config inputs (s_random_state r) = Inr (selected, u)"
    "session_next ar m capacity config inputs (r, p) = ((r', p'), Inr out)"
  obtains r1 where "emit_token m capacity selected scores r1 = (r', Inr out)"
    "plain_session r1" "s_context r1 = slide m (s_context r) (sr_token_id selected)" "s_random_state r1 = u"
    "s_generated r1 = Suc (s_generated r)" "s_max_tokens r1 = s_max_tokens r" "\<not> s_finished r1"
    "s_emitted_visible_token r1 = s_emitted_visible_token r"
  using assms
  by (auto simp: session_next_def plain_session_def speculation_enabled_def plain_scores_def Let_def
      append_context_def split: prod.splits if_splits intro!: that)

lemma emit_token_agrees:
  assumes "emit_token m capacity selected scores s = (s', Inr out)"
    "s_emitted_visible_token r = s_emitted_visible_token s" "s_finished r = s_finished s"
  shows "\<exists>r'. emit_token m capacity selected scores r = (r', Inr out) \<and>
    s_emitted_visible_token r' = s_emitted_visible_token s' \<and> s_finished r' = s_finished s' \<and>
    r' = r \<lparr> s_emitted_visible_token := s_emitted_visible_token s', s_finished := s_finished s' \<rparr> \<and>
    s' = s \<lparr> s_emitted_visible_token := s_emitted_visible_token s', s_finished := s_finished s' \<rparr>"
  using assms by (auto simp: emit_token_def Let_def split: if_splits)

lemma emit_token_core:
  assumes "emit_token m capacity selected scores s = (s', out)"
  shows "s' = s \<lparr> s_emitted_visible_token := s_emitted_visible_token s', s_finished := s_finished s' \<rparr>"
  using assms by (auto simp: emit_token_def Let_def split: if_splits)

lemma session_ok_emit:
  "session_ok ops m S (s, p) \<Longrightarrow>
   session_ok ops m S (s \<lparr> s_emitted_visible_token := a, s_finished := b \<rparr>, p)"
  by (auto simp: session_ok_def cache_ok_def split: cache_mode.splits)

lemma session_ok_fields:
  assumes "session_ok ops m S (s, p)" "s_context s' = s_context s" "s_prompt_context s' = s_prompt_context s"
    "s_cache s' = s_cache s" "s_table s' = s_table s" "s_cache_mode s' = s_cache_mode s"
    "s_prompt_published s' = s_prompt_published s"
  shows "session_ok ops m S (s', p)"
  using assms by (auto simp: session_ok_def cache_ok_def split: cache_mode.splits)

lemma end_context_nonempty:
  "ctx \<noteq> [] \<Longrightarrow> 2 \<le> context_length m \<Longrightarrow> end_context m ctx sts \<noteq> []"
  unfolding end_context_def by (induction sts arbitrary: ctx) (simp_all add: slide_nonempty)

definition still_speculates :: "'f session \<Rightarrow> 'f session \<Rightarrow> bool" where
  "still_speculates s s' \<longleftrightarrow>
     s_draft_model s' = s_draft_model s \<and> s_speculative_tokens s' = s_speculative_tokens s \<and>
     (\<not> speculation_enabled s \<longrightarrow> s_speculative_buffer s = [] \<longrightarrow> s_speculative_buffer s' = [])"

text \<open>Any step keeps the caches and the pool correct, whether it succeeds or throws.\<close>

lemma session_next_keeps:
  assumes ok: "session_ok (ar_f ar) m S (s, p)" and d: "0 < dimension m"
    and c: "ac_causal (m_attention m)" and ctx: "s_context s \<noteq> []"
    and e: "session_next ar m capacity config inputs (s, p) = ((s', p'), res)"
    and cl: "2 \<le> context_length m"
  shows "session_ok (ar_f ar) m S (s', p') \<and> frame S p p' \<and> s_context s' \<noteq> [] \<and> still_speculates s s'"
proof (cases "s_finished s \<or> s_max_tokens s \<le> s_generated s")
  case True
  then show ?thesis using e ok ctx by (auto simp: session_next_def still_speculates_def)
next
  case live: False
  show ?thesis
  proof (cases "speculation_enabled s \<and> 2 \<le> s_max_tokens s - s_generated s \<and> length (s_context s) < context_length m \<or>
      s_speculative_buffer s \<noteq> []")
    case spec: True
    obtain s1 p1 r1 where pl: "plan_speculative ar m config inputs (s, p) = ((s1, p1), r1)" by (metis surj_pair)
    have k: "session_ok (ar_f ar) m S (s1, p1) \<and> frame S p p1 \<and> s_context s1 \<noteq> [] \<and>
        s_draft_model s1 = s_draft_model s \<and> s_speculative_tokens s1 = s_speculative_tokens s"
    proof (cases "s_speculative_buffer s = []")
      case True
      then show ?thesis using plan_speculative_ok[OF ok True c ctx pl] cl by (simp add: same_core_def)
    next
      case False
      then show ?thesis using pl ok ctx by (auto simp: plan_speculative_def)
    qed
    show ?thesis
    proof (cases r1)
      case (Inl x)
      then show ?thesis using e live spec pl k by (auto simp: session_next_def Let_def still_speculates_def)
    next
      case (Inr x)
      define s2 where "s2 = s1 \<lparr> s_speculative_buffer := tl (s_speculative_buffer s1), s_generated := s_generated s1 + 1 \<rparr>"
      define st where "st = hd (s_speculative_buffer s1)"
      have "emit_token m capacity (sp_selection st) (sp_target_logits st) s2 = (s', res)" "p' = p1"
        using e live spec pl Inr by (auto simp: session_next_def Let_def s2_def st_def split: prod.splits)
      then have eq: "s' = s2 \<lparr> s_emitted_visible_token := s_emitted_visible_token s', s_finished := s_finished s' \<rparr>"
        using emit_token_core by blast
      have ok2: "session_ok (ar_f ar) m S (s2, p1)"
        using session_ok_fields[of "ar_f ar" m S s1 p1 s2] k by (simp add: s2_def)
      have "s_context s' = s_context s1" "s_draft_model s' = s_draft_model s1"
        "s_speculative_tokens s' = s_speculative_tokens s1"
        by (subst eq, simp add: s2_def)+
      then show ?thesis
        using session_ok_emit[OF ok2] k spec \<open>p' = p1\<close> eq by (metis still_speculates_def)
    qed
  next
    case plain: False
    obtain s1 p1 r1 where ps: "plain_scores (ar_f ar) m (s, p) = ((s1, p1), r1)" by (metis surj_pair)
    note k = plain_scores_ok[OF ok d c ps]
    show ?thesis
    proof (cases r1)
      case (Inl x)
      then show ?thesis
        using e live plain ps k ctx by (auto simp: session_next_def Let_def still_speculates_def same_core_def)
    next
      case (Inr scores)
      define s2 where "s2 = s1 \<lparr> s_target_forward_calls := inc64 (s_target_forward_calls s1) \<rparr>"
      have k2: "session_ok (ar_f ar) m S (s2, p1)"
        using session_ok_fields[of "ar_f ar" m S s1 p1 s2] k by (simp add: s2_def)
      show ?thesis
      proof (cases "select_token ar scores (s_context s2) config inputs (s_random_state s2)")
        case (Inl x)
        then show ?thesis
          using e live plain ps Inr k k2 ctx
          by (auto simp: session_next_def Let_def s2_def still_speculates_def same_core_def)
      next
        case sel: (Inr y)
        obtain selected u where y: "y = (selected, u)" by (cases y)
        define s3 where "s3 = s2 \<lparr> s_random_state := u, s_generated := s_generated s2 + 1 \<rparr>"
        have k3: "session_ok (ar_f ar) m S (s3, p1)"
          using session_ok_fields[of "ar_f ar" m S s2 p1 s3] k2 by (simp add: s3_def)
        obtain s4 p4 r4 where ac: "append_context m (sr_token_id selected) (s3, p1) = ((s4, p4), r4)"
          by (metis surj_pair)
        note k4 = append_context_ok[OF k3 ac]
        have "emit_token m capacity selected scores s4 = (s', res)" "p' = p4"
          using e live plain ps Inr sel y ac k4
          by (auto simp: session_next_def Let_def s2_def s3_def split: prod.splits)
        then have eq: "s' = s4 \<lparr> s_emitted_visible_token := s_emitted_visible_token s', s_finished := s_finished s' \<rparr>"
          using emit_token_core by blast
        moreover have "frame S p p4" using frame_trans[of S p p1 S p4] k k4 by blast
        moreover have core4: "same_core (s \<lparr> s_context := slide m (s_context s) (sr_token_id selected),
            s_random_state := s_random_state s4, s_generated := s_generated s4 \<rparr>) s4"
          using k4 k by (simp add: same_core_def s3_def s2_def)
        moreover have "s_context s' = s_context s4" "s_draft_model s' = s_draft_model s4"
          "s_speculative_tokens s' = s_speculative_tokens s4" "s_speculative_buffer s' = s_speculative_buffer s4"
          by (subst eq, simp)+
        moreover have "session_ok (ar_f ar) m S (s', p4)"
          using session_ok_emit[of "ar_f ar" m S s4 p4] k4 eq by metis
        ultimately show ?thesis
          using \<open>p' = p4\<close> plain slide_nonempty[OF ctx cl] by (simp add: still_speculates_def same_core_def)
      qed
    qed
  qed
qed

end
