(* ===== verification/Worker_Runtime.thy ===== *)
theory Worker_Runtime
  imports Worker_Decoding_Safety
begin

text \<open>
  The sessions of one model, interleaved: clients create sessions, ask them for steps and free
  them in any order, all on the model's page pool.  A session that throws is dropped by its owner,
  as the worker's scheduler does.
\<close>

section \<open>Sessions over one pool\<close>

text \<open>A live session with what it was created from, the calls that returned and what they
  returned.\<close>

record 'f live =
  lv_prompt :: string
  lv_max_tokens :: nat
  lv_seed :: "64 word"
  lv_speculative :: nat
  lv_session :: "'f session"
  lv_calls :: "('f sampling_config \<times> sampling_inputs) list"
  lv_outputs :: "'f step_output list"

record 'f runtime =
  rt_pool :: "'f kv_pool"
  rt_live :: "(nat \<times> 'f live) list"

datatype 'f runtime_event =
    Create nat string nat nat "64 word" nat
  | Next nat "'f sampling_config" sampling_inputs
  | Free nat

definition drop_live :: "nat \<Rightarrow> (nat \<times> 'f live) list \<Rightarrow> (nat \<times> 'f live) list" where
  "drop_live sid = filter (\<lambda>x. fst x \<noteq> sid)"

text \<open>A session is given the draft model exactly when it asks for speculation, as
  \<open>Session::new\<close> requires.\<close>

definition runtime_step ::
  "('f, 'd) arith \<Rightarrow> 'f model \<Rightarrow> 'f model \<Rightarrow> nat \<Rightarrow> 'f runtime_event \<Rightarrow> 'f runtime \<Rightarrow> 'f runtime" where
  "runtime_step ar m draft capacity ev rt =
     (case ev of
        Create sid prompt max_tokens mode seed k \<Rightarrow>
          if map_of (rt_live rt) sid \<noteq> None then rt
          else (case session_create m (if k = 0 then None else Some draft) prompt max_tokens mode seed k
                       (rt_pool rt) of
                  (p, Inl _) \<Rightarrow> rt \<lparr> rt_pool := p \<rparr>
                | (p, Inr s) \<Rightarrow>
                    \<lparr> rt_pool = p,
                      rt_live = (sid, \<lparr> lv_prompt = prompt, lv_max_tokens = max_tokens, lv_seed = seed,
                                        lv_speculative = k, lv_session = s, lv_calls = [],
                                        lv_outputs = [] \<rparr>) # rt_live rt \<rparr>)
      | Next sid config inputs \<Rightarrow>
          (case map_of (rt_live rt) sid of
             None \<Rightarrow> rt
           | Some lv \<Rightarrow>
               case session_next ar m capacity config inputs (lv_session lv, rt_pool rt) of
                 ((s, p), Inl _) \<Rightarrow>
                   \<lparr> rt_pool = session_free s p, rt_live = drop_live sid (rt_live rt) \<rparr>
               | ((s, p), Inr out) \<Rightarrow>
                   \<lparr> rt_pool = p,
                     rt_live = (sid, lv \<lparr> lv_session := s, lv_calls := lv_calls lv @ [(config, inputs)],
                                          lv_outputs := lv_outputs lv @ [out] \<rparr>)
                               # drop_live sid (rt_live rt) \<rparr>)
      | Free sid \<Rightarrow>
          (case map_of (rt_live rt) sid of
             None \<Rightarrow> rt
           | Some lv \<Rightarrow>
               \<lparr> rt_pool = session_free (lv_session lv) (rt_pool rt),
                 rt_live = drop_live sid (rt_live rt) \<rparr>))"

definition runtime_run ::
  "('f, 'd) arith \<Rightarrow> 'f model \<Rightarrow> 'f model \<Rightarrow> nat \<Rightarrow> 'f kv_pool \<Rightarrow> 'f runtime_event list \<Rightarrow> 'f runtime" where
  "runtime_run ar m draft capacity pool evs =
     fold (runtime_step ar m draft capacity) evs \<lparr> rt_pool = pool, rt_live = [] \<rparr>"

text \<open>The same calls on a session of its own that recomputes its context and has no draft model.\<close>

definition decode_alone ::
  "('f, 'd) arith \<Rightarrow> 'f model \<Rightarrow> nat \<Rightarrow> 'f kv_pool \<Rightarrow> ('f sampling_config \<times> sampling_inputs) list \<Rightarrow>
   'f session \<Rightarrow> (runtime_error, 'f session \<times> 'f step_output list) result" where
  "decode_alone ar m capacity pool calls s =
     foldR (\<lambda>(config, inputs) (s, outs).
       case session_next ar m capacity config inputs (s, pool) of
         (_, Inl e) \<Rightarrow> Inl e
       | ((s, _), Inr out) \<Rightarrow> Inr (s, outs @ [out])) calls (s, [])"

definition reference_session :: "'f model \<Rightarrow> 'f live \<Rightarrow> 'f session" where
  "reference_session m lv = new_session m None (lv_prompt lv) (lv_max_tokens lv) Recompute (lv_seed lv) 0"

text \<open>Speculation is compared with greedy decoding, under one configuration.\<close>

definition steady :: "'f fops \<Rightarrow> 'f live \<Rightarrow> bool" where
  "steady ops lv \<longleftrightarrow>
     (0 < lv_speculative lv \<longrightarrow>
        list_all (\<lambda>call. call = hd (lv_calls lv) \<and> is_greedy ops (fst call)) (lv_calls lv))"

section \<open>A step and its reference\<close>

lemma plain_session_inv:
  assumes "plain_session r" "\<not> s_finished r" "s_generated r < s_max_tokens r"
    "session_next ar m capacity config inputs (r, p) = ((r', p'), Inr out)"
  obtains scores selected u where "forward (ar_f ar) m (s_context r) = Inr scores"
    "select_token ar scores (s_context r) config inputs (s_random_state r) = Inr (selected, u)"
  using assms
  by (auto simp: session_next_def plain_session_def speculation_enabled_def plain_scores_def Let_def
      split: sum.splits prod.splits intro!: that)

text \<open>A session that has selected what its reference selects ends the step like it.\<close>

lemma agrees_emit:
  assumes r: "plain_session r" "\<not> s_finished r" "s_generated r < s_max_tokens r"
    and f: "forward (ar_f ar) m (s_context r) = Inr scores"
    and sel: "select_token ar scores (s_context r) config inputs (s_random_state r) = Inr (selected, u)"
    and ref: "session_next ar m capacity config inputs (r, q) = ((r', q'), Inr out')"
    and em: "emit_token m capacity selected scores s2 = (s', Inr out)"
    and s2: "s_max_tokens s2 = s_max_tokens r" "s_generated s2 = Suc (s_generated r)" "\<not> s_finished s2"
      "s_emitted_visible_token s2 = s_emitted_visible_token r" "s_random_state s2 = u"
      "s_context s2 = end_context m (slide m (s_context r) (sr_token_id selected)) (s_speculative_buffer s2)"
    and plan: "s_speculative_buffer s2 \<noteq> [] \<Longrightarrow> is_greedy (ar_f ar) config \<and>
      plan_ok ar m config inputs (slide m (s_context r) (sr_token_id selected)) (s_speculative_buffer s2)"
  shows "out = out' \<and> agrees ar m (Some (config, inputs)) s' r' \<and>
    s_context r' = slide m (s_context r) (sr_token_id selected)"
proof -
  obtain r1 where r1: "emit_token m capacity selected scores r1 = (r', Inr out')"
    "plain_session r1" "s_context r1 = slide m (s_context r) (sr_token_id selected)" "s_random_state r1 = u"
    "s_generated r1 = Suc (s_generated r)" "s_max_tokens r1 = s_max_tokens r" "\<not> s_finished r1"
    "s_emitted_visible_token r1 = s_emitted_visible_token r"
    by (rule plain_session_next[OF r f sel ref])
  have "s_emitted_visible_token r1 = s_emitted_visible_token s2" "s_finished r1 = s_finished s2"
    using r1 s2 by simp_all
  from emit_token_agrees[OF em this] obtain r2 where e: "emit_token m capacity selected scores r1 = (r2, Inr out)"
    "r2 = r1 \<lparr> s_emitted_visible_token := s_emitted_visible_token s', s_finished := s_finished s' \<rparr>"
    "s' = s2 \<lparr> s_emitted_visible_token := s_emitted_visible_token s', s_finished := s_finished s' \<rparr>"
    by blast
  have same: "r2 = r'" "out = out'" using e(1) r1(1) by simp_all
  have s': "s_max_tokens s' = s_max_tokens s2" "s_generated s' = s_generated s2"
    "s_random_state s' = s_random_state s2" "s_context s' = s_context s2"
    "s_speculative_buffer s' = s_speculative_buffer s2"
    by (subst e(3), simp)+
  show ?thesis
    using same e(2) r1 s2 s' plan by (auto simp: agrees_def plain_session_def)
qed

lemma session_next_agrees:
  assumes ok: "session_ok (ar_f ar) m S (s, p)" and d: "0 < dimension m"
    and c: "ac_causal (m_attention m)" and cl: "2 \<le> context_length m" and ctx: "s_context r \<noteq> []"
    and ag: "agrees ar m call s r"
    and steady: "speculation_enabled s \<or> s_speculative_buffer s \<noteq> [] \<Longrightarrow> is_greedy (ar_f ar) config"
      "s_speculative_buffer s \<noteq> [] \<Longrightarrow> call = Some (config, inputs)"
    and e: "session_next ar m capacity config inputs (s, p) = ((s', p'), Inr out)"
    and ref: "session_next ar m capacity config inputs (r, q) = ((r', q'), Inr out')"
  shows "out = out' \<and> agrees ar m (Some (config, inputs)) s' r' \<and> s_context r' \<noteq> []"
proof (cases "s_finished s \<or> s_max_tokens s \<le> s_generated s")
  case True
  then have "s_finished r \<or> s_max_tokens r \<le> s_generated r" using ag by (simp add: agrees_def)
  then have "s' = s" "r' = r" "out = out'" using e ref True by (auto simp: session_next_def)
  then show ?thesis using ag steady(2) ctx by (auto simp: agrees_def)
next
  case live: False
  have r: "plain_session r" "\<not> s_finished r" "s_generated r < s_max_tokens r"
    using ag live by (auto simp: agrees_def)
  show ?thesis
  proof (cases "speculation_enabled s \<and> 2 \<le> s_max_tokens s - s_generated s \<and> length (s_context s) < context_length m \<or>
      s_speculative_buffer s \<noteq> []")
    case spec: True
    obtain s1 p1 r1 where pl: "plan_speculative ar m config inputs (s, p) = ((s1, p1), r1)" by (metis surj_pair)
    have g: "is_greedy (ar_f ar) config" using steady(1) spec by blast
    have r1: "r1 = Inr ()" using e live spec pl by (cases r1) (auto simp: session_next_def Let_def)
    have cs: "s_context s \<noteq> []" using ag end_context_nonempty[OF ctx cl] by (auto simp: agrees_def)
    have s1: "s_speculative_buffer s1 \<noteq> [] \<and> s_random_state s1 = s_random_state r \<and>
        plan_ok ar m config inputs (s_context r) (s_speculative_buffer s1) \<and>
        s_context s1 = end_context m (s_context r) (s_speculative_buffer s1) \<and>
        s_max_tokens s1 = s_max_tokens r \<and> s_generated s1 = s_generated r \<and> \<not> s_finished s1 \<and>
        s_emitted_visible_token s1 = s_emitted_visible_token r"
    proof (cases "s_speculative_buffer s = []")
      case True
      then show ?thesis
        using plan_speculative_ok[OF ok True c cs pl] r1 g ag r
        by (simp add: agrees_def same_core_def)
    next
      case False
      then have "s1 = s" using pl by (auto simp: plan_speculative_def)
      then show ?thesis using False ag steady(2) r by (auto simp: agrees_def)
    qed
    then obtain st B where b: "s_speculative_buffer s1 = st # B" by (cases "s_speculative_buffer s1") auto
    define s2 where "s2 = s1 \<lparr> s_speculative_buffer := B, s_generated := s_generated s1 + 1 \<rparr>"
    have em: "emit_token m capacity (sp_selection st) (sp_target_logits st) s2 = (s', Inr out)"
      using e live spec pl r1 b by (auto simp: session_next_def Let_def s2_def split: prod.splits)
    have f: "forward (ar_f ar) m (s_context r) = Inr (sp_target_logits st)"
      and sel: "select_token ar (sp_target_logits st) (s_context r) config inputs (s_random_state r) =
        Inr (sp_selection st, s_random_state r)"
      using s1 b by auto
    have "out = out' \<and> agrees ar m (Some (config, inputs)) s' r' \<and>
        s_context r' = slide m (s_context r) (sr_token_id (sp_selection st))"
      by (rule agrees_emit[OF r f sel ref em])
         (use s1 b g in \<open>simp_all add: s2_def end_context_def sp_token_def\<close>)
    then show ?thesis using slide_nonempty[OF ctx cl] by simp
  next
    case plain: False
    then have buf: "s_speculative_buffer s = []" by simp
    have cr: "s_context s = s_context r" "s_random_state s = s_random_state r"
      using ag buf by (simp_all add: agrees_def)
    obtain s1 p1 r1 where ps: "plain_scores (ar_f ar) m (s, p) = ((s1, p1), r1)" by (metis surj_pair)
    note k = plain_scores_ok[OF ok d c ps]
    obtain scores selected u where f: "forward (ar_f ar) m (s_context r) = Inr scores"
      and sel: "select_token ar scores (s_context r) config inputs (s_random_state r) = Inr (selected, u)"
      by (rule plain_session_inv[OF r ref])
    obtain scores1 where r1: "r1 = Inr scores1"
      using e live plain ps by (cases r1) (auto simp: session_next_def Let_def)
    then have sc: "scores1 = scores" using k f cr by auto
    define s3 where "s3 = s1 \<lparr> s_target_forward_calls := inc64 (s_target_forward_calls s1),
        s_random_state := u, s_generated := s_generated s1 + 1 \<rparr>"
    have core1: "same_core s s1" using k by blast
    have ok3: "session_ok (ar_f ar) m S (s3, p1)"
      using session_ok_fields[of "ar_f ar" m S s1 p1 s3] k by (simp add: s3_def)
    obtain s4 p4 r4 where ac: "append_context m (sr_token_id selected) (s3, p1) = ((s4, p4), r4)"
      by (metis surj_pair)
    note k4 = append_context_ok[OF ok3 ac]
    have em: "emit_token m capacity selected scores s4 = (s', Inr out)"
      using e live plain ps r1 sc sel cr core1 ac k4
      by (auto simp: session_next_def Let_def s3_def same_core_def split: prod.splits)
    have "out = out' \<and> agrees ar m (Some (config, inputs)) s' r' \<and>
        s_context r' = slide m (s_context r) (sr_token_id selected)"
      by (rule agrees_emit[OF r f sel ref em])
         (use k4 core1 ag buf cr live in \<open>auto simp: s3_def same_core_def agrees_def\<close>)
    then show ?thesis using slide_nonempty[OF ctx cl] by simp
  qed
qed


section \<open>The invariant\<close>

definition live_refs :: "(nat \<times> 'f live) list \<Rightarrow> nat multiset" where
  "live_refs L = mset (concat (map (\<lambda>x. bt_pages (s_table (lv_session (snd x)))) L))"

definition live_ok :: "('f, 'd) arith \<Rightarrow> 'f model \<Rightarrow> nat \<Rightarrow> 'f live \<Rightarrow> bool" where
  "live_ok ar m capacity lv \<longleftrightarrow>
     s_context (lv_session lv) \<noteq> [] \<and>
     (speculation_enabled (lv_session lv) \<or> s_speculative_buffer (lv_session lv) \<noteq> [] \<longrightarrow> 0 < lv_speculative lv) \<and>
     (\<forall>q r outs. steady (ar_f ar) lv \<longrightarrow>
        decode_alone ar m capacity q (lv_calls lv) (reference_session m lv) = Inr (r, outs) \<longrightarrow>
        outs = lv_outputs lv \<and> s_context r \<noteq> [] \<and>
        agrees ar m (if lv_calls lv = [] then None else Some (last (lv_calls lv))) (lv_session lv) r)"

definition runtime_ok :: "('f, 'd) arith \<Rightarrow> 'f model \<Rightarrow> nat \<Rightarrow> 'f runtime \<Rightarrow> bool" where
  "runtime_ok ar m capacity rt \<longleftrightarrow>
     pool_ok (live_refs (rt_live rt)) (rt_pool rt) \<and> prefixes_ok (ar_f ar) m (rt_pool rt) \<and>
     distinct (map fst (rt_live rt)) \<and>
     (\<forall>(sid, lv) \<in> set (rt_live rt). cache_ok (ar_f ar) m (lv_session lv) (rt_pool rt) \<and> live_ok ar m capacity lv)"

lemma live_refs_split:
  assumes "distinct (map fst L)" "map_of L sid = Some lv"
  shows "live_refs L = live_refs (drop_live sid L) + mset (bt_pages (s_table (lv_session lv)))"
proof -
  have m: "(sid, lv) \<in> set L" using assms(2) by (rule map_of_SomeD)
  have "drop_live sid L = remove1 (sid, lv) L"
    using filter_distinct_fst[OF assms(1) m] by (simp add: drop_live_def)
  then show ?thesis
    using mset_concat_remove1[OF m, of "\<lambda>x. bt_pages (s_table (lv_session (snd x)))"]
    by (simp add: live_refs_def ac_simps)
qed

lemma cache_ok_frame:
  assumes "cache_ok ops m s p" "frame S p p'" "set (bt_pages (s_table s)) \<subseteq> set_mset S" "0 < kp_page_tokens p"
  shows "cache_ok ops m s p'"
  using assms holds_frame[OF _ assms(2-4)] by (auto simp: cache_ok_def split: cache_mode.splits)

lemma live_refs_in: "(sid, lv) \<in> set L \<Longrightarrow> set (bt_pages (s_table (lv_session lv))) \<subseteq> set_mset (live_refs L)"
  by (force simp: live_refs_def)

text \<open>The other sessions of a runtime whose step respects their pages.\<close>

lemma others_ok:
  assumes ok: "runtime_ok ar m capacity rt" and f: "frame (live_refs L) (rt_pool rt) p'"
    and sub: "set L \<subseteq> set (rt_live rt)"
  shows "\<forall>(sid, lv) \<in> set L. cache_ok (ar_f ar) m (lv_session lv) p' \<and> live_ok ar m capacity lv"
proof (intro ballI, clarify)
  fix sid lv assume a: "(sid, lv) \<in> set L"
  then have "cache_ok (ar_f ar) m (lv_session lv) (rt_pool rt)" "live_ok ar m capacity lv"
    using ok sub by (auto simp: runtime_ok_def)
  then show "cache_ok (ar_f ar) m (lv_session lv) p' \<and> live_ok ar m capacity lv"
    using cache_ok_frame[OF _ f live_refs_in[OF a]] ok by (auto simp: runtime_ok_def pool_ok_tokens)
qed

lemma drop_live_props:
  "set (drop_live sid L) \<subseteq> set L" "sid \<notin> fst ` set (drop_live sid L)"
  "distinct (map fst L) \<Longrightarrow> distinct (map fst (drop_live sid L))"
  by (auto simp: drop_live_def distinct_map_filter)

lemma session_free_ok:
  assumes "session_ok ops m S (s, p)"
  shows "pool_ok S (session_free s p) \<and> prefixes_ok ops m (session_free s p) \<and> frame S p (session_free s p)"
proof (cases "s_cache_mode s = Paged")
  case True
  have ok: "pool_ok (S + mset (bt_pages (s_table s))) p" and pre: "prefixes_ok ops m p"
    using assms by (simp_all add: session_ok_def)
  obtain p' where p': "release_table (s_table s) p = ((p', s_table s \<lparr> bt_pages := [] \<rparr>), Inr ())"
    "pool_ok S p'" "keeps S p p'"
    by (rule release_table_ok[OF ok])
  then show ?thesis
    using True prefixes_ok_mono[OF pre keeps_prefix_views[OF ok p'(3)]] keeps_frame[OF p'(3)]
    by (simp add: session_free_def)
next
  case False
  then have "bt_pages (s_table s) = []" using assms by (cases "s_cache_mode s") (auto simp: session_ok_def cache_ok_def)
  then show ?thesis using assms False by (simp add: session_ok_def session_free_def)
qed

lemma runtime_session_ok:
  assumes "runtime_ok ar m capacity rt" "map_of (rt_live rt) sid = Some lv"
  shows "session_ok (ar_f ar) m (live_refs (drop_live sid (rt_live rt))) (lv_session lv, rt_pool rt)"
    "live_ok ar m capacity lv"
proof -
  have m: "(sid, lv) \<in> set (rt_live rt)" using assms(2) by (rule map_of_SomeD)
  have "distinct (map fst (rt_live rt))" using assms(1) by (simp add: runtime_ok_def)
  from live_refs_split[OF this assms(2)]
  show "session_ok (ar_f ar) m (live_refs (drop_live sid (rt_live rt))) (lv_session lv, rt_pool rt)"
    "live_ok ar m capacity lv"
    using assms(1) m by (auto simp: runtime_ok_def session_ok_def)
qed

lemma freed_ok:
  assumes ok: "runtime_ok ar m capacity rt"
    and s: "session_ok (ar_f ar) m (live_refs (drop_live sid (rt_live rt))) (s, p)"
    and f: "frame (live_refs (drop_live sid (rt_live rt))) (rt_pool rt) p"
  shows "runtime_ok ar m capacity \<lparr> rt_pool = session_free s p, rt_live = drop_live sid (rt_live rt) \<rparr>"
proof -
  let ?S = "live_refs (drop_live sid (rt_live rt))"
  have fr: "pool_ok ?S (session_free s p)" "prefixes_ok (ar_f ar) m (session_free s p)" "frame ?S p (session_free s p)"
    using session_free_ok[OF s] by simp_all
  have "frame ?S (rt_pool rt) (session_free s p)" by (rule frame_trans[OF f fr(3)]) simp
  then show ?thesis
    using fr others_ok[OF ok _ drop_live_props(1)] drop_live_props(3)[where L = "rt_live rt" and sid = sid] ok
    by (simp add: runtime_ok_def)
qed

lemma foldR_snoc: "foldR f (xs @ [x]) s = and_then (foldR f xs s) (f x)"
  by (induction xs arbitrary: s) (auto simp: and_then_def split: sum.splits)

lemma decode_alone_snoc:
  "decode_alone ar m capacity q (calls @ [(config, inputs)]) s = Inr (r', outs') \<longleftrightarrow>
   (\<exists>r outs out q'. decode_alone ar m capacity q calls s = Inr (r, outs) \<and>
      session_next ar m capacity config inputs (r, q) = ((r', q'), Inr out) \<and> outs' = outs @ [out])"
proof (cases "decode_alone ar m capacity q calls s")
  case (Inl e)
  then show ?thesis by (simp add: decode_alone_def foldR_snoc)
next
  case (Inr x)
  obtain r outs where x: "x = (r, outs)" by (cases x)
  obtain r1 q1 y where y: "session_next ar m capacity config inputs (r, q) = ((r1, q1), y)"
    by (metis surj_pair)
  show ?thesis using Inr x y by (cases y) (auto simp: decode_alone_def foldR_snoc)
qed

lemma steady_snoc:
  assumes "steady ops (lv \<lparr> lv_session := s, lv_calls := lv_calls lv @ [(config, inputs)], lv_outputs := os \<rparr>)"
  shows "steady ops lv" "0 < lv_speculative lv \<Longrightarrow> is_greedy ops config"
    "0 < lv_speculative lv \<Longrightarrow> lv_calls lv \<noteq> [] \<Longrightarrow> last (lv_calls lv) = (config, inputs)"
proof -
  show "steady ops lv" "0 < lv_speculative lv \<Longrightarrow> is_greedy ops config"
    using assms by (cases "lv_calls lv"; auto simp: steady_def list_all_iff)+
  assume a: "0 < lv_speculative lv" "lv_calls lv \<noteq> []"
  then have "\<forall>c\<in>set (lv_calls lv @ [(config, inputs)]). c = hd (lv_calls lv @ [(config, inputs)])"
    using assms by (auto simp: steady_def list_all_iff)
  then have "last (lv_calls lv) = hd (lv_calls lv @ [(config, inputs)])"
    "(config, inputs) = hd (lv_calls lv @ [(config, inputs)])"
    using a by (auto simp: last_in_set)
  then show "last (lv_calls lv) = (config, inputs)" by simp
qed


lemma next_live_ok:
  assumes s: "session_ok (ar_f ar) m S (lv_session lv, p)" and d: "0 < dimension m"
    and c: "ac_causal (m_attention m)" and cl: "2 \<le> context_length m" and l: "live_ok ar m capacity lv"
    and e: "session_next ar m capacity config inputs (lv_session lv, p) = ((s', p'), Inr out)"
  shows "live_ok ar m capacity (lv \<lparr> lv_session := s', lv_calls := lv_calls lv @ [(config, inputs)],
    lv_outputs := lv_outputs lv @ [out] \<rparr>)" (is "live_ok ar m capacity ?lv")
proof -
  have ctx: "s_context (lv_session lv) \<noteq> []" using l by (simp add: live_ok_def)
  note k = session_next_keeps[OF s d c ctx e cl]
  have spec: "speculation_enabled s' \<or> s_speculative_buffer s' \<noteq> [] \<Longrightarrow> 0 < lv_speculative lv"
    using k l by (auto simp: live_ok_def still_speculates_def speculation_enabled_def)
  have "outs = lv_outputs ?lv \<and> s_context r' \<noteq> [] \<and> agrees ar m (Some (config, inputs)) s' r'"
    if st: "steady (ar_f ar) ?lv"
      and da: "decode_alone ar m capacity q (lv_calls lv @ [(config, inputs)]) (reference_session m lv) = Inr (r', outs)"
    for q r' outs
  proof -
    from da obtain r os o' q' where r: "decode_alone ar m capacity q (lv_calls lv) (reference_session m lv) = Inr (r, os)"
      "session_next ar m capacity config inputs (r, q) = ((r', q'), Inr o')" "outs = os @ [o']"
      by (auto simp: decode_alone_snoc)
    note sty = steady_snoc[OF st]
    let ?call = "if lv_calls lv = [] then None else Some (last (lv_calls lv))"
    have ag: "os = lv_outputs lv" "s_context r \<noteq> []" "agrees ar m ?call (lv_session lv) r"
      using l sty(1) r(1) by (auto simp: live_ok_def)
    have g: "is_greedy (ar_f ar) config"
      if "speculation_enabled (lv_session lv) \<or> s_speculative_buffer (lv_session lv) \<noteq> []"
      using that l sty(2) by (auto simp: live_ok_def)
    have call: "?call = Some (config, inputs)" if b: "s_speculative_buffer (lv_session lv) \<noteq> []"
    proof -
      have "0 < lv_speculative lv" using b l by (auto simp: live_ok_def)
      moreover have "lv_calls lv \<noteq> []" using ag(3) b by (auto simp: agrees_def split: if_splits)
      ultimately show ?thesis using sty(3) by simp
    qed
    show ?thesis
      using session_next_agrees[OF s d c cl ag(2,3) g call e r(2)] ag(1) r(3) by simp
  qed
  then show ?thesis using k spec by (auto simp: live_ok_def reference_session_def)
qed

lemma tokenize_nonempty: "2 \<le> context_length m \<Longrightarrow> tokenize m prompt \<noteq> []"
  by (simp add: tokenize_def Let_def)

lemma create_ok:
  assumes ok: "pool_ok S p" "prefixes_ok ops m p"
    and e: "session_create m draft prompt max_tokens mode seed k p = (p', r)"
  shows "frame S p p' \<and>
    (case r of Inl _ \<Rightarrow> pool_ok S p' \<and> prefixes_ok ops m p'
     | Inr s \<Rightarrow> session_ok ops m S (s, p') \<and>
         same_core (new_session m draft prompt max_tokens (s_cache_mode s) seed k) s \<and>
         ((draft = None) = (k = 0)))"
proof (cases "r")
  case (Inl x)
  have a: "\<exists>p' y. acquire_longest_prefix ctx p = (p', Inr y)" for ctx
    using acquire_prefix_ok[OF ok(1), of ctx] by metis
  have "p' = p" using e Inl a[of "tokenize m prompt"]
    by (auto simp: session_create_def new_session_def Let_def split: if_splits option.splits sum.splits prod.splits)
  then show ?thesis using ok Inl by simp
next
  case (Inr s)
  define mode' where "mode' = (if mode = 0 then Recompute else if mode = 1 then Contiguous else Paged)"
  define s0 where "s0 = new_session m draft prompt max_tokens mode' seed k"
  have dk: "(draft = None) = (k = 0)" using e Inr by (auto simp: session_create_def split: if_splits)
  have fields: "s_context s0 = tokenize m prompt" "s_prompt_context s0 = tokenize m prompt"
    "s_cache_mode s0 = mode'" "s_cache s0 = []" "s_prompt_published s0 = False"
    by (simp_all add: s0_def new_session_def Let_def)
  show ?thesis
  proof (cases "mode' = Paged")
    case False
    then have "s = s0" "p' = p"
      using e Inr fields by (auto simp: session_create_def Let_def s0_def mode'_def split: if_splits)
    moreover have "bt_pages (s_table s0) = []" by (simp add: s0_def new_session_def Let_def)
    moreover have "cache_ok ops m s0 p"
      using False fields calculation(3) by (cases mode') (auto simp: cache_ok_def describes_def)
    ultimately show ?thesis using ok Inr dk fields by (simp add: session_ok_def s0_def)
  next
    case True
    obtain p1 pages n hit where aq: "acquire_longest_prefix (tokenize m prompt) p = (p1, Inr (pages, n, hit))"
      "pool_ok (S + mset pages) p1" "frame S p p1" "prefix_views p1 \<subseteq> prefix_views p"
      "holds p1 pages n" "n \<le> length (tokenize m prompt)"
      "n = 0 \<and> pages = [] \<or> (take n (tokenize m prompt), view p1 pages n) \<in> prefix_views p"
      by (rule acquire_prefix_ok[OF ok(1), of "tokenize m prompt"])
    have b: "(if mode' = Paged then
             (case acquire_longest_prefix (s_context s0) p of
                (p, Inl e) \<Rightarrow> (p, Inl e)
              | (p, Inr (pages, tokens, hit)) \<Rightarrow>
                  (p, Inr (s0 \<lparr> s_table := \<lparr> bt_pages = pages, bt_cached = tokens, bt_copies = 0 \<rparr>,
                               s_prefix_cache_hit := hit, s_prefix_tokens_reused := tokens,
                               s_prompt_published := (hit \<and> tokens = length (s_prompt_context s0)) \<rparr>)))
           else (p, Inr s0)) = (p', Inr s)"
      using e unfolding Inr session_create_def Let_def mode'_def[symmetric] s0_def[symmetric] fields(3)
      by (simp only: split: if_splits) simp_all
    have s: "p' = p1" "s = s0 \<lparr> s_table := \<lparr> bt_pages = pages, bt_cached = n, bt_copies = 0 \<rparr>,
        s_prefix_cache_hit := hit, s_prefix_tokens_reused := n,
        s_prompt_published := (hit \<and> n = length (s_prompt_context s0)) \<rparr>"
      using b True aq(1) unfolding fields(1) by simp_all
    have "describes ops m (tokenize m prompt) (view p1 pages n)"
      using aq(7)
    proof
      assume "n = 0 \<and> pages = []"
      then show ?thesis by (simp add: describes_def view_def)
    next
      assume "(take n (tokenize m prompt), view p1 pages n) \<in> prefix_views p"
      then have "describes ops m (take n (tokenize m prompt)) (view p1 pages n)"
        using ok(2) by (auto simp: prefixes_ok_def)
      then show ?thesis by (rule describes_prefix)
    qed
    then have "cache_ok ops m s p1" using aq(5) s(2) fields True by (simp add: cache_ok_def)
    then show ?thesis
      using aq(2,3) prefixes_ok_mono[OF ok(2) aq(4)] s Inr dk fields True
      by (simp add: session_ok_def same_core_def s0_def)
  qed
qed

lemma created_live_ok:
  assumes cl: "2 \<le> context_length m"
    and core: "same_core (new_session m draft prompt max_tokens mode seed k) s" and dk: "(draft = None) = (k = 0)"
  shows "live_ok ar m capacity \<lparr> lv_prompt = prompt, lv_max_tokens = max_tokens, lv_seed = seed,
    lv_speculative = k, lv_session = s, lv_calls = [], lv_outputs = [] \<rparr>"
  using assms tokenize_nonempty[OF cl, of prompt]
  by (auto simp: live_ok_def same_core_def new_session_def Let_def speculation_enabled_def decode_alone_def
      reference_session_def agrees_def plain_session_def)

lemma runtime_step_ok:
  assumes ok: "runtime_ok ar m capacity rt" and d: "0 < dimension m"
    and c: "ac_causal (m_attention m)" and cl: "2 \<le> context_length m"
  shows "runtime_ok ar m capacity (runtime_step ar m draft capacity ev rt)"
proof (cases ev)
  case (Create sid prompt max_tokens mode seed k)
  show ?thesis
  proof (cases "map_of (rt_live rt) sid")
    case None
    obtain p' r where e: "session_create m (if k = 0 then None else Some draft) prompt max_tokens mode seed k (rt_pool rt) = (p', r)"
      by (metis surj_pair)
    have "pool_ok (live_refs (rt_live rt)) (rt_pool rt)" "prefixes_ok (ar_f ar) m (rt_pool rt)"
      using ok by (simp_all add: runtime_ok_def)
    note cr = create_ok[OF this e]
    have oth: "\<forall>(sid, lv) \<in> set (rt_live rt). cache_ok (ar_f ar) m (lv_session lv) p' \<and> live_ok ar m capacity lv"
      using others_ok[OF ok _ subset_refl] cr by blast
    show ?thesis
    proof (cases r)
      case (Inl x)
      then show ?thesis using Create None e cr oth ok by (simp add: runtime_step_def runtime_ok_def)
    next
      case (Inr s)
      have "live_ok ar m capacity \<lparr> lv_prompt = prompt, lv_max_tokens = max_tokens, lv_seed = seed,
          lv_speculative = k, lv_session = s, lv_calls = [], lv_outputs = [] \<rparr>"
        by (rule created_live_ok[OF cl, where draft = "if k = 0 then None else Some draft" and mode = "s_cache_mode s"])
           (use cr Inr in simp_all)
      then show ?thesis
        using Create None e cr Inr oth ok
        by (auto simp: runtime_step_def runtime_ok_def session_ok_def live_refs_def ac_simps map_of_eq_None_iff)
    qed
  qed (use Create ok in \<open>simp add: runtime_step_def\<close>)
next
  case (Next sid config inputs)
  show ?thesis
  proof (cases "map_of (rt_live rt) sid")
    case (Some lv)
    let ?L = "drop_live sid (rt_live rt)"
    note s = runtime_session_ok[OF ok Some]
    have ctx: "s_context (lv_session lv) \<noteq> []" using s(2) by (simp add: live_ok_def)
    obtain s' p' r where e: "session_next ar m capacity config inputs (lv_session lv, rt_pool rt) = ((s', p'), r)"
      by (metis surj_pair)
    note k = session_next_keeps[OF s(1) d c ctx e cl]
    show ?thesis
    proof (cases r)
      case (Inl x)
      then show ?thesis using Next Some e k freed_ok[OF ok, of sid s' p'] by (simp add: runtime_step_def)
    next
      case (Inr out)
      have "live_ok ar m capacity (lv \<lparr> lv_session := s', lv_calls := lv_calls lv @ [(config, inputs)],
          lv_outputs := lv_outputs lv @ [out] \<rparr>)"
        by (rule next_live_ok[OF s(1) d c cl s(2)]) (use e Inr in simp)
      moreover have "\<forall>(sid, lv) \<in> set ?L. cache_ok (ar_f ar) m (lv_session lv) p' \<and> live_ok ar m capacity lv"
        using others_ok[OF ok _ drop_live_props(1)] k by blast
      ultimately show ?thesis
        using Next Some e k Inr ok drop_live_props(2)[where L = "rt_live rt" and sid = sid] drop_live_props(3)[where L = "rt_live rt" and sid = sid]
        by (auto simp: runtime_step_def runtime_ok_def session_ok_def live_refs_def ac_simps)
    qed
  qed (use Next ok in \<open>simp add: runtime_step_def\<close>)
next
  case (Free sid)
  show ?thesis
  proof (cases "map_of (rt_live rt) sid")
    case (Some lv)
    then show ?thesis
      using Free freed_ok[OF ok runtime_session_ok(1)[OF ok Some]] by (simp add: runtime_step_def)
  qed (use Free ok in \<open>simp add: runtime_step_def\<close>)
qed

lemma runtime_run_ok:
  assumes "new_pool ops dim page_tokens page_count prefix_capacity = Inr pool"
    and "0 < dimension m" "ac_causal (m_attention m)" "2 \<le> context_length m"
  shows "runtime_ok ar m capacity (runtime_run ar m draft capacity pool evs)"
proof -
  have "runtime_ok ar m capacity \<lparr> rt_pool = pool, rt_live = [] \<rparr>"
    using new_pool_ok[OF assms(1)] by (simp add: runtime_ok_def live_refs_def prefixes_ok_def)
  moreover have "runtime_ok ar m capacity rt \<Longrightarrow> runtime_ok ar m capacity (fold (runtime_step ar m draft capacity) evs rt)" for rt
    by (induction evs arbitrary: rt) (simp_all add: runtime_step_ok[OF _ assms(2-4)])
  ultimately show ?thesis by (simp add: runtime_run_def)
qed

end
