(* ===== verification/Spec2Isabelle.thy ===== *)
theory Spec2Isabelle
  imports Raft_Writes Batch_Queue_Props Circuit_Breaker_Props Routing_Fairness Control_Props Service_Props
    Gateway_Props Worker_Runtime
begin

text \<open>
  InferLab: a verification development.
\<close>

end
